(* ===== verification/Prelude.thy ===== *)
theory Prelude
  imports Main "HOL-Library.Word" "HOL-Library.List_Lexorder" "HOL-Library.Product_Lexorder"
begin

text \<open>
  Shared vocabulary of the development: the machine integers and byte strings of the Rust
  code, \<open>Result\<close> values as sums, fixed-width integer encodings
  (\<open>to_be_bytes\<close>, \<open>from_le_bytes\<close>, ...), the \<open>[u8; 32]\<close> array type, and the
  collections of rewrite rules that the component theories extend.
\<close>

named_theorems params
  \<comment> \<open>unfolding of the consensus constants\<close>
named_theorems codec
  \<comment> \<open>unfolding and round-trip rules of the byte encoders\<close>

section \<open>Machine integers and byte strings\<close>

type_synonym u8 = "8 word"
type_synonym u16 = "16 word"
type_synonym u32 = "32 word"
type_synonym u64 = "64 word"
type_synonym bytes = "u8 list"

lemma unat_u8_less [simp]: "unat (b :: u8) < 256"
  using unsigned_less [of b] by simp

lemma unat_u16_less [simp]: "unat (w :: u16) < 65536"
  using unsigned_less [of w] by simp

lemma unat_u32_less [simp]: "unat (w :: u32) < 4294967296"
  using unsigned_less [of w] by simp

lemma unat_of_nat_u8 [simp]: "unat (of_nat n :: u8) = n mod 256"
  by (simp add: unat_of_nat)

lemma unat_of_nat_u16 [simp]: "unat (of_nat n :: u16) = n mod 65536"
  by (simp add: unat_of_nat)

lemma unat_of_nat_u32 [simp]: "unat (of_nat n :: u32) = n mod 4294967296"
  by (simp add: unat_of_nat)

lemma unat_of_nat_u64 [simp]: "unat (of_nat n :: u64) = n mod 18446744073709551616"
  by (simp add: unat_of_nat)

lemma unat_inject: "unat (a :: 'a::len word) = unat b \<longleftrightarrow> a = b"
  by (metis of_nat_unat ucast_id)

lemma u8_eq_0_iff: "(b :: u8) = 0 \<longleftrightarrow> unat b = 0"
  by (simp add: unat_eq_0)

lemma unat_ucast_up:
  "LENGTH('a) \<le> LENGTH('b) \<Longrightarrow> unat (ucast (w :: 'a::len word) :: 'b::len word) = unat w"
  by (simp add: unsigned_ucast_eq)
    (metis order_less_le_trans power_increasing one_le_numeral take_bit_nat_eq_self_iff
      unsigned_less)

lemma unat_ucast_16_32 [simp]: "unat (ucast (w :: u16) :: u32) = unat w"
  by (rule unat_ucast_up) simp

lemma unat_ucast_32_64 [simp]: "unat (ucast (w :: u32) :: u64) = unat w"
  by (rule unat_ucast_up) simp

section \<open>Results\<close>

text \<open>\<open>Result<T, E>\<close> is a sum with the error on the left.\<close>

type_synonym ('e, 'a) result = "'e + 'a"

abbreviation Err :: "'e \<Rightarrow> ('e, 'a) result" where
  "Err \<equiv> Inl"

abbreviation Ok :: "'a \<Rightarrow> ('e, 'a) result" where
  "Ok \<equiv> Inr"

text \<open>The operator \<open>?\<close>.\<close>

fun and_then :: "('e, 'a) result \<Rightarrow> ('a \<Rightarrow> ('e, 'b) result) \<Rightarrow> ('e, 'b) result" where
  "and_then (Inl e) k = Inl e"
| "and_then (Inr x) k = k x"

lemma and_then_Ok_iff [simp]: "and_then r k = Ok y \<longleftrightarrow> (\<exists>x. r = Ok x \<and> k x = Ok y)"
  by (cases r) auto

lemma and_then_Err_iff:
  "and_then r k = Err e \<longleftrightarrow> r = Err e \<or> (\<exists>x. r = Ok x \<and> k x = Err e)"
  by (cases r) auto

fun map_err :: "('e \<Rightarrow> 'f) \<Rightarrow> ('e, 'a) result \<Rightarrow> ('f, 'a) result" where
  "map_err f (Inl e) = Inl (f e)"
| "map_err f (Inr x) = Inr x"

lemma map_err_Ok_iff [simp]: "map_err f r = Ok x \<longleftrightarrow> r = Ok x"
  by (cases r) auto

fun ok_or :: "'e \<Rightarrow> 'a option \<Rightarrow> ('e, 'a) result" where
  "ok_or e None = Err e"
| "ok_or e (Some x) = Ok x"

lemma ok_or_Ok_iff [simp]: "ok_or e x = Ok y \<longleftrightarrow> x = Some y"
  by (cases x) auto

fun is_ok :: "('e, 'a) result \<Rightarrow> bool" where
  "is_ok (Inl e) = False"
| "is_ok (Inr x) = True"

lemma is_ok_iff: "is_ok r \<longleftrightarrow> (\<exists>x. r = Ok x)"
  by (cases r) auto

text \<open>A \<open>for\<close> loop whose body may return early with an error.\<close>

fun fold_res :: "('a \<Rightarrow> 's \<Rightarrow> ('e, 's) result) \<Rightarrow> 'a list \<Rightarrow> 's \<Rightarrow> ('e, 's) result" where
  "fold_res f [] s = Ok s"
| "fold_res f (x # xs) s = and_then (f x s) (fold_res f xs)"

lemma fold_res_append [simp]:
  "fold_res f (xs @ ys) s = and_then (fold_res f xs s) (fold_res f ys)"
proof (induction xs arbitrary: s)
  case (Cons x xs)
  then show ?case by (cases "f x s") auto
qed simp

lemma fold_res_invariant:
  assumes "fold_res f xs s = Ok t" "P s"
    and "\<And>x s s'. x \<in> set xs \<Longrightarrow> P s \<Longrightarrow> f x s = Ok s' \<Longrightarrow> P s'"
  shows "P t"
  using assms
proof (induction xs arbitrary: s)
  case (Cons x xs)
  then obtain s' where "f x s = Ok s'" "fold_res f xs s' = Ok t" by auto
  with Cons show ?case by auto
qed simp

section \<open>Fallible steps on a state\<close>

text \<open>A call on mutable state that returns a \<open>Result\<close>; the operator \<open>?\<close> keeps the state it reached.\<close>

type_synonym ('s, 'e, 'a) step = "'s \<Rightarrow> 's \<times> ('e, 'a) result"

definition return_step :: "'a \<Rightarrow> ('s, 'e, 'a) step" where
  "return_step x s = (s, Ok x)"

definition lift_step :: "('e, 'a) result \<Rightarrow> ('s, 'e, 'a) step" where
  "lift_step r s = (s, r)"

definition bind_step :: "('s, 'e, 'a) step \<Rightarrow> ('a \<Rightarrow> ('s, 'e, 'b) step) \<Rightarrow> ('s, 'e, 'b) step" where
  "bind_step m k s = (case m s of (s1, Inl e) \<Rightarrow> (s1, Inl e) | (s1, Inr x) \<Rightarrow> k x s1)"

lemma return_step_simp [simp]: "return_step x s = (s, Ok x)"
  by (simp add: return_step_def)

lemma lift_step_simp [simp]: "lift_step r s = (s, r)"
  by (simp add: lift_step_def)

lemma bind_step_Ok: "m s = (s1, Ok x) \<Longrightarrow> bind_step m k s = k x s1"
  by (simp add: bind_step_def)

lemma bind_step_Err: "m s = (s1, Err e) \<Longrightarrow> bind_step m k s = (s1, Err e)"
  by (simp add: bind_step_def)

lemma bind_stepE:
  assumes "bind_step m k s = (s', r)"
  obtains (failed) e where "m s = (s', Err e)" "r = Err e"
    | (ok) s1 x where "m s = (s1, Ok x)" "k x s1 = (s', r)"
  using assms by (cases "m s") (auto simp: bind_step_def split: sum.splits)

section \<open>Fixed-width integer encodings\<close>

text \<open>The \<open>n\<close> low-order bytes of a number, least significant first, and back.\<close>

fun nat_to_le :: "nat \<Rightarrow> nat \<Rightarrow> bytes" where
  "nat_to_le 0 m = []"
| "nat_to_le (Suc n) m = of_nat (m mod 256) # nat_to_le n (m div 256)"

fun nat_from_le :: "bytes \<Rightarrow> nat" where
  "nat_from_le [] = 0"
| "nat_from_le (b # bs) = unat b + 256 * nat_from_le bs"

lemma nat_to_le_numeral [simp]:
  "nat_to_le (numeral k) m = of_nat (m mod 256) # nat_to_le (pred_numeral k) (m div 256)"
  by (simp only: numeral_eq_Suc [of k] nat_to_le.simps)

lemma length_nat_to_le [simp]: "length (nat_to_le n m) = n"
  by (induction n m rule: nat_to_le.induct) auto

lemma nat_from_le_less: "nat_from_le bs < 256 ^ length bs"
proof (induction bs)
  case (Cons b bs)
  have "unat b + 256 * nat_from_le bs < 256 * (nat_from_le bs + 1)"
    by simp
  also have "\<dots> \<le> 256 * 256 ^ length bs"
    using Cons.IH by (intro mult_le_mono2) simp
  finally show ?case by simp
qed simp

lemma nat_from_le_to_le: "nat_from_le (nat_to_le n m) = m mod 256 ^ n"
proof (induction n m rule: nat_to_le.induct)
  case (2 n m)
  have "m mod (256 * 256 ^ n) = 256 * (m div 256 mod 256 ^ n) + m mod 256"
    by (rule mod_mult2_eq)
  with 2 show ?case by simp
qed simp

lemma nat_to_le_from_le [simp]: "nat_to_le (length bs) (nat_from_le bs) = bs"
proof (induction bs)
  case (Cons b bs)
  have "(unat b + 256 * nat_from_le bs) mod 256 = unat b"
    and "(unat b + 256 * nat_from_le bs) div 256 = nat_from_le bs"
    by (simp_all only: mod_mult_self2 div_mult_self2 mod_less div_less unat_u8_less)
  then show ?case
    by (simp only: length_Cons nat_from_le.simps nat_to_le.simps Cons.IH of_nat_unat ucast_id)
qed simp

lemma nat_to_le_from_le': "length bs = n \<Longrightarrow> nat_to_le n (nat_from_le bs) = bs"
  by auto

definition u16_to_be_bytes :: "u16 \<Rightarrow> bytes" where
  "u16_to_be_bytes w = rev (nat_to_le 2 (unat w))"

definition u16_from_be_bytes :: "bytes \<Rightarrow> u16" where
  "u16_from_be_bytes bs = of_nat (nat_from_le (rev bs))"

definition u32_to_be_bytes :: "u32 \<Rightarrow> bytes" where
  "u32_to_be_bytes w = rev (nat_to_le 4 (unat w))"

definition u32_from_be_bytes :: "bytes \<Rightarrow> u32" where
  "u32_from_be_bytes bs = of_nat (nat_from_le (rev bs))"

definition u64_to_be_bytes :: "u64 \<Rightarrow> bytes" where
  "u64_to_be_bytes w = rev (nat_to_le 8 (unat w))"

definition u64_from_be_bytes :: "bytes \<Rightarrow> u64" where
  "u64_from_be_bytes bs = of_nat (nat_from_le (rev bs))"

definition u16_to_le_bytes :: "u16 \<Rightarrow> bytes" where
  "u16_to_le_bytes w = nat_to_le 2 (unat w)"

definition u16_from_le_bytes :: "bytes \<Rightarrow> u16" where
  "u16_from_le_bytes bs = of_nat (nat_from_le bs)"

definition u32_to_le_bytes :: "u32 \<Rightarrow> bytes" where
  "u32_to_le_bytes w = nat_to_le 4 (unat w)"

definition u32_from_le_bytes :: "bytes \<Rightarrow> u32" where
  "u32_from_le_bytes bs = of_nat (nat_from_le bs)"

definition u64_to_le_bytes :: "u64 \<Rightarrow> bytes" where
  "u64_to_le_bytes w = nat_to_le 8 (unat w)"

definition u64_from_le_bytes :: "bytes \<Rightarrow> u64" where
  "u64_from_le_bytes bs = of_nat (nat_from_le bs)"

lemmas int_bytes_defs =
  u16_to_be_bytes_def u16_from_be_bytes_def u32_to_be_bytes_def u32_from_be_bytes_def
  u64_to_be_bytes_def u64_from_be_bytes_def u16_to_le_bytes_def u16_from_le_bytes_def
  u32_to_le_bytes_def u32_from_le_bytes_def u64_to_le_bytes_def u64_from_le_bytes_def

lemma length_int_bytes [simp]:
  "length (u16_to_be_bytes a) = 2" "length (u32_to_be_bytes b) = 4"
  "length (u64_to_be_bytes c) = 8" "length (u16_to_le_bytes a) = 2"
  "length (u32_to_le_bytes b) = 4" "length (u64_to_le_bytes c) = 8"
  unfolding int_bytes_defs by (simp_all only: length_rev length_nat_to_le)

lemma unat_u64_less [simp]: "unat (w :: u64) < 18446744073709551616"
  using unsigned_less [of w] by simp

lemma int_bytes_roundtrip [simp, codec]:
  "u16_from_be_bytes (u16_to_be_bytes a) = a" "u32_from_be_bytes (u32_to_be_bytes b) = b"
  "u64_from_be_bytes (u64_to_be_bytes c) = c" "u16_from_le_bytes (u16_to_le_bytes a) = a"
  "u32_from_le_bytes (u32_to_le_bytes b) = b" "u64_from_le_bytes (u64_to_le_bytes c) = c"
  unfolding int_bytes_defs rev_rev_ident nat_from_le_to_le by simp_all

lemma int_bytes_inj [simp]:
  "u16_to_be_bytes a = u16_to_be_bytes a' \<longleftrightarrow> a = a'"
  "u32_to_be_bytes b = u32_to_be_bytes b' \<longleftrightarrow> b = b'"
  "u64_to_be_bytes c = u64_to_be_bytes c' \<longleftrightarrow> c = c'"
  "u16_to_le_bytes a = u16_to_le_bytes a' \<longleftrightarrow> a = a'"
  "u32_to_le_bytes b = u32_to_le_bytes b' \<longleftrightarrow> b = b'"
  "u64_to_le_bytes c = u64_to_le_bytes c' \<longleftrightarrow> c = c'"
  by (metis int_bytes_roundtrip)+

lemma nat_from_le_small: "length bs = n \<Longrightarrow> nat_from_le bs mod 256 ^ n = nat_from_le bs"
  using nat_from_le_less [of bs] by simp

lemma u16_to_from_be [codec]: "length bs = 2 \<Longrightarrow> u16_to_be_bytes (u16_from_be_bytes bs) = bs"
  using nat_from_le_small [of "rev bs" 2] nat_to_le_from_le' [of "rev bs" 2]
  by (simp add: int_bytes_defs del: nat_to_le_numeral)

lemma u32_to_from_be [codec]: "length bs = 4 \<Longrightarrow> u32_to_be_bytes (u32_from_be_bytes bs) = bs"
  using nat_from_le_small [of "rev bs" 4] nat_to_le_from_le' [of "rev bs" 4]
  by (simp add: int_bytes_defs del: nat_to_le_numeral)

lemma u64_to_from_be [codec]: "length bs = 8 \<Longrightarrow> u64_to_be_bytes (u64_from_be_bytes bs) = bs"
  using nat_from_le_small [of "rev bs" 8] nat_to_le_from_le' [of "rev bs" 8]
  by (simp add: int_bytes_defs del: nat_to_le_numeral)

lemma u16_to_from_le [codec]: "length bs = 2 \<Longrightarrow> u16_to_le_bytes (u16_from_le_bytes bs) = bs"
  using nat_from_le_small [of bs 2] nat_to_le_from_le' [of bs 2]
  by (simp add: int_bytes_defs del: nat_to_le_numeral)

lemma u32_to_from_le [codec]: "length bs = 4 \<Longrightarrow> u32_to_le_bytes (u32_from_le_bytes bs) = bs"
  using nat_from_le_small [of bs 4] nat_to_le_from_le' [of bs 4]
  by (simp add: int_bytes_defs del: nat_to_le_numeral)

lemma u64_to_from_le [codec]: "length bs = 8 \<Longrightarrow> u64_to_le_bytes (u64_from_le_bytes bs) = bs"
  using nat_from_le_small [of bs 8] nat_to_le_from_le' [of bs 8]
  by (simp add: int_bytes_defs del: nat_to_le_numeral)

section \<open>Slices\<close>

text \<open>\<open>&xs[i..j]\<close>, used only where the code has checked the length.\<close>

definition slice :: "nat \<Rightarrow> nat \<Rightarrow> 'a list \<Rightarrow> 'a list" where
  "slice i j xs = take (j - i) (drop i xs)"

lemma length_slice [simp]: "j \<le> length xs \<Longrightarrow> length (slice i j xs) = j - i"
  by (simp add: slice_def)

lemma slice_append_right [simp]:
  "length xs \<le> i \<Longrightarrow> slice i j (xs @ ys) = slice (i - length xs) (j - length xs) ys"
  by (simp add: slice_def)

lemma slice_Cons [simp]: "0 < i \<Longrightarrow> slice i j (x # xs) = slice (i - 1) (j - 1) xs"
  by (cases i; cases j) (simp_all add: slice_def)

lemma slice_prefix: "length xs = n \<Longrightarrow> slice 0 n (xs @ ys) = xs"
  by (simp add: slice_def)

lemma slice_whole: "length xs = n \<Longrightarrow> slice 0 n xs = xs"
  by (simp add: slice_def)

text \<open>\<open>xs.chunks(n)\<close>: consecutive pieces of length \<open>n\<close>, the last one possibly shorter.\<close>

function chunks_of :: "nat \<Rightarrow> 'a list \<Rightarrow> 'a list list" where
  "chunks_of n xs = (if n = 0 \<or> xs = [] then [] else take n xs # chunks_of n (drop n xs))"
  by pat_completeness auto
termination by (relation "measure (\<lambda>(n, xs). length xs)") (auto simp: neq_Nil_conv)

declare chunks_of.simps [simp del]

lemma chunks_of_Nil [simp]: "chunks_of n [] = []"
  by (simp add: chunks_of.simps)

lemma chunks_of_short: "0 < n \<Longrightarrow> xs \<noteq> [] \<Longrightarrow> length xs \<le> n \<Longrightarrow> chunks_of n xs = [xs]"
  by (subst chunks_of.simps) simp

lemma concat_chunks_of: "0 < n \<Longrightarrow> concat (chunks_of n xs) = xs"
  by (induction n xs rule: chunks_of.induct) (subst chunks_of.simps, auto)

lemma chunks_of_lengths: "c \<in> set (chunks_of n xs) \<Longrightarrow> 0 < length c \<and> length c \<le> n"
proof (induction n xs rule: chunks_of.induct)
  case (1 n xs)
  then show ?case
    using "1.prems" by (subst (asm) (2) chunks_of.simps) (auto split: if_splits)
qed

lemma length_chunks_of: "0 < n \<Longrightarrow> length (chunks_of n xs) = (length xs + n - 1) div n"
proof (induction n xs rule: chunks_of.induct)
  case (1 n xs)
  show ?case
  proof (cases "xs = []")
    case False
    then have "length (chunks_of n xs) = Suc ((length xs - n + n - 1) div n)"
      using 1 by (subst chunks_of.simps) simp
    also have "\<dots> = (length xs + n - 1) div n"
    proof (cases "length xs \<le> n")
      case True
      have "(length xs + n - 1) div n = 1"
        using True \<open>xs \<noteq> []\<close> 1(2) by (intro div_nat_eqI) (simp_all add: Suc_le_eq neq_Nil_conv, auto)
      moreover have "(length xs - n + n - 1) div n = 0" using True 1(2) by simp
      ultimately show ?thesis by simp
    next
      case False
      then have "length xs + n - 1 = (length xs - n + n - 1) + n" by simp
      then show ?thesis using 1(2) by (simp only: div_add_self2 [OF gr_implies_not0 [OF 1(2)]])
    qed
    finally show ?thesis .
  qed (use 1 in simp)
qed

section \<open>Numbers as text\<close>

fun decimal :: "nat \<Rightarrow> string" where
  "decimal n = (if n < 10 then [char_of (48 + n)] else decimal (n div 10) @ [char_of (48 + n mod 10)])"

declare decimal.simps [simp del]

definition signed_decimal :: "int \<Rightarrow> string" where
  "signed_decimal i = (if i < 0 then ''-'' @ decimal (nat (- i)) else decimal (nat i))"

fun intersperse :: "'a \<Rightarrow> 'a list \<Rightarrow> 'a list" where
  "intersperse sep (x # y # ys) = x # sep # intersperse sep (y # ys)"
| "intersperse sep xs = xs"

text \<open>\<open>{:?}\<close> of a string without characters that need an escape.\<close>

definition quoted :: "string \<Rightarrow> string" where
  "quoted s = [CHR 0x22] @ s @ [CHR 0x22]"

text \<open>\<open>u32\<close> and \<open>u64\<close> additions that saturate.\<close>

definition saturating_add64 :: "u64 \<Rightarrow> u64 \<Rightarrow> u64" where
  "saturating_add64 a b = (if unat a + unat b < 2 ^ 64 then a + b else - 1)"

lemma unat_saturating_add64: "unat (saturating_add64 a b) = min (unat a + unat b) (2 ^ 64 - 1)"
proof -
  have "unat (- 1 :: u64) = 2 ^ 64 - 1"
    by (subst unat_eq_nat_uint) (simp add: uint_word_ariths)
  then show ?thesis
    by (auto simp: saturating_add64_def unat_word_ariths)
qed

end
