(* ===== verification/Core.thy ===== *)
theory Core
  imports Prelude
begin

text \<open>
  The crate \<open>zalkanes-core\<close>: the consensus constants of \<open>consensus.rs\<close>, the identifier
  types of \<open>types.rs\<close> and the network parameters of \<open>consensus_params.rs\<close>. The
  SHA-256 and BLAKE2b functions of the crates \<open>sha2\<close> and \<open>blake2b_simd\<close> are arguments of
  the definitions that call them.
\<close>

section \<open>The type \<open>[u8; 32]\<close>\<close>

typedef b32 = "{xs :: bytes. length xs = 32}"
  morphisms bytes_of Abs_b32
  by (rule exI [of _ "replicate 32 0"]) simp

setup_lifting type_definition_b32

text \<open>\<open>copy_from_slice\<close> into a zeroed array; every use in the code has a 32-byte slice.\<close>

lift_definition mk32 :: "bytes \<Rightarrow> b32" is "\<lambda>xs :: bytes. take 32 (xs @ replicate 32 0)"
  by simp

lemma length_bytes_of [simp]: "length (bytes_of h) = 32"
  using bytes_of by auto

lemma bytes_of_mk32 [simp]: "length xs = 32 \<Longrightarrow> bytes_of (mk32 xs) = xs"
  by transfer simp

lemma mk32_bytes_of [simp]: "mk32 (bytes_of h) = h"
  by transfer simp

lemma bytes_of_inject [simp]: "bytes_of a = bytes_of b \<longleftrightarrow> a = b"
  by (simp add: bytes_of_inject)

lemma mk32_inject [simp]:
  "length xs = 32 \<Longrightarrow> length ys = 32 \<Longrightarrow> mk32 xs = mk32 ys \<longleftrightarrow> xs = ys"
  by (metis bytes_of_mk32)

lemma mk32_eq_iff: "length xs = 32 \<Longrightarrow> mk32 xs = h \<longleftrightarrow> xs = bytes_of h"
  by (metis bytes_of_mk32 mk32_bytes_of)

lemma bytes_of_append_eq [simp]:
  "bytes_of a @ xs = bytes_of b @ ys \<longleftrightarrow> a = b \<and> xs = ys"
  by (simp add: append_eq_append_conv)

instantiation b32 :: linorder
begin

lift_definition less_eq_b32 :: "b32 \<Rightarrow> b32 \<Rightarrow> bool" is "(\<le>)" .

lift_definition less_b32 :: "b32 \<Rightarrow> b32 \<Rightarrow> bool" is "(<)" .

instance
  by standard (transfer; auto)+

end

lemma mk32_less [simp]:
  "length xs = 32 \<Longrightarrow> length ys = 32 \<Longrightarrow> mk32 xs < mk32 ys \<longleftrightarrow> xs < ys"
  by (simp add: less_b32.rep_eq)

lemma mk32_less_eq [simp]:
  "length xs = 32 \<Longrightarrow> length ys = 32 \<Longrightarrow> mk32 xs \<le> mk32 ys \<longleftrightarrow> xs \<le> ys"
  by (simp add: less_eq_b32.rep_eq)

type_synonym block_hash = b32
type_synonym tx_id = b32
type_synonym code_hash = b32
type_synonym contract_id = b32
type_synonym state_root = b32

text \<open>A 32-byte value filled with one byte, for concrete examples.\<close>

definition fill32 :: "u8 \<Rightarrow> b32" where
  "fill32 b = mk32 (replicate 32 b)"

lemma fill32_inject [simp]: "fill32 a = fill32 b \<longleftrightarrow> a = b"
  by (simp add: fill32_def)

lemma fill32_less [simp]: "fill32 a < fill32 b \<longleftrightarrow> a < b"
proof -
  have "replicate (Suc n) a < replicate (Suc n) b \<longleftrightarrow> a < b" for n
    by (induction n) auto
  from this [of 31] show ?thesis
    by (simp add: fill32_def)
qed

lemma fill32_le [simp]: "fill32 a \<le> fill32 b \<longleftrightarrow> a \<le> b"
  by (metis fill32_less linorder_not_less)

lemma bytes_of_fill32 [simp]: "bytes_of (fill32 b) = replicate 32 b"
  by (simp add: fill32_def)

section \<open>Consensus constants (\<open>consensus.rs\<close>)\<close>

definition MAX_CODE_BYTES :: u32 where [params]: "MAX_CODE_BYTES = 262144"
definition MAX_CHUNKS :: u8 where [params]: "MAX_CHUNKS = 188"
definition MAX_LINEAR_MEMORY_PAGES :: u32 where [params]: "MAX_LINEAR_MEMORY_PAGES = 256"
definition MAX_TABLE_ELEMENTS :: u32 where [params]: "MAX_TABLE_ELEMENTS = 16384"
definition MAX_GLOBALS :: u32 where [params]: "MAX_GLOBALS = 512"
definition MAX_FUNCTIONS :: u32 where [params]: "MAX_FUNCTIONS = 4096"
definition MAX_IMPORTS :: u32 where [params]: "MAX_IMPORTS = 64"
definition MAX_EXPORTS :: u32 where [params]: "MAX_EXPORTS = 64"
definition MAX_FUEL_PER_CALL :: u64 where [params]: "MAX_FUEL_PER_CALL = 10000000"
definition MAX_FUEL_PER_ZCASH_TX :: u64 where [params]: "MAX_FUEL_PER_ZCASH_TX = 100000000"
definition MAX_FUEL_PER_ZCASH_BLOCK :: u64 where [params]: "MAX_FUEL_PER_ZCASH_BLOCK = 1000000000"
definition MAX_CALL_DEPTH :: u32 where [params]: "MAX_CALL_DEPTH = 16"
definition MAX_ZALK_MESSAGES_PER_TX :: u32 where [params]: "MAX_ZALK_MESSAGES_PER_TX = 16"
definition MAX_ZALK_MESSAGES_PER_BLOCK :: u32 where [params]: "MAX_ZALK_MESSAGES_PER_BLOCK = 4096"
definition MAX_CARRIER_BYTES_PER_BLOCK :: u64 where [params]: "MAX_CARRIER_BYTES_PER_BLOCK = 4194304"
definition MAX_DEPLOY_BYTES_PER_BLOCK :: u64 where [params]: "MAX_DEPLOY_BYTES_PER_BLOCK = 4194304"
definition MAX_STORAGE_KEY_BYTES :: u32 where [params]: "MAX_STORAGE_KEY_BYTES = 256"
definition MAX_STORAGE_VALUE_BYTES :: u32 where [params]: "MAX_STORAGE_VALUE_BYTES = 65536"
definition MAX_STORAGE_WRITES_PER_CALL :: u32 where [params]: "MAX_STORAGE_WRITES_PER_CALL = 256"
definition MAX_CALL_INLINE_BYTES :: u32 where [params]: "MAX_CALL_INLINE_BYTES = 38"
definition MAX_CALL_INPUT_BYTES :: u32 where [params]: "MAX_CALL_INPUT_BYTES = 65536"
definition MAX_CALL_CARRIER_CHUNKS :: u8 where [params]: "MAX_CALL_CARRIER_CHUNKS = 47"
definition MAX_RETURN_DATA_BYTES :: u32 where [params]: "MAX_RETURN_DATA_BYTES = 65536"
definition PROTOCOL_MAGIC :: bytes where [params]: "PROTOCOL_MAGIC = [0x5A, 0x41, 0x4C, 0x4B]"
definition PROTOCOL_V0 :: u8 where [params]: "PROTOCOL_V0 = 0"
definition MSG_DEPLOY :: u8 where [params]: "MSG_DEPLOY = 1"
definition MSG_CALL :: u8 where [params]: "MSG_CALL = 2"
definition MSG_CALL_CARRIER :: u8 where [params]: "MSG_CALL_CARRIER = 3"
definition MAINNET_ACTIVATION_HEIGHT :: "u32 option" where [params]: "MAINNET_ACTIVATION_HEIGHT = None"
definition TESTNET_ACTIVATION_HEIGHT :: "u32 option" where [params]: "TESTNET_ACTIVATION_HEIGHT = Some 4346500"
definition REGTEST_ACTIVATION_HEIGHT :: "u32 option" where [params]: "REGTEST_ACTIVATION_HEIGHT = Some 1"

text \<open>The BLAKE2b personalizations, as ASCII bytes.\<close>

definition ascii :: "string \<Rightarrow> bytes" where
  [params]: "ascii s = map (\<lambda>c. of_nat (of_char c)) s"

definition CONTRACT_ID_PERSONALIZATION :: bytes where
  "CONTRACT_ID_PERSONALIZATION = ascii ''ZalkContractId0 ''"
definition STATE_LEAF_PERSONALIZATION :: bytes where
  "STATE_LEAF_PERSONALIZATION = ascii ''ZalkStateLeaf0  ''"
definition STATE_ROOT_PERSONALIZATION :: bytes where
  "STATE_ROOT_PERSONALIZATION = ascii ''ZalkStateRoot0  ''"

lemma length_PROTOCOL_MAGIC [simp]: "length PROTOCOL_MAGIC = 4"
  by (simp add: params)

lemma length_personalizations:
  "length CONTRACT_ID_PERSONALIZATION = 16" "length STATE_LEAF_PERSONALIZATION = 16"
  "length STATE_ROOT_PERSONALIZATION = 16"
  by (simp_all add: params CONTRACT_ID_PERSONALIZATION_def STATE_LEAF_PERSONALIZATION_def
      STATE_ROOT_PERSONALIZATION_def)

section \<open>Networks and identifiers (\<open>types.rs\<close>)\<close>

datatype network = Mainnet | Testnet | Regtest

fun id_byte :: "network \<Rightarrow> u8" where
  "id_byte Mainnet = 1"
| "id_byte Testnet = 2"
| "id_byte Regtest = 3"

fun zebra_name :: "network \<Rightarrow> string" where
  "zebra_name Mainnet = ''main''"
| "zebra_name Testnet = ''test''"
| "zebra_name Regtest = ''regtest''"

lemma id_byte_inject [simp]: "id_byte a = id_byte b \<longleftrightarrow> a = b"
  by (cases a; cases b) simp_all

lemma zebra_name_inject [simp]: "zebra_name a = zebra_name b \<longleftrightarrow> a = b"
  by (cases a; cases b) simp_all

text \<open>
  \<open>blake\<close> stands for keyless BLAKE2b-256 with a personalization, \<open>sha256\<close> for SHA-256:
  both map byte strings to 32-byte digests.
\<close>

type_synonym blake = "bytes \<Rightarrow> bytes \<Rightarrow> b32"
type_synonym sha = "bytes \<Rightarrow> b32"

definition contract_id_input :: "network \<Rightarrow> tx_id \<Rightarrow> u16 \<Rightarrow> code_hash \<Rightarrow> bytes" where
  "contract_id_input net txid out_index ch =
     [id_byte net] @ bytes_of txid @ u16_to_be_bytes out_index @ bytes_of ch"

definition derive_contract_id :: "blake \<Rightarrow> network \<Rightarrow> tx_id \<Rightarrow> u16 \<Rightarrow> code_hash \<Rightarrow> contract_id" where
  "derive_contract_id blake net txid out_index ch =
     blake CONTRACT_ID_PERSONALIZATION (contract_id_input net txid out_index ch)"

lemma contract_id_input_inject [simp]:
  "contract_id_input n t i c = contract_id_input n' t' i' c'
     \<longleftrightarrow> n = n' \<and> t = t' \<and> i = i' \<and> c = c'"
  by (auto simp: contract_id_input_def append_eq_append_conv)

record block_ref =
  br_height :: u32
  br_hash :: block_hash

record execution =
  ex_txid :: tx_id
  ex_contract_id :: contract_id
  ex_opcode :: u16
  ex_success :: bool
  ex_fuel_used :: u64
  ex_return_data :: bytes
  ex_error :: "string option"
  ex_root_before :: state_root
  ex_root_after :: state_root
  ex_block_height :: u32
  ex_block_hash :: block_hash

definition ZERO_ROOT :: state_root where
  "ZERO_ROOT = mk32 (replicate 32 0)"

section \<open>Consensus parameters (\<open>consensus_params.rs\<close>)\<close>

datatype consensus_params = Main_Params | Test_Params | Regtest_Params

fun for_network :: "network \<Rightarrow> consensus_params" where
  "for_network Mainnet = Main_Params"
| "for_network Testnet = Test_Params"
| "for_network Regtest = Regtest_Params"

text \<open>
  \<open>main_heights\<close> and \<open>test_heights\<close> are the activation tables of librustzcash's
  \<open>MainNetwork\<close> and \<open>TestNetwork\<close>.
\<close>

fun upgrade_activation_height ::
    "('nu \<Rightarrow> u32 option) \<Rightarrow> ('nu \<Rightarrow> u32 option) \<Rightarrow> consensus_params \<Rightarrow> 'nu \<Rightarrow> u32 option" where
  "upgrade_activation_height main_heights test_heights Main_Params nu = main_heights nu"
| "upgrade_activation_height main_heights test_heights Test_Params nu = test_heights nu"
| "upgrade_activation_height main_heights test_heights Regtest_Params nu = Some 1"

section \<open>Hexadecimal text\<close>

text \<open>The crate \<open>hex\<close> is a parameter.\<close>

record hex_lib =
  hex_encode :: "bytes \<Rightarrow> string"
  hex_decode :: "string \<Rightarrow> bytes option"

definition byte_text :: "bytes \<Rightarrow> string" where
  "byte_text bs = map (\<lambda>b. char_of (unat b)) bs"

definition plain_hex :: hex_lib where
  "plain_hex = \<lparr>hex_encode = byte_text, hex_decode = (\<lambda>s. Some (ascii s))\<rparr>"

lemma ascii_byte_text [simp]: "ascii (byte_text bs) = bs"
  by (simp add: ascii_def byte_text_def o_def map_idI)

end
