(* ===== verification/Protocol.thy ===== *)
theory Protocol
  imports Core
begin

text \<open>
  The crate \<open>zalkanes-protocol\<close> (\<open>lib.rs\<close>): the messages carried by an OP_RETURN
  payload, their parser and their serializers.
\<close>

section \<open>Messages\<close>

record deploy_message =
  dm_code_hash :: code_hash
  dm_code_length :: u32
  dm_chunk_count :: u8
  dm_output_index :: u16

record call_message =
  cm_contract_id :: contract_id
  cm_opcode :: u16
  cm_input :: bytes

record call_carrier_message =
  ccm_contract_id :: contract_id
  ccm_opcode :: u16
  ccm_input_hash :: b32
  ccm_input_length :: u32
  ccm_carrier_count :: u8

datatype message =
    Deploy deploy_message
  | Call call_message
  | CallCarrier call_carrier_message

datatype parse_error =
    InvalidMagic
  | UnknownVersion u8
  | UnknownMessageType u8
  | Truncated
  | TrailingBytes
  | CodeLengthExceedsMax u32 u32
  | InputLengthExceedsMax u32 u32
  | CarrierInputLengthExceedsMax u32 u32
  | InputLengthMismatch u16 nat
  | CarrierCountExceedsMax u8 u8

section \<open>Parser\<close>

definition parse_deploy :: "bytes \<Rightarrow> (parse_error, deploy_message) result" where
  "parse_deploy body =
     (if length body < 39 then Err Truncated
      else if length body > 39 then Err TrailingBytes
      else
        let code_hash = mk32 (slice 0 32 body);
            code_length = u32_from_be_bytes (slice 32 36 body) in
        if code_length = 0 \<or> code_length > MAX_CODE_BYTES
        then Err (CodeLengthExceedsMax code_length MAX_CODE_BYTES)
        else
          let chunk_count = body ! 36 in
          if chunk_count = 0 then Err Truncated
          else Ok \<lparr>dm_code_hash = code_hash, dm_code_length = code_length,
                   dm_chunk_count = chunk_count,
                   dm_output_index = u16_from_be_bytes (slice 37 39 body)\<rparr>)"

definition parse_call :: "bytes \<Rightarrow> (parse_error, call_message) result" where
  "parse_call body =
     (if length body < 36 then Err Truncated
      else
        let contract_id = mk32 (slice 0 32 body);
            opcode = u16_from_be_bytes (slice 32 34 body);
            input_length = u16_from_be_bytes (slice 34 36 body) in
        if (ucast input_length :: u32) > MAX_CALL_INLINE_BYTES
        then Err (InputLengthExceedsMax (ucast input_length) MAX_CALL_INLINE_BYTES)
        else
          let input_data = drop 36 body in
          if length input_data \<noteq> unat input_length
          then Err (InputLengthMismatch input_length (length input_data))
          else Ok \<lparr>cm_contract_id = contract_id, cm_opcode = opcode, cm_input = input_data\<rparr>)"

definition parse_call_carrier :: "bytes \<Rightarrow> (parse_error, call_carrier_message) result" where
  "parse_call_carrier body =
     (if length body < 71 then Err Truncated
      else if length body > 71 then Err TrailingBytes
      else
        let contract_id = mk32 (slice 0 32 body);
            opcode = u16_from_be_bytes (slice 32 34 body);
            input_hash = mk32 (slice 34 66 body);
            input_length = u32_from_be_bytes (slice 66 70 body) in
        if input_length = 0 \<or> input_length > MAX_CALL_INPUT_BYTES
        then Err (CarrierInputLengthExceedsMax input_length MAX_CALL_INPUT_BYTES)
        else
          let carrier_count = body ! 70 in
          if carrier_count = 0 \<or> carrier_count > MAX_CALL_CARRIER_CHUNKS
          then Err (CarrierCountExceedsMax carrier_count MAX_CALL_CARRIER_CHUNKS)
          else Ok \<lparr>ccm_contract_id = contract_id, ccm_opcode = opcode,
                   ccm_input_hash = input_hash, ccm_input_length = input_length,
                   ccm_carrier_count = carrier_count\<rparr>)"

definition parse_op_return :: "bytes \<Rightarrow> (parse_error, message option) result" where
  "parse_op_return payload =
     (if payload = [] then Ok None
      else if length payload < 6 then
        let magic_prefix = take (min (length payload) (length PROTOCOL_MAGIC)) PROTOCOL_MAGIC in
        if take (length magic_prefix) payload = magic_prefix then Err Truncated else Ok None
      else if take 4 payload \<noteq> PROTOCOL_MAGIC then Ok None
      else if payload ! 4 \<noteq> PROTOCOL_V0 then Err (UnknownVersion (payload ! 4))
      else
        let msg_type = payload ! 5; body = drop 6 payload in
        if msg_type = MSG_DEPLOY
        then and_then (parse_deploy body) (\<lambda>m. Ok (Some (Deploy m)))
        else if msg_type = MSG_CALL
        then and_then (parse_call body) (\<lambda>m. Ok (Some (Call m)))
        else if msg_type = MSG_CALL_CARRIER
        then and_then (parse_call_carrier body) (\<lambda>m. Ok (Some (CallCarrier m)))
        else Err (UnknownMessageType msg_type))"

section \<open>Serializers\<close>

definition encode_deploy :: "deploy_message \<Rightarrow> bytes" where
  "encode_deploy msg =
     PROTOCOL_MAGIC @ [PROTOCOL_V0] @ [MSG_DEPLOY] @ bytes_of (dm_code_hash msg)
     @ u32_to_be_bytes (dm_code_length msg) @ [dm_chunk_count msg]
     @ u16_to_be_bytes (dm_output_index msg)"

definition encode_call :: "call_message \<Rightarrow> bytes" where
  "encode_call msg =
     (let input_len = (of_nat (length (cm_input msg)) :: u16) in
      PROTOCOL_MAGIC @ [PROTOCOL_V0] @ [MSG_CALL] @ bytes_of (cm_contract_id msg)
      @ u16_to_be_bytes (cm_opcode msg) @ u16_to_be_bytes input_len @ cm_input msg)"

definition encode_call_carrier :: "call_carrier_message \<Rightarrow> bytes" where
  "encode_call_carrier msg =
     PROTOCOL_MAGIC @ [PROTOCOL_V0] @ [MSG_CALL_CARRIER] @ bytes_of (ccm_contract_id msg)
     @ u16_to_be_bytes (ccm_opcode msg) @ bytes_of (ccm_input_hash msg)
     @ u32_to_be_bytes (ccm_input_length msg) @ [ccm_carrier_count msg]"

section \<open>The message grammar\<close>

text \<open>The canonical serialization of a message and the field ranges the parser checks.\<close>

fun encode_message :: "message \<Rightarrow> bytes" where
  "encode_message (Deploy m) = encode_deploy m"
| "encode_message (Call m) = encode_call m"
| "encode_message (CallCarrier m) = encode_call_carrier m"

fun accepted_message :: "message \<Rightarrow> bool" where
  "accepted_message (Deploy m) \<longleftrightarrow>
     0 < dm_code_length m \<and> dm_code_length m \<le> MAX_CODE_BYTES \<and> dm_chunk_count m \<noteq> 0"
| "accepted_message (Call m) \<longleftrightarrow> length (cm_input m) \<le> unat MAX_CALL_INLINE_BYTES"
| "accepted_message (CallCarrier m) \<longleftrightarrow>
     0 < ccm_input_length m \<and> ccm_input_length m \<le> MAX_CALL_INPUT_BYTES \<and>
     0 < ccm_carrier_count m \<and> ccm_carrier_count m \<le> MAX_CALL_CARRIER_CHUNKS"

section \<open>Parsing a concatenation of fields\<close>

lemma take_field32: "32 \<le> length xs \<Longrightarrow> \<exists>h ys. xs = bytes_of h @ ys \<and> length ys = length xs - 32"
  by (rule exI [of _ "mk32 (take 32 xs)"], rule exI [of _ "drop 32 xs"]) simp

lemma take_field_u32: "4 \<le> length xs \<Longrightarrow> \<exists>w ys. xs = u32_to_be_bytes w @ ys \<and> length ys = length xs - 4"
  by (rule exI [of _ "u32_from_be_bytes (take 4 xs)"], rule exI [of _ "drop 4 xs"])
    (simp add: u32_to_from_be)

lemma take_field_u16: "2 \<le> length xs \<Longrightarrow> \<exists>w ys. xs = u16_to_be_bytes w @ ys \<and> length ys = length xs - 2"
  by (rule exI [of _ "u16_from_be_bytes (take 2 xs)"], rule exI [of _ "drop 2 xs"])
    (simp add: u16_to_from_be)

lemma take_field_u8: "1 \<le> length xs \<Longrightarrow> \<exists>b ys. xs = [b] @ ys \<and> length ys = length xs - 1"
  by (cases xs) auto

lemma deploy_fields:
  assumes "length b = 39"
  obtains h l c i where "b = bytes_of h @ u32_to_be_bytes l @ [c] @ u16_to_be_bytes i"
proof -
  from take_field32 [of b] assms obtain h b1 where "b = bytes_of h @ b1" "length b1 = 7" by auto
  moreover from take_field_u32 [of b1] this obtain l b2
    where "b1 = u32_to_be_bytes l @ b2" "length b2 = 3" by auto
  moreover from take_field_u8 [of b2] this obtain c b3 where "b2 = [c] @ b3" "length b3 = 2" by auto
  moreover from take_field_u16 [of b3] this obtain i b4
    where "b3 = u16_to_be_bytes i @ b4" "length b4 = 0" by auto
  ultimately show thesis using that by simp
qed

lemma call_fields:
  assumes "36 \<le> length b"
  obtains h p l d where "b = bytes_of h @ u16_to_be_bytes p @ u16_to_be_bytes l @ d"
proof -
  have "b = bytes_of (mk32 (take 32 b)) @ u16_to_be_bytes (u16_from_be_bytes (take 2 (drop 32 b)))
          @ u16_to_be_bytes (u16_from_be_bytes (take 2 (drop 34 b))) @ drop 36 b"
  proof -
    have "take 32 b @ take 2 (drop 32 b) @ take 2 (drop 2 (drop 32 b)) @ drop 2 (drop 2 (drop 32 b)) = b"
      by (simp only: append_take_drop_id)
    then show ?thesis
      using assms by (simp add: u16_to_from_be)
  qed
  then show thesis by (rule that)
qed

lemma call_carrier_fields:
  assumes "length b = 71"
  obtains h p ih l c where
    "b = bytes_of h @ u16_to_be_bytes p @ bytes_of ih @ u32_to_be_bytes l @ [c]"
proof -
  from take_field32 [of b] assms obtain h b1 where "b = bytes_of h @ b1" "length b1 = 39" by auto
  moreover from take_field_u16 [of b1] this obtain p b2
    where "b1 = u16_to_be_bytes p @ b2" "length b2 = 37" by auto
  moreover from take_field32 [of b2] this obtain ih b3
    where "b2 = bytes_of ih @ b3" "length b3 = 5" by auto
  moreover from take_field_u32 [of b3] this obtain l b4
    where "b3 = u32_to_be_bytes l @ b4" "length b4 = 1" by auto
  moreover from take_field_u8 [of b4] this obtain c b5 where "b4 = [c] @ b5" "length b5 = 0" by auto
  ultimately show thesis using that by simp
qed

lemma nth_append_exact: "length xs = n \<Longrightarrow> (xs @ y # ys) ! n = y"
  by (simp add: nth_append)

lemma parse_deploy_on_fields:
  "parse_deploy (bytes_of h @ u32_to_be_bytes l @ c # u16_to_be_bytes i) =
     (if l = 0 \<or> l > MAX_CODE_BYTES then Err (CodeLengthExceedsMax l MAX_CODE_BYTES)
      else if c = 0 then Err Truncated
      else Ok \<lparr>dm_code_hash = h, dm_code_length = l, dm_chunk_count = c, dm_output_index = i\<rparr>)"
  by (simp add: parse_deploy_def Let_def slice_prefix slice_whole nth_append)

lemma parse_call_on_fields:
  "parse_call (bytes_of h @ u16_to_be_bytes p @ u16_to_be_bytes l @ d) =
     (if (ucast l :: u32) > MAX_CALL_INLINE_BYTES
      then Err (InputLengthExceedsMax (ucast l) MAX_CALL_INLINE_BYTES)
      else if length d \<noteq> unat l then Err (InputLengthMismatch l (length d))
      else Ok \<lparr>cm_contract_id = h, cm_opcode = p, cm_input = d\<rparr>)"
  by (simp add: parse_call_def Let_def slice_prefix slice_whole)

lemma parse_call_carrier_on_fields:
  "parse_call_carrier (bytes_of h @ u16_to_be_bytes p @ bytes_of ih @ u32_to_be_bytes l @ [c]) =
     (if l = 0 \<or> l > MAX_CALL_INPUT_BYTES
      then Err (CarrierInputLengthExceedsMax l MAX_CALL_INPUT_BYTES)
      else if c = 0 \<or> c > MAX_CALL_CARRIER_CHUNKS
      then Err (CarrierCountExceedsMax c MAX_CALL_CARRIER_CHUNKS)
      else Ok \<lparr>ccm_contract_id = h, ccm_opcode = p, ccm_input_hash = ih, ccm_input_length = l,
               ccm_carrier_count = c\<rparr>)"
  by (simp add: parse_call_carrier_def Let_def slice_prefix slice_whole nth_append)

section \<open>The parser accepts exactly the canonical encodings\<close>

lemma word_gt_0_iff: "(0 :: 'a::len word) < w \<longleftrightarrow> w \<noteq> 0"
  by (simp add: word_gt_0)

lemma parse_deploy_Ok_iff:
  "parse_deploy b = Ok m \<longleftrightarrow> accepted_message (Deploy m) \<and> b = drop 6 (encode_deploy m)"
proof (cases "length b = 39")
  case True
  then obtain h l c i where "b = bytes_of h @ u32_to_be_bytes l @ [c] @ u16_to_be_bytes i"
    by (rule deploy_fields)
  then show ?thesis
    by (cases m) (auto simp: parse_deploy_on_fields encode_deploy_def word_gt_0 not_less)
qed (auto simp: parse_deploy_def encode_deploy_def)

lemma inline_length_ok:
  "unat (l :: u16) \<le> 38 \<longleftrightarrow> \<not> (ucast l :: u32) > MAX_CALL_INLINE_BYTES"
proof -
  have "(ucast l :: u32) > 38 \<longleftrightarrow> unat l > 38"
    by (simp add: word_less_nat_alt)
  then show ?thesis by (auto simp: params)
qed

lemma parse_call_Ok_iff:
  "parse_call b = Ok m \<longleftrightarrow> accepted_message (Call m) \<and> b = drop 6 (encode_call m)"
proof (cases "36 \<le> length b")
  case True
  then obtain h p l d where b: "b = bytes_of h @ u16_to_be_bytes p @ u16_to_be_bytes l @ d"
    by (rule call_fields)
  have "l = of_nat (length d) \<and> length d \<le> 38 \<longleftrightarrow> length d = unat l \<and> unat l \<le> 38"
    by auto
  then show ?thesis
    using inline_length_ok [of l]
    by (cases m) (auto simp: b parse_call_on_fields encode_call_def Let_def, simp_all add: params)
qed (auto simp: parse_call_def encode_call_def)

lemma parse_call_carrier_Ok_iff:
  "parse_call_carrier b = Ok m
     \<longleftrightarrow> accepted_message (CallCarrier m) \<and> b = drop 6 (encode_call_carrier m)"
proof (cases "length b = 71")
  case True
  then obtain h p ih l c where
    "b = bytes_of h @ u16_to_be_bytes p @ bytes_of ih @ u32_to_be_bytes l @ [c]"
    by (rule call_carrier_fields)
  then show ?thesis
    by (cases m) (auto simp: parse_call_carrier_on_fields encode_call_carrier_def word_gt_0 not_less)
qed (auto simp: parse_call_carrier_def encode_call_carrier_def)

lemma header_split:
  assumes "6 \<le> length p" "take 4 p = PROTOCOL_MAGIC"
  shows "p = PROTOCOL_MAGIC @ [p ! 4] @ [p ! 5] @ drop 6 p"
proof -
  have "drop 4 p = p ! 4 # p ! 5 # drop 6 p"
    using assms(1) by (simp add: Cons_nth_drop_Suc [symmetric] eval_nat_numeral)
  then show ?thesis
    using append_take_drop_id [of 4 p] assms(2) by simp
qed

lemma parse_op_return_on_header:
  "parse_op_return (PROTOCOL_MAGIC @ [v] @ [t] @ body) =
     (if v \<noteq> PROTOCOL_V0 then Err (UnknownVersion v)
      else if t = MSG_DEPLOY then and_then (parse_deploy body) (\<lambda>m. Ok (Some (Deploy m)))
      else if t = MSG_CALL then and_then (parse_call body) (\<lambda>m. Ok (Some (Call m)))
      else if t = MSG_CALL_CARRIER
      then and_then (parse_call_carrier body) (\<lambda>m. Ok (Some (CallCarrier m)))
      else Err (UnknownMessageType t))"
  by (simp add: parse_op_return_def Let_def nth_append)

lemma parse_op_return_SomeD:
  assumes "parse_op_return p = Ok (Some m)"
  shows "6 \<le> length p \<and> take 4 p = PROTOCOL_MAGIC"
  using assms by (auto simp: parse_op_return_def Let_def split: if_splits)

lemma message_type_codes: "MSG_DEPLOY = 1" "MSG_CALL = 2" "MSG_CALL_CARRIER = 3"
  by (simp_all add: params)

lemma encode_message_header:
  "encode_message (Deploy d) = PROTOCOL_MAGIC @ [PROTOCOL_V0] @ [MSG_DEPLOY] @ drop 6 (encode_deploy d)"
  "encode_message (Call c) = PROTOCOL_MAGIC @ [PROTOCOL_V0] @ [MSG_CALL] @ drop 6 (encode_call c)"
  "encode_message (CallCarrier k) =
     PROTOCOL_MAGIC @ [PROTOCOL_V0] @ [MSG_CALL_CARRIER] @ drop 6 (encode_call_carrier k)"
  by (simp_all add: encode_deploy_def encode_call_def encode_call_carrier_def Let_def)

lemma parse_encode_message: "parse_op_return (encode_message m) = Ok (Some m) \<longleftrightarrow> accepted_message m"
proof (cases m)
  case (Deploy d)
  then show ?thesis
    by (simp only: encode_message_header parse_op_return_on_header) (simp add: parse_deploy_Ok_iff)
next
  case (Call c)
  then show ?thesis
    by (simp only: encode_message_header parse_op_return_on_header)
      (simp add: parse_call_Ok_iff message_type_codes)
next
  case (CallCarrier k)
  then show ?thesis
    by (simp only: encode_message_header parse_op_return_on_header)
      (simp add: parse_call_carrier_Ok_iff message_type_codes)
qed

lemma parse_op_return_Ok_iff:
  "parse_op_return p = Ok (Some m) \<longleftrightarrow> accepted_message m \<and> p = encode_message m"
proof
  assume p: "parse_op_return p = Ok (Some m)"
  then have "p = PROTOCOL_MAGIC @ [p ! 4] @ [p ! 5] @ drop 6 p"
    using parse_op_return_SomeD header_split by blast
  then obtain v t body where hd: "p = PROTOCOL_MAGIC @ [v] @ [t] @ body" by blast
  show "accepted_message m \<and> p = encode_message m"
    using p unfolding hd parse_op_return_on_header
    by (auto simp: parse_deploy_Ok_iff parse_call_Ok_iff parse_call_carrier_Ok_iff
        encode_message_header simp del: encode_message.simps split: if_splits)
next
  assume "accepted_message m \<and> p = encode_message m"
  then show "parse_op_return p = Ok (Some m)" by (simp add: parse_encode_message)
qed

text \<open>The field bounds of \<open>docs/protocol-v0.md\<close> (sections 5, 6.1 and 6.2), as far as a message alone
  can meet them; the output index and the contract id are checked against the block.\<close>

fun documented_message :: "message \<Rightarrow> bool" where
  "documented_message (Deploy m) \<longleftrightarrow>
     0 < dm_code_length m \<and> dm_code_length m \<le> MAX_CODE_BYTES \<and> 0 < dm_chunk_count m \<and> dm_chunk_count m \<le> MAX_CHUNKS"
| "documented_message (Call m) \<longleftrightarrow> length (cm_input m) \<le> unat MAX_CALL_INLINE_BYTES"
| "documented_message (CallCarrier m) \<longleftrightarrow>
     MAX_CALL_INLINE_BYTES < ccm_input_length m \<and> ccm_input_length m \<le> MAX_CALL_INPUT_BYTES \<and>
     0 < ccm_carrier_count m \<and> ccm_carrier_count m \<le> MAX_CALL_CARRIER_CHUNKS"

text \<open>What the parser lets through although the document forbids it: a DEPLOY of too many chunks, and a
  carrier call of an input that would fit inline.\<close>

fun tolerated_message :: "message \<Rightarrow> bool" where
  "tolerated_message (Deploy m) \<longleftrightarrow>
     0 < dm_code_length m \<and> dm_code_length m \<le> MAX_CODE_BYTES \<and> MAX_CHUNKS < dm_chunk_count m"
| "tolerated_message (Call m) \<longleftrightarrow> False"
| "tolerated_message (CallCarrier m) \<longleftrightarrow>
     0 < ccm_input_length m \<and> ccm_input_length m \<le> MAX_CALL_INLINE_BYTES \<and>
     0 < ccm_carrier_count m \<and> ccm_carrier_count m \<le> MAX_CALL_CARRIER_CHUNKS"

lemma accepted_message_iff: "accepted_message m \<longleftrightarrow> documented_message m \<or> tolerated_message m"
proof (cases m)
  case (Deploy d)
  then show ?thesis by (auto simp: word_gt_0 not_le)
next
  case (CallCarrier c)
  have "n \<le> 38 \<Longrightarrow> n \<le> 65536" for n :: u32 by (simp add: word_le_nat_alt)
  moreover have "38 < n \<Longrightarrow> 0 < n" for n :: u32 by (simp add: word_less_nat_alt)
  ultimately show ?thesis using CallCarrier by (auto simp: params not_le)
qed simp

text \<open>C4. The parser accepts every encoding of a message within the bounds of the protocol document, and
  nothing else but two kinds of messages that the document forbids and the parser does not check: a DEPLOY of
  more than \<open>MAX_CHUNKS\<close> chunks, and a carrier call of at most \<open>MAX_CALL_INLINE_BYTES\<close> bytes. The payload
  is byte for byte what the serializer emits for the message, so no two payloads mean the same message,
  nothing may trail it, and every such message survives the round trip.\<close>

theorem parse_op_return_exact:
  "parse_op_return p = Ok (Some m) \<longleftrightarrow> p = encode_message m \<and> (documented_message m \<or> tolerated_message m)"
  using parse_op_return_Ok_iff [of p m] accepted_message_iff [of m] by blast

text \<open>A payload is reported, as a message or an error, exactly when it is not empty and
  agrees with the ZALK magic on their common length; every other payload is skipped
  silently.\<close>

theorem parse_op_return_silent:
  "parse_op_return p \<noteq> Ok None \<longleftrightarrow> p \<noteq> [] \<and> take 4 p = take (length p) PROTOCOL_MAGIC"
proof (cases "length p < 6")
  case True
  then show ?thesis
    by (cases "length p \<le> 4") (auto simp: parse_op_return_def Let_def min_def)
next
  case False
  show ?thesis
  proof (cases "take 4 p = PROTOCOL_MAGIC")
    case True
    with False obtain v t body where hd: "p = PROTOCOL_MAGIC @ [v] @ [t] @ body"
      using header_split by (metis not_less)
    show ?thesis
      unfolding hd parse_op_return_on_header by auto
  qed (use False in \<open>auto simp: parse_op_return_def\<close>)
qed

end
