(* ===== verification/Carrier.thy ===== *)
theory Carrier
  imports Core "HOL-Library.Multiset"
begin

text \<open>
  The crate \<open>zalkanes-carrier\<close> (\<open>lib.rs\<close>): splitting a payload into numbered chunks,
  reconstructing it, and reading the push-only scripts that carry the chunks.
\<close>

section \<open>Chunks\<close>

record chunk =
  ch_index :: u8
  ch_data :: bytes

text \<open>The digests of \<open>HashMismatch\<close> are kept as values; the code renders them as hex.\<close>

datatype carrier_error =
    InvalidLength u32
  | WrongChunkCount u8 u8
  | ChunkOutOfRange u8 u8
  | DuplicateChunk u8
  | MissingChunk u8
  | LengthMismatch u32 u32
  | HashMismatch code_hash code_hash

text \<open>The body of the indexing loop and the loop that concatenates the slots.\<close>

definition place_chunk :: "u8 \<Rightarrow> chunk \<Rightarrow> bytes option list \<Rightarrow> (carrier_error, bytes option list) result" where
  "place_chunk chunk_count c indexed =
     (if ch_index c \<ge> chunk_count then Err (ChunkOutOfRange (ch_index c) chunk_count)
      else if indexed ! unat (ch_index c) \<noteq> None then Err (DuplicateChunk (ch_index c))
      else Ok (indexed[unat (ch_index c) := Some (ch_data c)]))"

fun concat_slots :: "nat \<Rightarrow> bytes option list \<Rightarrow> (carrier_error, bytes) result" where
  "concat_slots i [] = Ok []"
| "concat_slots i (Some d # slots) = and_then (concat_slots (Suc i) slots) (\<lambda>w. Ok (d @ w))"
| "concat_slots i (None # slots) = Err (MissingChunk (of_nat i))"

definition reconstruct ::
    "sha \<Rightarrow> chunk list \<Rightarrow> u8 \<Rightarrow> u32 \<Rightarrow> code_hash \<Rightarrow> (carrier_error, bytes) result" where
  "reconstruct sha256 chunks chunk_count expected_length expected_hash =
     (if expected_length = 0 \<or> expected_length > MAX_CODE_BYTES
      then Err (InvalidLength expected_length)
      else if length chunks \<noteq> unat chunk_count
      then Err (WrongChunkCount chunk_count (of_nat (length chunks)))
      else
        and_then (fold_res (place_chunk chunk_count) chunks (replicate (unat chunk_count) None))
          (\<lambda>indexed. and_then (concat_slots 0 indexed)
            (\<lambda>wasm.
              if length wasm \<noteq> unat expected_length
              then Err (LengthMismatch expected_length (of_nat (length wasm)))
              else if sha256 wasm \<noteq> expected_hash
              then Err (HashMismatch expected_hash (sha256 wasm))
              else Ok wasm)))"

text \<open>
  \<open>.enumerate()\<close> with the index cast to \<open>u8\<close>. \<open>split\<close> asserts a positive chunk size:
  \<open>None\<close> is the panic.
\<close>

definition number_chunks :: "bytes list \<Rightarrow> chunk list" where
  "number_chunks ds = map (\<lambda>(i, d). \<lparr>ch_index = of_nat i, ch_data = d\<rparr>) (enumerate 0 ds)"

definition split_payload :: "bytes \<Rightarrow> nat \<Rightarrow> chunk list option" where
  "split_payload wasm chunk_size =
     (if chunk_size = 0 then None else Some (number_chunks (chunks_of chunk_size wasm)))"

section \<open>Scripts\<close>

text \<open>\<open>parse_push\<close> returns the pushed bytes and the number of script bytes consumed.\<close>

definition parse_push :: "bytes \<Rightarrow> (bytes \<times> nat) option" where
  "parse_push script =
     (case script of
        [] \<Rightarrow> None
      | op # _ \<Rightarrow>
          if op = 0 then Some ([], 1)
          else if op \<le> 0x4b then
            let n = unat op in
            if length script < 1 + n then None else Some (slice 1 (1 + n) script, 1 + n)
          else if op = 0x4c then
            if length script < 2 then None
            else
              let n = unat (script ! 1) in
              if length script < 2 + n then None else Some (slice 2 (2 + n) script, 2 + n)
          else if op = 0x4d then
            if length script < 3 then None
            else
              let n = unat (u16_from_le_bytes (slice 1 3 script)) in
              if length script < 3 + n then None else Some (slice 3 (3 + n) script, 3 + n)
          else if op = 0x4e then
            if length script < 5 then None
            else
              let n = unat (u32_from_le_bytes (slice 1 5 script)) in
              if length script < 5 + n then None else Some (slice 5 (5 + n) script, 5 + n)
          else None)"

lemma parse_push_consumes:
  "parse_push script = Some (payload, consumed) \<Longrightarrow> 0 < consumed \<and> consumed \<le> length script"
  by (auto simp: parse_push_def Let_def not_less split: list.splits if_splits)

definition extract_op_return_data :: "bytes \<Rightarrow> bytes option" where
  "extract_op_return_data script =
     (case script of
        [] \<Rightarrow> None
      | op # rest \<Rightarrow>
          if op \<noteq> 0x6a then None
          else if rest = [] then Some []
          else
            case parse_push rest of
              None \<Rightarrow> None
            | Some (payload, consumed) \<Rightarrow> if consumed \<noteq> length rest then None else Some payload)"

function parse_script_pushes :: "bytes \<Rightarrow> bytes list" where
  "parse_script_pushes script =
     (if script = [] then []
      else
        case parse_push script of
          Some (payload, consumed) \<Rightarrow> payload # parse_script_pushes (drop consumed script)
        | None \<Rightarrow> [])"
  by pat_completeness auto
termination
  by (relation "measure length") (auto dest: parse_push_consumes)

declare parse_script_pushes.simps [simp del]

definition chunk_from_script_sig :: "bytes \<Rightarrow> (u8 \<times> bytes) option" where
  "chunk_from_script_sig script =
     (let pushes = parse_script_pushes script in
      if length pushes < 4 then None
      else
        case pushes ! 0 of
          [b] \<Rightarrow> Some (b, concat (slice 1 (length pushes - 2) pushes))
        | _ \<Rightarrow> None)"

section \<open>Reconstruction\<close>

lemma fold_place_chunk:
  assumes "length slots = unat n"
  shows "fold_res (place_chunk n) cs slots = Ok r \<longleftrightarrow>
     distinct (map ch_index cs)
     \<and> (\<forall>c \<in> set cs. ch_index c < n \<and> slots ! unat (ch_index c) = None)
     \<and> r = fold (\<lambda>c s. s[unat (ch_index c) := Some (ch_data c)]) cs slots"
  using assms
proof (induction cs arbitrary: slots)
  case (Cons c cs)
  let ?s = "slots[unat (ch_index c) := Some (ch_data c)]"
  have IH: "fold_res (place_chunk n) cs ?s = Ok r \<longleftrightarrow>
     distinct (map ch_index cs)
     \<and> (\<forall>c \<in> set cs. ch_index c < n \<and> ?s ! unat (ch_index c) = None)
     \<and> r = fold (\<lambda>c s. s[unat (ch_index c) := Some (ch_data c)]) cs ?s"
    using Cons by simp
  have upd: "?s ! unat (ch_index d) = None \<longleftrightarrow>
      ch_index d \<noteq> ch_index c \<and> slots ! unat (ch_index d) = None"
    if "ch_index c < n" "ch_index d < n" for d
    using that Cons.prems by (cases "ch_index d = ch_index c") (auto simp: word_less_nat_alt nth_list_update unat_inject)
  show ?case
  proof (cases "ch_index c < n \<and> slots ! unat (ch_index c) = None")
    case True
    then have "fold_res (place_chunk n) (c # cs) slots = fold_res (place_chunk n) cs ?s"
      by (auto simp: place_chunk_def)
    with True IH upd show ?thesis by (auto simp: image_iff)
  qed (auto simp: place_chunk_def not_le)
qed auto

lemma nth_fold_update:
  assumes "distinct (map f cs)" "i < length slots" "\<forall>c \<in> set cs. f c < length slots"
  shows "fold (\<lambda>c s. s[f c := Some (g c)]) cs slots ! i =
     (case map_of (map (\<lambda>c. (f c, g c)) cs) i of Some d \<Rightarrow> Some d | None \<Rightarrow> slots ! i)"
  using assms
proof (induction cs arbitrary: slots)
  case (Cons c cs)
  have "i = f c \<Longrightarrow> map_of (map (\<lambda>c. (f c, g c)) cs) i = None"
    using Cons.prems(1) by (auto simp: map_of_eq_None_iff image_iff)
  with Cons show ?case by (auto split: option.splits)
qed simp

lemma length_fold_update [simp]: "length (fold (\<lambda>c s. s[f c := g c]) cs slots) = length slots"
  by (induction cs arbitrary: slots) auto

lemma concat_slots_map_Some [simp]: "concat_slots i (map Some ds) = Ok (concat ds)"
  by (induction ds arbitrary: i) auto

lemma length_number_chunks [simp]: "length (number_chunks ds) = length ds"
  by (simp add: number_chunks_def)

lemma nth_number_chunks [simp]:
  "i < length ds \<Longrightarrow> number_chunks ds ! i = \<lparr>ch_index = of_nat i, ch_data = ds ! i\<rparr>"
  by (simp add: number_chunks_def nth_enumerate_eq)

lemma of_nat_u8_inject: "i < 256 \<Longrightarrow> j < 256 \<Longrightarrow> (of_nat i :: u8) = of_nat j \<longleftrightarrow> i = j"
  by (metis mod_less unat_of_nat_u8)

lemma distinct_number_chunks:
  "length ds \<le> 256 \<Longrightarrow> distinct (map ch_index (number_chunks ds))"
  by (auto simp: distinct_conv_nth of_nat_u8_inject)

lemma set_number_chunks:
  "set (number_chunks ds) = {\<lparr>ch_index = of_nat i, ch_data = ds ! i\<rparr> | i. i < length ds}"
  by (force simp: set_conv_nth)

text \<open>The slots after the loop are exactly the chunk data in index order.\<close>

lemma slots_of_distinct:
  assumes "distinct (map ch_index cs)" "\<forall>c \<in> set cs. ch_index c < n" "length cs = unat n"
  obtains ds where "length ds = unat n" "mset cs = mset (number_chunks ds)"
    "fold (\<lambda>c s. s[unat (ch_index c) := Some (ch_data c)]) cs (replicate (unat n) None) = map Some ds"
proof -
  let ?m = "map_of (map (\<lambda>c. (unat (ch_index c), ch_data c)) cs)"
  let ?ds = "map (\<lambda>i. the (?m i)) [0..<unat n]"
  have d: "distinct (map (\<lambda>c. unat (ch_index c)) cs)"
    using assms(1) by (simp add: distinct_map inj_on_def unat_inject)
  have le: "\<forall>c \<in> set cs. unat (ch_index c) < unat n"
    using assms(2) by (simp add: word_less_nat_alt)
  have "(\<lambda>c. unat (ch_index c)) ` set cs = {..<unat n}"
    using le d assms(3) by (intro card_subset_eq) (auto simp: card_image distinct_map distinct_card)
  then have ex: "\<exists>c \<in> set cs. unat (ch_index c) = i" if "i < unat n" for i
    using that by (metis (no_types, lifting) imageE lessThan_iff)
  have look: "?m (unat (ch_index c)) = Some (ch_data c)" if "c \<in> set cs" for c
    using that d by (auto intro!: map_of_is_SomeI simp: o_def)
  have slots: "fold (\<lambda>c s. s[unat (ch_index c) := Some (ch_data c)]) cs (replicate (unat n) None)
       = map Some ?ds"
  proof (rule nth_equalityI)
    fix i assume "i < length (fold (\<lambda>c s. s[unat (ch_index c) := Some (ch_data c)]) cs
          (replicate (unat n) (None :: bytes option)))"
    then have i: "i < unat n" by simp
    then obtain c where "c \<in> set cs" "unat (ch_index c) = i" using ex by blast
    with i look [of c] d le show
      "fold (\<lambda>c s. s[unat (ch_index c) := Some (ch_data c)]) cs (replicate (unat n) None) ! i
       = map Some ?ds ! i"
      by (subst nth_fold_update) auto
  qed simp
  have "unat n \<le> 256" by (rule less_imp_le [OF unat_u8_less])
  have "set cs = set (number_chunks ?ds)"
  proof (intro equalityI subsetI)
    fix c assume "c \<in> set cs"
    with look le show "c \<in> set (number_chunks ?ds)"
      by (auto simp: set_number_chunks intro!: exI [of _ "unat (ch_index c)"])
  next
    fix c assume "c \<in> set (number_chunks ?ds)"
    then obtain i where i: "i < unat n" "c = \<lparr>ch_index = of_nat i, ch_data = the (?m i)\<rparr>"
      by (auto simp: set_number_chunks)
    from ex [OF i(1)] obtain c' where "c' \<in> set cs" "unat (ch_index c') = i" by blast
    moreover from this have "c = c'" using i(2) look [of c'] by (cases c') auto
    ultimately show "c \<in> set cs" by simp
  qed
  moreover have "distinct cs" using assms(1) by (simp add: distinct_map)
  moreover have "distinct (number_chunks ?ds)"
    using distinct_number_chunks [of ?ds] \<open>unat n \<le> 256\<close> by (simp add: distinct_map)
  ultimately have "mset cs = mset (number_chunks ?ds)"
    by (simp add: set_eq_iff_mset_eq_distinct)
  then show thesis using that [of ?ds] slots by simp
qed

lemma fold_place_number_chunks:
  assumes "mset cs = mset (number_chunks ds)" "length ds = unat n"
  shows "fold_res (place_chunk n) cs (replicate (unat n) None) = Ok (map Some ds)"
proof -
  have le: "length ds \<le> 256"
    unfolding assms(2) by (rule less_imp_le [OF unat_u8_less])
  have dist: "distinct (map ch_index cs)"
    using distinct_number_chunks [OF le] assms(1)
    by (metis mset_eq_imp_distinct_iff mset_map)
  have ran: "\<forall>c \<in> set cs. ch_index c < n"
    using mset_eq_setD [OF assms(1)] assms(2) le
    by (auto simp: set_number_chunks word_less_nat_alt)
  have len: "length cs = unat n"
    using assms by (metis length_number_chunks size_mset)
  obtain ds' where ds': "length ds' = unat n" "mset cs = mset (number_chunks ds')"
    "fold (\<lambda>c s. s[unat (ch_index c) := Some (ch_data c)]) cs (replicate (unat n) None) = map Some ds'"
    using slots_of_distinct [OF dist ran len] by blast
  have "ds' = ds"
  proof (rule nth_equalityI)
    fix i assume i: "i < length ds'"
    then have "number_chunks ds' ! i \<in> set (number_chunks ds')" by (intro nth_mem) simp
    then have "\<lparr>ch_index = of_nat i, ch_data = ds' ! i\<rparr> \<in> set (number_chunks ds)"
      using mset_eq_setD [OF trans [OF ds'(2) [symmetric] assms(1)]] i by simp
    then obtain j where j: "j < length ds" "(of_nat i :: u8) = of_nat j" "ds' ! i = ds ! j"
      by (auto simp: set_number_chunks)
    moreover have "i = j"
      using of_nat_u8_inject [of i j] i j le ds'(1) assms(2) by simp
    ultimately show "ds' ! i = ds ! i" by simp
  qed (simp add: ds'(1) assms(2))
  with ds'(3) dist ran show ?thesis
    by (subst fold_place_chunk) (auto simp: word_less_nat_alt)
qed

lemma fold_place_chunk_Ok_iff:
  assumes "length cs = unat n"
  shows "fold_res (place_chunk n) cs (replicate (unat n) None) = Ok r \<longleftrightarrow>
     (\<exists>ds. length ds = unat n \<and> mset cs = mset (number_chunks ds) \<and> r = map Some ds)"
proof
  assume "fold_res (place_chunk n) cs (replicate (unat n) None) = Ok r"
  then have "distinct (map ch_index cs)" "\<forall>c \<in> set cs. ch_index c < n"
    "r = fold (\<lambda>c s. s[unat (ch_index c) := Some (ch_data c)]) cs (replicate (unat n) None)"
    by (auto simp: fold_place_chunk)
  with slots_of_distinct [of cs n] assms
  show "\<exists>ds. length ds = unat n \<and> mset cs = mset (number_chunks ds) \<and> r = map Some ds"
    by metis
qed (auto simp: fold_place_number_chunks)

lemma reconstruct_Ok_iff:
  "reconstruct sha256 chunks n len h = Ok wasm \<longleftrightarrow>
     0 < len \<and> len \<le> MAX_CODE_BYTES \<and> length wasm = unat len \<and> sha256 wasm = h \<and>
     (\<exists>ds. length ds = unat n \<and> mset chunks = mset (number_chunks ds) \<and> wasm = concat ds)"
proof (cases "length chunks = unat n")
  case True
  have "reconstruct sha256 chunks n len h = Ok wasm \<longleftrightarrow>
      0 < len \<and> len \<le> MAX_CODE_BYTES \<and>
      (\<exists>r. fold_res (place_chunk n) chunks (replicate (unat n) None) = Ok r \<and>
        concat_slots 0 r = Ok wasm \<and> length wasm = unat len \<and> sha256 wasm = h)"
    using True by (auto simp: reconstruct_def word_gt_0 not_less split: if_splits)
  also have "\<dots> \<longleftrightarrow> 0 < len \<and> len \<le> MAX_CODE_BYTES \<and> length wasm = unat len \<and> sha256 wasm = h \<and>
      (\<exists>ds. length ds = unat n \<and> mset chunks = mset (number_chunks ds) \<and> wasm = concat ds)"
    unfolding fold_place_chunk_Ok_iff [OF True] by (auto simp: ex_simps)
  finally show ?thesis .
next
  case False
  then have "\<nexists>ds. length ds = unat n \<and> mset chunks = mset (number_chunks ds)"
    by (metis length_number_chunks size_mset)
  with False show ?thesis by (auto simp: reconstruct_def)
qed

lemma reconstruct_number_chunks_concat:
  assumes "reconstruct sha256 (number_chunks ds) n len h = Ok wasm"
  shows "wasm = concat ds"
proof -
  obtain ds' where ds': "length ds' = unat n" "mset (number_chunks ds) = mset (number_chunks ds')" "wasm = concat ds'"
    using assms by (auto simp: reconstruct_Ok_iff)
  then have "length ds = unat n" by (metis length_number_chunks size_mset)
  then have "map Some ds' = map Some ds"
    using fold_place_number_chunks [OF ds'(2,1)] fold_place_number_chunks [OF refl, of ds n] by simp
  then show ?thesis using ds'(3) by (simp add: inj_map_eq_map)
qed

lemma place_chunk_not_missing: "place_chunk n c s \<noteq> Err (MissingChunk i)"
  by (simp add: place_chunk_def)

lemma fold_place_not_missing: "fold_res (place_chunk n) cs s \<noteq> Err (MissingChunk i)"
proof (induction cs arbitrary: s)
  case (Cons c cs)
  then show ?case
    using place_chunk_not_missing [of n c s i] by (cases "place_chunk n c s") auto
qed simp

text \<open>C5. Reconstruction succeeds exactly when the chunks are, in any order, the numbered
  pieces \<open>0..n-1\<close> of some payload of the declared, bounded length and the declared SHA-256
  digest, and then it returns that payload.\<close>

theorem reconstruct_exact:
  "reconstruct sha256 chunks n len h = Ok wasm \<longleftrightarrow>
     0 < len \<and> len \<le> MAX_CODE_BYTES \<and> length wasm = unat len \<and> sha256 wasm = h \<and>
     (\<exists>ds. length ds = unat n \<and> mset chunks = mset (number_chunks ds) \<and> wasm = concat ds)"
  by (rule reconstruct_Ok_iff)

text \<open>The \<open>MissingChunk\<close> branch is unreachable: the count check, the range check and the
  duplicate check before it leave no slot empty.\<close>

theorem reconstruct_never_missing:
  "reconstruct sha256 chunks n len h \<noteq> Err (MissingChunk i)"
proof (cases "length chunks = unat n")
  case True
  show ?thesis
  proof (cases "fold_res (place_chunk n) chunks (replicate (unat n) None)")
    case (Inl e)
    then show ?thesis
      using fold_place_not_missing [of n chunks "replicate (unat n) None" i]
      by (auto simp: reconstruct_def)
  next
    case (Inr r)
    with True obtain ds where "r = map Some ds" by (auto simp: fold_place_chunk_Ok_iff)
    with Inr show ?thesis by (auto simp: reconstruct_def)
  qed
qed (auto simp: reconstruct_def)

text \<open>Splitting a payload and reconstructing it from its chunks, delivered in any order,
  gives the payload back.\<close>

theorem split_reconstruct:
  assumes "0 < chunk_size" "length (chunks_of chunk_size wasm) \<le> 255"
    and "wasm \<noteq> []" "length wasm \<le> unat MAX_CODE_BYTES"
  shows "\<exists>cs. split_payload wasm chunk_size = Some cs \<and>
     (\<forall>cs'. mset cs' = mset cs \<longrightarrow>
        reconstruct sha256 cs' (of_nat (length cs)) (of_nat (length wasm)) (sha256 wasm) = Ok wasm)"
proof -
  have len: "unat (of_nat (length wasm) :: u32) = length wasm"
    using assms(4) by (simp add: params)
  have ran: "(0 :: u32) < of_nat (length wasm)" "(of_nat (length wasm) :: u32) \<le> MAX_CODE_BYTES"
    using assms(3,4) len by (simp_all only: word_less_nat_alt word_le_nat_alt) simp_all
  have n: "unat (of_nat (length (chunks_of chunk_size wasm)) :: u8) = length (chunks_of chunk_size wasm)"
    using assms(2) by simp
  show ?thesis
    unfolding reconstruct_Ok_iff split_payload_def
    using assms(1) len n ran concat_chunks_of [OF assms(1), of wasm]
    by (auto intro!: exI [of _ "chunks_of chunk_size wasm"])
qed

end
