(* ===== verification/Ordered_Map.thy ===== *)
theory Ordered_Map
  imports Prelude
begin

text \<open>
  Rust's \<open>BTreeMap\<close> as an abstract type of association lists with strictly increasing keys:
  insertion, removal and lookup, iteration in key order, and extensionality. The locale
  \<open>updatable_map\<close> states the contract its clients use and proves what a run of insertions
  or removals does to a lookup.
\<close>

section \<open>The map interface\<close>

locale updatable_map =
  fixes get :: "'m \<Rightarrow> 'k \<Rightarrow> 'v option"
    and put :: "'k \<Rightarrow> 'v \<Rightarrow> 'm \<Rightarrow> 'm"
    and del :: "'k \<Rightarrow> 'm \<Rightarrow> 'm"
  assumes get_put: "get (put k v m) k' = (if k' = k then Some v else get m k')"
    and get_del: "get (del k m) k' = (if k' = k then None else get m k')"
    and map_ext: "(\<And>k. get m k = get m' k) \<Longrightarrow> m = m'"
begin

lemma put_put: "put k v (put k w m) = put k v m"
  by (rule map_ext) (simp add: get_put)

lemma put_commute: "k \<noteq> k' \<Longrightarrow> put k v (put k' w m) = put k' w (put k v m)"
  by (rule map_ext) (simp add: get_put)

lemma del_put: "del k (put k v m) = del k m"
  by (rule map_ext) (simp add: get_put get_del)

lemma put_same: "get m k = Some v \<Longrightarrow> put k v m = m"
  by (rule map_ext) (simp add: get_put)

lemma del_absent: "get m k = None \<Longrightarrow> del k m = m"
  by (rule map_ext) (simp add: get_del)

text \<open>Restoring the previous binding undoes an insertion or a removal.\<close>

lemma restore_put: "(case get m k of Some w \<Rightarrow> put k w (put k v m) | None \<Rightarrow> del k (put k v m)) = m"
  by (cases "get m k") (auto intro: map_ext simp: get_put get_del)

lemma restore_del: "get m k = Some w \<Longrightarrow> put k w (del k m) = m"
  by (rule map_ext) (simp add: get_put get_del)

text \<open>A lookup after a run of insertions sees the last one with its key.\<close>

lemma get_fold_put:
  "get (fold (\<lambda>x. put (f x) (g x)) xs m) k =
     (case map_of (rev (map (\<lambda>x. (f x, g x)) xs)) k of Some v \<Rightarrow> Some v | None \<Rightarrow> get m k)"
  by (induction xs rule: rev_induct) (auto simp: get_put)

lemma get_fold_del:
  "get (fold (\<lambda>x. del (f x)) xs m) k = (if k \<in> f ` set xs then None else get m k)"
  by (induction xs rule: rev_induct) (auto simp: get_del)

end

section \<open>Sorted association lists\<close>

fun al_insert :: "'k::linorder \<Rightarrow> 'v \<Rightarrow> ('k \<times> 'v) list \<Rightarrow> ('k \<times> 'v) list" where
  "al_insert k v [] = [(k, v)]"
| "al_insert k v ((k', v') # xs) =
     (if k < k' then (k, v) # (k', v') # xs
      else if k = k' then (k, v) # xs
      else (k', v') # al_insert k v xs)"

fun al_remove :: "'k \<Rightarrow> ('k \<times> 'v) list \<Rightarrow> ('k \<times> 'v) list" where
  "al_remove k [] = []"
| "al_remove k ((k', v') # xs) = (if k = k' then xs else (k', v') # al_remove k xs)"

abbreviation sorted_keys :: "('k::linorder \<times> 'v) list \<Rightarrow> bool" where
  "sorted_keys xs \<equiv> sorted_wrt (<) (map fst xs)"

lemma al_insert_keys: "fst ` set (al_insert k v xs) = insert k (fst ` set xs)"
  by (induction k v xs rule: al_insert.induct) auto

lemma al_remove_keys: "fst ` set (al_remove k xs) \<subseteq> fst ` set xs"
  by (induction k xs rule: al_remove.induct) auto

lemma sorted_al_insert: "sorted_keys xs \<Longrightarrow> sorted_keys (al_insert k v xs)"
proof (induction k v xs rule: al_insert.induct)
  case (2 k v k' v' xs)
  then show ?case
    using al_insert_keys [of k v xs] by (force simp: image_iff)
qed simp

lemma sorted_al_remove: "sorted_keys xs \<Longrightarrow> sorted_keys (al_remove k xs)"
proof (induction k xs rule: al_remove.induct)
  case (2 k k' v' xs)
  then show ?case
    using al_remove_keys [of k xs] by force
qed simp

lemma map_of_al_insert: "map_of (al_insert k v xs) = (map_of xs)(k \<mapsto> v)"
  by (induction k v xs rule: al_insert.induct) auto

lemma sorted_keys_distinct: "sorted_keys xs \<Longrightarrow> distinct (map fst xs)"
  by (simp add: strict_sorted_iff)

lemma map_of_al_remove: "sorted_keys xs \<Longrightarrow> map_of (al_remove k xs) = (map_of xs)(k := None)"
proof (induction k xs rule: al_remove.induct)
  case (2 k k' v' xs)
  have "k' \<notin> fst ` set xs" using 2(2) by auto
  then have "map_of xs k' = None" by (simp add: map_of_eq_None_iff)
  with 2 show ?case by (auto simp: fun_eq_iff)
qed (simp add: fun_eq_iff)

lemma sorted_keys_ext:
  assumes "sorted_keys xs" "sorted_keys ys" "map_of xs = map_of ys"
  shows "xs = ys"
proof -
  have d: "distinct (map fst xs)" "distinct (map fst ys)"
    using assms(1,2) by (auto intro: sorted_keys_distinct)
  have "set xs = set ys"
    using assms(3) d by (metis map_of_eq_Some_iff prod.exhaust subrelI subset_antisym)
  then have "map fst xs = map fst ys"
    using assms(1,2) by (metis list.set_map strict_sorted_equal)
  moreover have "zs = map (\<lambda>k. (k, the (map_of zs k))) (map fst zs)"
    if "distinct (map fst zs)" for zs :: "('a \<times> 'b) list"
    using that by (auto simp: o_def intro!: map_idI [symmetric])
  ultimately show ?thesis using assms(3) d by metis
qed

section \<open>The map type\<close>

typedef (overloaded) ('k :: linorder, 'v) omap = "{xs :: ('k \<times> 'v) list. sorted_keys xs}"
  morphisms om_entries Abs_omap
  by (rule exI [of _ "[]"]) simp

setup_lifting type_definition_omap

lift_definition om_empty :: "('k :: linorder, 'v) omap" is "[]"
  by simp

lift_definition om_insert :: "'k :: linorder \<Rightarrow> 'v \<Rightarrow> ('k, 'v) omap \<Rightarrow> ('k, 'v) omap" is al_insert
  by (rule sorted_al_insert)

lift_definition om_remove :: "'k :: linorder \<Rightarrow> ('k, 'v) omap \<Rightarrow> ('k, 'v) omap" is al_remove
  by (rule sorted_al_remove)

lift_definition om_get :: "('k :: linorder, 'v) omap \<Rightarrow> 'k \<Rightarrow> 'v option" is map_of .

abbreviation om_keys :: "('k :: linorder, 'v) omap \<Rightarrow> 'k list" where
  "om_keys m \<equiv> map fst (om_entries m)"

abbreviation om_values :: "('k :: linorder, 'v) omap \<Rightarrow> 'v list" where
  "om_values m \<equiv> map snd (om_entries m)"

lemma om_ext: "(\<And>k. om_get m k = om_get m' k) \<Longrightarrow> m = m'"
  by transfer (auto intro: sorted_keys_ext)

lemma om_get_insert: "om_get (om_insert k v m) k' = (if k' = k then Some v else om_get m k')"
  by transfer (simp add: map_of_al_insert)

lemma om_get_remove: "om_get (om_remove k m) k' = (if k' = k then None else om_get m k')"
  by transfer (simp add: map_of_al_remove)

interpretation om: updatable_map om_get om_insert om_remove
  by unfold_locales (auto simp: om_get_insert om_get_remove intro: om_ext)

lemma om_get_empty [simp]: "om_get om_empty k = None"
  by transfer simp

declare om_get_insert [simp] om_get_remove [simp]

lemma om_entries_sorted: "sorted_wrt (<) (om_keys m)"
  by transfer simp

lemma om_keys_distinct: "distinct (om_keys m)"
  using om_entries_sorted [of m] by (simp add: strict_sorted_iff)

lemma om_entries_distinct: "distinct (om_entries m)"
  using om_keys_distinct distinct_map by blast

lemma om_entries_get: "(k, v) \<in> set (om_entries m) \<longleftrightarrow> om_get m k = Some v"
proof -
  have "distinct (om_keys m)" by (rule om_keys_distinct)
  then show ?thesis by (transfer) simp
qed

lemma om_keys_get: "k \<in> set (om_keys m) \<longleftrightarrow> om_get m k \<noteq> None"
  by (force simp: om_entries_get [symmetric])

lemma om_get_eq_None: "om_get m k = None \<longleftrightarrow> k \<notin> set (om_keys m)"
  using om_keys_get by blast

text \<open>Evaluation of maps built from the empty one.\<close>

lemma om_entries_empty [simp]: "om_entries om_empty = []"
  by transfer simp

lemma om_entries_insert: "om_entries (om_insert k v m) = al_insert k v (om_entries m)"
  by transfer simp

lemma om_entries_remove: "om_entries (om_remove k m) = al_remove k (om_entries m)"
  by transfer simp

lemmas om_eval = om_entries_insert om_entries_remove

lemma om_eq_iff: "m = m' \<longleftrightarrow> om_entries m = om_entries m'"
  by (simp add: om_entries_inject)

lemma length_al_insert:
  "length (al_insert k v xs) = length xs + (if k \<in> fst ` set xs then 0 else 1)" if "sorted_keys xs"
  using that
proof (induction k v xs rule: al_insert.induct)
  case (2 k v k' v' xs)
  have "k \<notin> fst ` set xs" if "k \<le> k'"
    using that 2(2) by force
  then show ?case using 2 by (cases "k \<le> k'") auto
qed simp

lemma length_om_insert:
  "length (om_entries (om_insert k v m)) = length (om_entries m) + (if om_get m k = None then 1 else 0)"
  using om_keys_get [of k m] om_entries_sorted [of m] by (simp add: om_entries_insert length_al_insert)

text \<open>\<open>collect\<close>: inserting the elements of a list one after the other.\<close>

definition om_of_list :: "('k :: linorder \<times> 'v) list \<Rightarrow> ('k, 'v) omap" where
  "om_of_list xs = fold (\<lambda>(k, v). om_insert k v) xs om_empty"

lemma om_get_of_list: "om_get (om_of_list xs) k = map_of (rev xs) k"
  using om.get_fold_put [of fst snd xs om_empty k]
  by (simp add: om_of_list_def case_prod_unfold split: option.splits)

lemma om_of_list_entries [simp]: "om_of_list (om_entries m) = m"
proof (rule om_ext)
  fix k
  show "om_get (om_of_list (om_entries m)) k = om_get m k"
    using om_keys_distinct [of m] map_of_inject_set [of "rev (om_entries m)" "om_entries m"]
    by (simp add: om_get_of_list rev_map [symmetric]) (simp add: om_get.rep_eq)
qed

text \<open>\<open>retain\<close>: the entries that satisfy a predicate.\<close>

lift_definition om_filter :: "('k :: linorder \<Rightarrow> 'v \<Rightarrow> bool) \<Rightarrow> ('k, 'v) omap \<Rightarrow> ('k, 'v) omap" is
  "\<lambda>p. filter (\<lambda>(k, v). p k v)"
  by (simp add: filter_map [symmetric] sorted_wrt_map sorted_wrt_filter)

lemma om_entries_filter: "om_entries (om_filter p m) = filter (\<lambda>(k, v). p k v) (om_entries m)"
  by transfer simp

end
