(* ===== verification/State_Spec.thy ===== *)
theory State_Spec
  imports Core Ordered_Map
begin

text \<open>
  The shared half of the crate \<open>zalkanes-state\<close> (\<open>lib.rs\<close>): block commits, undo
  operations, leaf hashing and the state root, the \<open>StateStore\<close> trait as a record of
  operations, and the contract of a store: an abstract ledger of contents and earlier
  snapshots, with the locale \<open>state_store\<close> stating that a store implements it.
\<close>

section \<open>Commits, undo records and contents\<close>

record block_commit =
  bc_height :: u32
  bc_hash :: block_hash
  bc_deploys :: "(contract_id \<times> code_hash \<times> bytes) list"
  bc_upserts :: "(contract_id \<times> bytes \<times> bytes) list"
  bc_deletes :: "(contract_id \<times> bytes) list"

datatype undo_op =
    USet contract_id bytes "bytes option"
  | UDelete contract_id bytes bytes
  | UDeploy contract_id "(code_hash \<times> bytes) option"

record height_record =
  hr_height :: u32
  hr_hash :: block_hash
  hr_root :: state_root

type_synonym contracts = "(contract_id, code_hash \<times> bytes) omap"
type_synonym storage = "(contract_id \<times> bytes, bytes) omap"
type_synonym contents = "contracts \<times> storage"

section \<open>Leaves and the state root\<close>

definition contract_leaf_input :: "contract_id \<Rightarrow> code_hash \<Rightarrow> bytes \<Rightarrow> bytes" where
  "contract_leaf_input cid ch wasm =
     (let code_len = (of_nat (length wasm) :: u32) in
      bytes_of cid @ bytes_of ch @ u32_to_be_bytes code_len @ wasm)"

definition contract_leaf :: "blake \<Rightarrow> contract_id \<Rightarrow> code_hash \<Rightarrow> bytes \<Rightarrow> b32" where
  "contract_leaf blake cid ch wasm =
     blake STATE_LEAF_PERSONALIZATION (contract_leaf_input cid ch wasm)"

definition storage_leaf_input :: "contract_id \<Rightarrow> bytes \<Rightarrow> bytes \<Rightarrow> bytes" where
  "storage_leaf_input cid key val =
     (let key_len = (of_nat (length key) :: u16); val_len = (of_nat (length val) :: u32) in
      bytes_of cid @ u16_to_be_bytes key_len @ key @ u32_to_be_bytes val_len @ val)"

definition storage_leaf :: "blake \<Rightarrow> contract_id \<Rightarrow> bytes \<Rightarrow> bytes \<Rightarrow> b32" where
  "storage_leaf blake cid key val =
     blake STATE_LEAF_PERSONALIZATION (storage_leaf_input cid key val)"

definition root_from_leaves :: "blake \<Rightarrow> b32 list \<Rightarrow> state_root" where
  "root_from_leaves blake leaves =
     blake STATE_ROOT_PERSONALIZATION (concat (map bytes_of (sort leaves)))"

section \<open>The \<open>StateStore\<close> trait\<close>

datatype state_error =
    WriteFailed
  | RootMismatch u32 state_root state_root
  | ExecutionSerialization

text \<open>
  The trait object: the visitors are the lists of the entries they visit, in order, and an
  operation on \<open>&mut self\<close> returns the store beside its result.
\<close>

record 's store_ops =
  so_has_contract :: "'s \<Rightarrow> contract_id \<Rightarrow> bool"
  so_get_contract :: "'s \<Rightarrow> contract_id \<Rightarrow> (code_hash \<times> bytes) option"
  so_storage_get :: "'s \<Rightarrow> contract_id \<Rightarrow> bytes \<Rightarrow> bytes option"
  so_compute_root :: "'s \<Rightarrow> state_root"
  so_contracts :: "'s \<Rightarrow> (contract_id \<times> code_hash \<times> bytes) list"
  so_storage :: "'s \<Rightarrow> (contract_id \<times> bytes \<times> bytes) list"
  so_indexed_height :: "'s \<Rightarrow> u32 option"
  so_indexed_block_hash :: "'s \<Rightarrow> block_hash option"
  so_persisted_state_root :: "'s \<Rightarrow> state_root option"
  so_height_history :: "'s \<Rightarrow> height_record list"
  so_commit_block :: "'s \<Rightarrow> block_commit \<Rightarrow> 's \<times> (state_error, state_root) result"
  so_rollback_to :: "'s \<Rightarrow> u32 \<Rightarrow> 's \<times> (state_error, unit) result"
  so_save_executions :: "'s \<Rightarrow> execution list \<Rightarrow> 's \<times> (state_error, unit) result"
  so_execution :: "'s \<Rightarrow> tx_id \<Rightarrow> execution option"
  so_executions_at_height :: "'s \<Rightarrow> u32 \<Rightarrow> execution list"

definition leaves_of ::
    "blake \<Rightarrow> (contract_id \<times> code_hash \<times> bytes) list \<Rightarrow> (contract_id \<times> bytes \<times> bytes) list \<Rightarrow> b32 list" where
  "leaves_of blake cs ss =
     map (\<lambda>(cid, ch, wasm). contract_leaf blake cid ch wasm) cs
     @ map (\<lambda>(cid, key, val). storage_leaf blake cid key val) ss"

definition collect_leaves :: "blake \<Rightarrow> 's store_ops \<Rightarrow> 's \<Rightarrow> b32 list" where
  "collect_leaves blake ops s = leaves_of blake (so_contracts ops s) (so_storage ops s)"

text \<open>The working view of \<open>projected_root\<close>: the deploys, the upserts, then the deletes.\<close>

definition apply_deploys :: "(contract_id \<times> code_hash \<times> bytes) list \<Rightarrow> contracts \<Rightarrow> contracts" where
  "apply_deploys ds c = fold (\<lambda>(cid, ch, wasm). om_insert cid (ch, wasm)) ds c"

definition apply_upserts :: "(contract_id \<times> bytes \<times> bytes) list \<Rightarrow> storage \<Rightarrow> storage" where
  "apply_upserts us s = fold (\<lambda>(cid, key, val). om_insert (cid, key) val) us s"

definition apply_deletes :: "(contract_id \<times> bytes) list \<Rightarrow> storage \<Rightarrow> storage" where
  "apply_deletes ks s = fold om_remove ks s"

definition contract_list :: "contracts \<Rightarrow> (contract_id \<times> code_hash \<times> bytes) list" where
  "contract_list c = om_entries c"

definition storage_list :: "storage \<Rightarrow> (contract_id \<times> bytes \<times> bytes) list" where
  "storage_list s = map (\<lambda>((cid, key), val). (cid, key, val)) (om_entries s)"

definition projected_root_of ::
    "blake \<Rightarrow> (contract_id \<times> code_hash \<times> bytes) list \<Rightarrow> (contract_id \<times> bytes \<times> bytes) list
      \<Rightarrow> block_commit \<Rightarrow> state_root" where
  "projected_root_of blake cs ss commit =
     (let contract_wasm = apply_deploys cs om_empty;
          storage_map = apply_upserts ss om_empty;
          contract_wasm = apply_deploys (bc_deploys commit) contract_wasm;
          storage_map = apply_upserts (bc_upserts commit) storage_map;
          storage_map = apply_deletes (bc_deletes commit) storage_map in
      root_from_leaves blake (leaves_of blake (contract_list contract_wasm) (storage_list storage_map)))"

definition projected_root :: "blake \<Rightarrow> 's store_ops \<Rightarrow> 's \<Rightarrow> block_commit \<Rightarrow> state_root" where
  "projected_root blake ops s commit =
     projected_root_of blake (so_contracts ops s) (so_storage ops s) commit"

section \<open>Undo\<close>

text \<open>One step of a rollback on the contents.\<close>

fun apply_undo :: "undo_op \<Rightarrow> contents \<Rightarrow> contents" where
  "apply_undo (USet cid key (Some v)) (c, s) = (c, om_insert (cid, key) v s)"
| "apply_undo (USet cid key None) (c, s) = (c, om_remove (cid, key) s)"
| "apply_undo (UDelete cid key prev) (c, s) = (c, om_insert (cid, key) prev s)"
| "apply_undo (UDeploy cid (Some (ch, wasm))) (c, s) = (om_insert cid (ch, wasm) c, s)"
| "apply_undo (UDeploy cid None) (c, s) = (om_remove cid c, s)"

definition unwind_ops :: "undo_op list \<Rightarrow> contents \<Rightarrow> contents" where
  "unwind_ops ops = fold apply_undo (rev ops)"

lemma unwind_ops_simps [simp]:
  "unwind_ops [] x = x" "unwind_ops (op # ops) x = apply_undo op (unwind_ops ops x)"
  "unwind_ops (ops @ ops') x = unwind_ops ops (unwind_ops ops' x)"
  by (simp_all add: unwind_ops_def)

section \<open>The abstract ledger\<close>

text \<open>
  What a store promises: its contents and, newest first, the record of every committed block
  with the contents before it.
\<close>

definition apply_commit :: "block_commit \<Rightarrow> contents \<Rightarrow> contents" where
  "apply_commit commit x =
     (apply_deploys (bc_deploys commit) (fst x),
      apply_deletes (bc_deletes commit) (apply_upserts (bc_upserts commit) (snd x)))"

definition contents_root :: "blake \<Rightarrow> contents \<Rightarrow> state_root" where
  "contents_root blake x =
     root_from_leaves blake (leaves_of blake (contract_list (fst x)) (storage_list (snd x)))"

record ledger =
  lg_contents :: contents
  lg_blocks :: "(height_record \<times> contents) list"

definition empty_ledger :: ledger where
  "empty_ledger = \<lparr>lg_contents = (om_empty, om_empty), lg_blocks = []\<rparr>"

definition spec_commit :: "blake \<Rightarrow> block_commit \<Rightarrow> ledger \<Rightarrow> ledger" where
  "spec_commit blake commit lg =
     (let x = apply_commit commit (lg_contents lg) in
      \<lparr>lg_contents = x,
       lg_blocks = (\<lparr>hr_height = bc_height commit, hr_hash = bc_hash commit,
                     hr_root = contents_root blake x\<rparr>, lg_contents lg) # lg_blocks lg\<rparr>)"

fun unwind :: "u32 \<Rightarrow> contents \<Rightarrow> (height_record \<times> contents) list
    \<Rightarrow> contents \<times> (height_record \<times> contents) list" where
  "unwind t x [] = (x, [])"
| "unwind t x ((r, y) # bs) = (if hr_height r > t then unwind t y bs else (x, (r, y) # bs))"

definition spec_rollback :: "u32 \<Rightarrow> ledger \<Rightarrow> ledger" where
  "spec_rollback t lg =
     (case unwind t (lg_contents lg) (lg_blocks lg) of
        (x, bs) \<Rightarrow> \<lparr>lg_contents = x, lg_blocks = bs\<rparr>)"

definition spec_history :: "ledger \<Rightarrow> height_record list" where
  "spec_history lg = rev (map fst (lg_blocks lg))"

definition spec_last :: "ledger \<Rightarrow> height_record option" where
  "spec_last lg = (case lg_blocks lg of [] \<Rightarrow> None | (r, _) # _ \<Rightarrow> Some r)"

text \<open>Heights strictly increase from block to block.\<close>

definition heights_ok :: "ledger \<Rightarrow> bool" where
  "heights_ok lg \<longleftrightarrow> sorted_wrt (>) (map (hr_height \<circ> fst) (lg_blocks lg))"

text \<open>
  The commits a store is asked to make: the next height is above the last one, and keys,
  values, modules and counts fit the length fields of the undo journal.
\<close>

definition small_commit :: "block_commit \<Rightarrow> bool" where
  "small_commit c \<longleftrightarrow>
     (\<forall>(cid, ch, wasm) \<in> set (bc_deploys c). length wasm < 2 ^ 32)
     \<and> (\<forall>(cid, key, val) \<in> set (bc_upserts c). length key < 2 ^ 16 \<and> length val < 2 ^ 32)
     \<and> (\<forall>(cid, key) \<in> set (bc_deletes c). length key < 2 ^ 16)
     \<and> length (bc_deploys c) + length (bc_upserts c) + length (bc_deletes c) < 2 ^ 32"

definition next_height :: "ledger \<Rightarrow> u32 \<Rightarrow> bool" where
  "next_height lg h \<longleftrightarrow> (case spec_last lg of None \<Rightarrow> True | Some r \<Rightarrow> hr_height r < h)"

section \<open>Contents after a commit\<close>

lemma apply_deploys_simps [simp]:
  "apply_deploys [] c = c"
  "apply_deploys ((cid, ch, wasm) # ds) c = apply_deploys ds (om_insert cid (ch, wasm) c)"
  by (simp_all add: apply_deploys_def)

lemma apply_upserts_simps [simp]:
  "apply_upserts [] s = s"
  "apply_upserts ((cid, key, val) # us) s = apply_upserts us (om_insert (cid, key) val s)"
  by (simp_all add: apply_upserts_def)

lemma apply_deletes_simps [simp]:
  "apply_deletes [] s = s" "apply_deletes (ck # ks) s = apply_deletes ks (om_remove ck s)"
  by (simp_all add: apply_deletes_def)

lemma apply_deploys_list [simp]: "apply_deploys (contract_list c) om_empty = c"
  using om_of_list_entries [of c]
  by (simp add: apply_deploys_def contract_list_def om_of_list_def case_prod_unfold)

lemma fold_map_fun: "fold f (map g xs) s = fold (\<lambda>x. f (g x)) xs s"
  by (induction xs arbitrary: s) auto

lemma apply_upserts_list [simp]: "apply_upserts (storage_list s) om_empty = s"
  using om_of_list_entries [of s]
  by (simp add: apply_upserts_def storage_list_def om_of_list_def case_prod_unfold fold_map_fun)

lemma get_apply_deploys:
  "om_get (apply_deploys ds c) cid = (case map_of (rev ds) cid of Some d \<Rightarrow> Some d | None \<Rightarrow> om_get c cid)"
  using om.get_fold_put [of fst snd ds c cid]
  by (simp add: apply_deploys_def case_prod_unfold)

definition upsert_bindings :: "(contract_id \<times> bytes \<times> bytes) list \<Rightarrow> ((contract_id \<times> bytes) \<times> bytes) list" where
  "upsert_bindings us = map (\<lambda>(cid, key, val). ((cid, key), val)) us"

lemma get_apply_upserts:
  "om_get (apply_upserts us s) ck =
     (case map_of (rev (upsert_bindings us)) ck of Some v \<Rightarrow> Some v | None \<Rightarrow> om_get s ck)"
  using om.get_fold_put [of "\<lambda>(cid, key, val). (cid, key)" "\<lambda>(cid, key, val). val" us s ck]
  by (simp add: apply_upserts_def upsert_bindings_def case_prod_unfold)

lemma get_apply_deletes:
  "om_get (apply_deletes ks s) ck = (if ck \<in> set ks then None else om_get s ck)"
  using om.get_fold_del [of "\<lambda>x. x" ks s ck] by (simp add: apply_deletes_def)

lemma projected_root_of_contents:
  "projected_root_of blake (contract_list c) (storage_list s) commit
     = contents_root blake (apply_commit commit (c, s))"
  by (simp add: projected_root_of_def contents_root_def apply_commit_def Let_def)

lemma projected_root_contents:
  assumes "so_contracts ops st = contract_list c" "so_storage ops st = storage_list s"
  shows "projected_root blake ops st commit = contents_root blake (apply_commit commit (c, s))"
  by (simp add: projected_root_def assms projected_root_of_contents)

section \<open>Rolling back a run of commits\<close>

definition spec_commits :: "blake \<Rightarrow> block_commit list \<Rightarrow> ledger \<Rightarrow> ledger" where
  "spec_commits blake cs lg = fold (spec_commit blake) cs lg"

lemma spec_commits_simps [simp]:
  "spec_commits blake [] lg = lg"
  "spec_commits blake (c # cs) lg = spec_commits blake cs (spec_commit blake c lg)"
  "spec_commits blake (cs @ ds) lg = spec_commits blake ds (spec_commits blake cs lg)"
  by (simp_all add: spec_commits_def)

lemma spec_last_commit [simp]:
  "spec_last (spec_commit blake c lg) = Some \<lparr>hr_height = bc_height c, hr_hash = bc_hash c,
     hr_root = contents_root blake (apply_commit c (lg_contents lg))\<rparr>"
  by (simp add: spec_commit_def spec_last_def Let_def)

lemma spec_rollback_commit:
  "spec_rollback t (spec_commit blake c lg) =
     (if bc_height c > t then spec_rollback t lg else spec_commit blake c lg)"
  by (simp add: spec_rollback_def spec_commit_def Let_def split: prod.split)

lemma spec_rollback_id:
  "(case spec_last lg of None \<Rightarrow> True | Some r \<Rightarrow> hr_height r \<le> t) \<Longrightarrow> spec_rollback t lg = lg"
  by (cases lg; cases "lg_blocks lg") (auto simp: spec_last_def spec_rollback_def)

definition increasing :: "ledger \<Rightarrow> block_commit list \<Rightarrow> bool" where
  "increasing lg cs \<longleftrightarrow> sorted_wrt (<) (map bc_height cs) \<and> (\<forall>c \<in> set cs. next_height lg (bc_height c))"

lemma increasing_Cons:
  "increasing lg (c # cs) \<longleftrightarrow> next_height lg (bc_height c) \<and> increasing (spec_commit blake c lg) cs"
proof -
  have "next_height lg h" if "next_height lg (bc_height c)" "bc_height c < h" for h
    using that by (auto simp: next_height_def split: option.splits)
  then show ?thesis by (auto simp: increasing_def next_height_def)
qed

lemma increasing_appendD: "increasing lg (cs @ ds) \<Longrightarrow> increasing lg cs"
  by (simp add: increasing_def sorted_wrt_append)

lemma spec_rollback_commits:
  assumes "increasing lg cs"
  shows "spec_rollback t (spec_commits blake cs lg)
    = spec_commits blake (filter (\<lambda>c. bc_height c \<le> t) cs) (spec_rollback t lg)"
  using assms
proof (induction cs rule: rev_induct)
  case (snoc c cs)
  have IH: "spec_rollback t (spec_commits blake cs lg)
    = spec_commits blake (filter (\<lambda>c. bc_height c \<le> t) cs) (spec_rollback t lg)"
    using snoc increasing_appendD by blast
  show ?case
  proof (cases "bc_height c \<le> t")
    case True
    then have "filter (\<lambda>c. bc_height c \<le> t) cs = cs"
      using snoc.prems by (auto simp: increasing_def sorted_wrt_append filter_id_conv)
    moreover have "spec_rollback t lg = lg"
      using True snoc.prems
      by (intro spec_rollback_id) (auto simp: increasing_def next_height_def split: option.splits)
    ultimately show ?thesis
      using True by (simp add: spec_rollback_commit not_less)
  next
    case False
    then show ?thesis by (simp add: spec_rollback_commit IH)
  qed
qed simp

lemma heights_ok_commit:
  assumes "heights_ok lg" "next_height lg (bc_height c)"
  shows "heights_ok (spec_commit blake c lg)"
proof (cases "lg_blocks lg")
  case (Cons b bs)
  then show ?thesis
    using assms by (cases b) (force simp: heights_ok_def next_height_def spec_commit_def
        spec_last_def Let_def)
qed (simp add: heights_ok_def spec_commit_def Let_def)

lemma unwind_suffix: "\<exists>ds. bs = ds @ snd (unwind t x bs)"
  by (induction t x bs rule: unwind.induct) (auto, metis append_Cons)

lemma heights_ok_rollback: "heights_ok lg \<Longrightarrow> heights_ok (spec_rollback t lg)"
  using unwind_suffix [of "lg_blocks lg" t "lg_contents lg"]
  by (cases "unwind t (lg_contents lg) (lg_blocks lg)")
    (force simp: heights_ok_def spec_rollback_def sorted_wrt_append)

text \<open>Committing a list of blocks to a store, stopping at the first error.\<close>

fun commit_all :: "'s store_ops \<Rightarrow> block_commit list \<Rightarrow> 's \<Rightarrow> (state_error, 's) result" where
  "commit_all ops [] s = Ok s"
| "commit_all ops (c # cs) s =
     (case so_commit_block ops s c of
        (s', Ok root) \<Rightarrow> commit_all ops cs s'
      | (s', Err e) \<Rightarrow> Err e)"

text \<open>Two stores that no read of contents or metadata tells apart.\<close>

definition same_view :: "'s store_ops \<Rightarrow> 's \<Rightarrow> 's \<Rightarrow> bool" where
  "same_view ops s s' \<longleftrightarrow>
     so_contracts ops s = so_contracts ops s' \<and> so_storage ops s = so_storage ops s'
     \<and> so_compute_root ops s = so_compute_root ops s'
     \<and> (\<forall>cid. so_get_contract ops s cid = so_get_contract ops s' cid)
     \<and> (\<forall>cid key. so_storage_get ops s cid key = so_storage_get ops s' cid key)
     \<and> so_indexed_height ops s = so_indexed_height ops s'
     \<and> so_indexed_block_hash ops s = so_indexed_block_hash ops s'
     \<and> so_persisted_state_root ops s = so_persisted_state_root ops s'
     \<and> so_height_history ops s = so_height_history ops s'"

section \<open>The interface of a store\<close>

text \<open>
  \<open>rel s lg\<close>: the store \<open>s\<close> represents the ledger \<open>lg\<close>. The reads are those of the ledger;
  a commit is atomic (the ledger with the block, or an error and no change), and a rollback
  that succeeds ends in the ledger rolled back. Saving execution records does not touch it.
\<close>

locale state_store =
  fixes ops :: "'s store_ops" and rel :: "'s \<Rightarrow> ledger \<Rightarrow> bool" and blake :: blake
  assumes rel_heights: "rel s lg \<Longrightarrow> heights_ok lg"
    and has_contract: "rel s lg \<Longrightarrow>
      so_has_contract ops s cid \<longleftrightarrow> om_get (fst (lg_contents lg)) cid \<noteq> None"
    and get_contract: "rel s lg \<Longrightarrow> so_get_contract ops s cid = om_get (fst (lg_contents lg)) cid"
    and storage_get: "rel s lg \<Longrightarrow> so_storage_get ops s cid key = om_get (snd (lg_contents lg)) (cid, key)"
    and contracts: "rel s lg \<Longrightarrow> so_contracts ops s = contract_list (fst (lg_contents lg))"
    and storage: "rel s lg \<Longrightarrow> so_storage ops s = storage_list (snd (lg_contents lg))"
    and compute_root: "rel s lg \<Longrightarrow> so_compute_root ops s = contents_root blake (lg_contents lg)"
    and history: "rel s lg \<Longrightarrow> so_height_history ops s = spec_history lg"
    and indexed: "rel s lg \<Longrightarrow> so_indexed_height ops s = map_option hr_height (spec_last lg)
        \<and> so_indexed_block_hash ops s = map_option hr_hash (spec_last lg)
        \<and> so_persisted_state_root ops s = map_option hr_root (spec_last lg)"
    and commit: "rel s lg \<Longrightarrow> next_height lg (bc_height c) \<Longrightarrow> small_commit c \<Longrightarrow>
      so_commit_block ops s c = (s', r) \<Longrightarrow>
      (case r of Ok root \<Rightarrow> rel s' (spec_commit blake c lg) \<and> root = contents_root blake (apply_commit c (lg_contents lg))
       | Err e \<Rightarrow> rel s' lg)"
    and rollback: "rel s lg \<Longrightarrow> so_rollback_to ops s t = (s', Ok ()) \<Longrightarrow> rel s' (spec_rollback t lg)"
    and save: "rel s lg \<Longrightarrow> so_save_executions ops s es = (s', r') \<Longrightarrow> rel s' lg"
begin

text \<open>The pre-commit root of the indexer is the root that the commit then produces.\<close>

lemma projected_is_committed:
  assumes "rel s lg" "next_height lg (bc_height c)" "small_commit c"
    and "so_commit_block ops s c = (s', Ok root)"
  shows "root = projected_root blake ops s c \<and> so_compute_root ops s' = root
    \<and> so_persisted_state_root ops s' = Some root"
proof -
  have proj: "projected_root blake ops s c = contents_root blake (apply_commit c (lg_contents lg))"
    using projected_root_contents [OF contracts [OF assms(1)] storage [OF assms(1)]] by simp
  have new: "rel s' (spec_commit blake c lg)" "root = contents_root blake (apply_commit c (lg_contents lg))"
    using commit [OF assms] by auto
  then show ?thesis
    using proj compute_root [OF new(1)] indexed [OF new(1)]
    by (simp add: spec_commit_def spec_last_def Let_def)
qed

lemma failed_commit_no_change:
  assumes "rel s lg" "next_height lg (bc_height c)" "small_commit c"
    and "so_commit_block ops s c = (s', Err e)"
  shows "so_compute_root ops s' = so_compute_root ops s \<and> so_height_history ops s' = so_height_history ops s
    \<and> so_indexed_height ops s' = so_indexed_height ops s"
proof -
  have "rel s' lg" using commit [OF assms] by simp
  then show ?thesis
    using assms(1) by (simp add: compute_root history indexed)
qed

text \<open>A storage read after a commit: a deleted key is gone, else the last upsert wins, else the
  old value stays.\<close>

lemma storage_get_after_commit:
  assumes "rel s lg" "next_height lg (bc_height c)" "small_commit c"
    and "so_commit_block ops s c = (s', Ok root)"
  shows "so_storage_get ops s' cid key =
    (if (cid, key) \<in> set (bc_deletes c) then None
     else case map_of (rev (upsert_bindings (bc_upserts c))) (cid, key) of
       Some v \<Rightarrow> Some v | None \<Rightarrow> so_storage_get ops s cid key)"
proof -
  have "rel s' (spec_commit blake c lg)" using commit [OF assms] by auto
  then show ?thesis
    using assms(1)
    by (simp add: storage_get spec_commit_def apply_commit_def Let_def get_apply_deletes
        get_apply_upserts split: option.splits)
qed

lemma rel_same_view: "rel s lg \<Longrightarrow> rel s' lg \<Longrightarrow> same_view ops s s'"
  by (simp add: same_view_def contracts storage compute_root get_contract storage_get indexed history)

lemma commit_all_rel:
  assumes "commit_all ops cs s = Ok s'" "rel s lg" "increasing lg cs" "\<forall>c \<in> set cs. small_commit c"
  shows "rel s' (spec_commits blake cs lg)"
  using assms
proof (induction cs arbitrary: s lg)
  case (Cons c cs)
  then obtain s1 root where s1: "so_commit_block ops s c = (s1, Ok root)" "commit_all ops cs s1 = Ok s'"
    by (auto split: prod.splits sum.splits)
  have inc: "next_height lg (bc_height c)" "increasing (spec_commit blake c lg) cs"
    using Cons.prems(3) increasing_Cons by blast+
  have "rel s1 (spec_commit blake c lg)"
    using commit [OF Cons.prems(2) inc(1) _ s1(1)] Cons.prems(4) by simp
  then show ?case
    using Cons.IH [OF s1(2)] inc(2) Cons.prems(4) by simp
qed simp

text \<open>Rolling back is the same as never having committed the blocks above the target.\<close>

lemma rollback_exact:
  assumes "rel s lg" "increasing lg cs" "\<forall>c \<in> set cs. small_commit c"
    and "spec_rollback t lg = lg"
    and "commit_all ops cs s = Ok s1" "so_rollback_to ops s1 t = (s2, Ok ())"
    and "commit_all ops (filter (\<lambda>c. bc_height c \<le> t) cs) s = Ok s3"
  shows "same_view ops s2 s3"
proof (rule rel_same_view)
  have "rel s1 (spec_commits blake cs lg)"
    using commit_all_rel [OF assms(5,1-3)] .
  from rollback [OF this assms(6)]
  show "rel s2 (spec_commits blake (filter (\<lambda>c. bc_height c \<le> t) cs) lg)"
    by (simp add: spec_rollback_commits [OF assms(2)] assms(4))
  have "increasing lg (filter (\<lambda>c. bc_height c \<le> t) cs)"
    using assms(2) by (simp add: increasing_def filter_map [symmetric] sorted_wrt_map sorted_wrt_filter)
  then show "rel s3 (spec_commits blake (filter (\<lambda>c. bc_height c \<le> t) cs) lg)"
    using commit_all_rel [OF assms(7,1)] assms(3) by simp
qed

end

text \<open>A store that does not fail.\<close>

locale total_store = state_store +
  assumes commit_ok: "rel s lg \<Longrightarrow> next_height lg (bc_height c) \<Longrightarrow> small_commit c \<Longrightarrow>
      \<exists>s' root. so_commit_block ops s c = (s', Ok root)"
    and rollback_ok: "rel s lg \<Longrightarrow> \<exists>s'. so_rollback_to ops s t = (s', Ok ())"
    and save_ok: "rel s lg \<Longrightarrow> \<exists>s'. so_save_executions ops s es = (s', Ok ())"
begin

lemma commits:
  assumes "rel s lg" "next_height lg (bc_height c)" "small_commit c"
  shows "\<exists>s'. so_commit_block ops s c = (s', Ok (contents_root blake (apply_commit c (lg_contents lg))))
    \<and> rel s' (spec_commit blake c lg)"
  using commit_ok [OF assms] commit [OF assms] by fastforce

lemma rollbacks: "rel s lg \<Longrightarrow> \<exists>s'. so_rollback_to ops s t = (s', Ok ()) \<and> rel s' (spec_rollback t lg)"
  using rollback_ok rollback by blast

lemma saves: "rel s lg \<Longrightarrow> \<exists>s'. so_save_executions ops s es = (s', Ok ()) \<and> rel s' lg"
  using save_ok save by blast

end

end
