(* ===== verification/Runtime.thy ===== *)
theory Runtime
  imports State_Spec "HOL-Library.Monad_Syntax"
begin

text \<open>
  The crate \<open>zalkanes-runtime\<close> (\<open>lib.rs\<close>): validation of a WASM module, the host
  functions a contract may call, and the execution of one contract call against a store.

  The engine is a parameter. wasmparser is the list of sections it reports for a module; wasmi
  is the record \<open>wasm_engine\<close>: what parsing and instantiation answer, and the run of the
  exported \<open>dispatch\<close> as a tree that ends with a result and the fuel left or calls a host
  function with the memory at that point and continues with its answer. A run is a finite tree
  along every branch because the fuel is. The host functions are the program's and are
  interpreted over that tree. A host panic is the outcome \<open>None\<close>.
\<close>

section \<open>Modules as wasmparser reports them\<close>

datatype type_ref =
    TFunc
  | TTable u64
  | TMemory u64
  | TGlobal
  | TTag

record import_entry =
  im_module :: string
  im_name :: string
  im_type :: type_ref

text \<open>Sections with the entries iterated over; an entry may fail to parse.\<close>

datatype payload =
    ImportSection "(string, import_entry) result list"
  | FunctionSection nat
  | TableSection "(string, u64) result list"
  | MemorySection "(string, u64) result list"
  | GlobalSection nat
  | ExportSection nat
  | OtherPayload

record module_counts =
  mc_funcs :: nat
  mc_globals :: nat
  mc_imports :: nat
  mc_exports :: nat
  mc_max_memory_pages :: u64
  mc_max_table_elems :: u64

datatype invalid_module =
    ModuleTooLarge nat
  | ParseFailed string
  | TranslationPanic
  | SectionError string
  | FunctionCount nat
  | GlobalCount nat
  | ImportCount nat
  | ExportCount nat
  | MemoryPages u64
  | TableElements u64
  | UnresolvableImport string string

definition count_import ::
    "(string, import_entry) result \<Rightarrow> module_counts \<Rightarrow> (invalid_module, module_counts) result" where
  "count_import imp c =
     (case imp of
        Err e \<Rightarrow> Err (SectionError e)
      | Ok i \<Rightarrow>
          Ok (case im_type i of
              TFunc \<Rightarrow> c\<lparr>mc_funcs := mc_funcs c + 1\<rparr>
            | TTable initial \<Rightarrow> c\<lparr>mc_max_table_elems := max (mc_max_table_elems c) initial\<rparr>
            | TMemory initial \<Rightarrow> c\<lparr>mc_max_memory_pages := max (mc_max_memory_pages c) initial\<rparr>
            | TGlobal \<Rightarrow> c\<lparr>mc_globals := mc_globals c + 1\<rparr>
            | TTag \<Rightarrow> c))"

definition count_payload ::
    "(string, payload) result \<Rightarrow> module_counts \<Rightarrow> (invalid_module, module_counts) result" where
  "count_payload p c =
     (case p of
        Err e \<Rightarrow> Err (SectionError e)
      | Ok (ImportSection s) \<Rightarrow> fold_res count_import s (c\<lparr>mc_imports := length s\<rparr>)
      | Ok (FunctionSection n) \<Rightarrow> Ok (c\<lparr>mc_funcs := mc_funcs c + n\<rparr>)
      | Ok (TableSection s) \<Rightarrow>
          fold_res (\<lambda>t c. case t of
              Err e \<Rightarrow> Err (SectionError e)
            | Ok initial \<Rightarrow> Ok (c\<lparr>mc_max_table_elems := max (mc_max_table_elems c) initial\<rparr>)) s c
      | Ok (MemorySection s) \<Rightarrow>
          fold_res (\<lambda>m c. case m of
              Err e \<Rightarrow> Err (SectionError e)
            | Ok initial \<Rightarrow> Ok (c\<lparr>mc_max_memory_pages := max (mc_max_memory_pages c) initial\<rparr>)) s c
      | Ok (GlobalSection n) \<Rightarrow> Ok (c\<lparr>mc_globals := mc_globals c + n\<rparr>)
      | Ok (ExportSection n) \<Rightarrow> Ok (c\<lparr>mc_exports := n\<rparr>)
      | Ok OtherPayload \<Rightarrow> Ok c)"

definition count_module_entities ::
    "(string, payload) result list \<Rightarrow> (invalid_module, module_counts) result" where
  "count_module_entities payloads =
     fold_res count_payload payloads
       \<lparr>mc_funcs = 0, mc_globals = 0, mc_imports = 0, mc_exports = 0,
        mc_max_memory_pages = 0, mc_max_table_elems = 0\<rparr>"

definition HOST_IMPORTS :: "string list" where
  "HOST_IMPORTS = [''storage_get'', ''storage_set'', ''storage_delete'', ''output_write'',
     ''context_block_height'', ''input_read'']"

definition known_import :: "import_entry \<Rightarrow> bool" where
  "known_import i \<longleftrightarrow> im_module i = ''env'' \<and> im_name i \<in> set HOST_IMPORTS \<and> im_type i = TFunc"

definition check_import :: "(string, import_entry) result \<Rightarrow> unit \<Rightarrow> (invalid_module, unit) result" where
  "check_import imp u =
     (case imp of
        Err e \<Rightarrow> Err (SectionError e)
      | Ok i \<Rightarrow> if known_import i then Ok () else Err (UnresolvableImport (im_module i) (im_name i)))"

definition check_payload_imports ::
    "(string, payload) result \<Rightarrow> unit \<Rightarrow> (invalid_module, unit) result" where
  "check_payload_imports p u =
     (case p of
        Err e \<Rightarrow> Err (SectionError e)
      | Ok (ImportSection s) \<Rightarrow> fold_res check_import s ()
      | Ok _ \<Rightarrow> Ok ())"

section \<open>The engine\<close>

type_synonym i32 = "32 word"

datatype host_call =
    StorageGet i32 i32 i32
  | StorageSet i32 i32 i32 i32
  | StorageDelete i32 i32
  | OutputWrite i32 i32
  | ContextBlockHeight i32
  | InputRead i32 i32 i32

text \<open>
  What the engine does once it runs guest code: it returns a value with the fuel left, fails
  with a message and the fuel left, or makes a host call with the exported memory (if any) and
  continues on the answer and the memory after it.
\<close>

datatype 'a run =
    Returned 'a u64
  | Failed string u64
  | HostCall host_call "bytes option" "i32 \<Rightarrow> bytes option \<Rightarrow> 'a run"

text \<open>
  \<open>we_instantiate\<close> is \<open>instantiate_and_start\<close>, whose start function may already call the
  host, followed by the lookup of the typed export \<open>dispatch\<close>, with the fuel it starts on.
\<close>

type_synonym dispatch = "i32 \<Rightarrow> i32 \<Rightarrow> i32 run"

record 'm wasm_engine =
  we_parse :: "bytes \<Rightarrow> (string, 'm) result option"
  we_sections :: "bytes \<Rightarrow> (string, payload) result list"
  we_set_fuel :: "u64 \<Rightarrow> (string, unit) result"
  we_instantiate :: "'m \<Rightarrow> u64 \<Rightarrow> (u64 \<Rightarrow> dispatch) option run"

text \<open>\<open>None\<close> of \<open>we_parse\<close> is a translation panic, contained by \<open>catch_unwind\<close>.\<close>

definition parse_module_contained :: "'m wasm_engine \<Rightarrow> bytes \<Rightarrow> (invalid_module, 'm) result" where
  "parse_module_contained eng wasm =
     (case we_parse eng wasm of
        Some (Ok m) \<Rightarrow> Ok m
      | Some (Err e) \<Rightarrow> Err (ParseFailed e)
      | None \<Rightarrow> Err TranslationPanic)"

definition check_counts :: "module_counts \<Rightarrow> (invalid_module, unit) result" where
  "check_counts c =
     (if mc_funcs c > unat MAX_FUNCTIONS then Err (FunctionCount (mc_funcs c))
      else if mc_globals c > unat MAX_GLOBALS then Err (GlobalCount (mc_globals c))
      else if mc_imports c > unat MAX_IMPORTS then Err (ImportCount (mc_imports c))
      else if mc_exports c > unat MAX_EXPORTS then Err (ExportCount (mc_exports c))
      else if mc_max_memory_pages c > ucast MAX_LINEAR_MEMORY_PAGES
      then Err (MemoryPages (mc_max_memory_pages c))
      else if mc_max_table_elems c > ucast MAX_TABLE_ELEMENTS
      then Err (TableElements (mc_max_table_elems c))
      else Ok ())"

definition validate_module :: "'m wasm_engine \<Rightarrow> bytes \<Rightarrow> (invalid_module, unit) result" where
  "validate_module eng wasm =
     (if (of_nat (length wasm) :: u32) > MAX_CODE_BYTES then Err (ModuleTooLarge (length wasm))
      else
        and_then (parse_module_contained eng wasm) (\<lambda>_.
        and_then (count_module_entities (we_sections eng wasm)) (\<lambda>counts.
        and_then (check_counts counts) (\<lambda>_.
        fold_res check_payload_imports (we_sections eng wasm) ()))))"

section \<open>Host functions\<close>

record host_state =
  hs_contract_id :: contract_id
  hs_input :: bytes
  hs_output :: bytes
  hs_block_height :: u32
  hs_overlay :: "(bytes, bytes option) omap"

text \<open>
  An \<open>i32\<close> cast to a 64-bit \<open>usize\<close> is sign-extended. A slice with start after end, or
  end after the length, panics.
\<close>

definition as_usize :: "i32 \<Rightarrow> nat" where
  "as_usize w = unat (scast w :: u64)"

definition USIZE_MAX :: nat where
  [params]: "USIZE_MAX = 18446744073709551615"

definition saturating_add :: "nat \<Rightarrow> nat \<Rightarrow> nat" where
  "saturating_add a b = min USIZE_MAX (a + b)"

definition checked_add :: "nat \<Rightarrow> nat \<Rightarrow> nat option" where
  "checked_add a b = (if a + b \<le> USIZE_MAX then Some (a + b) else None)"

definition wrapping_add :: "nat \<Rightarrow> nat \<Rightarrow> nat" where
  "wrapping_add a b = (a + b) mod (USIZE_MAX + 1)"

definition slice_or_panic :: "nat \<Rightarrow> nat \<Rightarrow> bytes \<Rightarrow> bytes option" where
  "slice_or_panic s e data = (if s \<le> e \<and> e \<le> length data then Some (slice s e data) else None)"

definition write_at :: "nat \<Rightarrow> bytes \<Rightarrow> bytes \<Rightarrow> bytes" where
  "write_at s bs data = take s data @ bs @ drop (s + length bs) data"

type_synonym host_outcome = "(i32 \<times> host_state \<times> bytes option) option"

definition host_storage_get ::
    "(contract_id \<Rightarrow> bytes \<Rightarrow> bytes option) \<Rightarrow> i32 \<Rightarrow> i32 \<Rightarrow> i32 \<Rightarrow> host_state \<Rightarrow> bytes option \<Rightarrow> host_outcome" where
  "host_storage_get base key_ptr key_len val_ptr hs mem =
     (case mem of
        None \<Rightarrow> Some (-1, hs, mem)
      | Some data \<Rightarrow>
          let s = as_usize key_ptr; e = saturating_add s (as_usize key_len) in
          if e > length data then Some (-1, hs, mem)
          else do {
            key \<leftarrow> slice_or_panic s e data;
            let v = (case om_get (hs_overlay hs) key of
                Some v \<Rightarrow> v
              | None \<Rightarrow> base (hs_contract_id hs) key);
            (case v of
              None \<Rightarrow> Some (-1, hs, mem)
            | Some v \<Rightarrow>
                (case checked_add (as_usize val_ptr) (length v) of
                  None \<Rightarrow> Some (-1, hs, mem)
                | Some end' \<Rightarrow>
                    if end' > length data then Some (-1, hs, mem)
                    else Some (of_nat (length v), hs, Some (write_at (as_usize val_ptr) v data))))
          })"

text \<open>\<open>overlay.len() >= MAX && !overlay.contains_key(&key)\<close>.\<close>

definition overlay_full :: "host_state \<Rightarrow> bytes \<Rightarrow> bool" where
  "overlay_full hs key \<longleftrightarrow>
     length (om_entries (hs_overlay hs)) \<ge> unat MAX_STORAGE_WRITES_PER_CALL
     \<and> om_get (hs_overlay hs) key = None"

definition host_storage_set ::
    "i32 \<Rightarrow> i32 \<Rightarrow> i32 \<Rightarrow> i32 \<Rightarrow> host_state \<Rightarrow> bytes option \<Rightarrow> host_outcome" where
  "host_storage_set key_ptr key_len val_ptr val_len hs mem =
     (if key_len > MAX_STORAGE_KEY_BYTES then Some (-1, hs, mem)
      else if val_len > MAX_STORAGE_VALUE_BYTES then Some (-1, hs, mem)
      else
        case mem of
          None \<Rightarrow> Some (-1, hs, mem)
        | Some data \<Rightarrow>
            let ks = as_usize key_ptr; ke = saturating_add ks (as_usize key_len);
                vs = as_usize val_ptr; ve = saturating_add vs (as_usize val_len) in
            if ke > length data \<or> ve > length data then Some (-1, hs, mem)
            else do {
              key \<leftarrow> slice_or_panic ks ke data;
              val \<leftarrow> slice_or_panic vs ve data;
              if overlay_full hs key then Some (-1, hs, mem)
              else Some (0, hs\<lparr>hs_overlay := om_insert key (Some val) (hs_overlay hs)\<rparr>, mem)
            })"

definition host_storage_delete ::
    "i32 \<Rightarrow> i32 \<Rightarrow> host_state \<Rightarrow> bytes option \<Rightarrow> host_outcome" where
  "host_storage_delete key_ptr key_len hs mem =
     (case mem of
        None \<Rightarrow> Some (-1, hs, mem)
      | Some data \<Rightarrow>
          if key_len > MAX_STORAGE_KEY_BYTES then Some (-1, hs, mem)
          else
            let s = as_usize key_ptr; e = saturating_add s (as_usize key_len) in
            if e > length data then Some (-1, hs, mem)
            else do {
              key \<leftarrow> slice_or_panic s e data;
              if overlay_full hs key then Some (-1, hs, mem)
              else Some (0, hs\<lparr>hs_overlay := om_insert key None (hs_overlay hs)\<rparr>, mem)
            })"

definition host_output_write :: "i32 \<Rightarrow> i32 \<Rightarrow> host_state \<Rightarrow> bytes option \<Rightarrow> host_outcome" where
  "host_output_write ptr len hs mem =
     (if len > MAX_RETURN_DATA_BYTES then Some (-1, hs, mem)
      else
        case mem of
          None \<Rightarrow> Some (-1, hs, mem)
        | Some data \<Rightarrow>
            let s = as_usize ptr; e = saturating_add s (as_usize len) in
            if e > length data then Some (-1, hs, mem)
            else do {
              out \<leftarrow> slice_or_panic s e data;
              Some (0, hs\<lparr>hs_output := out\<rparr>, mem)
            })"

definition host_context_block_height :: "i32 \<Rightarrow> host_state \<Rightarrow> bytes option \<Rightarrow> host_outcome" where
  "host_context_block_height out_ptr hs mem =
     (case mem of
        None \<Rightarrow> Some (-1, hs, mem)
      | Some data \<Rightarrow>
          (case checked_add (as_usize out_ptr) 4 of
             None \<Rightarrow> Some (-1, hs, mem)
           | Some e \<Rightarrow>
               if e > length data then Some (-1, hs, mem)
               else Some (0, hs, Some (write_at (as_usize out_ptr)
                      (u32_to_be_bytes (hs_block_height hs)) data))))"

text \<open>\<open>off + len as usize\<close> is not saturating: it wraps around in a release build.\<close>

definition host_input_read :: "i32 \<Rightarrow> i32 \<Rightarrow> i32 \<Rightarrow> host_state \<Rightarrow> bytes option \<Rightarrow> host_outcome" where
  "host_input_read out_ptr offset len hs mem =
     (let input = hs_input hs; off = as_usize offset in
      if off \<ge> length input then Some (0, hs, mem)
      else do {
        part \<leftarrow> slice_or_panic off (min (length input) (wrapping_add off (as_usize len))) input;
        (case mem of
           None \<Rightarrow> Some (-1, hs, mem)
         | Some data \<Rightarrow>
             (case checked_add (as_usize out_ptr) (length part) of
                None \<Rightarrow> Some (-1, hs, mem)
              | Some e \<Rightarrow>
                  if e > length data then Some (-1, hs, mem)
                  else Some (of_nat (length part), hs, Some (write_at (as_usize out_ptr) part data))))
      })"

fun run_host_call ::
    "(contract_id \<Rightarrow> bytes \<Rightarrow> bytes option) \<Rightarrow> host_call \<Rightarrow> host_state \<Rightarrow> bytes option \<Rightarrow> host_outcome" where
  "run_host_call base (StorageGet kp kl vp) = host_storage_get base kp kl vp"
| "run_host_call base (StorageSet kp kl vp vl) = host_storage_set kp kl vp vl"
| "run_host_call base (StorageDelete kp kl) = host_storage_delete kp kl"
| "run_host_call base (OutputWrite p l) = host_output_write p l"
| "run_host_call base (ContextBlockHeight p) = host_context_block_height p"
| "run_host_call base (InputRead p off l) = host_input_read p off l"

section \<open>Execution\<close>

datatype storage_write =
    WSet contract_id bytes bytes
  | WDelete contract_id bytes

datatype trap_reason =
    CallDepthExceeded u32
  | SetFuelFailed string
  | InstantiationError string
  | MissingDispatch
  | DispatchError i32
  | EngineTrap string

datatype call_result =
    Success bytes u64 "storage_write list"
  | Trap trap_reason u64
  | FuelExhausted u64
  | InvalidModule invalid_module
  | ContractNotFound

record call_context =
  cc_contract_id :: contract_id
  cc_caller :: "contract_id option"
  cc_txid :: tx_id
  cc_block_height :: u32
  cc_opcode :: u16
  cc_input :: bytes
  cc_fuel_limit :: u64
  cc_depth :: u32

text \<open>How a run ends: with a value or an error, the fuel left and the host state.\<close>

datatype 'a run_end =
    EndReturned 'a host_state u64
  | EndFailed string u64

primrec interpret_run ::
    "(contract_id \<Rightarrow> bytes \<Rightarrow> bytes option) \<Rightarrow> 'a run \<Rightarrow> host_state \<Rightarrow> 'a run_end option" where
  "interpret_run base (Returned v fuel) = (\<lambda>hs. Some (EndReturned v hs fuel))"
| "interpret_run base (Failed msg fuel) = (\<lambda>hs. Some (EndFailed msg fuel))"
| "interpret_run base (HostCall call mem k) =
     (\<lambda>hs. case run_host_call base call hs mem of
        None \<Rightarrow> None
      | Some (ret, hs', mem') \<Rightarrow> interpret_run base (k ret mem') hs')"

definition saturating_sub :: "u64 \<Rightarrow> u64 \<Rightarrow> u64" where
  "saturating_sub a b = (if b \<le> a then a - b else 0)"

definition overlay_writes :: "contract_id \<Rightarrow> (bytes, bytes option) omap \<Rightarrow> storage_write list" where
  "overlay_writes cid overlay =
     map (\<lambda>(key, val). case val of Some v \<Rightarrow> WSet cid key v | None \<Rightarrow> WDelete cid key)
       (om_entries overlay)"

text \<open>\<open>msg.contains(pat)\<close>.\<close>

fun contains_str :: "string \<Rightarrow> string \<Rightarrow> bool" where
  "contains_str pat [] \<longleftrightarrow> pat = []"
| "contains_str pat (c # cs) \<longleftrightarrow> take (length pat) (c # cs) = pat \<or> contains_str pat cs"

definition finish_call :: "u64 \<Rightarrow> i32 run_end \<Rightarrow> call_result" where
  "finish_call fuel_limit e =
     (case e of
        EndReturned code hs fuel \<Rightarrow>
          if code = 0
          then Success (hs_output hs) (saturating_sub fuel_limit fuel)
                 (overlay_writes (hs_contract_id hs) (hs_overlay hs))
          else Trap (DispatchError code) (saturating_sub fuel_limit fuel)
      | EndFailed msg fuel \<Rightarrow>
          if contains_str ''fuel'' msg \<or> contains_str ''OutOfFuel'' msg
          then FuelExhausted (saturating_sub fuel_limit fuel)
          else Trap (EngineTrap msg) (saturating_sub fuel_limit fuel))"

definition initial_host :: "call_context \<Rightarrow> host_state" where
  "initial_host ctx =
     \<lparr>hs_contract_id = cc_contract_id ctx, hs_input = cc_input ctx, hs_output = [],
      hs_block_height = cc_block_height ctx, hs_overlay = om_empty\<rparr>"

text \<open>What follows the instantiation: the \<open>dispatch\<close> export is called on the fuel left.\<close>

definition dispatch_call ::
    "(contract_id \<Rightarrow> bytes \<Rightarrow> bytes option) \<Rightarrow> call_context \<Rightarrow> (u64 \<Rightarrow> dispatch) option run_end \<Rightarrow> call_result option" where
  "dispatch_call base ctx started =
     (case started of
        EndFailed e fuel \<Rightarrow>
          Some (Trap (InstantiationError e) (saturating_sub (cc_fuel_limit ctx) fuel))
      | EndReturned None hs fuel \<Rightarrow> Some (Trap MissingDispatch 0)
      | EndReturned (Some dispatch) hs fuel \<Rightarrow>
          map_option (finish_call (cc_fuel_limit ctx))
            (interpret_run base
              (dispatch fuel (ucast (cc_opcode ctx)) (of_nat (length (cc_input ctx)))) hs))"

definition execute :: "'m wasm_engine \<Rightarrow> 's store_ops \<Rightarrow> call_context \<Rightarrow> 's \<Rightarrow> call_result option" where
  "execute eng ops ctx st =
     (if cc_depth ctx > MAX_CALL_DEPTH then Some (Trap (CallDepthExceeded (cc_depth ctx)) 0)
      else
        case so_get_contract ops st (cc_contract_id ctx) of
          None \<Rightarrow> Some ContractNotFound
        | Some (_, wasm) \<Rightarrow>
            (case parse_module_contained eng wasm of
               Err reason \<Rightarrow> Some (InvalidModule reason)
             | Ok m \<Rightarrow>
                 (case we_set_fuel eng (cc_fuel_limit ctx) of
                    Err e \<Rightarrow> Some (Trap (SetFuelFailed e) 0)
                  | Ok _ \<Rightarrow> do {
                      started \<leftarrow> interpret_run (so_storage_get ops st)
                        (we_instantiate eng m (cc_fuel_limit ctx)) (initial_host ctx);
                      dispatch_call (so_storage_get ops st) ctx started
                    })))"

section \<open>The messages of the error values\<close>

definition import_list :: string where
  "import_list = concat (intersperse '', '' HOST_IMPORTS)"

fun invalid_module_text :: "invalid_module \<Rightarrow> string" where
  "invalid_module_text (ModuleTooLarge n) = ''module too large: '' @ decimal n @ '' > 262144''"
| "invalid_module_text (ParseFailed e) = ''WASM parse error: '' @ e"
| "invalid_module_text TranslationPanic = ''WASM parse error: engine translation panic (rejected)''"
| "invalid_module_text (SectionError e) = e"
| "invalid_module_text (FunctionCount n) =
     ''function count '' @ decimal n @ '' exceeds MAX_FUNCTIONS 4096''"
| "invalid_module_text (GlobalCount n) = ''global count '' @ decimal n @ '' exceeds MAX_GLOBALS 512''"
| "invalid_module_text (ImportCount n) = ''import count '' @ decimal n @ '' exceeds MAX_IMPORTS 64''"
| "invalid_module_text (ExportCount n) = ''export count '' @ decimal n @ '' exceeds MAX_EXPORTS 64''"
| "invalid_module_text (MemoryPages n) =
     ''memory '' @ decimal (unat n) @ '' pages exceeds MAX_LINEAR_MEMORY_PAGES 256''"
| "invalid_module_text (TableElements n) =
     ''table '' @ decimal (unat n) @ '' elements exceeds MAX_TABLE_ELEMENTS 16384''"
| "invalid_module_text (UnresolvableImport m n) =
     ''unresolvable import '' @ m @ ''::'' @ n @ '' (host ABI provides only env::{'' @ import_list @ ''})''"

fun trap_text :: "trap_reason \<Rightarrow> string" where
  "trap_text (CallDepthExceeded d) = ''call depth '' @ decimal (unat d) @ '' exceeds MAX_CALL_DEPTH 16''"
| "trap_text (SetFuelFailed e) = ''set_fuel failed: '' @ e"
| "trap_text (InstantiationError e) = ''instantiation error: '' @ e"
| "trap_text MissingDispatch = ''missing 'dispatch' export''"
| "trap_text (DispatchError code) = ''dispatch returned error code '' @ signed_decimal (sint code)"
| "trap_text (EngineTrap msg) = msg"

end
