(* ===== verification/Indexer.thy ===== *)
theory Indexer
  imports Protocol Carrier Runtime State_Spec
begin

text \<open>
  Block processing (\<open>zalkanes-indexer/src/lib.rs\<close> and \<open>parse.rs\<close>): from the raw block of the
  chain source to one \<open>BlockCommit\<close> of the store. The hashes, the WASM engine and librustzcash's
  block reader are parameters; a host panic inside \<open>execute\<close> is the value \<open>None\<close>.
\<close>

section \<open>Configuration\<close>

record indexer_config =
  ic_network :: network
  ic_data_dir :: string
  ic_regtest_activation_override :: "u32 option"

definition activation_height :: "indexer_config \<Rightarrow> u32 option" where
  "activation_height config =
     (case ic_network config of
        Mainnet \<Rightarrow> MAINNET_ACTIVATION_HEIGHT
      | Testnet \<Rightarrow> TESTNET_ACTIVATION_HEIGHT
      | Regtest \<Rightarrow>
          (case ic_regtest_activation_override config of
             Some h \<Rightarrow> Some h
           | None \<Rightarrow> REGTEST_ACTIVATION_HEIGHT))"

record 'm node_lib =
  nl_blake :: blake
  nl_sha :: sha
  nl_engine :: "'m wasm_engine"

section \<open>Parsing a block (\<open>parse.rs\<close>)\<close>

record parsed_transaction =
  px_txid :: tx_id
  px_outputs :: "(u16 \<times> bytes) list"
  px_inputs :: "(u32 \<times> bytes) list"

record parsed_block =
  pb_height :: u32
  pb_hash :: block_hash
  pb_transactions :: "parsed_transaction list"

text \<open>
  The library's view of a block: the height the coinbase claims, and of each transaction its
  txid and the scripts of its transparent bundle (inputs, outputs), if it has one.
\<close>

record zcash_block =
  zb_claimed_height :: u32
  zb_vtx :: "(tx_id \<times> (bytes list \<times> bytes list) option) list"

datatype index_error =
    BlockDecode string
  | HeightMismatch u32 u32
  | StoreError state_error

fun block_params :: "network \<Rightarrow> consensus_params" where
  "block_params Mainnet = Main_Params"
| "block_params Testnet = Test_Params"
| "block_params Regtest = Regtest_Params"

definition parse_transaction :: "tx_id \<times> (bytes list \<times> bytes list) option \<Rightarrow> parsed_transaction" where
  "parse_transaction tx =
     (case snd tx of
        None \<Rightarrow> \<lparr>px_txid = fst tx, px_outputs = [], px_inputs = []\<rparr>
      | Some (vin, vout) \<Rightarrow>
          \<lparr>px_txid = fst tx,
           px_outputs = map (\<lambda>(idx, script). (of_nat idx, script)) (enumerate 0 vout),
           px_inputs = map (\<lambda>(idx, script). (of_nat idx, script)) (enumerate 0 vin)\<rparr>)"

definition parse_block ::
    "(bytes \<Rightarrow> consensus_params \<Rightarrow> (string, zcash_block) result) \<Rightarrow> bytes \<Rightarrow> u32 \<Rightarrow> block_hash \<Rightarrow> network
      \<Rightarrow> (index_error, parsed_block) result" where
  "parse_block read_block raw height hash network =
     and_then (map_err BlockDecode (read_block raw (block_params network))) (\<lambda>block.
       if zb_claimed_height block \<noteq> height then Err (HeightMismatch height (zb_claimed_height block))
       else Ok \<lparr>pb_height = height, pb_hash = hash,
                pb_transactions = map parse_transaction (zb_vtx block)\<rparr>)"

section \<open>The state of a block in progress\<close>

record block_limits =
  bl_fuel_used :: u64
  bl_messages :: u32
  bl_carrier_bytes :: u64
  bl_deploy_bytes :: u64

definition no_limits_used :: block_limits where
  "no_limits_used = \<lparr>bl_fuel_used = 0, bl_messages = 0, bl_carrier_bytes = 0, bl_deploy_bytes = 0\<rparr>"

text \<open>
  The \<open>&mut\<close> arguments of the handlers: the pending commit, the records, the block limits and
  the two counters of the transaction at hand.
\<close>

record progress =
  pg_commit :: block_commit
  pg_executions :: "execution list"
  pg_deployed :: "contract_id list"
  pg_limits :: block_limits
  pg_tx_fuel :: u64
  pg_tx_messages :: u32

record block_execution =
  be_height :: u32
  be_block_hash :: block_hash
  be_root_before :: state_root
  be_root_after :: state_root
  be_executions :: "execution list"
  be_deployed :: "contract_id list"

section \<open>Handlers\<close>

definition carrier_chunks :: "parsed_transaction \<Rightarrow> chunk list" where
  "carrier_chunks tx =
     List.map_filter (\<lambda>(idx, script_sig).
         map_option (\<lambda>(index, data). \<lparr>ch_index = index, ch_data = data\<rparr>) (chunk_from_script_sig script_sig))
       (px_inputs tx)"

definition handle_deploy ::
    "'m node_lib \<Rightarrow> 's store_ops \<Rightarrow> 's \<Rightarrow> indexer_config \<Rightarrow> parsed_transaction \<Rightarrow> deploy_message \<Rightarrow> progress \<Rightarrow> progress" where
  "handle_deploy lib ops st config tx deploy p =
     (case reconstruct (nl_sha lib) (carrier_chunks tx) (dm_chunk_count deploy)
             (dm_code_length deploy) (dm_code_hash deploy) of
        Err e \<Rightarrow> p
      | Ok wasm \<Rightarrow>
          (let contract_id = derive_contract_id (nl_blake lib) (ic_network config) (px_txid tx)
                 (dm_output_index deploy) (dm_code_hash deploy) in
           if so_has_contract ops st contract_id then p
           else if \<not> is_ok (validate_module (nl_engine lib) wasm) then p
           else p\<lparr>pg_commit := (pg_commit p)
                    \<lparr>bc_deploys := bc_deploys (pg_commit p) @ [(contract_id, dm_code_hash deploy, wasm)]\<rparr>,
                  pg_deployed := pg_deployed p @ [contract_id]\<rparr>))"

fun apply_write :: "storage_write \<Rightarrow> block_commit \<Rightarrow> block_commit" where
  "apply_write (WSet cid key val) c = c\<lparr>bc_upserts := bc_upserts c @ [(cid, key, val)]\<rparr>"
| "apply_write (WDelete cid key) c = c\<lparr>bc_deletes := bc_deletes c @ [(cid, key)]\<rparr>"

text \<open>The tuple \<open>(success, fuel_used, output, error, writes)\<close>.\<close>

fun call_outcome :: "call_result \<Rightarrow> bool \<times> u64 \<times> bytes \<times> string option \<times> storage_write list" where
  "call_outcome (Success output fuel_used writes) = (True, fuel_used, output, None, writes)"
| "call_outcome (Trap reason fuel_used) = (False, fuel_used, [], Some (trap_text reason), [])"
| "call_outcome (FuelExhausted fuel_used) = (False, fuel_used, [], Some ''fuel exhausted'', [])"
| "call_outcome (InvalidModule reason) = (False, 0, [], Some (invalid_module_text reason), [])"
| "call_outcome ContractNotFound = (False, 0, [], Some ''contract not found'', [])"

definition call_fuel_limit :: "progress \<Rightarrow> u64" where
  "call_fuel_limit p =
     min (min MAX_FUEL_PER_CALL (saturating_sub MAX_FUEL_PER_ZCASH_TX (pg_tx_fuel p)))
         (saturating_sub MAX_FUEL_PER_ZCASH_BLOCK (bl_fuel_used (pg_limits p)))"

definition record_call ::
    "'m node_lib \<Rightarrow> 's store_ops \<Rightarrow> 's \<Rightarrow> parsed_transaction \<Rightarrow> contract_id \<Rightarrow> u16 \<Rightarrow> call_result \<Rightarrow> progress \<Rightarrow> progress" where
  "record_call lib ops st tx contract_id opcode result p =
     (let (success, fuel_used, output, error, writes) = call_outcome result;
          commit = fold apply_write writes (pg_commit p) in
      p\<lparr>pg_tx_fuel := saturating_add64 (pg_tx_fuel p) fuel_used,
        pg_limits := (pg_limits p)\<lparr>bl_fuel_used := saturating_add64 (bl_fuel_used (pg_limits p)) fuel_used\<rparr>,
        pg_commit := commit,
        pg_executions := pg_executions p @
          [\<lparr>ex_txid = px_txid tx, ex_contract_id = contract_id, ex_opcode = opcode,
            ex_success = success, ex_fuel_used = fuel_used, ex_return_data = output,
            ex_error = error, ex_root_before = so_compute_root ops st,
            ex_root_after = projected_root (nl_blake lib) ops st commit,
            ex_block_height = bc_height commit, ex_block_hash = bc_hash commit\<rparr>]\<rparr>)"

definition execute_call ::
    "'m node_lib \<Rightarrow> 's store_ops \<Rightarrow> 's \<Rightarrow> parsed_transaction \<Rightarrow> contract_id \<Rightarrow> u16 \<Rightarrow> bytes \<Rightarrow> progress \<Rightarrow> progress option" where
  "execute_call lib ops st tx contract_id opcode input p =
     (if call_fuel_limit p = 0 then Some p
      else
        map_option (\<lambda>result. record_call lib ops st tx contract_id opcode result p)
          (execute (nl_engine lib) ops
             \<lparr>cc_contract_id = contract_id, cc_caller = None, cc_txid = px_txid tx,
              cc_block_height = bc_height (pg_commit p), cc_opcode = opcode, cc_input = input,
              cc_fuel_limit = call_fuel_limit p, cc_depth = 0\<rparr> st))"

definition handle_call ::
    "'m node_lib \<Rightarrow> 's store_ops \<Rightarrow> 's \<Rightarrow> parsed_transaction \<Rightarrow> call_message \<Rightarrow> progress \<Rightarrow> progress option" where
  "handle_call lib ops st tx call p =
     execute_call lib ops st tx (cm_contract_id call) (cm_opcode call) (cm_input call) p"

definition handle_call_carrier ::
    "'m node_lib \<Rightarrow> 's store_ops \<Rightarrow> 's \<Rightarrow> parsed_transaction \<Rightarrow> call_carrier_message \<Rightarrow> progress \<Rightarrow> progress option" where
  "handle_call_carrier lib ops st tx call p =
     (case reconstruct (nl_sha lib) (carrier_chunks tx) (ccm_carrier_count call)
             (ccm_input_length call) (ccm_input_hash call) of
        Ok calldata \<Rightarrow> execute_call lib ops st tx (ccm_contract_id call) (ccm_opcode call) calldata p
      | Err e \<Rightarrow> Some p)"

section \<open>One transaction\<close>

definition count_message :: "progress \<Rightarrow> progress" where
  "count_message p =
     p\<lparr>pg_tx_messages := pg_tx_messages p + 1,
       pg_limits := (pg_limits p)\<lparr>bl_messages := bl_messages (pg_limits p) + 1\<rparr>\<rparr>"

definition over_message_cap :: "progress \<Rightarrow> bool" where
  "over_message_cap p \<longleftrightarrow>
     pg_tx_messages p > MAX_ZALK_MESSAGES_PER_TX
     \<or> bl_messages (pg_limits p) > MAX_ZALK_MESSAGES_PER_BLOCK"

definition add_deploy_bytes :: "u32 \<Rightarrow> progress \<Rightarrow> progress" where
  "add_deploy_bytes len p =
     p\<lparr>pg_limits := (pg_limits p)
         \<lparr>bl_carrier_bytes := saturating_add64 (bl_carrier_bytes (pg_limits p)) (ucast len),
          bl_deploy_bytes := saturating_add64 (bl_deploy_bytes (pg_limits p)) (ucast len)\<rparr>\<rparr>"

definition add_carrier_bytes :: "u32 \<Rightarrow> progress \<Rightarrow> progress" where
  "add_carrier_bytes len p =
     p\<lparr>pg_limits := (pg_limits p)
         \<lparr>bl_carrier_bytes := saturating_add64 (bl_carrier_bytes (pg_limits p)) (ucast len)\<rparr>\<rparr>"

fun handle_message ::
    "'m node_lib \<Rightarrow> 's store_ops \<Rightarrow> 's \<Rightarrow> indexer_config \<Rightarrow> parsed_transaction \<Rightarrow> u16 \<Rightarrow> message \<Rightarrow> progress \<Rightarrow> progress option" where
  "handle_message lib ops st config tx out_idx (Deploy deploy) p =
     (if dm_output_index deploy \<noteq> out_idx then Some p
      else
        let p = add_deploy_bytes (dm_code_length deploy) p in
        if bl_carrier_bytes (pg_limits p) > MAX_CARRIER_BYTES_PER_BLOCK
           \<or> bl_deploy_bytes (pg_limits p) > MAX_DEPLOY_BYTES_PER_BLOCK
        then Some p
        else Some (handle_deploy lib ops st config tx deploy p))"
| "handle_message lib ops st config tx out_idx (Call call) p = handle_call lib ops st tx call p"
| "handle_message lib ops st config tx out_idx (CallCarrier call) p =
     (let p = add_carrier_bytes (ccm_input_length call) p in
      if bl_carrier_bytes (pg_limits p) > MAX_CARRIER_BYTES_PER_BLOCK then Some p
      else handle_call_carrier lib ops st tx call p)"

text \<open>What the loop body sees in an output: \<open>None\<close> is \<open>continue\<close>.\<close>

definition output_message :: "bytes \<Rightarrow> message option" where
  "output_message script =
     (case extract_op_return_data script of
        None \<Rightarrow> None
      | Some payload \<Rightarrow>
          (case parse_op_return payload of Ok (Some m) \<Rightarrow> Some m | Ok None \<Rightarrow> None | Err e \<Rightarrow> None))"

fun process_outputs ::
    "'m node_lib \<Rightarrow> 's store_ops \<Rightarrow> 's \<Rightarrow> indexer_config \<Rightarrow> parsed_transaction \<Rightarrow> (u16 \<times> bytes) list \<Rightarrow> progress \<Rightarrow> progress option" where
  "process_outputs lib ops st config tx [] p = Some p"
| "process_outputs lib ops st config tx ((out_idx, script) # outputs) p =
     (case output_message script of
        None \<Rightarrow> process_outputs lib ops st config tx outputs p
      | Some m \<Rightarrow>
          (if over_message_cap (count_message p) then Some (count_message p)
           else
             Option.bind (handle_message lib ops st config tx out_idx m (count_message p))
               (process_outputs lib ops st config tx outputs)))"

definition process_transaction ::
    "'m node_lib \<Rightarrow> 's store_ops \<Rightarrow> 's \<Rightarrow> indexer_config \<Rightarrow> parsed_transaction \<Rightarrow> progress \<Rightarrow> progress option" where
  "process_transaction lib ops st config tx p =
     process_outputs lib ops st config tx (px_outputs tx) (p\<lparr>pg_tx_fuel := 0, pg_tx_messages := 0\<rparr>)"

fun process_transactions ::
    "'m node_lib \<Rightarrow> 's store_ops \<Rightarrow> 's \<Rightarrow> indexer_config \<Rightarrow> parsed_transaction list \<Rightarrow> progress \<Rightarrow> progress option" where
  "process_transactions lib ops st config [] p = Some p"
| "process_transactions lib ops st config (tx # txs) p =
     Option.bind (process_transaction lib ops st config tx p) (process_transactions lib ops st config txs)"

section \<open>One block\<close>

definition empty_commit :: "u32 \<Rightarrow> block_hash \<Rightarrow> block_commit" where
  "empty_commit height hash =
     \<lparr>bc_height = height, bc_hash = hash, bc_deploys = [], bc_upserts = [], bc_deletes = []\<rparr>"

definition start_block :: "u32 \<Rightarrow> block_hash \<Rightarrow> progress" where
  "start_block height hash =
     \<lparr>pg_commit = empty_commit height hash, pg_executions = [], pg_deployed = [],
      pg_limits = no_limits_used, pg_tx_fuel = 0, pg_tx_messages = 0\<rparr>"

definition no_interpretation :: "u32 \<Rightarrow> block_hash \<Rightarrow> state_root \<Rightarrow> block_execution" where
  "no_interpretation height hash root =
     \<lparr>be_height = height, be_block_hash = hash, be_root_before = root, be_root_after = root,
      be_executions = [], be_deployed = []\<rparr>"

definition commit_empty_block ::
    "'s store_ops \<Rightarrow> u32 \<Rightarrow> block_hash \<Rightarrow> 's \<Rightarrow> 's \<times> (index_error, block_execution) result" where
  "commit_empty_block ops height hash st =
     (case so_commit_block ops st (empty_commit height hash) of
        (st', Err e) \<Rightarrow> (st', Err (StoreError e))
      | (st', Ok root) \<Rightarrow> (st', Ok (no_interpretation height hash root)))"

text \<open>The end of a block: the atomic commit, then the execution records.\<close>

definition commit_progress ::
    "'s store_ops \<Rightarrow> parsed_block \<Rightarrow> state_root \<Rightarrow> progress \<Rightarrow> 's \<Rightarrow> 's \<times> (index_error, block_execution) result" where
  "commit_progress ops parsed root_before p st =
     (case so_commit_block ops st (pg_commit p) of
        (st1, Err e) \<Rightarrow> (st1, Err (StoreError e))
      | (st1, Ok root) \<Rightarrow>
          (case so_save_executions ops st1 (pg_executions p) of
             (st2, Err e) \<Rightarrow> (st2, Err (StoreError e))
           | (st2, Ok _) \<Rightarrow>
               (st2, Ok \<lparr>be_height = pb_height parsed, be_block_hash = pb_hash parsed,
                         be_root_before = root_before, be_root_after = root,
                         be_executions = pg_executions p, be_deployed = pg_deployed p\<rparr>)))"

definition process_parsed_block ::
    "'m node_lib \<Rightarrow> 's store_ops \<Rightarrow> indexer_config \<Rightarrow> parsed_block \<Rightarrow> 's \<Rightarrow> ('s \<times> (index_error, block_execution) result) option" where
  "process_parsed_block lib ops config parsed st =
     (case activation_height config of
        None \<Rightarrow> Some (st, Ok (no_interpretation (pb_height parsed) (pb_hash parsed) (so_compute_root ops st)))
      | Some activation \<Rightarrow>
          if pb_height parsed < activation
          then Some (commit_empty_block ops (pb_height parsed) (pb_hash parsed) st)
          else
            map_option (\<lambda>p. commit_progress ops parsed (so_compute_root ops st) p st)
              (process_transactions lib ops st config (pb_transactions parsed)
                (start_block (pb_height parsed) (pb_hash parsed))))"

definition process_zcash_block ::
    "'m node_lib \<Rightarrow> (bytes \<Rightarrow> consensus_params \<Rightarrow> (string, zcash_block) result) \<Rightarrow> 's store_ops \<Rightarrow> indexer_config
      \<Rightarrow> u32 \<Rightarrow> block_hash \<Rightarrow> bytes \<Rightarrow> 's \<Rightarrow> ('s \<times> (index_error, block_execution) result) option" where
  "process_zcash_block lib read_block ops config height block_hash raw st =
     (let interpret = (case parse_block read_block raw height block_hash (ic_network config) of
            Err e \<Rightarrow> Some (st, Err e)
          | Ok parsed \<Rightarrow> process_parsed_block lib ops config parsed st) in
      case activation_height config of
        Some activation \<Rightarrow>
          if height < activation then Some (commit_empty_block ops height block_hash st) else interpret
      | None \<Rightarrow> interpret)"

end
