(* ===== verification/Runtime_Props.thy ===== *)
theory Runtime_Props
  imports Runtime
begin

text \<open>
  The properties of the contract runtime: which host calls can panic, the bounds that hold of
  every write a call returns, reads seeing the call's own writes, fuel accounting, and what
  module validation guarantees.
\<close>

section \<open>Pointer arithmetic\<close>

lemma as_usize_sint: "as_usize w = nat (sint w mod 2 ^ 64)"
proof -
  have "uint (scast w :: u64) = take_bit 64 (sint (scast w :: u64))"
    using uint_sint [of "scast w :: u64"] by simp
  also have "sint (scast w :: u64) = sint w"
    by (rule sint_up_scast) (simp add: is_up)
  finally show ?thesis
    by (simp add: as_usize_def take_bit_eq_mod unat_eq_nat_uint)
qed

lemma as_usize_le [simp]: "as_usize w \<le> USIZE_MAX"
proof -
  have "as_usize w < 18446744073709551616" unfolding as_usize_def by (rule unat_u64_less)
  then show ?thesis by (simp add: params)
qed

lemma sint_small:
  assumes "unat w < 2147483648"
  shows "sint (w :: i32) = int (unat w)"
proof -
  have "int (unat w) < int 2147483648" using assms by (simp only: of_nat_less_iff)
  then have "uint w < 2 ^ 31" by simp
  moreover have "- (2 ^ 31) \<le> uint w"
    by (rule order_trans [of _ 0]) simp_all
  ultimately have "signed_take_bit 31 (uint w) = uint w"
    by (intro signed_take_bit_int_eq_self)
  then show ?thesis by (simp add: sint_uint)
qed

lemma as_usize_small:
  assumes "unat w < 2147483648"
  shows "as_usize w = unat w"
proof -
  have "int (unat w) mod 2 ^ 64 = int (unat w)"
  proof (rule mod_pos_pos_trivial)
    have "int (unat w) < int 2147483648" using assms by (simp only: of_nat_less_iff)
    then show "int (unat w) < 2 ^ 64" by simp
  qed (rule of_nat_0_le_iff)
  then show ?thesis by (simp only: as_usize_sint sint_small [OF assms] nat_int)
qed

lemma as_usize_nonneg: "0 \<le> sint w \<Longrightarrow> as_usize w = nat (sint w)"
  using sint_lt [of w] by (simp add: as_usize_sint)

lemma as_usize_neg: "sint w < 0 \<Longrightarrow> as_usize w = nat (2 ^ 64 + sint w)"
proof -
  assume "sint w < 0"
  then have "sint w mod 2 ^ 64 = (2 ^ 64 + sint w)"
    using sint_ge [of w] by (subst mod_add_self1 [symmetric], subst mod_pos_pos_trivial) simp_all
  then show ?thesis by (simp add: as_usize_sint)
qed

lemma saturating_slice:
  "e = saturating_add (as_usize p) l \<Longrightarrow> e \<le> length data \<Longrightarrow>
     slice_or_panic (as_usize p) e data = Some (slice (as_usize p) e data)"
  by (simp add: slice_or_panic_def saturating_add_def min_def)

lemma length_saturating_slice:
  "saturating_add s (as_usize l) \<le> length data \<Longrightarrow> length (slice s (saturating_add s (as_usize l)) data) \<le> as_usize l"
  by (simp add: saturating_add_def)

section \<open>Which host calls can panic\<close>


lemma input_read_panics_iff:
  assumes "length (hs_input hs) < 2 ^ 32"
  shows "host_input_read p off l hs mem = None
    \<longleftrightarrow> sint l < 0 \<and> - sint l \<le> sint off \<and> sint off < int (length (hs_input hs))"
proof (cases "0 \<le> sint off \<and> sint off < int (length (hs_input hs))")
  case False
  have "length (hs_input hs) \<le> as_usize off"
  proof (cases "0 \<le> sint off")
    case True
    with False show ?thesis by (simp add: as_usize_nonneg)
  next
    case False
    then show ?thesis
      using sint_ge [of off] assms by (simp add: as_usize_neg)
  qed
  with False show ?thesis by (auto simp: host_input_read_def)
next
  case True
  then have off: "as_usize off = nat (sint off)" "as_usize off < length (hs_input hs)"
    by (auto simp: as_usize_nonneg nat_less_iff)
  have iff: "host_input_read p off l hs mem = None
    \<longleftrightarrow> wrapping_add (as_usize off) (as_usize l) < as_usize off"
    using off(2) by (auto simp: host_input_read_def Let_def slice_or_panic_def split: option.splits)
  have "wrapping_add (as_usize off) (as_usize l) < as_usize off \<longleftrightarrow> sint l < 0 \<and> - sint l \<le> sint off"
  proof (cases "0 \<le> sint l")
    case True
    then have "as_usize off + as_usize l < 2 ^ 64"
      using off sint_lt [of off] sint_lt [of l] by (simp add: as_usize_nonneg)
    then show ?thesis using True by (simp add: wrapping_add_def params)
  next
    case False
    then have l: "as_usize l = nat (2 ^ 64 + sint l)" by (simp add: as_usize_neg)
    show ?thesis
    proof (cases "- sint l \<le> sint off")
      case True
      then have "as_usize off + as_usize l = nat (sint off + sint l) + 2 ^ 64"
        using off l sint_ge [of l] False by simp
      then have "wrapping_add (as_usize off) (as_usize l) = nat (sint off + sint l)"
        using sint_lt [of off] False by (simp add: wrapping_add_def params)
      then show ?thesis using True False off(1) by simp
    next
      case False
      then have "as_usize off + as_usize l = nat (2 ^ 64 + (sint off + sint l))"
        using off l sint_ge [of l] \<open>\<not> 0 \<le> sint l\<close> True
        by (simp add: nat_add_distrib [symmetric] algebra_simps)
      moreover have "nat (2 ^ 64 + (sint off + sint l)) < 2 ^ 64" using False by simp
      ultimately have "wrapping_add (as_usize off) (as_usize l) = as_usize off + as_usize l"
        by (simp add: wrapping_add_def params)
      then show ?thesis using False by simp
    qed
  qed
  with iff True show ?thesis by simp
qed

section \<open>Bounds of a call\<close>

definition bounded_host :: "host_state \<Rightarrow> bool" where
  "bounded_host hs \<longleftrightarrow>
     length (om_entries (hs_overlay hs)) \<le> unat MAX_STORAGE_WRITES_PER_CALL
     \<and> (\<forall>key v. om_get (hs_overlay hs) key = Some v \<longrightarrow> length key \<le> unat MAX_STORAGE_KEY_BYTES
          \<and> (\<forall>val. v = Some val \<longrightarrow> length val \<le> unat MAX_STORAGE_VALUE_BYTES))
     \<and> length (hs_output hs) \<le> unat MAX_RETURN_DATA_BYTES"

lemma bounded_initial: "bounded_host (initial_host ctx)"
  by (simp add: bounded_host_def initial_host_def)

lemma bounded_insert:
  assumes "bounded_host hs" "\<not> overlay_full hs key" "length key \<le> unat MAX_STORAGE_KEY_BYTES"
    and "\<forall>val. v = Some val \<longrightarrow> length val \<le> unat MAX_STORAGE_VALUE_BYTES"
  shows "bounded_host (hs\<lparr>hs_overlay := om_insert key v (hs_overlay hs)\<rparr>)"
  using assms by (auto simp: bounded_host_def overlay_full_def length_om_insert not_le Suc_le_eq)

text \<open>A slice taken for a length argument that passed its unsigned check is at most that long.\<close>

lemma checked_slice:
  assumes "l \<le> m" "unat m < 2147483648" "saturating_add s (as_usize l) \<le> length data"
  shows "length (slice s (saturating_add s (as_usize l)) data) \<le> unat m"
proof -
  have "unat l \<le> unat m" using assms(1) by (simp add: word_le_nat_alt)
  moreover from this have "as_usize l = unat l" using assms(2) by (intro as_usize_small) simp
  ultimately show ?thesis using length_saturating_slice [OF assms(3)] by simp
qed

lemma storage_set_result:
  assumes "host_storage_set kp kl vp vl hs mem = Some (ret, hs', mem')"
  obtains "ret = -1" "hs' = hs" "mem' = mem"
  | data key val where "mem = Some data" "ret = 0" "mem' = mem" "\<not> overlay_full hs key"
      "key = slice (as_usize kp) (saturating_add (as_usize kp) (as_usize kl)) data"
      "val = slice (as_usize vp) (saturating_add (as_usize vp) (as_usize vl)) data"
      "length key \<le> unat MAX_STORAGE_KEY_BYTES" "length val \<le> unat MAX_STORAGE_VALUE_BYTES"
      "hs' = hs\<lparr>hs_overlay := om_insert key (Some val) (hs_overlay hs)\<rparr>"
proof (cases "ret = -1 \<and> hs' = hs \<and> mem' = mem")
  case True
  then show thesis using that(1) by simp
next
  case False
  from False assms obtain data where d: "mem = Some data"
    and kl: "kl \<le> MAX_STORAGE_KEY_BYTES" "saturating_add (as_usize kp) (as_usize kl) \<le> length data"
    and vl: "vl \<le> MAX_STORAGE_VALUE_BYTES" "saturating_add (as_usize vp) (as_usize vl) \<le> length data"
    by (auto simp: host_storage_set_def Let_def not_less split: if_splits option.splits)
  have "length (slice (as_usize kp) (saturating_add (as_usize kp) (as_usize kl)) data) \<le> unat MAX_STORAGE_KEY_BYTES"
    "length (slice (as_usize vp) (saturating_add (as_usize vp) (as_usize vl)) data) \<le> unat MAX_STORAGE_VALUE_BYTES"
    by (rule checked_slice [OF kl(1) _ kl(2)], simp add: params, rule checked_slice [OF vl(1) _ vl(2)], simp add: params)
  with False assms d kl vl show thesis
    by (intro that(2)) (auto simp: host_storage_set_def Let_def not_less saturating_slice
        simp del: length_slice split: if_splits)
qed

lemma storage_delete_result:
  assumes "host_storage_delete kp kl hs mem = Some (ret, hs', mem')"
  obtains "ret = -1" "hs' = hs" "mem' = mem"
  | data key where "mem = Some data" "ret = 0" "mem' = mem" "\<not> overlay_full hs key"
      "key = slice (as_usize kp) (saturating_add (as_usize kp) (as_usize kl)) data"
      "length key \<le> unat MAX_STORAGE_KEY_BYTES"
      "hs' = hs\<lparr>hs_overlay := om_insert key None (hs_overlay hs)\<rparr>"
proof (cases "ret = -1 \<and> hs' = hs \<and> mem' = mem")
  case True
  then show thesis using that(1) by simp
next
  case False
  from False assms obtain data where d: "mem = Some data"
    and kl: "kl \<le> MAX_STORAGE_KEY_BYTES" "saturating_add (as_usize kp) (as_usize kl) \<le> length data"
    by (auto simp: host_storage_delete_def Let_def not_less split: if_splits option.splits)
  have "length (slice (as_usize kp) (saturating_add (as_usize kp) (as_usize kl)) data) \<le> unat MAX_STORAGE_KEY_BYTES"
    by (rule checked_slice [OF kl(1) _ kl(2)]) (simp add: params)
  with False assms d kl show thesis
    by (intro that(2)) (auto simp: host_storage_delete_def Let_def not_less saturating_slice
        simp del: length_slice split: if_splits)
qed

definition same_call :: "host_state \<Rightarrow> host_state \<Rightarrow> bool" where
  "same_call hs hs' \<longleftrightarrow> hs_contract_id hs' = hs_contract_id hs \<and> hs_input hs' = hs_input hs
     \<and> hs_block_height hs' = hs_block_height hs"

lemma run_host_call_bounded:
  assumes "run_host_call base c hs mem = Some (ret, hs', mem')" "bounded_host hs"
  shows "bounded_host hs' \<and> same_call hs hs'"
proof (cases c)
  case (StorageSet kp kl vp vl)
  with assms show ?thesis
    by (auto simp: same_call_def elim!: storage_set_result intro: bounded_insert)
next
  case (StorageDelete kp kl)
  with assms show ?thesis
    by (auto simp: same_call_def elim!: storage_delete_result intro: bounded_insert)
next
  case (OutputWrite p l)
  have len: "length (slice (as_usize p) (saturating_add (as_usize p) (as_usize l)) data) \<le> unat MAX_RETURN_DATA_BYTES"
    if "l \<le> MAX_RETURN_DATA_BYTES" "saturating_add (as_usize p) (as_usize l) \<le> length data" for data
    using checked_slice [OF that(1) _ that(2)] by (simp add: params)
  with assms OutputWrite show ?thesis
    by (auto simp: host_output_write_def Let_def not_less same_call_def saturating_slice bounded_host_def
        simp del: length_slice split: if_splits option.splits)
next
  case (StorageGet kp kl vp)
  with assms show ?thesis
    by (auto simp: host_storage_get_def Let_def same_call_def bind_eq_Some_conv
        split: if_splits option.splits)
next
  case (ContextBlockHeight p)
  with assms show ?thesis
    by (auto simp: host_context_block_height_def same_call_def split: if_splits option.splits)
next
  case (InputRead p off l)
  with assms show ?thesis
    by (auto simp: host_input_read_def Let_def same_call_def bind_eq_Some_conv
        split: if_splits option.splits)
qed

lemma interpret_run_bounded:
  assumes "interpret_run base r hs = Some (EndReturned code hs' fuel)" "bounded_host hs"
  shows "bounded_host hs' \<and> same_call hs hs'"
  using assms
proof (induction r arbitrary: hs)
  case (HostCall c mem k)
  then obtain ret hs1 mem1 where s: "run_host_call base c hs mem = Some (ret, hs1, mem1)"
    "interpret_run base (k ret mem1) hs1 = Some (EndReturned code hs' fuel)"
    by (auto split: option.splits)
  have b: "bounded_host hs1 \<and> same_call hs hs1"
    using run_host_call_bounded [OF s(1) HostCall.prems(2)] .
  have "bounded_host hs' \<and> same_call hs1 hs'"
    using b by (intro HostCall.IH [OF _ _ s(2)]) auto
  with b show ?case by (auto simp: same_call_def)
qed (auto simp: same_call_def)

section \<open>Fuel\<close>

fun result_fuel :: "call_result \<Rightarrow> u64" where
  "result_fuel (Success out fuel ws) = fuel"
| "result_fuel (Trap reason fuel) = fuel"
| "result_fuel (FuelExhausted fuel) = fuel"
| "result_fuel (InvalidModule reason) = 0"
| "result_fuel ContractNotFound = 0"

lemma saturating_sub_le [simp]: "saturating_sub a b \<le> a"
  by (simp add: saturating_sub_def word_le_nat_alt unat_sub)

lemma finish_call_fuel: "result_fuel (finish_call limit e) \<le> limit"
  by (cases e) (auto simp: finish_call_def)

lemma dispatch_call_fuel:
  "dispatch_call base ctx started = Some r \<Longrightarrow> result_fuel r \<le> cc_fuel_limit ctx"
  by (cases started) (auto simp: dispatch_call_def finish_call_fuel split: option.splits)

lemma execute_fuel_le: "execute eng ops ctx st = Some r \<Longrightarrow> result_fuel r \<le> cc_fuel_limit ctx"
  by (auto simp: execute_def bind_eq_Some_conv dest: dispatch_call_fuel
      split: if_splits option.splits sum.splits prod.splits)

lemma dispatch_call_SuccessE:
  assumes "dispatch_call base ctx started = Some (Success out fuel ws)"
  obtains r hs fuel0 e where "started = EndReturned (Some r) hs fuel0"
    "interpret_run base (r fuel0 (ucast (cc_opcode ctx)) (of_nat (length (cc_input ctx)))) hs = Some e"
    "finish_call (cc_fuel_limit ctx) e = Success out fuel ws"
  using assms by (cases started) (auto simp: dispatch_call_def split: option.splits)

lemma execute_SuccessD:
  assumes "execute eng ops ctx st = Some (Success out fuel ws)"
  obtains hs where "bounded_host hs" "hs_contract_id hs = cc_contract_id ctx" "out = hs_output hs"
    "ws = overlay_writes (cc_contract_id ctx) (hs_overlay hs)"
    "so_get_contract ops st (cc_contract_id ctx) \<noteq> None"
proof -
  from assms obtain r0 started where
      r0: "interpret_run (so_storage_get ops st) r0 (initial_host ctx) = Some started"
    and d: "dispatch_call (so_storage_get ops st) ctx started = Some (Success out fuel ws)"
    and found: "so_get_contract ops st (cc_contract_id ctx) \<noteq> None"
    by (auto simp: execute_def bind_eq_Some_conv split: if_splits option.splits sum.splits prod.splits)
  from d obtain r hs0 fuel0 e where started: "started = EndReturned (Some r) hs0 fuel0"
    and e: "interpret_run (so_storage_get ops st)
          (r fuel0 (ucast (cc_opcode ctx)) (of_nat (length (cc_input ctx)))) hs0 = Some e"
      "finish_call (cc_fuel_limit ctx) e = Success out fuel ws"
    by (rule dispatch_call_SuccessE)
  then obtain hs left where hs: "e = EndReturned 0 hs left" "out = hs_output hs"
      "ws = overlay_writes (hs_contract_id hs) (hs_overlay hs)"
    by (auto simp: finish_call_def split: run_end.splits if_splits)
  have first: "bounded_host hs0 \<and> same_call (initial_host ctx) hs0"
    using interpret_run_bounded [OF r0 [unfolded started] bounded_initial] .
  have "bounded_host hs \<and> same_call hs0 hs"
    using interpret_run_bounded [OF e(1) [unfolded hs(1)]] first by blast
  then show thesis
    using first hs found by (intro that [of hs]) (auto simp: same_call_def initial_host_def)
qed

fun write_key :: "storage_write \<Rightarrow> bytes" where
  "write_key (WSet cid key val) = key"
| "write_key (WDelete cid key) = key"

lemma overlay_writes_keys: "map write_key (overlay_writes cid overlay) = om_keys overlay"
  by (auto simp: overlay_writes_def split: option.splits prod.splits)

section \<open>What a call sees\<close>

text \<open>The storage of the running contract: the overlay first, then the base store.\<close>

definition host_view :: "(contract_id \<Rightarrow> bytes \<Rightarrow> bytes option) \<Rightarrow> host_state \<Rightarrow> bytes \<Rightarrow> bytes option" where
  "host_view base hs key =
     (case om_get (hs_overlay hs) key of Some v \<Rightarrow> v | None \<Rightarrow> base (hs_contract_id hs) key)"

lemma host_view_insert [simp]:
  "host_view base (hs\<lparr>hs_overlay := om_insert key v (hs_overlay hs)\<rparr>) = (host_view base hs)(key := v)"
  by (rule ext) (simp add: host_view_def split: option.split)

definition arg_slice :: "i32 \<Rightarrow> i32 \<Rightarrow> bytes \<Rightarrow> bytes" where
  "arg_slice ptr len data = slice (as_usize ptr) (saturating_add (as_usize ptr) (as_usize len)) data"

section \<open>Properties\<close>



text \<open>A successful call is within its bounds: it returns at most \<open>MAX_RETURN_DATA_BYTES\<close>
  of output and at most \<open>MAX_STORAGE_WRITES_PER_CALL\<close> writes, to distinct keys of the called
  contract, with bounded keys and values, and it consumed no more than its fuel limit.\<close>

theorem execute_bounds:
  assumes "execute eng ops ctx st = Some (Success out fuel ws)"
  shows "fuel \<le> cc_fuel_limit ctx \<and> length out \<le> unat MAX_RETURN_DATA_BYTES
    \<and> length ws \<le> unat MAX_STORAGE_WRITES_PER_CALL \<and> distinct (map write_key ws)
    \<and> (\<forall>w \<in> set ws. case w of
          WSet cid key val \<Rightarrow> cid = cc_contract_id ctx \<and> length key \<le> unat MAX_STORAGE_KEY_BYTES
            \<and> length val \<le> unat MAX_STORAGE_VALUE_BYTES
        | WDelete cid key \<Rightarrow> cid = cc_contract_id ctx \<and> length key \<le> unat MAX_STORAGE_KEY_BYTES)"
proof -
  obtain hs where hs: "bounded_host hs" "hs_contract_id hs = cc_contract_id ctx" "out = hs_output hs"
    "ws = overlay_writes (cc_contract_id ctx) (hs_overlay hs)"
    using assms by (rule execute_SuccessD)
  have "distinct (map write_key ws)"
    by (simp add: hs(4) overlay_writes_keys om_keys_distinct)
  moreover have "case w of
          WSet cid key val \<Rightarrow> cid = cc_contract_id ctx \<and> length key \<le> unat MAX_STORAGE_KEY_BYTES
            \<and> length val \<le> unat MAX_STORAGE_VALUE_BYTES
        | WDelete cid key \<Rightarrow> cid = cc_contract_id ctx \<and> length key \<le> unat MAX_STORAGE_KEY_BYTES"
    if "w \<in> set ws" for w
    using that hs(1) unfolding hs(4)
    by (auto simp: overlay_writes_def bounded_host_def om_entries_get split: option.splits)
  ultimately show ?thesis
    using hs execute_fuel_le [OF assms] by (simp add: bounded_host_def overlay_writes_def)
qed

text \<open>An engine whose contract stores \<open>[7]\<close> under \<open>[1]\<close>, for concrete examples.\<close>

definition demo_engine :: "i32 run \<Rightarrow> unit wasm_engine" where
  "demo_engine r =
     \<lparr>we_parse = (\<lambda>_. Some (Ok ())), we_sections = (\<lambda>_. []), we_set_fuel = (\<lambda>_. Ok ()),
      we_instantiate = (\<lambda>_ fuel. Returned (Some (\<lambda>_ _ _. r)) fuel)\<rparr>"

definition demo_context :: call_context where
  "demo_context =
     \<lparr>cc_contract_id = fill32 1, cc_caller = None, cc_txid = fill32 2, cc_block_height = 9,
      cc_opcode = 0, cc_input = [1, 2], cc_fuel_limit = 100, cc_depth = 0\<rparr>"

definition demo_store :: "unit store_ops" where
  "demo_store =
     \<lparr>so_has_contract = (\<lambda>_ _. True), so_get_contract = (\<lambda>_ _. Some (fill32 3, [])),
      so_storage_get = (\<lambda>_ _ _. None), so_compute_root = (\<lambda>_. fill32 0), so_contracts = (\<lambda>_. []),
      so_storage = (\<lambda>_. []), so_indexed_height = (\<lambda>_. None), so_indexed_block_hash = (\<lambda>_. None),
      so_persisted_state_root = (\<lambda>_. None), so_height_history = (\<lambda>_. []),
      so_commit_block = (\<lambda>_ _. ((), Ok (fill32 0))), so_rollback_to = (\<lambda>_ _. ((), Ok ())),
      so_save_executions = (\<lambda>_ _. ((), Ok ())), so_execution = (\<lambda>_ _. None),
      so_executions_at_height = (\<lambda>_ _. [])\<rparr>"

definition demo_write_run :: "i32 run" where
  "demo_write_run = HostCall (OutputWrite 0 1) (Some [7]) (\<lambda>_ _. Returned 0 40)"

lemma as_usize_0 [simp]: "as_usize 0 = 0"
  by (simp add: as_usize_def)

lemma as_usize_1 [simp]: "as_usize 1 = 1"
  by (subst as_usize_small) simp_all

lemma demo_execute: "execute (demo_engine demo_write_run) demo_store demo_context () = Some (Success [7] 60 [])"
  by (simp add: execute_def dispatch_call_def demo_engine_def demo_store_def demo_context_def demo_write_run_def params
      parse_module_contained_def initial_host_def host_output_write_def Let_def saturating_add_def
      slice_or_panic_def slice_def finish_call_def saturating_sub_def overlay_writes_def)

text \<open>Whatever the outcome, a call never reports more fuel than its limit, so the budgets
  that the indexer subtracts from are never exceeded by one call.\<close>

theorem execute_fuel_bounded:
  assumes "execute eng ops ctx st = Some r"
  shows "result_fuel r \<le> cc_fuel_limit ctx"
  using assms by (rule execute_fuel_le)

text \<open>Storage as the contract sees it: a \<open>storage_set\<close> or \<open>storage_delete\<close> that returns
  0 changes exactly the addressed key, one that returns -1 changes nothing, and a
  \<open>storage_get\<close> that returns a length wrote the current value of the key, the call's own
  earlier writes included, into the memory at the given address.\<close>

theorem storage_host_semantics:
  shows "(host_storage_set kp kl vp vl hs (Some data) = Some (ret, hs', mem') \<longrightarrow>
      mem' = Some data \<and> (ret = 0 \<or> ret = -1)
      \<and> host_view base hs' = (if ret = 0 then (host_view base hs)
          (arg_slice kp kl data := Some (arg_slice vp vl data)) else host_view base hs))
    \<and> (host_storage_delete kp kl hs (Some data) = Some (ret, hs', mem') \<longrightarrow>
      mem' = Some data \<and> (ret = 0 \<or> ret = -1)
      \<and> host_view base hs' = (if ret = 0 then (host_view base hs)(arg_slice kp kl data := None)
          else host_view base hs))
    \<and> (host_storage_get base kp kl vp hs (Some data) = Some (ret, hs', mem') \<longrightarrow>
      hs' = hs \<and> (ret = -1 \<and> mem' = Some data
        \<or> (\<exists>v. host_view base hs (arg_slice kp kl data) = Some v \<and> ret = of_nat (length v)
            \<and> as_usize vp + length v \<le> length data \<and> mem' = Some (write_at (as_usize vp) v data))))"
proof (intro conjI impI)
  assume "host_storage_set kp kl vp vl hs (Some data) = Some (ret, hs', mem')"
  then show "mem' = Some data" "ret = 0 \<or> ret = -1"
    "host_view base hs' = (if ret = 0 then (host_view base hs)
          (arg_slice kp kl data := Some (arg_slice vp vl data)) else host_view base hs)"
    by (auto elim!: storage_set_result simp: arg_slice_def)
next
  assume "host_storage_delete kp kl hs (Some data) = Some (ret, hs', mem')"
  then show "mem' = Some data" "ret = 0 \<or> ret = -1"
    "host_view base hs' = (if ret = 0 then (host_view base hs)(arg_slice kp kl data := None)
          else host_view base hs)"
    by (auto elim!: storage_delete_result simp: arg_slice_def)
next
  assume g: "host_storage_get base kp kl vp hs (Some data) = Some (ret, hs', mem')"
  then show "hs' = hs"
    by (auto simp: host_storage_get_def Let_def bind_eq_Some_conv split: if_splits option.splits)
  from g show "ret = -1 \<and> mem' = Some data
        \<or> (\<exists>v. host_view base hs (arg_slice kp kl data) = Some v \<and> ret = of_nat (length v)
            \<and> as_usize vp + length v \<le> length data \<and> mem' = Some (write_at (as_usize vp) v data))"
    by (auto simp: host_storage_get_def Let_def bind_eq_Some_conv host_view_def arg_slice_def
        checked_add_def slice_or_panic_def split: if_splits option.splits)
qed

definition demo_host :: host_state where
  "demo_host = initial_host demo_context"

definition demo_host_set :: host_state where
  "demo_host_set = demo_host\<lparr>hs_overlay := om_insert [5] (Some [6]) om_empty\<rparr>"

lemma demo_set: "host_storage_set 0 1 1 1 demo_host (Some [5, 6]) = Some (0, demo_host_set, Some [5, 6])"
  by (simp add: host_storage_set_def params Let_def saturating_add_def slice_or_panic_def slice_def
      overlay_full_def demo_host_set_def demo_host_def initial_host_def)

section \<open>Validation\<close>

lemma fold_res_unit_Ok_iff:
  "fold_res f xs () = Ok () \<longleftrightarrow> (\<forall>x \<in> set xs. f x () = Ok ())"
  by (induction xs) auto

lemma check_counts_Ok_iff:
  "check_counts c = Ok () \<longleftrightarrow>
     mc_funcs c \<le> unat MAX_FUNCTIONS \<and> mc_globals c \<le> unat MAX_GLOBALS
     \<and> mc_imports c \<le> unat MAX_IMPORTS \<and> mc_exports c \<le> unat MAX_EXPORTS
     \<and> mc_max_memory_pages c \<le> ucast MAX_LINEAR_MEMORY_PAGES
     \<and> mc_max_table_elems c \<le> ucast MAX_TABLE_ELEMENTS"
  by (auto simp: check_counts_def)

text \<open>A module is valid exactly when it parses under the consensus engine, its total entity
  counts are within the limits, and every import is one of the six host functions of module
  \<open>env\<close>, imported as a function (its signature is not looked at).\<close>

theorem validate_module_exact:
  "validate_module eng wasm = Ok () \<longleftrightarrow>
     (of_nat (length wasm) :: u32) \<le> MAX_CODE_BYTES
     \<and> (\<exists>m. we_parse eng wasm = Some (Ok m))
     \<and> (\<exists>c. count_module_entities (we_sections eng wasm) = Ok c
          \<and> mc_funcs c \<le> unat MAX_FUNCTIONS \<and> mc_globals c \<le> unat MAX_GLOBALS
          \<and> mc_imports c \<le> unat MAX_IMPORTS \<and> mc_exports c \<le> unat MAX_EXPORTS
          \<and> mc_max_memory_pages c \<le> ucast MAX_LINEAR_MEMORY_PAGES
          \<and> mc_max_table_elems c \<le> ucast MAX_TABLE_ELEMENTS)
     \<and> list_all (\<lambda>p. case p of
          Err e \<Rightarrow> False
        | Ok (ImportSection s) \<Rightarrow> list_all (\<lambda>i. case i of Err e \<Rightarrow> False | Ok imp \<Rightarrow> known_import imp) s
        | Ok _ \<Rightarrow> True) (we_sections eng wasm)"
proof -
  have imp: "check_import i () = Ok () \<longleftrightarrow> (case i of Err e \<Rightarrow> False | Ok imp \<Rightarrow> known_import imp)" for i
    by (simp add: check_import_def split: sum.split)
  have pay: "check_payload_imports p () = Ok () \<longleftrightarrow> (case p of
          Err e \<Rightarrow> False
        | Ok (ImportSection s) \<Rightarrow> list_all (\<lambda>i. case i of Err e \<Rightarrow> False | Ok imp \<Rightarrow> known_import imp) s
        | Ok _ \<Rightarrow> True)" for p
    by (simp add: check_payload_imports_def fold_res_unit_Ok_iff imp list_all_iff split: sum.split payload.split)
  have par: "(\<exists>m. parse_module_contained eng wasm = Ok m) \<longleftrightarrow> (\<exists>m. we_parse eng wasm = Some (Ok m))"
    by (auto simp: parse_module_contained_def split: option.splits sum.splits)
  have "validate_module eng wasm = Ok () \<longleftrightarrow>
     (of_nat (length wasm) :: u32) \<le> MAX_CODE_BYTES
     \<and> (\<exists>m. parse_module_contained eng wasm = Ok m)
     \<and> (\<exists>c. count_module_entities (we_sections eng wasm) = Ok c \<and> check_counts c = Ok ())
     \<and> fold_res check_payload_imports (we_sections eng wasm) () = Ok ()"
    by (auto simp: validate_module_def not_less)
  then show ?thesis
    unfolding par check_counts_Ok_iff fold_res_unit_Ok_iff pay list_all_iff by blast
qed

section \<open>A contract can panic the host\<close>

lemma execute_can_panic:
  "execute (demo_engine (HostCall (InputRead 0 1 (-1)) (Some [0]) (\<lambda>_ _. Returned 0 0))) demo_store
     demo_context () = None"
proof -
  have "host_input_read 0 1 (-1) (initial_host demo_context) (Some [0]) = None"
    by (subst input_read_panics_iff) (simp_all add: initial_host_def demo_context_def)
  then show ?thesis
    by (simp add: execute_def dispatch_call_def demo_engine_def demo_store_def parse_module_contained_def params
        demo_context_def)
qed

end
