(* ===== verification/Indexer_Steps.thy ===== *)
theory Indexer_Steps
  imports Indexer Runtime_Props
begin

text \<open>
  What one message can do to a block in progress, and induction over the messages of a
  transaction and the transactions of a block: the rules that the properties of the indexer
  are proved with.
\<close>

section \<open>One message\<close>

text \<open>\<open>q0\<close> differs from \<open>q\<close> at most in the byte counters, which never decrease.\<close>

definition same_work :: "progress \<Rightarrow> progress \<Rightarrow> bool" where
  "same_work q q0 \<longleftrightarrow>
     pg_commit q0 = pg_commit q \<and> pg_executions q0 = pg_executions q \<and> pg_deployed q0 = pg_deployed q
     \<and> pg_tx_fuel q0 = pg_tx_fuel q \<and> pg_tx_messages q0 = pg_tx_messages q
     \<and> bl_fuel_used (pg_limits q0) = bl_fuel_used (pg_limits q)
     \<and> bl_messages (pg_limits q0) = bl_messages (pg_limits q)
     \<and> unat (bl_deploy_bytes (pg_limits q)) \<le> unat (bl_deploy_bytes (pg_limits q0))"

lemma same_work_simps [simp]:
  "same_work q q" "same_work q (add_carrier_bytes n q)" "same_work q (add_deploy_bytes n q)"
proof -
  have "unat a \<le> unat (saturating_add64 a b)" for a b
  proof -
    have "unat a < 18446744073709551616" using unsigned_less [of a] by simp
    then have "unat a \<le> 18446744073709551615" by linarith
    then show ?thesis by (simp only: unat_saturating_add64) simp
  qed
  then show "same_work q q" "same_work q (add_carrier_bytes n q)" "same_work q (add_deploy_bytes n q)"
    by (auto simp: same_work_def add_carrier_bytes_def add_deploy_bytes_def)
qed

definition call_ctx :: "parsed_transaction \<Rightarrow> contract_id \<Rightarrow> u16 \<Rightarrow> bytes \<Rightarrow> progress \<Rightarrow> call_context" where
  "call_ctx tx cid opcode input q =
     \<lparr>cc_contract_id = cid, cc_caller = None, cc_txid = px_txid tx,
      cc_block_height = bc_height (pg_commit q), cc_opcode = opcode, cc_input = input,
      cc_fuel_limit = call_fuel_limit q, cc_depth = 0\<rparr>"

definition add_deploy :: "contract_id \<times> code_hash \<times> bytes \<Rightarrow> progress \<Rightarrow> progress" where
  "add_deploy d p =
     p\<lparr>pg_commit := (pg_commit p)\<lparr>bc_deploys := bc_deploys (pg_commit p) @ [d]\<rparr>,
       pg_deployed := pg_deployed p @ [fst d]\<rparr>"

text \<open>A deploy the indexer may accept: what \<open>handle_deploy\<close> has checked.\<close>

definition genuine_deploy ::
    "'m node_lib \<Rightarrow> 's store_ops \<Rightarrow> 's \<Rightarrow> indexer_config \<Rightarrow> parsed_transaction \<Rightarrow> deploy_message \<Rightarrow> contract_id \<times> code_hash \<times> bytes \<Rightarrow> bool" where
  "genuine_deploy lib ops st config tx d = (\<lambda>(cid, ch, wasm).
     ch = dm_code_hash d
     \<and> reconstruct (nl_sha lib) (carrier_chunks tx) (dm_chunk_count d) (dm_code_length d) ch = Ok wasm
     \<and> cid = derive_contract_id (nl_blake lib) (ic_network config) (px_txid tx) (dm_output_index d) ch
     \<and> \<not> so_has_contract ops st cid \<and> validate_module (nl_engine lib) wasm = Ok ())"

lemma handle_deploy_cases:
  "handle_deploy lib ops st config tx d p = p
   \<or> (\<exists>dep. genuine_deploy lib ops st config tx d dep \<and> handle_deploy lib ops st config tx d p = add_deploy dep p)"
proof (cases "reconstruct (nl_sha lib) (carrier_chunks tx) (dm_chunk_count d) (dm_code_length d) (dm_code_hash d)")
  case (Inr wasm)
  let ?cid = "derive_contract_id (nl_blake lib) (ic_network config) (px_txid tx) (dm_output_index d) (dm_code_hash d)"
  show ?thesis
  proof (cases "so_has_contract ops st ?cid \<or> \<not> is_ok (validate_module (nl_engine lib) wasm)")
    case False
    then have "genuine_deploy lib ops st config tx d (?cid, dm_code_hash d, wasm)"
      using Inr by (cases "validate_module (nl_engine lib) wasm") (simp_all add: genuine_deploy_def)
    moreover have "handle_deploy lib ops st config tx d p = add_deploy (?cid, dm_code_hash d, wasm) p"
      using False Inr by (simp add: handle_deploy_def add_deploy_def Let_def)
    ultimately show ?thesis by blast
  qed (auto simp: handle_deploy_def Inr Let_def)
qed (simp add: handle_deploy_def)

lemma execute_call_cases:
  assumes "execute_call lib ops st tx cid opcode input p = Some p'"
  shows "p' = p \<or> (\<exists>r. call_fuel_limit p \<noteq> 0
    \<and> execute (nl_engine lib) ops (call_ctx tx cid opcode input p) st = Some r
    \<and> p' = record_call lib ops st tx cid opcode r p)"
  using assms by (auto simp: execute_call_def call_ctx_def split: if_splits)

lemma handle_messageE:
  assumes "handle_message lib ops st config tx idx m q = Some q'"
  obtains
    (skip) "same_work q q'"
  | (deploy) d dep q0 where "m = Deploy d" "dm_output_index d = idx"
      "q0 = add_deploy_bytes (dm_code_length d) q"
      "bl_deploy_bytes (pg_limits q0) \<le> MAX_DEPLOY_BYTES_PER_BLOCK"
      "genuine_deploy lib ops st config tx d dep" "q' = add_deploy dep q0"
  | (call) q0 cid opcode input r where "same_work q q0" "call_fuel_limit q0 \<noteq> 0"
      "execute (nl_engine lib) ops (call_ctx tx cid opcode input q0) st = Some r"
      "q' = record_call lib ops st tx cid opcode r q0"
proof (cases m)
  case (Deploy d)
  let ?q0 = "add_deploy_bytes (dm_code_length d) q"
  have "q' = q \<or> q' = ?q0 \<or> (dm_output_index d = idx
      \<and> bl_deploy_bytes (pg_limits ?q0) \<le> MAX_DEPLOY_BYTES_PER_BLOCK \<and> q' = handle_deploy lib ops st config tx d ?q0)"
    using assms by (auto simp: Deploy Let_def split: if_splits)
  then show thesis
    using handle_deploy_cases [of lib ops st config tx d ?q0] deploy [OF Deploy _ refl] skip by fastforce
next
  case (Call c)
  then show thesis
    using assms skip call [of q] by (auto simp: handle_call_def dest!: execute_call_cases)
next
  case (CallCarrier c)
  let ?q0 = "add_carrier_bytes (ccm_input_length c) q"
  have "q' = ?q0 \<or> handle_call_carrier lib ops st tx c ?q0 = Some q'"
    using assms by (auto simp: CallCarrier Let_def split: if_splits)
  then show thesis
  proof
    assume "handle_call_carrier lib ops st tx c ?q0 = Some q'"
    then have "q' = ?q0 \<or> (\<exists>input. execute_call lib ops st tx (ccm_contract_id c) (ccm_opcode c) input ?q0 = Some q')"
      by (auto simp: handle_call_carrier_def split: sum.splits)
    then show thesis
      using skip call [of ?q0] by (auto dest!: execute_call_cases)
  qed (use skip in simp)
qed

section \<open>The messages of a transaction, the transactions of a block\<close>

text \<open>
  The rule for a transaction: \<open>I\<close> holds between messages, \<open>J\<close> at the end, which may come
  right after a message was counted and the cap exceeded.
\<close>

lemma process_outputs_inv:
  assumes "process_outputs lib ops st config tx outs p = Some p'" "I p"
    and "\<And>idx script m q q'. (idx, script) \<in> set outs \<Longrightarrow> output_message script = Some m \<Longrightarrow> I q \<Longrightarrow>
      \<not> over_message_cap (count_message q) \<Longrightarrow>
      handle_message lib ops st config tx idx m (count_message q) = Some q' \<Longrightarrow> I q'"
    and "\<And>q. I q \<Longrightarrow> J q" "\<And>q. I q \<Longrightarrow> J (count_message q)"
  shows "J p'"
  using assms(1-3)
proof (induction lib ops st config tx outs p rule: process_outputs.induct)
  case (2 lib ops st config tx idx script outs p)
  show ?case
  proof (cases "output_message script")
    case None
    show ?thesis
    proof (rule "2.IH"(1) [OF None])
      show "process_outputs lib ops st config tx outs p = Some p'" using 2(3) None by simp
      show "I p" by (rule 2(4))
    next
      show "I q'" if "(idx', script') \<in> set outs" "output_message script' = Some m" "I q"
          "\<not> over_message_cap (count_message q)"
          "handle_message lib ops st config tx idx' m (count_message q) = Some q'"
        for idx' script' m q q'
        by (rule 2(5) [OF _ that(2-)]) (use that in simp)
    qed
  next
    case (Some m)
    show ?thesis
    proof (cases "over_message_cap (count_message p)")
      case True
      then show ?thesis using 2(3) assms(5) [OF 2(4)] Some by simp
    next
      case False
      then obtain q where q: "handle_message lib ops st config tx idx m (count_message p) = Some q"
        "process_outputs lib ops st config tx outs q = Some p'"
        using 2(3) Some by (auto simp: bind_eq_Some_conv)
      have "I q" using 2(5) [OF _ Some 2(4) False q(1)] by simp
      then show ?thesis
      proof (rule "2.IH"(2) [OF Some False q])
        show "I q'" if "(idx', script') \<in> set outs" "output_message script' = Some m" "I q"
            "\<not> over_message_cap (count_message q)"
            "handle_message lib ops st config tx idx' m (count_message q) = Some q'"
          for idx' script' m q q'
          by (rule 2(5) [OF _ that(2-)]) (use that in simp)
      qed
    qed
  qed
qed (use assms(4) in simp)

lemma process_transactions_inv:
  assumes "process_transactions lib ops st config txs p = Some p'" "I 0 p"
    and "\<And>k tx q q'. k < length txs \<Longrightarrow> tx \<in> set txs \<Longrightarrow> I k q \<Longrightarrow>
      process_transaction lib ops st config tx q = Some q' \<Longrightarrow> I (Suc k) q'"
  shows "I (length txs) p'"
proof -
  have "I (n + length txs) p'"
    if "process_transactions lib ops st config txs p = Some p'" "I n p"
      and "\<And>k tx q q'. k < n + length txs \<Longrightarrow> tx \<in> set txs \<Longrightarrow> I k q \<Longrightarrow>
        process_transaction lib ops st config tx q = Some q' \<Longrightarrow> I (Suc k) q'" for n
    using that
  proof (induction txs arbitrary: p n)
    case (Cons tx txs)
    then obtain q where q: "process_transaction lib ops st config tx p = Some q"
      "process_transactions lib ops st config txs q = Some p'"
      by (auto simp: bind_eq_Some_conv)
    have "I (Suc n) q" using Cons.prems(3) [OF _ _ Cons.prems(2) q(1)] by simp
    then have "I (Suc n + length txs) p'"
      using Cons.prems(3) by (intro Cons.IH [OF q(2)]) auto
    then show ?case by simp
  qed simp
  from this [of 0] show ?thesis using assms by simp
qed

end
