(* ===== verification/Indexer_Bounds.thy ===== *)
theory Indexer_Bounds
  imports Indexer_Steps
begin

text \<open>The resource accounting of the indexer: fuel, messages, deploy bytes and writes.\<close>

section \<open>Totals\<close>

definition fuel_total :: "execution list \<Rightarrow> nat" where
  "fuel_total es = sum_list (map (unat \<circ> ex_fuel_used) es)"

definition deploy_bytes_total :: "(contract_id \<times> code_hash \<times> bytes) list \<Rightarrow> nat" where
  "deploy_bytes_total ds = sum_list (map (\<lambda>(cid, ch, wasm). length wasm) ds)"

lemma fuel_total_simps [simp]: "fuel_total [] = 0" "fuel_total (es @ es') = fuel_total es + fuel_total es'"
  "fuel_total [e] = unat (ex_fuel_used e)"
  by (simp_all add: fuel_total_def)

lemma deploy_bytes_total_simps [simp]: "deploy_bytes_total [] = 0"
  "deploy_bytes_total (ds @ [(cid, ch, wasm)]) = deploy_bytes_total ds + length wasm"
  by (simp_all add: deploy_bytes_total_def)

section \<open>What a recorded call adds\<close>

lemma call_outcome_fuel: "fst (snd (call_outcome r)) = result_fuel r"
  by (cases r) simp_all

lemma fold_apply_write:
  "fold apply_write ws c =
     c\<lparr>bc_upserts := bc_upserts c @ List.map_filter (\<lambda>w. case w of WSet cid k v \<Rightarrow> Some (cid, k, v) | WDelete _ _ \<Rightarrow> None) ws,
       bc_deletes := bc_deletes c @ List.map_filter (\<lambda>w. case w of WSet cid k v \<Rightarrow> None | WDelete cid k \<Rightarrow> Some (cid, k)) ws\<rparr>"
proof (induction ws arbitrary: c)
  case (Cons w ws)
  then show ?case by (cases w) (simp_all add: map_filter_simps)
qed (simp add: map_filter_simps)

text \<open>The writes a call result hands to the block.\<close>

definition result_writes :: "call_result \<Rightarrow> storage_write list" where
  "result_writes r = snd (snd (snd (snd (call_outcome r))))"

lemma result_writes_simps [simp]:
  "result_writes (Success out fuel ws) = ws" "\<not> fst (call_outcome r) \<Longrightarrow> result_writes r = []"
  by (simp add: result_writes_def) (cases r; simp add: result_writes_def)

lemma record_call_fields [simp]:
  "pg_commit (record_call lib ops st tx cid op r p) = fold apply_write (result_writes r) (pg_commit p)"
  "pg_deployed (record_call lib ops st tx cid op r p) = pg_deployed p"
  "pg_tx_fuel (record_call lib ops st tx cid op r p) = saturating_add64 (pg_tx_fuel p) (result_fuel r)"
  "pg_tx_messages (record_call lib ops st tx cid op r p) = pg_tx_messages p"
  "bl_fuel_used (pg_limits (record_call lib ops st tx cid op r p))
     = saturating_add64 (bl_fuel_used (pg_limits p)) (result_fuel r)"
  "bl_messages (pg_limits (record_call lib ops st tx cid op r p)) = bl_messages (pg_limits p)"
  "bl_deploy_bytes (pg_limits (record_call lib ops st tx cid op r p)) = bl_deploy_bytes (pg_limits p)"
  "\<exists>e. pg_executions (record_call lib ops st tx cid op r p) = pg_executions p @ [e]
     \<and> ex_fuel_used e = result_fuel r \<and> ex_contract_id e = cid \<and> ex_txid e = px_txid tx
     \<and> ex_success e = fst (call_outcome r)"
  by (cases r; simp add: record_call_def result_writes_def Let_def)+

lemma call_fuel_limit_le:
  "unat (call_fuel_limit p) \<le> unat MAX_FUEL_PER_CALL"
  "unat (pg_tx_fuel p) \<le> unat MAX_FUEL_PER_ZCASH_TX \<Longrightarrow>
     unat (pg_tx_fuel p) + unat (call_fuel_limit p) \<le> unat MAX_FUEL_PER_ZCASH_TX"
  "unat (bl_fuel_used (pg_limits p)) \<le> unat MAX_FUEL_PER_ZCASH_BLOCK \<Longrightarrow>
     unat (bl_fuel_used (pg_limits p)) + unat (call_fuel_limit p) \<le> unat MAX_FUEL_PER_ZCASH_BLOCK"
proof -
  have m: "unat (min a b) = min (unat a) (unat b)" for a b :: u64
    by (simp add: min_def word_le_nat_alt)
  have s: "unat (saturating_sub a b) = unat a - unat b" for a b
    by (simp add: saturating_sub_def word_le_nat_alt unat_sub)
  show "unat (call_fuel_limit p) \<le> unat MAX_FUEL_PER_CALL"
    by (simp add: call_fuel_limit_def m)
  show "unat (pg_tx_fuel p) \<le> unat MAX_FUEL_PER_ZCASH_TX \<Longrightarrow>
     unat (pg_tx_fuel p) + unat (call_fuel_limit p) \<le> unat MAX_FUEL_PER_ZCASH_TX"
    by (simp add: call_fuel_limit_def m s)
  show "unat (bl_fuel_used (pg_limits p)) \<le> unat MAX_FUEL_PER_ZCASH_BLOCK \<Longrightarrow>
     unat (bl_fuel_used (pg_limits p)) + unat (call_fuel_limit p) \<le> unat MAX_FUEL_PER_ZCASH_BLOCK"
    by (simp add: call_fuel_limit_def m s)
qed

section \<open>The invariant of a block\<close>

text \<open>
  The counters are exact: the block's fuel is the sum over its executions, within the block's
  cap; the accepted deploys stay within theirs.
\<close>

definition block_inv :: "progress \<Rightarrow> bool" where
  "block_inv p \<longleftrightarrow>
     unat (bl_fuel_used (pg_limits p)) = fuel_total (pg_executions p)
     \<and> fuel_total (pg_executions p) \<le> unat MAX_FUEL_PER_ZCASH_BLOCK
     \<and> (\<forall>e \<in> set (pg_executions p). unat (ex_fuel_used e) \<le> unat MAX_FUEL_PER_CALL)
     \<and> deploy_bytes_total (bc_deploys (pg_commit p)) \<le> unat (bl_deploy_bytes (pg_limits p))
     \<and> deploy_bytes_total (bc_deploys (pg_commit p)) \<le> unat MAX_DEPLOY_BYTES_PER_BLOCK"

lemma block_inv_start: "block_inv (start_block h hash)"
  by (simp add: block_inv_def start_block_def no_limits_used_def empty_commit_def)

lemma block_inv_frame:
  "block_inv p \<Longrightarrow> same_work p q \<Longrightarrow> block_inv q"
  "block_inv (count_message p) = block_inv p"
  "block_inv (p\<lparr>pg_tx_fuel := f, pg_tx_messages := n\<rparr>) = block_inv p"
  by (auto simp: block_inv_def same_work_def count_message_def)

lemma record_call_fuel:
  assumes "execute eng ops ctx st = Some r" "cc_fuel_limit ctx = call_fuel_limit p"
    and "unat (bl_fuel_used (pg_limits p)) \<le> unat MAX_FUEL_PER_ZCASH_BLOCK"
  shows "unat (saturating_add64 (bl_fuel_used (pg_limits p)) (result_fuel r))
      = unat (bl_fuel_used (pg_limits p)) + unat (result_fuel r)"
    and "unat (bl_fuel_used (pg_limits p)) + unat (result_fuel r) \<le> unat MAX_FUEL_PER_ZCASH_BLOCK"
    and "unat (result_fuel r) \<le> unat MAX_FUEL_PER_CALL"
    and "unat (pg_tx_fuel p) \<le> unat MAX_FUEL_PER_ZCASH_TX \<Longrightarrow>
      unat (saturating_add64 (pg_tx_fuel p) (result_fuel r)) = unat (pg_tx_fuel p) + unat (result_fuel r)
      \<and> unat (pg_tx_fuel p) + unat (result_fuel r) \<le> unat MAX_FUEL_PER_ZCASH_TX"
proof -
  have r: "unat (result_fuel r) \<le> unat (call_fuel_limit p)"
    using execute_fuel_le [OF assms(1)] by (simp add: assms(2) word_le_nat_alt)
  then show "unat (result_fuel r) \<le> unat MAX_FUEL_PER_CALL"
    using call_fuel_limit_le(1) by (rule le_trans)
  show b: "unat (bl_fuel_used (pg_limits p)) + unat (result_fuel r) \<le> unat MAX_FUEL_PER_ZCASH_BLOCK"
    using r call_fuel_limit_le(3) [OF assms(3)] by simp
  have small: "unat MAX_FUEL_PER_ZCASH_BLOCK < 2 ^ 64 - 1" "unat MAX_FUEL_PER_ZCASH_TX < 2 ^ 64 - 1"
    by (simp_all add: params)
  then show "unat (saturating_add64 (bl_fuel_used (pg_limits p)) (result_fuel r))
      = unat (bl_fuel_used (pg_limits p)) + unat (result_fuel r)"
    using b by (simp add: unat_saturating_add64)
  show "unat (saturating_add64 (pg_tx_fuel p) (result_fuel r)) = unat (pg_tx_fuel p) + unat (result_fuel r)
      \<and> unat (pg_tx_fuel p) + unat (result_fuel r) \<le> unat MAX_FUEL_PER_ZCASH_TX"
    if "unat (pg_tx_fuel p) \<le> unat MAX_FUEL_PER_ZCASH_TX"
    using small r call_fuel_limit_le(2) [OF that] by (simp add: unat_saturating_add64)
qed


lemma genuine_deploy_length:
  "genuine_deploy lib ops st config tx d (cid, ch, wasm) \<Longrightarrow>
     length wasm = unat (dm_code_length d) \<and> unat (dm_code_length d) \<le> unat MAX_CODE_BYTES
     \<and> nl_sha lib wasm = ch"
  by (auto simp: genuine_deploy_def reconstruct_Ok_iff word_le_nat_alt)

lemma block_inv_record_call:
  assumes "block_inv p" "execute eng ops ctx st = Some r" "cc_fuel_limit ctx = call_fuel_limit p"
  shows "block_inv (record_call lib ops st tx cid op r p)"
proof -
  obtain e where e: "pg_executions (record_call lib ops st tx cid op r p) = pg_executions p @ [e]"
    "ex_fuel_used e = result_fuel r"
    using record_call_fields(8) [of lib ops st tx cid op r p] by blast
  have inv: "unat (bl_fuel_used (pg_limits p)) = fuel_total (pg_executions p)"
    "unat (bl_fuel_used (pg_limits p)) \<le> unat MAX_FUEL_PER_ZCASH_BLOCK"
    using assms(1) by (simp_all add: block_inv_def)
  note fuel = record_call_fuel [OF assms(2,3) inv(2)]
  show ?thesis
    using assms(1) fuel(1-3) inv by (simp add: block_inv_def e fold_apply_write)
qed

lemma block_inv_add_deploy:
  assumes "block_inv p" "genuine_deploy lib ops st config tx d dep"
    and "bl_deploy_bytes (pg_limits (add_deploy_bytes (dm_code_length d) p)) \<le> MAX_DEPLOY_BYTES_PER_BLOCK"
  shows "block_inv (add_deploy dep (add_deploy_bytes (dm_code_length d) p))"
proof -
  obtain cid ch wasm where dep: "dep = (cid, ch, wasm)" by (cases dep)
  have len: "length wasm = unat (dm_code_length d)" "unat (dm_code_length d) < 2 ^ 32"
    using assms(2) unsigned_less [of "dm_code_length d", where 'a = nat] by (auto simp: dep dest: genuine_deploy_length)
  let ?old = "unat (bl_deploy_bytes (pg_limits p))"
  let ?new = "unat (saturating_add64 (bl_deploy_bytes (pg_limits p)) (ucast (dm_code_length d)))"
  have u: "unat (ucast (dm_code_length d) :: u64) = unat (dm_code_length d)"
    by simp
  have cap: "?new \<le> unat MAX_DEPLOY_BYTES_PER_BLOCK"
    using assms(3) by (simp add: add_deploy_bytes_def word_le_nat_alt)
  then have "?new = ?old + unat (dm_code_length d)"
    by (simp add: unat_saturating_add64 u params min_def split: if_splits)
  then show ?thesis
    using assms(1) cap len
    by (simp add: block_inv_def dep add_deploy_def add_deploy_bytes_def)
qed

lemma block_inv_message:
  assumes "handle_message lib ops st config tx idx m p = Some p'" "block_inv p"
  shows "block_inv p'"
  using assms(1)
proof (cases rule: handle_messageE)
  case skip
  then show ?thesis using assms(2) by (simp add: block_inv_frame)
next
  case (deploy d dep q0)
  then show ?thesis using assms(2) by (auto intro: block_inv_add_deploy)
next
  case (call q0 cid opcode input r)
  then show ?thesis
    using assms(2) by (auto simp: call_ctx_def intro: block_inv_record_call block_inv_frame)
qed

lemma block_inv_transaction:
  assumes "process_transaction lib ops st config tx p = Some p'" "block_inv p"
  shows "block_inv p'"
  using assms(1) [unfolded process_transaction_def]
proof (rule process_outputs_inv [where I = block_inv])
  show "block_inv (p\<lparr>pg_tx_fuel := 0, pg_tx_messages := 0\<rparr>)"
    using assms(2) by (simp only: block_inv_frame)
qed (auto simp: block_inv_frame dest: block_inv_message)

lemma block_inv_transactions:
  assumes "process_transactions lib ops st config txs p = Some p'" "block_inv p"
  shows "block_inv p'"
  using process_transactions_inv [where I = "\<lambda>_. block_inv", OF assms] by (auto dest: block_inv_transaction)

section \<open>The invariant of a transaction\<close>

text \<open>What a transaction has added to \<open>p0\<close>, within its own caps.\<close>

definition tx_inv :: "progress \<Rightarrow> progress \<Rightarrow> bool" where
  "tx_inv p0 p \<longleftrightarrow> block_inv p
     \<and> (\<exists>es ds. pg_executions p = pg_executions p0 @ es \<and> pg_deployed p = pg_deployed p0 @ ds
       \<and> fuel_total es = unat (pg_tx_fuel p) \<and> fuel_total es \<le> unat MAX_FUEL_PER_ZCASH_TX
       \<and> length es + length ds \<le> unat (pg_tx_messages p)
       \<and> unat (pg_tx_messages p) \<le> unat MAX_ZALK_MESSAGES_PER_TX)"

lemma count_message_fields:
  "pg_executions (count_message p) = pg_executions p" "pg_deployed (count_message p) = pg_deployed p"
  "pg_commit (count_message p) = pg_commit p" "pg_tx_fuel (count_message p) = pg_tx_fuel p"
  "pg_tx_messages (count_message p) = pg_tx_messages p + 1"
  "bl_messages (pg_limits (count_message p)) = bl_messages (pg_limits p) + 1"
  by (simp_all add: count_message_def)

lemma unat_inc: "unat w \<le> n \<Longrightarrow> n < 2 ^ 32 - 1 \<Longrightarrow> unat (w + 1 :: u32) = unat w + 1"
  by (simp add: unat_word_ariths)

lemma not_over_cap:
  assumes "\<not> over_message_cap (count_message p)"
  shows "pg_tx_messages p + 1 \<le> MAX_ZALK_MESSAGES_PER_TX"
    and "bl_messages (pg_limits p) + 1 \<le> MAX_ZALK_MESSAGES_PER_BLOCK"
  using assms by (simp_all add: over_message_cap_def count_message_fields not_less)

lemma tx_inv_message:
  assumes "tx_inv p0 p" "\<not> over_message_cap (count_message p)"
    and "handle_message lib ops st config tx idx m (count_message p) = Some p'"
  shows "tx_inv p0 p'"
proof -
  from assms(1) obtain es ds where p: "pg_executions p = pg_executions p0 @ es"
      "pg_deployed p = pg_deployed p0 @ ds" "fuel_total es = unat (pg_tx_fuel p)"
      "unat (pg_tx_fuel p) \<le> unat MAX_FUEL_PER_ZCASH_TX" "length es + length ds \<le> unat (pg_tx_messages p)"
      "unat (pg_tx_messages p) \<le> unat MAX_ZALK_MESSAGES_PER_TX"
    and inv: "block_inv p"
    by (auto simp: tx_inv_def)
  have msgs: "unat (pg_tx_messages p + 1) = unat (pg_tx_messages p) + 1"
    using p(6) by (rule unat_inc) (simp add: params)
  have cap: "unat (pg_tx_messages p) + 1 \<le> unat MAX_ZALK_MESSAGES_PER_TX"
    using not_over_cap(1) [OF assms(2)] msgs by (simp add: word_le_nat_alt)
  have inv': "block_inv p'"
    using block_inv_message [OF assms(3)] inv by (simp add: block_inv_frame)
  from assms(3) show ?thesis
  proof (cases rule: handle_messageE)
    case skip
    then show ?thesis
      using p inv' msgs cap by (auto simp: tx_inv_def same_work_def count_message_fields)
  next
    case (deploy d dep q0)
    then have "pg_executions p' = pg_executions p0 @ es" "pg_deployed p' = pg_deployed p0 @ (ds @ [fst dep])"
      "pg_tx_fuel p' = pg_tx_fuel p" "pg_tx_messages p' = pg_tx_messages p + 1"
      using p(1,2) by (simp_all add: add_deploy_def add_deploy_bytes_def count_message_fields)
    then show ?thesis
      using p inv' msgs cap by (simp add: tx_inv_def)
  next
    case (call q0 cid opcode input r)
    obtain e where e: "pg_executions p' = pg_executions q0 @ [e]" "ex_fuel_used e = result_fuel r"
      using record_call_fields(8) [of lib ops st tx cid opcode r q0] call(4) by blast
    have q0: "pg_executions q0 = pg_executions p" "pg_deployed q0 = pg_deployed p"
      "pg_tx_fuel q0 = pg_tx_fuel p" "pg_tx_messages q0 = pg_tx_messages p + 1"
      using call(1) by (simp_all add: same_work_def count_message_fields)
    have "block_inv q0"
      using inv block_inv_frame(1) [OF _ call(1)] by (simp add: block_inv_frame)
    then have "unat (bl_fuel_used (pg_limits q0)) \<le> unat MAX_FUEL_PER_ZCASH_BLOCK"
      by (simp add: block_inv_def)
    then have "unat (saturating_add64 (pg_tx_fuel q0) (result_fuel r)) = unat (pg_tx_fuel q0) + unat (result_fuel r)
      \<and> unat (pg_tx_fuel q0) + unat (result_fuel r) \<le> unat MAX_FUEL_PER_ZCASH_TX"
      using record_call_fuel(4) [where p = q0, OF call(3)] p(4) by (simp add: call_ctx_def q0)
    moreover have "pg_executions p' = pg_executions p0 @ (es @ [e])" "pg_deployed p' = pg_deployed p0 @ ds"
      "pg_tx_fuel p' = saturating_add64 (pg_tx_fuel p) (result_fuel r)" "pg_tx_messages p' = pg_tx_messages p + 1"
      using p(1,2) e(1) by (simp_all add: call(4) q0)
    ultimately show ?thesis
      using p(3-6) inv' msgs cap e(2) by (simp add: tx_inv_def q0)
  qed
qed

lemma tx_inv_adds:
  assumes "tx_inv p0 p"
  shows "\<exists>es ds. pg_executions p = pg_executions p0 @ es \<and> pg_deployed p = pg_deployed p0 @ ds
    \<and> fuel_total es \<le> unat MAX_FUEL_PER_ZCASH_TX
    \<and> length es + length ds \<le> unat MAX_ZALK_MESSAGES_PER_TX"
proof -
  from assms obtain es ds where "pg_executions p = pg_executions p0 @ es" "pg_deployed p = pg_deployed p0 @ ds"
    "fuel_total es \<le> unat MAX_FUEL_PER_ZCASH_TX" "length es + length ds \<le> unat (pg_tx_messages p)"
    "unat (pg_tx_messages p) \<le> unat MAX_ZALK_MESSAGES_PER_TX"
    by (auto simp: tx_inv_def)
  then show ?thesis by (intro exI [of _ es] exI [of _ ds]) simp
qed

text \<open>The cap on messages ends a transaction right after the count.\<close>

lemma transaction_adds:
  assumes "process_transaction lib ops st config tx p = Some p'" "block_inv p"
  shows "\<exists>es ds. pg_executions p' = pg_executions p @ es \<and> pg_deployed p' = pg_deployed p @ ds
    \<and> fuel_total es \<le> unat MAX_FUEL_PER_ZCASH_TX
    \<and> length es + length ds \<le> unat MAX_ZALK_MESSAGES_PER_TX"
  using assms(1) [unfolded process_transaction_def]
proof (rule process_outputs_inv [where I = "tx_inv p"])
  have "block_inv (p\<lparr>pg_tx_fuel := 0, pg_tx_messages := 0\<rparr>)"
    using assms(2) by (simp only: block_inv_frame)
  then show "tx_inv p (p\<lparr>pg_tx_fuel := 0, pg_tx_messages := 0\<rparr>)"
    by (simp add: tx_inv_def)
qed (auto simp only: count_message_fields dest: tx_inv_message tx_inv_adds)

section \<open>The commit a block builds\<close>

text \<open>A storage write of a call: on a deployed contract, with a key and a value within bounds.\<close>

fun sound_write :: "'s store_ops \<Rightarrow> 's \<Rightarrow> contract_id \<Rightarrow> storage_write \<Rightarrow> bool" where
  "sound_write ops st cid0 (WSet cid key val) \<longleftrightarrow> cid = cid0 \<and> so_get_contract ops st cid \<noteq> None
     \<and> length key \<le> unat MAX_STORAGE_KEY_BYTES \<and> length val \<le> unat MAX_STORAGE_VALUE_BYTES"
| "sound_write ops st cid0 (WDelete cid key) \<longleftrightarrow> cid = cid0 \<and> so_get_contract ops st cid \<noteq> None
     \<and> length key \<le> unat MAX_STORAGE_KEY_BYTES"

lemma execute_writes:
  assumes "execute eng ops ctx st = Some r"
  shows "(\<forall>w \<in> set (result_writes r). sound_write ops st (cc_contract_id ctx) w)
    \<and> length (result_writes r) \<le> unat MAX_STORAGE_WRITES_PER_CALL"
proof (cases r)
  case (Success out fuel ws)
  from execute_SuccessD [OF assms [unfolded Success]] obtain hs where hs: "bounded_host hs"
    "ws = overlay_writes (cc_contract_id ctx) (hs_overlay hs)" "so_get_contract ops st (cc_contract_id ctx) \<noteq> None"
    by metis
  have "sound_write ops st (cc_contract_id ctx) w" if "w \<in> set ws" for w
    using that hs(1,3) unfolding hs(2)
    by (auto simp: overlay_writes_def bounded_host_def om_entries_get split: option.splits)
  moreover have "length ws \<le> unat MAX_STORAGE_WRITES_PER_CALL"
    using hs(1) by (simp add: hs(2) overlay_writes_def bounded_host_def)
  ultimately show ?thesis by (simp add: Success)
qed simp_all

definition commit_writes :: "block_commit \<Rightarrow> storage_write list" where
  "commit_writes c = map (\<lambda>(cid, k, v). WSet cid k v) (bc_upserts c) @ map (\<lambda>(cid, k). WDelete cid k) (bc_deletes c)"

lemma commit_writes_apply:
  "set (commit_writes (fold apply_write ws c)) = set (commit_writes c) \<union> set ws"
  "length (commit_writes (fold apply_write ws c)) = length (commit_writes c) + length ws"
proof (induction ws arbitrary: c)
  case (Cons w ws)
  case 1 then show ?case using Cons.IH(1) by (cases w) (auto simp: commit_writes_def)
  case 2 then show ?case using Cons.IH(2) by (cases w) (auto simp: commit_writes_def)
qed simp_all

text \<open>
  Every write of the commit is sound and belongs to a successful call of the block; every
  deploy was checked; and there are at most as many of them as messages were handled.
\<close>

definition commit_inv ::
    "'m node_lib \<Rightarrow> 's store_ops \<Rightarrow> 's \<Rightarrow> indexer_config \<Rightarrow> parsed_transaction list \<Rightarrow> progress \<Rightarrow> bool" where
  "commit_inv lib ops st config txs p \<longleftrightarrow>
     (\<forall>w \<in> set (commit_writes (pg_commit p)). \<exists>e \<in> set (pg_executions p).
        ex_success e \<and> sound_write ops st (ex_contract_id e) w)
     \<and> length (commit_writes (pg_commit p)) \<le> unat MAX_STORAGE_WRITES_PER_CALL * length (pg_executions p)
     \<and> (\<forall>dep \<in> set (bc_deploys (pg_commit p)). \<exists>tx \<in> set txs. \<exists>(idx, script) \<in> set (px_outputs tx). \<exists>d.
        output_message script = Some (Deploy d) \<and> dm_output_index d = idx
        \<and> genuine_deploy lib ops st config tx d dep)
     \<and> pg_deployed p = map fst (bc_deploys (pg_commit p))"

lemma commit_inv_frame:
  "commit_inv lib ops st config txs p \<Longrightarrow> same_work p q \<Longrightarrow> commit_inv lib ops st config txs q"
  "commit_inv lib ops st config txs (count_message p) = commit_inv lib ops st config txs p"
  "commit_inv lib ops st config txs (p\<lparr>pg_tx_fuel := f, pg_tx_messages := n\<rparr>) = commit_inv lib ops st config txs p"
  by (simp_all add: commit_inv_def same_work_def count_message_def)

lemma commit_inv_record_call:
  assumes "commit_inv lib ops st config txs p" "execute eng ops ctx st = Some r" "cc_contract_id ctx = cid"
  shows "commit_inv lib ops st config txs (record_call lib ops st tx cid op r p)"
proof -
  obtain e where e: "pg_executions (record_call lib ops st tx cid op r p) = pg_executions p @ [e]"
    "ex_contract_id e = cid" "ex_success e = fst (call_outcome r)"
    using record_call_fields(8) [of lib ops st tx cid op r p] by blast
  have w: "\<forall>w \<in> set (result_writes r). ex_success e \<and> sound_write ops st cid w"
      "length (result_writes r) \<le> unat MAX_STORAGE_WRITES_PER_CALL"
    using execute_writes [OF assms(2)] by (cases "fst (call_outcome r)"; simp add: e assms(3))+
  have "bc_deploys (fold apply_write ws c) = bc_deploys c" for ws c
    by (simp add: fold_apply_write)
  then show ?thesis
    using assms(1) w by (auto simp: commit_inv_def e commit_writes_apply)
qed

lemma commit_inv_message:
  assumes "handle_message lib ops st config tx idx m p = Some p'" "commit_inv lib ops st config txs p"
    and "tx \<in> set txs" "(idx, script) \<in> set (px_outputs tx)" "output_message script = Some m"
  shows "commit_inv lib ops st config txs p'"
  using assms(1)
proof (cases rule: handle_messageE)
  case skip
  then show ?thesis using assms(2) by (simp add: commit_inv_frame)
next
  case (deploy d dep q0)
  have "\<exists>tx \<in> set txs. \<exists>(idx, script) \<in> set (px_outputs tx). \<exists>d.
        output_message script = Some (Deploy d) \<and> dm_output_index d = idx
        \<and> genuine_deploy lib ops st config tx d dep"
    using assms(3-5) deploy(1,2,5) by blast
  then show ?thesis
    using assms(2)
    by (simp add: commit_inv_def commit_writes_def deploy(3,6) add_deploy_def add_deploy_bytes_def)
next
  case (call q0 cid opcode input r)
  have "commit_inv lib ops st config txs q0"
    using assms(2) call(1) by (rule commit_inv_frame)
  then show ?thesis
    unfolding call(4) by (rule commit_inv_record_call [OF _ call(3)]) (simp add: call_ctx_def)
qed

lemma commit_inv_transactions:
  assumes "process_transactions lib ops st config txs (start_block h hash) = Some p"
  shows "commit_inv lib ops st config txs p"
proof (rule process_transactions_inv [where I = "\<lambda>_. commit_inv lib ops st config txs", OF assms])
  show "commit_inv lib ops st config txs (start_block h hash)"
    by (simp add: commit_inv_def start_block_def empty_commit_def commit_writes_def)
  fix tx q q'
  assume tx: "tx \<in> set txs" and q: "commit_inv lib ops st config txs q"
    and run: "process_transaction lib ops st config tx q = Some q'"
  show "commit_inv lib ops st config txs q'"
    using run [unfolded process_transaction_def]
  proof (rule process_outputs_inv [where I = "commit_inv lib ops st config txs"])
    show "commit_inv lib ops st config txs (q\<lparr>pg_tx_fuel := 0, pg_tx_messages := 0\<rparr>)"
      using q by (simp only: commit_inv_frame)
  qed (auto simp only: commit_inv_frame intro: commit_inv_message [OF _ _ tx])
qed

section \<open>How many messages a block handles\<close>

definition count_inv :: "nat \<Rightarrow> progress \<Rightarrow> bool" where
  "count_inv k p \<longleftrightarrow>
     unat (bl_messages (pg_limits p)) \<le> unat MAX_ZALK_MESSAGES_PER_BLOCK + k
     \<and> length (pg_executions p) + length (pg_deployed p) \<le> unat MAX_ZALK_MESSAGES_PER_BLOCK
     \<and> length (pg_executions p) + length (pg_deployed p) \<le> unat (bl_messages (pg_limits p))"

lemma count_inv_message:
  assumes "handle_message lib ops st config tx idx m (count_message p) = Some p'"
    and "count_inv k p" "\<not> over_message_cap (count_message p)" "k < 2 ^ 31"
  shows "count_inv k p'"
proof -
  let ?n = "unat (bl_messages (pg_limits p))"
  have n: "unat (bl_messages (pg_limits p) + 1) = ?n + 1"
    using assms(2,4) by (intro unat_inc [of _ "unat MAX_ZALK_MESSAGES_PER_BLOCK + k"])
      (simp_all add: count_inv_def params)
  have cap: "?n + 1 \<le> unat MAX_ZALK_MESSAGES_PER_BLOCK"
    using not_over_cap(2) [OF assms(3)] n by (simp add: word_le_nat_alt)
  have work: "length (pg_executions p) + length (pg_deployed p) \<le> ?n"
    using assms(2) by (simp add: count_inv_def)
  have "length (pg_executions p') + length (pg_deployed p') \<le> length (pg_executions p) + length (pg_deployed p) + 1
      \<and> bl_messages (pg_limits p') = bl_messages (pg_limits p) + 1"
    using assms(1)
  proof (cases rule: handle_messageE)
    case (call q0 cid opcode input r)
    then show ?thesis
      using record_call_fields(8) [of lib ops st tx cid opcode r q0]
      by (auto simp: same_work_def count_message_fields)
  qed (auto simp: same_work_def count_message_fields add_deploy_def add_deploy_bytes_def)
  then show ?thesis
    using n cap work by (simp add: count_inv_def)
qed

lemma count_inv_frame:
  "count_inv k (p\<lparr>pg_tx_fuel := f, pg_tx_messages := n\<rparr>) = count_inv k p"
  "count_inv k p \<Longrightarrow> count_inv (Suc k) p"
  by (auto simp: count_inv_def)

lemma count_inv_over:
  assumes "count_inv k p" "k < 2 ^ 31"
  shows "count_inv (Suc k) (count_message p)"
proof -
  have "unat (bl_messages (pg_limits p) + 1) = unat (bl_messages (pg_limits p)) + 1"
    using assms by (intro unat_inc [of _ "unat MAX_ZALK_MESSAGES_PER_BLOCK + k"])
      (simp_all add: count_inv_def params)
  then show ?thesis
    using assms(1) by (simp add: count_inv_def count_message_fields)
qed

lemma count_inv_transactions:
  assumes "process_transactions lib ops st config txs (start_block h hash) = Some p" "length txs < 2 ^ 31"
  shows "count_inv (length txs) p"
proof (rule process_transactions_inv [where I = count_inv, OF assms(1)])
  show "count_inv 0 (start_block h hash)"
    by (simp add: count_inv_def start_block_def no_limits_used_def)
  fix k tx q q'
  assume k: "k < length txs" and q: "count_inv k q"
    and run: "process_transaction lib ops st config tx q = Some q'"
  have k': "k < 2 ^ 31" using k assms(2) by simp
  show "count_inv (Suc k) q'"
    using run [unfolded process_transaction_def]
  proof (rule process_outputs_inv [where I = "count_inv k"])
    show "count_inv k (q\<lparr>pg_tx_fuel := 0, pg_tx_messages := 0\<rparr>)"
      using q by (simp only: count_inv_frame)
  qed (auto intro: count_inv_frame count_inv_over [OF _ k'] count_inv_message [OF _ _ _ k'])
qed

text \<open>The commit fits the store's length fields and the counts of its undo journal.\<close>

lemma block_commit_small:
  assumes "process_transactions lib ops st config txs (start_block h hash) = Some p" "length txs < 2 ^ 31"
  shows "small_commit (pg_commit p)"
proof -
  have inv: "commit_inv lib ops st config txs p" "count_inv (length txs) p"
    using commit_inv_transactions [OF assms(1)] count_inv_transactions [OF assms] by simp_all
  have sound: "\<forall>w \<in> set (commit_writes (pg_commit p)). \<exists>cid. sound_write ops st cid w"
    using inv(1) unfolding commit_inv_def by fast
  have "length wasm < 2 ^ 32" if "(cid, ch, wasm) \<in> set (bc_deploys (pg_commit p))" for cid ch wasm
  proof -
    have "\<forall>dep \<in> set (bc_deploys (pg_commit p)). \<exists>tx d. genuine_deploy lib ops st config tx d dep"
      using inv(1) unfolding commit_inv_def by fast
    with that obtain tx d where "genuine_deploy lib ops st config tx d (cid, ch, wasm)"
      by blast
    then show ?thesis
      using unsigned_less [of "dm_code_length d", where 'a = nat] by (auto dest: genuine_deploy_length)
  qed
  moreover have "length key < 2 ^ 16 \<and> length val < 2 ^ 32" if "(cid, key, val) \<in> set (bc_upserts (pg_commit p))" for cid key val
  proof -
    have "WSet cid key val \<in> set (commit_writes (pg_commit p))"
      using that by (force simp: commit_writes_def)
    with sound obtain cid0 where "sound_write ops st cid0 (WSet cid key val)"
      by blast
    then show ?thesis by (simp add: params)
  qed
  moreover have "length key < 2 ^ 16" if "(cid, key) \<in> set (bc_deletes (pg_commit p))" for cid key
  proof -
    have "WDelete cid key \<in> set (commit_writes (pg_commit p))"
      using that by (force simp: commit_writes_def)
    with sound obtain cid0 where "sound_write ops st cid0 (WDelete cid key)"
      by blast
    then show ?thesis by (simp add: params)
  qed
  moreover have "length (bc_deploys (pg_commit p)) + length (bc_upserts (pg_commit p))
      + length (bc_deletes (pg_commit p)) < 2 ^ 32"
  proof -
    have "length (bc_upserts (pg_commit p)) + length (bc_deletes (pg_commit p))
        \<le> 256 * length (pg_executions p)"
      using inv(1) by (simp add: commit_inv_def commit_writes_def params)
    moreover have "length (bc_deploys (pg_commit p)) = length (pg_deployed p)"
      using inv(1) by (simp add: commit_inv_def)
    moreover have "length (pg_executions p) + length (pg_deployed p) \<le> 4096"
      using inv(2) by (simp add: count_inv_def params)
    ultimately show ?thesis by simp
  qed
  ultimately show ?thesis by (auto simp: small_commit_def)
qed

end
