(* ===== verification/Undo_Codec.thy ===== *)
theory Undo_Codec
  imports State_Spec "HOL-Library.Monad_Syntax"
begin

text \<open>
  The undo journal of \<open>RocksState\<close> (\<open>encode_undo\<close>, \<open>decode_undo\<close> in
  \<open>zalkanes-state/src/lib.rs\<close>), with the legacy format that marks a deployment by an empty
  key, and the round trip.
\<close>

section \<open>Encoder\<close>

definition UNDO_V2_MARKER :: bytes where
  "UNDO_V2_MARKER = [0xFF, 0xFF, 0xFF, 0xFE]"

fun encode_undo_op :: "undo_op \<Rightarrow> bytes" where
  "encode_undo_op (USet contract key prev) =
     [0x01] @ bytes_of contract @ u16_to_be_bytes (of_nat (length key)) @ key
     @ (case prev of
          Some p \<Rightarrow> [0x01] @ u32_to_be_bytes (of_nat (length p)) @ p
        | None \<Rightarrow> [0x00])"
| "encode_undo_op (UDelete contract key prev) =
     [0x02] @ bytes_of contract @ u16_to_be_bytes (of_nat (length key)) @ key
     @ u32_to_be_bytes (of_nat (length prev)) @ prev"
| "encode_undo_op (UDeploy contract prev) =
     [0x03] @ bytes_of contract
     @ (case prev of
          Some (code_hash, wasm) \<Rightarrow>
            [0x01] @ bytes_of code_hash @ u32_to_be_bytes (of_nat (length wasm)) @ wasm
        | None \<Rightarrow> [0x00])"

definition encode_undo :: "undo_op list \<Rightarrow> bytes" where
  "encode_undo ops =
     UNDO_V2_MARKER @ u32_to_be_bytes (of_nat (length ops)) @ concat (map encode_undo_op ops)"

section \<open>Decoder\<close>

text \<open>
  Every \<open>break\<close> of the loop body is \<open>None\<close>; a field is taken from the front of the bytes
  when they are long enough.
\<close>

definition take_bytes :: "nat \<Rightarrow> bytes \<Rightarrow> (bytes \<times> bytes) option" where
  "take_bytes n bs = (if length bs < n then None else Some (take n bs, drop n bs))"

fun take_first :: "bytes \<Rightarrow> (u8 \<times> bytes) option" where
  "take_first [] = None"
| "take_first (b # bs) = Some (b, bs)"

definition take_sized :: "bytes \<Rightarrow> (bytes \<times> bytes) option" where
  "take_sized bs =
     do {
       (len, bs) \<leftarrow> take_bytes 4 bs;
       take_bytes (unat (u32_from_be_bytes len)) bs
     }"

definition decode_deploy :: "contract_id \<Rightarrow> bytes \<Rightarrow> (undo_op \<times> bytes) option" where
  "decode_deploy cid bs =
     do {
       (has_prev, bs) \<leftarrow> take_first bs;
       if has_prev = 0x01
       then do {
         (ch, bs) \<leftarrow> take_bytes 32 bs;
         (wasm, bs) \<leftarrow> take_sized bs;
         Some (UDeploy cid (Some (mk32 ch, wasm)), bs)
       }
       else Some (UDeploy cid None, bs)
     }"

definition decode_set :: "bool \<Rightarrow> contract_id \<Rightarrow> bytes \<Rightarrow> bytes \<Rightarrow> (undo_op \<times> bytes) option" where
  "decode_set legacy cid key bs =
     do {
       (has_prev, bs) \<leftarrow> take_first bs;
       (prev, bs) \<leftarrow> (if has_prev = 0x01
         then do {
           (p, bs) \<leftarrow> take_sized bs;
           Some (Some p, bs)
         }
         else Some (None, bs));
       Some (if legacy \<and> key = [] \<and> prev = None then UDeploy cid None else USet cid key prev, bs)
     }"

definition decode_undo_op :: "bool \<Rightarrow> bytes \<Rightarrow> (undo_op \<times> bytes) option" where
  "decode_undo_op legacy bs =
     do {
       (tag, bs) \<leftarrow> take_first bs;
       (cid, bs) \<leftarrow> take_bytes 32 bs;
       if tag = 0x03 then decode_deploy (mk32 cid) bs
       else do {
         (key_len, bs) \<leftarrow> take_bytes 2 bs;
         (key, bs) \<leftarrow> take_bytes (unat (u16_from_be_bytes key_len)) bs;
         if tag = 0x01 then decode_set legacy (mk32 cid) key bs
         else if tag = 0x02 then do {
           (prev, bs) \<leftarrow> take_sized bs;
           Some (UDelete (mk32 cid) key prev, bs)
         }
         else None
       }
     }"

text \<open>The \<open>for _ in 0..n\<close> loop.\<close>

fun decode_undo_ops :: "bool \<Rightarrow> nat \<Rightarrow> bytes \<Rightarrow> undo_op list" where
  "decode_undo_ops legacy 0 bs = []"
| "decode_undo_ops legacy (Suc n) bs =
     (case decode_undo_op legacy bs of
        None \<Rightarrow> []
      | Some (op, bs') \<Rightarrow> op # decode_undo_ops legacy n bs')"

definition decode_undo :: "bytes \<Rightarrow> undo_op list" where
  "decode_undo bs =
     (if length bs < 4 then []
      else
        let legacy = (take 4 bs \<noteq> UNDO_V2_MARKER);
            bs = (if legacy then bs else drop 4 bs) in
        if length bs < 4 then []
        else decode_undo_ops legacy (unat (u32_from_be_bytes (take 4 bs))) (drop 4 bs))"

section \<open>Round trip\<close>

lemma take_bytes_append [simp]: "length xs = n \<Longrightarrow> take_bytes n (xs @ ys) = Some (xs, ys)"
  by (simp add: take_bytes_def)

lemma take_sized_append [simp]:
  "length p < 2 ^ 32 \<Longrightarrow> take_sized (u32_to_be_bytes (of_nat (length p)) @ p @ rest) = Some (p, rest)"
  by (simp add: take_sized_def)

fun small_undo :: "undo_op \<Rightarrow> bool" where
  "small_undo (USet cid key prev) \<longleftrightarrow>
     length key < 2 ^ 16 \<and> (case prev of Some p \<Rightarrow> length p < 2 ^ 32 | None \<Rightarrow> True)"
| "small_undo (UDelete cid key prev) \<longleftrightarrow> length key < 2 ^ 16 \<and> length prev < 2 ^ 32"
| "small_undo (UDeploy cid prev) \<longleftrightarrow>
     (case prev of Some (ch, wasm) \<Rightarrow> length wasm < 2 ^ 32 | None \<Rightarrow> True)"

lemma decode_encode_undo_op:
  assumes "small_undo op"
  shows "decode_undo_op False (encode_undo_op op @ rest) = Some (op, rest)"
proof (cases op)
  case (USet cid key prev)
  with assms show ?thesis
    by (cases prev) (simp_all add: decode_undo_op_def decode_set_def)
next
  case (UDelete cid key prev)
  with assms show ?thesis by (simp add: decode_undo_op_def)
next
  case (UDeploy cid prev)
  with assms show ?thesis
    by (cases prev) (auto simp: decode_undo_op_def decode_deploy_def)
qed

lemma decode_encode_undo_ops:
  assumes "\<forall>op \<in> set ops. small_undo op"
  shows "decode_undo_ops False (length ops) (concat (map encode_undo_op ops) @ rest) = ops"
  using assms by (induction ops) (simp_all add: decode_encode_undo_op)

lemma decode_encode_undo:
  assumes "\<forall>op \<in> set ops. small_undo op" "length ops < 2 ^ 32"
  shows "decode_undo (encode_undo ops) = ops"
  using assms decode_encode_undo_ops [OF assms(1), of "[]"]
  by (simp add: decode_undo_def encode_undo_def UNDO_V2_MARKER_def Let_def)

text \<open>The undo journal survives its storage format: decoding an encoded list of undo
  operations gives the list back, the empty-key writes that the legacy format could not
  represent included, when keys, values and counts fit their length fields.\<close>

theorem undo_roundtrip:
  assumes "\<forall>op \<in> set ops. small_undo op" "length ops < 2 ^ 32"
  shows "decode_undo (encode_undo ops) = ops"
  using assms by (rule decode_encode_undo)

end
