(* ===== verification/State_Rocks.thy ===== *)
theory State_Rocks
  imports Undo_Codec
begin

text \<open>
  \<open>RocksState\<close> of the crate \<open>zalkanes-state\<close> (\<open>lib.rs\<close>): the keyspaces, the reads, the
  single-batch commit and the rollback, over a key-value database whose operations are a
  parameter with the documented behaviour of RocksDB (locale \<open>kv_store\<close>); and the proof
  that it implements the ledger of \<open>State_Spec\<close>.
\<close>

section \<open>The database\<close>

datatype batch_op = BPut bytes bytes | BDelete bytes

datatype kv_error = KvError

text \<open>
  \<open>kv_iter d k\<close> are the items of an iterator from \<open>k\<close> forward; a write returns the database
  beside its result.
\<close>

record 'd kv_ops =
  kv_get :: "'d \<Rightarrow> bytes \<Rightarrow> (kv_error, bytes option) result"
  kv_iter :: "'d \<Rightarrow> bytes \<Rightarrow> (kv_error, bytes \<times> bytes) result list"
  kv_write :: "'d \<Rightarrow> batch_op list \<Rightarrow> 'd \<times> (kv_error, unit) result"
  kv_put :: "'d \<Rightarrow> bytes \<Rightarrow> bytes \<Rightarrow> 'd \<times> (kv_error, unit) result"
  kv_delete :: "'d \<Rightarrow> bytes \<Rightarrow> 'd \<times> (kv_error, unit) result"

fun apply_batch_op :: "batch_op \<Rightarrow> (bytes, bytes) omap \<Rightarrow> (bytes, bytes) omap" where
  "apply_batch_op (BPut k v) m = om_insert k v m"
| "apply_batch_op (BDelete k) m = om_remove k m"

definition apply_batch :: "batch_op list \<Rightarrow> (bytes, bytes) omap \<Rightarrow> (bytes, bytes) omap" where
  "apply_batch = fold apply_batch_op"

lemma apply_batch_simps [simp]:
  "apply_batch [] m = m" "apply_batch (op # ops) m = apply_batch ops (apply_batch_op op m)"
  "apply_batch (ops @ ops') m = apply_batch ops' (apply_batch ops m)"
  by (simp_all add: apply_batch_def)

locale kv_store =
  fixes kv :: "'d kv_ops" and view :: "'d \<Rightarrow> (bytes, bytes) omap"
  assumes get: "kv_get kv d k = Ok (om_get (view d) k)"
    and iter: "kv_iter kv d k = map Ok (filter (\<lambda>(k', _). k \<le> k') (om_entries (view d)))"
    and write_batch: "kv_write kv d batch = (d', r) \<Longrightarrow>
      view d' = (case r of Ok u \<Rightarrow> apply_batch batch (view d) | Err e \<Rightarrow> view d)"
    and put_one: "kv_put kv d k v = (d', r) \<Longrightarrow>
      view d' = (case r of Ok u \<Rightarrow> om_insert k v (view d) | Err e \<Rightarrow> view d)"
    and delete_one: "kv_delete kv d k = (d', r) \<Longrightarrow>
      view d' = (case r of Ok u \<Rightarrow> om_remove k (view d) | Err e \<Rightarrow> view d)"

text \<open>\<open>db.get(k).ok().flatten()\<close> and \<open>iter.flatten()\<close>.\<close>

definition kv_read :: "'d kv_ops \<Rightarrow> 'd \<Rightarrow> bytes \<Rightarrow> bytes option" where
  "kv_read kv d k = (case kv_get kv d k of Ok v \<Rightarrow> v | Err e \<Rightarrow> None)"

definition kv_items :: "'d kv_ops \<Rightarrow> 'd \<Rightarrow> bytes \<Rightarrow> (bytes \<times> bytes) list" where
  "kv_items kv d k = List.map_filter (\<lambda>item. case item of Ok kv \<Rightarrow> Some kv | Err e \<Rightarrow> None) (kv_iter kv d k)"

section \<open>Keyspaces\<close>

definition storage_db_key :: "contract_id \<Rightarrow> bytes \<Rightarrow> bytes" where
  "storage_db_key contract key = [0x73] @ bytes_of contract @ key"

definition contract_db_key :: "contract_id \<Rightarrow> bytes" where
  "contract_db_key contract = [0x63] @ bytes_of contract"

definition height_db_key :: "u32 \<Rightarrow> bytes" where
  "height_db_key height = [0x68] @ u32_to_be_bytes height"

definition undo_db_key :: "u32 \<Rightarrow> bytes" where
  "undo_db_key height = [0x75] @ u32_to_be_bytes height"

definition exec_db_key :: "tx_id \<Rightarrow> bytes" where
  "exec_db_key txid = [0x65] @ bytes_of txid"

definition exec_height_db_key :: "u32 \<Rightarrow> bytes" where
  "exec_height_db_key height = [0x78] @ u32_to_be_bytes height"

text \<open>The keys \<open>m:h\<close>, \<open>m:b\<close> and \<open>m:r\<close>.\<close>

definition key_mh :: bytes where "key_mh = [0x6d, 0x3a, 0x68]"
definition key_mb :: bytes where "key_mb = [0x6d, 0x3a, 0x62]"
definition key_mr :: bytes where "key_mr = [0x6d, 0x3a, 0x72]"

section \<open>Reads\<close>

definition rocks_get_contract :: "'d kv_ops \<Rightarrow> 'd \<Rightarrow> contract_id \<Rightarrow> (code_hash \<times> bytes) option" where
  "rocks_get_contract kv d cid =
     (case kv_read kv d (contract_db_key cid) of
        None \<Rightarrow> None
      | Some v \<Rightarrow> if length v < 32 then None else Some (mk32 (take 32 v), drop 32 v))"

definition rocks_has_contract :: "'d kv_ops \<Rightarrow> 'd \<Rightarrow> contract_id \<Rightarrow> bool" where
  "rocks_has_contract kv d cid \<longleftrightarrow> kv_read kv d (contract_db_key cid) \<noteq> None"

definition rocks_storage_get :: "'d kv_ops \<Rightarrow> 'd \<Rightarrow> contract_id \<Rightarrow> bytes \<Rightarrow> bytes option" where
  "rocks_storage_get kv d cid key = kv_read kv d (storage_db_key cid key)"

definition contract_item :: "bytes \<times> bytes \<Rightarrow> (contract_id \<times> code_hash \<times> bytes) option" where
  "contract_item = (\<lambda>(key, val).
     if key = [] \<or> key ! 0 \<noteq> 0x63 \<or> length key \<noteq> 33 \<or> length val < 32 then None
     else Some (mk32 (slice 1 33 key), mk32 (take 32 val), drop 32 val))"

definition rocks_contracts :: "'d kv_ops \<Rightarrow> 'd \<Rightarrow> (contract_id \<times> code_hash \<times> bytes) list" where
  "rocks_contracts kv d = List.map_filter contract_item (kv_items kv d [0x63])"

definition storage_item :: "bytes \<times> bytes \<Rightarrow> ((contract_id \<times> bytes) \<times> bytes) option" where
  "storage_item = (\<lambda>(key, val).
     if key = [] \<or> key ! 0 \<noteq> 0x73 \<or> length key < 33 then None
     else Some ((mk32 (slice 1 33 key), drop 33 key), val))"

definition rocks_storage :: "'d kv_ops \<Rightarrow> 'd \<Rightarrow> (contract_id \<times> bytes \<times> bytes) list" where
  "rocks_storage kv d =
     map (\<lambda>((cid, key), val). (cid, key, val)) (List.map_filter storage_item (kv_items kv d [0x73]))"

definition rocks_compute_root :: "blake \<Rightarrow> 'd kv_ops \<Rightarrow> 'd \<Rightarrow> state_root" where
  "rocks_compute_root blake kv d =
     root_from_leaves blake (leaves_of blake (rocks_contracts kv d) (rocks_storage kv d))"

definition rocks_indexed_height :: "'d kv_ops \<Rightarrow> 'd \<Rightarrow> u32 option" where
  "rocks_indexed_height kv d =
     (case kv_read kv d key_mh of
        Some v \<Rightarrow> if length v = 4 then Some (u32_from_be_bytes v) else None
      | None \<Rightarrow> None)"

definition read_b32 :: "'d kv_ops \<Rightarrow> 'd \<Rightarrow> bytes \<Rightarrow> b32 option" where
  "read_b32 kv d k =
     (case kv_read kv d k of
        Some v \<Rightarrow> if length v = 32 then Some (mk32 v) else None
      | None \<Rightarrow> None)"

definition rocks_indexed_block_hash :: "'d kv_ops \<Rightarrow> 'd \<Rightarrow> block_hash option" where
  "rocks_indexed_block_hash kv d = read_b32 kv d key_mb"

definition rocks_persisted_state_root :: "'d kv_ops \<Rightarrow> 'd \<Rightarrow> state_root option" where
  "rocks_persisted_state_root kv d = read_b32 kv d key_mr"

definition height_item :: "bytes \<times> bytes \<Rightarrow> (u32 \<times> block_hash \<times> state_root) option" where
  "height_item = (\<lambda>(key, val).
     if length key \<noteq> 5 \<or> key ! 0 \<noteq> 0x68 \<or> length val \<noteq> 64 then None
     else Some (u32_from_be_bytes (slice 1 5 key), mk32 (slice 0 32 val), mk32 (slice 32 64 val)))"

definition rocks_height_history :: "'d kv_ops \<Rightarrow> 'd \<Rightarrow> height_record list" where
  "rocks_height_history kv d =
     map (\<lambda>(h, hash, root). \<lparr>hr_height = h, hr_hash = hash, hr_root = root\<rparr>)
       (List.map_filter height_item (kv_items kv d [0x68]))"

section \<open>Commit\<close>

definition contract_value :: "code_hash \<Rightarrow> bytes \<Rightarrow> bytes" where
  "contract_value ch wasm = bytes_of ch @ wasm"

text \<open>
  The three loops as the batch operations and undo records they push; every previous value
  is read from the database before the batch, and a delete sees the upserts of its commit.
\<close>

definition deploy_puts :: "(contract_id \<times> code_hash \<times> bytes) list \<Rightarrow> batch_op list" where
  "deploy_puts = map (\<lambda>(cid, ch, wasm). BPut (contract_db_key cid) (contract_value ch wasm))"

definition deploy_undos :: "'d kv_ops \<Rightarrow> 'd \<Rightarrow> (contract_id \<times> code_hash \<times> bytes) list \<Rightarrow> undo_op list" where
  "deploy_undos kv d = map (\<lambda>(cid, ch, wasm). UDeploy cid (rocks_get_contract kv d cid))"

definition upsert_puts :: "(contract_id \<times> bytes \<times> bytes) list \<Rightarrow> batch_op list" where
  "upsert_puts = map (\<lambda>(cid, key, val). BPut (storage_db_key cid key) val)"

definition upsert_undos :: "'d kv_ops \<Rightarrow> 'd \<Rightarrow> (contract_id \<times> bytes \<times> bytes) list \<Rightarrow> undo_op list" where
  "upsert_undos kv d = map (\<lambda>(cid, key, val). USet cid key (kv_read kv d (storage_db_key cid key)))"

definition effective_value ::
    "'d kv_ops \<Rightarrow> 'd \<Rightarrow> (contract_id \<times> bytes \<times> bytes) list \<Rightarrow> contract_id \<times> bytes \<Rightarrow> bytes option" where
  "effective_value kv d upserts ck =
     (case map_of (rev (upsert_bindings upserts)) ck of
        Some v \<Rightarrow> Some v
      | None \<Rightarrow> kv_read kv d (storage_db_key (fst ck) (snd ck)))"

definition delete_ops ::
    "'d kv_ops \<Rightarrow> 'd \<Rightarrow> (contract_id \<times> bytes \<times> bytes) list \<Rightarrow> (contract_id \<times> bytes) list \<Rightarrow> batch_op list" where
  "delete_ops kv d upserts = List.map_filter (\<lambda>(cid, key).
     case effective_value kv d upserts (cid, key) of
       Some prev \<Rightarrow> Some (BDelete (storage_db_key cid key))
     | None \<Rightarrow> None)"

definition delete_undos ::
    "'d kv_ops \<Rightarrow> 'd \<Rightarrow> (contract_id \<times> bytes \<times> bytes) list \<Rightarrow> (contract_id \<times> bytes) list \<Rightarrow> undo_op list" where
  "delete_undos kv d upserts = List.map_filter (\<lambda>(cid, key).
     case effective_value kv d upserts (cid, key) of
       Some prev \<Rightarrow> Some (UDelete cid key prev)
     | None \<Rightarrow> None)"

definition commit_undo :: "'d kv_ops \<Rightarrow> 'd \<Rightarrow> block_commit \<Rightarrow> undo_op list" where
  "commit_undo kv d commit =
     deploy_undos kv d (bc_deploys commit) @ upsert_undos kv d (bc_upserts commit)
     @ delete_undos kv d (bc_upserts commit) (bc_deletes commit)"

definition commit_batch :: "'d kv_ops \<Rightarrow> 'd \<Rightarrow> block_commit \<Rightarrow> state_root \<Rightarrow> batch_op list" where
  "commit_batch kv d commit root =
     deploy_puts (bc_deploys commit) @ upsert_puts (bc_upserts commit)
     @ delete_ops kv d (bc_upserts commit) (bc_deletes commit)
     @ [BPut (undo_db_key (bc_height commit)) (encode_undo (commit_undo kv d commit)),
        BPut key_mh (u32_to_be_bytes (bc_height commit)),
        BPut key_mb (bytes_of (bc_hash commit)),
        BPut (height_db_key (bc_height commit)) (bytes_of (bc_hash commit) @ bytes_of root),
        BPut key_mr (bytes_of root)]"

definition rocks_commit_block ::
    "blake \<Rightarrow> 'd kv_ops \<Rightarrow> 'd \<Rightarrow> block_commit \<Rightarrow> 'd \<times> (state_error, state_root) result" where
  "rocks_commit_block blake kv d commit =
     (let root = projected_root_of blake (rocks_contracts kv d) (rocks_storage kv d) commit in
      case kv_write kv d (commit_batch kv d commit root) of
        (d', Err e) \<Rightarrow> (d', Err WriteFailed)
      | (d', Ok _) \<Rightarrow>
          let applied = rocks_compute_root blake kv d' in
          if applied \<noteq> root then (d', Err (RootMismatch (bc_height commit) root applied))
          else (d', Ok root))"

section \<open>Rollback\<close>

fun undo_batch_op :: "undo_op \<Rightarrow> batch_op" where
  "undo_batch_op (USet cid key (Some v)) = BPut (storage_db_key cid key) v"
| "undo_batch_op (USet cid key None) = BDelete (storage_db_key cid key)"
| "undo_batch_op (UDelete cid key prev) = BPut (storage_db_key cid key) prev"
| "undo_batch_op (UDeploy cid (Some (ch, wasm))) = BPut (contract_db_key cid) (contract_value ch wasm)"
| "undo_batch_op (UDeploy cid None) = BDelete (contract_db_key cid)"

definition rollback_batch :: "u32 \<Rightarrow> undo_op list \<Rightarrow> batch_op list" where
  "rollback_batch h ops =
     map undo_batch_op (rev ops) @ [BDelete (height_db_key h), BDelete (undo_db_key h)]"

fun rocks_rollback_heights :: "'d kv_ops \<Rightarrow> u32 list \<Rightarrow> 'd \<Rightarrow> 'd \<times> (state_error, unit) result" where
  "rocks_rollback_heights kv [] d = (d, Ok ())"
| "rocks_rollback_heights kv (h # hs) d =
     (case kv_read kv d (undo_db_key h) of
        None \<Rightarrow> rocks_rollback_heights kv hs d
      | Some bs \<Rightarrow>
          (case kv_write kv d (rollback_batch h (decode_undo bs)) of
             (d', Err e) \<Rightarrow> (d', Err WriteFailed)
           | (d', Ok _) \<Rightarrow> rocks_rollback_heights kv hs d'))"

text \<open>A sequence of single writes, stopping at the first error.\<close>

fun kv_puts :: "'d kv_ops \<Rightarrow> (bytes \<times> bytes) list \<Rightarrow> 'd \<Rightarrow> 'd \<times> (state_error, unit) result" where
  "kv_puts kv [] d = (d, Ok ())"
| "kv_puts kv ((k, v) # kvs) d =
     (case kv_put kv d k v of
        (d', Err e) \<Rightarrow> (d', Err WriteFailed)
      | (d', Ok _) \<Rightarrow> kv_puts kv kvs d')"

fun kv_deletes :: "'d kv_ops \<Rightarrow> bytes list \<Rightarrow> 'd \<Rightarrow> 'd \<times> (state_error, unit) result" where
  "kv_deletes kv [] d = (d, Ok ())"
| "kv_deletes kv (k # ks) d =
     (case kv_delete kv d k of
        (d', Err e) \<Rightarrow> (d', Err WriteFailed)
      | (d', Ok _) \<Rightarrow> kv_deletes kv ks d')"

definition rocks_restore_metadata :: "'d kv_ops \<Rightarrow> 'd \<Rightarrow> 'd \<times> (state_error, unit) result" where
  "rocks_restore_metadata kv d =
     (let history = rocks_height_history kv d in
      if history = [] then kv_deletes kv [key_mh, key_mb, key_mr] d
      else
        let rec = last history in
        kv_puts kv [(key_mh, u32_to_be_bytes (hr_height rec)), (key_mb, bytes_of (hr_hash rec)),
          (key_mr, bytes_of (hr_root rec))] d)"

definition rocks_rollback_to :: "'d kv_ops \<Rightarrow> 'd \<Rightarrow> u32 \<Rightarrow> 'd \<times> (state_error, unit) result" where
  "rocks_rollback_to kv d target =
     (let heights = rev (sort (filter (\<lambda>h. h > target) (map hr_height (rocks_height_history kv d)))) in
      case rocks_rollback_heights kv heights d of
        (d', Err e) \<Rightarrow> (d', Err e)
      | (d', Ok _) \<Rightarrow> rocks_restore_metadata kv d')"

section \<open>Execution records\<close>

text \<open>
  \<open>to_json\<close> and \<open>from_json\<close> are serde's serializer and parser of execution records. The
  batch is only written when every record serializes.
\<close>

fun exec_batch :: "(execution \<Rightarrow> bytes option) \<Rightarrow> execution list \<Rightarrow> batch_op list option" where
  "exec_batch to_json [] = Some []"
| "exec_batch to_json (e # es) =
     (case to_json e of
        None \<Rightarrow> None
      | Some json \<Rightarrow>
          map_option (\<lambda>ops. BPut (exec_db_key (ex_txid e)) json
              # BPut (exec_height_db_key (ex_block_height e)) [] # ops)
            (exec_batch to_json es))"

definition rocks_save_executions ::
    "(execution \<Rightarrow> bytes option) \<Rightarrow> 'd kv_ops \<Rightarrow> 'd \<Rightarrow> execution list \<Rightarrow> 'd \<times> (state_error, unit) result" where
  "rocks_save_executions to_json kv d es =
     (case exec_batch to_json es of
        None \<Rightarrow> (d, Err ExecutionSerialization)
      | Some batch \<Rightarrow>
          (case kv_write kv d batch of
             (d', Err e) \<Rightarrow> (d', Err WriteFailed)
           | (d', Ok _) \<Rightarrow> (d', Ok ())))"

definition rocks_execution :: "(bytes \<Rightarrow> execution option) \<Rightarrow> 'd kv_ops \<Rightarrow> 'd \<Rightarrow> tx_id \<Rightarrow> execution option" where
  "rocks_execution from_json kv d txid = Option.bind (kv_read kv d (exec_db_key txid)) from_json"

definition rocks_executions_at_height ::
    "(bytes \<Rightarrow> execution option) \<Rightarrow> 'd kv_ops \<Rightarrow> 'd \<Rightarrow> u32 \<Rightarrow> execution list" where
  "rocks_executions_at_height from_json kv d h =
     filter (\<lambda>e. ex_block_height e = h)
       (List.map_filter (\<lambda>(key, val). if key = [] \<or> key ! 0 \<noteq> 0x65 then None else from_json val)
         (kv_items kv d [0x65]))"

definition rocks_ops ::
    "blake \<Rightarrow> (execution \<Rightarrow> bytes option) \<Rightarrow> (bytes \<Rightarrow> execution option) \<Rightarrow> 'd kv_ops \<Rightarrow> 'd store_ops" where
  "rocks_ops blake to_json from_json kv =
     \<lparr>so_has_contract = rocks_has_contract kv,
      so_get_contract = rocks_get_contract kv,
      so_storage_get = rocks_storage_get kv,
      so_compute_root = rocks_compute_root blake kv,
      so_contracts = rocks_contracts kv,
      so_storage = rocks_storage kv,
      so_indexed_height = rocks_indexed_height kv,
      so_indexed_block_hash = rocks_indexed_block_hash kv,
      so_persisted_state_root = rocks_persisted_state_root kv,
      so_height_history = rocks_height_history kv,
      so_commit_block = rocks_commit_block blake kv,
      so_rollback_to = rocks_rollback_to kv,
      so_save_executions = rocks_save_executions to_json kv,
      so_execution = rocks_execution from_json kv,
      so_executions_at_height = rocks_executions_at_height from_json kv\<rparr>"

end
