(* ===== verification/State_Rocks_Refine.thy ===== *)
theory State_Rocks_Refine
  imports State_Rocks
begin

text \<open>
  \<open>RocksState\<close> implements the ledger of \<open>State_Spec\<close>, over any database that behaves as the
  locale \<open>kv_store\<close> says: keys do not clash, iteration is in ledger order, the undo journal
  restores the previous contents, and the post-commit cross-check never fires.
\<close>

section \<open>Keys\<close>

lemmas db_key_defs = storage_db_key_def contract_db_key_def height_db_key_def undo_db_key_def
  exec_db_key_def exec_height_db_key_def key_mh_def key_mb_def key_mr_def

lemma db_keys_inject [simp]:
  "storage_db_key c k = storage_db_key c' k' \<longleftrightarrow> c = c' \<and> k = k'"
  "contract_db_key c = contract_db_key c' \<longleftrightarrow> c = c'"
  "height_db_key h = height_db_key h' \<longleftrightarrow> h = h'"
  "undo_db_key h = undo_db_key h' \<longleftrightarrow> h = h'"
  by (simp_all add: db_key_defs)

lemma db_keys_distinct [simp]:
  "storage_db_key c k \<noteq> contract_db_key c'" "contract_db_key c' \<noteq> storage_db_key c k"
  "storage_db_key c k \<noteq> height_db_key h" "storage_db_key c k \<noteq> undo_db_key h"
  "contract_db_key c \<noteq> height_db_key h" "contract_db_key c \<noteq> undo_db_key h"
  "height_db_key h \<noteq> undo_db_key h'" "undo_db_key h' \<noteq> height_db_key h"
  "height_db_key h \<noteq> storage_db_key c k" "undo_db_key h \<noteq> storage_db_key c k"
  "height_db_key h \<noteq> contract_db_key c" "undo_db_key h \<noteq> contract_db_key c"
  by (simp_all add: db_key_defs)

lemma meta_keys_distinct [simp]:
  "storage_db_key c k \<noteq> key_mh" "storage_db_key c k \<noteq> key_mb" "storage_db_key c k \<noteq> key_mr"
  "contract_db_key c \<noteq> key_mh" "contract_db_key c \<noteq> key_mb" "contract_db_key c \<noteq> key_mr"
  "height_db_key h \<noteq> key_mh" "height_db_key h \<noteq> key_mb" "height_db_key h \<noteq> key_mr"
  "undo_db_key h \<noteq> key_mh" "undo_db_key h \<noteq> key_mb" "undo_db_key h \<noteq> key_mr"
  "key_mh \<noteq> key_mb" "key_mh \<noteq> key_mr" "key_mb \<noteq> key_mr"
  "key_mb \<noteq> key_mh" "key_mr \<noteq> key_mh" "key_mr \<noteq> key_mb"
  by (simp_all add: db_key_defs)

lemma meta_keys_distinct' [simp]:
  "key_mh \<noteq> storage_db_key c k" "key_mb \<noteq> storage_db_key c k" "key_mr \<noteq> storage_db_key c k"
  "key_mh \<noteq> contract_db_key c" "key_mb \<noteq> contract_db_key c" "key_mr \<noteq> contract_db_key c"
  "key_mh \<noteq> height_db_key h" "key_mb \<noteq> height_db_key h" "key_mr \<noteq> height_db_key h"
  "key_mh \<noteq> undo_db_key h" "key_mb \<noteq> undo_db_key h" "key_mr \<noteq> undo_db_key h"
  by (simp_all add: db_key_defs)

section \<open>Key order\<close>

lemma append_less_prefix:
  fixes xs ys :: bytes
  shows "xs < ys \<Longrightarrow> length xs = length ys \<Longrightarrow> xs @ us < ys @ vs"
proof (induction xs arbitrary: ys)
  case (Cons x xs)
  then show ?case by (cases ys) auto
qed simp

lemma append_less_same: "us < vs \<Longrightarrow> (xs :: bytes) @ us < xs @ vs"
  by (induction xs) auto

lemma storage_key_mono: "(c, k) < (c', k') \<Longrightarrow> storage_db_key c k < storage_db_key c' k'"
proof -
  assume "(c, k) < (c', k')"
  then consider "c < c'" | "c = c'" "k < k'"
    by (auto simp: less_prod_def order_le_less)
  then show ?thesis
    by cases (auto simp: storage_db_key_def less_b32.rep_eq intro: append_less_prefix append_less_same)
qed

lemma contract_key_mono: "c < c' \<Longrightarrow> contract_db_key c < contract_db_key c'"
  by (simp add: contract_db_key_def less_b32.rep_eq)

lemma be_bytes_mono: "a < b \<Longrightarrow> b < 256 ^ n \<Longrightarrow> rev (nat_to_le n a) < rev (nat_to_le n b)"
proof (induction n arbitrary: a b)
  case (Suc n)
  show ?case
  proof (cases "a div 256 = b div 256")
    case True
    then have "a mod 256 < b mod 256"
      using Suc.prems(1) by (metis div_mult_mod_eq nat_add_left_cancel_less)
    then have "(of_nat (a mod 256) :: u8) < of_nat (b mod 256)"
      by (simp only: word_less_nat_alt unat_of_nat_u8 mod_mod_trivial)
    then show ?thesis
      using True by (simp add: append_less_same)
  next
    case False
    then have "a div 256 < b div 256"
      using Suc.prems(1) by (simp add: div_le_mono le_neq_implies_less)
    moreover have "b div 256 < 256 ^ n"
      using Suc.prems(2) by (simp add: less_mult_imp_div_less mult.commute)
    ultimately show ?thesis
      by (simp add: Suc.IH append_less_prefix)
  qed
qed simp

lemma height_key_mono: "h < h' \<Longrightarrow> height_db_key h < height_db_key h'"
  using be_bytes_mono [of "unat h" "unat h'" 4]
  by (simp add: height_db_key_def u32_to_be_bytes_def word_less_nat_alt del: nat_to_le_numeral)

section \<open>Decoding a keyspace\<close>

lemma map_filter_Cons:
  "List.map_filter f (x # xs) = (case f x of None \<Rightarrow> List.map_filter f xs | Some y \<Rightarrow> y # List.map_filter f xs)"
  by (simp add: List.map_filter_def split: option.splits)

lemma map_filter_Nil [simp]: "List.map_filter f [] = []"
  by (simp add: List.map_filter_def)

lemma set_map_filter: "y \<in> set (List.map_filter f xs) \<longleftrightarrow> (\<exists>x \<in> set xs. f x = Some y)"
  by (induction xs) (auto simp: map_filter_Cons split: option.splits)

text \<open>A keyspace whose keys encode \<open>'a\<close> in order lists exactly the bindings of the map it
  stores.\<close>

lemma decode_keyspace:
  fixes enc :: "'a::linorder \<Rightarrow> bytes" and m :: "(bytes, 'v) omap"
  assumes mono: "\<And>a b. a < b \<Longrightarrow> enc a < enc b"
    and item: "\<And>k v a w. item (k, v) = Some (a, w) \<longleftrightarrow> k = enc a \<and> val v = Some w"
    and start: "\<And>a. start \<le> enc a"
    and T: "sorted_keys T" "\<And>a. map_of T a = Option.bind (om_get m (enc a)) val"
  shows "List.map_filter item (filter (\<lambda>(k, v). start \<le> k) (om_entries m)) = T"
proof (rule sorted_keys_ext)
  let ?L = "List.map_filter item (filter (\<lambda>(k, v). start \<le> k) (om_entries m))"
  have inj: "enc a < enc b \<longleftrightarrow> a < b" "enc a = enc b \<longleftrightarrow> a = b" for a b
    by (metis mono order_less_asym order_less_irrefl linorder_neqE)+
  have "sorted_keys (List.map_filter item xs)" if "sorted_keys xs" for xs :: "(bytes \<times> 'v) list"
    using that
  proof (induction xs)
    case (Cons x xs)
    have "fst y < fst z" if "item x = Some y" "z \<in> set (List.map_filter item xs)" for y z
    proof -
      obtain x' where "x' \<in> set xs" "item x' = Some z" using \<open>z \<in> _\<close> set_map_filter by metis
      moreover have "fst x < fst x'" using Cons.prems \<open>x' \<in> set xs\<close> by simp
      ultimately show ?thesis
        using \<open>item x = Some y\<close> item inj(1) by (metis prod.collapse)
    qed
    with Cons show ?case by (auto simp: map_filter_Cons split: option.splits)
  qed simp
  moreover have "sorted_keys (filter (\<lambda>(k, v). start \<le> k) (om_entries m))"
    using om_entries_sorted [of m] by (simp add: sorted_wrt_map sorted_wrt_filter)
  ultimately show L: "sorted_keys ?L" by blast
  show "map_of ?L = map_of T"
  proof (subst map_of_inject_set)
    show "distinct (map fst ?L)" "distinct (map fst T)"
      using L T(1) by (auto dest: sorted_keys_distinct)
    have "(a, w) \<in> set ?L \<longleftrightarrow> om_get m (enc a) \<noteq> None \<and> Option.bind (om_get m (enc a)) val = Some w" for a w
      using start [of a] by (auto simp: set_map_filter item om_entries_get split_beta bind_eq_Some_conv)
    moreover have "(a, w) \<in> set T \<longleftrightarrow> Option.bind (om_get m (enc a)) val = Some w" for a w
      using map_of_eq_Some_iff [OF sorted_keys_distinct [OF T(1)]] T(2) by metis
    ultimately show "set ?L = set T"
      by (auto simp: bind_eq_Some_conv)
  qed
qed (rule T(1))

section \<open>What the database stores for a ledger\<close>

definition db_contents :: "(bytes, bytes) omap \<Rightarrow> contents \<Rightarrow> bool" where
  "db_contents m x \<longleftrightarrow>
     (\<forall>cid. om_get m (contract_db_key cid)
        = map_option (\<lambda>(ch, wasm). contract_value ch wasm) (om_get (fst x) cid))
     \<and> (\<forall>cid key. om_get m (storage_db_key cid key) = om_get (snd x) (cid, key))"

definition db_heights :: "(bytes, bytes) omap \<Rightarrow> (height_record \<times> contents) list \<Rightarrow> bool" where
  "db_heights m bs \<longleftrightarrow>
     (\<forall>h. om_get m (height_db_key h) = map_option (\<lambda>r. bytes_of (hr_hash r) @ bytes_of (hr_root r))
        (map_of (map (\<lambda>(r, y). (hr_height r, r)) bs) h))"

definition small_contents :: "contents \<Rightarrow> bool" where
  "small_contents x \<longleftrightarrow>
     (\<forall>cid ch wasm. om_get (fst x) cid = Some (ch, wasm) \<longrightarrow> length wasm < 2 ^ 32)
     \<and> (\<forall>ck v. om_get (snd x) ck = Some v \<longrightarrow> length v < 2 ^ 32)"

fun db_chain :: "(bytes, bytes) omap \<Rightarrow> contents \<Rightarrow> (height_record \<times> contents) list \<Rightarrow> bool" where
  "db_chain m x [] \<longleftrightarrow> small_contents x"
| "db_chain m x ((r, y) # bs) \<longleftrightarrow>
     small_contents x
     \<and> (\<exists>bs. om_get m (undo_db_key (hr_height r)) = Some bs \<and> unwind_ops (decode_undo bs) x = y)
     \<and> db_chain m y bs"

definition db_meta :: "(bytes, bytes) omap \<Rightarrow> height_record option \<Rightarrow> bool" where
  "db_meta m r \<longleftrightarrow>
     om_get m key_mh = map_option (u32_to_be_bytes \<circ> hr_height) r
     \<and> om_get m key_mb = map_option (bytes_of \<circ> hr_hash) r
     \<and> om_get m key_mr = map_option (bytes_of \<circ> hr_root) r"

definition rocks_rel :: "('d \<Rightarrow> (bytes, bytes) omap) \<Rightarrow> 'd \<Rightarrow> ledger \<Rightarrow> bool" where
  "rocks_rel view d lg \<longleftrightarrow>
     heights_ok lg \<and> db_contents (view d) (lg_contents lg) \<and> db_heights (view d) (lg_blocks lg)
     \<and> db_chain (view d) (lg_contents lg) (lg_blocks lg) \<and> db_meta (view d) (spec_last lg)"

lemma db_contents_other [simp]:
  "db_contents (om_insert (height_db_key h) v m) x \<longleftrightarrow> db_contents m x"
  "db_contents (om_insert (undo_db_key h) v m) x \<longleftrightarrow> db_contents m x"
  "db_contents (om_insert key_mh v m) x \<longleftrightarrow> db_contents m x"
  "db_contents (om_insert key_mb v m) x \<longleftrightarrow> db_contents m x"
  "db_contents (om_insert key_mr v m) x \<longleftrightarrow> db_contents m x"
  "db_contents (om_remove (height_db_key h) m) x \<longleftrightarrow> db_contents m x"
  "db_contents (om_remove (undo_db_key h) m) x \<longleftrightarrow> db_contents m x"
  "db_contents (om_remove key_mh m) x \<longleftrightarrow> db_contents m x"
  "db_contents (om_remove key_mb m) x \<longleftrightarrow> db_contents m x"
  "db_contents (om_remove key_mr m) x \<longleftrightarrow> db_contents m x"
  by (simp_all add: db_contents_def)

lemma db_contents_deploys:
  "db_contents m (c, s) \<Longrightarrow> db_contents (apply_batch (deploy_puts ds) m) (apply_deploys ds c, s)"
proof (induction ds arbitrary: m c)
  case (Cons d ds)
  obtain cid ch wasm where d: "d = (cid, ch, wasm)" by (cases d)
  have "db_contents (om_insert (contract_db_key cid) (contract_value ch wasm) m) (om_insert cid (ch, wasm) c, s)"
    using Cons.prems by (simp add: db_contents_def)
  from Cons.IH [OF this] show ?case by (simp add: d deploy_puts_def)
qed (simp add: deploy_puts_def)

lemma db_contents_upserts:
  "db_contents m (c, s) \<Longrightarrow> db_contents (apply_batch (upsert_puts us) m) (c, apply_upserts us s)"
proof (induction us arbitrary: m s)
  case (Cons u us)
  obtain cid key val where u: "u = (cid, key, val)" by (cases u)
  have "db_contents (om_insert (storage_db_key cid key) val m) (c, om_insert (cid, key) val s)"
    using Cons.prems by (simp add: db_contents_def)
  from Cons.IH [OF this] show ?case by (simp add: u upsert_puts_def)
qed (simp add: upsert_puts_def)

lemma db_contents_deletes:
  assumes "db_contents m (c, s)" "\<And>ck. effective_value kv d us ck = None \<Longrightarrow> om_get s ck = None"
  shows "db_contents (apply_batch (delete_ops kv d us ks) m) (c, apply_deletes ks s)"
  using assms
proof (induction ks arbitrary: m s)
  case (Cons k ks)
  obtain cid key where k: "k = (cid, key)" by (cases k)
  have absent: "effective_value kv d us ck = None \<Longrightarrow> om_get (om_remove k s) ck = None" for ck
    using Cons.prems(2) by simp
  show ?case
  proof (cases "effective_value kv d us k")
    case None
    then have "om_remove k s = s" using Cons.prems(2) by (simp add: om.del_absent)
    then show ?thesis
      using Cons.IH [OF Cons.prems] None by (simp add: k delete_ops_def map_filter_Cons)
  next
    case (Some v)
    have "db_contents (om_remove (storage_db_key cid key) m) (c, om_remove k s)"
      using Cons.prems(1) by (simp add: db_contents_def k)
    from Cons.IH [OF this absent] show ?thesis
      using Some by (simp add: k delete_ops_def map_filter_Cons)
  qed
qed (simp add: delete_ops_def)

lemma db_contents_undo:
  "db_contents m x \<Longrightarrow> db_contents (apply_batch_op (undo_batch_op op) m) (apply_undo op x)"
proof (cases op)
  case (USet cid key prev)
  assume "db_contents m x"
  with USet show ?thesis by (cases x; cases prev) (auto simp: db_contents_def)
next
  case (UDelete cid key prev)
  assume "db_contents m x"
  with UDelete show ?thesis by (cases x) (auto simp: db_contents_def)
next
  case (UDeploy cid prev)
  assume "db_contents m x"
  with UDeploy show ?thesis
    by (cases x; cases prev) (auto simp: db_contents_def split: prod.splits)
qed

lemma db_contents_undos:
  "db_contents m x \<Longrightarrow> db_contents (apply_batch (map undo_batch_op (rev ops)) m) (unwind_ops ops x)"
  by (induction ops) (simp_all add: db_contents_undo)

text \<open>Data writes leave the heights, the journal and the metadata alone.\<close>

definition data_op :: "batch_op \<Rightarrow> bool" where
  "data_op op \<longleftrightarrow>
     (\<exists>cid v. op = BPut (contract_db_key cid) v) \<or> (\<exists>cid. op = BDelete (contract_db_key cid))
     \<or> (\<exists>cid key v. op = BPut (storage_db_key cid key) v) \<or> (\<exists>cid key. op = BDelete (storage_db_key cid key))"

lemma data_ops [simp]:
  "op \<in> set (deploy_puts ds) \<Longrightarrow> data_op op" "op \<in> set (upsert_puts us) \<Longrightarrow> data_op op"
  "op \<in> set (delete_ops kv d us ks) \<Longrightarrow> data_op op"
  by (auto simp: data_op_def deploy_puts_def upsert_puts_def delete_ops_def set_map_filter
      split: option.splits)

lemma data_op_undo [simp]: "data_op (undo_batch_op op)"
  by (cases op rule: undo_batch_op.cases) (auto simp: data_op_def)

lemma get_after_data_ops:
  "\<forall>op \<in> set ops. data_op op \<Longrightarrow>
     om_get (apply_batch ops m) (height_db_key h) = om_get m (height_db_key h)
     \<and> om_get (apply_batch ops m) (undo_db_key h) = om_get m (undo_db_key h)
     \<and> om_get (apply_batch ops m) key_mh = om_get m key_mh
     \<and> om_get (apply_batch ops m) key_mb = om_get m key_mb
     \<and> om_get (apply_batch ops m) key_mr = om_get m key_mr"
  by (induction ops arbitrary: m) (auto simp: data_op_def)

section \<open>Undo restores the previous contents\<close>

lemma apply_undo_reads [simp]:
  "snd (apply_undo (UDeploy cid p) x) = snd x"
  "om_get (fst (apply_undo (UDeploy cid p) x)) k = (if k = cid then p else om_get (fst x) k)"
  "fst (apply_undo (USet cid key q) x) = fst x"
  "om_get (snd (apply_undo (USet cid key q) x)) ck = (if ck = (cid, key) then q else om_get (snd x) ck)"
  "fst (apply_undo (UDelete cid key v) x) = fst x"
  "om_get (snd (apply_undo (UDelete cid key v) x)) ck
     = (if ck = (cid, key) then Some v else om_get (snd x) ck)"
  by (cases x; cases p; cases q; auto)+

lemma unwind_orig_deploys:
  "snd (unwind_ops (map (\<lambda>(cid, ch, wasm). UDeploy cid (om_get c cid)) ds) x) = snd x
   \<and> om_get (fst (unwind_ops (map (\<lambda>(cid, ch, wasm). UDeploy cid (om_get c cid)) ds) x)) k
      = (if k \<in> fst ` set ds then om_get c k else om_get (fst x) k)"
  by (induction ds) (auto simp: rev_image_eqI)

lemma upsert_keys: "fst ` set (upsert_bindings us) = (\<lambda>(cid, key, val). (cid, key)) ` set us"
  by (force simp: upsert_bindings_def)

lemma unwind_orig_upserts:
  "fst (unwind_ops (map (\<lambda>(cid, key, val). USet cid key (om_get s (cid, key))) us) x) = fst x
   \<and> om_get (snd (unwind_ops (map (\<lambda>(cid, key, val). USet cid key (om_get s (cid, key))) us) x)) ck
      = (if ck \<in> fst ` set (upsert_bindings us) then om_get s ck else om_get (snd x) ck)"
  by (induction us) (auto simp: upsert_keys rev_image_eqI)

lemma unwind_delete_undos:
  "fst (unwind_ops (delete_undos kv d us ks) x) = fst x
   \<and> om_get (snd (unwind_ops (delete_undos kv d us ks) x)) ck
      = (if ck \<in> set ks \<and> effective_value kv d us ck \<noteq> None then effective_value kv d us ck
         else om_get (snd x) ck)"
proof (induction ks)
  case (Cons k ks)
  obtain cid key where k: "k = (cid, key)" by (cases k)
  show ?case
  proof (cases "effective_value kv d us k")
    case None
    then have "delete_undos kv d us (k # ks) = delete_undos kv d us ks"
      by (simp add: delete_undos_def map_filter_Cons k)
    with None Cons show ?thesis by auto
  next
    case (Some v)
    then have "delete_undos kv d us (k # ks) = UDelete cid key v # delete_undos kv d us ks"
      by (simp add: delete_undos_def map_filter_Cons k)
    with Some Cons show ?thesis by (auto simp: k)
  qed
qed (simp add: delete_undos_def)

section \<open>Reads\<close>

lemma contract_item_iff:
  "contract_item (k, v) = Some (cid, w) \<longleftrightarrow>
     k = contract_db_key cid \<and>
     (if length v < 32 then None else Some (mk32 (take 32 v), drop 32 v)) = Some w"
proof
  assume "contract_item (k, v) = Some (cid, w)"
  then show "k = contract_db_key cid \<and>
     (if length v < 32 then None else Some (mk32 (take 32 v), drop 32 v)) = Some w"
    by (cases k) (auto simp: contract_item_def contract_db_key_def slice_def split: if_splits)
qed (auto simp: contract_item_def contract_db_key_def slice_def split: if_splits)

lemma storage_item_iff:
  "storage_item (k, v) = Some (ck, w) \<longleftrightarrow> k = storage_db_key (fst ck) (snd ck) \<and> Some v = Some w"
proof
  assume "storage_item (k, v) = Some (ck, w)"
  then show "k = storage_db_key (fst ck) (snd ck) \<and> Some v = Some w"
    by (cases k) (auto simp: storage_item_def storage_db_key_def slice_def append_take_drop_id
        split: if_splits)
qed (auto simp: storage_item_def storage_db_key_def slice_def split: if_splits)

lemma height_item_iff:
  "height_item (k, v) = Some (h, w) \<longleftrightarrow>
     k = height_db_key h \<and>
     (if length v \<noteq> 64 then None else Some (mk32 (slice 0 32 v), mk32 (slice 32 64 v))) = Some w"
proof
  assume "height_item (k, v) = Some (h, w)"
  then show "k = height_db_key h \<and>
     (if length v \<noteq> 64 then None else Some (mk32 (slice 0 32 v), mk32 (slice 32 64 v))) = Some w"
    by (cases k) (auto simp: height_item_def height_db_key_def u32_to_from_be slice_def split: if_splits)
qed (auto simp: height_item_def height_db_key_def slice_def split: if_splits)

lemma sorted_gt_distinct: "sorted_wrt (>) xs \<Longrightarrow> distinct (xs :: 'a::linorder list)"
  by (induction xs) auto

lemma map_of_map_pair:
  "map_of (map (\<lambda>r. (f r, g r)) xs) k = map_option g (map_of (map (\<lambda>r. (f r, r)) xs) k)"
  by (induction xs) auto

lemma map_of_entries [simp]: "map_of (om_entries m) k = om_get m k"
  by (simp add: om_get.rep_eq)

context kv_store begin

lemma kv_read_eq [simp]: "kv_read kv d k = om_get (view d) k"
  by (simp add: kv_read_def get)

lemma kv_items_eq: "kv_items kv d k = filter (\<lambda>(k', v). k \<le> k') (om_entries (view d))"
proof -
  have "List.map_filter (\<lambda>item. case item of Ok kv \<Rightarrow> Some kv | Err e \<Rightarrow> None) (map Ok xs) = xs"
    for xs :: "(bytes \<times> bytes) list"
    by (induction xs) (simp_all add: map_filter_Cons)
  then show ?thesis by (simp add: kv_items_def iter)
qed

lemma rocks_get_contract_eq:
  "db_contents (view d) x \<Longrightarrow> rocks_get_contract kv d cid = om_get (fst x) cid"
  by (auto simp: rocks_get_contract_def db_contents_def contract_value_def split: option.splits)

lemma rocks_contracts_eq:
  assumes "db_contents (view d) x"
  shows "rocks_contracts kv d = contract_list (fst x)"
  unfolding rocks_contracts_def contract_list_def kv_items_eq
proof (rule decode_keyspace [OF contract_key_mono contract_item_iff])
  fix cid
  show "map_of (om_entries (fst x)) cid = Option.bind (om_get (view d) (contract_db_key cid))
      (\<lambda>v. if length v < 32 then None else Some (mk32 (take 32 v), drop 32 v))"
    using assms by (cases "om_get (fst x) cid") (auto simp: db_contents_def contract_value_def)
qed (simp_all add: contract_db_key_def om_entries_sorted)

lemma rocks_storage_eq:
  assumes "db_contents (view d) x"
  shows "rocks_storage kv d = storage_list (snd x)"
proof -
  have "List.map_filter storage_item (kv_items kv d [0x73]) = om_entries (snd x)"
    unfolding kv_items_eq
  proof (rule decode_keyspace [where enc = "\<lambda>ck. storage_db_key (fst ck) (snd ck)" and val = Some])
    fix a b :: "contract_id \<times> bytes" assume "a < b"
    then show "storage_db_key (fst a) (snd a) < storage_db_key (fst b) (snd b)"
      by (intro storage_key_mono) simp
  next
    fix ck
    show "map_of (om_entries (snd x)) ck = Option.bind (om_get (view d) (storage_db_key (fst ck) (snd ck))) Some"
      using assms by (cases ck) (simp add: db_contents_def)
  qed (simp_all add: storage_item_iff storage_db_key_def om_entries_sorted)
  then show ?thesis by (simp add: rocks_storage_def storage_list_def)
qed

lemma rocks_compute_root_eq:
  "db_contents (view d) x \<Longrightarrow> rocks_compute_root blake kv d = contents_root blake x"
  by (simp add: rocks_compute_root_def contents_root_def rocks_contracts_eq rocks_storage_eq)

lemma rocks_height_history_eq:
  assumes "heights_ok lg" "db_heights (view d) (lg_blocks lg)"
  shows "rocks_height_history kv d = spec_history lg"
proof -
  let ?T = "map (\<lambda>r. (hr_height r, hr_hash r, hr_root r)) (spec_history lg)"
  have srt: "sorted_keys ?T"
    using assms(1) by (simp add: heights_ok_def spec_history_def rev_map [symmetric] sorted_wrt_rev o_def)
  have map_rev: "map_of (rev ys) k = map_of ys k" if "distinct (map fst ys)" for ys :: "(u32 \<times> 'b) list" and k
    using map_of_inject_set [of "rev ys" ys] that by (simp add: rev_map [symmetric])
  have "List.map_filter height_item (kv_items kv d [0x68]) = ?T"
    unfolding kv_items_eq
  proof (rule decode_keyspace [OF height_key_mono height_item_iff _ srt])
    fix h
    let ?bs = "map (\<lambda>(r, y). (hr_height r, r)) (lg_blocks lg)"
    have "distinct (map fst ?bs)"
      using sorted_gt_distinct assms(1) unfolding heights_ok_def by (simp add: case_prod_unfold o_def)
    then have "map_of (rev ?bs) h = map_of ?bs h" by (rule map_rev)
    moreover have "rev ?bs = map (\<lambda>r. (hr_height r, r)) (spec_history lg)"
      by (simp add: spec_history_def rev_map case_prod_unfold o_def)
    moreover have "map_of ?T h = map_option (\<lambda>r. (hr_hash r, hr_root r))
        (map_of (map (\<lambda>r. (hr_height r, r)) (spec_history lg)) h)"
      by (rule map_of_map_pair)
    ultimately show "map_of ?T h = Option.bind (om_get (view d) (height_db_key h))
      (\<lambda>v. if length v \<noteq> 64 then None else Some (mk32 (slice 0 32 v), mk32 (slice 32 64 v)))"
      using assms(2) by (cases "map_of ?bs h") (simp_all add: db_heights_def slice_def)
  qed (simp_all add: height_db_key_def)
  then show ?thesis
    by (simp add: rocks_height_history_def o_def) (rule map_idI, simp)
qed

section \<open>Commit\<close>

lemma effective_value_eq:
  "db_contents (view d) x \<Longrightarrow>
     effective_value kv d us ck = om_get (apply_upserts us (snd x)) ck"
  by (cases ck) (simp add: effective_value_def get_apply_upserts db_contents_def split: option.splits)

lemma db_contents_commit:
  assumes "db_contents (view d) x"
  shows "db_contents (apply_batch (commit_batch kv d c root) (view d)) (apply_commit c x)"
proof -
  obtain cs ss where x: "x = (cs, ss)" by (cases x)
  let ?m1 = "apply_batch (deploy_puts (bc_deploys c)) (view d)"
  let ?m2 = "apply_batch (upsert_puts (bc_upserts c)) ?m1"
  have "db_contents ?m1 (apply_deploys (bc_deploys c) cs, ss)"
    using assms db_contents_deploys x by blast
  then have "db_contents ?m2 (apply_deploys (bc_deploys c) cs, apply_upserts (bc_upserts c) ss)"
    by (rule db_contents_upserts)
  from db_contents_deletes [OF this, of kv d "bc_upserts c" "bc_deletes c"]
    effective_value_eq [OF assms, of "bc_upserts c"]
  have "db_contents (apply_batch (delete_ops kv d (bc_upserts c) (bc_deletes c)) ?m2)
      (apply_deploys (bc_deploys c) cs, apply_deletes (bc_deletes c) (apply_upserts (bc_upserts c) ss))"
    by (simp add: x)
  then show ?thesis
    by (simp add: commit_batch_def apply_commit_def x)
qed

lemma commit_undo_restores_rocks:
  assumes "db_contents (view d) x"
  shows "unwind_ops (commit_undo kv d c) (apply_commit c x) = x"
proof -
  obtain cs ss where x: "x = (cs, ss)" by (cases x)
  define us where "us = bc_upserts c"
  define s1 where "s1 = apply_deletes (bc_deletes c) (apply_upserts us ss)"
  define y where "y = (apply_deploys (bc_deploys c) cs, s1)"
  have sets: "upsert_undos kv d us = map (\<lambda>(cid, key, val). USet cid key (om_get ss (cid, key))) us"
    using assms by (simp add: upsert_undos_def db_contents_def x)
  have deps: "deploy_undos kv d ds = map (\<lambda>(cid, ch, wasm). UDeploy cid (om_get cs cid)) ds" for ds
    using rocks_get_contract_eq [OF assms] by (simp add: deploy_undos_def x)
  define y1 where "y1 = unwind_ops (delete_undos kv d us (bc_deletes c)) y"
  define y2 where "y2 = unwind_ops (upsert_undos kv d us) y1"
  define y3 where "y3 = unwind_ops (deploy_undos kv d (bc_deploys c)) y2"
  have y1: "fst y1 = fst y \<and> om_get (snd y1) ck = (if ck \<in> set (bc_deletes c)
       \<and> effective_value kv d us ck \<noteq> None then effective_value kv d us ck else om_get (snd y) ck)" for ck
    unfolding y1_def by (rule unwind_delete_undos)
  have y2: "fst y2 = fst y1 \<and> om_get (snd y2) ck =
      (if ck \<in> fst ` set (upsert_bindings us) then om_get ss ck else om_get (snd y1) ck)" for ck
    unfolding y2_def sets by (rule unwind_orig_upserts)
  have y3: "snd y3 = snd y2 \<and> om_get (fst y3) k =
      (if k \<in> fst ` set (bc_deploys c) then om_get cs k else om_get (fst y2) k)" for k
    unfolding y3_def deps by (rule unwind_orig_deploys)
  have notup: "map_of (rev (upsert_bindings us)) ck = None" if "ck \<notin> fst ` set (upsert_bindings us)" for ck
    using that by (auto simp: map_of_eq_None_iff)
  have "snd y3 = ss"
  proof (rule om_ext)
    fix ck
    show "om_get (snd y3) ck = om_get ss ck"
      using notup [of ck]
      by (auto simp: y3 y2 y1 y_def s1_def get_apply_deletes get_apply_upserts effective_value_eq [OF assms] x
          split: option.splits)
  qed
  moreover have "fst y3 = cs"
  proof (rule om_ext)
    fix k
    have "map_of (rev (bc_deploys c)) k = None" if "k \<notin> fst ` set (bc_deploys c)"
      using that by (auto simp: map_of_eq_None_iff)
    then show "om_get (fst y3) k = om_get cs k"
      by (auto simp: y3 y2 y1 y_def get_apply_deploys)
  qed
  ultimately show ?thesis
    by (simp add: commit_undo_def apply_commit_def x prod_eq_iff flip: us_def s1_def y_def y1_def y2_def y3_def)
qed

lemma map_of_small:
  assumes "map_of xs k = Some v" "\<forall>(k, v) \<in> set xs. P v"
  shows "P v"
  using map_of_SomeD [OF assms(1)] assms(2) by auto

lemma small_contents_commit:
  assumes "small_contents x" "small_commit c"
  shows "small_contents (apply_commit c x)"
proof -
  have "length v < 2 ^ 32" if "map_of (rev (upsert_bindings (bc_upserts c))) ck = Some v" for ck v
    using map_of_SomeD [OF that] assms(2) by (auto simp: upsert_bindings_def small_commit_def)
  moreover have "length wasm < 2 ^ 32" if "map_of (rev (bc_deploys c)) cid = Some (ch, wasm)" for cid ch wasm
    using map_of_SomeD [OF that] assms(2) by (auto simp: small_commit_def)
  ultimately show ?thesis
    using assms(1)
    by (auto simp: small_contents_def apply_commit_def get_apply_deploys get_apply_deletes
        get_apply_upserts split: option.splits if_splits)
qed

lemma small_commit_undo:
  assumes "db_contents (view d) x" "small_contents x" "small_commit c"
  shows "\<forall>op \<in> set (commit_undo kv d c). small_undo op" "length (commit_undo kv d c) < 2 ^ 32"
proof -
  have eff: "length v < 2 ^ 32" if "effective_value kv d (bc_upserts c) ck = Some v" for ck v
  proof -
    have "length v < 2 ^ 32" if "map_of (rev (upsert_bindings (bc_upserts c))) ck = Some v"
      using map_of_SomeD [OF that] assms(3) by (auto simp: upsert_bindings_def small_commit_def)
    then show ?thesis
      using that assms(2) effective_value_eq [OF assms(1), of "bc_upserts c" ck]
      by (cases ck) (auto simp: get_apply_upserts small_contents_def split: option.splits)
  qed
  have sto: "length v < 2 ^ 32" if "om_get (view d) (storage_db_key cid key) = Some v" for cid key v
    using that assms(1,2) by (auto simp: db_contents_def small_contents_def)
  have con: "length wasm < 2 ^ 32" if "rocks_get_contract kv d cid = Some (ch, wasm)" for cid ch wasm
    using that assms(2) rocks_get_contract_eq [OF assms(1)] by (auto simp: small_contents_def)
  show "\<forall>op \<in> set (commit_undo kv d c). small_undo op"
    using assms(3) eff sto con
    by (force simp: commit_undo_def deploy_undos_def upsert_undos_def delete_undos_def set_map_filter
        small_commit_def split: option.splits)
  have "length (List.map_filter f xs) \<le> length xs" for f :: "'a \<Rightarrow> 'b option" and xs
    by (simp add: List.map_filter_def)
  then have "length (delete_undos kv d (bc_upserts c) (bc_deletes c)) \<le> length (bc_deletes c)"
    by (simp add: delete_undos_def List.map_filter_def)
  then show "length (commit_undo kv d c) < 2 ^ 32"
    using assms(3) by (simp add: commit_undo_def deploy_undos_def upsert_undos_def small_commit_def)
qed

lemma commit_batch_view:
  assumes "next_height lg (bc_height c)" "rocks_rel view d lg"
    and "m = apply_batch (commit_batch kv d c root) (view d)"
  shows "om_get m (height_db_key h) =
      (if h = bc_height c then Some (bytes_of (bc_hash c) @ bytes_of root) else om_get (view d) (height_db_key h))"
    and "om_get m (undo_db_key h) =
      (if h = bc_height c then Some (encode_undo (commit_undo kv d c)) else om_get (view d) (undo_db_key h))"
    and "om_get m key_mh = Some (u32_to_be_bytes (bc_height c))"
    and "om_get m key_mb = Some (bytes_of (bc_hash c))" and "om_get m key_mr = Some (bytes_of root)"
proof -
  let ?data = "deploy_puts (bc_deploys c) @ upsert_puts (bc_upserts c)
     @ delete_ops kv d (bc_upserts c) (bc_deletes c)"
  have "\<forall>op \<in> set ?data. data_op op" by auto
  note this [THEN get_after_data_ops, of "view d"]
  then show "om_get m (height_db_key h) =
      (if h = bc_height c then Some (bytes_of (bc_hash c) @ bytes_of root) else om_get (view d) (height_db_key h))"
    "om_get m (undo_db_key h) =
      (if h = bc_height c then Some (encode_undo (commit_undo kv d c)) else om_get (view d) (undo_db_key h))"
    "om_get m key_mh = Some (u32_to_be_bytes (bc_height c))"
    "om_get m key_mb = Some (bytes_of (bc_hash c))" "om_get m key_mr = Some (bytes_of root)"
    by (simp_all add: assms(3) commit_batch_def)
qed

lemma db_chain_cong:
  assumes "\<forall>(r, y) \<in> set bs. om_get m' (undo_db_key (hr_height r)) = om_get m (undo_db_key (hr_height r))"
  shows "db_chain m' x bs \<longleftrightarrow> db_chain m x bs"
  using assms by (induction m x bs rule: db_chain.induct) auto

lemma db_chain_small: "db_chain m x bs \<Longrightarrow> small_contents x"
  by (cases bs) auto

lemma blocks_below:
  assumes "heights_ok lg" "next_height lg h" "(r, y) \<in> set (lg_blocks lg)"
  shows "hr_height r < h"
proof (cases "lg_blocks lg")
  case (Cons b bs)
  then show ?thesis
    using assms by (cases b) (force simp: heights_ok_def next_height_def spec_last_def)
qed (use assms in simp)

lemma rocks_commit_rel:
  assumes rel: "rocks_rel view d lg" and next_h: "next_height lg (bc_height c)" and small: "small_commit c"
    and run: "rocks_commit_block blake kv d c = (d', r)"
  shows "case r of Ok root \<Rightarrow> rocks_rel view d' (spec_commit blake c lg)
        \<and> root = contents_root blake (apply_commit c (lg_contents lg))
      | Err e \<Rightarrow> e = WriteFailed \<and> rocks_rel view d' lg"
proof -
  let ?x = "lg_contents lg"
  have con: "db_contents (view d) ?x" and hts: "db_heights (view d) (lg_blocks lg)"
    and chain: "db_chain (view d) ?x (lg_blocks lg)" and ok: "heights_ok lg"
    using rel by (simp_all add: rocks_rel_def)
  let ?root = "contents_root blake (apply_commit c ?x)"
  have root: "projected_root_of blake (rocks_contracts kv d) (rocks_storage kv d) c = ?root"
    using projected_root_of_contents [of blake "fst ?x" "snd ?x" c]
    by (simp add: rocks_contracts_eq [OF con] rocks_storage_eq [OF con])
  obtain d1 w where w: "kv_write kv d (commit_batch kv d c ?root) = (d1, w)" by fastforce
  show ?thesis
  proof (cases w)
    case (Inl e)
    then have "view d1 = view d" using write_batch [OF w] by simp
    moreover have "d' = d1" "r = Err WriteFailed"
      using run w root Inl by (simp_all add: rocks_commit_block_def Let_def)
    ultimately show ?thesis using rel by (simp add: rocks_rel_def)
  next
    case (Inr u)
    let ?m = "apply_batch (commit_batch kv d c ?root) (view d)"
    have v: "view d1 = ?m" using write_batch [OF w] Inr by simp
    have con': "db_contents (view d1) (apply_commit c ?x)"
      using db_contents_commit [OF con, of c ?root] v by simp
    then have "rocks_compute_root blake kv d1 = ?root" by (rule rocks_compute_root_eq)
    then have run': "d' = d1" "r = Ok ?root"
      using run w root Inr by (simp_all add: rocks_commit_block_def Let_def)
    note get' = commit_batch_view [OF next_h rel v]
    have below: "hr_height r' < bc_height c" if "(r', y) \<in> set (lg_blocks lg)" for r' y
      using blocks_below [OF ok next_h that] .
    have small_x: "small_contents ?x" using chain by (rule db_chain_small)
    have "decode_undo (encode_undo (commit_undo kv d c)) = commit_undo kv d c"
      using small_commit_undo [OF con small_x small] by (intro decode_encode_undo)
    then have undo: "unwind_ops (decode_undo (encode_undo (commit_undo kv d c))) (apply_commit c ?x) = ?x"
      using commit_undo_restores_rocks [OF con] by simp
    have chain': "db_chain (view d1) ?x (lg_blocks lg)"
      using chain below by (subst db_chain_cong [where m = "view d"]) (fastforce simp: get')+
    have "rocks_rel view d1 (spec_commit blake c lg)"
      unfolding rocks_rel_def
    proof (intro conjI)
      show "heights_ok (spec_commit blake c lg)" using ok next_h by (rule heights_ok_commit)
      show "db_contents (view d1) (lg_contents (spec_commit blake c lg))"
        using con' by (simp add: spec_commit_def Let_def)
      show "db_heights (view d1) (lg_blocks (spec_commit blake c lg))"
        using hts by (simp add: db_heights_def spec_commit_def Let_def get')
      show "db_chain (view d1) (lg_contents (spec_commit blake c lg)) (lg_blocks (spec_commit blake c lg))"
        using chain' undo small_contents_commit [OF small_x small]
        by (simp add: spec_commit_def Let_def get')
      show "db_meta (view d1) (spec_last (spec_commit blake c lg))"
        by (simp add: db_meta_def get')
    qed
    then show ?thesis by (simp add: run')
  qed
qed

section \<open>Rollback\<close>

text \<open>One height: the batch takes the contents db1 and removes the height record.\<close>

lemma rollback_batch_view:
  assumes "m' = apply_batch (rollback_batch h ops) m" "db_contents m x"
  shows "db_contents m' (unwind_ops ops x)"
    and "om_get m' (height_db_key h') = (if h' = h then None else om_get m (height_db_key h'))"
    and "om_get m' (undo_db_key h') = (if h' = h then None else om_get m (undo_db_key h'))"
proof -
  have "\<forall>op \<in> set (map undo_batch_op (rev ops)). data_op op" by auto
  note this [THEN get_after_data_ops, of m]
  then show "om_get m' (height_db_key h') = (if h' = h then None else om_get m (height_db_key h'))"
    "om_get m' (undo_db_key h') = (if h' = h then None else om_get m (undo_db_key h'))"
    by (simp_all add: assms(1) rollback_batch_def)
  show "db_contents m' (unwind_ops ops x)"
    using db_contents_undos [OF assms(2)] by (simp add: assms(1) rollback_batch_def)
qed

lemma db_heights_remove:
  assumes "db_heights m ((r, y) # bs)" "\<forall>(r', y') \<in> set bs. hr_height r' \<noteq> hr_height r"
    and "\<And>h'. om_get m' (height_db_key h') = (if h' = hr_height r then None else om_get m (height_db_key h'))"
  shows "db_heights m' bs"
proof -
  have "map_of (map (\<lambda>(r, y). (hr_height r, r)) bs) (hr_height r) = None"
    using assms(2) by (auto simp: map_of_eq_None_iff)
  then show ?thesis
    using assms(1,3) by (auto simp: db_heights_def)
qed

definition heights_above :: "u32 \<Rightarrow> (height_record \<times> contents) list \<Rightarrow> u32 list" where
  "heights_above t bs = filter (\<lambda>h. h > t) (map (hr_height \<circ> fst) bs)"

lemma rocks_rollback_loop:
  assumes "sorted_wrt (>) (map (hr_height \<circ> fst) bs)"
    and "db_contents (view d) x" "db_heights (view d) bs" "db_chain (view d) x bs"
    and "rocks_rollback_heights kv (heights_above t bs) d = (d', Ok ())"
    and "unwind t x bs = (x', bs')"
  shows "db_contents (view d') x' \<and> db_heights (view d') bs' \<and> db_chain (view d') x' bs'"
  using assms
proof (induction bs arbitrary: d x)
  case Nil
  then show ?case by (simp add: heights_above_def)
next
  case (Cons b bs)
  obtain r y where b: "b = (r, y)" by (cases b)
  show ?case
  proof (cases "hr_height r > t")
    case False
    then have "heights_above t (b # bs) = []"
      using Cons.prems(1) b by (force simp: heights_above_def filter_empty_conv)
    with False Cons.prems show ?thesis by (auto simp: b)
  next
    case True
    let ?h = "hr_height r"
    obtain bytes where u: "om_get (view d) (undo_db_key ?h) = Some bytes"
      "unwind_ops (decode_undo bytes) x = y" "db_chain (view d) y bs"
      using Cons.prems(4) b by auto
    obtain d1 w where w: "kv_write kv d (rollback_batch ?h (decode_undo bytes)) = (d1, w)" by fastforce
    have hs: "heights_above t (b # bs) = ?h # heights_above t bs"
      using True b by (simp add: heights_above_def)
    have run: "w = Ok ()" "rocks_rollback_heights kv (heights_above t bs) d1 = (d', Ok ())"
      using Cons.prems(5) by (auto simp: hs u(1) w split: sum.splits)
    have v: "view d1 = apply_batch (rollback_batch ?h (decode_undo bytes)) (view d)"
      using write_batch [OF w] run(1) by simp
    note get' = rollback_batch_view [OF v Cons.prems(2)]
    have ne: "\<forall>(r', y') \<in> set bs. hr_height r' \<noteq> ?h"
      using Cons.prems(1) b by force
    show ?thesis
    proof (rule Cons.IH [OF _ _ _ _ run(2)])
      show "db_contents (view d1) y" using get'(1) u(2) by simp
      show "db_heights (view d1) bs"
        using db_heights_remove [OF _ ne get'(2)] Cons.prems(3) b by simp
      show "db_chain (view d1) y bs"
        using u(3) ne by (subst db_chain_cong [where m = "view d"]) (auto simp: get'(3))
      show "unwind t y bs = (x', bs')"
        using Cons.prems(6) True b by simp
    qed (use Cons.prems(1) in simp)
  qed
qed

lemma restore_keys_other:
  "db_heights (om_insert key_mh v m) bs \<longleftrightarrow> db_heights m bs" "db_heights (om_insert key_mb v m) bs \<longleftrightarrow> db_heights m bs"
  "db_heights (om_insert key_mr v m) bs \<longleftrightarrow> db_heights m bs" "db_heights (om_remove key_mh m) bs \<longleftrightarrow> db_heights m bs"
  "db_heights (om_remove key_mb m) bs \<longleftrightarrow> db_heights m bs" "db_heights (om_remove key_mr m) bs \<longleftrightarrow> db_heights m bs"
  by (simp_all add: db_heights_def)

lemma restore_keys_chain:
  "db_chain (om_insert key_mh v m) x bs \<longleftrightarrow> db_chain m x bs" "db_chain (om_insert key_mb v m) x bs \<longleftrightarrow> db_chain m x bs"
  "db_chain (om_insert key_mr v m) x bs \<longleftrightarrow> db_chain m x bs" "db_chain (om_remove key_mh m) x bs \<longleftrightarrow> db_chain m x bs"
  "db_chain (om_remove key_mb m) x bs \<longleftrightarrow> db_chain m x bs" "db_chain (om_remove key_mr m) x bs \<longleftrightarrow> db_chain m x bs"
  by (rule db_chain_cong; simp)+

lemma kv_puts_view:
  "kv_puts kv kvs d = (d', Ok ()) \<Longrightarrow> view d' = fold (\<lambda>(k, v). om_insert k v) kvs (view d)"
  by (induction kvs arbitrary: d) (auto split: prod.splits sum.splits dest!: put_one)

lemma kv_deletes_view:
  "kv_deletes kv ks d = (d', Ok ()) \<Longrightarrow> view d' = fold om_remove ks (view d)"
  by (induction ks arbitrary: d) (auto split: prod.splits sum.splits dest!: delete_one)

lemma rocks_rollback_rel:
  assumes rel: "rocks_rel view d lg" and run: "rocks_rollback_to kv d t = (d', Ok ())"
  shows "rocks_rel view d' (spec_rollback t lg)"
proof -
  let ?bs = "lg_blocks lg"
  obtain x bs' where u: "unwind t (lg_contents lg) ?bs = (x, bs')" by fastforce
  have ok: "heights_ok lg" using rel by (simp add: rocks_rel_def)
  have srt: "sorted_wrt (>) (map (hr_height \<circ> fst) ?bs)" using ok by (simp add: heights_ok_def)
  have hist: "rocks_height_history kv d = spec_history lg"
    using rel by (intro rocks_height_history_eq) (simp_all add: rocks_rel_def)
  have "sorted (filter (\<lambda>h. h > t) (map hr_height (spec_history lg)))"
  proof (rule sorted_wrt_filter)
    have "sorted_wrt (<) (map hr_height (spec_history lg))"
      using srt by (simp add: spec_history_def rev_map [symmetric] sorted_wrt_rev o_def)
    then show "sorted (map hr_height (spec_history lg))" by (simp add: strict_sorted_iff)
  qed
  then have hs: "rev (sort (filter (\<lambda>h. h > t) (map hr_height (rocks_height_history kv d)))) = heights_above t ?bs"
    by (simp add: hist sorted_sort_id)
      (simp add: heights_above_def spec_history_def rev_filter rev_map [symmetric] o_def)
  obtain d1 where d1: "rocks_rollback_heights kv (heights_above t ?bs) d = (d1, Ok ())"
    "rocks_restore_metadata kv d1 = (d', Ok ())"
    using run by (auto simp: rocks_rollback_to_def Let_def hs split: prod.splits sum.splits)
  let ?lg = "spec_rollback t lg"
  have lg': "lg_contents ?lg = x" "lg_blocks ?lg = bs'" by (simp_all add: spec_rollback_def u)
  have db1: "db_contents (view d1) x \<and> db_heights (view d1) bs' \<and> db_chain (view d1) x bs'"
    using rel rocks_rollback_loop [OF srt _ _ _ d1(1) u] by (simp add: rocks_rel_def)
  have ok': "heights_ok ?lg" using ok by (rule heights_ok_rollback)
  have hist': "rocks_height_history kv d1 = spec_history ?lg"
    using rocks_height_history_eq [OF ok'] db1 by (simp add: lg')
  have last: "spec_last ?lg = (if spec_history ?lg = [] then None else Some (last (spec_history ?lg)))"
    by (cases "lg_blocks ?lg") (auto simp: spec_last_def spec_history_def)
  show ?thesis
  proof (cases "spec_history ?lg = []")
    case True
    then have "view d' = om_remove key_mr (om_remove key_mb (om_remove key_mh (view d1)))"
      using kv_deletes_view [of "[key_mh, key_mb, key_mr]" d1 d'] d1(2)
      by (simp add: rocks_restore_metadata_def hist' Let_def)
    with True db1 ok' last show ?thesis
      by (simp add: rocks_rel_def lg' restore_keys_other restore_keys_chain db_meta_def)
  next
    case False
    let ?r = "last (spec_history ?lg)"
    have "view d' = om_insert key_mr (bytes_of (hr_root ?r)) (om_insert key_mb (bytes_of (hr_hash ?r))
        (om_insert key_mh (u32_to_be_bytes (hr_height ?r)) (view d1)))"
      using kv_puts_view [of "[(key_mh, u32_to_be_bytes (hr_height ?r)), (key_mb, bytes_of (hr_hash ?r)),
          (key_mr, bytes_of (hr_root ?r))]" d1 d'] d1(2) False
      by (simp add: rocks_restore_metadata_def hist' Let_def)
    with False db1 ok' last show ?thesis
      by (simp add: rocks_rel_def lg' restore_keys_other restore_keys_chain db_meta_def)
  qed
qed

lemma db_meta_reads:
  assumes "db_meta (view d) r"
  shows "rocks_indexed_height kv d = map_option hr_height r
    \<and> rocks_indexed_block_hash kv d = map_option hr_hash r
    \<and> rocks_persisted_state_root kv d = map_option hr_root r"
  using assms
  by (cases r) (simp_all add: db_meta_def rocks_indexed_height_def rocks_indexed_block_hash_def
      rocks_persisted_state_root_def read_b32_def)

text \<open>Between the batch of a height and the metadata writes the database still names the height
  it has rolled back.\<close>

lemma rollback_batch_leaves_metadata:
  assumes rel: "rocks_rel view d lg" and blocks: "lg_blocks lg = (r, y) # bs"
    and run: "rocks_rollback_heights kv [hr_height r] d = (d', Ok ())"
  shows "rocks_indexed_height kv d' = Some (hr_height r) \<and> rocks_compute_root blake kv d' = contents_root blake y"
proof -
  have con: "db_contents (view d) (lg_contents lg)" using rel by (simp add: rocks_rel_def)
  obtain bytes where u: "om_get (view d) (undo_db_key (hr_height r)) = Some bytes"
    "unwind_ops (decode_undo bytes) (lg_contents lg) = y"
    using rel blocks by (auto simp: rocks_rel_def)
  obtain d1 w where w: "kv_write kv d (rollback_batch (hr_height r) (decode_undo bytes)) = (d1, w)" by fastforce
  have run': "w = Ok ()" "d' = d1" using run by (auto simp: u(1) w split: sum.splits)
  have v: "view d1 = apply_batch (rollback_batch (hr_height r) (decode_undo bytes)) (view d)"
    using write_batch [OF w] run'(1) by simp
  have "\<forall>op \<in> set (map undo_batch_op (rev (decode_undo bytes))). data_op op" by auto
  note this [THEN get_after_data_ops, of "view d"]
  then have "om_get (view d1) key_mh = om_get (view d) key_mh"
    by (simp add: v rollback_batch_def)
  then have "rocks_indexed_height kv d1 = rocks_indexed_height kv d"
    by (simp add: rocks_indexed_height_def)
  moreover have "rocks_indexed_height kv d = Some (hr_height r)"
    using db_meta_reads [of d "spec_last lg"] rel blocks by (simp add: rocks_rel_def spec_last_def)
  moreover have "db_contents (view d1) y"
    using rollback_batch_view(1) [OF v con] u(2) by simp
  ultimately show ?thesis
    using rocks_compute_root_eq [of d1 y blake] by (simp add: run'(2))
qed

end

section \<open>Execution records are kept apart\<close>

lemma exec_keys_distinct:
  "exec_db_key t \<noteq> contract_db_key c" "exec_db_key t \<noteq> storage_db_key c k" "exec_db_key t \<noteq> height_db_key h"
  "exec_db_key t \<noteq> undo_db_key h" "exec_db_key t \<noteq> key_mh" "exec_db_key t \<noteq> key_mb" "exec_db_key t \<noteq> key_mr"
  "exec_height_db_key g \<noteq> contract_db_key c" "exec_height_db_key g \<noteq> storage_db_key c k"
  "exec_height_db_key g \<noteq> height_db_key h" "exec_height_db_key g \<noteq> undo_db_key h"
  "exec_height_db_key g \<noteq> key_mh" "exec_height_db_key g \<noteq> key_mb" "exec_height_db_key g \<noteq> key_mr"
  by (simp_all add: db_key_defs)

lemma get_after_exec_batch:
  assumes "exec_batch to_json es = Some ops"
    and "\<forall>t. k \<noteq> exec_db_key t" "\<forall>g. k \<noteq> exec_height_db_key g"
  shows "om_get (apply_batch ops m) k = om_get m k"
  using assms(1)
proof (induction es arbitrary: ops m)
  case (Cons e es)
  then obtain json ops' where "exec_batch to_json es = Some ops'"
    "ops = BPut (exec_db_key (ex_txid e)) json # BPut (exec_height_db_key (ex_block_height e)) [] # ops'"
    by (auto split: option.splits)
  with Cons.IH assms(2,3) show ?case by simp
qed simp

context kv_store begin

lemma rocks_rel_cong:
  assumes "rocks_rel view d lg"
    and "\<And>k. \<forall>t. k \<noteq> exec_db_key t \<Longrightarrow> \<forall>g. k \<noteq> exec_height_db_key g \<Longrightarrow>
      om_get (view d') k = om_get (view d) k"
  shows "rocks_rel view d' lg"
proof -
  have same: "om_get (view d') (contract_db_key c) = om_get (view d) (contract_db_key c)"
    "om_get (view d') (storage_db_key c key) = om_get (view d) (storage_db_key c key)"
    "om_get (view d') (height_db_key h) = om_get (view d) (height_db_key h)"
    "om_get (view d') (undo_db_key h) = om_get (view d) (undo_db_key h)"
    "om_get (view d') key_mh = om_get (view d) key_mh" "om_get (view d') key_mb = om_get (view d) key_mb"
    "om_get (view d') key_mr = om_get (view d) key_mr" for c key h
    by (rule assms(2); metis exec_keys_distinct)+
  have "db_chain (view d') x bs \<longleftrightarrow> db_chain (view d) x bs" for x bs
    by (rule db_chain_cong) (simp add: same)
  then show ?thesis
    using assms(1) by (simp add: rocks_rel_def db_contents_def db_heights_def db_meta_def same)
qed

lemma rocks_save_rel:
  assumes "rocks_rel view d lg" "rocks_save_executions to_json kv d es = (d', r)"
  shows "rocks_rel view d' lg"
  using assms(1)
proof (rule rocks_rel_cong)
  fix k assume k: "\<forall>t. k \<noteq> exec_db_key t" "\<forall>g. k \<noteq> exec_height_db_key g"
  show "om_get (view d') k = om_get (view d) k"
  proof (cases "exec_batch to_json es")
    case None
    then show ?thesis using assms(2) by (simp add: rocks_save_executions_def)
  next
    case (Some batch)
    obtain d1 w where w: "kv_write kv d batch = (d1, w)" by (cases "kv_write kv d batch")
    then have "d' = d1"
      using assms(2) by (auto simp: rocks_save_executions_def Some split: sum.splits)
    then show ?thesis
      using write_batch [OF w] get_after_exec_batch [OF Some k] by (cases w) simp_all
  qed
qed

end

sublocale kv_store < rocks: state_store "rocks_ops blake to_json from_json kv" "rocks_rel view" blake
  for blake to_json from_json
proof (unfold_locales)
  fix d lg c d' r
  assume "rocks_rel view d lg" "next_height lg (bc_height c)" "small_commit c"
    and "so_commit_block (rocks_ops blake to_json from_json kv) d c = (d', r)"
  then show "case r of Err e \<Rightarrow> rocks_rel view d' lg
    | Ok root \<Rightarrow> rocks_rel view d' (spec_commit blake c lg)
        \<and> root = contents_root blake (apply_commit c (lg_contents lg))"
    using rocks_commit_rel [of d lg c blake d' r] by (auto simp: rocks_ops_def split: sum.splits)
next
  fix d lg t d'
  assume "rocks_rel view d lg" "so_rollback_to (rocks_ops blake to_json from_json kv) d t = (d', Ok ())"
  then show "rocks_rel view d' (spec_rollback t lg)"
    by (simp add: rocks_ops_def rocks_rollback_rel)
next
  fix d lg cid
  assume "rocks_rel view d lg"
  then show "so_has_contract (rocks_ops blake to_json from_json kv) d cid
      \<longleftrightarrow> om_get (fst (lg_contents lg)) cid \<noteq> None"
    by (simp add: rocks_ops_def rocks_has_contract_def rocks_rel_def db_contents_def)
next
  fix d lg cid key
  assume "rocks_rel view d lg"
  then show "so_storage_get (rocks_ops blake to_json from_json kv) d cid key
      = om_get (snd (lg_contents lg)) (cid, key)"
    by (simp add: rocks_ops_def rocks_storage_get_def rocks_rel_def db_contents_def)
next
  fix d lg es d' and r' :: "(state_error, unit) result"
  assume "rocks_rel view d lg" "so_save_executions (rocks_ops blake to_json from_json kv) d es = (d', r')"
  then show "rocks_rel view d' lg"
    by (simp add: rocks_ops_def rocks_save_rel)
qed (auto simp: rocks_ops_def rocks_rel_def rocks_get_contract_eq rocks_contracts_eq rocks_storage_eq
    rocks_compute_root_eq rocks_height_history_eq db_meta_reads)

section \<open>Databases that do not fail\<close>

locale reliable_kv = kv_store +
  assumes write_ok: "snd (kv_write kv d b) = Ok ()" and put_ok: "snd (kv_put kv d k v) = Ok ()"
    and delete_ok: "snd (kv_delete kv d k) = Ok ()"
begin

lemma commit_total:
  assumes "rocks_rel view d lg" "next_height lg (bc_height c)" "small_commit c"
  shows "\<exists>d'. rocks_commit_block blake kv d c
    = (d', Ok (contents_root blake (apply_commit c (lg_contents lg))))"
proof -
  obtain d' r where run: "rocks_commit_block blake kv d c = (d', r)" by fastforce
  have "r \<noteq> Err WriteFailed"
    using run write_ok [of d "commit_batch kv d c (projected_root_of blake (rocks_contracts kv d) (rocks_storage kv d) c)"]
    by (auto simp: rocks_commit_block_def Let_def split: prod.splits if_splits)
  with rocks_commit_rel [OF assms run] run show ?thesis by (auto split: sum.splits)
qed

lemma kv_puts_ok: "snd (kv_puts kv kvs d) = Ok ()"
proof (induction kvs arbitrary: d)
  case (Cons x kvs)
  then show ?case
    using put_ok [of d "fst x" "snd x"] by (cases x) (auto split: prod.splits sum.splits)
qed simp

lemma kv_deletes_ok: "snd (kv_deletes kv ks d) = Ok ()"
proof (induction ks arbitrary: d)
  case (Cons k ks)
  then show ?case using delete_ok [of d k] by (auto split: prod.splits sum.splits)
qed simp

lemma rollback_heights_ok: "snd (rocks_rollback_heights kv hs d) = Ok ()"
proof (induction hs arbitrary: d)
  case (Cons h hs)
  then show ?case
    using write_ok by (auto split: prod.splits sum.splits option.splits) (metis Inr_Inl_False snd_conv)
qed simp

lemma rollback_total: "\<exists>d'. rocks_rollback_to kv d t = (d', Ok ())"
proof -
  have "snd (rocks_restore_metadata kv d) = Ok ()" for d
    by (simp add: rocks_restore_metadata_def Let_def kv_puts_ok kv_deletes_ok del: kv_puts.simps kv_deletes.simps)
  then have "snd (rocks_rollback_to kv d t) = Ok ()"
    using rollback_heights_ok
    by (auto simp: rocks_rollback_to_def Let_def split: prod.splits sum.splits) (metis Inr_Inl_False snd_conv)
  then show ?thesis by (metis prod.collapse)
qed

end

text \<open>A database that does not fail, with execution records that serialize.\<close>

locale json_kv = reliable_kv +
  fixes blake :: blake and to_json :: "execution \<Rightarrow> bytes option" and from_json :: "bytes \<Rightarrow> execution option"
  assumes serializes: "to_json ex \<noteq> None"
begin

lemma exec_batch_total: "\<exists>batch. exec_batch to_json es = Some batch"
proof (induction es)
  case (Cons ex es)
  then show ?case using serializes [of ex] by auto
qed simp

end

sublocale json_kv < total: total_store "rocks_ops blake to_json from_json kv" "rocks_rel view" blake
proof (unfold_locales)
  fix d lg c assume "rocks_rel view d lg" "next_height lg (bc_height c)" "small_commit c"
  then show "\<exists>d' root. so_commit_block (rocks_ops blake to_json from_json kv) d c = (d', Ok root)"
    using commit_total [of d lg c blake] by (auto simp: rocks_ops_def)
next
  fix d t
  show "\<exists>d'. so_rollback_to (rocks_ops blake to_json from_json kv) d t = (d', Ok ())"
    using rollback_total [of d t] by (simp add: rocks_ops_def)
next
  fix d es
  obtain batch where "exec_batch to_json es = Some batch" using exec_batch_total by blast
  then show "\<exists>d'. so_save_executions (rocks_ops blake to_json from_json kv) d es = (d', Ok ())"
    using write_ok [of d batch]
    by (auto simp: rocks_ops_def rocks_save_executions_def split: prod.splits sum.splits)
qed

text \<open>A database held in memory, for concrete examples.\<close>

definition map_kv :: "(bytes, bytes) omap kv_ops" where
  "map_kv =
     \<lparr>kv_get = (\<lambda>d k. Ok (om_get d k)),
      kv_iter = (\<lambda>d k. map Ok (filter (\<lambda>(k', _). k \<le> k') (om_entries d))),
      kv_write = (\<lambda>d b. (apply_batch b d, Ok ())),
      kv_put = (\<lambda>d k v. (om_insert k v d, Ok ())),
      kv_delete = (\<lambda>d k. (om_remove k d, Ok ()))\<rparr>"

interpretation map_db: reliable_kv map_kv "\<lambda>d. d"
  by unfold_locales (auto simp: map_kv_def)

interpretation map_json: json_kv map_kv "\<lambda>d. d" blake "\<lambda>ex. Some []" from_json for blake from_json
  by unfold_locales simp

end
