(* ===== verification/State_Mem.thy ===== *)
theory State_Mem
  imports State_Spec
begin

text \<open>
  \<open>MemoryState\<close> of the crate \<open>zalkanes-state\<close> (\<open>lib.rs\<close>) and the proof that it
  implements the ledger of \<open>State_Spec\<close>.
\<close>

section \<open>The store\<close>

record memory_state =
  ms_contracts :: contracts
  ms_storage :: storage
  ms_indexed_height :: "u32 option"
  ms_indexed_block_hash :: "block_hash option"
  ms_persisted_root :: "state_root option"
  ms_history :: "height_record list"
  ms_undo :: "(u32, undo_op list) omap"
  ms_executions :: "(tx_id, execution) omap"

definition memory_new :: memory_state where
  "memory_new =
     \<lparr>ms_contracts = om_empty, ms_storage = om_empty, ms_indexed_height = None,
      ms_indexed_block_hash = None, ms_persisted_root = None, ms_history = [],
      ms_undo = om_empty, ms_executions = om_empty\<rparr>"

definition mem_compute_root :: "blake \<Rightarrow> memory_state \<Rightarrow> state_root" where
  "mem_compute_root blake m =
     root_from_leaves blake
       (leaves_of blake (contract_list (ms_contracts m)) (storage_list (ms_storage m)))"

text \<open>The three loops of \<open>commit_block\<close> with what they record.\<close>

fun mem_deploys ::
    "(contract_id \<times> code_hash \<times> bytes) list \<Rightarrow> contracts \<Rightarrow> contracts \<times> (code_hash \<times> bytes) option list" where
  "mem_deploys [] c = (c, [])"
| "mem_deploys ((cid, ch, wasm) # ds) c =
     (let prev = om_get c cid; (c', prevs) = mem_deploys ds (om_insert cid (ch, wasm) c) in
      (c', prev # prevs))"

fun mem_upserts :: "(contract_id \<times> bytes \<times> bytes) list \<Rightarrow> storage \<Rightarrow> storage \<times> undo_op list" where
  "mem_upserts [] s = (s, [])"
| "mem_upserts ((cid, key, val) # us) s =
     (let prev = om_get s (cid, key); (s', undo) = mem_upserts us (om_insert (cid, key) val s) in
      (s', USet cid key prev # undo))"

fun mem_deletes :: "(contract_id \<times> bytes) list \<Rightarrow> storage \<Rightarrow> storage \<times> undo_op list" where
  "mem_deletes [] s = (s, [])"
| "mem_deletes ((cid, key) # ks) s =
     (let prev = om_get s (cid, key); (s', undo) = mem_deletes ks (om_remove (cid, key) s) in
      (s', case prev of Some p \<Rightarrow> UDelete cid key p # undo | None \<Rightarrow> undo))"

definition mem_commit_block ::
    "blake \<Rightarrow> memory_state \<Rightarrow> block_commit \<Rightarrow> memory_state \<times> (state_error, state_root) result" where
  "mem_commit_block blake m commit =
     (let (contracts', deploy_prevs) = mem_deploys (bc_deploys commit) (ms_contracts m);
          (storage1, undo_sets) = mem_upserts (bc_upserts commit) (ms_storage m);
          (storage2, undo_dels) = mem_deletes (bc_deletes commit) storage1;
          undo = undo_sets @ undo_dels
            @ map (\<lambda>((cid, _, _), prev). UDeploy cid prev) (zip (bc_deploys commit) deploy_prevs);
          m = m\<lparr>ms_contracts := contracts', ms_storage := storage2\<rparr>;
          root = mem_compute_root blake m in
      (m\<lparr>ms_indexed_height := Some (bc_height commit),
         ms_indexed_block_hash := Some (bc_hash commit),
         ms_persisted_root := Some root,
         ms_history := ms_history m @
           [\<lparr>hr_height = bc_height commit, hr_hash = bc_hash commit, hr_root = root\<rparr>],
         ms_undo := om_insert (bc_height commit) undo (ms_undo m)\<rparr>,
       Ok root))"

text \<open>The body of the rollback loop and the restoration of the metadata.\<close>

definition mem_rollback_height :: "u32 \<Rightarrow> u32 \<Rightarrow> memory_state \<Rightarrow> memory_state" where
  "mem_rollback_height target h m =
     (let m = (case om_get (ms_undo m) h of
            None \<Rightarrow> m
          | Some ops \<Rightarrow>
              (case unwind_ops ops (ms_contracts m, ms_storage m) of
                 (c, s) \<Rightarrow> m\<lparr>ms_undo := om_remove h (ms_undo m), ms_contracts := c, ms_storage := s\<rparr>)) in
      m\<lparr>ms_history := filter (\<lambda>r. hr_height r \<le> target) (ms_history m)\<rparr>)"

definition mem_restore_metadata :: "memory_state \<Rightarrow> memory_state" where
  "mem_restore_metadata m =
     (if ms_history m = []
      then m\<lparr>ms_indexed_height := None, ms_indexed_block_hash := None, ms_persisted_root := None\<rparr>
      else
        let rec = last (ms_history m) in
        m\<lparr>ms_indexed_height := Some (hr_height rec), ms_indexed_block_hash := Some (hr_hash rec),
          ms_persisted_root := Some (hr_root rec)\<rparr>)"

definition mem_rollback_to :: "memory_state \<Rightarrow> u32 \<Rightarrow> memory_state \<times> (state_error, unit) result" where
  "mem_rollback_to m target =
     (let heights = rev (sort (filter (\<lambda>h. h > target) (om_keys (ms_undo m)))) in
      (mem_restore_metadata (fold (mem_rollback_height target) heights m), Ok ()))"

definition mem_save_executions ::
    "memory_state \<Rightarrow> execution list \<Rightarrow> memory_state \<times> (state_error, unit) result" where
  "mem_save_executions m exs =
     (m\<lparr>ms_executions := fold (\<lambda>e. om_insert (ex_txid e) e) exs (ms_executions m)\<rparr>, Ok ())"

definition mem_executions_at_height :: "memory_state \<Rightarrow> u32 \<Rightarrow> execution list" where
  "mem_executions_at_height m h = filter (\<lambda>e. ex_block_height e = h) (om_values (ms_executions m))"

definition memory_ops :: "blake \<Rightarrow> memory_state store_ops" where
  "memory_ops blake =
     \<lparr>so_has_contract = (\<lambda>m cid. om_get (ms_contracts m) cid \<noteq> None),
      so_get_contract = (\<lambda>m cid. om_get (ms_contracts m) cid),
      so_storage_get = (\<lambda>m cid key. om_get (ms_storage m) (cid, key)),
      so_compute_root = mem_compute_root blake,
      so_contracts = (\<lambda>m. contract_list (ms_contracts m)),
      so_storage = (\<lambda>m. storage_list (ms_storage m)),
      so_indexed_height = ms_indexed_height,
      so_indexed_block_hash = ms_indexed_block_hash,
      so_persisted_state_root = ms_persisted_root,
      so_height_history = ms_history,
      so_commit_block = mem_commit_block blake,
      so_rollback_to = mem_rollback_to,
      so_save_executions = mem_save_executions,
      so_execution = (\<lambda>m txid. om_get (ms_executions m) txid),
      so_executions_at_height = mem_executions_at_height\<rparr>"

section \<open>Undo restores the contents\<close>

lemma mem_deploys_eq: "fst (mem_deploys ds c) = apply_deploys ds c"
  by (induction ds c rule: mem_deploys.induct) (auto split: prod.splits)

lemma mem_upserts_eq: "fst (mem_upserts us s) = apply_upserts us s"
  by (induction us s rule: mem_upserts.induct) (auto split: prod.splits)

lemma mem_deletes_eq: "fst (mem_deletes ks s) = apply_deletes ks s"
  by (induction ks s rule: mem_deletes.induct) (auto split: prod.splits)

lemma undo_set: "apply_undo (USet cid key (om_get s (cid, key))) (c, om_insert (cid, key) val s) = (c, s)"
  using om.restore_put [where m = s and k = "(cid, key)" and v = val] by (cases "om_get s (cid, key)") auto

lemma undo_deploy: "apply_undo (UDeploy cid (om_get c cid)) (om_insert cid d c, s) = (c, s)"
  using om.restore_put [where m = c and k = cid and v = d] by (cases "om_get c cid") auto

lemma undo_upserts: "unwind_ops (snd (mem_upserts us s)) (c, fst (mem_upserts us s)) = (c, s)"
  by (induction us s rule: mem_upserts.induct) (auto simp: undo_set split: prod.splits)

lemma undo_deletes: "unwind_ops (snd (mem_deletes ks s)) (c, fst (mem_deletes ks s)) = (c, s)"
proof (induction ks s rule: mem_deletes.induct)
  case (2 cid key ks s)
  then show ?case
    by (auto simp: om.restore_del om.del_absent split: prod.splits option.splits)
qed simp

lemma undo_deploys:
  "unwind_ops (map (\<lambda>((cid, _, _), prev). UDeploy cid prev) (zip ds (snd (mem_deploys ds c))))
     (fst (mem_deploys ds c), s) = (c, s)"
  by (induction ds c rule: mem_deploys.induct) (auto simp: undo_deploy split: prod.splits)

lemma commit_undo_restores:
  assumes "mem_deploys ds c = (c', prevs)" "mem_upserts us s = (s1, u1)" "mem_deletes ks s1 = (s2, u2)"
  shows "unwind_ops (u1 @ u2 @ map (\<lambda>((cid, _, _), prev). UDeploy cid prev) (zip ds prevs)) (c', s2) = (c, s)"
  using undo_deploys [of ds c s2] undo_deletes [of ks s1 c] undo_upserts [of us s c] assms by simp

section \<open>Memory stores implement the ledger\<close>

fun undo_chain :: "(u32, undo_op list) omap \<Rightarrow> contents \<Rightarrow> (height_record \<times> contents) list \<Rightarrow> bool" where
  "undo_chain undo x [] \<longleftrightarrow> True"
| "undo_chain undo x ((r, y) # bs) \<longleftrightarrow>
     (\<exists>ops. om_get undo (hr_height r) = Some ops \<and> unwind_ops ops x = y) \<and> undo_chain undo y bs"

definition mem_rel :: "memory_state \<Rightarrow> ledger \<Rightarrow> bool" where
  "mem_rel m lg \<longleftrightarrow>
     heights_ok lg
     \<and> (ms_contracts m, ms_storage m) = lg_contents lg
     \<and> ms_history m = spec_history lg
     \<and> ms_indexed_height m = map_option hr_height (spec_last lg)
     \<and> ms_indexed_block_hash m = map_option hr_hash (spec_last lg)
     \<and> ms_persisted_root m = map_option hr_root (spec_last lg)
     \<and> om_keys (ms_undo m) = map hr_height (spec_history lg)
     \<and> undo_chain (ms_undo m) (lg_contents lg) (lg_blocks lg)"

lemma mem_rel_new: "mem_rel memory_new empty_ledger"
  by (simp add: mem_rel_def memory_new_def empty_ledger_def heights_ok_def spec_history_def spec_last_def)

lemma al_insert_above:
  "\<forall>k' \<in> fst ` set xs. k' < k \<Longrightarrow> al_insert k v xs = xs @ [(k, v)]"
  by (induction k v xs rule: al_insert.induct) (auto simp: not_less)

lemma spec_history_below:
  assumes "heights_ok lg" "next_height lg h" "r \<in> set (spec_history lg)"
  shows "hr_height r < h"
proof (cases "lg_blocks lg")
  case (Cons b bs)
  then show ?thesis
    using assms by (cases b) (force simp: heights_ok_def next_height_def spec_last_def spec_history_def)
qed (use assms in \<open>simp add: spec_history_def\<close>)

lemma undo_chain_insert:
  "\<forall>(r, y) \<in> set bs. hr_height r \<noteq> h \<Longrightarrow> undo_chain (om_insert h ops undo) x bs \<longleftrightarrow> undo_chain undo x bs"
  by (induction bs arbitrary: x) auto

lemma undo_chain_remove:
  "\<forall>(r, y) \<in> set bs. hr_height r \<noteq> h \<Longrightarrow> undo_chain (om_remove h undo) x bs \<longleftrightarrow> undo_chain undo x bs"
  by (induction bs arbitrary: x) auto

lemma mem_commit_rel:
  assumes "mem_rel m lg" "next_height lg (bc_height commit)"
  shows "\<exists>m'. mem_commit_block blake m commit = (m', Ok (contents_root blake (apply_commit commit (lg_contents lg))))
    \<and> mem_rel m' (spec_commit blake commit lg)"
proof -
  obtain c' prevs where d: "mem_deploys (bc_deploys commit) (ms_contracts m) = (c', prevs)" by fastforce
  obtain s1 u1 where u: "mem_upserts (bc_upserts commit) (ms_storage m) = (s1, u1)" by fastforce
  obtain s2 u2 where k: "mem_deletes (bc_deletes commit) s1 = (s2, u2)" by fastforce
  define ops where "ops = u1 @ u2 @ map (\<lambda>((cid, _, _), prev). UDeploy cid prev) (zip (bc_deploys commit) prevs)"
  have x: "(ms_contracts m, ms_storage m) = lg_contents lg" using assms(1) by (simp add: mem_rel_def)
  have x': "apply_commit commit (lg_contents lg) = (c', s2)"
  proof -
    have "c' = apply_deploys (bc_deploys commit) (ms_contracts m)"
      using mem_deploys_eq [of "bc_deploys commit" "ms_contracts m"] d by simp
    moreover have "s1 = apply_upserts (bc_upserts commit) (ms_storage m)"
      using mem_upserts_eq [of "bc_upserts commit" "ms_storage m"] u by simp
    moreover have "s2 = apply_deletes (bc_deletes commit) s1"
      using mem_deletes_eq [of "bc_deletes commit" s1] k by simp
    ultimately show ?thesis by (simp add: apply_commit_def flip: x)
  qed
  have undo: "unwind_ops ops (c', s2) = lg_contents lg"
    using commit_undo_restores [OF d u k] x by (simp add: ops_def)
  have below: "\<forall>r \<in> set (spec_history lg). hr_height r < bc_height commit"
    using spec_history_below assms by (auto simp: mem_rel_def)
  have keys: "om_keys (om_insert (bc_height commit) ops (ms_undo m)) = om_keys (ms_undo m) @ [bc_height commit]"
  proof -
    have "fst ` set (om_entries (ms_undo m)) = hr_height ` set (spec_history lg)"
      using assms(1) by (metis list.set_map mem_rel_def)
    then have "\<forall>k \<in> fst ` set (om_entries (ms_undo m)). k < bc_height commit"
      using below by auto
    from al_insert_above [OF this] show ?thesis
      by (simp add: om_entries_insert)
  qed
  have chain: "undo_chain (om_insert (bc_height commit) ops (ms_undo m)) (lg_contents lg) (lg_blocks lg)"
    using below assms(1) by (subst undo_chain_insert) (auto simp: mem_rel_def spec_history_def)
  let ?root = "contents_root blake (c', s2)"
  let ?rec = "\<lparr>hr_height = bc_height commit, hr_hash = bc_hash commit, hr_root = ?root\<rparr>"
  let ?m' = "m\<lparr>ms_contracts := c', ms_storage := s2, ms_indexed_height := Some (bc_height commit),
      ms_indexed_block_hash := Some (bc_hash commit), ms_persisted_root := Some ?root,
      ms_history := ms_history m @ [?rec], ms_undo := om_insert (bc_height commit) ops (ms_undo m)\<rparr>"
  have "mem_commit_block blake m commit = (?m', Ok ?root)"
    by (simp add: mem_commit_block_def d u k Let_def mem_compute_root_def contents_root_def ops_def)
  moreover have "mem_rel ?m' (spec_commit blake commit lg)"
  proof -
    have lg': "spec_commit blake commit lg =
        \<lparr>lg_contents = (c', s2), lg_blocks = (?rec, lg_contents lg) # lg_blocks lg\<rparr>"
      by (simp add: spec_commit_def x' Let_def)
    have "heights_ok (spec_commit blake commit lg)"
      using heights_ok_commit assms by (simp add: mem_rel_def)
    moreover have "ms_history m = spec_history lg" "om_keys (ms_undo m) = map hr_height (spec_history lg)"
      using assms(1) by (simp_all add: mem_rel_def)
    ultimately show ?thesis
      using keys chain undo unfolding lg'
      by (simp add: mem_rel_def spec_history_def spec_last_def)
  qed
  ultimately show ?thesis
    by (intro exI [of _ ?m']) (simp add: x')
qed

text \<open>Rolling back: the loop runs over the heights above the target, highest first, which are
  the newest blocks of the ledger.\<close>

lemma mem_rollback_height_step:
  assumes "om_get (ms_undo m) (hr_height r) = Some ops"
    and "unwind_ops ops (ms_contracts m, ms_storage m) = (c, s)"
  shows "mem_rollback_height t (hr_height r) m =
    m\<lparr>ms_undo := om_remove (hr_height r) (ms_undo m), ms_contracts := c, ms_storage := s,
      ms_history := filter (\<lambda>r. hr_height r \<le> t) (ms_history m)\<rparr>"
  using assms by (simp add: mem_rollback_height_def Let_def)

definition blocks_above :: "u32 \<Rightarrow> (height_record \<times> contents) list \<Rightarrow> u32 list" where
  "blocks_above t bs = filter (\<lambda>h. h > t) (map (hr_height \<circ> fst) bs)"

lemma mem_rollback_loop:
  assumes "sorted_wrt (>) (map (hr_height \<circ> fst) bs)"
    and "undo_chain (ms_undo m) (ms_contracts m, ms_storage m) bs"
    and "unwind t (ms_contracts m, ms_storage m) bs = (x, bs')"
  shows "\<exists>m'. fold (mem_rollback_height t) (blocks_above t bs) m = m'
    \<and> (ms_contracts m', ms_storage m') = x \<and> undo_chain (ms_undo m') x bs'
    \<and> (\<forall>h. om_get (ms_undo m') h = (if h \<in> set (blocks_above t bs) then None else om_get (ms_undo m) h))
    \<and> ms_history m' = (if blocks_above t bs = [] then ms_history m
         else filter (\<lambda>r. hr_height r \<le> t) (ms_history m))
    \<and> ms_executions m' = ms_executions m"
  using assms
proof (induction bs arbitrary: m)
  case Nil
  then show ?case by (simp add: blocks_above_def)
next
  case (Cons b bs)
  obtain r y where b: "b = (r, y)" by (cases b)
  show ?case
  proof (cases "hr_height r > t")
    case False
    then have "blocks_above t (b # bs) = []"
      using Cons.prems(1) b by (force simp: blocks_above_def filter_empty_conv)
    with False Cons.prems show ?thesis by (auto simp: b)
  next
    case True
    obtain ops where ops: "om_get (ms_undo m) (hr_height r) = Some ops"
      "unwind_ops ops (ms_contracts m, ms_storage m) = y" "undo_chain (ms_undo m) y bs"
      using Cons.prems(2) b by auto
    obtain c s where y: "y = (c, s)" by fastforce
    define m1 where "m1 = mem_rollback_height t (hr_height r) m"
    have m1: "m1 = m\<lparr>ms_undo := om_remove (hr_height r) (ms_undo m), ms_contracts := c, ms_storage := s,
        ms_history := filter (\<lambda>r. hr_height r \<le> t) (ms_history m)\<rparr>"
      unfolding m1_def using mem_rollback_height_step ops(1,2) y by blast
    have ne: "\<forall>(r', y') \<in> set bs. hr_height r' \<noteq> hr_height r"
      using Cons.prems(1) b by force
    have "undo_chain (ms_undo m1) (ms_contracts m1, ms_storage m1) bs"
      using ops(3) ne y by (simp add: m1 undo_chain_remove)
    moreover have "unwind t (ms_contracts m1, ms_storage m1) bs = (x, bs')"
      using Cons.prems(3) True b y by (simp add: m1)
    ultimately obtain m' where m': "fold (mem_rollback_height t) (blocks_above t bs) m1 = m'"
      "(ms_contracts m', ms_storage m') = x" "undo_chain (ms_undo m') x bs'"
      "\<forall>h. om_get (ms_undo m') h = (if h \<in> set (blocks_above t bs) then None else om_get (ms_undo m1) h)"
      "ms_history m' = (if blocks_above t bs = [] then ms_history m1
         else filter (\<lambda>r. hr_height r \<le> t) (ms_history m1))"
      "ms_executions m' = ms_executions m1"
      using Cons.IH [of m1] Cons.prems(1) by auto
    have "blocks_above t (b # bs) = hr_height r # blocks_above t bs"
      using True b by (simp add: blocks_above_def)
    with m' show ?thesis by (auto simp: m1 simp flip: m1_def)
  qed
qed

lemma unwind_blocks:
  assumes "sorted_wrt (>) (map (hr_height \<circ> fst) bs)"
  shows "snd (unwind t x bs) = filter (\<lambda>b. hr_height (fst b) \<le> t) bs"
  using assms
proof (induction t x bs rule: unwind.induct)
  case (2 t x r y bs)
  then show ?case
  proof (cases "hr_height r > t")
    case False
    then have "\<forall>b \<in> set bs. hr_height (fst b) \<le> t"
      using 2(2) by (auto simp: not_less)
    then have "filter (\<lambda>b. hr_height (fst b) \<le> t) bs = bs" by (simp add: filter_id_conv)
    with False show ?thesis by auto
  qed simp
qed simp

lemma rollback_heights:
  assumes "mem_rel m lg"
  shows "rev (sort (filter (\<lambda>h. h > t) (om_keys (ms_undo m)))) = blocks_above t (lg_blocks lg)"
proof -
  have keys: "om_keys (ms_undo m) = rev (map (hr_height \<circ> fst) (lg_blocks lg))"
    using assms by (simp add: mem_rel_def spec_history_def rev_map)
  have "sorted (filter (\<lambda>h. h > t) (om_keys (ms_undo m)))"
    using om_entries_sorted [of "ms_undo m"] by (simp add: strict_sorted_iff sorted_wrt_filter)
  then have "sort (filter (\<lambda>h. h > t) (om_keys (ms_undo m))) = filter (\<lambda>h. h > t) (om_keys (ms_undo m))"
    by (rule sorted_sort_id)
  then show ?thesis
    unfolding keys by (simp add: blocks_above_def rev_filter [symmetric])
qed

lemma spec_history_last:
  "spec_last lg = (if spec_history lg = [] then None else Some (last (spec_history lg)))"
  by (cases "lg_blocks lg") (auto simp: spec_last_def spec_history_def)

lemma mem_rollback_rel:
  assumes "mem_rel m lg"
  shows "\<exists>m'. mem_rollback_to m t = (m', Ok ()) \<and> mem_rel m' (spec_rollback t lg)
    \<and> ms_executions m' = ms_executions m"
proof -
  let ?bs = "lg_blocks lg"
  obtain x bs' where u: "unwind t (lg_contents lg) ?bs = (x, bs')" by fastforce
  have lg': "spec_rollback t lg = \<lparr>lg_contents = x, lg_blocks = bs'\<rparr>"
    by (simp add: spec_rollback_def u)
  have srt: "sorted_wrt (>) (map (hr_height \<circ> fst) ?bs)"
    using assms by (simp add: mem_rel_def heights_ok_def)
  have bs': "bs' = filter (\<lambda>b. hr_height (fst b) \<le> t) ?bs"
    using unwind_blocks [OF srt, of t "lg_contents lg"] u by simp
  have chain: "undo_chain (ms_undo m) (ms_contracts m, ms_storage m) ?bs"
    and u': "unwind t (ms_contracts m, ms_storage m) ?bs = (x, bs')"
    and hist: "ms_history m = spec_history lg"
    and keys: "om_keys (ms_undo m) = map hr_height (spec_history lg)"
    using assms u by (auto simp: mem_rel_def)
  obtain m1 where m1: "fold (mem_rollback_height t) (blocks_above t ?bs) m = m1"
    "(ms_contracts m1, ms_storage m1) = x" "undo_chain (ms_undo m1) x bs'"
    "\<forall>h. om_get (ms_undo m1) h = (if h \<in> set (blocks_above t ?bs) then None else om_get (ms_undo m) h)"
    "ms_history m1 = (if blocks_above t ?bs = [] then ms_history m
       else filter (\<lambda>r. hr_height r \<le> t) (ms_history m))"
    "ms_executions m1 = ms_executions m"
    using mem_rollback_loop [OF srt chain u'] by blast
  have hist': "ms_history m1 = spec_history (spec_rollback t lg)"
  proof -
    have "filter (\<lambda>r. hr_height r \<le> t) (ms_history m) = spec_history (spec_rollback t lg)"
      by (simp add: hist spec_history_def lg' bs' filter_map o_def flip: rev_filter)
    moreover have "filter (\<lambda>r. hr_height r \<le> t) (ms_history m) = ms_history m"
      if "blocks_above t ?bs = []"
      using that by (auto simp: hist blocks_above_def filter_empty_conv filter_id_conv spec_history_def not_less)
    ultimately show ?thesis using m1(5) by auto
  qed
  have ok: "heights_ok (spec_rollback t lg)"
    using assms heights_ok_rollback by (simp add: mem_rel_def)
  have "om_keys (ms_undo m1) = map hr_height (spec_history (spec_rollback t lg))"
  proof (rule strict_sorted_equal)
    show "sorted_wrt (<) (map hr_height (spec_history (spec_rollback t lg)))"
      using ok by (simp add: heights_ok_def spec_history_def rev_map [symmetric] sorted_wrt_rev o_def)
    have iff: "h \<in> set (om_keys (ms_undo m1)) \<longleftrightarrow> h \<in> set (om_keys (ms_undo m)) \<and> h \<notin> set (blocks_above t ?bs)" for h
      using m1(4) by (simp add: om_keys_get del: set_map)
    show "set (om_keys (ms_undo m1)) = set (map hr_height (spec_history (spec_rollback t lg)))"
    proof -
      have "set (map hr_height (spec_history (spec_rollback t lg)))
          = {h \<in> (\<lambda>b. hr_height (fst b)) ` set ?bs. h \<le> t}"
        by (auto simp: lg' spec_history_def bs' image_image)
      moreover have "set (om_keys (ms_undo m)) = (\<lambda>b. hr_height (fst b)) ` set ?bs"
        unfolding keys by (simp add: spec_history_def image_image)
      moreover have "set (blocks_above t ?bs) = {h \<in> (\<lambda>b. hr_height (fst b)) ` set ?bs. h > t}"
        by (simp add: blocks_above_def o_def Collect_conj_eq Int_commute set_filter)
      ultimately show ?thesis
        using iff by (intro set_eqI) (simp only: mem_Collect_eq, metis linorder_not_less)
    qed
  qed (rule om_entries_sorted)
  then have "mem_rel (mem_restore_metadata m1) (spec_rollback t lg)"
    using ok hist' m1(2,3)
    by (auto simp: mem_rel_def mem_restore_metadata_def Let_def spec_history_last lg')
  moreover have "ms_executions (mem_restore_metadata m1) = ms_executions m"
    using m1(6) by (simp add: mem_restore_metadata_def Let_def)
  ultimately show ?thesis
    using m1(1) rollback_heights [OF assms, of t] by (auto simp: mem_rollback_to_def Let_def)
qed

interpretation mem: total_store "memory_ops blake" mem_rel blake for blake
proof (unfold_locales)
  fix m lg m' r and c :: block_commit
  assume rel: "mem_rel m lg" "next_height lg (bc_height c)"
  show "case r of Err e \<Rightarrow> mem_rel m' lg
    | Ok root \<Rightarrow> mem_rel m' (spec_commit blake c lg)
        \<and> root = contents_root blake (apply_commit c (lg_contents lg))"
    if "so_commit_block (memory_ops blake) m c = (m', r)"
    using that mem_commit_rel [OF rel, of blake] by (auto simp: memory_ops_def)
  show "\<exists>m' root. so_commit_block (memory_ops blake) m c = (m', Ok root)"
    using mem_commit_rel [OF rel, of blake] by (auto simp: memory_ops_def)
next
  fix m lg t m'
  assume rel: "mem_rel m lg"
  show "mem_rel m' (spec_rollback t lg)" if "so_rollback_to (memory_ops blake) m t = (m', Ok ())"
    using that mem_rollback_rel [OF rel, of t] by (auto simp: memory_ops_def)
  show "\<exists>m'. so_rollback_to (memory_ops blake) m t = (m', Ok ())"
    using mem_rollback_rel [OF rel, of t] by (auto simp: memory_ops_def)
qed (auto simp: memory_ops_def mem_rel_def mem_compute_root_def contents_root_def prod_eq_iff
    mem_save_executions_def)

end
