(* ===== verification/Indexer_Refine.thy ===== *)
theory Indexer_Refine
  imports Indexer_Bounds State_Rocks_Refine State_Mem
begin

text \<open>
  The indexer over any store that implements the ledger computes what it computes over the
  ledger itself, so two stores with the same history index every block alike.
\<close>

section \<open>What block processing reads of a store\<close>

definition index_view where
  "index_view ops st =
     (so_has_contract ops st, so_get_contract ops st, so_storage_get ops st, so_compute_root ops st,
      so_contracts ops st, so_storage ops st)"

lemma index_viewD:
  assumes "index_view ops st = index_view ops' st'"
  shows "so_has_contract ops st = so_has_contract ops' st'" "so_get_contract ops st = so_get_contract ops' st'"
    "so_storage_get ops st = so_storage_get ops' st'" "so_compute_root ops st = so_compute_root ops' st'"
    "so_contracts ops st = so_contracts ops' st'" "so_storage ops st = so_storage ops' st'"
  using assms by (simp_all add: index_view_def)

lemma execute_cong:
  assumes "index_view ops st = index_view ops' st'"
  shows "execute eng ops ctx st = execute eng ops' ctx st'"
  unfolding execute_def index_viewD [OF assms] ..

lemma record_call_cong:
  "index_view ops st = index_view ops' st' \<Longrightarrow>
     record_call lib ops st tx cid op r p = record_call lib ops' st' tx cid op r p"
  by (simp add: record_call_def index_view_def projected_root_def)

lemma execute_call_cong:
  assumes "index_view ops st = index_view ops' st'"
  shows "execute_call lib ops st tx cid op input p = execute_call lib ops' st' tx cid op input p"
  by (simp add: execute_call_def execute_cong [OF assms] record_call_cong [OF assms])

lemma handle_message_cong:
  assumes "index_view ops st = index_view ops' st'"
  shows "handle_message lib ops st config tx idx m p = handle_message lib ops' st' config tx idx m p"
proof (cases m)
  case (Deploy d)
  have "handle_deploy lib ops st config tx d = handle_deploy lib ops' st' config tx d"
    unfolding handle_deploy_def index_viewD [OF assms] ..
  then show ?thesis by (simp add: Deploy Let_def)
qed (simp_all add: handle_call_def handle_call_carrier_def execute_call_cong [OF assms] Let_def split: sum.split)

lemma process_outputs_cong:
  assumes "index_view ops st = index_view ops' st'"
  shows "process_outputs lib ops st config tx outs p = process_outputs lib ops' st' config tx outs p"
proof (induction outs arbitrary: p)
  case (Cons out outs)
  then show ?case
    by (cases out) (simp add: handle_message_cong [OF assms] Cons.IH [abs_def] split: option.split)
qed simp

lemma process_transactions_cong:
  assumes "index_view ops st = index_view ops' st'"
  shows "process_transactions lib ops st config txs p = process_transactions lib ops' st' config txs p"
proof (induction txs arbitrary: p)
  case (Cons tx txs)
  then show ?case
    by (simp add: process_transaction_def process_outputs_cong [OF assms] Cons.IH [abs_def])
qed simp

section \<open>The commit is for the block at hand\<close>

definition header_inv :: "u32 \<Rightarrow> block_hash \<Rightarrow> progress \<Rightarrow> bool" where
  "header_inv h hash p \<longleftrightarrow> bc_height (pg_commit p) = h \<and> bc_hash (pg_commit p) = hash
     \<and> (\<forall>e \<in> set (pg_executions p). ex_block_height e = h \<and> ex_block_hash e = hash)"

lemma record_call_header:
  assumes "header_inv h hash p"
  shows "header_inv h hash (record_call lib ops st tx cid op r p)"
proof (cases "call_outcome r")
  case (fields success fuel_used ret err ws)
  then show ?thesis
    using assms by (auto simp: header_inv_def record_call_def fold_apply_write Let_def)
qed

lemma header_inv_message:
  assumes "handle_message lib ops st config tx idx m (count_message p) = Some p'" "header_inv h hash p"
  shows "header_inv h hash p'"
  using assms(1)
proof (cases rule: handle_messageE)
  case (call q0 cid opcode input r)
  have "header_inv h hash q0"
    using call(1) assms(2) by (simp add: header_inv_def same_work_def count_message_fields)
  then show ?thesis unfolding call(4) by (rule record_call_header)
qed (use assms(2) in \<open>simp_all add: header_inv_def same_work_def count_message_fields add_deploy_def
    add_deploy_bytes_def\<close>)

lemma header_transactions:
  assumes "process_transactions lib ops st config txs (start_block h hash) = Some p"
  shows "header_inv h hash p"
proof (rule process_transactions_inv [where I = "\<lambda>_. header_inv h hash", OF assms])
  show "header_inv h hash (start_block h hash)"
    by (simp add: header_inv_def start_block_def empty_commit_def)
  fix tx q q'
  assume q: "header_inv h hash q" and run: "process_transaction lib ops st config tx q = Some q'"
  show "header_inv h hash q'"
    using run [unfolded process_transaction_def]
  proof (rule process_outputs_inv [where I = "header_inv h hash"])
    show "header_inv h hash (q\<lparr>pg_tx_fuel := 0, pg_tx_messages := 0\<rparr>)"
      using q by (simp add: header_inv_def)
    show "header_inv h hash q''" if "header_inv h hash q'"
        "handle_message lib ops st config tx idx m (count_message q') = Some q''" for idx m q' q''
      using that(2,1) by (rule header_inv_message)
  qed (simp_all add: header_inv_def count_message_fields)
qed

section \<open>The ledger as a store\<close>

definition ledger_ops :: "blake \<Rightarrow> ledger store_ops" where
  "ledger_ops blake =
     \<lparr>so_has_contract = (\<lambda>lg cid. om_get (fst (lg_contents lg)) cid \<noteq> None),
      so_get_contract = (\<lambda>lg cid. om_get (fst (lg_contents lg)) cid),
      so_storage_get = (\<lambda>lg cid key. om_get (snd (lg_contents lg)) (cid, key)),
      so_compute_root = (\<lambda>lg. contents_root blake (lg_contents lg)),
      so_contracts = (\<lambda>lg. contract_list (fst (lg_contents lg))),
      so_storage = (\<lambda>lg. storage_list (snd (lg_contents lg))),
      so_indexed_height = (\<lambda>lg. map_option hr_height (spec_last lg)),
      so_indexed_block_hash = (\<lambda>lg. map_option hr_hash (spec_last lg)),
      so_persisted_state_root = (\<lambda>lg. map_option hr_root (spec_last lg)),
      so_height_history = spec_history,
      so_commit_block = (\<lambda>lg c. (spec_commit blake c lg, Ok (contents_root blake (apply_commit c (lg_contents lg))))),
      so_rollback_to = (\<lambda>lg t. (spec_rollback t lg, Ok ())),
      so_save_executions = (\<lambda>lg es. (lg, Ok ())),
      so_execution = (\<lambda>lg txid. None),
      so_executions_at_height = (\<lambda>lg h. [])\<rparr>"

context state_store begin

lemma ledger_view: "rel s lg \<Longrightarrow> index_view ops s = index_view (ledger_ops blake) lg"
  by (simp add: index_view_def ledger_ops_def has_contract get_contract storage_get contracts storage
      compute_root fun_eq_iff)

lemma commit_progress_rel:
  assumes "rel s lg" "next_height lg (bc_height (pg_commit p))" "small_commit (pg_commit p)"
    and "commit_progress ops b root p s = (s', Ok be)"
  shows "\<exists>lg'. commit_progress (ledger_ops blake) b root p lg = (lg', Ok be) \<and> rel s' lg'"
proof -
  obtain s1 r1 where c: "so_commit_block ops s (pg_commit p) = (s1, Ok r1)"
    using assms(4) by (auto simp: commit_progress_def split: prod.splits sum.splits)
  have 1: "rel s1 (spec_commit blake (pg_commit p) lg)"
    "r1 = contents_root blake (apply_commit (pg_commit p) (lg_contents lg))"
    using commit [OF assms(1-3) c] by simp_all
  obtain s2 where s2: "so_save_executions ops s1 (pg_executions p) = (s2, Ok ())"
    using assms(4) c by (auto simp: commit_progress_def split: prod.splits sum.splits)
  have "rel s2 (spec_commit blake (pg_commit p) lg)"
    using save [OF 1(1) s2] .
  then show ?thesis
    using assms(4) 1(2) by (auto simp: commit_progress_def c s2 ledger_ops_def)
qed

lemma commit_empty_rel:
  assumes "rel s lg" "next_height lg h" "commit_empty_block ops h hash s = (s', Ok be)"
  shows "\<exists>lg'. commit_empty_block (ledger_ops blake) h hash lg = (lg', Ok be) \<and> rel s' lg'"
proof -
  obtain s1 r1 where c: "so_commit_block ops s (empty_commit h hash) = (s1, Ok r1)"
    using assms(3) by (auto simp: commit_empty_block_def split: prod.splits sum.splits)
  have "small_commit (empty_commit h hash)" "next_height lg (bc_height (empty_commit h hash))"
    using assms(2) by (simp_all add: empty_commit_def small_commit_def)
  then have "rel s1 (spec_commit blake (empty_commit h hash) lg)"
    "r1 = contents_root blake (apply_commit (empty_commit h hash) (lg_contents lg))"
    using commit [OF assms(1) _ _ c] by simp_all
  then show ?thesis
    using assms(3) by (auto simp: commit_empty_block_def c ledger_ops_def)
qed

lemma process_block_refines:
  assumes "rel s lg" "next_height lg (pb_height b)" "length (pb_transactions b) < 2 ^ 31"
    and "process_parsed_block lib ops config b s = Some (s', Ok be)"
  shows "\<exists>lg'. process_parsed_block lib (ledger_ops blake) config b lg = Some (lg', Ok be) \<and> rel s' lg'"
proof (cases "activation_height config")
  case None
  then show ?thesis
    using assms(1,4) by (auto simp: process_parsed_block_def compute_root ledger_ops_def)
next
  case (Some a)
  show ?thesis
  proof (cases "pb_height b < a")
    case True
    then show ?thesis
      using assms(4) commit_empty_rel [OF assms(1,2), of "pb_hash b" s' be]
      by (auto simp: process_parsed_block_def Some)
  next
    case False
    then obtain p where p: "process_transactions lib ops s config (pb_transactions b)
        (start_block (pb_height b) (pb_hash b)) = Some p"
      "commit_progress ops b (so_compute_root ops s) p s = (s', Ok be)"
      using assms(4) by (auto simp: process_parsed_block_def Some)
    have "bc_height (pg_commit p) = pb_height b"
      using header_transactions [OF p(1)] by (simp add: header_inv_def)
    then obtain lg' where "commit_progress (ledger_ops blake) b (so_compute_root ops s) p lg = (lg', Ok be)"
      "rel s' lg'"
      using commit_progress_rel [OF assms(1) _ block_commit_small [OF p(1) assms(3)] p(2)] assms(2) by auto
    moreover have "so_compute_root ops s = so_compute_root (ledger_ops blake) lg"
      using assms(1) by (simp add: compute_root ledger_ops_def)
    moreover have "process_transactions lib (ledger_ops blake) lg config (pb_transactions b)
        (start_block (pb_height b) (pb_hash b)) = Some p"
      using p(1) by (simp only: process_transactions_cong [OF ledger_view [OF assms(1)]])
    ultimately show ?thesis
      using False by (auto simp: process_parsed_block_def Some)
  qed
qed

end

text \<open>A store that does not fail indexes every block that the ledger indexes.\<close>

context total_store begin

lemma commit_progress_total:
  assumes "rel s lg" "next_height lg (bc_height (pg_commit p))" "small_commit (pg_commit p)"
    and "commit_progress (ledger_ops blake) b root p lg = (lg', Ok be)"
  shows "\<exists>s'. commit_progress ops b root p s = (s', Ok be) \<and> rel s' lg'"
proof -
  obtain s1 where s1: "so_commit_block ops s (pg_commit p)
      = (s1, Ok (contents_root blake (apply_commit (pg_commit p) (lg_contents lg))))"
    "rel s1 (spec_commit blake (pg_commit p) lg)"
    using commits [OF assms(1-3)] by blast
  obtain s2 where "so_save_executions ops s1 (pg_executions p) = (s2, Ok ())"
    "rel s2 (spec_commit blake (pg_commit p) lg)"
    using saves [OF s1(2)] by blast
  then show ?thesis
    using assms(4) s1(1) by (auto simp: commit_progress_def ledger_ops_def)
qed

lemma commit_empty_total:
  assumes "rel s lg" "next_height lg h"
    and "commit_empty_block (ledger_ops blake) h hash lg = (lg', Ok be)"
  shows "\<exists>s'. commit_empty_block ops h hash s = (s', Ok be) \<and> rel s' lg'"
proof -
  have "next_height lg (bc_height (empty_commit h hash))" "small_commit (empty_commit h hash)"
    using assms(2) by (simp_all add: empty_commit_def small_commit_def)
  then obtain s1 where "so_commit_block ops s (empty_commit h hash)
      = (s1, Ok (contents_root blake (apply_commit (empty_commit h hash) (lg_contents lg))))"
    "rel s1 (spec_commit blake (empty_commit h hash) lg)"
    using commits [OF assms(1)] by blast
  then show ?thesis
    using assms(3) by (auto simp: commit_empty_block_def ledger_ops_def)
qed

lemma process_block_total:
  assumes "rel s lg" "next_height lg (pb_height b)" "length (pb_transactions b) < 2 ^ 31"
    and "process_parsed_block lib (ledger_ops blake) config b lg = Some (lg', Ok be)"
  shows "\<exists>s'. process_parsed_block lib ops config b s = Some (s', Ok be) \<and> rel s' lg'"
proof -
  note view = ledger_view [OF assms(1)]
  have root: "so_compute_root ops s = so_compute_root (ledger_ops blake) lg"
    using view by (simp add: index_view_def)
  show ?thesis
  proof (cases "activation_height config")
    case None
    then show ?thesis
      using assms(1,4) by (auto simp: process_parsed_block_def root)
  next
    case (Some a)
    show ?thesis
    proof (cases "pb_height b < a")
      case True
      then show ?thesis
        using assms(4) commit_empty_total [OF assms(1,2)] by (auto simp: process_parsed_block_def Some)
    next
      case False
      then obtain p where p: "process_transactions lib (ledger_ops blake) lg config (pb_transactions b)
          (start_block (pb_height b) (pb_hash b)) = Some p"
        "commit_progress (ledger_ops blake) b (so_compute_root (ledger_ops blake) lg) p lg = (lg', Ok be)"
        using assms(4) by (auto simp: process_parsed_block_def Some)
      have "next_height lg (bc_height (pg_commit p))"
        using assms(2) header_transactions [OF p(1)] by (simp add: header_inv_def)
      from commit_progress_total [OF assms(1) this block_commit_small [OF p(1) assms(3)] p(2)] show ?thesis
        using False p(1) process_transactions_cong [OF view, of lib config "pb_transactions b"]
        by (auto simp: process_parsed_block_def Some root)
    qed
  qed
qed

end

end
