(* ===== verification/State_Props.thy ===== *)
theory State_Props
  imports State_Mem State_Rocks_Refine
begin

text \<open>
  The properties of the state store: rollback exactness, agreement of the two backends, atomic
  commits, the meaning of a commit for later reads, and what the state root commits to.
\<close>

section \<open>Runs of commits\<close>

lemma mem_commit_all_total:
  assumes "mem_rel m lg" "increasing lg cs"
  shows "\<exists>m'. commit_all (memory_ops blake) cs m = Ok m' \<and> mem_rel m' (spec_commits blake cs lg)"
  using assms
proof (induction cs arbitrary: m lg)
  case (Cons c cs)
  then have nxt: "next_height lg (bc_height c)" "increasing (spec_commit blake c lg) cs"
    using increasing_Cons by blast+
  obtain m1 where m1: "mem_commit_block blake m c
        = (m1, Ok (contents_root blake (apply_commit c (lg_contents lg))))"
      "mem_rel m1 (spec_commit blake c lg)"
    using mem_commit_rel [OF Cons.prems(1) nxt(1)] by blast
  with Cons.IH [OF m1(2) nxt(2)] show ?case by (simp add: memory_ops_def)
qed simp

context reliable_kv begin

lemma rocks_commit_all_total:
  assumes "rocks_rel view d lg" "increasing lg cs" "\<forall>c \<in> set cs. small_commit c"
  shows "\<exists>d'. commit_all (rocks_ops blake to_json from_json kv) cs d = Ok d'
    \<and> rocks_rel view d' (spec_commits blake cs lg)"
  using assms
proof (induction cs arbitrary: d lg)
  case (Cons c cs)
  then have nxt: "next_height lg (bc_height c)" "increasing (spec_commit blake c lg) cs" "small_commit c"
    using increasing_Cons [of lg c cs blake] by simp_all
  obtain d1 where d1: "rocks_commit_block blake kv d c
      = (d1, Ok (contents_root blake (apply_commit c (lg_contents lg))))"
    using commit_total [OF Cons.prems(1) nxt(1,3)] by blast
  have "rocks_rel view d1 (spec_commit blake c lg)"
    using rocks_commit_rel [OF Cons.prems(1) nxt(1,3) d1] by simp
  from Cons.IH [OF this nxt(2)] Cons.prems(3) d1 show ?case by (simp add: rocks_ops_def)
qed simp

lemma rocks_rollback_all_total:
  assumes "rocks_rel view d lg"
  shows "\<exists>d'. so_rollback_to (rocks_ops blake to_json from_json kv) d t = (d', Ok ())
    \<and> rocks_rel view d' (spec_rollback t lg)"
  using rollback_total [of d t] rocks_rollback_rel [OF assms] by (auto simp: rocks_ops_def)

end

lemma spec_rollback_empty: "spec_rollback t empty_ledger = empty_ledger"
  by (simp add: spec_rollback_def empty_ledger_def)

lemma increasing_filter: "increasing lg cs \<Longrightarrow> increasing lg (filter p cs)"
  by (auto simp: increasing_def sorted_wrt_map sorted_wrt_filter)

lemma increasing_empty: "increasing empty_ledger cs \<longleftrightarrow> sorted_wrt (<) (map bc_height cs)"
  by (auto simp: increasing_def next_height_def spec_last_def empty_ledger_def)

lemma rocks_rel_fresh: "view d = om_empty \<Longrightarrow> rocks_rel view d empty_ledger"
  by (simp add: rocks_rel_def empty_ledger_def heights_ok_def db_contents_def db_heights_def
      small_contents_def db_meta_def spec_last_def)

text \<open>Two stores of different types that answer every read alike.\<close>

definition agree :: "'s store_ops \<Rightarrow> 's \<Rightarrow> 't store_ops \<Rightarrow> 't \<Rightarrow> bool" where
  "agree ops s ops' s' \<longleftrightarrow>
     so_contracts ops s = so_contracts ops' s' \<and> so_storage ops s = so_storage ops' s'
     \<and> so_compute_root ops s = so_compute_root ops' s'
     \<and> (\<forall>cid. so_get_contract ops s cid = so_get_contract ops' s' cid)
     \<and> (\<forall>cid. so_has_contract ops s cid \<longleftrightarrow> so_has_contract ops' s' cid)
     \<and> (\<forall>cid key. so_storage_get ops s cid key = so_storage_get ops' s' cid key)
     \<and> so_indexed_height ops s = so_indexed_height ops' s'
     \<and> so_indexed_block_hash ops s = so_indexed_block_hash ops' s'
     \<and> so_persisted_state_root ops s = so_persisted_state_root ops' s'
     \<and> so_height_history ops s = so_height_history ops' s'"

context kv_store begin

lemma rocks_agree:
  assumes "rocks_rel view d lg" "mem_rel m lg"
  shows "agree (rocks_ops blake to_json from_json kv) d (memory_ops blake) m"
  unfolding agree_def
  by (simp add: rocks.contracts [OF assms(1)] rocks.storage [OF assms(1)] rocks.compute_root [OF assms(1)]
      rocks.get_contract [OF assms(1)] rocks.has_contract [OF assms(1)] rocks.storage_get [OF assms(1)]
      rocks.indexed [OF assms(1)] rocks.history [OF assms(1)]
      mem.contracts [OF assms(2)] mem.storage [OF assms(2)] mem.compute_root [OF assms(2)]
      mem.get_contract [OF assms(2)] mem.has_contract [OF assms(2)] mem.storage_get [OF assms(2)]
      mem.indexed [OF assms(2)] mem.history [OF assms(2)])

lemma rocks_commit_law:
  assumes "rocks_rel view d lg" "next_height lg (bc_height c)" "small_commit c"
    and "rocks_commit_block blake kv d c = (d', r)"
  shows "case r of
      Ok root \<Rightarrow> root = projected_root_of blake (rocks_contracts kv d) (rocks_storage kv d) c
        \<and> rocks_compute_root blake kv d' = root
        \<and> rocks_persisted_state_root kv d' = Some root
        \<and> rocks_indexed_height kv d' = Some (bc_height c)
    | Err e \<Rightarrow> e = WriteFailed
        \<and> same_view (rocks_ops blake to_json from_json kv) d' d"
proof (cases r)
  case (Inl e)
  then show ?thesis
    using rocks_commit_rel [OF assms] rocks.rel_same_view [OF _ assms(1)] by simp
next
  case (Inr root)
  have run: "so_commit_block (rocks_ops blake to_json from_json kv) d c = (d', Ok root)"
    using assms(4) Inr by (simp add: rocks_ops_def)
  have new: "rocks_rel view d' (spec_commit blake c lg)"
    using rocks_commit_rel [OF assms] Inr by simp
  show ?thesis
    using rocks.projected_is_committed [OF assms(1-3) run] rocks.indexed [OF new] Inr
    by (simp add: rocks_ops_def projected_root_def)
qed

lemma rocks_reads_law:
  assumes "rocks_rel view d lg" "next_height lg (bc_height c)" "small_commit c"
    and "rocks_commit_block blake kv d c = (d', Ok root)"
  shows "rocks_storage_get kv d' cid key =
      (if (cid, key) \<in> set (bc_deletes c) then None
       else case map_of (rev (upsert_bindings (bc_upserts c))) (cid, key) of
         Some v \<Rightarrow> Some v | None \<Rightarrow> rocks_storage_get kv d cid key)
    \<and> rocks_get_contract kv d' cid =
      (case map_of (rev (bc_deploys c)) cid of Some x \<Rightarrow> Some x | None \<Rightarrow> rocks_get_contract kv d cid)"
proof -
  have run: "so_commit_block (rocks_ops blake (\<lambda>_. None) (\<lambda>_. None) kv) d c = (d', Ok root)"
    using assms(4) by (simp add: rocks_ops_def)
  have new: "db_contents (view d') (apply_commit c (lg_contents lg))"
    using rocks_commit_rel [OF assms] by (simp add: rocks_rel_def spec_commit_def Let_def)
  have old: "db_contents (view d) (lg_contents lg)" using assms(1) by (simp add: rocks_rel_def)
  have "rocks_get_contract kv d' cid =
      (case map_of (rev (bc_deploys c)) cid of Some x \<Rightarrow> Some x | None \<Rightarrow> rocks_get_contract kv d cid)"
    by (simp add: rocks_get_contract_eq [OF new] rocks_get_contract_eq [OF old] apply_commit_def
        get_apply_deploys split: option.splits)
  then show ?thesis
    using rocks.storage_get_after_commit [OF assms(1-3) run, of cid key]
    by (simp add: rocks_ops_def split: option.splits)
qed

end

context reliable_kv begin

lemma rocks_rollback_exact_law:
  assumes "view d = om_empty" "sorted_wrt (<) (map bc_height cs)" "\<forall>c \<in> set cs. small_commit c"
  shows "\<exists>d1 d2 d3. commit_all (rocks_ops blake to_json from_json kv) cs d = Ok d1
    \<and> so_rollback_to (rocks_ops blake to_json from_json kv) d1 t = (d2, Ok ())
    \<and> commit_all (rocks_ops blake to_json from_json kv) (filter (\<lambda>c. bc_height c \<le> t) cs) d = Ok d3
    \<and> same_view (rocks_ops blake to_json from_json kv) d2 d3"
proof -
  let ?ops = "rocks_ops blake to_json from_json kv" and ?lg = empty_ledger
  have rel: "rocks_rel view d ?lg" using assms(1) by (rule rocks_rel_fresh)
  have inc: "increasing ?lg cs" using assms(2) by (simp add: increasing_empty)
  obtain d1 where d1: "commit_all ?ops cs d = Ok d1" "rocks_rel view d1 (spec_commits blake cs ?lg)"
    using rocks_commit_all_total [OF rel inc assms(3)] by blast
  obtain d2 where d2: "so_rollback_to ?ops d1 t = (d2, Ok ())"
    "rocks_rel view d2 (spec_rollback t (spec_commits blake cs ?lg))"
    using rocks_rollback_all_total [OF d1(2)] by blast
  obtain d3 where d3: "commit_all ?ops (filter (\<lambda>c. bc_height c \<le> t) cs) d = Ok d3"
    "rocks_rel view d3 (spec_commits blake (filter (\<lambda>c. bc_height c \<le> t) cs) ?lg)"
    using rocks_commit_all_total [OF rel increasing_filter [OF inc]] assms(3) by force
  have "same_view ?ops d2 d3"
    using rocks.rel_same_view d2(2) d3(2) by (simp add: spec_rollback_commits [OF inc] spec_rollback_empty)
  with d1(1) d2(1) d3(1) show ?thesis by blast
qed

lemma rocks_memory_law:
  assumes "view d = om_empty" "sorted_wrt (<) (map bc_height cs)" "\<forall>c \<in> set cs. small_commit c"
  shows "\<exists>d1 d2 m1 m2. commit_all (rocks_ops blake to_json from_json kv) cs d = Ok d1
    \<and> so_rollback_to (rocks_ops blake to_json from_json kv) d1 t = (d2, Ok ())
    \<and> commit_all (memory_ops blake) cs memory_new = Ok m1
    \<and> so_rollback_to (memory_ops blake) m1 t = (m2, Ok ())
    \<and> agree (rocks_ops blake to_json from_json kv) d1 (memory_ops blake) m1
    \<and> agree (rocks_ops blake to_json from_json kv) d2 (memory_ops blake) m2"
proof -
  let ?ops = "rocks_ops blake to_json from_json kv" and ?lg = empty_ledger
  have rel: "rocks_rel view d ?lg" using assms(1) by (rule rocks_rel_fresh)
  have inc: "increasing ?lg cs" using assms(2) by (simp add: increasing_empty)
  obtain d1 where d1: "commit_all ?ops cs d = Ok d1" "rocks_rel view d1 (spec_commits blake cs ?lg)"
    using rocks_commit_all_total [OF rel inc assms(3)] by blast
  obtain d2 where d2: "so_rollback_to ?ops d1 t = (d2, Ok ())"
    "rocks_rel view d2 (spec_rollback t (spec_commits blake cs ?lg))"
    using rocks_rollback_all_total [OF d1(2)] by blast
  obtain m1 where m1: "commit_all (memory_ops blake) cs memory_new = Ok m1"
    "mem_rel m1 (spec_commits blake cs ?lg)"
    using mem_commit_all_total [OF mem_rel_new inc] by blast
  obtain m2 where m2: "mem_rollback_to m1 t = (m2, Ok ())"
    "mem_rel m2 (spec_rollback t (spec_commits blake cs ?lg))"
    using mem_rollback_rel [OF m1(2)] by blast
  have "so_rollback_to (memory_ops blake) m1 t = (m2, Ok ())"
    using m2(1) by (simp add: memory_ops_def)
  then show ?thesis
    using d1(1) d2(1) m1(1) rocks_agree [OF d1(2) m1(2)] rocks_agree [OF d2(2) m2(2)] by blast
qed

end

section \<open>Properties\<close>

text \<open>Rolling \<open>MemoryState\<close> back to a height is the same as never having committed the
  blocks above it: after any run of commits at increasing heights, rollback succeeds, and
  no read of contracts, storage, root, metadata or history tells the store from one that only
  saw the blocks up to the target.\<close>

theorem memory_rollback_exact:
  assumes "sorted_wrt (<) (map bc_height cs)"
  shows "\<exists>m1 m2 m3. commit_all (memory_ops blake) cs memory_new = Ok m1
    \<and> so_rollback_to (memory_ops blake) m1 t = (m2, Ok ())
    \<and> commit_all (memory_ops blake) (filter (\<lambda>c. bc_height c \<le> t) cs) memory_new = Ok m3
    \<and> same_view (memory_ops blake) m2 m3"
proof -
  have inc: "increasing empty_ledger cs" using assms by (simp add: increasing_empty)
  obtain m1 where m1: "commit_all (memory_ops blake) cs memory_new = Ok m1"
    "mem_rel m1 (spec_commits blake cs empty_ledger)"
    using mem_commit_all_total [OF mem_rel_new inc] by blast
  obtain m2 where m2: "mem_rollback_to m1 t = (m2, Ok ())"
    "mem_rel m2 (spec_rollback t (spec_commits blake cs empty_ledger))"
    using mem_rollback_rel [OF m1(2)] by blast
  obtain m3 where m3: "commit_all (memory_ops blake) (filter (\<lambda>c. bc_height c \<le> t) cs) memory_new = Ok m3"
    "mem_rel m3 (spec_commits blake (filter (\<lambda>c. bc_height c \<le> t) cs) empty_ledger)"
    using mem_commit_all_total [OF mem_rel_new increasing_filter [OF inc]] by blast
  have "same_view (memory_ops blake) m2 m3"
    using mem.rel_same_view m2(2) m3(2) by (simp add: spec_rollback_commits [OF inc] spec_rollback_empty)
  with m1(1) m2(1) m3(1) show ?thesis by (simp add: memory_ops_def)
qed

definition demo_commit :: "u32 \<Rightarrow> u8 \<Rightarrow> block_commit" where
  "demo_commit h b =
     \<lparr>bc_height = h, bc_hash = fill32 b, bc_deploys = [(fill32 1, fill32 2, [b])],
      bc_upserts = [(fill32 1, [], [b, b])], bc_deletes = []\<rparr>"

lemma demo_commit_simps [simp]: "bc_height (demo_commit h b) = h" "small_commit (demo_commit h b)"
  by (simp_all add: demo_commit_def small_commit_def)

text \<open>C1. The same for \<open>RocksState\<close>, through the serialized undo journal and the database's
  keyspaces, on any database that behaves as documented and does not fail.\<close>

theorem rocks_rollback_exact:
  assumes "reliable_kv kv view" "view d = om_empty"
    and "sorted_wrt (<) (map bc_height cs)" "\<forall>c \<in> set cs. small_commit c"
  shows "\<exists>d1 d2 d3. commit_all (rocks_ops blake to_json from_json kv) cs d = Ok d1
    \<and> so_rollback_to (rocks_ops blake to_json from_json kv) d1 t = (d2, Ok ())
    \<and> commit_all (rocks_ops blake to_json from_json kv) (filter (\<lambda>c. bc_height c \<le> t) cs) d = Ok d3
    \<and> same_view (rocks_ops blake to_json from_json kv) d2 d3"
  using reliable_kv.rocks_rollback_exact_law [OF assms(1,2)] assms(3,4) by blast

lemma rocks_rollback_exact_witness:
  "\<exists>d1 d2 d3. commit_all (rocks_ops (\<lambda>p x. fill32 0) (\<lambda>e. Some []) (\<lambda>bs. None) map_kv)
        [demo_commit 5 7, demo_commit 6 8] om_empty = Ok d1
    \<and> so_rollback_to (rocks_ops (\<lambda>p x. fill32 0) (\<lambda>e. Some []) (\<lambda>bs. None) map_kv) d1 5 = (d2, Ok ())
    \<and> commit_all (rocks_ops (\<lambda>p x. fill32 0) (\<lambda>e. Some []) (\<lambda>bs. None) map_kv) [demo_commit 5 7] om_empty = Ok d3
    \<and> same_view (rocks_ops (\<lambda>p x. fill32 0) (\<lambda>e. Some []) (\<lambda>bs. None) map_kv) d2 d3"
  using rocks_rollback_exact [OF map_db.reliable_kv_axioms refl,
      of "[demo_commit 5 7, demo_commit 6 8]" "\<lambda>p x. fill32 0" "\<lambda>e. Some []" "\<lambda>bs. None" 5]
  by (simp del: commit_all.simps)

text \<open>C37. The two backends agree: after the same commits and the same rollback every read of
  contents, root, metadata and history gives the same answer in \<open>RocksState\<close> and in
  \<open>MemoryState\<close>, visiting order included, although their undo journals differ.\<close>

theorem rocks_agrees_with_memory:
  assumes "reliable_kv kv view" "view d = om_empty"
    and "sorted_wrt (<) (map bc_height cs)" "\<forall>c \<in> set cs. small_commit c"
  shows "\<exists>d1 d2 m1 m2. commit_all (rocks_ops blake to_json from_json kv) cs d = Ok d1
    \<and> so_rollback_to (rocks_ops blake to_json from_json kv) d1 t = (d2, Ok ())
    \<and> commit_all (memory_ops blake) cs memory_new = Ok m1
    \<and> so_rollback_to (memory_ops blake) m1 t = (m2, Ok ())
    \<and> agree (rocks_ops blake to_json from_json kv) d1 (memory_ops blake) m1
    \<and> agree (rocks_ops blake to_json from_json kv) d2 (memory_ops blake) m2"
  using reliable_kv.rocks_memory_law [OF assms(1,2)] assms(3,4) by blast

lemma rocks_agrees_with_memory_witness:
  "\<exists>d1 d2 m1 m2. commit_all (rocks_ops (\<lambda>p x. fill32 0) (\<lambda>e. Some []) (\<lambda>bs. None) map_kv)
        [demo_commit 5 7, demo_commit 6 8] om_empty = Ok d1
    \<and> so_rollback_to (rocks_ops (\<lambda>p x. fill32 0) (\<lambda>e. Some []) (\<lambda>bs. None) map_kv) d1 5 = (d2, Ok ())
    \<and> commit_all (memory_ops (\<lambda>p x. fill32 0)) [demo_commit 5 7, demo_commit 6 8] memory_new = Ok m1
    \<and> so_rollback_to (memory_ops (\<lambda>p x. fill32 0)) m1 5 = (m2, Ok ())
    \<and> agree (rocks_ops (\<lambda>p x. fill32 0) (\<lambda>e. Some []) (\<lambda>bs. None) map_kv) d1 (memory_ops (\<lambda>p x. fill32 0)) m1
    \<and> agree (rocks_ops (\<lambda>p x. fill32 0) (\<lambda>e. Some []) (\<lambda>bs. None) map_kv) d2 (memory_ops (\<lambda>p x. fill32 0)) m2"
  using rocks_agrees_with_memory [OF map_db.reliable_kv_axioms refl,
      of "[demo_commit 5 7, demo_commit 6 8]" "\<lambda>p x. fill32 0" "\<lambda>e. Some []" "\<lambda>bs. None" 5]
  by (simp del: commit_all.simps)

text \<open>C38. A \<open>RocksState\<close> commit is atomic: it either installs the block, and then its root
  is the projected root, the recomputed root and the persisted root, or fails with a write
  error and changes no read; the root-mismatch branch is unreachable.\<close>

theorem rocks_commit_atomic:
  assumes "kv_store kv view" "rocks_rel view d lg"
    and "next_height lg (bc_height c)" "small_commit c"
    and "rocks_commit_block blake kv d c = (d', r)"
  shows "case r of
      Ok root \<Rightarrow> root = projected_root_of blake (rocks_contracts kv d) (rocks_storage kv d) c
        \<and> rocks_compute_root blake kv d' = root
        \<and> rocks_persisted_state_root kv d' = Some root
        \<and> rocks_indexed_height kv d' = Some (bc_height c)
    | Err e \<Rightarrow> e = WriteFailed
        \<and> same_view (rocks_ops blake to_json from_json kv) d' d"
  using kv_store.rocks_commit_law [OF assms] .

lemma rocks_commit_atomic_witness:
  "\<exists>d' root. rocks_commit_block (\<lambda>p x. fill32 0) map_kv om_empty (demo_commit 5 7) = (d', Ok root)
    \<and> rocks_persisted_state_root map_kv d' = Some root"
proof -
  let ?b = "\<lambda>p x. fill32 0"
  have rel: "rocks_rel (\<lambda>d. d) om_empty empty_ledger" by (rule rocks_rel_fresh) simp
  have nxt: "next_height empty_ledger (bc_height (demo_commit 5 7))" "small_commit (demo_commit 5 7)"
    by (simp_all add: next_height_def spec_last_def empty_ledger_def)
  obtain d' r where run: "rocks_commit_block ?b map_kv om_empty (demo_commit 5 7) = (d', Ok r)"
    using map_db.commit_total [OF rel nxt] by blast
  from rocks_commit_atomic [OF map_db.kv_store_axioms rel nxt run] run show ?thesis by auto
qed

text \<open>What a commit means for later reads of the consensus store: a deleted key is gone
  even if the commit also wrote it, otherwise the last upsert of the key wins, otherwise the old
  value stays; likewise the last deploy of a contract id wins.\<close>

theorem rocks_commit_reads:
  assumes "kv_store kv view" "rocks_rel view d lg"
    and "next_height lg (bc_height c)" "small_commit c"
    and "rocks_commit_block blake kv d c = (d', Ok root)"
  shows "rocks_storage_get kv d' cid key =
      (if (cid, key) \<in> set (bc_deletes c) then None
       else case map_of (rev (upsert_bindings (bc_upserts c))) (cid, key) of
         Some v \<Rightarrow> Some v | None \<Rightarrow> rocks_storage_get kv d cid key)
    \<and> rocks_get_contract kv d' cid =
      (case map_of (rev (bc_deploys c)) cid of Some x \<Rightarrow> Some x | None \<Rightarrow> rocks_get_contract kv d cid)"
  using kv_store.rocks_reads_law [OF assms] .

end
