(* ===== verification/Tx_Script.thy ===== *)
theory Tx_Script
  imports Carrier
begin

text \<open>
  The script half of the crate \<open>zalkanes-tx\<close> (\<open>lib.rs\<close>): push encoding, the P2PKH, P2SH,
  OP_RETURN and carrier scripts, their sizes, and the ZIP-317 fee. \<open>hash160\<close> is
  librustzcash's and an argument of the scripts that contain its digest.
\<close>

section \<open>Fees and carrier capacity\<close>

definition zip317_fee :: "nat \<Rightarrow> nat \<Rightarrow> u64" where
  "zip317_fee inputs outputs =
     (let logical_actions = of_nat (max inputs outputs); actions = max logical_actions 2 in
      5000 * actions)"

definition div_ceil :: "nat \<Rightarrow> nat \<Rightarrow> nat" where
  "div_ceil a b = (a + b - 1) div b"

definition zip317_fee_from_sizes :: "nat \<Rightarrow> nat \<Rightarrow> u64" where
  "zip317_fee_from_sizes total_input_bytes total_output_bytes =
     (let in_actions = div_ceil total_input_bytes 150;
          out_actions = div_ceil total_output_bytes 34;
          logical = of_nat (max in_actions out_actions);
          actions = max logical 2 in
      5000 * actions)"

definition MAX_PUSH_SIZE :: nat where [params]: "MAX_PUSH_SIZE = 520"
definition MAX_STANDARD_SCRIPTSIG_SIZE :: nat where [params]: "MAX_STANDARD_SCRIPTSIG_SIZE = 1650"
definition REDEEM_SCRIPT_LEN :: nat where [params]: "REDEEM_SCRIPT_LEN = 36"
definition MAX_SIGNATURE_LEN :: nat where [params]: "MAX_SIGNATURE_LEN = 73"
definition CHUNK_PAYLOAD_SIZE :: nat where [params]: "CHUNK_PAYLOAD_SIZE = 1400"

definition MAX_CARRIER_CONTRACT_SIZE :: nat where
  [params]: "MAX_CARRIER_CONTRACT_SIZE = unat MAX_CHUNKS * CHUNK_PAYLOAD_SIZE"

text \<open>\<open>pubkey\<close> is a 33-byte array.\<close>

definition redeem_script :: "bytes \<Rightarrow> bytes" where
  "redeem_script pubkey = [0x21] @ pubkey @ [0xac, 0x61]"

definition push_overhead :: "nat \<Rightarrow> nat" where
  "push_overhead len = (if len \<le> 75 then 1 else if len \<le> 255 then 2 else 3)"

definition max_standard_carrier_payload :: "nat \<Rightarrow> nat \<Rightarrow> nat" where
  "max_standard_carrier_payload signature_len redeem_script_len =
     (let chunk_index = 2;
          sig_push = 1 + signature_len;
          redeem_push = push_overhead redeem_script_len + redeem_script_len;
          fixed = chunk_index + sig_push + redeem_push;
          remaining = MAX_STANDARD_SCRIPTSIG_SIZE - fixed;
          pushes = remaining div (MAX_PUSH_SIZE + 3);
          leftover = remaining mod (MAX_PUSH_SIZE + 3) in
      pushes * MAX_PUSH_SIZE + (leftover - 3))"

datatype tx_error =
    InvalidWasmLength nat
  | TooManyChunks nat
  | NoFundingUtxos
  | NoCarrierOutput
  | FundingTooSmall
  | CarrierLengthMismatch
  | CarrierTooSmall

text \<open>\<open>wasm_len as u32\<close> truncates; the chunk limit still rejects such a length.\<close>

definition carrier_input_count :: "nat \<Rightarrow> (tx_error, u8) result" where
  "carrier_input_count wasm_len =
     (if wasm_len = 0 \<or> (of_nat wasm_len :: u32) > MAX_CODE_BYTES then Err (InvalidWasmLength wasm_len)
      else
        let n = div_ceil wasm_len CHUNK_PAYLOAD_SIZE in
        if n > unat MAX_CHUNKS then Err (TooManyChunks n) else Ok (of_nat n))"

definition split_chunks :: "bytes \<Rightarrow> (tx_error, bytes list) result" where
  "split_chunks wasm =
     and_then (carrier_input_count (length wasm)) (\<lambda>n. Ok (chunks_of CHUNK_PAYLOAD_SIZE wasm))"

section \<open>Scripts\<close>

definition push_data :: "bytes \<Rightarrow> bytes" where
  "push_data data =
     (let n = length data in
      if n < 0x4c then [of_nat n] @ data
      else if n \<le> 0xff then [0x4c, of_nat n] @ data
      else [0x4d, of_nat (n mod 256), of_nat (n div 256)] @ data)"

definition p2pkh_script_pubkey :: "(bytes \<Rightarrow> bytes) \<Rightarrow> bytes \<Rightarrow> bytes" where
  "p2pkh_script_pubkey hash160 pubkey = [0x76, 0xa9, 0x14] @ hash160 pubkey @ [0x88, 0xac]"

definition p2sh_script_pubkey :: "(bytes \<Rightarrow> bytes) \<Rightarrow> bytes \<Rightarrow> bytes" where
  "p2sh_script_pubkey hash160 redeem = [0xa9, 0x14] @ hash160 redeem @ [0x87]"

definition op_return_script :: "bytes \<Rightarrow> bytes" where
  "op_return_script payload = [0x6a] @ push_data payload"

definition carrier_script_sig :: "u8 \<Rightarrow> bytes \<Rightarrow> bytes \<Rightarrow> bytes \<Rightarrow> bytes" where
  "carrier_script_sig chunk_index chunk_data signature redeem =
     push_data [chunk_index] @ concat (map push_data (chunks_of MAX_PUSH_SIZE chunk_data))
     @ push_data signature @ push_data redeem"

definition p2pkh_script_sig :: "bytes \<Rightarrow> bytes \<Rightarrow> bytes" where
  "p2pkh_script_sig signature pubkey = push_data signature @ push_data pubkey"

section \<open>Serialized sizes\<close>

definition serialized_script_size :: "nat \<Rightarrow> nat" where
  "serialized_script_size len = (if len < 0xfd then 1 else if len \<le> 0xffff then 3 else 5) + len"

definition input_serialized_size :: "nat \<Rightarrow> nat" where
  "input_serialized_size script_sig_len = 36 + serialized_script_size script_sig_len + 4"

definition output_serialized_size :: "nat \<Rightarrow> nat" where
  "output_serialized_size script_pubkey_len = 8 + serialized_script_size script_pubkey_len"

definition p2pkh_script_sig_len :: nat where
  "p2pkh_script_sig_len = (1 + MAX_SIGNATURE_LEN) + (1 + 33)"

text \<open>The \<open>while remaining > 0\<close> loop of \<open>carrier_script_sig_len\<close>.\<close>

function chunk_pushes_len :: "nat \<Rightarrow> nat" where
  "chunk_pushes_len remaining =
     (if remaining > 0 then
        let part = min remaining MAX_PUSH_SIZE in
        push_overhead part + part + chunk_pushes_len (remaining - part)
      else 0)"
  by pat_completeness auto
termination by (relation "measure id") (auto simp: params)

declare chunk_pushes_len.simps [simp del]

definition carrier_script_sig_len :: "nat \<Rightarrow> nat" where
  "carrier_script_sig_len chunk_len =
     2 + chunk_pushes_len chunk_len + (1 + MAX_SIGNATURE_LEN)
     + (push_overhead REDEEM_SCRIPT_LEN + REDEEM_SCRIPT_LEN)"

section \<open>Push encoding\<close>

lemma length_push_data: "length (push_data d) = push_overhead (length d) + length d"
  by (simp add: push_data_def push_overhead_def Let_def)

lemma push_data_not_Nil [simp]: "push_data d \<noteq> []"
  by (simp add: push_data_def Let_def)

lemma parse_push_push_data:
  assumes "length d \<le> 0xffff"
  shows "parse_push (push_data d @ rest) = Some (d, length (push_data d))"
proof -
  have small: "(of_nat (length d) :: u8) \<le> 0x4b" "length d > 0 \<Longrightarrow> (of_nat (length d) :: u8) \<noteq> 0"
    if "length d < 0x4c"
    using that by (simp_all add: word_le_nat_alt u8_eq_0_iff)
  have le: "unat (u16_from_le_bytes [of_nat (length d mod 256), of_nat (length d div 256)]) = length d"
    using assms by (simp add: u16_from_le_bytes_def less_mult_imp_div_less)
  consider "length d = 0" | "0 < length d" "length d < 0x4c" | "0x4c \<le> length d" "length d \<le> 0xff"
    | "0xff < length d" by linarith
  then show ?thesis
  proof cases
    case 2
    with small show ?thesis
      by (simp add: parse_push_def push_data_def Let_def slice_prefix)
  next
    case 3
    then show ?thesis
      by (simp add: parse_push_def push_data_def Let_def slice_prefix)
  next
    case 4
    have "slice 1 3 (0x4d # of_nat (length d mod 256) # of_nat (length d div 256) # d @ rest)
        = [of_nat (length d mod 256), of_nat (length d div 256)]"
      by (simp add: slice_def)
    with 4 le show ?thesis
      by (simp add: parse_push_def push_data_def Let_def slice_prefix)
  qed (simp add: parse_push_def push_data_def)
qed

lemma parse_script_pushes_Nil [simp]: "parse_script_pushes [] = []"
  by (simp add: parse_script_pushes.simps)

lemma parse_script_pushes_push_data:
  "length d \<le> 0xffff \<Longrightarrow>
     parse_script_pushes (push_data d @ rest) = d # parse_script_pushes rest"
  by (subst parse_script_pushes.simps) (simp add: parse_push_push_data)

lemma parse_script_pushes_concat:
  "\<forall>d \<in> set ds. length d \<le> 0xffff \<Longrightarrow>
     parse_script_pushes (concat (map push_data ds) @ rest) = ds @ parse_script_pushes rest"
  by (induction ds) (simp_all add: parse_script_pushes_push_data)

lemma chunks_of_520_short: "c \<in> set (chunks_of MAX_PUSH_SIZE d) \<Longrightarrow> length c \<le> 0xffff"
  using chunks_of_lengths [of c MAX_PUSH_SIZE d] by (simp add: params)

lemma carrier_script_sig_pushes:
  assumes "length sig \<le> 0xffff" "length redeem \<le> 0xffff"
  shows "parse_script_pushes (carrier_script_sig i d sig redeem)
      = [i] # chunks_of MAX_PUSH_SIZE d @ [sig, redeem]"
proof -
  have redeem: "parse_script_pushes (push_data redeem) = [redeem]"
    using parse_script_pushes_push_data [of redeem "[]"] assms by simp
  show ?thesis
    unfolding carrier_script_sig_def using assms
    by (simp add: parse_script_pushes_push_data parse_script_pushes_concat chunks_of_520_short redeem)
qed

lemma chunk_from_carrier_script_sig:
  assumes "length sig \<le> 0xffff" "length redeem \<le> 0xffff"
  shows "chunk_from_script_sig (carrier_script_sig i d sig redeem)
      = (if d = [] then None else Some (i, d))"
proof (cases "d = []")
  case False
  then have "chunks_of MAX_PUSH_SIZE d \<noteq> []"
    by (subst chunks_of.simps) (simp add: params)
  moreover have "concat (chunks_of MAX_PUSH_SIZE d) = d"
    by (rule concat_chunks_of) (simp add: params)
  moreover have "chunk_from_script_sig (carrier_script_sig i d sig redeem)
      = (if chunks_of MAX_PUSH_SIZE d = [] then None
         else Some (i, concat (chunks_of MAX_PUSH_SIZE d)))"
    unfolding chunk_from_script_sig_def Let_def carrier_script_sig_pushes [OF assms]
    by (cases "chunks_of MAX_PUSH_SIZE d") (simp_all add: slice_def)
  ultimately show ?thesis
    using False by simp
qed (simp add: chunk_from_script_sig_def carrier_script_sig_pushes [OF assms])

lemma extract_op_return_script:
  "length p \<le> 0xffff \<Longrightarrow> extract_op_return_data (op_return_script p) = Some p"
  using parse_push_push_data [of p "[]"]
  by (simp add: extract_op_return_data_def op_return_script_def)

section \<open>Sizes of carrier scripts\<close>

lemma chunk_pushes_len_0 [simp]: "chunk_pushes_len 0 = 0"
  by (simp add: chunk_pushes_len.simps)

lemma chunk_pushes_len_step:
  "0 < n \<Longrightarrow> chunk_pushes_len n =
     push_overhead (min n 520) + min n 520 + chunk_pushes_len (n - 520)"
  by (subst chunk_pushes_len.simps) (simp add: params min_def)

lemma length_chunk_pushes:
  "length (concat (map push_data (chunks_of MAX_PUSH_SIZE d))) = chunk_pushes_len (length d)"
proof (induction "length d" arbitrary: d rule: less_induct)
  case less
  show ?case
  proof (cases "d = []")
    case False
    then have "length (concat (map push_data (chunks_of MAX_PUSH_SIZE d)))
        = length (push_data (take 520 d))
          + length (concat (map push_data (chunks_of MAX_PUSH_SIZE (drop 520 d))))"
      by (subst chunks_of.simps) (simp add: params)
    also have "\<dots> = chunk_pushes_len (length d)"
      using False less [of "drop 520 d"]
      by (simp add: length_push_data chunk_pushes_len_step [of "length d"] min.commute)
    finally show ?thesis .
  qed simp
qed

lemma length_carrier_script_sig:
  "length (carrier_script_sig i d sig redeem) =
     2 + chunk_pushes_len (length d) + (push_overhead (length sig) + length sig)
     + (push_overhead (length redeem) + length redeem)"
  unfolding carrier_script_sig_def length_append length_push_data length_chunk_pushes
  by (simp add: push_overhead_def)

lemma length_redeem_script: "length pubkey = 33 \<Longrightarrow> length (redeem_script pubkey) = REDEEM_SCRIPT_LEN"
  by (simp add: redeem_script_def params)

text \<open>One more payload byte never makes the script shorter.\<close>

lemma push_overhead_mono: "m \<le> n \<Longrightarrow> push_overhead m \<le> push_overhead n"
  by (simp add: push_overhead_def)

lemma chunk_pushes_len_mono: "m \<le> n \<Longrightarrow> chunk_pushes_len m \<le> chunk_pushes_len n"
proof (induction n arbitrary: m rule: less_induct)
  case (less n)
  show ?case
  proof (cases "m = 0")
    case False
    then have "0 < m" "0 < n" using less.prems by simp_all
    moreover have "chunk_pushes_len (m - 520) \<le> chunk_pushes_len (n - 520)"
      using less.prems \<open>0 < n\<close> by (intro less.IH) simp_all
    moreover have "min m 520 \<le> min n 520" using less.prems by simp
    ultimately show ?thesis
      using push_overhead_mono [of "min m 520" "min n 520"]
      by (simp only: chunk_pushes_len_step add_mono)
  qed simp
qed

lemma chunk_pushes_len_values:
  "chunk_pushes_len 1528 = 1537" "chunk_pushes_len 1529 = 1538"
  by (simp_all add: chunk_pushes_len_step push_overhead_def)

lemma max_payload_value:
  "max_standard_carrier_payload MAX_SIGNATURE_LEN REDEEM_SCRIPT_LEN = 1528"
  by (simp add: max_standard_carrier_payload_def params push_overhead_def)

lemma carrier_script_sig_len_standard:
  "carrier_script_sig_len n \<le> MAX_STANDARD_SCRIPTSIG_SIZE \<longleftrightarrow> n \<le> 1528"
proof -
  have "chunk_pushes_len n \<le> 1537" if "n \<le> 1528"
    using chunk_pushes_len_mono [OF that] by (simp add: chunk_pushes_len_values)
  moreover have "1538 \<le> chunk_pushes_len n" if "1529 \<le> n"
    using chunk_pushes_len_mono [OF that] by (simp add: chunk_pushes_len_values)
  ultimately show ?thesis
    by (cases "n \<le> 1528") (auto simp: carrier_script_sig_len_def params push_overhead_def)
qed

section \<open>How much a deployment can carry\<close>

lemma carrier_input_count_Ok_iff:
  "carrier_input_count n = Ok c \<longleftrightarrow>
     0 < n \<and> n \<le> unat MAX_CODE_BYTES \<and> c = of_nat (div_ceil n CHUNK_PAYLOAD_SIZE)"
proof (cases "n \<le> 262144")
  case True
  then have "(of_nat n :: u32) \<le> MAX_CODE_BYTES"
    by (simp add: params word_le_nat_alt)
  moreover have "div_ceil n CHUNK_PAYLOAD_SIZE \<le> 188"
    using True by (simp add: div_ceil_def params)
  ultimately show ?thesis
    using True by (auto simp: carrier_input_count_def Let_def params not_less)
next
  case False
  then have "188 < div_ceil n CHUNK_PAYLOAD_SIZE \<or> (of_nat n :: u32) > MAX_CODE_BYTES"
  proof (cases "n < 4294967296")
    case True
    then show ?thesis using False by (simp add: params word_less_nat_alt)
  next
    case False
    then have "189 * 1400 \<le> n + 1399" by simp
    then have "189 \<le> (n + 1399) div 1400" by (simp add: less_eq_div_iff_mult_less_eq)
    then show ?thesis by (intro disjI1) (simp add: div_ceil_def params add.commute)
  qed
  then show ?thesis
    using False by (auto simp: carrier_input_count_def Let_def params)
qed

lemma length_chunks_of_div_ceil: "0 < n \<Longrightarrow> length (chunks_of n xs) = div_ceil (length xs) n"
  by (simp add: div_ceil_def length_chunks_of)

lemma split_chunks_Ok_iff:
  "split_chunks wasm = Ok parts \<longleftrightarrow>
     wasm \<noteq> [] \<and> length wasm \<le> unat MAX_CODE_BYTES \<and> parts = chunks_of CHUNK_PAYLOAD_SIZE wasm"
  by (auto simp: split_chunks_def carrier_input_count_Ok_iff)

lemma split_chunks_count:
  assumes "split_chunks wasm = Ok parts"
  shows "1 \<le> length parts \<and> length parts \<le> unat MAX_CHUNKS"
proof -
  have "parts = chunks_of 1400 wasm" "wasm \<noteq> []" "length wasm \<le> 262144"
    using assms by (simp_all add: split_chunks_Ok_iff params)
  moreover from this have "length parts = (length wasm + 1399) div 1400"
    by (simp add: length_chunks_of)
  moreover have "1 \<le> (length wasm + 1399) div 1400"
    using \<open>wasm \<noteq> []\<close> by (cases wasm) (simp_all add: less_eq_div_iff_mult_less_eq)
  moreover have "(length wasm + 1399) div 1400 \<le> 188"
    using \<open>length wasm \<le> 262144\<close> by (simp add: less_mult_imp_div_less flip: less_Suc_eq_le)
  ultimately show ?thesis by (simp add: params)
qed

text \<open>A carrier scriptSig gives back its chunk index and data, whatever the signature and
  the redeem script are; a scriptSig built for an empty chunk is not a carrier. The payload of
  an OP_RETURN script is likewise read back exactly.\<close>

theorem carrier_script_roundtrip:
  assumes "length sig \<le> 0xffff" "length redeem \<le> 0xffff" "length payload \<le> 0xffff"
  shows "chunk_from_script_sig (carrier_script_sig i d sig redeem) = (if d = [] then None else Some (i, d))
    \<and> extract_op_return_data (op_return_script payload) = Some payload"
  using assms by (simp add: chunk_from_carrier_script_sig extract_op_return_script)

text \<open>The size estimate that the fee is computed from is an upper bound of the real
  scriptSig, exact for a signature of maximal length, and the scriptSig of every chunk that
  \<open>split_chunks\<close> emits is within Zebra's standardness limit.\<close>

theorem carrier_script_standard:
  assumes "split_chunks wasm = Ok parts" "d \<in> set parts"
    and "length sig \<le> MAX_SIGNATURE_LEN" "length pubkey = 33"
  shows "length (carrier_script_sig i d sig (redeem_script pubkey)) \<le> carrier_script_sig_len (length d)
    \<and> (length sig = MAX_SIGNATURE_LEN \<longrightarrow>
         length (carrier_script_sig i d sig (redeem_script pubkey)) = carrier_script_sig_len (length d))
    \<and> carrier_script_sig_len (length d) \<le> MAX_STANDARD_SCRIPTSIG_SIZE"
proof -
  have "length d \<le> 1400"
    using assms(1,2) chunks_of_lengths [of d CHUNK_PAYLOAD_SIZE wasm]
    by (simp add: split_chunks_Ok_iff params)
  then show ?thesis
    using assms(3,4) unfolding carrier_script_sig_len_standard length_carrier_script_sig
    by (simp add: length_redeem_script carrier_script_sig_len_def params push_overhead_def)
qed

text \<open>\<open>split_chunks\<close> accepts exactly the non-empty modules of at most
  \<open>MAX_CODE_BYTES\<close> bytes (the truncating cast to \<open>u32\<close> lets nothing else through), and then
  yields between 1 and \<open>MAX_CHUNKS\<close> pieces that concatenate to the module.\<close>

theorem split_chunks_total:
  "split_chunks wasm = Ok parts \<longleftrightarrow>
     wasm \<noteq> [] \<and> length wasm \<le> unat MAX_CODE_BYTES \<and> parts = chunks_of CHUNK_PAYLOAD_SIZE wasm
     \<and> concat parts = wasm \<and> 1 \<le> length parts \<and> length parts \<le> unat MAX_CHUNKS"
  using split_chunks_count [of wasm parts] concat_chunks_of [of CHUNK_PAYLOAD_SIZE wasm]
  by (auto simp: split_chunks_Ok_iff) (simp_all add: params)

text \<open>\<open>max_standard_carrier_payload\<close> is the exact capacity: a payload fits a standard
  scriptSig when, and only when, it is no longer, and the value is 1528 bytes.\<close>

theorem max_payload_exact:
  "(carrier_script_sig_len n \<le> MAX_STANDARD_SCRIPTSIG_SIZE
      \<longleftrightarrow> n \<le> max_standard_carrier_payload MAX_SIGNATURE_LEN REDEEM_SCRIPT_LEN)
    \<and> max_standard_carrier_payload MAX_SIGNATURE_LEN REDEEM_SCRIPT_LEN = 1528"
  by (simp add: carrier_script_sig_len_standard max_payload_value)

end
