(* ===== verification/Indexer_Props.thy ===== *)
theory Indexer_Props
  imports Indexer_Refine State_Props Tx_Script
begin

text \<open>The properties of block processing.\<close>

section \<open>A concrete block\<close>

lemma output_message_op_return:
  assumes "accepted_message m" "length (encode_message m) \<le> 0xffff"
  shows "output_message (op_return_script (encode_message m)) = Some m"
proof -
  have "extract_op_return_data (op_return_script (encode_message m)) = Some (encode_message m)"
    using assms(2) by (rule extract_op_return_script)
  moreover have "parse_op_return (encode_message m) = Ok (Some m)"
    using assms(1) by (simp only: parse_encode_message)
  ultimately show ?thesis by (simp add: output_message_def)
qed

definition demo_call :: message where
  "demo_call = Call \<lparr>cm_contract_id = fill32 1, cm_opcode = 0, cm_input = [5]\<rparr>"

definition demo_tx :: parsed_transaction where
  "demo_tx = \<lparr>px_txid = fill32 4, px_outputs = [(0, op_return_script (encode_message demo_call))],
     px_inputs = []\<rparr>"

definition demo_config :: indexer_config where
  "demo_config = \<lparr>ic_network = Regtest, ic_data_dir = [], ic_regtest_activation_override = None\<rparr>"

definition demo_lib :: "unit node_lib" where
  "demo_lib = \<lparr>nl_blake = \<lambda>p x. fill32 0, nl_sha = \<lambda>x. fill32 0, nl_engine = demo_engine demo_write_run\<rparr>"

definition demo_block :: parsed_block where
  "demo_block = \<lparr>pb_height = 5, pb_hash = fill32 9, pb_transactions = [demo_tx]\<rparr>"

lemma demo_call_message:
  "output_message (op_return_script (encode_message demo_call)) = Some demo_call"
  by (rule output_message_op_return)
    (simp_all add: demo_call_def encode_call_def params u16_to_be_bytes_def)

lemma demo_transaction:
  assumes "execute (demo_engine demo_write_run) ops
      \<lparr>cc_contract_id = fill32 1, cc_caller = None, cc_txid = fill32 4, cc_block_height = bc_height (pg_commit p),
       cc_opcode = 0, cc_input = [5], cc_fuel_limit = 10000000, cc_depth = 0\<rparr> st = Some r"
    and "bl_messages (pg_limits p) = 0" "bl_fuel_used (pg_limits p) = 0"
  shows "process_transaction demo_lib ops st demo_config demo_tx p
    = Some (record_call demo_lib ops st demo_tx (fill32 1) 0 r
        (count_message (p\<lparr>pg_tx_fuel := 0, pg_tx_messages := 0\<rparr>)))"
proof -
  let ?q = "count_message (p\<lparr>pg_tx_fuel := 0, pg_tx_messages := 0\<rparr>)"
  have "\<not> over_message_cap ?q"
    using assms(2) by (simp add: over_message_cap_def count_message_def params)
  moreover have "call_fuel_limit ?q = 10000000"
    using assms(3) by (simp add: call_fuel_limit_def count_message_def saturating_sub_def params)
  ultimately show ?thesis
    using assms(1)
    by (simp add: process_transaction_def demo_tx_def demo_call_message)
      (simp add: demo_call_def handle_call_def execute_call_def demo_lib_def count_message_fields)
qed

lemma demo_transactions:
  "\<exists>p. process_transactions demo_lib demo_store () demo_config [demo_tx] (start_block 5 (fill32 9)) = Some p
     \<and> length (pg_executions p) = 1 \<and> fuel_total (pg_executions p) = 9999960"
proof -
  have "execute (demo_engine demo_write_run) demo_store
      \<lparr>cc_contract_id = fill32 1, cc_caller = None, cc_txid = fill32 4,
       cc_block_height = bc_height (pg_commit (start_block 5 (fill32 9))),
       cc_opcode = 0, cc_input = [5], cc_fuel_limit = 10000000, cc_depth = 0\<rparr> ()
      = Some (Success [7] 9999960 [])"
    by (simp add: execute_def dispatch_call_def demo_engine_def demo_store_def demo_write_run_def params
      parse_module_contained_def initial_host_def host_output_write_def Let_def saturating_add_def
      slice_or_panic_def slice_def finish_call_def saturating_sub_def overlay_writes_def)
  note tx = demo_transaction [OF this]
  let ?p = "record_call demo_lib demo_store () demo_tx (fill32 1) 0 (Success [7] 9999960 [])
      (count_message ((start_block 5 (fill32 9))\<lparr>pg_tx_fuel := 0, pg_tx_messages := 0\<rparr>))"
  have "process_transactions demo_lib demo_store () demo_config [demo_tx] (start_block 5 (fill32 9)) = Some ?p"
    using tx by (simp add: start_block_def no_limits_used_def)
  moreover have "length (pg_executions ?p) = 1 \<and> fuel_total (pg_executions ?p) = 9999960"
    by (simp add: record_call_def start_block_def count_message_fields fuel_total_def Let_def)
  ultimately show ?thesis by blast
qed

section \<open>Properties\<close>

text \<open>C35. The block caps hold for whatever the block contains: the fuel of its executions adds
  up to at most \<open>MAX_FUEL_PER_ZCASH_BLOCK\<close>, each execution used at most \<open>MAX_FUEL_PER_CALL\<close>, the
  accepted modules add up to at most \<open>MAX_DEPLOY_BYTES_PER_BLOCK\<close>, and at most
  \<open>MAX_ZALK_MESSAGES_PER_BLOCK\<close> calls and deploys took effect.\<close>

theorem block_bounds:
  assumes "process_transactions lib ops st config txs (start_block h hash) = Some p"
    and "length txs < 2 ^ 31"
  shows "fuel_total (pg_executions p) \<le> unat MAX_FUEL_PER_ZCASH_BLOCK
    \<and> (\<forall>e \<in> set (pg_executions p). ex_fuel_used e \<le> MAX_FUEL_PER_CALL)
    \<and> deploy_bytes_total (bc_deploys (pg_commit p)) \<le> unat MAX_DEPLOY_BYTES_PER_BLOCK
    \<and> length (pg_executions p) + length (pg_deployed p) \<le> unat MAX_ZALK_MESSAGES_PER_BLOCK"
proof -
  have "block_inv p"
    using block_inv_transactions [OF assms(1) block_inv_start] .
  moreover have "count_inv (length txs) p"
    using count_inv_transactions [OF assms] .
  ultimately show ?thesis
    by (simp add: block_inv_def count_inv_def word_le_nat_alt)
qed

lemma block_bounds_witness:
  "\<exists>p. process_transactions demo_lib demo_store () demo_config [demo_tx] (start_block 5 (fill32 9)) = Some p
     \<and> fuel_total (pg_executions p) = 9999960 \<and> 9999960 \<le> unat MAX_FUEL_PER_ZCASH_BLOCK"
proof -
  from demo_transactions obtain p where p: "process_transactions demo_lib demo_store () demo_config
      [demo_tx] (start_block 5 (fill32 9)) = Some p" "fuel_total (pg_executions p) = 9999960"
    by blast
  have "fuel_total (pg_executions p) \<le> unat MAX_FUEL_PER_ZCASH_BLOCK"
    using block_bounds [OF p(1)] by simp
  with p show ?thesis by auto
qed

text \<open>The caps of one transaction: whatever a block already did, a transaction adds at most
  \<open>MAX_ZALK_MESSAGES_PER_TX\<close> calls and deploys, and its calls use at most
  \<open>MAX_FUEL_PER_ZCASH_TX\<close> fuel together; earlier records are kept.\<close>

theorem transaction_bounds:
  assumes "process_transactions lib ops st config txs (start_block h hash) = Some p"
    and "process_transaction lib ops st config tx p = Some p'"
  shows "\<exists>es ds. pg_executions p' = pg_executions p @ es \<and> pg_deployed p' = pg_deployed p @ ds
    \<and> fuel_total es \<le> unat MAX_FUEL_PER_ZCASH_TX
    \<and> length es + length ds \<le> unat MAX_ZALK_MESSAGES_PER_TX"
  using assms(2) block_inv_transactions [OF assms(1) block_inv_start] by (rule transaction_adds)

text \<open>C6. A deploy only takes effect when it is genuine: some output of some transaction of the
  block carries a DEPLOY message naming that output, the module is the concatenation of the
  transaction's carrier chunks, hashes to the committed hash, has the committed length within
  \<open>MAX_CODE_BYTES\<close>, passes validation, and its derived id was free; and the deploys are listed
  in the order they are committed.\<close>

theorem block_deploys_genuine:
  assumes "process_transactions lib ops st config txs (start_block h hash) = Some p"
  shows "pg_deployed p = map fst (bc_deploys (pg_commit p))
    \<and> (\<forall>(cid, ch, wasm) \<in> set (bc_deploys (pg_commit p)).
      \<exists>tx \<in> set txs. \<exists>(idx, script) \<in> set (px_outputs tx). \<exists>d.
        output_message script = Some (Deploy d) \<and> dm_output_index d = idx \<and> dm_code_hash d = ch
        \<and> reconstruct (nl_sha lib) (carrier_chunks tx) (dm_chunk_count d) (dm_code_length d) ch = Ok wasm
        \<and> nl_sha lib wasm = ch \<and> length wasm = unat (dm_code_length d)
        \<and> length wasm \<le> unat MAX_CODE_BYTES
        \<and> validate_module (nl_engine lib) wasm = Ok ()
        \<and> cid = derive_contract_id (nl_blake lib) (ic_network config) (px_txid tx) idx ch
        \<and> \<not> so_has_contract ops st cid)"
proof -
  have inv: "commit_inv lib ops st config txs p"
    using assms by (rule commit_inv_transactions)
  show ?thesis
  proof (intro conjI ballI)
    show "pg_deployed p = map fst (bc_deploys (pg_commit p))"
      using inv by (simp add: commit_inv_def)
    fix dep assume "dep \<in> set (bc_deploys (pg_commit p))"
    then obtain tx idx script d where d: "tx \<in> set txs" "(idx, script) \<in> set (px_outputs tx)"
        "output_message script = Some (Deploy d)" "dm_output_index d = idx"
        "genuine_deploy lib ops st config tx d dep"
      using inv unfolding commit_inv_def by fast
    obtain cid ch wasm where dep: "dep = (cid, ch, wasm)" by (cases dep)
    have g: "dm_code_hash d = ch"
      "reconstruct (nl_sha lib) (carrier_chunks tx) (dm_chunk_count d) (dm_code_length d) ch = Ok wasm"
      "validate_module (nl_engine lib) wasm = Ok ()" "\<not> so_has_contract ops st cid"
      "cid = derive_contract_id (nl_blake lib) (ic_network config) (px_txid tx) idx ch"
      using d(4,5) by (auto simp: genuine_deploy_def dep)
    have l: "length wasm = unat (dm_code_length d)" "unat (dm_code_length d) \<le> unat MAX_CODE_BYTES"
        "nl_sha lib wasm = ch"
      using genuine_deploy_length [OF d(5) [unfolded dep]] by simp_all
    show "case dep of (cid, ch, wasm) \<Rightarrow> \<exists>tx \<in> set txs. \<exists>(idx, script) \<in> set (px_outputs tx). \<exists>d.
        output_message script = Some (Deploy d) \<and> dm_output_index d = idx \<and> dm_code_hash d = ch
        \<and> reconstruct (nl_sha lib) (carrier_chunks tx) (dm_chunk_count d) (dm_code_length d) ch = Ok wasm
        \<and> nl_sha lib wasm = ch \<and> length wasm = unat (dm_code_length d)
        \<and> length wasm \<le> unat MAX_CODE_BYTES
        \<and> validate_module (nl_engine lib) wasm = Ok ()
        \<and> cid = derive_contract_id (nl_blake lib) (ic_network config) (px_txid tx) idx ch
        \<and> \<not> so_has_contract ops st cid"
      unfolding dep prod.case using d(1,3,4) g l
      by (intro bexI [OF _ d(1)] bexI [OF _ d(2)]) auto
  qed
qed

text \<open>A block that deploys a one-byte module.\<close>

definition demo_deploy :: deploy_message where
  "demo_deploy = \<lparr>dm_code_hash = fill32 0, dm_code_length = 1, dm_chunk_count = 1, dm_output_index = 0\<rparr>"

definition demo_deploy_tx :: parsed_transaction where
  "demo_deploy_tx = \<lparr>px_txid = fill32 4,
     px_outputs = [(0, op_return_script (encode_message (Deploy demo_deploy)))],
     px_inputs = [(0, carrier_script_sig 0 [9] [1] [2])]\<rparr>"

lemma demo_deploy_run:
  "\<exists>p. process_transactions demo_lib (memory_ops blake) memory_new demo_config [demo_deploy_tx]
      (start_block 5 (fill32 9)) = Some p
    \<and> bc_deploys (pg_commit p) = [(fill32 0, fill32 0, [9])]"
proof -
  have msg: "output_message (op_return_script (encode_message (Deploy demo_deploy))) = Some (Deploy demo_deploy)"
    by (rule output_message_op_return)
      (simp_all add: demo_deploy_def encode_deploy_def params u16_to_be_bytes_def u32_to_be_bytes_def)
  have "chunk_from_script_sig (carrier_script_sig 0 [9] [1] [2]) = Some (0, [9])"
    by (subst chunk_from_carrier_script_sig) simp_all
  then have chunks: "carrier_chunks demo_deploy_tx = [\<lparr>ch_index = 0, ch_data = [9]\<rparr>]"
    by (simp add: carrier_chunks_def demo_deploy_tx_def map_filter_simps)
  have rec: "reconstruct (\<lambda>x. fill32 0) [\<lparr>ch_index = 0, ch_data = [9]\<rparr>] 1 1 (fill32 0) = Ok [9]"
    by (simp add: reconstruct_def place_chunk_def params)
  have "validate_module (demo_engine demo_write_run) [9] = Ok ()"
    by (simp add: validate_module_def demo_engine_def parse_module_contained_def
        count_module_entities_def check_counts_def params)
  then have h: "handle_deploy demo_lib (memory_ops blake) memory_new demo_config demo_deploy_tx demo_deploy q
      = add_deploy (fill32 0, fill32 0, [9]) q" for q
    using rec by (simp add: handle_deploy_def chunks add_deploy_def demo_lib_def demo_deploy_def Let_def
        derive_contract_id_def memory_ops_def memory_new_def)
  have fields: "dm_code_length demo_deploy = 1" "dm_output_index demo_deploy = 0"
    by (simp_all add: demo_deploy_def)
  have out: "px_outputs demo_deploy_tx = [(0, op_return_script (encode_message (Deploy demo_deploy)))]"
    by (simp add: demo_deploy_tx_def)
  have "process_transactions demo_lib (memory_ops blake) memory_new demo_config [demo_deploy_tx]
      (start_block 5 (fill32 9)) = Some (add_deploy (fill32 0, fill32 0, [9])
        (add_deploy_bytes 1 (count_message (start_block 5 (fill32 9)))))"
    by (simp add: process_transaction_def out msg h fields del: encode_message.simps)
      (simp add: start_block_def no_limits_used_def over_message_cap_def count_message_def
        add_deploy_bytes_def saturating_add64_def fields h params)
  then show ?thesis
    by (simp add: add_deploy_def add_deploy_bytes_def count_message_def start_block_def empty_commit_def)
qed

lemma block_deploys_genuine_witness:
  "\<exists>p tx idx script d. process_transactions demo_lib (memory_ops (\<lambda>p x. fill32 0)) memory_new demo_config [demo_deploy_tx]
      (start_block 5 (fill32 9)) = Some p
    \<and> (fill32 0, fill32 0, [9]) \<in> set (bc_deploys (pg_commit p))
    \<and> (idx, script) \<in> set (px_outputs tx) \<and> output_message script = Some (Deploy d)
    \<and> reconstruct (\<lambda>x. fill32 0) (carrier_chunks tx) (dm_chunk_count d) (dm_code_length d) (fill32 0) = Ok [9]"
proof -
  from demo_deploy_run obtain p where p: "process_transactions demo_lib (memory_ops (\<lambda>p x. fill32 0)) memory_new demo_config
      [demo_deploy_tx] (start_block 5 (fill32 9)) = Some p"
    "bc_deploys (pg_commit p) = [(fill32 0, fill32 0, [9])]"
    by blast
  from block_deploys_genuine [OF p(1)] p show ?thesis
    by (fastforce simp: demo_lib_def)
qed

text \<open>C36. Storage can only be changed by a successful call on a deployed contract, and only that
  contract's own keys, within the key and value limits; a block without a successful call
  leaves the storage alone. So every commit fits the store's length fields.\<close>

theorem block_writes_sound:
  assumes "process_transactions lib ops st config txs (start_block h hash) = Some p"
    and "length txs < 2 ^ 31"
  shows "(\<forall>(cid, key, val) \<in> set (bc_upserts (pg_commit p)).
        so_get_contract ops st cid \<noteq> None
        \<and> length key \<le> unat MAX_STORAGE_KEY_BYTES \<and> length val \<le> unat MAX_STORAGE_VALUE_BYTES
        \<and> (\<exists>e \<in> set (pg_executions p). ex_success e \<and> ex_contract_id e = cid))
    \<and> (\<forall>(cid, key) \<in> set (bc_deletes (pg_commit p)).
        so_get_contract ops st cid \<noteq> None \<and> length key \<le> unat MAX_STORAGE_KEY_BYTES
        \<and> (\<exists>e \<in> set (pg_executions p). ex_success e \<and> ex_contract_id e = cid))
    \<and> small_commit (pg_commit p)"
proof (intro conjI)
  have sound: "\<forall>w \<in> set (commit_writes (pg_commit p)). \<exists>e \<in> set (pg_executions p).
      ex_success e \<and> sound_write ops st (ex_contract_id e) w"
    using commit_inv_transactions [OF assms(1)] by (simp add: commit_inv_def)
  have set: "WSet cid key val \<in> set (commit_writes (pg_commit p))"
    if "(cid, key, val) \<in> set (bc_upserts (pg_commit p))" for cid key val
    using that by (force simp: commit_writes_def)
  have del: "WDelete cid key \<in> set (commit_writes (pg_commit p))"
    if "(cid, key) \<in> set (bc_deletes (pg_commit p))" for cid key
    using that by (force simp: commit_writes_def)
  show "\<forall>(cid, key, val) \<in> set (bc_upserts (pg_commit p)).
        so_get_contract ops st cid \<noteq> None
        \<and> length key \<le> unat MAX_STORAGE_KEY_BYTES \<and> length val \<le> unat MAX_STORAGE_VALUE_BYTES
        \<and> (\<exists>e \<in> set (pg_executions p). ex_success e \<and> ex_contract_id e = cid)"
    using bspec [OF sound set] by fastforce
  show "\<forall>(cid, key) \<in> set (bc_deletes (pg_commit p)).
        so_get_contract ops st cid \<noteq> None \<and> length key \<le> unat MAX_STORAGE_KEY_BYTES
        \<and> (\<exists>e \<in> set (pg_executions p). ex_success e \<and> ex_contract_id e = cid)"
    using bspec [OF sound del] by fastforce
  show "small_commit (pg_commit p)"
    using assms by (rule block_commit_small)
qed

text \<open>A contract that stores \<open>[7]\<close> under \<open>[8]\<close>.\<close>

definition demo_set_run :: "i32 run" where
  "demo_set_run = HostCall (StorageSet 0 1 1 1) (Some [8, 7]) (\<lambda>_ _. Returned 0 40)"

definition demo_set_lib :: "unit node_lib" where
  "demo_set_lib = demo_lib\<lparr>nl_engine := demo_engine demo_set_run\<rparr>"

lemma demo_set_outcome:
  "execute (demo_engine demo_set_run) demo_store
      \<lparr>cc_contract_id = fill32 1, cc_caller = None, cc_txid = fill32 4, cc_block_height = h,
       cc_opcode = 0, cc_input = [5], cc_fuel_limit = 10000000, cc_depth = 0\<rparr> ()
     = Some (Success [] 9999960 [WSet (fill32 1) [8] [7]])"
  by (simp add: execute_def dispatch_call_def demo_engine_def demo_store_def demo_set_run_def params
      parse_module_contained_def initial_host_def host_storage_set_def Let_def saturating_add_def
      slice_or_panic_def slice_def finish_call_def saturating_sub_def overlay_writes_def overlay_full_def om_eval)

lemma block_writes_sound_witness:
  "\<exists>p. process_transactions demo_set_lib demo_store () demo_config [demo_tx] (start_block 5 (fill32 9)) = Some p
     \<and> bc_upserts (pg_commit p) = [(fill32 1, [8], [7])] \<and> small_commit (pg_commit p)"
proof -
  let ?p = "record_call demo_set_lib demo_store () demo_tx (fill32 1) 0 (Success [] 9999960 [WSet (fill32 1) [8] [7]])
      (count_message (start_block 5 (fill32 9)))"
  have lim: "call_fuel_limit (count_message (start_block 5 (fill32 9))) = 10000000"
    "\<not> over_message_cap (count_message (start_block 5 (fill32 9)))"
    "bc_height (pg_commit (count_message (start_block 5 (fill32 9)))) = 5"
    "(start_block 5 (fill32 9))\<lparr>pg_tx_fuel := 0, pg_tx_messages := 0\<rparr> = start_block 5 (fill32 9)"
    by (simp_all add: start_block_def no_limits_used_def call_fuel_limit_def count_message_def
        over_message_cap_def saturating_sub_def empty_commit_def params)
  have "execute_call demo_set_lib demo_store () demo_tx (fill32 1) 0 [5] (count_message (start_block 5 (fill32 9)))
      = Some ?p"
    by (simp add: execute_call_def lim demo_tx_def demo_set_lib_def demo_set_outcome)
  moreover have "px_outputs demo_tx = [(0, op_return_script (encode_message demo_call))]"
    by (simp add: demo_tx_def)
  ultimately have run: "process_transactions demo_set_lib demo_store () demo_config [demo_tx]
      (start_block 5 (fill32 9)) = Some ?p"
    by (simp add: process_transaction_def lim demo_call_message)
      (simp add: demo_call_def handle_call_def lim)
  have "bc_upserts (pg_commit ?p) = [(fill32 1, [8], [7])]"
    by (simp add: start_block_def count_message_def empty_commit_def)
  with run block_writes_sound [OF run] show ?thesis by simp
qed

text \<open>The last write of a list to each key, its deletions left out.\<close>

definition set_bindings :: "storage_write list \<Rightarrow> ((contract_id \<times> bytes) \<times> bytes) list" where
  "set_bindings ws =
     List.map_filter (\<lambda>w. case w of WSet cid k v \<Rightarrow> Some ((cid, k), v) | WDelete cid k \<Rightarrow> None) ws"

lemma set_bindings_simps [simp]: "set_bindings [] = []"
  "set_bindings (WSet cid k v # ws) = ((cid, k), v) # set_bindings ws"
  "set_bindings (WDelete cid k # ws) = set_bindings ws"
  by (simp_all add: set_bindings_def map_filter_simps)

lemma upserts_of_writes:
  "upsert_bindings (bc_upserts (fold apply_write ws c)) = upsert_bindings (bc_upserts c) @ set_bindings ws"
proof (induction ws arbitrary: c)
  case (Cons w ws)
  then show ?case by (cases w) (simp_all add: upsert_bindings_def)
qed simp

lemma deletes_of_writes:
  "(cid, key) \<in> set (bc_deletes (fold apply_write ws c))
     \<longleftrightarrow> (cid, key) \<in> set (bc_deletes c) \<or> WDelete cid key \<in> set ws"
proof (induction ws arbitrary: c)
  case (Cons w ws)
  then show ?case by (cases w) auto
qed simp

lemma storage_after_writes:
  "om_get (snd (apply_commit (fold apply_write ws (empty_commit h hash)) x)) (cid, key)
     = (if WDelete cid key \<in> set ws then None
        else case map_of (rev (set_bindings ws)) (cid, key) of
          Some v \<Rightarrow> Some v | None \<Rightarrow> om_get (snd x) (cid, key))"
proof -
  have "upsert_bindings (bc_upserts (empty_commit h hash)) = []" "bc_deletes (empty_commit h hash) = []"
    by (simp_all add: empty_commit_def upsert_bindings_def)
  then show ?thesis
    by (simp add: apply_commit_def Let_def get_apply_deletes get_apply_upserts upserts_of_writes
        deletes_of_writes split: option.split)
qed

lemma option_eqI: "(\<And>v. a = Some v \<longleftrightarrow> b = Some v) \<Longrightarrow> a = b"
  by (cases a; cases b) auto

lemma overlay_bindings:
  "map_of (rev (set_bindings (overlay_writes cid overlay))) (cid, key)
      = (case om_get overlay key of Some (Some v) \<Rightarrow> Some v | _ \<Rightarrow> None)"
  and overlay_deletes: "WDelete cid key \<in> set (overlay_writes cid overlay) \<longleftrightarrow> om_get overlay key = Some None"
proof -
  have mem: "((cid, key), v) \<in> set (set_bindings (overlay_writes cid overlay))
      \<longleftrightarrow> om_get overlay key = Some (Some v)" for v
  proof -
    have "((cid, key), v) \<in> set (set_bindings
        (map (\<lambda>(k, val). case val of Some v \<Rightarrow> WSet cid k v | None \<Rightarrow> WDelete cid k) es))
      \<longleftrightarrow> (key, Some v) \<in> set es" for es
      by (induction es) (auto split: option.splits)
    then show ?thesis by (simp add: overlay_writes_def om_entries_get)
  qed
  have "map fst (set_bindings (map (\<lambda>(k, val). case val of Some v \<Rightarrow> WSet cid k v | None \<Rightarrow> WDelete cid k) es))
      = map (\<lambda>(k, val). (cid, k)) (filter (\<lambda>(k, val). val \<noteq> None) es)" for es
    by (induction es) (auto split: option.splits)
  moreover have "distinct (map (\<lambda>(k, val). (cid, k)) (filter (\<lambda>(k, val). val \<noteq> None) (om_entries overlay)))"
    using om_entries_distinct [of overlay]
    by (auto simp: distinct_map inj_on_def om_entries_get)
  ultimately have d: "distinct (map fst (set_bindings (overlay_writes cid overlay)))"
    by (simp add: overlay_writes_def)
  have "map_of (rev (set_bindings (overlay_writes cid overlay))) (cid, key) = Some v
      \<longleftrightarrow> om_get overlay key = Some (Some v)" for v
    using d mem by (subst map_of_eq_Some_iff) (simp_all add: rev_map [symmetric])
  note bound = this
  show "map_of (rev (set_bindings (overlay_writes cid overlay))) (cid, key)
      = (case om_get overlay key of Some (Some v) \<Rightarrow> Some v | _ \<Rightarrow> None)"
    by (rule option_eqI) (simp add: bound split: option.split)
  show "WDelete cid key \<in> set (overlay_writes cid overlay) \<longleftrightarrow> om_get overlay key = Some None"
  proof -
    have "WDelete cid key \<in> set
        (map (\<lambda>(k, val). case val of Some v \<Rightarrow> WSet cid k v | None \<Rightarrow> WDelete cid k) es)
      \<longleftrightarrow> (key, None) \<in> set es" for es
      by (induction es) (auto split: option.splits)
    then show ?thesis by (simp add: overlay_writes_def om_entries_get)
  qed
qed

text \<open>A lone call is committed as it ran: after a block whose writes are those of one
  successful call, the storage of the called contract is what the call saw when it returned
  (its overlay over the base), and every other contract's storage is untouched.\<close>

theorem call_storage_committed:
  assumes "execute eng ops ctx st = Some (Success out fuel ws)"
    and "so_storage_get ops st = (\<lambda>cid key. om_get (snd x) (cid, key))"
  shows "\<exists>hs :: host_state. hs_output hs = out \<and> hs_contract_id hs = cc_contract_id ctx
    \<and> (\<forall>cid key. om_get (snd (apply_commit (fold apply_write ws (empty_commit h hash)) x)) (cid, key)
      = (if cid = cc_contract_id ctx then host_view (so_storage_get ops st) hs key
         else om_get (snd x) (cid, key)))"
proof -
  from assms(1) obtain hs :: host_state where hs: "hs_contract_id hs = cc_contract_id ctx" "out = hs_output hs"
    "ws = overlay_writes (cc_contract_id ctx) (hs_overlay hs)"
    by (rule execute_SuccessD) blast
  have "om_get (snd (apply_commit (fold apply_write ws (empty_commit h hash)) x)) (cc_contract_id ctx, key)
      = host_view (so_storage_get ops st) hs key" for key
    unfolding storage_after_writes hs(3) overlay_bindings overlay_deletes
    by (simp add: host_view_def assms(2) hs(1) split: option.split)
  moreover have "om_get (snd (apply_commit (fold apply_write ws (empty_commit h hash)) x)) (cid, key)
      = om_get (snd x) (cid, key)" if "cid \<noteq> cc_contract_id ctx" for cid key
  proof -
    have "WDelete cid key \<notin> set ws" "(cid, key) \<notin> fst ` set (set_bindings ws)"
      using that by (auto simp: hs(3) overlay_writes_def set_bindings_def set_map_filter
          split: option.splits storage_write.splits)
    then have "map_of (rev (set_bindings ws)) (cid, key) = None"
      by (simp add: map_of_eq_None_iff)
    then show ?thesis
      using \<open>WDelete cid key \<notin> set ws\<close> by (simp add: storage_after_writes)
  qed
  ultimately show ?thesis
    using hs(1,2) by (intro exI [of _ hs]) auto
qed

section \<open>A block on the ledger\<close>

lemma apply_empty_commit [simp]: "apply_commit (empty_commit h hash) x = x"
  by (cases x) (simp add: apply_commit_def empty_commit_def apply_deploys_def apply_upserts_def apply_deletes_def)

lemma spec_commit_last:
  "spec_last (spec_commit blake c lg) = Some \<lparr>hr_height = bc_height c, hr_hash = bc_hash c,
     hr_root = contents_root blake (lg_contents (spec_commit blake c lg))\<rparr>"
  by (simp add: spec_commit_def spec_last_def Let_def)

lemma commit_progress_ledger:
  assumes "commit_progress (ledger_ops blake) b root p lg = (lg', Ok be)"
  shows "lg' = spec_commit blake (pg_commit p) lg" "be_root_before be = root"
    "be_root_after be = contents_root blake (lg_contents lg')"
  using assms by (auto simp: commit_progress_def ledger_ops_def spec_commit_def Let_def)

lemma commit_empty_ledger:
  assumes "commit_empty_block (ledger_ops blake) h hash lg = (lg', Ok be)"
  shows "lg' = spec_commit blake (empty_commit h hash) lg" "lg_contents lg' = lg_contents lg"
    "be_root_before be = contents_root blake (lg_contents lg)"
    "be_root_after be = contents_root blake (lg_contents lg)" "be_executions be = []"
  using assms
  by (auto simp: commit_empty_block_def ledger_ops_def no_interpretation_def spec_commit_def Let_def)

text \<open>What a processed block is, on the ledger.\<close>

definition block_indexed :: "blake \<Rightarrow> indexer_config \<Rightarrow> parsed_block \<Rightarrow> block_execution \<Rightarrow> ledger \<Rightarrow> ledger \<Rightarrow> bool" where
  "block_indexed blake config b be lg lg' \<longleftrightarrow>
     be_root_before be = contents_root blake (lg_contents lg)
     \<and> be_root_after be = contents_root blake (lg_contents lg')
     \<and> (case activation_height config of
          None \<Rightarrow> lg' = lg \<and> be_executions be = []
        | Some a \<Rightarrow>
            spec_last lg' = Some \<lparr>hr_height = pb_height b, hr_hash = pb_hash b, hr_root = be_root_after be\<rparr>
            \<and> (pb_height b \<ge> a \<or> lg_contents lg' = lg_contents lg \<and> be_executions be = []))"

lemma ledger_process_block:
  assumes "process_parsed_block lib (ledger_ops blake) config b lg = Some (lg', Ok be)"
  shows "block_indexed blake config b be lg lg'"
proof (cases "activation_height config")
  case None
  then show ?thesis
    using assms by (auto simp: process_parsed_block_def block_indexed_def no_interpretation_def ledger_ops_def)
next
  case (Some a)
  show ?thesis
  proof (cases "pb_height b < a")
    case True
    then have "commit_empty_block (ledger_ops blake) (pb_height b) (pb_hash b) lg = (lg', Ok be)"
      using assms by (simp add: process_parsed_block_def Some)
    from commit_empty_ledger [OF this] show ?thesis
      using True spec_commit_last [of blake "empty_commit (pb_height b) (pb_hash b)" lg]
      by (simp add: block_indexed_def Some empty_commit_def)
  next
    case False
    then obtain p where p: "process_transactions lib (ledger_ops blake) lg config (pb_transactions b)
        (start_block (pb_height b) (pb_hash b)) = Some p"
      "commit_progress (ledger_ops blake) b (so_compute_root (ledger_ops blake) lg) p lg = (lg', Ok be)"
      using assms by (auto simp: process_parsed_block_def Some)
    have "bc_height (pg_commit p) = pb_height b" "bc_hash (pg_commit p) = pb_hash b"
      using header_transactions [OF p(1)] by (simp_all add: header_inv_def)
    then show ?thesis
      using False commit_progress_ledger [OF p(2)] spec_commit_last [of blake "pg_commit p" lg]
      by (simp add: block_indexed_def Some ledger_ops_def not_less)
  qed
qed

context kv_store begin

lemma backends_law:
  assumes "rocks_rel view d lg" "mem_rel m lg"
    and "next_height lg (pb_height b)" "length (pb_transactions b) < 2 ^ 31"
    and "process_parsed_block lib (rocks_ops blake to_json from_json kv) config b d = Some (d', Ok be)"
  shows "\<exists>m' lg'. process_parsed_block lib (memory_ops blake) config b m = Some (m', Ok be)
    \<and> rocks_rel view d' lg' \<and> mem_rel m' lg'
    \<and> agree (rocks_ops blake to_json from_json kv) d' (memory_ops blake) m'"
proof -
  obtain lg' where lg': "process_parsed_block lib (ledger_ops blake) config b lg = Some (lg', Ok be)"
    "rocks_rel view d' lg'"
    using rocks.process_block_refines [OF assms(1,3,4,5)] by blast
  obtain m' where "process_parsed_block lib (memory_ops blake) config b m = Some (m', Ok be)" "mem_rel m' lg'"
    using mem.process_block_total [OF assms(2-4) lg'(1)] by blast
  with lg'(2) show ?thesis using rocks_agree by blast
qed

text \<open>The roots and the position that a processed block leaves in the database.\<close>

lemma block_roots_law:
  assumes "rocks_rel view d lg"
    and "next_height lg (pb_height b)" "length (pb_transactions b) < 2 ^ 31"
    and "process_parsed_block lib (rocks_ops blake to_json from_json kv) config b d = Some (d', Ok be)"
  shows "be_root_before be = rocks_compute_root blake kv d
    \<and> be_root_after be = rocks_compute_root blake kv d'
    \<and> (case activation_height config of
        None \<Rightarrow> rocks_indexed_height kv d' = rocks_indexed_height kv d \<and> be_executions be = []
      | Some a \<Rightarrow>
          rocks_indexed_height kv d' = Some (pb_height b)
          \<and> rocks_indexed_block_hash kv d' = Some (pb_hash b)
          \<and> rocks_persisted_state_root kv d' = Some (be_root_after be)
          \<and> (pb_height b \<ge> a \<or> be_root_after be = be_root_before be \<and> be_executions be = []))"
proof -
  obtain lg' where lg': "process_parsed_block lib (ledger_ops blake) config b lg = Some (lg', Ok be)"
    "rocks_rel view d' lg'"
    using rocks.process_block_refines [OF assms] by blast
  note ix = ledger_process_block [OF lg'(1), unfolded block_indexed_def]
  show ?thesis
    using ix rocks.compute_root [OF assms(1)] rocks.compute_root [OF lg'(2)]
      rocks.indexed [OF assms(1)] rocks.indexed [OF lg'(2)]
    by (auto simp: rocks_ops_def split: option.splits)
qed

end

text \<open>C2. Indexing is deterministic across backends: if \<open>RocksState\<close> and \<open>MemoryState\<close> hold the
  same history and a block succeeds on RocksDB, it succeeds in memory with the same result
  (roots, executions, deploys), and both stores hold the same history afterwards.\<close>

theorem backends_index_alike:
  assumes "kv_store kv view" "rocks_rel view d lg" "mem_rel m lg"
    and "next_height lg (pb_height b)" "length (pb_transactions b) < 2 ^ 31"
    and "process_parsed_block lib (rocks_ops blake to_json from_json kv) config b d = Some (d', Ok be)"
  shows "\<exists>m' lg'. process_parsed_block lib (memory_ops blake) config b m = Some (m', Ok be)
    \<and> rocks_rel view d' lg' \<and> mem_rel m' lg'
    \<and> agree (rocks_ops blake to_json from_json kv) d' (memory_ops blake) m'"
  using kv_store.backends_law [OF assms] .

lemma demo_rocks_run:
  "\<exists>d' be. process_parsed_block demo_lib (rocks_ops (\<lambda>p x. fill32 0) (\<lambda>e. Some []) (\<lambda>_. None) map_kv)
      demo_config demo_block om_empty = Some (d', Ok be) \<and> length (be_executions be) = 1"
proof -
  let ?ops = "rocks_ops (\<lambda>p x. fill32 0) (\<lambda>e. Some []) (\<lambda>_. None) map_kv"
  have rel: "rocks_rel (\<lambda>d. d) om_empty empty_ledger" by (rule rocks_rel_fresh) simp
  have "execute (demo_engine demo_write_run) ?ops ctx om_empty = Some ContractNotFound" if "cc_depth ctx = 0" for ctx
    using map_db.rocks.get_contract [OF rel, of "\<lambda>p x. fill32 0" "\<lambda>e. Some []" "\<lambda>_. None"] that
    by (simp add: execute_def empty_ledger_def params)
  then obtain p where p: "process_transactions demo_lib ?ops om_empty demo_config [demo_tx] (start_block 5 (fill32 9)) = Some p"
    "length (pg_executions p) = 1"
    using demo_transaction [of ?ops "start_block 5 (fill32 9)" om_empty ContractNotFound]
    by (simp add: start_block_def no_limits_used_def record_call_def Let_def count_message_fields)
  have small: "small_commit (pg_commit p)" "bc_height (pg_commit p) = 5"
    using block_commit_small [OF p(1)] header_transactions [OF p(1)] by (simp_all add: header_inv_def)
  obtain d1 root where d1: "rocks_commit_block (\<lambda>p x. fill32 0) map_kv om_empty (pg_commit p) = (d1, Ok root)"
    using map_db.commit_total [OF rel _ small(1)] by (force simp: next_height_def spec_last_def empty_ledger_def)
  have "\<exists>batch. exec_batch (\<lambda>e. Some []) es = Some batch" for es
    by (induction es) auto
  then obtain batch where "exec_batch (\<lambda>e. Some []) (pg_executions p) = Some batch" by blast
  then obtain d2 where d2: "rocks_save_executions (\<lambda>e. Some []) map_kv d1 (pg_executions p) = (d2, Ok ())"
    by (simp add: rocks_save_executions_def map_kv_def)
  show ?thesis
    using p d1 d2
    by (simp add: process_parsed_block_def activation_height_def demo_config_def demo_block_def params
        commit_progress_def rocks_ops_def)
qed

lemma demo_block_next: "next_height empty_ledger (pb_height demo_block)"
    "length (pb_transactions demo_block) < 2 ^ 31"
  by (simp_all add: next_height_def spec_last_def empty_ledger_def demo_block_def)

lemma backends_index_alike_witness:
  "\<exists>d' be m'. process_parsed_block demo_lib (rocks_ops (\<lambda>p x. fill32 0) (\<lambda>e. Some []) (\<lambda>_. None) map_kv)
      demo_config demo_block om_empty = Some (d', Ok be)
    \<and> process_parsed_block demo_lib (memory_ops (\<lambda>p x. fill32 0)) demo_config demo_block memory_new = Some (m', Ok be)
    \<and> length (be_executions be) = 1"
proof -
  have rel: "rocks_rel (\<lambda>d. d) om_empty empty_ledger" by (rule rocks_rel_fresh) simp
  from demo_rocks_run obtain d' be where run: "process_parsed_block demo_lib
      (rocks_ops (\<lambda>p x. fill32 0) (\<lambda>e. Some []) (\<lambda>_. None) map_kv) demo_config demo_block om_empty = Some (d', Ok be)"
    "length (be_executions be) = 1"
    by blast
  from backends_index_alike [OF map_db.kv_store_axioms rel mem_rel_new demo_block_next run(1)] run
  show ?thesis by blast
qed

text \<open>The roots that a processed block reports are the roots of the database before and
  after it, and the database's position is the block's. Below the activation height the
  contents and the root do not change and nothing is executed. On a network without an
  activation height nothing is executed and the position is not advanced.\<close>

theorem block_roots_exact:
  assumes "kv_store kv view" "rocks_rel view d lg"
    and "next_height lg (pb_height b)" "length (pb_transactions b) < 2 ^ 31"
    and "process_parsed_block lib (rocks_ops blake to_json from_json kv) config b d = Some (d', Ok be)"
  shows "be_root_before be = rocks_compute_root blake kv d
    \<and> be_root_after be = rocks_compute_root blake kv d'
    \<and> (case activation_height config of
        None \<Rightarrow> rocks_indexed_height kv d' = rocks_indexed_height kv d \<and> be_executions be = []
      | Some a \<Rightarrow>
          rocks_indexed_height kv d' = Some (pb_height b)
          \<and> rocks_indexed_block_hash kv d' = Some (pb_hash b)
          \<and> rocks_persisted_state_root kv d' = Some (be_root_after be)
          \<and> (pb_height b \<ge> a \<or> be_root_after be = be_root_before be \<and> be_executions be = []))"
  using kv_store.block_roots_law [OF assms] .

end
