(* ===== verification/Tx_Plan.thy ===== *)
theory Tx_Plan
  imports Tx_Script
begin

text \<open>
  The planning half of the crate \<open>zalkanes-tx\<close>: the PREPARE, DEPLOY and CALL plans with
  their fee and change arithmetic, and the assembly of a signed V5 transaction. The types
  \<open>'k\<close> of signing keys, \<open>'o\<close> of outpoints and \<open>'b\<close> of branch ids, the signature, the
  sighash and the transaction serializer are librustzcash's and secp256k1's; they are
  arguments. \<open>u64\<close> sums wrap around, as in the release profile.
\<close>

section \<open>Plans\<close>

datatype 'k spend_kind =
    P2pkh 'k
  | CarrierSpend 'k u8 bytes bytes

record ('k, 'o) spend_input =
  si_outpoint :: 'o
  si_value :: u64
  si_script_pubkey :: bytes
  si_script_code :: bytes
  si_kind :: "'k spend_kind"

record spend_output =
  so_value :: u64
  so_script_pubkey :: bytes

record ('k, 'o) prepared_tx =
  pt_inputs :: "('k, 'o) spend_input list"
  pt_outputs :: "spend_output list"
  pt_fee :: u64
  pt_change :: u64
  pt_selected_value :: u64

definition checked_sub :: "u64 \<Rightarrow> u64 \<Rightarrow> u64 option" where
  "checked_sub a b = (if b \<le> a then Some (a - b) else None)"

text \<open>
  Each plan is a fee, computed from the estimated sizes, and the inputs and outputs for the
  change that is left.
\<close>

definition change_output :: "(bytes \<Rightarrow> bytes) \<Rightarrow> bytes \<Rightarrow> u64 \<Rightarrow> spend_output" where
  "change_output hash160 pubkey change =
     \<lparr>so_value = change, so_script_pubkey = p2pkh_script_pubkey hash160 pubkey\<rparr>"

definition p2pkh_input :: "(bytes \<Rightarrow> bytes) \<Rightarrow> bytes \<Rightarrow> 'k \<Rightarrow> 'o \<Rightarrow> u64 \<Rightarrow> ('k, 'o) spend_input" where
  "p2pkh_input hash160 pubkey key outpoint value =
     \<lparr>si_outpoint = outpoint, si_value = value,
      si_script_pubkey = p2pkh_script_pubkey hash160 pubkey,
      si_script_code = p2pkh_script_pubkey hash160 pubkey, si_kind = P2pkh key\<rparr>"

definition prepare_fee :: "(bytes \<Rightarrow> bytes) \<Rightarrow> bytes \<Rightarrow> 'u list \<Rightarrow> 'v list \<Rightarrow> u64" where
  "prepare_fee hash160 pubkey funding_utxos carrier_values =
     (let carrier_script = p2sh_script_pubkey hash160 (redeem_script pubkey);
          in_size = sum_list (map (\<lambda>_. input_serialized_size p2pkh_script_sig_len) funding_utxos);
          out_size = sum_list (map (\<lambda>_. output_serialized_size (length carrier_script)) carrier_values)
            + output_serialized_size (length (p2pkh_script_pubkey hash160 pubkey)) in
      zip317_fee_from_sizes in_size out_size)"

definition prepare_outputs :: "(bytes \<Rightarrow> bytes) \<Rightarrow> bytes \<Rightarrow> u64 list \<Rightarrow> u64 \<Rightarrow> spend_output list" where
  "prepare_outputs hash160 pubkey carrier_values change =
     map (\<lambda>v. \<lparr>so_value = v, so_script_pubkey = p2sh_script_pubkey hash160 (redeem_script pubkey)\<rparr>)
       carrier_values
     @ (if change > 0 then [change_output hash160 pubkey change] else [])"

definition prepare_plan ::
    "(bytes \<Rightarrow> bytes) \<Rightarrow> ('k \<Rightarrow> bytes) \<Rightarrow> 'k \<Rightarrow> ('o \<times> u64) list \<Rightarrow> u64 list
      \<Rightarrow> (tx_error, ('k, 'o) prepared_tx) result" where
  "prepare_plan hash160 pubkey_of funding_key funding_utxos carrier_values =
     (if funding_utxos = [] then Err NoFundingUtxos
      else if carrier_values = [] then Err NoCarrierOutput
      else
        let pubkey = pubkey_of funding_key;
            carrier_total = sum_list carrier_values;
            funding_total = sum_list (map snd funding_utxos);
            fee = prepare_fee hash160 pubkey funding_utxos carrier_values in
        and_then (ok_or FundingTooSmall
            (Option.bind (checked_sub funding_total carrier_total) (\<lambda>v. checked_sub v fee)))
          (\<lambda>change.
            Ok \<lparr>pt_inputs = map (\<lambda>(outpoint, value).
                  p2pkh_input hash160 pubkey funding_key outpoint value) funding_utxos,
                pt_outputs = prepare_outputs hash160 pubkey carrier_values change,
                pt_fee = fee, pt_change = change, pt_selected_value = funding_total\<rparr>))"

definition deploy_fee :: "(bytes \<Rightarrow> bytes) \<Rightarrow> bytes \<Rightarrow> bytes list \<Rightarrow> bytes \<Rightarrow> u64" where
  "deploy_fee hash160 pubkey chunks op_return =
     (let in_size = sum_list (map (\<lambda>c. input_serialized_size (carrier_script_sig_len (length c))) chunks);
          op_return_script_len = length (op_return_script op_return);
          out_size = output_serialized_size op_return_script_len
            + output_serialized_size (length (p2pkh_script_pubkey hash160 pubkey)) in
      zip317_fee_from_sizes in_size out_size)"

definition carrier_input ::
    "(bytes \<Rightarrow> bytes) \<Rightarrow> bytes \<Rightarrow> 'k \<Rightarrow> nat \<times> ('o \<times> u64) \<times> bytes \<Rightarrow> ('k, 'o) spend_input" where
  "carrier_input hash160 pubkey key = (\<lambda>(i, (outpoint, value), chunk).
     \<lparr>si_outpoint = outpoint, si_value = value,
      si_script_pubkey = p2sh_script_pubkey hash160 (redeem_script pubkey),
      si_script_code = redeem_script pubkey,
      si_kind = CarrierSpend key (of_nat i) chunk (redeem_script pubkey)\<rparr>)"

definition deploy_outputs :: "(bytes \<Rightarrow> bytes) \<Rightarrow> bytes \<Rightarrow> bytes \<Rightarrow> u64 \<Rightarrow> spend_output list" where
  "deploy_outputs hash160 pubkey op_return change =
     [\<lparr>so_value = 0, so_script_pubkey = op_return_script op_return\<rparr>]
     @ (if change > 0 then [change_output hash160 pubkey change] else [])"

definition deploy_plan ::
    "(bytes \<Rightarrow> bytes) \<Rightarrow> ('k \<Rightarrow> bytes) \<Rightarrow> 'k \<Rightarrow> 'o list \<Rightarrow> u64 list \<Rightarrow> bytes list \<Rightarrow> bytes
      \<Rightarrow> (tx_error, ('k, 'o) prepared_tx) result" where
  "deploy_plan hash160 pubkey_of key carrier_outpoints carrier_values chunks op_return =
     (if length carrier_outpoints \<noteq> length chunks \<or> length carrier_outpoints \<noteq> length carrier_values
      then Err CarrierLengthMismatch
      else
        let pubkey = pubkey_of key;
            fee = deploy_fee hash160 pubkey chunks op_return;
            carrier_total = sum_list carrier_values in
        and_then (ok_or CarrierTooSmall (checked_sub carrier_total fee))
          (\<lambda>change.
            Ok \<lparr>pt_inputs = map (carrier_input hash160 pubkey key)
                  (enumerate 0 (zip (zip carrier_outpoints carrier_values) chunks)),
                pt_outputs = deploy_outputs hash160 pubkey op_return change,
                pt_fee = fee, pt_change = change, pt_selected_value = carrier_total\<rparr>))"

definition call_fee :: "(bytes \<Rightarrow> bytes) \<Rightarrow> bytes \<Rightarrow> bytes \<Rightarrow> u64" where
  "call_fee hash160 pubkey op_return =
     zip317_fee_from_sizes (input_serialized_size p2pkh_script_sig_len)
       (output_serialized_size (length (op_return_script op_return))
        + output_serialized_size (length (p2pkh_script_pubkey hash160 pubkey)))"

definition call_plan ::
    "(bytes \<Rightarrow> bytes) \<Rightarrow> ('k \<Rightarrow> bytes) \<Rightarrow> 'k \<Rightarrow> 'o \<Rightarrow> u64 \<Rightarrow> bytes
      \<Rightarrow> (tx_error, ('k, 'o) prepared_tx) result" where
  "call_plan hash160 pubkey_of funding_key funding_outpoint funding_value op_return =
     (let pubkey = pubkey_of funding_key; fee = call_fee hash160 pubkey op_return in
      and_then (ok_or FundingTooSmall (checked_sub funding_value fee))
        (\<lambda>change.
          Ok \<lparr>pt_inputs = [p2pkh_input hash160 pubkey funding_key funding_outpoint funding_value],
              pt_outputs = [\<lparr>so_value = 0, so_script_pubkey = op_return_script op_return\<rparr>,
                change_output hash160 pubkey change],
              pt_fee = fee, pt_change = change, pt_selected_value = funding_value\<rparr>))"

section \<open>Assembly\<close>

text \<open>
  The parts of librustzcash and secp256k1 that \<open>build_transparent_tx\<close> calls: the value
  range check, the builder's validation of an input against its coin, the ZIP-244 signature
  hash of an input over the effecting data, DER signing, and the serializer and txid of the
  finished transaction.
\<close>

record ('k, 'o, 'b) effects =
  ef_branch :: 'b
  ef_lock_time :: u32
  ef_coins :: "('o \<times> u64 \<times> bytes) list"
  ef_outputs :: "spend_output list"

record ('k, 'o, 'b) final_tx =
  ft_branch :: 'b
  ft_lock_time :: u32
  ft_vin :: "('o \<times> bytes \<times> u32) list"
  ft_outputs :: "spend_output list"

record ('k, 'o, 'b) signing_lib =
  sl_zatoshis_ok :: "u64 \<Rightarrow> bool"
  sl_input_ok :: "('k, 'o) spend_input \<Rightarrow> bool"
  sl_sighash :: "('k, 'o, 'b) effects \<Rightarrow> nat \<Rightarrow> bytes \<Rightarrow> bytes \<Rightarrow> u64 \<Rightarrow> bytes"
  sl_sign_der :: "'k \<Rightarrow> bytes \<Rightarrow> bytes"
  sl_pubkey :: "'k \<Rightarrow> bytes"
  sl_serialize :: "('k, 'o, 'b) final_tx \<Rightarrow> bytes"
  sl_txid :: "('k, 'o, 'b) final_tx \<Rightarrow> tx_id"

record signed_tx =
  st_bytes :: bytes
  st_txid :: tx_id

datatype build_error = NoTransparentInputs | InvalidOutputValue | InputRejected

text \<open>The scriptSig of one input: the DER signature and the byte \<open>SIGHASH_ALL = 1\<close>.\<close>

definition sign_input ::
    "('k, 'o, 'b) signing_lib \<Rightarrow> ('k, 'o, 'b) effects \<Rightarrow> nat \<Rightarrow> ('k, 'o) spend_input \<Rightarrow> bytes" where
  "sign_input lib ef i inp =
     (let msg = sl_sighash lib ef i (si_script_code inp) (si_script_pubkey inp) (si_value inp) in
      case si_kind inp of
        P2pkh key \<Rightarrow> p2pkh_script_sig (sl_sign_der lib key msg @ [1]) (sl_pubkey lib key)
      | CarrierSpend key chunk_index chunk_data redeem \<Rightarrow>
          carrier_script_sig chunk_index chunk_data (sl_sign_der lib key msg @ [1]) redeem)"

definition assemble_tx ::
    "('k, 'o, 'b) signing_lib \<Rightarrow> ('k, 'o) spend_input list \<Rightarrow> spend_output list \<Rightarrow> u32 \<Rightarrow> 'b
      \<Rightarrow> (build_error, ('k, 'o, 'b) final_tx) result" where
  "assemble_tx lib inputs outputs lock_time branch =
     (if inputs = [] then Err NoTransparentInputs
      else if \<exists>o' \<in> set outputs. \<not> sl_zatoshis_ok lib (so_value o') then Err InvalidOutputValue
      else if \<exists>inp \<in> set inputs. \<not> (sl_zatoshis_ok lib (si_value inp) \<and> sl_input_ok lib inp)
      then Err InputRejected
      else
        let ef = \<lparr>ef_branch = branch, ef_lock_time = lock_time,
                  ef_coins = map (\<lambda>inp. (si_outpoint inp, si_value inp, si_script_pubkey inp)) inputs,
                  ef_outputs = outputs\<rparr>;
            sigs = map (\<lambda>(i, inp). sign_input lib ef i inp) (enumerate 0 inputs) in
        Ok \<lparr>ft_branch = branch, ft_lock_time = lock_time,
            ft_vin = map (\<lambda>(inp, sig). (si_outpoint inp, sig, 0xffffffff)) (zip inputs sigs),
            ft_outputs = outputs\<rparr>)"

definition build_transparent_tx ::
    "('k, 'o, 'b) signing_lib \<Rightarrow> ('k, 'o) spend_input list \<Rightarrow> spend_output list \<Rightarrow> u32 \<Rightarrow> 'b
      \<Rightarrow> (build_error, signed_tx) result" where
  "build_transparent_tx lib inputs outputs lock_time branch =
     and_then (assemble_tx lib inputs outputs lock_time branch)
       (\<lambda>tx. Ok \<lparr>st_bytes = sl_serialize lib tx, st_txid = sl_txid lib tx\<rparr>)"

section \<open>Value arithmetic\<close>

text \<open>The total of a list of amounts as a number.\<close>

definition total :: "u64 list \<Rightarrow> nat" where
  "total vs = sum_list (map unat vs)"

lemma total_simps [simp]: "total [] = 0" "total (v # vs) = unat v + total vs"
  "total (vs @ ws) = total vs + total ws"
  by (simp_all add: total_def)

lemma unat_sum_list: "unat (sum_list vs) = total vs mod 18446744073709551616"
  by (induction vs) (simp_all add: unat_word_ariths mod_add_right_eq)

lemma unat_sum_list_exact: "total vs < 18446744073709551616 \<Longrightarrow> unat (sum_list vs) = total vs"
  by (simp add: unat_sum_list)

lemma checked_sub_Some_iff: "checked_sub a b = Some c \<longleftrightarrow> unat a = unat b + unat c"
  by (auto simp: checked_sub_def word_le_nat_alt unat_sub) (metis add_diff_cancel_left' of_nat_unat
      ucast_id unat_sub word_le_nat_alt le_add1)

text \<open>What the amounts of a plan must satisfy, read as numbers.\<close>

definition value_conserved :: "('k, 'o) prepared_tx \<Rightarrow> bool" where
  "value_conserved p \<longleftrightarrow>
     unat (pt_selected_value p) = total (map si_value (pt_inputs p))
     \<and> total (map si_value (pt_inputs p)) = total (map so_value (pt_outputs p)) + unat (pt_fee p)"

lemma total_outputs [simp]:
  "total (map so_value (prepare_outputs hash160 pubkey carriers change)) = total carriers + unat change"
  "total (map so_value (deploy_outputs hash160 pubkey payload change)) = unat change"
  by (auto simp: prepare_outputs_def deploy_outputs_def change_output_def o_def word_gt_0)

lemma total_p2pkh_inputs [simp]:
  "map si_value (map (\<lambda>(outpoint, value). p2pkh_input hash160 pubkey key outpoint value) utxos)
     = map snd utxos"
  by (simp add: p2pkh_input_def case_prod_unfold)

lemma carrier_input_values [simp]:
  "length outpoints = length chunks \<Longrightarrow> length outpoints = length carriers \<Longrightarrow>
     map si_value (map (carrier_input hash160 pubkey key)
       (enumerate 0 (zip (zip outpoints carriers) chunks))) = carriers"
  by (rule nth_equalityI) (simp_all add: carrier_input_def nth_enumerate_eq)

lemma prepare_plan_conserved:
  assumes "prepare_plan hash160 pubkey_of key utxos carriers = Ok p"
    and "total (map snd utxos) < 18446744073709551616" "total carriers < 18446744073709551616"
  shows "value_conserved p"
  using assms(1) unat_sum_list_exact [OF assms(2)] unat_sum_list_exact [OF assms(3)]
  by (auto simp: prepare_plan_def Let_def checked_sub_Some_iff bind_eq_Some_conv value_conserved_def
      simp del: map_map split: if_splits)

lemma deploy_plan_conserved:
  assumes "deploy_plan hash160 pubkey_of key outpoints carriers chunks payload = Ok p"
    and "total carriers < 18446744073709551616"
  shows "value_conserved p"
  using assms(1) unat_sum_list_exact [OF assms(2)]
  by (auto simp: deploy_plan_def Let_def checked_sub_Some_iff value_conserved_def
      simp del: map_map split: if_splits)

lemma call_plan_conserved:
  "call_plan hash160 pubkey_of key outpoint v payload = Ok p \<Longrightarrow> value_conserved p"
  by (auto simp: call_plan_def Let_def value_conserved_def checked_sub_Some_iff p2pkh_input_def
      change_output_def)

lemma zip317_fee_from_sizes_exact:
  assumes "a \<le> 2 ^ 40" "b \<le> 2 ^ 40"
  shows "unat (zip317_fee_from_sizes a b) = 5000 * max (max (div_ceil a 150) (div_ceil b 34)) 2"
proof -
  let ?m = "max (div_ceil a 150) (div_ceil b 34)"
  have le: "div_ceil a 150 \<le> 2 ^ 40" "div_ceil b 34 \<le> 2 ^ 40"
    using assms by (simp_all add: div_ceil_def div_le_mono less_eq_div_iff_mult_less_eq
        div_less_iff_less_mult flip: less_Suc_eq_le)
  then have "?m \<le> 2 ^ 40" by simp
  then have "unat (of_nat ?m :: u64) = ?m" by simp
  then have "unat (max (of_nat ?m :: u64) 2) = max ?m 2"
    by (simp add: max_def word_le_nat_alt)
  then show ?thesis
    using \<open>?m \<le> 2 ^ 40\<close>
    by (simp add: zip317_fee_from_sizes_def Let_def unat_word_ariths) (simp add: max_def)
qed

section \<open>What an assembled transaction carries\<close>

lemma assemble_tx_vin:
  assumes "assemble_tx lib inputs outputs lt br = Ok tx"
  shows "length (ft_vin tx) = length inputs" "ft_outputs tx = outputs"
    and "\<exists>ef. \<forall>i < length inputs. ft_vin tx ! i =
      (si_outpoint (inputs ! i), sign_input lib ef i (inputs ! i), 0xffffffff)"
  using assms
  by (auto simp: assemble_tx_def Let_def nth_enumerate_eq split: if_splits)

lemma deploy_plan_inputs:
  assumes "deploy_plan hash160 pubkey_of key outpoints carriers chunks payload = Ok p"
  shows "length (pt_inputs p) = length chunks" "length outpoints = length chunks"
    and "i < length chunks \<Longrightarrow> si_kind (pt_inputs p ! i)
      = CarrierSpend key (of_nat i) (chunks ! i) (redeem_script (pubkey_of key))"
    and "pt_outputs p ! 0 = \<lparr>so_value = 0, so_script_pubkey = op_return_script payload\<rparr>"
    and "pt_outputs p \<noteq> []"
  using assms
  by (auto simp: deploy_plan_def Let_def carrier_input_def nth_enumerate_eq deploy_outputs_def
      split: if_splits)

lemma sign_carrier_chunk:
  assumes "si_kind inp = CarrierSpend key i d redeem" "d \<noteq> []" "length redeem \<le> 0xffff"
    and "\<And>k msg. length (sl_sign_der lib k msg) < 0xffff"
  shows "chunk_from_script_sig (sign_input lib ef n inp) = Some (i, d)"
proof -
  have "length (sl_sign_der lib k msg @ [1]) \<le> 0xffff" for k msg
    using assms(4) [of k msg] by simp
  then show ?thesis
    using assms(1-3) by (simp add: sign_input_def Let_def chunk_from_carrier_script_sig)
qed

lemma deploy_tx_chunks:
  assumes plan: "deploy_plan hash160 pubkey_of key outpoints carriers chunks payload = Ok p"
    and tx: "assemble_tx lib (pt_inputs p) (pt_outputs p) lt br = Ok tx"
    and ne: "\<And>d. d \<in> set chunks \<Longrightarrow> d \<noteq> []"
    and pk: "length (pubkey_of key) = 33"
    and der: "\<And>k msg. length (sl_sign_der lib k msg) < 0xffff"
  shows "map (\<lambda>(_, script_sig, _). chunk_from_script_sig script_sig) (ft_vin tx)
      = map (\<lambda>(i, d). Some (of_nat i, d)) (enumerate 0 chunks)"
proof (rule nth_equalityI)
  note ins = deploy_plan_inputs [OF plan] and vin = assemble_tx_vin [OF tx]
  show "length (map (\<lambda>(_, script_sig, _). chunk_from_script_sig script_sig) (ft_vin tx))
      = length (map (\<lambda>(i, d). Some (of_nat i :: u8, d)) (enumerate 0 chunks))"
    by (simp add: vin ins)
  fix i assume "i < length (map (\<lambda>(_, script_sig, _). chunk_from_script_sig script_sig) (ft_vin tx))"
  then have i: "i < length chunks" by (simp add: vin ins)
  obtain ef where "ft_vin tx ! i =
      (si_outpoint (pt_inputs p ! i), sign_input lib ef i (pt_inputs p ! i), 0xffffffff)"
    using vin(3) i ins(1) by auto
  moreover have "chunk_from_script_sig (sign_input lib ef i (pt_inputs p ! i)) = Some (of_nat i, chunks ! i)"
    using sign_carrier_chunk [OF ins(3) [OF i] ne [OF nth_mem [OF i]] _ der] pk
    by (simp add: redeem_script_def)
  ultimately show "map (\<lambda>(_, script_sig, _). chunk_from_script_sig script_sig) (ft_vin tx) ! i
      = map (\<lambda>(i, d). Some (of_nat i, d)) (enumerate 0 chunks) ! i"
    using i vin(1) ins(1) by (simp add: nth_enumerate_eq)
qed

text \<open>PREPARE, DEPLOY and CALL conserve value: the inputs pay for the outputs and the fee
  exactly, whenever the totals they are given fit in 64 bits, so no wrapping sum can mint or
  burn money.\<close>

theorem plans_conserve_value:
  assumes "total (map snd utxos) < 2 ^ 64" "total carriers < 2 ^ 64"
  shows "(prepare_plan hash160 pubkey_of key utxos carriers = Ok p \<longrightarrow> value_conserved p)
    \<and> (deploy_plan hash160 pubkey_of key outpoints carriers chunks payload = Ok q \<longrightarrow> value_conserved q)
    \<and> (call_plan hash160 pubkey_of key outpoint v payload = Ok r \<longrightarrow> value_conserved r)"
  using assms prepare_plan_conserved [of hash160 pubkey_of key utxos carriers p]
    deploy_plan_conserved [of hash160 pubkey_of key outpoints carriers chunks payload q]
    call_plan_conserved [of hash160 pubkey_of key outpoint v payload r]
  by simp

end
