(* ===== verification/Pipeline.thy ===== *)
theory Pipeline
  imports Indexer_Props Tx_Plan
begin

text \<open>
  Across the crates: the DEPLOY transaction that \<open>zalkanes-tx\<close> plans and signs, read back by
  \<open>zalkanes-indexer\<close> through the parsers of \<open>zalkanes-protocol\<close> and \<open>zalkanes-carrier\<close>.
\<close>

section \<open>What the indexer sees of an assembled transaction\<close>

text \<open>The entry of \<open>zb_vtx\<close> for a transaction that was mined: txid and transparent scripts.\<close>

definition mined :: "tx_id \<Rightarrow> ('k, 'o, 'b) final_tx \<Rightarrow> tx_id \<times> (bytes list \<times> bytes list) option" where
  "mined txid tx =
     (txid, Some (map (\<lambda>(outpoint, script_sig, seq). script_sig) (ft_vin tx),
                  map so_script_pubkey (ft_outputs tx)))"

lemma map_filter_map: "List.map_filter f (map g xs) = List.map_filter (f \<circ> g) xs"
  by (induction xs) (simp_all add: map_filter_simps split: option.split)

lemma map_filter_enumerate:
  "map f xs = map (\<lambda>(i, d). Some (g i d)) (enumerate n ds) \<Longrightarrow>
     List.map_filter (\<lambda>(i, x). f x) (enumerate k xs) = map (\<lambda>(i, d). g i d) (enumerate n ds)"
proof (induction xs arbitrary: n k ds)
  case (Cons x xs)
  then obtain d ds' where ds: "ds = d # ds'" by (cases ds) auto
  with Cons.prems have "f x = Some (g n d)" "map f xs = map (\<lambda>(i, d). Some (g i d)) (enumerate (Suc n) ds')"
    by simp_all
  with Cons.IH [OF this(2)] show ?case by (simp add: ds map_filter_simps)
next
  case Nil
  then have "ds = []" by (cases ds) auto
  then show ?case by (simp add: map_filter_simps)
qed

lemma mined_chunks:
  assumes "map (\<lambda>(_, script_sig, _). chunk_from_script_sig script_sig) (ft_vin tx)
      = map (\<lambda>(i, d). Some (of_nat i, d)) (enumerate 0 chunks)"
  shows "carrier_chunks (parse_transaction (mined txid tx)) = number_chunks chunks"
proof -
  let ?f = "\<lambda>s. map_option (\<lambda>(index, data). \<lparr>ch_index = index, ch_data = data\<rparr>) (chunk_from_script_sig s)"
  let ?sigs = "map (\<lambda>(outpoint, script_sig, seq). script_sig) (ft_vin tx)"
  have "map ?f ?sigs = map (map_option (\<lambda>(index, data). \<lparr>ch_index = index, ch_data = data\<rparr>))
      (map (\<lambda>(_, script_sig, _). chunk_from_script_sig script_sig) (ft_vin tx))"
    by (simp add: case_prod_unfold)
  also have "\<dots> = map (\<lambda>(i, d). Some \<lparr>ch_index = of_nat i, ch_data = d\<rparr>) (enumerate 0 chunks)"
    by (simp only: assms) (simp add: case_prod_unfold)
  finally have "List.map_filter (\<lambda>(i, s). ?f s) (enumerate 0 ?sigs)
      = map (\<lambda>(i, d). \<lparr>ch_index = of_nat i, ch_data = d\<rparr>) (enumerate 0 chunks)"
    by (rule map_filter_enumerate)
  then show ?thesis
    by (simp add: carrier_chunks_def parse_transaction_def mined_def number_chunks_def map_filter_map
        comp_def case_prod_unfold)
qed

lemma reconstruct_number_chunks:
  assumes "split_chunks wasm = Ok chunks"
  shows "reconstruct sha (number_chunks chunks) (of_nat (length chunks)) (of_nat (length wasm)) (sha wasm) = Ok wasm"
proof -
  have w: "wasm \<noteq> []" "length wasm \<le> 262144" "concat chunks = wasm"
    using assms concat_chunks_of [of CHUNK_PAYLOAD_SIZE wasm] by (auto simp: split_chunks_Ok_iff params)
  have n: "length chunks \<le> 188"
    using split_chunks_count [OF assms] by (simp add: params)
  have len: "unat (of_nat (length wasm) :: u32) = length wasm"
    using w(2) by (simp add: unat_of_nat)
  then have "(0 :: u32) < of_nat (length wasm)" "(of_nat (length wasm) :: u32) \<le> MAX_CODE_BYTES"
    using w(1,2) by (simp_all add: word_less_nat_alt word_le_nat_alt params)
  moreover have "unat (of_nat (length chunks) :: u8) = length chunks"
    using n by (simp add: unat_of_nat)
  ultimately show ?thesis
    unfolding reconstruct_Ok_iff using len w(3) by (intro conjI exI [of _ chunks]) simp_all
qed

lemma change_has_no_message: "output_message (p2pkh_script_pubkey hash160 pubkey) = None"
  by (simp add: output_message_def extract_op_return_data_def p2pkh_script_pubkey_def)

section \<open>A deployment, end to end\<close>

definition deploy_message_for :: "sha \<Rightarrow> bytes \<Rightarrow> bytes list \<Rightarrow> deploy_message" where
  "deploy_message_for sha wasm chunks =
     \<lparr>dm_code_hash = sha wasm, dm_code_length = of_nat (length wasm),
      dm_chunk_count = of_nat (length chunks), dm_output_index = 0\<rparr>"

lemma deploy_outputs_messages:
  assumes "deploy_plan hash160 pubkey_of key outpoints carriers chunks (encode_message m) = Ok p"
    and "accepted_message m" "length (encode_message m) \<le> 0xffff"
  obtains rest where "map so_script_pubkey (pt_outputs p) = op_return_script (encode_message m) # rest"
    "\<forall>s \<in> set rest. output_message s = None"
proof -
  have "pt_outputs p = deploy_outputs hash160 (pubkey_of key) (encode_message m) (pt_change p)"
    using assms(1) by (auto simp: deploy_plan_def Let_def split: if_splits)
  then show thesis
    using change_has_no_message by (intro that) (auto simp: deploy_outputs_def change_output_def)
qed

lemma process_outputs_silent:
  "\<forall>(i, s) \<in> set outs. output_message s = None \<Longrightarrow> process_outputs lib ops st config tx outs p = Some p"
  by (induction outs) auto

text \<open>A transaction whose first output is a DEPLOY message and whose chunks reconstruct.\<close>

lemma reconstructed_deploy_commit:
  assumes outs: "px_outputs px = (0, op_return_script (encode_message (Deploy d))) # others"
    and silent: "\<forall>(i, s) \<in> set others. output_message s = None"
    and valid: "accepted_message (Deploy d)" and idx: "dm_output_index d = 0"
    and code: "reconstruct (nl_sha lib) (carrier_chunks px) (dm_chunk_count d) (dm_code_length d) (dm_code_hash d) = Ok wasm"
    and cid: "cid = derive_contract_id (nl_blake lib) (ic_network config) (px_txid px) 0 (dm_code_hash d)"
    and free: "\<not> so_has_contract ops st cid" and module: "validate_module (nl_engine lib) wasm = Ok ()"
  shows "\<exists>q. process_transactions lib ops st config [px] (start_block h hash) = Some q
    \<and> pg_commit q = (empty_commit h hash)\<lparr>bc_deploys := [(cid, dm_code_hash d, wasm)]\<rparr> \<and> pg_deployed q = [cid]"
proof -
  have msg: "output_message (op_return_script (encode_message (Deploy d))) = Some (Deploy d)"
    by (rule output_message_op_return [OF valid]) (simp add: encode_deploy_def params)
  have h: "handle_deploy lib ops st config px d q = add_deploy (cid, dm_code_hash d, wasm) q" for q
    using free module by (simp add: handle_deploy_def code cid idx add_deploy_def Let_def)
  let ?q = "add_deploy_bytes (dm_code_length d) (count_message (start_block h hash))"
  have reset: "(start_block h hash)\<lparr>pg_tx_fuel := 0, pg_tx_messages := 0\<rparr> = start_block h hash"
    by (simp add: start_block_def)
  have len: "unat (dm_code_length d) \<le> 262144"
    using valid by (simp add: word_le_nat_alt params)
  have caps: "\<not> over_message_cap (count_message (start_block h hash))"
    "\<not> bl_carrier_bytes (pg_limits ?q) > MAX_CARRIER_BYTES_PER_BLOCK"
    "\<not> bl_deploy_bytes (pg_limits ?q) > MAX_DEPLOY_BYTES_PER_BLOCK"
    using len
    by (simp_all add: over_message_cap_def count_message_def start_block_def no_limits_used_def
        add_deploy_bytes_def word_less_nat_alt unat_saturating_add64 params)
  have "process_transactions lib ops st config [px] (start_block h hash)
      = Some (add_deploy (cid, dm_code_hash d, wasm) ?q)"
    using caps
    by (simp add: process_transaction_def outs reset msg process_outputs_silent [OF silent] h Let_def idx
        del: encode_message.simps)
  then show ?thesis
    by (simp add: add_deploy_def add_deploy_bytes_def count_message_def start_block_def empty_commit_def)
qed

lemma reconstructed_deploy_lands:
  assumes outs: "px_outputs px = (0, op_return_script (encode_message (Deploy d))) # others"
    and silent: "\<forall>(i, s) \<in> set others. output_message s = None"
    and valid: "accepted_message (Deploy d)" and idx: "dm_output_index d = 0"
    and code: "reconstruct (nl_sha lib) (carrier_chunks px) (dm_chunk_count d) (dm_code_length d) (dm_code_hash d) = Ok wasm"
    and cid: "cid = derive_contract_id (nl_blake lib) (ic_network config) (px_txid px) 0 (dm_code_hash d)"
    and free: "\<not> so_has_contract ops st cid" and module: "validate_module (nl_engine lib) wasm = Ok ()"
  shows "\<exists>q. process_transactions lib ops st config [px] (start_block h hash) = Some q
    \<and> bc_deploys (pg_commit q) = [(cid, dm_code_hash d, wasm)] \<and> pg_deployed q = [cid]"
proof -
  from reconstructed_deploy_commit [OF assms] obtain q where
    "process_transactions lib ops st config [px] (start_block h hash) = Some q"
    "pg_commit q = (empty_commit h hash)\<lparr>bc_deploys := [(cid, dm_code_hash d, wasm)]\<rparr>" "pg_deployed q = [cid]"
    by blast
  then show ?thesis by (intro exI [of _ q]) simp
qed

lemma mined_outputs:
  assumes "map so_script_pubkey (ft_outputs tx) = s # rest" "\<forall>s \<in> set rest. output_message s = None"
  obtains others where "px_outputs (parse_transaction (mined txid tx)) = (0, s) # others"
    "\<forall>(i, s) \<in> set others. output_message s = None" "px_txid (parse_transaction (mined txid tx)) = txid"
proof (rule that)
  show "px_outputs (parse_transaction (mined txid tx)) = (0, s) # map (\<lambda>(i, s). (of_nat i, s)) (enumerate 1 rest)"
    by (simp add: parse_transaction_def mined_def assms(1))
  show "\<forall>(i, s) \<in> set (map (\<lambda>(i, s). (of_nat i, s)) (enumerate 1 rest)). output_message s = None"
    using assms(2) by (auto simp: enumerate_eq_zip dest: set_zip_rightD)
qed (simp add: parse_transaction_def mined_def)

text \<open>C3. What the transaction builder makes, the indexer deploys: a module split into chunks,
  planned into a DEPLOY transaction, assembled and signed, then mined alone in a block, is in
  the block's commit under its derived contract id, byte for byte, if it validates and its
  id is free.\<close>

theorem deploy_lands:
  assumes "split_chunks wasm = Ok chunks"
    and "deploy_plan hash160 pubkey_of key outpoints carriers chunks
      (encode_message (Deploy (deploy_message_for (nl_sha lib) wasm chunks))) = Ok p"
    and "assemble_tx slib (pt_inputs p) (pt_outputs p) lock_time branch = Ok tx"
    and "length (pubkey_of key) = 33" "\<forall>k msg. length (sl_sign_der slib k msg) < 0xffff"
    and "cid = derive_contract_id (nl_blake lib) (ic_network config) txid 0 (nl_sha lib wasm)"
    and "\<not> so_has_contract ops st cid" "validate_module (nl_engine lib) wasm = Ok ()"
  shows "\<exists>q. process_transactions lib ops st config [parse_transaction (mined txid tx)] (start_block h hash) = Some q
    \<and> bc_deploys (pg_commit q) = [(cid, nl_sha lib wasm, wasm)] \<and> pg_deployed q = [cid]"
proof -
  let ?d = "deploy_message_for (nl_sha lib) wasm chunks"
  let ?px = "parse_transaction (mined txid tx)"
  have w: "wasm \<noteq> []" "length wasm \<le> 262144" and n: "1 \<le> length chunks" "length chunks \<le> 188"
    using assms(1) split_chunks_count [OF assms(1)] by (simp_all add: split_chunks_Ok_iff params)
  have len: "unat (of_nat (length wasm) :: u32) = length wasm" "unat (of_nat (length chunks) :: u8) = length chunks"
    using w(2) n by (simp_all add: unat_of_nat)
  have nz: "(of_nat (length chunks) :: u8) \<noteq> 0" "(of_nat (length wasm) :: u32) \<noteq> 0"
    using len n(1) w(1) by (metis unat_0 not_one_le_zero, metis unat_0 length_0_conv)
  have valid: "accepted_message (Deploy ?d)"
    using w n len nz by (simp add: deploy_message_for_def word_less_nat_alt word_le_nat_alt params)
  have short: "length (encode_message (Deploy ?d)) \<le> 0xffff"
    by (simp add: encode_deploy_def params)
  obtain rest where out: "map so_script_pubkey (pt_outputs p) = op_return_script (encode_message (Deploy ?d)) # rest"
    "\<forall>s \<in> set rest. output_message s = None"
    using deploy_outputs_messages [OF assms(2) valid short] .
  obtain others where px: "px_outputs ?px = (0, op_return_script (encode_message (Deploy ?d))) # others"
    "\<forall>(i, s) \<in> set others. output_message s = None" "px_txid ?px = txid"
    using mined_outputs [OF out [folded assemble_tx_vin(2) [OF assms(3)]]] .
  have "d \<noteq> []" if "d \<in> set chunks" for d
    using assms(1) that chunks_of_lengths [of d] by (auto simp: split_chunks_Ok_iff)
  then have chunks: "carrier_chunks ?px = number_chunks chunks"
    using assms(4,5) by (intro mined_chunks deploy_tx_chunks [OF assms(2,3)]) auto
  have fields: "dm_code_hash ?d = nl_sha lib wasm" "dm_code_length ?d = of_nat (length wasm)"
    "dm_chunk_count ?d = of_nat (length chunks)" "dm_output_index ?d = 0"
    by (simp_all add: deploy_message_for_def)
  have code: "reconstruct (nl_sha lib) (carrier_chunks ?px) (dm_chunk_count ?d) (dm_code_length ?d) (dm_code_hash ?d) = Ok wasm"
    using reconstruct_number_chunks [OF assms(1)] by (simp add: chunks fields)
  show ?thesis
    using reconstructed_deploy_lands [OF px(1,2) valid fields(4) code _ assms(7,8)] assms(6)
    by (simp add: fields px(3))
qed

text \<open>A one-byte module, its carrier output and its transaction.\<close>

definition demo_signing :: "(unit, unit, unit) signing_lib" where
  "demo_signing =
     \<lparr>sl_zatoshis_ok = \<lambda>_. True, sl_input_ok = \<lambda>_. True, sl_sighash = \<lambda>_ _ _ _ _. [],
      sl_sign_der = \<lambda>_ _. [48], sl_pubkey = \<lambda>_. replicate 33 2, sl_serialize = \<lambda>_. [],
      sl_txid = \<lambda>_. fill32 4\<rparr>"

lemma demo_split: "split_chunks [9] = Ok [[9]]"
  by (simp add: split_chunks_Ok_iff params chunks_of_short)

lemma demo_deploy_plan:
  "\<exists>p tx. deploy_plan (\<lambda>_. replicate 20 0) (\<lambda>_. replicate 33 2) () [()] [100000] [[9]]
      (encode_message (Deploy (deploy_message_for (\<lambda>x. fill32 0) [9] [[9]]))) = Ok p
    \<and> assemble_tx demo_signing (pt_inputs p) (pt_outputs p) 0 () = Ok tx"
  by (simp add: deploy_plan_def deploy_fee_def carrier_input_def deploy_outputs_def Let_def
      assemble_tx_def demo_signing_def checked_sub_def zip317_fee_from_sizes_def div_ceil_def params
      input_serialized_size_def output_serialized_size_def serialized_script_size_def
      carrier_script_sig_len_def chunk_pushes_len.simps push_overhead_def p2pkh_script_pubkey_def
      op_return_script_def push_data_def encode_deploy_def deploy_message_for_def
      u16_to_be_bytes_def u32_to_be_bytes_def)

lemma deploy_lands_witness:
  "\<exists>(p :: (unit, unit) prepared_tx) tx q. assemble_tx demo_signing (pt_inputs p) (pt_outputs p) 0 () = Ok tx
    \<and> process_transactions demo_lib (memory_ops (\<lambda>p x. fill32 0)) memory_new demo_config
        [parse_transaction (mined (fill32 4) tx)] (start_block 5 (fill32 9)) = Some q
    \<and> bc_deploys (pg_commit q) = [(fill32 0, fill32 0, [9])]"
proof -
  obtain p tx where plan: "deploy_plan (\<lambda>_. replicate 20 0) (\<lambda>_. replicate 33 2) () [()] [100000] [[9]]
      (encode_message (Deploy (deploy_message_for (nl_sha demo_lib) [9] [[9]]))) = Ok p"
    and tx: "assemble_tx demo_signing (pt_inputs p) (pt_outputs p) 0 () = Ok tx"
    using demo_deploy_plan by (auto simp: demo_lib_def)
  have "validate_module (nl_engine demo_lib) [9] = Ok ()"
    by (simp add: demo_lib_def validate_module_def demo_engine_def parse_module_contained_def
        count_module_entities_def check_counts_def params)
  moreover have "fill32 0 = derive_contract_id (nl_blake demo_lib) (ic_network demo_config) (fill32 4) 0
      (nl_sha demo_lib [9])"
    by (simp add: derive_contract_id_def demo_lib_def)
  moreover have "\<not> so_has_contract (memory_ops (\<lambda>p x. fill32 0)) memory_new (fill32 0)"
    by (simp add: memory_ops_def memory_new_def)
  ultimately have run: "\<exists>q. process_transactions demo_lib (memory_ops (\<lambda>p x. fill32 0)) memory_new demo_config
        [parse_transaction (mined (fill32 4) tx)] (start_block 5 (fill32 9)) = Some q
    \<and> bc_deploys (pg_commit q) = [(fill32 0, nl_sha demo_lib [9], [9])] \<and> pg_deployed q = [fill32 0]"
    by (intro deploy_lands [OF demo_split plan tx]) (simp_all add: demo_signing_def)
  have sha: "nl_sha demo_lib [9] = fill32 0" by (simp add: demo_lib_def)
  show ?thesis using tx run unfolding sha by blast
qed

end
