(* ===== verification/State_Root.thy ===== *)
theory State_Root
  imports State_Spec "HOL-Library.Multiset"
begin

text \<open>
  What the state root commits to: the leaf encodings are injective, the root does not depend on
  the order of the leaves, and two states with the same contracts and the same root are equal
  unless BLAKE2b collides on one of the strings hashed for them.
\<close>

section \<open>Encodings\<close>

lemma storage_leaf_input_inject:
  assumes "length k < 2 ^ 16" "length k' < 2 ^ 16" "length v < 2 ^ 32" "length v' < 2 ^ 32"
  shows "storage_leaf_input c k v = storage_leaf_input c' k' v' \<longleftrightarrow> c = c' \<and> k = k' \<and> v = v'"
proof
  assume eq: "storage_leaf_input c k v = storage_leaf_input c' k' v'"
  then have c: "c = c'"
    and rest: "u16_to_be_bytes (of_nat (length k)) @ k @ u32_to_be_bytes (of_nat (length v)) @ v
      = u16_to_be_bytes (of_nat (length k')) @ k' @ u32_to_be_bytes (of_nat (length v')) @ v'"
    by (simp_all add: storage_leaf_input_def Let_def)
  from rest have "(of_nat (length k) :: u16) = of_nat (length k')"
    and rest': "k @ u32_to_be_bytes (of_nat (length v)) @ v = k' @ u32_to_be_bytes (of_nat (length v')) @ v'"
    by (simp_all add: append_eq_append_conv)
  then have "length k mod 65536 = length k' mod 65536"
    by (metis unat_of_nat_u16)
  then have "length k = length k'"
    using assms(1,2) by simp
  with rest' c show "c = c' \<and> k = k' \<and> v = v'"
    by (simp add: append_eq_append_conv)
qed simp

lemma concat_bytes_of_inject [simp]:
  "concat (map bytes_of xs) = concat (map bytes_of ys) \<longleftrightarrow> xs = ys"
proof (induction xs arbitrary: ys)
  case Nil
  then show ?case by (cases ys) (auto dest: arg_cong [where f = length])
next
  case (Cons x xs)
  then show ?case by (cases ys) (auto dest: arg_cong [where f = length])
qed

definition leaf_inputs :: "contents \<Rightarrow> bytes list" where
  "leaf_inputs x =
     map (\<lambda>(cid, ch, wasm). contract_leaf_input cid ch wasm) (contract_list (fst x))
     @ map (\<lambda>(cid, key, val). storage_leaf_input cid key val) (storage_list (snd x))"

definition root_input :: "blake \<Rightarrow> contents \<Rightarrow> bytes" where
  "root_input blake x =
     concat (map bytes_of (sort (map (blake STATE_LEAF_PERSONALIZATION) (leaf_inputs x))))"

lemma contents_root_eq:
  "contents_root blake x = blake STATE_ROOT_PERSONALIZATION (root_input blake x)"
  by (simp add: contents_root_def root_from_leaves_def root_input_def leaves_of_def leaf_inputs_def
      contract_leaf_def storage_leaf_def case_prod_unfold o_def)

text \<open>The root of a list of leaves is a function of their multiset.\<close>

lemma root_from_leaves_mset:
  "mset xs = mset ys \<Longrightarrow> root_from_leaves blake xs = root_from_leaves blake ys"
  by (metis root_from_leaves_def sorted_list_of_multiset_mset)

section \<open>Binding\<close>

text \<open>The personalized strings that are hashed to compute a root.\<close>

definition hashed :: "blake \<Rightarrow> contents \<Rightarrow> (bytes \<times> bytes) set" where
  "hashed blake x =
     insert (STATE_ROOT_PERSONALIZATION, root_input blake x)
       ((\<lambda>a. (STATE_LEAF_PERSONALIZATION, a)) ` set (leaf_inputs x))"

definition encodable :: "storage \<Rightarrow> bool" where
  "encodable s \<longleftrightarrow> (\<forall>((cid, key), val) \<in> set (om_entries s). length key < 2 ^ 16 \<and> length val < 2 ^ 32)"

lemma mset_map_inject:
  assumes "inj_on f (set xs \<union> set ys)" "mset (map f xs) = mset (map f ys)"
  shows "mset xs = mset ys"
proof -
  let ?g = "inv_into (set xs \<union> set ys) f"
  have "map ?g (map f zs) = zs" if "set zs \<subseteq> set xs \<union> set ys" for zs
    using that assms(1) by (auto intro!: map_idI inv_into_f_f)
  then have "mset zs = image_mset ?g (mset (map f zs))" if "set zs \<subseteq> set xs \<union> set ys" for zs
    using that by (metis mset_map)
  then show ?thesis using assms(2) by (metis Un_upper1 Un_upper2)
qed

lemma storage_mset_inject:
  assumes "encodable s" "encodable s'"
    and "mset (map (\<lambda>(cid, key, val). storage_leaf_input cid key val) (storage_list s))
       = mset (map (\<lambda>(cid, key, val). storage_leaf_input cid key val) (storage_list s'))"
  shows "s = s'"
proof -
  let ?f = "\<lambda>((cid, key), val). storage_leaf_input cid key val"
  have "inj_on ?f (set (om_entries s) \<union> set (om_entries s'))"
  proof (rule inj_onI)
    fix p q assume pq: "p \<in> set (om_entries s) \<union> set (om_entries s')"
      "q \<in> set (om_entries s) \<union> set (om_entries s')" "?f p = ?f q"
    obtain c k v c' k' v' where e: "p = ((c, k), v)" "q = ((c', k'), v')" by (cases p; cases q) auto
    have "length k < 2 ^ 16" "length k' < 2 ^ 16" "length v < 2 ^ 32" "length v' < 2 ^ 32"
      using pq(1,2) assms(1,2) unfolding e encodable_def by auto
    from storage_leaf_input_inject [OF this] pq(3) show "p = q" by (simp add: e)
  qed
  moreover have "mset (map ?f (om_entries s)) = mset (map ?f (om_entries s'))"
    using assms(3) by (simp add: storage_list_def case_prod_unfold o_def)
  ultimately have "mset (om_entries s) = mset (om_entries s')" by (rule mset_map_inject)
  then have "set (om_entries s) = set (om_entries s')" by (rule mset_eq_setD)
  then have "om_get s ck = Some v \<longleftrightarrow> om_get s' ck = Some v" for ck v
    by (metis om_entries_get)
  then show ?thesis by (intro om_ext) (metis not_None_eq)
qed

text \<open>The state root binds the storage: for the same deployed contracts, two states with
  equal roots have the same storage, unless BLAKE2b maps two different strings among those
  hashed for the two states to the same digest.\<close>

theorem root_binds_storage:
  assumes "contents_root blake x = contents_root blake y" "fst x = fst y"
    and "encodable (snd x)" "encodable (snd y)"
  shows "x = y \<or> (\<exists>p a b. (p, a) \<in> hashed blake x \<and> (p, b) \<in> hashed blake y
    \<and> a \<noteq> b \<and> blake p a = blake p b)"
proof (rule disjCI)
  assume "\<not> (\<exists>p a b. (p, a) \<in> hashed blake x \<and> (p, b) \<in> hashed blake y \<and> a \<noteq> b \<and> blake p a = blake p b)"
  then have inj: "a = b" if "(p, a) \<in> hashed blake x" "(p, b) \<in> hashed blake y" "blake p a = blake p b" for p a b
    using that by blast
  let ?h = "blake STATE_LEAF_PERSONALIZATION"
  have leaf: "a = b" if "a \<in> set (leaf_inputs x)" "b \<in> set (leaf_inputs y)" "?h a = ?h b" for a b
    using that by (intro inj) (auto simp: hashed_def)
  have "root_input blake x = root_input blake y"
    using assms(1) by (intro inj) (auto simp: hashed_def contents_root_eq)
  then have "sort (map ?h (leaf_inputs x)) = sort (map ?h (leaf_inputs y))"
    by (simp add: root_input_def)
  then have m: "mset (map ?h (leaf_inputs x)) = mset (map ?h (leaf_inputs y))"
    by (metis mset_sort)
  then have hs: "?h ` set (leaf_inputs x) = ?h ` set (leaf_inputs y)"
    by (metis list.set_map mset_eq_setD)
  have same: "set (leaf_inputs x) = set (leaf_inputs y)"
  proof (intro equalityI subsetI)
    fix a assume "a \<in> set (leaf_inputs x)"
    moreover from this hs obtain b where "b \<in> set (leaf_inputs y)" "?h a = ?h b" by blast
    ultimately show "a \<in> set (leaf_inputs y)" using leaf by blast
  next
    fix b assume "b \<in> set (leaf_inputs y)"
    moreover from this hs obtain a where "a \<in> set (leaf_inputs x)" "?h a = ?h b"
      by (metis imageE imageI)
    ultimately show "b \<in> set (leaf_inputs x)" using leaf by blast
  qed
  then have "inj_on ?h (set (leaf_inputs x) \<union> set (leaf_inputs y))"
    using leaf by (auto intro!: inj_onI)
  from mset_map_inject [OF this m] have "mset (leaf_inputs x) = mset (leaf_inputs y)" .
  then have "snd x = snd y"
    using assms(2-4) by (intro storage_mset_inject) (simp_all add: leaf_inputs_def)
  with assms(2) show "x = y" by (simp add: prod_eq_iff)
qed

definition one_entry :: "u8 \<Rightarrow> contents" where
  "one_entry b = (om_empty, om_insert (fill32 1, [2]) [b] om_empty)"

section \<open>A shared personalization\<close>

text \<open>
  Contract and storage leaves are hashed under one personalization and with no tag, so a
  contract whose code hash starts with \<open>00 1e\<close> and a storage entry under a 30-byte key can
  be the same leaf, whatever the hash function is. The states below are not reachable (storage
  without its contract), which is why the binding above fixes the contracts.
\<close>

definition overlap_key :: bytes where
  "overlap_key = replicate 30 5"

definition overlap_contract :: contents where
  "overlap_contract = (om_insert (fill32 1) (mk32 ([0, 30] @ overlap_key), [9]) om_empty, om_empty)"

definition overlap_storage :: contents where
  "overlap_storage = (om_empty, om_insert (fill32 1, overlap_key) [9] om_empty)"

lemma leaves_not_separated:
  "overlap_contract \<noteq> overlap_storage
    \<and> (\<forall>blake. contents_root blake overlap_contract = contents_root blake overlap_storage)"
proof -
  have u: "u16_to_be_bytes 30 = [0, 30]" by (simp add: u16_to_be_bytes_def)
  have "length ([0, 30] @ overlap_key) = 32" "length overlap_key = 30"
    by (simp_all add: overlap_key_def)
  then have "leaf_inputs overlap_contract = leaf_inputs overlap_storage"
    by (simp add: leaf_inputs_def overlap_contract_def overlap_storage_def contract_list_def
        storage_list_def om_eval contract_leaf_input_def storage_leaf_input_def Let_def u)
  moreover have "overlap_contract \<noteq> overlap_storage"
    by (simp add: overlap_contract_def overlap_storage_def om_eq_iff om_eval)
  ultimately show ?thesis by (simp add: contents_root_eq root_input_def)
qed

end
