(* ===== verification/Health.thy ===== *)
theory Health
  imports Core
begin

text \<open>
  The liveness record of the indexing loop (\<open>IndexerHealth\<close> in \<open>zalkanes-indexer/src/sync.rs\<close>).
  An \<open>Instant\<close> and a \<open>Duration\<close> are numbers of nanoseconds; \<open>saturating_duration_since\<close> is
  subtraction on \<open>nat\<close>.
\<close>

section \<open>State\<close>

type_synonym instant = nat
type_synonym duration = nat

record sync_config =
  sc_poll_interval :: duration
  sc_stale_after :: duration

definition default_sync_config :: sync_config where
  "default_sync_config = \<lparr>sc_poll_interval = 3 * 10 ^ 9, sc_stale_after = 120 * 10 ^ 9\<rparr>"

record indexer_status =
  is_started_at :: instant
  is_last_tick_ok :: "instant option"
  is_last_progress :: "instant option"
  is_indexed_height :: "u32 option"
  is_tip_height :: "u32 option"
  is_consecutive_failures :: u32
  is_total_failures :: u64
  is_last_error :: "string option"
  is_dead :: "string option"

datatype liveness =
    Starting
  | Healthy bool
  | Stalled duration "string option"
  | Dead string

section \<open>Operations\<close>

definition health_new_at :: "instant \<Rightarrow> indexer_status" where
  "health_new_at started =
     \<lparr>is_started_at = started, is_last_tick_ok = None, is_last_progress = None,
      is_indexed_height = None, is_tip_height = None, is_consecutive_failures = 0,
      is_total_failures = 0, is_last_error = None, is_dead = None\<rparr>"

definition record_tick_ok :: "u32 option \<Rightarrow> u32 \<Rightarrow> bool \<Rightarrow> instant \<Rightarrow> indexer_status \<Rightarrow> indexer_status" where
  "record_tick_ok indexed tip advanced now s =
     s\<lparr>is_last_tick_ok := Some now,
       is_last_progress := (if advanced then Some now else is_last_progress s),
       is_indexed_height := indexed, is_tip_height := Some tip, is_consecutive_failures := 0\<rparr>"

definition saturating_inc32 :: "u32 \<Rightarrow> u32" where
  "saturating_inc32 w = (if w = - 1 then - 1 else w + 1)"

definition record_failure :: "string \<Rightarrow> u32 option \<Rightarrow> indexer_status \<Rightarrow> indexer_status" where
  "record_failure err indexed s =
     s\<lparr>is_consecutive_failures := saturating_inc32 (is_consecutive_failures s),
       is_total_failures := saturating_add64 (is_total_failures s) 1,
       is_last_error := Some err, is_indexed_height := indexed\<rparr>"

definition mark_dead :: "string \<Rightarrow> indexer_status \<Rightarrow> indexer_status" where
  "mark_dead reason s = s\<lparr>is_dead := Some reason, is_last_error := Some reason\<rparr>"

definition caught_up :: "indexer_status \<Rightarrow> bool" where
  "caught_up s \<longleftrightarrow>
     (case (is_indexed_height s, is_tip_height s) of (Some i, Some t) \<Rightarrow> i \<ge> t | _ \<Rightarrow> False)"

definition assess :: "instant \<Rightarrow> duration \<Rightarrow> indexer_status \<Rightarrow> liveness" where
  "assess now stale_after s =
     (case is_dead s of
        Some reason \<Rightarrow> Dead reason
      | None \<Rightarrow>
          (case is_last_progress s of
             Some t \<Rightarrow>
               if now - t \<le> stale_after then Healthy (caught_up s)
               else Stalled (now - t) (is_last_error s)
           | None \<Rightarrow>
               if now - is_started_at s \<le> stale_after then Starting
               else Stalled (now - is_started_at s) (is_last_error s)))"

section \<open>Facts\<close>

lemma record_dead [simp]:
  "is_dead (record_tick_ok i t a now s) = is_dead s" "is_dead (record_failure e i s) = is_dead s"
  "is_dead (mark_dead r s) = Some r" "is_dead (health_new_at started) = None"
  by (simp_all add: record_tick_ok_def record_failure_def mark_dead_def health_new_at_def)

lemma record_progress [simp]:
  "is_last_progress (record_tick_ok i t a now s) = (if a then Some now else is_last_progress s)"
  "is_last_progress (record_failure e i s) = is_last_progress s"
  "is_last_progress (mark_dead r s) = is_last_progress s"
  by (simp_all add: record_tick_ok_def record_failure_def mark_dead_def)

lemma assess_Dead_iff: "assess now d s = Dead r \<longleftrightarrow> is_dead s = Some r"
  by (auto simp: assess_def split: option.splits)

end
