(* ===== verification/Sync.thy ===== *)
theory Sync
  imports Indexer Health
begin

text \<open>
  The indexing loop (\<open>zalkanes-indexer/src/sync.rs\<close>). Everything outside the node is one
  environment \<open>'e\<close> with the calls of \<open>upstream\<close>: the chain source (\<open>ChainSource\<close> of
  \<open>zalkanes-chain\<close>), the stop flag and the clock. A call returns a new environment, so the
  chain may change between any two calls. Loops take fuel; running out of it is a value.
\<close>

section \<open>Environment\<close>

record 'e upstream =
  up_tip :: "'e \<Rightarrow> 'e \<times> (string, block_ref) result"
  up_block_hash :: "u32 \<Rightarrow> 'e \<Rightarrow> 'e \<times> (string, block_hash) result"
  up_raw_block :: "block_hash \<Rightarrow> 'e \<Rightarrow> 'e \<times> (string, bytes) result"
  up_stop :: "'e \<Rightarrow> 'e \<times> bool"
  up_now :: "'e \<Rightarrow> 'e \<times> instant"

text \<open>\<open>Transient what cause\<close> and \<open>Fatal what cause\<close>: the context and the error below it.\<close>

datatype sync_error =
    Transient string string
  | Fatal string index_error

datatype 'a loop_result =
    Finished 'a
  | Panicked
  | OutOfFuel

record tick_outcome =
  to_tip :: u32
  to_indexed_before :: "u32 option"
  to_indexed_after :: "u32 option"

text \<open>The helper \<open>transient\<close> and \<open>fatal\<close> functions: wrap the error of a call.\<close>

definition transient :: "string \<Rightarrow> (string, 'a) result \<Rightarrow> (sync_error, 'a) result" where
  "transient what = map_err (Transient what)"

definition fatal :: "string \<Rightarrow> (index_error, 'a) result \<Rightarrow> (sync_error, 'a) result" where
  "fatal what = map_err (Fatal what)"

definition index_error_text :: "index_error \<Rightarrow> string" where
  "index_error_text e =
     (case e of
        BlockDecode msg \<Rightarrow> ''failed to deserialize Zcash block: '' @ msg
      | HeightMismatch height claimed \<Rightarrow>
          ''block height mismatch: chain source said '' @ decimal (unat height)
          @ '', coinbase claims '' @ decimal (unat claimed)
      | StoreError _ \<Rightarrow> ''state store error'')"

section \<open>Reorg handling\<close>

text \<open>One turn: \<open>Ok True\<close> to go round again. \<open>height - 1\<close> wraps around.\<close>

definition reorg_step ::
    "'e upstream \<Rightarrow> 's store_ops \<Rightarrow> 'e \<Rightarrow> 's \<Rightarrow> 'e \<times> 's \<times> (sync_error, bool) result" where
  "reorg_step up ops e st =
     (case (so_indexed_height ops st, so_indexed_block_hash ops st) of
        (Some height, Some our_hash) \<Rightarrow>
          (case up_block_hash up height e of
             (e, r) \<Rightarrow>
               (case transient ''fetching canonical block hash for reorg check'' r of
                  Err x \<Rightarrow> (e, st, Err x)
                | Ok canonical \<Rightarrow>
                    if canonical = our_hash then (e, st, Ok False)
                    else
                      (case so_rollback_to ops st (height - 1) of
                         (st, r) \<Rightarrow>
                           (case fatal ''rolling back a reorged block'' (map_err StoreError r) of
                              Err x \<Rightarrow> (e, st, Err x)
                            | Ok _ \<Rightarrow> (e, st, Ok True)))))
      | _ \<Rightarrow> (e, st, Ok False))"

fun handle_reorg ::
    "nat \<Rightarrow> 'e upstream \<Rightarrow> 's store_ops \<Rightarrow> 'e \<Rightarrow> 's \<Rightarrow> ('e \<times> 's \<times> (sync_error, unit) result) loop_result" where
  "handle_reorg 0 up ops e st = OutOfFuel"
| "handle_reorg (Suc fuel) up ops e st =
     (case reorg_step up ops e st of
        (e, st, Err x) \<Rightarrow> Finished (e, st, Err x)
      | (e, st, Ok False) \<Rightarrow> Finished (e, st, Ok ())
      | (e, st, Ok True) \<Rightarrow> handle_reorg fuel up ops e st)"

section \<open>Fast-forward below the activation height\<close>

definition below_height :: "u32 option \<Rightarrow> u32 \<Rightarrow> bool" where
  "below_height indexed target \<longleftrightarrow> (case indexed of None \<Rightarrow> True | Some h \<Rightarrow> h < target)"

definition fast_forward ::
    "'e upstream \<Rightarrow> 's store_ops \<Rightarrow> indexer_config \<Rightarrow> u32 \<Rightarrow> 'e \<Rightarrow> 's \<Rightarrow> 'e \<times> 's \<times> (sync_error, unit) result" where
  "fast_forward up ops config tip e st =
     (case activation_height config of
        None \<Rightarrow> (e, st, Ok ())
      | Some act \<Rightarrow>
          if act > 1 then
            let target = min (act - 1) tip in
            if below_height (so_indexed_height ops st) target then
              (case up_block_hash up target e of
                 (e, r) \<Rightarrow>
                   (case transient ''fetching block hash for the fast-forward target'' r of
                      Err x \<Rightarrow> (e, st, Err x)
                    | Ok hash \<Rightarrow>
                        (case so_commit_block ops st (empty_commit target hash) of
                           (st, r) \<Rightarrow>
                             (e, st, and_then (fatal ''committing the fast-forward block'' (map_err StoreError r))
                                (\<lambda>_. Ok ())))))
            else (e, st, Ok ())
          else (e, st, Ok ()))"

section \<open>Indexing up to the tip\<close>

definition next_to_index :: "u32 option \<Rightarrow> u32" where
  "next_to_index indexed = (case indexed of None \<Rightarrow> 1 | Some h \<Rightarrow> h + 1)"

definition below_activation :: "indexer_config \<Rightarrow> u32 \<Rightarrow> bool" where
  "below_activation config height \<longleftrightarrow>
     (case activation_height config of None \<Rightarrow> False | Some act \<Rightarrow> height < act)"

definition index_raw_block ::
    "'m node_lib \<Rightarrow> (bytes \<Rightarrow> consensus_params \<Rightarrow> (string, zcash_block) result) \<Rightarrow> 's store_ops \<Rightarrow> indexer_config
      \<Rightarrow> u32 \<Rightarrow> block_hash \<Rightarrow> (string, bytes) result \<Rightarrow> 's \<Rightarrow> ('s \<times> (sync_error, unit) result) option" where
  "index_raw_block lib rd ops config height hash raw st =
     (case transient ''fetching raw block'' raw of
        Err x \<Rightarrow> Some (st, Err x)
      | Ok raw \<Rightarrow>
          (case transient ''parsing block'' (map_err index_error_text (parse_block rd raw height hash (ic_network config))) of
             Err x \<Rightarrow> Some (st, Err x)
           | Ok parsed \<Rightarrow>
               map_option (\<lambda>(st, r). (st, and_then (fatal ''processing block against local state'' r) (\<lambda>_. Ok ())))
                 (process_parsed_block lib ops config parsed st)))"

text \<open>One turn of the loop: \<open>None\<close> is a host panic, \<open>Ok True\<close> goes round again.\<close>

definition index_one ::
    "'m node_lib \<Rightarrow> (bytes \<Rightarrow> consensus_params \<Rightarrow> (string, zcash_block) result) \<Rightarrow> 'e upstream \<Rightarrow> 's store_ops \<Rightarrow> indexer_config
      \<Rightarrow> u32 \<Rightarrow> 'e \<Rightarrow> 's \<Rightarrow> ('e \<times> 's \<times> (sync_error, bool) result) option" where
  "index_one lib rd up ops config tip e st =
     (case up_stop up e of
        (e, True) \<Rightarrow> Some (e, st, Ok False)
      | (e, False) \<Rightarrow>
          let next_height = next_to_index (so_indexed_height ops st) in
          if next_height > tip then Some (e, st, Ok False)
          else
            (case up_block_hash up next_height e of
               (e, r) \<Rightarrow>
                 (case transient ''fetching canonical block hash'' r of
                    Err x \<Rightarrow> Some (e, st, Err x)
                  | Ok hash \<Rightarrow>
                      if below_activation config next_height then
                        map_option (\<lambda>(st, r). (e, st,
                            and_then (fatal ''committing a pre-activation block'' r) (\<lambda>_. Ok True)))
                          (process_zcash_block lib rd ops config next_height hash [] st)
                      else
                        (case up_raw_block up hash e of
                           (e, raw) \<Rightarrow>
                             map_option (\<lambda>(st, r). (e, st, and_then r (\<lambda>_. Ok True)))
                               (index_raw_block lib rd ops config next_height hash raw st)))))"

fun index_blocks ::
    "nat \<Rightarrow> 'm node_lib \<Rightarrow> (bytes \<Rightarrow> consensus_params \<Rightarrow> (string, zcash_block) result) \<Rightarrow> 'e upstream \<Rightarrow> 's store_ops \<Rightarrow> indexer_config
      \<Rightarrow> u32 \<Rightarrow> 'e \<Rightarrow> 's \<Rightarrow> ('e \<times> 's \<times> (sync_error, unit) result) loop_result" where
  "index_blocks 0 lib rd up ops config tip e st = OutOfFuel"
| "index_blocks (Suc fuel) lib rd up ops config tip e st =
     (case index_one lib rd up ops config tip e st of
        None \<Rightarrow> Panicked
      | Some (e, st, Err x) \<Rightarrow> Finished (e, st, Err x)
      | Some (e, st, Ok False) \<Rightarrow> Finished (e, st, Ok ())
      | Some (e, st, Ok True) \<Rightarrow> index_blocks fuel lib rd up ops config tip e st)"

section \<open>One tick\<close>

text \<open>The tick after the tip is known: the environment, the store and the result.\<close>

definition tick_at ::
    "nat \<Rightarrow> 'm node_lib \<Rightarrow> (bytes \<Rightarrow> consensus_params \<Rightarrow> (string, zcash_block) result) \<Rightarrow> 'e upstream \<Rightarrow> 's store_ops \<Rightarrow> indexer_config
      \<Rightarrow> u32 \<Rightarrow> 'e \<Rightarrow> 's \<Rightarrow> ('e \<times> 's \<times> (sync_error, unit) result) loop_result" where
  "tick_at fuel lib rd up ops config tip e st =
     (case handle_reorg fuel up ops e st of
        Finished (e, st, Ok _) \<Rightarrow>
          (case fast_forward up ops config tip e st of
             (e, st, Err x) \<Rightarrow> Finished (e, st, Err x)
           | (e, st, Ok _) \<Rightarrow> index_blocks fuel lib rd up ops config tip e st)
      | r \<Rightarrow> r)"

text \<open>The third component is the shared tip handle.\<close>

definition tick ::
    "nat \<Rightarrow> 'm node_lib \<Rightarrow> (bytes \<Rightarrow> consensus_params \<Rightarrow> (string, zcash_block) result) \<Rightarrow> 'e upstream \<Rightarrow> 's store_ops \<Rightarrow> indexer_config
      \<Rightarrow> 'e \<Rightarrow> 's \<Rightarrow> block_ref option \<Rightarrow> ('e \<times> 's \<times> block_ref option \<times> (sync_error, tick_outcome) result) loop_result" where
  "tick fuel lib rd up ops config e st handle =
     (case up_tip up e of
        (e, r) \<Rightarrow>
          (case transient ''fetching chain tip'' r of
             Err x \<Rightarrow> Finished (e, st, handle, Err x)
           | Ok tip \<Rightarrow>
               (case tick_at fuel lib rd up ops config (br_height tip) e st of
                  Panicked \<Rightarrow> Panicked
                | OutOfFuel \<Rightarrow> OutOfFuel
                | Finished (e, st', r) \<Rightarrow>
                    Finished (e, st', Some tip, and_then r (\<lambda>_.
                      Ok \<lparr>to_tip = br_height tip, to_indexed_before = so_indexed_height ops st,
                          to_indexed_after = so_indexed_height ops st'\<rparr>)))))"

section \<open>The loop\<close>

definition advanced :: "tick_outcome \<Rightarrow> bool" where
  "advanced out \<longleftrightarrow>
     to_indexed_after out \<noteq> to_indexed_before out
     \<or> (case to_indexed_after out of None \<Rightarrow> False | Some h \<Rightarrow> h \<ge> to_tip out)"

text \<open>How an error is shown with its context (\<open>{e:#}\<close>).\<close>

fun sync_error_text :: "sync_error \<Rightarrow> string" where
  "sync_error_text (Transient what cause) = what @ '': '' @ cause"
| "sync_error_text (Fatal what cause) = what @ '': '' @ index_error_text cause"

text \<open>
  What an iteration does with the result of its tick: the health record, and the error the
  loop stops with, if any. \<open>now\<close> is only read when the tick succeeded.
\<close>

definition after_tick ::
    "'s store_ops \<Rightarrow> 's \<Rightarrow> instant \<Rightarrow> (sync_error, tick_outcome) result \<Rightarrow> indexer_status \<Rightarrow> indexer_status \<times> sync_error option" where
  "after_tick ops st now r h =
     (case r of
        Ok out \<Rightarrow> (record_tick_ok (to_indexed_after out) (to_tip out) (advanced out) now h, None)
      | Err (Transient what cause) \<Rightarrow>
          (record_failure (sync_error_text (Transient what cause)) (so_indexed_height ops st) h, None)
      | Err (Fatal what cause) \<Rightarrow>
          (mark_dead (sync_error_text (Fatal what cause)) h, Some (Fatal what cause)))"

fun run_sync ::
    "nat \<Rightarrow> nat \<Rightarrow> 'm node_lib \<Rightarrow> (bytes \<Rightarrow> consensus_params \<Rightarrow> (string, zcash_block) result) \<Rightarrow> 'e upstream \<Rightarrow> 's store_ops \<Rightarrow> indexer_config
      \<Rightarrow> 'e \<Rightarrow> 's \<Rightarrow> block_ref option \<Rightarrow> indexer_status
      \<Rightarrow> ('e \<times> 's \<times> block_ref option \<times> indexer_status \<times> (sync_error, unit) result) loop_result" where
  "run_sync 0 fuel lib rd up ops config e st handle h = OutOfFuel"
| "run_sync (Suc n) fuel lib rd up ops config e st handle h =
     (case up_stop up e of
        (e, True) \<Rightarrow> Finished (e, st, handle, h, Ok ())
      | (e, False) \<Rightarrow>
          (case tick fuel lib rd up ops config e st handle of
             Panicked \<Rightarrow> Panicked
           | OutOfFuel \<Rightarrow> OutOfFuel
           | Finished (e, st, handle, r) \<Rightarrow>
               (case (if is_ok r then up_now up e else (e, 0)) of
                  (e, now) \<Rightarrow>
                    (case after_tick ops st now r h of
                       (h, Some x) \<Rightarrow> Finished (e, st, handle, h, Err x)
                     | (h, None) \<Rightarrow> run_sync n fuel lib rd up ops config e st handle h))))"

end
