(* ===== verification/Chain.thy ===== *)
theory Chain
  imports Sync
begin

text \<open>
  The chain source over JSON-RPC (\<open>zalkanes-chain/src/lib.rs\<close>). The HTTP client, serde and
  the node behind them are parameters: \<open>zebra\<close> holds one call per RPC method, which answers
  with a deserialized response. The crate \<open>hex\<close> is a parameter as well.
\<close>

section \<open>Responses\<close>

record rpc_error =
  re_code :: int
  re_message :: string

record 'a rpc_response =
  rr_result :: "'a option"
  rr_error :: "rpc_error option"

record blockchain_info =
  bi_chain :: string
  bi_blocks :: u32
  bi_bestblockhash :: string

text \<open>What the HTTP client gives: no connection, a body that does not deserialize, or a response.\<close>

datatype 'a http_reply =
    SendFailed string
  | BadBody string
  | Reply "'a rpc_response"

record 'e zebra =
  z_blockchain_info :: "'e \<Rightarrow> 'e \<times> blockchain_info http_reply"
  z_block_hash :: "u32 \<Rightarrow> 'e \<Rightarrow> 'e \<times> string http_reply"
  z_block :: "string \<Rightarrow> 'e \<Rightarrow> 'e \<times> string http_reply"

definition rpc_call :: "string \<Rightarrow> 'a http_reply \<Rightarrow> (string, 'a) result" where
  "rpc_call method reply =
     (case reply of
        SendFailed cause \<Rightarrow> Err (''RPC call to '' @ method @ '' failed: '' @ cause)
      | BadBody cause \<Rightarrow> Err (''failed to deserialize RPC response: '' @ cause)
      | Reply resp \<Rightarrow>
          (case rr_error resp of
             Some err \<Rightarrow> Err (''RPC error '' @ signed_decimal (re_code err) @ '': '' @ re_message err)
           | None \<Rightarrow> ok_or ''RPC returned null result'' (rr_result resp)))"

section \<open>The source\<close>

text \<open>A decoded hash of the wrong length makes \<open>copy_from_slice\<close> panic: the outer \<open>None\<close>.\<close>

definition copy_hash :: "bytes \<Rightarrow> block_hash option" where
  "copy_hash bs = (if length bs = 32 then Some (mk32 bs) else None)"

definition decoded_hash :: "hex_lib \<Rightarrow> string \<Rightarrow> string \<Rightarrow> (string, block_hash) result option" where
  "decoded_hash hx what s =
     (case hex_decode hx s of
        None \<Rightarrow> Some (Err what)
      | Some bs \<Rightarrow> map_option Ok (copy_hash bs))"

definition network_matches :: "network \<Rightarrow> string \<Rightarrow> bool" where
  "network_matches net chain =
     (case net of
        Mainnet \<Rightarrow> chain = ''main''
      | Testnet \<Rightarrow> chain = ''test''
      | Regtest \<Rightarrow> chain = ''test'' \<or> chain = ''regtest'')"

definition validate_source :: "'e zebra \<Rightarrow> network \<Rightarrow> 'e \<Rightarrow> 'e \<times> (string, unit) result" where
  "validate_source z net e =
     (case z_blockchain_info z e of
        (e, reply) \<Rightarrow>
          (e, and_then (rpc_call ''getblockchaininfo'' reply) (\<lambda>info.
                if network_matches net (bi_chain info) then Ok ()
                else Err (''RPC reports network '' @ quoted (bi_chain info) @ '' but expected '' @ quoted (zebra_name net)))))"

definition source_tip :: "hex_lib \<Rightarrow> 'e zebra \<Rightarrow> 'e \<Rightarrow> 'e \<times> (string, block_ref) result option" where
  "source_tip hx z e =
     (case z_blockchain_info z e of
        (e, reply) \<Rightarrow>
          (e, case rpc_call ''getblockchaininfo'' reply of
                Err x \<Rightarrow> Some (Err x)
              | Ok info \<Rightarrow>
                  map_option (\<lambda>r. and_then r (\<lambda>hash. Ok \<lparr>br_height = bi_blocks info, br_hash = hash\<rparr>))
                    (decoded_hash hx ''invalid bestblockhash hex'' (bi_bestblockhash info))))"

definition source_block_hash :: "hex_lib \<Rightarrow> 'e zebra \<Rightarrow> u32 \<Rightarrow> 'e \<Rightarrow> 'e \<times> (string, block_hash) result option" where
  "source_block_hash hx z height e =
     (case z_block_hash z height e of
        (e, reply) \<Rightarrow>
          (e, case rpc_call ''getblockhash'' reply of
                Err x \<Rightarrow> Some (Err x)
              | Ok s \<Rightarrow> decoded_hash hx ''invalid block hash hex'' s))"

definition source_raw_block :: "hex_lib \<Rightarrow> 'e zebra \<Rightarrow> block_hash \<Rightarrow> 'e \<Rightarrow> 'e \<times> (string, bytes) result" where
  "source_raw_block hx z hash e =
     (case z_block z (hex_encode hx (bytes_of hash)) e of
        (e, reply) \<Rightarrow>
          (e, and_then (rpc_call ''getblock'' reply) (\<lambda>s. ok_or ''invalid raw block hex'' (hex_decode hx s))))"

text \<open>\<open>blocking\<close> of the sync loop: a panic inside the task is an error of the call.\<close>

definition blocking :: "'e \<times> (string, 'a) result option \<Rightarrow> 'e \<times> (string, 'a) result" where
  "blocking = (\<lambda>(e, r). (e, case r of None \<Rightarrow> Err ''chain source task failed: panic'' | Some r \<Rightarrow> r))"

text \<open>The environment of the loop with this source.\<close>

definition rpc_upstream ::
    "hex_lib \<Rightarrow> 'e zebra \<Rightarrow> ('e \<Rightarrow> 'e \<times> bool) \<Rightarrow> ('e \<Rightarrow> 'e \<times> instant) \<Rightarrow> 'e upstream" where
  "rpc_upstream hx z stop now =
     \<lparr>up_tip = (\<lambda>e. blocking (source_tip hx z e)),
      up_block_hash = (\<lambda>h e. blocking (source_block_hash hx z h e)),
      up_raw_block = source_raw_block hx z,
      up_stop = stop, up_now = now\<rparr>"

section \<open>A chain that does not change during a tick\<close>

text \<open>
  A chain: its tip height, the hash of each height and the block of each hash. A source is
  stable on a chain in the states \<open>inv\<close>: every call answers from the chain and keeps \<open>inv\<close>,
  and the stop flag is not set. Nothing is said of heights above the tip.
\<close>

record chain =
  ch_tip :: u32
  ch_hash :: "u32 \<Rightarrow> block_hash"
  ch_raw :: "block_hash \<Rightarrow> bytes"

locale stable_source =
  fixes up :: "'e upstream" and inv :: "'e \<Rightarrow> bool" and ch :: chain
  assumes tip: "inv e \<Longrightarrow> \<exists>e'. inv e' \<and>
      up_tip up e = (e', Ok \<lparr>br_height = ch_tip ch, br_hash = ch_hash ch (ch_tip ch)\<rparr>)"
    and block_hash: "inv e \<Longrightarrow> h \<le> ch_tip ch \<Longrightarrow> \<exists>e'. inv e' \<and> up_block_hash up h e = (e', Ok (ch_hash ch h))"
    and raw_block: "inv e \<Longrightarrow> h \<le> ch_tip ch \<Longrightarrow>
      \<exists>e'. inv e' \<and> up_raw_block up (ch_hash ch h) e = (e', Ok (ch_raw ch (ch_hash ch h)))"
    and running: "inv e \<Longrightarrow> \<exists>e'. inv e' \<and> up_stop up e = (e', False)"

text \<open>A node that answers from the chain, in the documented format of the RPC methods.\<close>

locale honest_node =
  fixes hx :: hex_lib and z :: "'e zebra" and stop :: "'e \<Rightarrow> 'e \<times> bool" and now :: "'e \<Rightarrow> 'e \<times> instant"
    and inv :: "'e \<Rightarrow> bool" and ch :: chain and name :: string
  assumes hex_roundtrip: "hex_decode hx (hex_encode hx bs) = Some bs"
    and info: "inv e \<Longrightarrow> \<exists>e'. inv e' \<and> z_blockchain_info z e =
      (e', Reply \<lparr>rr_result = Some \<lparr>bi_chain = name, bi_blocks = ch_tip ch,
         bi_bestblockhash = hex_encode hx (bytes_of (ch_hash ch (ch_tip ch)))\<rparr>, rr_error = None\<rparr>)"
    and hash: "inv e \<Longrightarrow> h \<le> ch_tip ch \<Longrightarrow> \<exists>e'. inv e' \<and> z_block_hash z h e =
      (e', Reply \<lparr>rr_result = Some (hex_encode hx (bytes_of (ch_hash ch h))), rr_error = None\<rparr>)"
    and block: "inv e \<Longrightarrow> h \<le> ch_tip ch \<Longrightarrow> \<exists>e'. inv e' \<and> z_block z (hex_encode hx (bytes_of (ch_hash ch h))) e =
      (e', Reply \<lparr>rr_result = Some (hex_encode hx (ch_raw ch (ch_hash ch h))), rr_error = None\<rparr>)"
    and no_stop: "inv e \<Longrightarrow> \<exists>e'. inv e' \<and> stop e = (e', False)"

lemma rpc_call_result [simp]: "rpc_call m (Reply \<lparr>rr_result = Some x, rr_error = None\<rparr>) = Ok x"
  by (simp add: rpc_call_def)

lemma decoded_hash_roundtrip:
  "hex_decode hx s = Some (bytes_of h) \<Longrightarrow> decoded_hash hx what s = Some (Ok h)"
  by (simp add: decoded_hash_def copy_hash_def)

context honest_node begin

lemma source_is_stable: "stable_source (rpc_upstream hx z stop now) inv ch"
proof
  fix e h assume "inv e"
  show "\<exists>e'. inv e' \<and> up_tip (rpc_upstream hx z stop now) e
      = (e', Ok \<lparr>br_height = ch_tip ch, br_hash = ch_hash ch (ch_tip ch)\<rparr>)"
    using info [OF \<open>inv e\<close>]
    by (auto simp: rpc_upstream_def source_tip_def blocking_def hex_roundtrip decoded_hash_roundtrip)
  show "\<exists>e'. inv e' \<and> up_stop (rpc_upstream hx z stop now) e = (e', False)"
    using no_stop [OF \<open>inv e\<close>] by (simp add: rpc_upstream_def)
  assume "h \<le> ch_tip ch"
  show "\<exists>e'. inv e' \<and> up_block_hash (rpc_upstream hx z stop now) h e = (e', Ok (ch_hash ch h))"
    using hash [OF \<open>inv e\<close> \<open>h \<le> ch_tip ch\<close>]
    by (auto simp: rpc_upstream_def source_block_hash_def blocking_def hex_roundtrip decoded_hash_roundtrip)
  show "\<exists>e'. inv e' \<and> up_raw_block (rpc_upstream hx z stop now) (ch_hash ch h) e
      = (e', Ok (ch_raw ch (ch_hash ch h)))"
    using block [OF \<open>inv e\<close> \<open>h \<le> ch_tip ch\<close>]
    by (auto simp: rpc_upstream_def source_raw_block_def hex_roundtrip)
qed

end

sublocale honest_node < rpc: stable_source "rpc_upstream hx z stop now" inv ch
  by (rule source_is_stable)

section \<open>A node with one answer per call\<close>

text \<open>The node of a fixed chain, with the bytes themselves as their hex text.\<close>

definition chain_node :: "string \<Rightarrow> chain \<Rightarrow> (block_hash \<Rightarrow> bytes) \<Rightarrow> unit zebra" where
  "chain_node name ch raw =
     \<lparr>z_blockchain_info = (\<lambda>e. (e, Reply \<lparr>rr_result = Some \<lparr>bi_chain = name, bi_blocks = ch_tip ch,
         bi_bestblockhash = byte_text (bytes_of (ch_hash ch (ch_tip ch)))\<rparr>, rr_error = None\<rparr>)),
      z_block_hash = (\<lambda>h e. (e, if h \<le> ch_tip ch
          then Reply \<lparr>rr_result = Some (byte_text (bytes_of (ch_hash ch h))), rr_error = None\<rparr>
          else Reply \<lparr>rr_result = None, rr_error = Some \<lparr>re_code = - 8, re_message = ''block height not in best chain''\<rparr>\<rparr>)),
      z_block = (\<lambda>s e. (e, Reply \<lparr>rr_result = Some (byte_text (raw (mk32 (ascii s)))), rr_error = None\<rparr>))\<rparr>"

interpretation fixed_node: honest_node plain_hex "chain_node name ch (ch_raw ch)" "\<lambda>e. (e, False)"
    "\<lambda>e. (e, 0)" "\<lambda>_. True" ch name for name ch
  by unfold_locales (simp_all add: chain_node_def plain_hex_def)

end
