(* ===== verification/Sync_Chain.thy ===== *)
theory Sync_Chain
  imports Chain Indexer_Refine
begin

text \<open>
  What a node should hold: the contents after indexing a chain up to a height, as a function
  of the chain alone, and the ledgers whose blocks all carry those contents. Two forks share
  their contents up to the last height at which their hashes agree.
\<close>

section \<open>The contents a chain determines\<close>

definition block_contents ::
    "'m node_lib \<Rightarrow> blake \<Rightarrow> (bytes \<Rightarrow> consensus_params \<Rightarrow> (string, zcash_block) result) \<Rightarrow> indexer_config
      \<Rightarrow> u32 \<Rightarrow> block_hash \<Rightarrow> bytes \<Rightarrow> contents \<Rightarrow> contents option" where
  "block_contents lib blake rd config h hash raw x =
     (case parse_block rd raw h hash (ic_network config) of
        Err e \<Rightarrow> None
      | Ok parsed \<Rightarrow>
          if 2 ^ 31 \<le> length (pb_transactions parsed) then None
          else
            (case process_parsed_block lib (ledger_ops blake) config parsed \<lparr>lg_contents = x, lg_blocks = []\<rparr> of
               Some (lg, Ok be) \<Rightarrow> Some (lg_contents lg)
             | _ \<Rightarrow> None))"

fun canonical ::
    "'m node_lib \<Rightarrow> blake \<Rightarrow> (bytes \<Rightarrow> consensus_params \<Rightarrow> (string, zcash_block) result) \<Rightarrow> indexer_config
      \<Rightarrow> chain \<Rightarrow> nat \<Rightarrow> contents option" where
  "canonical lib blake rd config ch 0 = Some (om_empty, om_empty)"
| "canonical lib blake rd config ch (Suc n) =
     (if below_activation config (of_nat (Suc n)) then Some (om_empty, om_empty)
      else
        let hash = ch_hash ch (of_nat (Suc n)) in
        Option.bind (canonical lib blake rd config ch n)
          (block_contents lib blake rd config (of_nat (Suc n)) hash (ch_raw ch hash)))"

text \<open>A ledger whose every block is a block of the chain with the contents of its height.\<close>

fun chain_blocks :: "(nat \<Rightarrow> contents option) \<Rightarrow> chain \<Rightarrow> contents \<Rightarrow> (height_record \<times> contents) list \<Rightarrow> bool" where
  "chain_blocks k ch x [] \<longleftrightarrow> x = (om_empty, om_empty)"
| "chain_blocks k ch x ((r, y) # bs) \<longleftrightarrow>
     hr_hash r = ch_hash ch (hr_height r) \<and> k (unat (hr_height r)) = Some x \<and> chain_blocks k ch y bs"

definition follows :: "(nat \<Rightarrow> contents option) \<Rightarrow> chain \<Rightarrow> ledger \<Rightarrow> bool" where
  "follows k ch lg \<longleftrightarrow> heights_ok lg \<and> chain_blocks k ch (lg_contents lg) (lg_blocks lg)"

text \<open>Two chains of one network: the genesis block is fixed, blocks are content addressed, and
  a block's hash determines the blocks below it.\<close>

definition forks :: "chain \<Rightarrow> chain \<Rightarrow> bool" where
  "forks f g \<longleftrightarrow>
     ch_raw f = ch_raw g \<and> ch_hash f 0 = ch_hash g 0
     \<and> (\<forall>h k. ch_hash f h = ch_hash g h \<longrightarrow> k \<le> h \<longrightarrow> ch_hash f k = ch_hash g k)"

definition on_chain :: "chain \<Rightarrow> height_record \<Rightarrow> bool" where
  "on_chain ch r \<longleftrightarrow> hr_hash r = ch_hash ch (hr_height r)"

section \<open>Indexing depends on the contents only\<close>

lemma ledger_index_view:
  "lg_contents lg = lg_contents lg' \<Longrightarrow> index_view (ledger_ops blake) lg = index_view (ledger_ops blake) lg'"
  by (simp add: index_view_def ledger_ops_def)

lemma ledger_process_commit:
  assumes "activation_height config = Some a"
    and "process_parsed_block lib (ledger_ops blake) config b lg = Some (lg', Ok be)"
  shows "\<exists>c. bc_height c = pb_height b \<and> bc_hash c = pb_hash b \<and> lg' = spec_commit blake c lg
    \<and> (\<forall>lg2. lg_contents lg2 = lg_contents lg \<longrightarrow>
         process_parsed_block lib (ledger_ops blake) config b lg2 = Some (spec_commit blake c lg2, Ok be))"
proof (cases "pb_height b < a")
  case True
  then show ?thesis
    using assms
    by (intro exI [of _ "empty_commit (pb_height b) (pb_hash b)"])
      (auto simp: process_parsed_block_def commit_empty_block_def ledger_ops_def empty_commit_def)
next
  case False
  then obtain p where p: "process_transactions lib (ledger_ops blake) lg config (pb_transactions b)
      (start_block (pb_height b) (pb_hash b)) = Some p"
    "commit_progress (ledger_ops blake) b (so_compute_root (ledger_ops blake) lg) p lg = (lg', Ok be)"
    using assms by (auto simp: process_parsed_block_def)
  have hdr: "bc_height (pg_commit p) = pb_height b" "bc_hash (pg_commit p) = pb_hash b"
    using header_transactions [OF p(1)] by (simp_all add: header_inv_def)
  have "process_parsed_block lib (ledger_ops blake) config b lg2
      = Some (spec_commit blake (pg_commit p) lg2, Ok be)" if "lg_contents lg2 = lg_contents lg" for lg2
    using False p assms(1) that process_transactions_cong [OF ledger_index_view [OF that], of lib blake config "pb_transactions b"]
    by (auto simp: process_parsed_block_def commit_progress_def ledger_ops_def)
  then show ?thesis
    using p(2) hdr by (intro exI [of _ "pg_commit p"]) (auto simp: commit_progress_def ledger_ops_def)
qed

text \<open>What a block that the chain determines does to any ledger with the contents before it.\<close>

lemma block_contents_commit:
  assumes "activation_height config = Some a"
    and "block_contents lib blake rd config h hash raw (lg_contents lg) = Some x"
  shows "\<exists>parsed c be. parse_block rd raw h hash (ic_network config) = Ok parsed
    \<and> pb_height parsed = h \<and> pb_hash parsed = hash \<and> length (pb_transactions parsed) < 2 ^ 31
    \<and> bc_height c = h \<and> bc_hash c = hash \<and> apply_commit c (lg_contents lg) = x
    \<and> process_parsed_block lib (ledger_ops blake) config parsed lg = Some (spec_commit blake c lg, Ok be)"
proof -
  obtain parsed lg0 be where r: "parse_block rd raw h hash (ic_network config) = Ok parsed"
    "length (pb_transactions parsed) < 2 ^ 31"
    "process_parsed_block lib (ledger_ops blake) config parsed \<lparr>lg_contents = lg_contents lg, lg_blocks = []\<rparr>
      = Some (lg0, Ok be)" "lg_contents lg0 = x"
    using assms(2) by (auto simp: block_contents_def split: sum.splits if_splits option.splits)
  have "pb_height parsed = h" "pb_hash parsed = hash"
    using r(1) by (auto simp: parse_block_def split: if_splits)
  moreover obtain c where c: "bc_height c = pb_height parsed" "bc_hash c = pb_hash parsed"
    "lg0 = spec_commit blake c \<lparr>lg_contents = lg_contents lg, lg_blocks = []\<rparr>"
    "\<forall>lg2. lg_contents lg2 = lg_contents lg \<longrightarrow>
       process_parsed_block lib (ledger_ops blake) config parsed lg2 = Some (spec_commit blake c lg2, Ok be)"
    using ledger_process_commit [OF assms(1) r(3)] by auto
  moreover have "apply_commit c (lg_contents lg) = x"
    using r(4) c(3) by (simp add: spec_commit_def Let_def)
  ultimately show ?thesis using r(1,2) by blast
qed

section \<open>Forks\<close>

lemma of_nat_le_u32: "n \<le> unat (h :: u32) \<Longrightarrow> (of_nat n :: u32) \<le> h"
  by (metis le_unat_uoi word_le_nat_alt)

lemma canonical_fork:
  assumes "forks f g" "ch_hash f h = ch_hash g h" "n \<le> unat h"
  shows "canonical lib blake rd config f n = canonical lib blake rd config g n"
  using assms(3)
proof (induction n)
  case (Suc n)
  have "ch_hash f (of_nat (Suc n)) = ch_hash g (of_nat (Suc n))"
    using assms(1,2) of_nat_le_u32 [OF Suc.prems] unfolding forks_def by blast
  then show ?case
    using Suc assms(1) by (simp add: forks_def)
qed simp

lemma chain_blocks_fork:
  assumes "forks f g" "ch_hash f h = ch_hash g h" "\<forall>(r, y) \<in> set bs. hr_height r \<le> h"
    and "chain_blocks (canonical lib blake rd config f) f x bs"
  shows "chain_blocks (canonical lib blake rd config g) g x bs"
  using assms(3,4)
proof (induction bs arbitrary: x)
  case (Cons b bs)
  obtain r y where b: "b = (r, y)" by (rule prod.exhaust)
  then have le: "hr_height r \<le> h" using Cons.prems by auto
  then have "ch_hash f (hr_height r) = ch_hash g (hr_height r)"
    using assms(1,2) unfolding forks_def by blast
  moreover have "canonical lib blake rd config f (unat (hr_height r)) = canonical lib blake rd config g (unat (hr_height r))"
    using canonical_fork [OF assms(1,2)] le by (simp add: word_le_nat_alt)
  ultimately show ?case
    using Cons b by auto
qed simp

lemma heights_le_last:
  assumes "heights_ok lg" "lg_blocks lg = (r, y) # bs"
  shows "\<forall>(r', y') \<in> set (lg_blocks lg). hr_height r' \<le> hr_height r"
  using assms by (auto simp: heights_ok_def)

lemma follows_fork:
  assumes "forks f g" "follows (canonical lib blake rd config f) f lg"
    and "case spec_last lg of None \<Rightarrow> True | Some r \<Rightarrow> on_chain g r"
  shows "follows (canonical lib blake rd config g) g lg"
proof (cases "lg_blocks lg")
  case Nil
  then show ?thesis using assms(2) by (simp add: follows_def heights_ok_def)
next
  case (Cons b bs)
  obtain r y where b: "b = (r, y)" by (rule prod.exhaust)
  have "ch_hash f (hr_height r) = ch_hash g (hr_height r)"
    using assms(2,3) Cons b by (simp add: follows_def spec_last_def on_chain_def)
  moreover have "heights_ok lg" "chain_blocks (canonical lib blake rd config f) f (lg_contents lg) (lg_blocks lg)"
    using assms(2) by (simp_all add: follows_def)
  ultimately show ?thesis
    using chain_blocks_fork [OF assms(1) _ heights_le_last [OF _ Cons [unfolded b]]]
    by (simp add: follows_def)
qed

text \<open>In a ledger that follows one fork, the blocks on the other are the oldest ones.\<close>

lemma on_chain_below:
  assumes "forks f g" "chain_blocks k f x ((r, y) # bs)" "on_chain g r"
    and "(r', y') \<in> set bs" "hr_height r' \<le> hr_height r"
    and "chain_blocks k f y bs"
  shows "on_chain g r'"
proof -
  have "hr_hash r' = ch_hash f (hr_height r')"
    using assms(6,4) by (induction bs arbitrary: y) auto
  moreover have "ch_hash f (hr_height r) = ch_hash g (hr_height r)"
    using assms(2,3) by (simp add: on_chain_def)
  ultimately show ?thesis
    using assms(1,5) unfolding forks_def on_chain_def by metis
qed

section \<open>Growing a ledger along the chain\<close>

lemma follows_empty [simp]: "follows k ch empty_ledger"
  by (simp add: follows_def empty_ledger_def heights_ok_def)

lemma follows_commit:
  assumes "follows k ch lg" "next_height lg (bc_height c)"
    and "bc_hash c = ch_hash ch (bc_height c)" "k (unat (bc_height c)) = Some (apply_commit c (lg_contents lg))"
  shows "follows k ch (spec_commit blake c lg)"
  using assms heights_ok_commit [of lg c blake]
  by (simp add: follows_def spec_commit_def Let_def)

lemma follows_pop:
  assumes "follows k ch lg" "lg_blocks lg = (r, y) # bs"
  shows "follows k ch \<lparr>lg_contents = y, lg_blocks = bs\<rparr>"
  using assms by (simp add: follows_def heights_ok_def)

lemma spec_rollback_pop:
  assumes "heights_ok lg" "lg_blocks lg = (r, y) # bs" "0 < hr_height r"
  shows "spec_rollback (hr_height r - 1) lg = \<lparr>lg_contents = y, lg_blocks = bs\<rparr>"
proof -
  have 1: "\<not> hr_height r \<le> hr_height r - 1"
    using assms(3) by (simp add: word_le_nat_alt unat_minus_one word_neq_0_conv word_less_nat_alt)
  have "hr_height r' \<le> hr_height r - 1" if "(r', y') \<in> set bs" for r' y'
  proof -
    have "hr_height r' < hr_height r"
      using assms(1,2) that by (auto simp: heights_ok_def)
    then show ?thesis
      using assms(3) by (simp add: word_le_nat_alt word_less_nat_alt unat_minus_one word_neq_0_conv)
  qed
  then have "unwind (hr_height r - 1) y bs = (y, bs)"
    by (cases bs) (force simp: not_less)+
  then show ?thesis
    using 1 by (simp add: spec_rollback_def assms(2) not_le)
qed

end
