(* ===== verification/Sync_Node.thy ===== *)
theory Sync_Node
  imports Sync_Chain
begin

text \<open>
  A node that syncs a store which does not fail from a source that is stable on a chain: the
  laws of each step of the tick, and of the tick.
\<close>

section \<open>Filtering the blocks off the chain\<close>

lemma filter_on_chain:
  assumes "forks f g" "chain_blocks k f x bs" "sorted_wrt (>) (map (hr_height \<circ> fst) bs)"
  shows "filter (on_chain g \<circ> fst) bs = dropWhile (Not \<circ> on_chain g \<circ> fst) bs"
  using assms(2,3)
proof (induction bs arbitrary: x)
  case (Cons b bs)
  obtain r y where b: "b = (r, y)" by (rule prod.exhaust)
  show ?case
  proof (cases "on_chain g r")
    case True
    have "on_chain g (fst b')" if "b' \<in> set bs" for b'
      using on_chain_below [OF assms(1) Cons.prems(1) [unfolded b] True, of "fst b'" "snd b'"]
        Cons.prems that b by auto
    then show ?thesis using True b by (simp add: filter_id_conv)
  next
    case False
    have "chain_blocks k f y bs" using Cons.prems(1) b by simp
    from Cons.IH [OF this] show ?thesis
      using False Cons.prems(2) b by (simp add: o_def)
  qed
qed simp

lemma next_to_index_Suc:
  assumes "h < (t :: u32)"
  shows "next_to_index (Some h) \<le> t" "unat (next_to_index (Some h)) = Suc (unat h)" "h < next_to_index (Some h)"
proof -
  have "unat h < unat t" "unat t < 4294967296"
    using assms by (simp_all add: word_less_nat_alt)
  then have "Suc (unat h) < 4294967296" by linarith
  then show "unat (next_to_index (Some h)) = Suc (unat h)"
    by (simp add: next_to_index_def unat_word_ariths)
  then show "next_to_index (Some h) \<le> t" "h < next_to_index (Some h)"
    using assms by (simp_all add: word_le_nat_alt word_less_nat_alt)
qed

lemma unat_pred: "0 < (h :: u32) \<Longrightarrow> unat (h - 1) = unat h - 1"
  by (simp add: unat_minus_one word_neq_0_conv)

lemma canonical_below:
  assumes "below_activation config (of_nat (Suc n))" "Suc n < 2 ^ 32"
  shows "canonical lib blake rd config ch n = Some (om_empty, om_empty)"
proof (cases n)
  case (Suc m)
  have "unat (of_nat n :: u32) = n" "unat (of_nat (Suc n) :: u32) = Suc n"
    using assms(2) by (simp_all only: unat_of_nat_u32) simp_all
  then have "(of_nat n :: u32) \<le> of_nat (Suc n)"
    by (simp only: word_le_nat_alt)
  then have "below_activation config (of_nat n)"
    using assms(1) by (auto simp: below_activation_def split: option.splits)
  then show ?thesis using Suc by simp
qed simp

section \<open>The laws of a tick\<close>

locale sync_node = total_store ops rel blake + stable_source up inv ch
  for ops :: "'s store_ops" and rel :: "'s \<Rightarrow> ledger \<Rightarrow> bool" and blake :: blake
    and up :: "'e upstream" and inv :: "'e \<Rightarrow> bool" and ch :: chain
begin

lemma reorg_step_law:
  assumes "rel s lg" "inv e" "\<forall>r. spec_last lg = Some r \<longrightarrow> hr_height r \<le> ch_tip ch"
  shows "\<exists>e'. inv e' \<and> reorg_step up ops e s =
    (case spec_last lg of
       None \<Rightarrow> (e, s, Ok False)
     | Some r \<Rightarrow>
         if on_chain ch r then (e', s, Ok False)
         else (case so_rollback_to ops s (hr_height r - 1) of (s', _) \<Rightarrow> (e', s', Ok True)))"
proof (cases "spec_last lg")
  case None
  then show ?thesis
    using assms(2) indexed [OF assms(1)] by (auto simp: reorg_step_def)
next
  case (Some r)
  obtain e' where "inv e'" "up_block_hash up (hr_height r) e = (e', Ok (ch_hash ch (hr_height r)))"
    using block_hash [OF assms(2)] assms(3) Some by blast
  moreover obtain s' where "so_rollback_to ops s (hr_height r - 1) = (s', Ok ())"
    using rollback_ok [OF assms(1)] by blast
  ultimately show ?thesis
    using Some indexed [OF assms(1)]
    by (auto simp: reorg_step_def transient_def fatal_def on_chain_def)
qed

lemma reorg_law:
  assumes "rel s lg" "follows (canonical lib blake rd config f) f lg" "forks f ch" "inv e"
    and "\<forall>r. spec_last lg = Some r \<longrightarrow> hr_height r \<le> ch_tip ch" "length (lg_blocks lg) < fuel"
  shows "\<exists>e' s' lg'. handle_reorg fuel up ops e s = Finished (e', s', Ok ()) \<and> inv e' \<and> rel s' lg'
    \<and> follows (canonical lib blake rd config ch) ch lg'
    \<and> lg_blocks lg' = dropWhile (Not \<circ> on_chain ch \<circ> fst) (lg_blocks lg)"
  using assms
proof (induction fuel arbitrary: e s lg)
  case (Suc fuel)
  note step = reorg_step_law [OF Suc.prems(1,4,5)]
  show ?case
  proof (cases "lg_blocks lg")
    case Nil
    then show ?thesis
      using step Suc.prems(1,4) follows_fork [OF Suc.prems(3,2)]
      by (force simp: spec_last_def)
  next
    case (Cons b bs)
    obtain r y where b: "b = (r, y)" by (rule prod.exhaust)
    have last: "spec_last lg = Some r" using Cons b by (simp add: spec_last_def)
    show ?thesis
    proof (cases "on_chain ch r")
      case True
      have "follows (canonical lib blake rd config ch) ch lg"
        using follows_fork [OF Suc.prems(3,2)] last True by simp
      then show ?thesis
        using step last True Suc.prems(1) Cons b by auto
    next
      case False
      have "hr_height r \<noteq> 0"
        using False Suc.prems(2,3) Cons b by (auto simp: on_chain_def follows_def forks_def)
      then have pop: "spec_rollback (hr_height r - 1) lg = \<lparr>lg_contents = y, lg_blocks = bs\<rparr>"
        using Suc.prems(2) spec_rollback_pop [OF _ Cons [unfolded b]]
        by (simp add: follows_def word_neq_0_conv)
      obtain s' where s': "so_rollback_to ops s (hr_height r - 1) = (s', Ok ())"
        "rel s' \<lparr>lg_contents = y, lg_blocks = bs\<rparr>"
        using rollbacks [OF Suc.prems(1), of "hr_height r - 1"] pop by auto
      obtain e' where e': "inv e'" "reorg_step up ops e s = (e', s', Ok True)"
        using step last False s'(1) by auto
      have "\<forall>r'. spec_last \<lparr>lg_contents = y, lg_blocks = bs\<rparr> = Some r' \<longrightarrow> hr_height r' \<le> ch_tip ch"
        using Suc.prems(2,5) last Cons b
        by (auto simp: follows_def heights_ok_def spec_last_def split: list.splits)
      from Suc.IH [OF s'(2) follows_pop [OF Suc.prems(2) Cons [unfolded b]] Suc.prems(3) e'(1) this]
      show ?thesis
        using Suc.prems(6) e'(2) False Cons b by auto
    qed
  qed
qed simp

lemma fast_forward_law:
  assumes "rel s lg" "follows (canonical lib blake rd config ch) ch lg" "inv e"
    and "\<forall>r. spec_last lg = Some r \<longrightarrow> hr_height r \<le> ch_tip ch"
  shows "\<exists>e' s' lg'. fast_forward up ops config (ch_tip ch) e s = (e', s', Ok ()) \<and> inv e' \<and> rel s' lg'
    \<and> follows (canonical lib blake rd config ch) ch lg'
    \<and> (\<forall>r. spec_last lg' = Some r \<longrightarrow> hr_height r \<le> ch_tip ch)"
proof -
  define target where "target = (case activation_height config of None \<Rightarrow> 0 | Some a \<Rightarrow> min (a - 1) (ch_tip ch))"
  show ?thesis
  proof (cases "\<exists>a. activation_height config = Some a \<and> a > 1 \<and> below_height (so_indexed_height ops s) target")
    case False
    then have "fast_forward up ops config (ch_tip ch) e s = (e, s, Ok ())"
      by (auto simp: fast_forward_def target_def Let_def split: option.splits)
    then show ?thesis using assms by blast
  next
    case True
    then obtain a where a: "activation_height config = Some a" "a > 1"
      "below_height (so_indexed_height ops s) target" by blast
    have target: "target = min (a - 1) (ch_tip ch)" by (simp add: target_def a(1))
    let ?c = "empty_commit target (ch_hash ch target)"
    obtain e' where e': "inv e'" "up_block_hash up target e = (e', Ok (ch_hash ch target))"
      using block_hash [OF assms(3), of target] target by auto
    have c: "next_height lg (bc_height ?c)" "small_commit ?c" "apply_commit ?c x = x" for x
      using a(3) indexed [OF assms(1)]
      by (auto simp: empty_commit_def next_height_def below_height_def small_commit_def apply_commit_def
          split: option.splits)
    obtain s' where s': "so_commit_block ops s ?c
        = (s', Ok (contents_root blake (apply_commit ?c (lg_contents lg))))" "rel s' (spec_commit blake ?c lg)"
      using commits [OF assms(1) c(1,2)] by blast
    have "target \<le> a - 1" "a - 1 < a"
      using a(2) target unat_pred [of a] by (auto simp: word_less_nat_alt)
    then have less: "target < a" by order
    have empty: "canonical lib blake rd config ch n = Some (om_empty, om_empty)" if "n \<le> unat target" for n
    proof (cases n)
      case (Suc m)
      have "(of_nat n :: u32) < a"
        using of_nat_le_u32 [OF that] less by order
      then show ?thesis using Suc a(1) by (simp add: below_activation_def)
    qed simp
    have "lg_contents lg = (om_empty, om_empty)"
    proof (cases "lg_blocks lg")
      case (Cons b bs)
      obtain r y where b: "b = (r, y)" by (rule prod.exhaust)
      then have "canonical lib blake rd config ch (unat (hr_height r)) = Some (lg_contents lg)"
        using assms(2) Cons by (simp add: follows_def)
      moreover have "hr_height r < target"
        using a(3) indexed [OF assms(1)] Cons b by (simp add: below_height_def spec_last_def)
      ultimately show ?thesis
        using empty [of "unat (hr_height r)"] by (simp add: word_less_nat_alt)
    qed (use assms(2) in \<open>simp add: follows_def\<close>)
    then have "follows (canonical lib blake rd config ch) ch (spec_commit blake ?c lg)"
      using follows_commit [OF assms(2) c(1)] empty [of "unat target"] c(3)
      by (simp add: empty_commit_def)
    moreover have "hr_height r \<le> ch_tip ch" if "spec_last (spec_commit blake ?c lg) = Some r" for r
      using that target by (auto simp: empty_commit_def)
    moreover have "fast_forward up ops config (ch_tip ch) e s = (e', s', Ok ())"
      using a e'(2) s'(1) by (simp add: fast_forward_def Let_def target transient_def fatal_def)
    ultimately show ?thesis using e'(1) s'(2) by blast
  qed
qed

text \<open>One turn of the indexing loop below the tip.\<close>

lemma next_block:
  assumes "rel s lg" "follows (canonical lib blake rd config ch) ch lg"
    and "so_indexed_height ops s = indexed" "case indexed of None \<Rightarrow> 1 \<le> ch_tip ch | Some h \<Rightarrow> h < ch_tip ch"
  shows "next_to_index indexed \<le> ch_tip ch" "next_height lg (next_to_index indexed)"
    and "\<exists>n. unat (next_to_index indexed) = Suc n \<and> canonical lib blake rd config ch n = Some (lg_contents lg)
      \<and> next_to_index indexed = of_nat (Suc n) \<and> n = (case indexed of None \<Rightarrow> 0 | Some h \<Rightarrow> unat h)"
proof -
  have last: "indexed = map_option hr_height (spec_last lg)"
    using indexed [OF assms(1)] assms(3) by simp
  have nat: "w = of_nat (Suc n)" if "unat w = Suc n" for w :: u32 and n
    using that by (metis of_nat_unat ucast_id)
  show "next_to_index indexed \<le> ch_tip ch" "next_height lg (next_to_index indexed)"
    using assms(4) next_to_index_Suc last
    by (auto simp: next_height_def next_to_index_def split: option.splits)
  show "\<exists>n. unat (next_to_index indexed) = Suc n \<and> canonical lib blake rd config ch n = Some (lg_contents lg)
      \<and> next_to_index indexed = of_nat (Suc n) \<and> n = (case indexed of None \<Rightarrow> 0 | Some h \<Rightarrow> unat h)"
  proof (cases "lg_blocks lg")
    case Nil
    then show ?thesis
      using assms(2) last by (auto simp: follows_def spec_last_def next_to_index_def)
  next
    case (Cons b bs)
    obtain r y where b: "b = (r, y)" by (rule prod.exhaust)
    then have i: "indexed = Some (hr_height r)"
      using last Cons by (simp add: spec_last_def)
    then have "unat (next_to_index indexed) = Suc (unat (hr_height r))"
      using assms(4) next_to_index_Suc by auto
    with nat [OF this] show ?thesis
      using assms(2) Cons b i by (auto simp: follows_def)
  qed
qed

lemma index_one_law:
  assumes "rel s lg" "follows (canonical lib blake rd config ch) ch lg" "inv e"
    and "activation_height config = Some a"
    and "so_indexed_height ops s = indexed" "case indexed of None \<Rightarrow> 1 \<le> ch_tip ch | Some h \<Rightarrow> h < ch_tip ch"
    and "canonical lib blake rd config ch (unat (next_to_index indexed)) \<noteq> None"
  shows "\<exists>e' s' lg'. index_one lib rd up ops config (ch_tip ch) e s = Some (e', s', Ok True) \<and> inv e' \<and> rel s' lg'
    \<and> follows (canonical lib blake rd config ch) ch lg' \<and> so_indexed_height ops s' = Some (next_to_index indexed)"
proof -
  define h where "h = next_to_index indexed"
  obtain n where n: "unat h = Suc n" "canonical lib blake rd config ch n = Some (lg_contents lg)" "h = of_nat (Suc n)"
    using next_block(3) [OF assms(1,2,5,6)] unfolding h_def by blast
  have h: "h \<le> ch_tip ch" "next_height lg h"
    using next_block(1,2) [OF assms(1,2,5,6)] by (simp_all add: h_def)
  obtain e1 where e1: "inv e1" "up_stop up e = (e1, False)" using running [OF assms(3)] by blast
  obtain e2 where e2: "inv e2" "up_block_hash up h e1 = (e2, Ok (ch_hash ch h))" using block_hash [OF e1(1) h(1)] by blast
  have landed: "follows (canonical lib blake rd config ch) ch (spec_commit blake c lg)
      \<and> so_indexed_height ops s' = Some h"
    if "rel s' (spec_commit blake c lg)" "bc_height c = h" "bc_hash c = ch_hash ch h"
      "canonical lib blake rd config ch (unat h) = Some (apply_commit c (lg_contents lg))" for c s'
    using follows_commit [OF assms(2), of c blake] that h(2) indexed [OF that(1)] by simp
  show ?thesis
  proof (cases "below_activation config h")
    case True
    let ?c = "empty_commit h (ch_hash ch h)"
    have x: "lg_contents lg = (om_empty, om_empty)" "canonical lib blake rd config ch (unat h) = Some (om_empty, om_empty)"
      using canonical_below [of config n lib blake rd ch] True n unat_u32_less [of h] by simp_all
    have c: "next_height lg (bc_height ?c)" "small_commit ?c" "apply_commit ?c y = y" for y
      using h(2) by (simp_all add: empty_commit_def small_commit_def apply_commit_def)
    obtain s' where s': "so_commit_block ops s ?c
        = (s', Ok (contents_root blake (apply_commit ?c (lg_contents lg))))" "rel s' (spec_commit blake ?c lg)"
      using commits [OF assms(1) c(1,2)] by blast
    have "h < a" using True assms(4) by (simp add: below_activation_def)
    then have "index_one lib rd up ops config (ch_tip ch) e s = Some (e2, s', Ok True)"
      using True e1(2) e2(2) h(1) assms(4,5) s'(1)
      by (simp add: index_one_def Let_def h_def [symmetric] transient_def fatal_def process_zcash_block_def
          commit_empty_block_def not_less)
    then show ?thesis
      using landed [OF s'(2)] x c(3) e2(1) s'(2) unfolding h_def by (force simp: empty_commit_def)
  next
    case False
    obtain x where x: "canonical lib blake rd config ch (unat h) = Some x" using assms(7) h_def by auto
    then have "block_contents lib blake rd config h (ch_hash ch h) (ch_raw ch (ch_hash ch h)) (lg_contents lg) = Some x"
      using False n by (simp add: Let_def del: of_nat_Suc)
    from block_contents_commit [OF assms(4) this] obtain parsed c be where
      p: "parse_block rd (ch_raw ch (ch_hash ch h)) h (ch_hash ch h) (ic_network config) = Ok parsed"
        "pb_height parsed = h" "pb_hash parsed = ch_hash ch h" "length (pb_transactions parsed) < 2 ^ 31"
        "bc_height c = h" "bc_hash c = ch_hash ch h" "apply_commit c (lg_contents lg) = x"
        "process_parsed_block lib (ledger_ops blake) config parsed lg = Some (spec_commit blake c lg, Ok be)"
      by blast
    obtain s' where s': "process_parsed_block lib ops config parsed s = Some (s', Ok be)" "rel s' (spec_commit blake c lg)"
      using process_block_total [OF assms(1) _ p(4,8)] h(2) p(2) by auto
    obtain e3 where e3: "inv e3" "up_raw_block up (ch_hash ch h) e2 = (e3, Ok (ch_raw ch (ch_hash ch h)))"
      using raw_block [OF e2(1) h(1)] by blast
    have "index_one lib rd up ops config (ch_tip ch) e s = Some (e3, s', Ok True)"
      using False e1(2) e2(2) e3(2) h(1) assms(5) p(1) s'(1)
      by (simp add: index_one_def index_raw_block_def Let_def h_def [symmetric] transient_def fatal_def not_less)
    then show ?thesis
      using landed [OF s'(2) p(5,6)] x p(7) e3(1) s'(2) unfolding h_def by blast
  qed
qed

lemma index_one_done:
  assumes "inv e" "so_indexed_height ops s = Some (ch_tip ch)" "next_to_index (Some (ch_tip ch)) > ch_tip ch"
  shows "\<exists>e'. inv e' \<and> index_one lib rd up ops config (ch_tip ch) e s = Some (e', s, Ok False)"
proof -
  obtain e1 where "inv e1" "up_stop up e = (e1, False)" using running [OF assms(1)] by blast
  then show ?thesis using assms(2,3) by (auto simp: index_one_def Let_def)
qed

lemma index_law:
  assumes "rel s lg" "follows (canonical lib blake rd config ch) ch lg" "inv e"
    and "activation_height config = Some a" "1 \<le> ch_tip ch" "ch_tip ch < - 1"
    and "\<forall>n \<le> unat (ch_tip ch). canonical lib blake rd config ch n \<noteq> None"
    and "case so_indexed_height ops s of None \<Rightarrow> True | Some h \<Rightarrow> h \<le> ch_tip ch"
    and "unat (ch_tip ch) - (case so_indexed_height ops s of None \<Rightarrow> 0 | Some h \<Rightarrow> unat h) < fuel"
  shows "\<exists>e' s' lg'. index_blocks fuel lib rd up ops config (ch_tip ch) e s = Finished (e', s', Ok ()) \<and> inv e'
    \<and> rel s' lg' \<and> follows (canonical lib blake rd config ch) ch lg' \<and> so_indexed_height ops s' = Some (ch_tip ch)"
  using assms(1,2,3,8,9)
proof (induction fuel arbitrary: e s lg)
  case (Suc fuel)
  define i where "i = so_indexed_height ops s"
  show ?case
  proof (cases "i = Some (ch_tip ch)")
    case True
    have "next_to_index (Some (ch_tip ch)) > ch_tip ch"
      using next_to_index_Suc(3) [OF assms(6)] .
    then obtain e' where "inv e'" "index_one lib rd up ops config (ch_tip ch) e s = Some (e', s, Ok False)"
      using index_one_done [OF Suc.prems(3) True [unfolded i_def]] by blast
    moreover from this have "index_blocks (Suc fuel) lib rd up ops config (ch_tip ch) e s = Finished (e', s, Ok ())"
      by simp
    moreover have "so_indexed_height ops s = Some (ch_tip ch)" using True i_def by simp
    ultimately show ?thesis
      using Suc.prems(1,2) by blast
  next
    case False
    then have below: "case i of None \<Rightarrow> 1 \<le> ch_tip ch | Some h \<Rightarrow> h < ch_tip ch"
      using Suc.prems(4) assms(5) i_def by (auto split: option.splits)
    note nb = next_block [OF Suc.prems(1,2) i_def [symmetric] below]
    have "canonical lib blake rd config ch (unat (next_to_index i)) \<noteq> None"
      using assms(7) nb(1) by (simp add: word_le_nat_alt)
    from index_one_law [OF Suc.prems(1-3) assms(4) i_def [symmetric] below this]
    obtain e1 s1 lg1 where 1: "index_one lib rd up ops config (ch_tip ch) e s = Some (e1, s1, Ok True)" "inv e1" "rel s1 lg1"
      "follows (canonical lib blake rd config ch) ch lg1" "so_indexed_height ops s1 = Some (next_to_index i)"
      by blast
    have "unat (ch_tip ch) - unat (next_to_index i) < fuel"
      using nb(1,3) Suc.prems(5) i_def by (auto simp: word_le_nat_alt split: option.splits)
    then show ?thesis
      using Suc.IH [OF 1(3,4,2)] nb(1) 1(5) by (simp add: 1(1))
  qed
qed simp

text \<open>The tick, from any fork that the store has followed so far.\<close>

lemma tick_law:
  assumes "rel s lg" "follows (canonical lib blake rd config f) f lg" "forks f ch" "inv e"
    and "activation_height config = Some a" "1 \<le> ch_tip ch" "ch_tip ch < - 1"
    and "\<forall>n \<le> unat (ch_tip ch). canonical lib blake rd config ch n \<noteq> None"
    and "\<forall>r. spec_last lg = Some r \<longrightarrow> hr_height r \<le> ch_tip ch"
    and "length (lg_blocks lg) < fuel" "unat (ch_tip ch) < fuel"
  shows "\<exists>e' s' lg'. tick fuel lib rd up ops config e s handle
      = Finished (e', s', Some \<lparr>br_height = ch_tip ch, br_hash = ch_hash ch (ch_tip ch)\<rparr>,
          Ok \<lparr>to_tip = ch_tip ch, to_indexed_before = so_indexed_height ops s, to_indexed_after = Some (ch_tip ch)\<rparr>)
    \<and> inv e' \<and> rel s' lg' \<and> follows (canonical lib blake rd config ch) ch lg'
    \<and> so_indexed_height ops s' = Some (ch_tip ch)"
proof -
  obtain e0 where e0: "inv e0" "up_tip up e = (e0, Ok \<lparr>br_height = ch_tip ch, br_hash = ch_hash ch (ch_tip ch)\<rparr>)"
    using tip [OF assms(4)] by blast
  obtain e1 s1 lg1 where 1: "handle_reorg fuel up ops e0 s = Finished (e1, s1, Ok ())" "inv e1" "rel s1 lg1"
    "follows (canonical lib blake rd config ch) ch lg1"
    "lg_blocks lg1 = dropWhile (Not \<circ> on_chain ch \<circ> fst) (lg_blocks lg)"
    using reorg_law [OF assms(1-3) e0(1) assms(9,10)] by blast
  have "\<forall>r. spec_last lg1 = Some r \<longrightarrow> hr_height r \<le> ch_tip ch"
  proof (intro allI impI)
    fix r assume r: "spec_last lg1 = Some r"
    then obtain y bs where "lg_blocks lg1 = (r, y) # bs"
      by (auto simp: spec_last_def split: list.splits)
    then have "(r, y) \<in> set (lg_blocks lg)"
      using 1(5) set_dropWhileD by (metis list.set_intros(1))
    then obtain r0 y0 bs0 where l: "lg_blocks lg = (r0, y0) # bs0" by (cases "lg_blocks lg") auto
    have "hr_height r \<le> hr_height r0"
      using heights_le_last [OF _ l] assms(2) \<open>(r, y) \<in> set (lg_blocks lg)\<close> by (auto simp: follows_def)
    then show "hr_height r \<le> ch_tip ch"
      using assms(9) l by (auto simp: spec_last_def)
  qed
  from fast_forward_law [OF 1(3,4,2) this]
  obtain e2 s2 lg2 where 2: "fast_forward up ops config (ch_tip ch) e1 s1 = (e2, s2, Ok ())" "inv e2" "rel s2 lg2"
    "follows (canonical lib blake rd config ch) ch lg2" "\<forall>r. spec_last lg2 = Some r \<longrightarrow> hr_height r \<le> ch_tip ch"
    by blast
  have "case so_indexed_height ops s2 of None \<Rightarrow> True | Some h \<Rightarrow> h \<le> ch_tip ch"
    using 2(5) indexed [OF 2(3)] by (auto split: option.splits)
  moreover have "unat (ch_tip ch) - (case so_indexed_height ops s2 of None \<Rightarrow> 0 | Some h \<Rightarrow> unat h) < fuel"
    using assms(11) by simp
  ultimately obtain e3 s3 lg3 where 3: "index_blocks fuel lib rd up ops config (ch_tip ch) e2 s2 = Finished (e3, s3, Ok ())"
    "inv e3" "rel s3 lg3" "follows (canonical lib blake rd config ch) ch lg3" "so_indexed_height ops s3 = Some (ch_tip ch)"
    using index_law [OF 2(3,4,2) assms(5-8)] by blast
  have "tick_at fuel lib rd up ops config (ch_tip ch) e0 s = Finished (e3, s3, Ok ())"
    by (simp add: tick_at_def 1(1) 2(1) 3(1))
  then have "tick fuel lib rd up ops config e s handle
      = Finished (e3, s3, Some \<lparr>br_height = ch_tip ch, br_hash = ch_hash ch (ch_tip ch)\<rparr>,
          Ok \<lparr>to_tip = ch_tip ch, to_indexed_before = so_indexed_height ops s, to_indexed_after = Some (ch_tip ch)\<rparr>)"
    using 3(5) e0(2) by (simp add: tick_def transient_def)
  then show ?thesis
    using 3(2-5) by blast
qed

text \<open>At the tip, a ledger that follows the chain has exactly the contents of the chain.\<close>

lemma contents_at_tip:
  assumes "rel s lg" "follows (canonical lib blake rd config ch) ch lg" "so_indexed_height ops s = Some h"
  shows "canonical lib blake rd config ch (unat h) = Some (lg_contents lg)
    \<and> so_indexed_block_hash ops s = Some (ch_hash ch h)
    \<and> so_compute_root ops s = contents_root blake (lg_contents lg)"
  using indexed [OF assms(1)] compute_root [OF assms(1)] assms(2,3)
  by (auto simp: follows_def spec_last_def split: list.splits)

end

end
