(* ===== verification/Sync_Safety.thy ===== *)
theory Sync_Safety
  imports Sync_Node
begin

text \<open>
  What the indexing loop keeps of the store whatever the chain source answers: errors, blocks
  of any content, a chain that changes between two calls, a store that refuses a write.
\<close>

section \<open>Ledgers with recorded roots\<close>

fun roots_of :: "blake \<Rightarrow> contents \<Rightarrow> (height_record \<times> contents) list \<Rightarrow> bool" where
  "roots_of blake x [] \<longleftrightarrow> True"
| "roots_of blake x ((r, y) # bs) \<longleftrightarrow> hr_root r = contents_root blake x \<and> roots_of blake y bs"

text \<open>Every block records the root of its contents; the last height can be counted on from.\<close>

definition sound_ledger :: "blake \<Rightarrow> ledger \<Rightarrow> bool" where
  "sound_ledger blake lg \<longleftrightarrow>
     roots_of blake (lg_contents lg) (lg_blocks lg) \<and> (\<forall>r. spec_last lg = Some r \<longrightarrow> hr_height r < - 1)"

lemma sound_ledger_empty [simp]: "sound_ledger blake empty_ledger"
  by (simp add: sound_ledger_def empty_ledger_def spec_last_def)

lemma sound_ledger_commit:
  assumes "sound_ledger blake lg" "bc_height c < - 1"
  shows "sound_ledger blake (spec_commit blake c lg)"
  using assms by (auto simp: sound_ledger_def spec_commit_def spec_last_def Let_def)

lemma roots_of_unwind: "roots_of blake x bs \<Longrightarrow> roots_of blake (fst (unwind t x bs)) (snd (unwind t x bs))"
  by (induction t x bs rule: unwind.induct) auto

lemma sound_ledger_rollback:
  assumes "sound_ledger blake lg" "heights_ok lg"
  shows "sound_ledger blake (spec_rollback t lg)"
proof -
  obtain x bs where u: "unwind t (lg_contents lg) (lg_blocks lg) = (x, bs)" by fastforce
  obtain ds where ds: "lg_blocks lg = ds @ bs"
    using unwind_suffix [of "lg_blocks lg" t "lg_contents lg"] u by auto
  have "hr_height (fst b) < - 1" if b: "b \<in> set (lg_blocks lg)" for b
  proof -
    obtain r y bs' where l: "lg_blocks lg = (r, y) # bs'" using b by (cases "lg_blocks lg") auto
    then have "hr_height (fst b) \<le> hr_height r"
      using heights_le_last [OF assms(2) l] b by auto
    moreover have "hr_height r < - 1" using assms(1) l by (simp add: sound_ledger_def spec_last_def)
    ultimately show ?thesis by order
  qed
  then have "hr_height r < - 1" if "spec_last (spec_rollback t lg) = Some r" for r
    using that u ds by (fastforce simp: spec_rollback_def spec_last_def split: list.splits)
  moreover have "roots_of blake x bs"
    using roots_of_unwind [of blake "lg_contents lg" "lg_blocks lg" t] assms(1) u by (simp add: sound_ledger_def)
  ultimately show ?thesis
    using u by (simp add: sound_ledger_def spec_rollback_def)
qed

section \<open>The steps of the loop\<close>

text \<open>No tip at the largest height, no block with more transactions than \<open>u32\<close> counts.\<close>

definition tips_below_max :: "'e upstream \<Rightarrow> bool" where
  "tips_below_max up \<longleftrightarrow> (\<forall>e e' t. up_tip up e = (e', Ok t) \<longrightarrow> br_height t < - 1)"

definition block_sizes :: "(bytes \<Rightarrow> consensus_params \<Rightarrow> (string, zcash_block) result) \<Rightarrow> bool" where
  "block_sizes rd \<longleftrightarrow> (\<forall>raw p b. rd raw p = Ok b \<longrightarrow> length (zb_vtx b) < 2 ^ 31)"

text \<open>
  Any number of passes of the loop, each behind a stop check that says go on: the state of the chain
  source, the database and the tip handle between two ticks of a loop that goes on for ever, or
  after its last one.
\<close>

inductive passes ::
    "nat \<Rightarrow> 'm node_lib \<Rightarrow> (bytes \<Rightarrow> consensus_params \<Rightarrow> (string, zcash_block) result) \<Rightarrow> 'e upstream \<Rightarrow> 's store_ops \<Rightarrow> indexer_config
      \<Rightarrow> 'e \<times> 's \<times> block_ref option \<Rightarrow> 'e \<times> 's \<times> block_ref option \<Rightarrow> bool"
  for fuel lib rd up ops config where
  no_pass: "passes fuel lib rd up ops config x x"
| next_pass: "passes fuel lib rd up ops config x (e, s, handle) \<Longrightarrow> up_stop up e = (e0, False)
    \<Longrightarrow> tick fuel lib rd up ops config e0 s handle = Finished (e1, s1, handle1, r)
    \<Longrightarrow> \<forall>cause. r \<noteq> Err (Fatal ''rolling back a reorged block'' cause)
    \<Longrightarrow> (if is_ok r then up_now up e1 else (e1, 0)) = (e2, now)
    \<Longrightarrow> passes fuel lib rd up ops config x (e2, s1, handle1)"

lemma parsed_block_fields:
  assumes "parse_block rd raw h hash net = Ok b" "block_sizes rd"
  shows "pb_height b = h" "pb_hash b = hash" "length (pb_transactions b) < 2 ^ 31"
  using assms by (auto simp: parse_block_def block_sizes_def split: if_splits)

context state_store begin

definition store_ok :: "'s \<Rightarrow> bool" where
  "store_ok s \<longleftrightarrow> (\<exists>lg. rel s lg \<and> sound_ledger blake lg)"

lemma commit_keeps:
  assumes "rel s lg" "sound_ledger blake lg" "next_height lg (bc_height c)" "small_commit c" "bc_height c < - 1"
    and "so_commit_block ops s c = (s', r)"
  shows "store_ok s'"
  using commit [OF assms(1,3,4,6)] assms(2) sound_ledger_commit [OF assms(2,5)]
  unfolding store_ok_def by (cases r) auto

lemma empty_commit_keeps:
  assumes "rel s lg" "sound_ledger blake lg" "next_height lg h" "h < - 1"
    and "so_commit_block ops s (empty_commit h hash) = (s', r)"
  shows "store_ok s'"
  using commit_keeps [OF assms(1,2) _ _ _ assms(5)] assms(3,4)
  by (simp add: empty_commit_def small_commit_def)

lemma commit_empty_block_keeps:
  assumes "rel s lg" "sound_ledger blake lg" "next_height lg h" "h < - 1"
    and "commit_empty_block ops h hash s = (s', r)"
  shows "store_ok s'"
proof -
  obtain s1 r1 where "so_commit_block ops s (empty_commit h hash) = (s1, r1)" by fastforce
  then show ?thesis
    using empty_commit_keeps [OF assms(1-4)] assms(5)
    by (auto simp: commit_empty_block_def split: sum.splits)
qed

lemma process_parsed_keeps:
  assumes "rel s lg" "sound_ledger blake lg" "next_height lg (pb_height b)" "pb_height b < - 1"
    and "length (pb_transactions b) < 2 ^ 31"
    and "process_parsed_block lib ops config b s = Some (s', r)"
  shows "store_ok s'"
proof (cases "activation_height config")
  case None
  then show ?thesis
    using assms(1,2,6) by (auto simp: process_parsed_block_def store_ok_def)
next
  case (Some a)
  show ?thesis
  proof (cases "pb_height b < a")
    case True
    then show ?thesis
      using assms(6) Some commit_empty_block_keeps [OF assms(1-4)] by (auto simp: process_parsed_block_def)
  next
    case False
    then obtain p where p: "process_transactions lib ops s config (pb_transactions b)
        (start_block (pb_height b) (pb_hash b)) = Some p"
      "commit_progress ops b (so_compute_root ops s) p s = (s', r)"
      using assms(6) by (auto simp: process_parsed_block_def Some)
    have h: "bc_height (pg_commit p) = pb_height b"
      using header_transactions [OF p(1)] by (simp add: header_inv_def)
    obtain s1 r1 where c: "so_commit_block ops s (pg_commit p) = (s1, r1)" by fastforce
    have ok: "store_ok s1"
      using commit_keeps [OF assms(1,2) _ block_commit_small [OF p(1) assms(5)] _ c] h assms(3,4) by simp
    show ?thesis
    proof (cases r1)
      case (Inl x)
      then show ?thesis using p(2) c ok by (simp add: commit_progress_def)
    next
      case (Inr root)
      obtain s2 r2 where v: "so_save_executions ops s1 (pg_executions p) = (s2, r2)" by fastforce
      then have "store_ok s2" using ok save unfolding store_ok_def by blast
      then show ?thesis
        using p(2) c v Inr by (auto simp: commit_progress_def split: sum.splits)
    qed
  qed
qed

lemma next_index_ok:
  assumes "rel s lg" "sound_ledger blake lg"
  shows "next_height lg (next_to_index (so_indexed_height ops s))"
  using indexed [OF assms(1)] assms(2) next_to_index_Suc(3) [of _ "- 1"]
  by (auto simp: next_height_def sound_ledger_def split: option.splits)

lemma index_one_keeps:
  assumes "store_ok s" "tip < - 1" "block_sizes rd"
    and "index_one lib rd up ops config tip e s = Some (e', s', r)"
  shows "store_ok s'"
proof -
  obtain lg where lg: "rel s lg" "sound_ledger blake lg" using assms(1) by (auto simp: store_ok_def)
  define h where "h = next_to_index (so_indexed_height ops s)"
  have nxt: "next_height lg h" unfolding h_def by (rule next_index_ok [OF lg])
  show ?thesis
  proof (cases "s' = s")
    case False
    then have h: "h < - 1"
      using assms(2,4) by (auto simp: index_one_def Let_def h_def split: prod.splits bool.splits if_splits)
    obtain e1 where e1: "up_stop up e = (e1, False)"
      using False assms(4) by (auto simp: index_one_def split: prod.splits bool.splits)
    obtain e2 r2 where e2: "up_block_hash up h e1 = (e2, r2)" by fastforce
    obtain hash where r2: "r2 = Ok hash"
      using False assms(4) e1 e2
      by (cases r2) (auto simp: index_one_def Let_def h_def transient_def split: if_splits)
    show ?thesis
    proof (cases "below_activation config h")
      case True
      obtain s1 r1 where c: "commit_empty_block ops h hash s = (s1, r1)" by fastforce
      then have "s' = s1"
        using False assms(4) e1 e2 r2 True
        by (auto simp: index_one_def Let_def h_def transient_def process_zcash_block_def below_activation_def
            split: if_splits option.splits)
      then show ?thesis using commit_empty_block_keeps [OF lg nxt h c] by simp
    next
      case below: False
      obtain e3 raw where e3: "up_raw_block up hash e2 = (e3, raw)" by fastforce
      have "\<exists>r1. index_raw_block lib rd ops config h hash raw s = Some (s', r1)"
        using False assms(4) e1 e2 r2 e3 below
        by (auto simp: index_one_def Let_def h_def transient_def split: if_splits)
      then obtain r1 where ir: "index_raw_block lib rd ops config h hash raw s = Some (s', r1)" by blast
      then obtain bs where bs: "raw = Ok bs"
        using False by (cases raw) (auto simp: index_raw_block_def transient_def)
      then obtain parsed where p: "parse_block rd bs h hash (ic_network config) = Ok parsed"
        using False ir
        by (cases "parse_block rd bs h hash (ic_network config)") (auto simp: index_raw_block_def transient_def)
      obtain r3 where run: "process_parsed_block lib ops config parsed s = Some (s', r3)"
        using ir p bs by (auto simp: index_raw_block_def transient_def)
      then show ?thesis
        using process_parsed_keeps [OF lg _ _ _ run] nxt h parsed_block_fields [OF p assms(3)] by simp
    qed
  qed (use assms(1) in simp)
qed

lemma index_blocks_keeps:
  assumes "store_ok s" "tip < - 1" "block_sizes rd"
    and "index_blocks fuel lib rd up ops config tip e s = Finished (e', s', r)"
  shows "store_ok s'"
  using assms(1,4)
proof (induction fuel arbitrary: e s)
  case (Suc fuel)
  then show ?case
    using index_one_keeps [OF Suc.prems(1) assms(2,3), of lib up config e]
    by (auto split: option.splits prod.splits sum.splits bool.splits)
qed simp

lemma reorg_step_keeps:
  assumes "store_ok s" "reorg_step up ops e s = (e', s', r)"
    and "\<forall>cause. r \<noteq> Err (Fatal ''rolling back a reorged block'' cause)"
  shows "store_ok s'"
proof -
  obtain lg where lg: "rel s lg" "sound_ledger blake lg" using assms(1) by (auto simp: store_ok_def)
  show ?thesis
  proof (cases "s' = s")
    case False
    obtain h hash where i: "so_indexed_height ops s = Some h" "so_indexed_block_hash ops s = Some hash"
      using False assms(2) by (auto simp: reorg_step_def split: option.splits)
    obtain e1 r1 where "up_block_hash up h e = (e1, r1)" by fastforce
    moreover obtain s2 r2 where r2: "so_rollback_to ops s (h - 1) = (s2, r2)" by fastforce
    ultimately have "s' = s2 \<and> r2 = Ok ()"
      using False assms(2,3) i
      by (cases r1; cases r2) (auto simp: reorg_step_def fatal_def transient_def split: if_splits)
    then have "so_rollback_to ops s (h - 1) = (s', Ok ())" using r2 by simp
    then show ?thesis
      using rollback [OF lg(1)] sound_ledger_rollback [OF lg(2) rel_heights [OF lg(1)]]
      unfolding store_ok_def by auto
  qed (use assms(1) in simp)
qed

lemma handle_reorg_keeps:
  assumes "store_ok s" "handle_reorg fuel up ops e s = Finished (e', s', r)"
    and "\<forall>cause. r \<noteq> Err (Fatal ''rolling back a reorged block'' cause)"
  shows "store_ok s'"
  using assms(1,2)
proof (induction fuel arbitrary: e s)
  case (Suc fuel)
  obtain e1 s1 r1 where 1: "reorg_step up ops e s = (e1, s1, r1)" using prod_cases3 by blast
  then have "store_ok s1"
    using reorg_step_keeps [OF Suc.prems(1) 1] Suc.prems(2) assms(3) by (cases r1) (auto split: bool.splits)
  then show ?case
    using Suc 1 by (cases r1) (auto split: bool.splits)
qed simp

lemma fast_forward_keeps:
  assumes "store_ok s" "tip < - 1" "fast_forward up ops config tip e s = (e', s', r)"
  shows "store_ok s'"
proof -
  obtain lg where lg: "rel s lg" "sound_ledger blake lg" using assms(1) by (auto simp: store_ok_def)
  show ?thesis
  proof (cases "s' = s")
    case False
    then obtain a where a: "activation_height config = Some a" "1 < a"
      using assms(3) by (auto simp: fast_forward_def split: option.splits if_splits)
    define target where "target = min (a - 1) tip"
    have below: "below_height (so_indexed_height ops s) target"
      using False assms(3) a by (auto simp: fast_forward_def target_def Let_def split: if_splits)
    obtain e1 r1 where h: "up_block_hash up target e = (e1, r1)" by fastforce
    then obtain hash where r1: "r1 = Ok hash"
      using False assms(3) a below
      by (cases r1) (auto simp: fast_forward_def target_def [symmetric] Let_def transient_def)
    obtain s1 r2 where c: "so_commit_block ops s (empty_commit target hash) = (s1, r2)" by fastforce
    then have "s' = s1"
      using assms(3) a below h r1
      by (auto simp: fast_forward_def target_def [symmetric] Let_def transient_def)
    moreover have "next_height lg target"
      using below indexed [OF lg(1)] by (auto simp: next_height_def below_height_def split: option.splits)
    moreover have "target < - 1"
      using assms(2) unfolding target_def by (rule min.strict_coboundedI2)
    ultimately show ?thesis using empty_commit_keeps [OF lg _ _ c] by simp
  qed (use assms(1) in simp)
qed

lemma tick_keeps:
  assumes "store_ok s" "tips_below_max up" "block_sizes rd"
    and "tick fuel lib rd up ops config e s handle = Finished (e', s', handle', r)"
    and "\<forall>cause. r \<noteq> Err (Fatal ''rolling back a reorged block'' cause)"
  shows "store_ok s'"
proof -
  obtain e0 r0 where t: "up_tip up e = (e0, r0)" by fastforce
  show ?thesis
  proof (cases r0)
    case (Inr tip)
    have tip: "br_height tip < - 1" using assms(2) t Inr by (auto simp: tips_below_max_def)
    obtain r1 where a: "tick_at fuel lib rd up ops config (br_height tip) e0 s = Finished (e', s', r1)"
      "\<forall>cause. r1 \<noteq> Err (Fatal ''rolling back a reorged block'' cause)"
      using assms(4,5) t Inr by (fastforce simp: tick_def transient_def split: loop_result.splits)
    obtain e1 s1 r2 where h: "handle_reorg fuel up ops e0 s = Finished (e1, s1, r2)"
      using a(1) by (auto simp: tick_at_def split: loop_result.splits)
    show ?thesis
    proof (cases r2)
      case (Inl x)
      then show ?thesis
        using handle_reorg_keeps [OF assms(1) h] a h by (auto simp: tick_at_def)
    next
      case Inr2: (Inr u)
      then have s1: "store_ok s1" using handle_reorg_keeps [OF assms(1) h] by simp
      obtain e2 s2 r3 where f: "fast_forward up ops config (br_height tip) e1 s1 = (e2, s2, r3)"
        using prod_cases3 by blast
      have s2: "store_ok s2" by (rule fast_forward_keeps [OF s1 tip f])
      show ?thesis
      proof (cases r3)
        case (Inl x)
        then show ?thesis using a(1) h Inr2 f s2 by (simp add: tick_at_def)
      next
        case (Inr v)
        then have "index_blocks fuel lib rd up ops config (br_height tip) e2 s2 = Finished (e', s', r1)"
          using a(1) h Inr2 f by (simp add: tick_at_def)
        from index_blocks_keeps [OF s2 tip assms(3) this] show ?thesis .
      qed
    qed
  next
    case (Inl x)
    then show ?thesis using assms(1,4) t by (simp add: tick_def transient_def)
  qed
qed

text \<open>Any number of ticks, until the loop stops or runs out of its iterations.\<close>

lemma run_sync_keeps:
  assumes "store_ok s" "tips_below_max up" "block_sizes rd"
    and "run_sync n fuel lib rd up ops config e s handle h = Finished (e', s', handle', h', r)"
    and "\<forall>cause. r \<noteq> Err (Fatal ''rolling back a reorged block'' cause)"
  shows "store_ok s'"
  using assms(1,4)
proof (induction n arbitrary: e s handle h)
  case (Suc n)
  obtain e0 stop where st: "up_stop up e = (e0, stop)" by fastforce
  show ?case
  proof (cases stop)
    case True
    then show ?thesis using Suc.prems st by simp
  next
    case False
    then obtain e1 s1 handle1 r1 where t:
      "tick fuel lib rd up ops config e0 s handle = Finished (e1, s1, handle1, r1)"
      using Suc.prems(2) st by (auto split: loop_result.splits)
    obtain e2 now where now: "(if is_ok r1 then up_now up e1 else (e1, 0)) = (e2, now)" by fastforce
    obtain h1 x where a: "after_tick ops s1 now r1 h = (h1, x)" by fastforce
    have "\<forall>cause. r1 \<noteq> Err (Fatal ''rolling back a reorged block'' cause)"
      using Suc.prems(2) st False t now a assms(5)
      by (auto simp: after_tick_def simp del: sync_error_text.simps)
    then have s1: "store_ok s1" using tick_keeps [OF Suc.prems(1) assms(2,3) t] by simp
    show ?thesis
    proof (cases x)
      case None
      then have "run_sync n fuel lib rd up ops config e2 s1 handle1 h1 = Finished (e', s', handle', h', r)"
        using Suc.prems(2) st False t now a by simp
      then show ?thesis by (rule Suc.IH [OF s1])
    next
      case (Some y)
      then show ?thesis using Suc.prems(2) st False t now a s1 by simp
    qed
  qed
qed simp

lemma passes_keep:
  assumes "passes fuel lib rd up ops config x y" "tips_below_max up" "block_sizes rd" "store_ok (fst (snd x))"
  shows "store_ok (fst (snd y))"
  using assms(1,4)
proof induction
  case (next_pass x e s handle e0 e1 s1 handle1 r e2 now)
  show ?case using tick_keeps [OF _ assms(2,3) next_pass(3,4)] next_pass(6,7) by simp
qed simp

text \<open>What such a store shows: increasing heights, each with its block's root; the persisted
  root is the root recomputed from the contents.\<close>

lemma store_ok_reads:
  assumes "store_ok s"
  shows "sorted_wrt (<) (map hr_height (so_height_history ops s))"
    and "so_indexed_height ops s \<noteq> None \<longrightarrow> so_persisted_state_root ops s = Some (so_compute_root ops s)"
proof -
  obtain lg where lg: "rel s lg" "sound_ledger blake lg" using assms by (auto simp: store_ok_def)
  show "sorted_wrt (<) (map hr_height (so_height_history ops s))"
    using rel_heights [OF lg(1)] history [OF lg(1)]
    by (simp add: heights_ok_def spec_history_def rev_map [symmetric] sorted_wrt_rev o_def)
  show "so_indexed_height ops s \<noteq> None \<longrightarrow> so_persisted_state_root ops s = Some (so_compute_root ops s)"
    using lg(2) indexed [OF lg(1)] compute_root [OF lg(1)]
    by (auto simp: sound_ledger_def spec_last_def split: list.splits)
qed

end

end
