(* ===== verification/Sync_Props.thy ===== *)
theory Sync_Props
  imports Sync_Safety Indexer_Props
begin

text \<open>
  The properties of the indexing loop as the program composes it: RocksDB as the store and a
  JSON-RPC node as the chain source.
\<close>

section \<open>The composition of the program\<close>

context json_kv begin

lemma rocks_total_store: "total_store (rocks_ops blake to_json from_json kv) (rocks_rel view) blake"
  by unfold_locales

end

context kv_store begin

lemma rocks_state_store: "state_store (rocks_ops blake to_json from_json kv) (rocks_rel view) blake"
  by unfold_locales

end

lemma rocks_rpc_node:
  assumes "json_kv kv view to_json" "honest_node hx z stop good ch name"
  shows "sync_node (rocks_ops blake to_json from_json kv) (rocks_rel view) blake (rpc_upstream hx z stop now) good ch"
  using json_kv.rocks_total_store [OF assms(1)] honest_node.source_is_stable [OF assms(2)]
  by (simp add: sync_node_def)

interpretation demo_node: sync_node "rocks_ops blake (\<lambda>e. Some []) from_json map_kv" "rocks_rel (\<lambda>d. d)" blake
    "rpc_upstream plain_hex (chain_node name ch (ch_raw ch)) (\<lambda>e. (e, False)) (\<lambda>e. (e, 0))" "\<lambda>_. True" ch
  for blake from_json name ch
  by (rule rocks_rpc_node [OF map_json.json_kv_axioms fixed_node.honest_node_axioms])

lemma rocks_reads:
  "so_indexed_height (rocks_ops blake to_json from_json kv) = rocks_indexed_height kv"
  "so_indexed_block_hash (rocks_ops blake to_json from_json kv) = rocks_indexed_block_hash kv"
  "so_persisted_state_root (rocks_ops blake to_json from_json kv) = rocks_persisted_state_root kv"
  "so_compute_root (rocks_ops blake to_json from_json kv) = rocks_compute_root blake kv"
  "so_height_history (rocks_ops blake to_json from_json kv) = rocks_height_history kv"
  by (simp_all add: rocks_ops_def)

section \<open>Two chains that fork after the genesis block\<close>

definition demo_chain :: "u8 \<Rightarrow> chain" where
  "demo_chain b = \<lparr>ch_tip = 1, ch_hash = (\<lambda>h. if h = 0 then fill32 0 else fill32 b), ch_raw = (\<lambda>_. [])\<rparr>"

definition demo_reader :: "bytes \<Rightarrow> consensus_params \<Rightarrow> (string, zcash_block) result" where
  "demo_reader raw p = Ok \<lparr>zb_claimed_height = 1, zb_vtx = [(fill32 4, None)]\<rparr>"

definition demo_blake :: blake where
  "demo_blake = (\<lambda>p x. fill32 0)"

abbreviation (input) demo_rpc where
  "demo_rpc b \<equiv> rpc_upstream plain_hex (chain_node ''test'' (demo_chain b) (ch_raw (demo_chain b)))
     (\<lambda>e. (e, False)) (\<lambda>e. (e, 0))"

lemma demo_forks: "forks (demo_chain a) (demo_chain b)"
  by (auto simp: forks_def demo_chain_def)

lemma demo_canonical: "canonical demo_lib demo_blake demo_reader demo_config (demo_chain b) 1 = Some (om_empty, om_empty)"
  by (simp add: canonical.simps(2) [of _ _ _ _ _ 0, simplified] demo_chain_def demo_config_def demo_reader_def
      below_activation_def activation_height_def params block_contents_def parse_block_def
      parse_transaction_def process_parsed_block_def process_transaction_def start_block_def ledger_ops_def
      commit_progress_def spec_commit_def apply_commit_def empty_commit_def Let_def)

lemma demo_canonical_upto:
  "\<forall>n \<le> 1. canonical demo_lib demo_blake demo_reader demo_config (demo_chain b) n \<noteq> None"
  using demo_canonical by (auto simp: le_Suc_eq)

text \<open>A database that has indexed block 1 of a fork.\<close>

lemma demo_forked_db:
  "\<exists>d. rocks_rel (\<lambda>d. d) d (spec_commit demo_blake (empty_commit 1 (fill32 b)) empty_ledger)"
proof -
  have rel: "rocks_rel (\<lambda>d. d) om_empty empty_ledger" by (rule rocks_rel_fresh) simp
  have "next_height empty_ledger (bc_height (empty_commit 1 (fill32 b)))" "small_commit (empty_commit 1 (fill32 b))"
    by (simp_all add: next_height_def spec_last_def empty_ledger_def small_commit_def empty_commit_def)
  from map_json.total.commits [OF rel this] show ?thesis by blast
qed

lemma demo_follows:
  "follows (canonical demo_lib demo_blake demo_reader demo_config (demo_chain b)) (demo_chain b)
     (spec_commit demo_blake (empty_commit 1 (fill32 b)) empty_ledger)"
proof (rule follows_commit [OF follows_empty])
  let ?c = "empty_commit 1 (fill32 b)"
  have "bc_height ?c = 1" "apply_commit ?c x = x" for x
    by (simp_all add: empty_commit_def apply_commit_def)
  then show "canonical demo_lib demo_blake demo_reader demo_config (demo_chain b) (unat (bc_height ?c))
      = Some (apply_commit ?c (lg_contents empty_ledger))"
    by (simp only: unsigned_1 demo_canonical empty_ledger_def ledger.simps)
qed (simp_all add: empty_commit_def next_height_def spec_last_def empty_ledger_def demo_chain_def)

section \<open>Following the chain\<close>

lemma history_filter:
  assumes "lg_blocks lg' = dropWhile (Not \<circ> on_chain ch \<circ> fst) (lg_blocks lg)"
    and "forks f ch" "follows k f lg"
  shows "spec_history lg' = filter (on_chain ch) (spec_history lg)"
proof -
  have eq: "filter (on_chain ch \<circ> fst) (lg_blocks lg) = dropWhile (Not \<circ> on_chain ch \<circ> fst) (lg_blocks lg)"
    using assms(3) unfolding follows_def heights_ok_def by (intro filter_on_chain [OF assms(2)]) blast+
  then show ?thesis
    by (simp only: assms(1) [folded eq] spec_history_def rev_filter [symmetric] filter_map)
qed

text \<open>Reorg handling asks the node for the block at the indexed height. A node that has no block there
  (its chain is shorter than what is indexed) answers with an error, and then every tick ends with a
  transient error and leaves the database as it is: the stale blocks stay until the node's chain is as
  high as they are.\<close>

lemma taller_fork_sticks:
  assumes "so_indexed_height ops s = Some h" "so_indexed_block_hash ops s = Some hash"
    and "up_tip up e = (e1, Ok tip)" "up_block_hash up h e1 = (e2, Err cause)"
  shows "tick (Suc fuel) lib rd up ops config e s handle
    = Finished (e2, s, Some tip, Err (Transient ''fetching canonical block hash for reorg check'' cause))"
  using assms by (simp add: tick_def tick_at_def transient_def reorg_step_def)

text \<open>C8. Reorg handling, from a database that followed a fork of the network that is not taller than the
  node's chain, against a node whose chain is stable: the loop ends, and the database keeps exactly the
  blocks that both chains share, with their contents. The fuel is above the number of indexed blocks.\<close>

theorem reorg_keeps_common_blocks:
  assumes "json_kv kv view to_json" "honest_node hx z stop good ch name" "good e"
    and "rocks_rel view d lg" "follows (canonical lib blake rd config f) f lg" "forks f ch"
    and "case rocks_indexed_height kv d of None \<Rightarrow> True | Some h \<Rightarrow> h \<le> ch_tip ch"
    and "length (rocks_height_history kv d) < fuel"
  shows "\<exists>e' d' lg'.
    handle_reorg fuel (rpc_upstream hx z stop now) (rocks_ops blake to_json from_json kv) e d = Finished (e', d', Ok ())
    \<and> rocks_height_history kv d' = filter (on_chain ch) (rocks_height_history kv d)
    \<and> good e' \<and> rocks_rel view d' lg' \<and> follows (canonical lib blake rd config ch) ch lg'"
proof -
  have node: "sync_node (rocks_ops blake to_json from_json kv) (rocks_rel view) blake (rpc_upstream hx z stop now) good ch"
    by (rule rocks_rpc_node [OF assms(1,2)])
  note store = sync_node.axioms(1) [OF node, THEN total_store.axioms(1)]
  note hist = state_store.history [OF store, unfolded rocks_reads]
  have "\<forall>r. spec_last lg = Some r \<longrightarrow> hr_height r \<le> ch_tip ch"
    using assms(7) state_store.indexed [OF store assms(4)] by (auto simp: rocks_reads split: option.splits)
  moreover have "length (lg_blocks lg) < fuel"
    using assms(8) hist [OF assms(4)] by (simp add: spec_history_def)
  ultimately obtain e' d' lg' where r:
    "handle_reorg fuel (rpc_upstream hx z stop now) (rocks_ops blake to_json from_json kv) e d = Finished (e', d', Ok ())"
    "good e'" "rocks_rel view d' lg'" "follows (canonical lib blake rd config ch) ch lg'"
    "lg_blocks lg' = dropWhile (Not \<circ> on_chain ch \<circ> fst) (lg_blocks lg)"
    using sync_node.reorg_law [OF node assms(4-6,3)] by blast
  then show ?thesis
    using history_filter [OF r(5) assms(6,5)] hist [OF assms(4)] hist [OF r(3)] by auto
qed

lemma reorg_keeps_common_blocks_witness:
  "\<exists>d d'. rocks_height_history map_kv d \<noteq> []
    \<and> handle_reorg 2 (demo_rpc 9) (rocks_ops demo_blake (\<lambda>e. Some []) (\<lambda>_. None) map_kv) () d = Finished ((), d', Ok ())
    \<and> rocks_height_history map_kv d' = []"
proof -
  obtain d where d: "rocks_rel (\<lambda>d. d) d (spec_commit demo_blake (empty_commit 1 (fill32 8)) empty_ledger)"
    using demo_forked_db by blast
  have hist: "rocks_height_history map_kv d
      = [\<lparr>hr_height = 1, hr_hash = fill32 8, hr_root = contents_root demo_blake (om_empty, om_empty)\<rparr>]"
    using map_db.rocks.history [OF d, unfolded rocks_reads]
    by (simp add: spec_history_def spec_commit_def empty_ledger_def empty_commit_def apply_commit_def Let_def)
  have tip: "case rocks_indexed_height map_kv d of None \<Rightarrow> True | Some h \<Rightarrow> h \<le> ch_tip (demo_chain 9)"
    using map_db.rocks.indexed [OF d, unfolded rocks_reads]
    by (simp add: empty_commit_def demo_chain_def)
  from reorg_keeps_common_blocks [where e = "()" and lib = demo_lib and rd = demo_reader and config = demo_config
      and fuel = 2 and blake = demo_blake and now = "\<lambda>e. (e, 0)" and from_json = "\<lambda>_. None"
      and name = "''test''" and ch = "demo_chain 9",
      OF map_json.json_kv_axioms fixed_node.honest_node_axioms TrueI d demo_follows demo_forks tip]
  obtain d' where "handle_reorg 2 (demo_rpc 9) (rocks_ops demo_blake (\<lambda>e. Some []) (\<lambda>_. None) map_kv) () d = Finished ((), d', Ok ())"
    "rocks_height_history map_kv d' = filter (on_chain (demo_chain 9)) (rocks_height_history map_kv d)"
    unfolding hist by auto
  then show ?thesis
    using hist by (intro exI [of _ d] exI [of _ d']) (simp add: on_chain_def demo_chain_def)
qed

text \<open>C7. From a database that followed a fork not taller than the node's chain, one tick against a node
  whose chain is stable, at a tip from 1 to below \<open>u32::MAX\<close>, on a network with an activation height,
  ends at the node's tip, and what the database then holds is determined by the node's chain alone: the
  contents that indexing the chain from its start gives. Every block up to the tip can be read and
  indexed (\<open>canonical\<close> is defined: no read or parse error, no contract that never ends). The fuel is
  above the number of indexed blocks and the height of the tip.\<close>

theorem tick_follows_chain:
  assumes "json_kv kv view to_json" "honest_node hx z stop good ch name" "good e"
    and "rocks_rel view d lg" "follows (canonical lib blake rd config f) f lg" "forks f ch"
    and "activation_height config = Some act" "1 \<le> ch_tip ch" "ch_tip ch < - 1"
    and "\<forall>n \<le> unat (ch_tip ch). canonical lib blake rd config ch n \<noteq> None"
    and "case rocks_indexed_height kv d of None \<Rightarrow> True | Some h \<Rightarrow> h \<le> ch_tip ch"
    and "length (rocks_height_history kv d) < fuel" "unat (ch_tip ch) < fuel"
  shows "\<exists>e' d' x lg'.
    tick fuel lib rd (rpc_upstream hx z stop now) (rocks_ops blake to_json from_json kv) config e d handle
      = Finished (e', d', Some \<lparr>br_height = ch_tip ch, br_hash = ch_hash ch (ch_tip ch)\<rparr>,
          Ok \<lparr>to_tip = ch_tip ch, to_indexed_before = rocks_indexed_height kv d, to_indexed_after = Some (ch_tip ch)\<rparr>)
    \<and> rocks_indexed_height kv d' = Some (ch_tip ch)
    \<and> rocks_indexed_block_hash kv d' = Some (ch_hash ch (ch_tip ch))
    \<and> canonical lib blake rd config ch (unat (ch_tip ch)) = Some x
    \<and> rocks_rel view d' lg' \<and> lg_contents lg' = x \<and> rocks_compute_root blake kv d' = contents_root blake x"
proof -
  have node: "sync_node (rocks_ops blake to_json from_json kv) (rocks_rel view) blake (rpc_upstream hx z stop now) good ch"
    by (rule rocks_rpc_node [OF assms(1,2)])
  note store = sync_node.axioms(1) [OF node, THEN total_store.axioms(1)]
  have "\<forall>r. spec_last lg = Some r \<longrightarrow> hr_height r \<le> ch_tip ch"
    using assms(11) state_store.indexed [OF store assms(4)] by (auto simp: rocks_reads split: option.splits)
  moreover have "length (lg_blocks lg) < fuel"
    using assms(12) state_store.history [OF store assms(4)] by (simp add: rocks_reads spec_history_def)
  ultimately obtain e' d' lg' where r:
    "tick fuel lib rd (rpc_upstream hx z stop now) (rocks_ops blake to_json from_json kv) config e d handle
      = Finished (e', d', Some \<lparr>br_height = ch_tip ch, br_hash = ch_hash ch (ch_tip ch)\<rparr>,
          Ok \<lparr>to_tip = ch_tip ch, to_indexed_before = rocks_indexed_height kv d, to_indexed_after = Some (ch_tip ch)\<rparr>)"
    "rocks_rel view d' lg'" "follows (canonical lib blake rd config ch) ch lg'"
    "so_indexed_height (rocks_ops blake to_json from_json kv) d' = Some (ch_tip ch)"
    using sync_node.tick_law [OF node assms(4-6,3,7-10) _ _ assms(13), unfolded rocks_reads] rocks_reads(1) by metis
  from sync_node.contents_at_tip [OF node r(2-4), unfolded rocks_reads] r show ?thesis
    by (auto simp: rocks_reads)
qed

lemma tick_follows_chain_witness:
  "\<exists>d d'. rocks_indexed_block_hash map_kv d = Some (fill32 8)
    \<and> tick 2 demo_lib demo_reader (demo_rpc 9) (rocks_ops demo_blake (\<lambda>e. Some []) (\<lambda>_. None) map_kv) demo_config () d None
      = Finished ((), d', Some \<lparr>br_height = 1, br_hash = fill32 9\<rparr>,
          Ok \<lparr>to_tip = 1, to_indexed_before = Some 1, to_indexed_after = Some 1\<rparr>)
    \<and> rocks_indexed_block_hash map_kv d' = Some (fill32 9)"
proof -
  obtain d where d: "rocks_rel (\<lambda>d. d) d (spec_commit demo_blake (empty_commit 1 (fill32 8)) empty_ledger)"
    using demo_forked_db by blast
  have ix: "rocks_indexed_height map_kv d = Some 1" "rocks_indexed_block_hash map_kv d = Some (fill32 8)"
    using map_db.rocks.indexed [OF d, unfolded rocks_reads] by (simp_all add: empty_commit_def)
  have len: "length (rocks_height_history map_kv d) < 2"
    using map_db.rocks.history [OF d, unfolded rocks_reads]
    by (simp add: spec_history_def spec_commit_def empty_ledger_def Let_def)
  have tip: "ch_tip (demo_chain 9) = 1" "ch_hash (demo_chain 9) 1 = fill32 9" by (simp_all add: demo_chain_def)
  have one: "(1 :: u32) < - 1" by (simp add: word_less_def uint_word_ariths)
  have act: "activation_height demo_config = Some 1"
    by (simp add: activation_height_def demo_config_def params)
  have all: "\<forall>n \<le> unat (1 :: u32). canonical demo_lib demo_blake demo_reader demo_config (demo_chain 9) n \<noteq> None"
    using demo_canonical_upto by simp
  from tick_follows_chain [where e = "()" and lib = demo_lib and rd = demo_reader and config = demo_config
      and fuel = 2 and blake = demo_blake and now = "\<lambda>e. (e, 0)" and from_json = "\<lambda>_. None"
      and name = "''test''" and handle = None and ch = "demo_chain 9",
      OF map_json.json_kv_axioms fixed_node.honest_node_axioms TrueI d demo_follows demo_forks act, unfolded tip ix, OF _ _ all]
  obtain d' where "tick 2 demo_lib demo_reader (demo_rpc 9) (rocks_ops demo_blake (\<lambda>e. Some []) (\<lambda>_. None) map_kv)
        demo_config () d None
      = Finished ((), d', Some \<lparr>br_height = 1, br_hash = fill32 9\<rparr>,
          Ok \<lparr>to_tip = 1, to_indexed_before = Some 1, to_indexed_after = Some 1\<rparr>)"
    "rocks_indexed_block_hash map_kv d' = Some (fill32 9)"
    using len one by (auto simp del: canonical.simps)
  then show ?thesis using ix(2) by blast
qed

section \<open>A network without an activation height\<close>

context stable_source begin

lemma no_activation_loops:
  assumes "activation_height config = None" "inv e" "next_to_index (so_indexed_height ops s) = h" "h \<le> ch_tip ch"
    and "parse_block rd (ch_raw ch (ch_hash ch h)) h (ch_hash ch h) (ic_network config) = Ok parsed"
  shows "index_blocks fuel lib rd up ops config (ch_tip ch) e s = OutOfFuel"
  using assms(2)
proof (induction fuel arbitrary: e)
  case (Suc fuel)
  obtain e1 where e1: "inv e1" "up_stop up e = (e1, False)" using running [OF Suc.prems] by blast
  obtain e2 where e2: "inv e2" "up_block_hash up h e1 = (e2, Ok (ch_hash ch h))" using block_hash [OF e1(1) assms(4)] by blast
  obtain e3 where e3: "inv e3" "up_raw_block up (ch_hash ch h) e2 = (e3, Ok (ch_raw ch (ch_hash ch h)))"
    using raw_block [OF e2(1) assms(4)] by blast
  have "index_one lib rd up ops config (ch_tip ch) e s = Some (e3, s, Ok True)"
    using e1(2) e2(2) e3(2) assms(1,3-5)
    by (simp add: index_one_def Let_def index_raw_block_def transient_def fatal_def below_activation_def
        process_parsed_block_def not_less)
  then show ?case using Suc.IH [OF e3(1)] by simp
qed simp

end

text \<open>C10. On mainnet, which has no activation height, a tick over a fresh database against a
  working node never returns, whatever the fuel: the first block is fetched again and again,
  so neither the health record nor the tip in it is ever updated.\<close>

theorem mainnet_tick_never_returns:
  assumes "honest_node hx z stop good ch name" "good e"
    and "ic_network config = Mainnet" "1 \<le> ch_tip ch" "so_indexed_height ops s = None"
    and "parse_block rd (ch_raw ch (ch_hash ch 1)) 1 (ch_hash ch 1) Mainnet = Ok parsed"
  shows "tick fuel lib rd (rpc_upstream hx z stop now) ops config e s handle = OutOfFuel"
proof -
  let ?up = "rpc_upstream hx z stop now"
  have src: "stable_source ?up good ch" by (rule honest_node.source_is_stable [OF assms(1)])
  obtain e0 where e0: "good e0" "up_tip ?up e = (e0, Ok \<lparr>br_height = ch_tip ch, br_hash = ch_hash ch (ch_tip ch)\<rparr>)"
    using stable_source.tip [OF src assms(2)] by blast
  have act: "activation_height config = None"
    using assms(3) by (simp add: activation_height_def params)
  have loops: "index_blocks fuel lib rd ?up ops config (ch_tip ch) e0 s = OutOfFuel"
    by (rule stable_source.no_activation_loops [OF src act e0(1) _ assms(4)])
      (simp_all add: next_to_index_def assms(3,5,6))
  have "handle_reorg fuel ?up ops e0 s = (if fuel = 0 then OutOfFuel else Finished (e0, s, Ok ()))"
    using assms(5) by (cases fuel) (simp_all add: reorg_step_def)
  then have "tick_at fuel lib rd ?up ops config (ch_tip ch) e0 s = OutOfFuel"
    using loops by (simp add: tick_at_def fast_forward_def act)
  then show ?thesis
    using e0(2) by (simp add: tick_def transient_def)
qed

lemma mainnet_tick_never_returns_witness:
  "tick 1000000 demo_lib demo_reader (demo_rpc 9) (memory_ops demo_blake)
     \<lparr>ic_network = Mainnet, ic_data_dir = [], ic_regtest_activation_override = None\<rparr> () memory_new None = OutOfFuel"
  by (rule mainnet_tick_never_returns [OF fixed_node.honest_node_axioms])
    (simp_all add: demo_chain_def memory_ops_def memory_new_def parse_block_def demo_reader_def)

section \<open>Any upstream\<close>

text \<open>A node that is down, and one that serves a tip; the first stop request comes after a tick.\<close>

definition demo_up :: "(string, block_ref) result \<Rightarrow> bool upstream" where
  "demo_up tip = \<lparr>up_tip = (\<lambda>e. (e, tip)), up_block_hash = (\<lambda>h e. (e, Ok (fill32 9))),
     up_raw_block = (\<lambda>h e. (e, Err ''no block'')), up_stop = (\<lambda>e. (True, e)), up_now = (\<lambda>e. (e, 0))\<rparr>"

lemma demo_up_stop: "up_stop (demo_up t) e = (True, e)"
  by (simp add: demo_up_def)

abbreviation (input) demo_testnet where
  "demo_testnet \<equiv> \<lparr>ic_network = Testnet, ic_data_dir = [], ic_regtest_activation_override = None\<rparr>"

abbreviation (input) demo_db where
  "demo_db \<equiv> rocks_ops demo_blake (\<lambda>e. Some []) (\<lambda>_. None) map_kv"

text \<open>The loop over a database at block 1 of another fork: the block is rolled back, the blocks below the
  activation height are skipped by one commit at the tip, then the stop request arrives.\<close>

lemma demo_reorg_run:
  assumes "rocks_rel (\<lambda>d. d) d (spec_commit demo_blake (empty_commit 1 (fill32 8)) empty_ledger)"
  shows "\<exists>d' h'. run_sync 2 3 demo_lib demo_reader (demo_up (Ok \<lparr>br_height = 5, br_hash = fill32 9\<rparr>)) demo_db demo_testnet
      False d None (health_new_at 0) = Finished (True, d', Some \<lparr>br_height = 5, br_hash = fill32 9\<rparr>, h', Ok ())
    \<and> rocks_indexed_height map_kv d' = Some 5"
proof -
  let ?c = "empty_commit 1 (fill32 8)" and ?up = "demo_up (Ok \<lparr>br_height = 5, br_hash = fill32 9\<rparr>)"
  have ix: "so_indexed_height demo_db d = Some 1" "so_indexed_block_hash demo_db d = Some (fill32 8)"
    using map_db.rocks.indexed [OF assms, unfolded rocks_reads] by (simp_all add: rocks_reads empty_commit_def)
  obtain d1 where d1: "so_rollback_to demo_db d 0 = (d1, Ok ())"
    "rocks_rel (\<lambda>d. d) d1 (spec_rollback 0 (spec_commit demo_blake ?c empty_ledger))"
    using map_json.total.rollbacks [OF assms] by blast
  have undone: "spec_rollback 0 (spec_commit demo_blake ?c empty_ledger) = empty_ledger"
    by (simp add: spec_rollback_def spec_commit_def empty_ledger_def empty_commit_def apply_commit_def Let_def)
  have ix1: "so_indexed_height demo_db d1 = None" "so_indexed_block_hash demo_db d1 = None"
    using map_db.rocks.indexed [OF d1(2)[unfolded undone], unfolded rocks_reads] by (simp_all add: rocks_reads empty_ledger_def spec_last_def)
  have "next_height empty_ledger (bc_height (empty_commit 5 (fill32 9)))" "small_commit (empty_commit 5 (fill32 9))"
    by (simp_all add: next_height_def spec_last_def empty_ledger_def small_commit_def empty_commit_def)
  from map_json.total.commits [OF d1(2)[unfolded undone] this] obtain d2 root
    where d2: "so_commit_block demo_db d1 (empty_commit 5 (fill32 9)) = (d2, Ok root)"
      "rocks_rel (\<lambda>d. d) d2 (spec_commit demo_blake (empty_commit 5 (fill32 9)) empty_ledger)"
    by blast
  have ix2: "so_indexed_height demo_db d2 = Some 5"
    using map_db.rocks.indexed [OF d2(2), unfolded rocks_reads] by (simp add: rocks_reads empty_commit_def)
  have "fill32 9 \<noteq> fill32 8" by simp
  then have step: "reorg_step ?up demo_db True d = (True, d1, Ok True)" "reorg_step ?up demo_db True d1 = (True, d1, Ok False)"
    using ix ix1 d1(1) by (simp_all add: reorg_step_def demo_up_def transient_def fatal_def)
  have "fast_forward ?up demo_db demo_testnet 5 True d1 = (True, d2, Ok ())"
    using ix1 d2(1) by (simp add: fast_forward_def demo_up_def transient_def fatal_def activation_height_def params
        below_height_def Let_def)
  then have "tick 3 demo_lib demo_reader ?up demo_db demo_testnet True d None
      = Finished (True, d2, Some \<lparr>br_height = 5, br_hash = fill32 9\<rparr>,
          Ok \<lparr>to_tip = 5, to_indexed_before = Some 1, to_indexed_after = Some 5\<rparr>)"
    using step ix ix2
    by (simp add: numeral_3_eq_3 tick_def tick_at_def transient_def index_one_def demo_up_def)
  then show ?thesis
    using ix2 by (simp add: numeral_2_eq_2 demo_up_def after_tick_def rocks_reads split: prod.split)
qed

text \<open>C9. Whatever the node answers and whenever the chain changes, and even if the database refuses
  writes: from a database that is sound (its content is that of a sequence of committed blocks with
  increasing heights, each with the root of its contents), the loop leaves a sound one: the heights
  strictly increase and the persisted root is the root of the contents. It holds after any number of
  ticks of a loop that goes on, and where the loop has returned. Assumed: no tip is reported at
  height \<open>u32::MAX\<close>, no block has \<open>2 ^ 31\<close> transactions or more, each tick returns (a contract
  that never ends its call, or the loop of C10, does not), and no rollback failed half way.\<close>

theorem sync_keeps_database:
  assumes "kv_store kv view" "rocks_rel view d lg" "sound_ledger blake lg" "tips_below_max up" "block_sizes rd"
    and "passes fuel lib rd up (rocks_ops blake to_json from_json kv) config (e, d, handle) (e', d', handle')
      \<or> (\<exists>n h h' r. run_sync n fuel lib rd up (rocks_ops blake to_json from_json kv) config e d handle h
            = Finished (e', d', handle', h', r)
          \<and> (\<forall>cause. r \<noteq> Err (Fatal ''rolling back a reorged block'' cause)))"
  shows "sorted_wrt (<) (map hr_height (rocks_height_history kv d'))
    \<and> (rocks_indexed_height kv d' \<noteq> None \<longrightarrow> rocks_persisted_state_root kv d' = Some (rocks_compute_root blake kv d'))
    \<and> (\<exists>lg'. rocks_rel view d' lg' \<and> sound_ledger blake lg')"
proof -
  have store: "state_store (rocks_ops blake to_json from_json kv) (rocks_rel view) blake"
    by (rule kv_store.rocks_state_store [OF assms(1)])
  have "state_store.store_ok (rocks_rel view) blake d"
    using assms(2,3) by (auto simp: state_store.store_ok_def [OF store])
  with assms(6) have ok: "state_store.store_ok (rocks_rel view) blake d'"
  proof (elim disjE exE conjE)
    assume "passes fuel lib rd up (rocks_ops blake to_json from_json kv) config (e, d, handle) (e', d', handle')"
    with \<open>state_store.store_ok (rocks_rel view) blake d\<close> show ?thesis
      using state_store.passes_keep [OF store _ assms(4,5)] by fastforce
  next
    fix n h h' r
    assume "run_sync n fuel lib rd up (rocks_ops blake to_json from_json kv) config e d handle h = Finished (e', d', handle', h', r)"
      "\<forall>cause. r \<noteq> Err (Fatal ''rolling back a reorged block'' cause)"
    with \<open>state_store.store_ok (rocks_rel view) blake d\<close> show ?thesis
      by (rule state_store.run_sync_keeps [OF store _ assms(4,5)])
  qed
  then show ?thesis
    using state_store.store_ok_reads [OF store ok, unfolded rocks_reads]
    by (auto simp: state_store.store_ok_def [OF store])
qed

lemma sync_keeps_database_witness:
  "\<exists>d d' h'. rocks_indexed_block_hash map_kv d = Some (fill32 8)
    \<and> run_sync 2 3 demo_lib demo_reader (demo_up (Ok \<lparr>br_height = 5, br_hash = fill32 9\<rparr>)) demo_db demo_testnet
        False d None (health_new_at 0) = Finished (True, d', Some \<lparr>br_height = 5, br_hash = fill32 9\<rparr>, h', Ok ())
    \<and> rocks_indexed_height map_kv d' = Some 5
    \<and> rocks_persisted_state_root map_kv d' = Some (rocks_compute_root demo_blake map_kv d')"
proof -
  let ?lg = "spec_commit demo_blake (empty_commit 1 (fill32 8)) empty_ledger"
  obtain d where d: "rocks_rel (\<lambda>d. d) d ?lg" using demo_forked_db by blast
  have hash: "rocks_indexed_block_hash map_kv d = Some (fill32 8)"
    using map_db.rocks.indexed [OF d, unfolded rocks_reads] by (simp add: empty_commit_def)
  obtain d' h' where run: "run_sync 2 3 demo_lib demo_reader (demo_up (Ok \<lparr>br_height = 5, br_hash = fill32 9\<rparr>)) demo_db demo_testnet
      False d None (health_new_at 0) = Finished (True, d', Some \<lparr>br_height = 5, br_hash = fill32 9\<rparr>, h', Ok ())"
    "rocks_indexed_height map_kv d' = Some 5"
    using demo_reorg_run [OF d] by blast
  have "(1 :: u32) < - 1" "(5 :: u32) < - 1" by (simp_all add: word_less_def uint_word_ariths)
  then have "sound_ledger demo_blake ?lg" "tips_below_max (demo_up (Ok \<lparr>br_height = 5, br_hash = fill32 9\<rparr>))" "block_sizes demo_reader"
    by (auto intro!: sound_ledger_commit simp: empty_commit_def tips_below_max_def demo_up_def block_sizes_def demo_reader_def)
  from sync_keeps_database [OF map_db.kv_store_axioms d this, of 3 demo_lib "\<lambda>e. Some []" "\<lambda>_. None" demo_testnet False None True d'
      "Some \<lparr>br_height = 5, br_hash = fill32 9\<rparr>"] run
  have "rocks_persisted_state_root map_kv d' = Some (rocks_compute_root demo_blake map_kv d')" by fastforce
  then show ?thesis using hash run by blast
qed

section \<open>Errors of the loop\<close>

text \<open>The loop returns an error only for a fatal local error, and then the liveness record says
  dead from that moment on, with the error's text; a return without error leaves it alive.\<close>

lemma run_sync_stops:
  assumes "run_sync n fuel lib rd up ops config e s handle h = Finished (e', s', handle', h', r)" "is_dead h = None"
  shows "case r of
      Ok _ \<Rightarrow> is_dead h' = None
    | Err x \<Rightarrow> (\<exists>what cause. x = Fatal what cause) \<and> assess now stale_after h' = Dead (sync_error_text x)"
  using assms
proof (induction n arbitrary: e s handle h)
  case (Suc n)
  obtain e0 stop where st: "up_stop up e = (e0, stop)" by fastforce
  show ?case
  proof (cases stop)
    case True
    then show ?thesis using Suc.prems st by auto
  next
    case False
    then obtain e1 s1 handle1 r1 where t:
      "tick fuel lib rd up ops config e0 s handle = Finished (e1, s1, handle1, r1)"
      using Suc.prems(1) st by (auto split: loop_result.splits)
    obtain e2 clock where now: "(if is_ok r1 then up_now up e1 else (e1, 0)) = (e2, clock)" by fastforce
    obtain h1 x where a: "after_tick ops s1 clock r1 h = (h1, x)" by fastforce
    note run = Suc.prems(1) st False t now a
    show ?thesis
    proof (cases x)
      case None
      then have "run_sync n fuel lib rd up ops config e2 s1 handle1 h1 = Finished (e', s', handle', h', r)"
        using run by simp
      moreover have "is_dead h1 = None"
        using a None Suc.prems(2) by (auto simp: after_tick_def split: sum.splits sync_error.splits)
      ultimately show ?thesis by (rule Suc.IH)
    next
      case (Some y)
      then have "r = Err y" "h' = h1" using run by auto
      then show ?thesis
        using a Some
        by (auto simp: after_tick_def assess_Dead_iff simp del: sync_error_text.simps
            split: sum.splits sync_error.splits)
    qed
  qed
qed simp

text \<open>A store that refuses to commit.\<close>

definition full_disk :: "memory_state store_ops" where
  "full_disk = (memory_ops demo_blake)\<lparr>so_commit_block := (\<lambda>s c. (s, Err WriteFailed))\<rparr>"

lemma full_disk_run:
  "\<exists>h'. run_sync 1 3 demo_lib demo_reader (demo_up (Ok \<lparr>br_height = 5, br_hash = fill32 9\<rparr>)) full_disk
      \<lparr>ic_network = Testnet, ic_data_dir = [], ic_regtest_activation_override = None\<rparr> False memory_new None (health_new_at 0)
      = Finished (True, memory_new, Some \<lparr>br_height = 5, br_hash = fill32 9\<rparr>, h',
          Err (Fatal ''committing the fast-forward block'' (StoreError WriteFailed)))"
  by (simp add: demo_up_def numeral_3_eq_3 tick_def tick_at_def transient_def fatal_def after_tick_def
      reorg_step_def fast_forward_def full_disk_def memory_ops_def memory_new_def activation_height_def params
      below_height_def Let_def)

end
