(* ===== verification/Journal.thy ===== *)
theory Journal
  imports Core
begin

text \<open>
  The wallet's operation journal (\<open>zalkanes-wallet/src/journal.rs\<close>): the stages of an
  operation and the SQLite table behind them. The table is a list of rows in insertion order
  whose columns have SQLite's types; \<open>jn_fault\<close> says which SQL calls fail and with what
  message, and a transaction that does not commit leaves the table as it was.
\<close>

section \<open>Stages\<close>

datatype journal_stage =
    Planned | Reserved | Proving | Proven | Signing | Signed | Extracted | Verified
  | Broadcasting | BroadcastUnknown | BroadcastAccepted
  | Mined | Cancelled | Expired | Rejected | Reorged

fun stage_str :: "journal_stage \<Rightarrow> string" where
  "stage_str Planned = ''planned''"
| "stage_str Reserved = ''reserved''"
| "stage_str Proving = ''proving''"
| "stage_str Proven = ''proven''"
| "stage_str Signing = ''signing''"
| "stage_str Signed = ''signed''"
| "stage_str Extracted = ''extracted''"
| "stage_str Verified = ''verified''"
| "stage_str Broadcasting = ''broadcasting''"
| "stage_str BroadcastUnknown = ''broadcast_unknown''"
| "stage_str BroadcastAccepted = ''broadcast_accepted''"
| "stage_str Mined = ''mined''"
| "stage_str Cancelled = ''cancelled''"
| "stage_str Expired = ''expired''"
| "stage_str Rejected = ''rejected''"
| "stage_str Reorged = ''reorged''"

definition stage_edges :: "(journal_stage \<times> journal_stage) list" where
  "stage_edges =
     [(Planned, Reserved), (Planned, Cancelled),
      (Reserved, Proving), (Reserved, Cancelled), (Reserved, Expired), (Reserved, Reorged),
      (Proving, Proven), (Proving, Cancelled),
      (Proven, Signing), (Proven, Cancelled),
      (Signing, Signed), (Signing, Cancelled),
      (Signed, Extracted), (Signed, Cancelled), (Signed, Expired), (Signed, Reorged),
      (Extracted, Verified), (Extracted, Cancelled), (Extracted, Expired), (Extracted, Reorged),
      (Verified, Broadcasting), (Verified, Cancelled), (Verified, Expired), (Verified, Reorged),
      (Broadcasting, BroadcastAccepted), (Broadcasting, BroadcastUnknown), (Broadcasting, Rejected),
      (Broadcasting, Mined),
      (BroadcastUnknown, BroadcastAccepted), (BroadcastUnknown, Mined), (BroadcastUnknown, Rejected),
      (BroadcastUnknown, Expired), (BroadcastUnknown, Reorged),
      (BroadcastAccepted, Mined), (BroadcastAccepted, Reorged), (BroadcastAccepted, Expired)]"

definition can_transition :: "journal_stage \<Rightarrow> journal_stage \<Rightarrow> bool" where
  "can_transition a b \<longleftrightarrow> a = b \<or> (a, b) \<in> set stage_edges"

definition parse_stage :: "string \<Rightarrow> (string, journal_stage) result" where
  "parse_stage s =
     (if s = ''planned'' then Ok Planned
      else if s = ''reserved'' then Ok Reserved
      else if s = ''proving'' then Ok Proving
      else if s = ''proven'' then Ok Proven
      else if s = ''signing'' then Ok Signing
      else if s = ''signed'' then Ok Signed
      else if s = ''extracted'' then Ok Extracted
      else if s = ''verified'' then Ok Verified
      else if s = ''broadcasting'' then Ok Broadcasting
      else if s = ''broadcast_unknown'' then Ok BroadcastUnknown
      else if s = ''broadcast_accepted'' then Ok BroadcastAccepted
      else if s = ''mined'' then Ok Mined
      else if s = ''cancelled'' then Ok Cancelled
      else if s = ''expired'' then Ok Expired
      else if s = ''rejected'' then Ok Rejected
      else if s = ''reorged'' then Ok Reorged
      else Err (''unknown journal stage '' @ quoted s))"

section \<open>The table\<close>

record plan_fields =
  pf_plan_id :: string
  pf_intent_hash :: string
  pf_kind :: string
  pf_funding_mode :: string
  pf_lock_owner :: string
  pf_tip_height :: u32
  pf_tip_hash :: string
  pf_target_height :: u32
  pf_selected_inputs :: string
  pf_expiry :: "u32 option"

record operation_row = plan_fields +
  op_stage :: journal_stage
  op_txid :: "string option"
  op_last_error :: "string option"

record journal_row =
  jr_plan_id :: string
  jr_intent_hash :: string
  jr_kind :: string
  jr_funding_mode :: string
  jr_lock_owner :: string
  jr_tip_height :: int
  jr_tip_hash :: string
  jr_target_height :: int
  jr_selected_inputs :: string
  jr_stage :: string
  jr_txid :: "string option"
  jr_expiry :: "int option"
  jr_last_error :: "string option"
  jr_created_at :: int
  jr_updated_at :: int

datatype sql_call = SqlBegin | SqlInsert | SqlSelect | SqlUpdate | SqlCommit

record journal =
  jn_rows :: "journal_row list"
  jn_clock :: int
  jn_fault :: "sql_call \<Rightarrow> string option"

definition journal_new :: journal where
  "journal_new = \<lparr>jn_rows = [], jn_clock = 0, jn_fault = (\<lambda>_. None)\<rparr>"

definition sql :: "journal \<Rightarrow> sql_call \<Rightarrow> string \<Rightarrow> (string, unit) result" where
  "sql j call what = (case jn_fault j call of None \<Rightarrow> Ok () | Some e \<Rightarrow> Err (what @ '': '' @ e))"

definition find_row :: "journal_row list \<Rightarrow> string \<Rightarrow> journal_row option" where
  "find_row rows pid = find (\<lambda>r. jr_plan_id r = pid) rows"

definition try_u32 :: "string \<Rightarrow> int \<Rightarrow> (string, u32) result" where
  "try_u32 what v = (if 0 \<le> v \<and> v < 2 ^ 32 then Ok (word_of_int v) else Err what)"

definition try_u32_opt :: "string \<Rightarrow> int option \<Rightarrow> (string, u32 option) result" where
  "try_u32_opt what v = (case v of None \<Rightarrow> Ok None | Some v \<Rightarrow> and_then (try_u32 what v) (\<lambda>w. Ok (Some w)))"

definition new_row :: "plan_fields \<Rightarrow> int \<Rightarrow> journal_row" where
  "new_row p now =
     \<lparr>jr_plan_id = pf_plan_id p, jr_intent_hash = pf_intent_hash p, jr_kind = pf_kind p,
      jr_funding_mode = pf_funding_mode p, jr_lock_owner = pf_lock_owner p,
      jr_tip_height = uint (pf_tip_height p), jr_tip_hash = pf_tip_hash p,
      jr_target_height = uint (pf_target_height p), jr_selected_inputs = pf_selected_inputs p,
      jr_stage = ''planned'', jr_txid = None, jr_expiry = map_option uint (pf_expiry p),
      jr_last_error = None, jr_created_at = now, jr_updated_at = now\<rparr>"

section \<open>Operations\<close>

text \<open>The persisted immutable fields of a row, as \<open>create_plan\<close> compares them.\<close>

definition existing_fields :: "string \<Rightarrow> journal_row \<Rightarrow> (string, plan_fields) result" where
  "existing_fields pid r =
     and_then (try_u32 (''corrupt persisted tip_height for '' @ pid) (jr_tip_height r)) (\<lambda>tip.
     and_then (try_u32 (''corrupt persisted target_height for '' @ pid) (jr_target_height r)) (\<lambda>target.
     and_then (try_u32_opt (''corrupt persisted expiry for '' @ pid) (jr_expiry r)) (\<lambda>expiry.
       Ok \<lparr>pf_plan_id = jr_plan_id r, pf_intent_hash = jr_intent_hash r, pf_kind = jr_kind r,
           pf_funding_mode = jr_funding_mode r, pf_lock_owner = jr_lock_owner r, pf_tip_height = tip,
           pf_tip_hash = jr_tip_hash r, pf_target_height = target,
           pf_selected_inputs = jr_selected_inputs r, pf_expiry = expiry\<rparr>)))"

text \<open>The insert fails on a primary key that is there already.\<close>

definition create_plan :: "plan_fields \<Rightarrow> journal \<Rightarrow> journal \<times> (string, unit) result" where
  "create_plan p j =
     (case sql j SqlBegin ''journal tx'' of
        Err e \<Rightarrow> (j, Err e)
      | Ok _ \<Rightarrow>
          (case sql j SqlInsert ''journal begin'' of
             Err e \<Rightarrow> (j, Err e)
           | Ok _ \<Rightarrow>
               (case find_row (jn_rows j) (pf_plan_id p) of
                  None \<Rightarrow>
                    (case sql j SqlCommit ''journal commit'' of
                       Err e \<Rightarrow> (j, Err e)
                     | Ok _ \<Rightarrow> (j\<lparr>jn_rows := jn_rows j @ [new_row p (jn_clock j)]\<rparr>, Ok ()))
                | Some r \<Rightarrow>
                    (j, and_then (sql j SqlSelect (''journal lookup '' @ pf_plan_id p)) (\<lambda>_.
                        and_then (existing_fields (pf_plan_id p) r) (\<lambda>existing.
                          if existing = p then sql j SqlCommit ''journal commit''
                          else Err (''PlanIdConflict: plan_id '' @ pf_plan_id p
                            @ '' already exists with different immutable fields'')))))))"

text \<open>\<open>COALESCE(new, old)\<close>.\<close>

definition coalesce :: "'a option \<Rightarrow> 'a option \<Rightarrow> 'a option" where
  "coalesce new old = (case new of Some x \<Rightarrow> Some x | None \<Rightarrow> old)"

definition move_row :: "journal_stage \<Rightarrow> string option \<Rightarrow> string option \<Rightarrow> int \<Rightarrow> journal_row \<Rightarrow> journal_row" where
  "move_row to txid err now r =
     r\<lparr>jr_stage := stage_str to, jr_txid := coalesce txid (jr_txid r),
       jr_last_error := coalesce err (jr_last_error r), jr_updated_at := now\<rparr>"

definition update_row :: "string \<Rightarrow> (journal_row \<Rightarrow> journal_row) \<Rightarrow> journal_row list \<Rightarrow> journal_row list" where
  "update_row pid f rows = map (\<lambda>r. if jr_plan_id r = pid then f r else r) rows"

definition transition ::
    "string \<Rightarrow> journal_stage \<Rightarrow> string option \<Rightarrow> string option \<Rightarrow> journal \<Rightarrow> journal \<times> (string, journal_stage) result" where
  "transition pid to txid err j =
     (case and_then (sql j SqlBegin ''journal tx'') (\<lambda>_.
           and_then (sql j SqlSelect (''journal lookup '' @ pid)) (\<lambda>_.
           and_then (ok_or (''journal lookup '' @ pid @ '': Query returned no rows'') (find_row (jn_rows j) pid)) (\<lambda>r.
           and_then (parse_stage (jr_stage r)) (\<lambda>from.
             if \<not> can_transition from to
             then Err (''illegal journal transition for '' @ pid @ '': '' @ jr_stage r @ '' -> '' @ stage_str to)
             else
               and_then (sql j SqlUpdate ''journal transition'') (\<lambda>_.
               and_then (sql j SqlCommit ''journal commit'') (\<lambda>_. Ok from)))))) of
        Err e \<Rightarrow> (j, Err e)
      | Ok from \<Rightarrow> (j\<lparr>jn_rows := update_row pid (move_row to txid err (jn_clock j)) (jn_rows j)\<rparr>, Ok from))"

definition reserve :: "string \<Rightarrow> journal \<Rightarrow> journal \<times> (string, unit) result" where
  "reserve pid j = (case transition pid Reserved None None j of (j, r) \<Rightarrow> (j, and_then r (\<lambda>_. Ok ())))"

definition stage_of :: "string \<Rightarrow> journal \<Rightarrow> (string, journal_stage option) result" where
  "stage_of pid j =
     and_then (sql j SqlSelect ''journal query'') (\<lambda>_.
       case find_row (jn_rows j) pid of
         None \<Rightarrow> Ok None
       | Some r \<Rightarrow> and_then (parse_stage (jr_stage r)) (\<lambda>s. Ok (Some s)))"

definition row_to_operation :: "journal_row \<Rightarrow> (string, operation_row) result" where
  "row_to_operation r =
     and_then (try_u32 ''corrupt tip_height'' (jr_tip_height r)) (\<lambda>tip.
     and_then (try_u32 ''corrupt target_height'' (jr_target_height r)) (\<lambda>target.
     and_then (parse_stage (jr_stage r)) (\<lambda>stage.
     and_then (try_u32_opt ''corrupt expiry'' (jr_expiry r)) (\<lambda>expiry.
       Ok \<lparr>pf_plan_id = jr_plan_id r, pf_intent_hash = jr_intent_hash r, pf_kind = jr_kind r,
           pf_funding_mode = jr_funding_mode r, pf_lock_owner = jr_lock_owner r, pf_tip_height = tip,
           pf_tip_hash = jr_tip_hash r, pf_target_height = target,
           pf_selected_inputs = jr_selected_inputs r, pf_expiry = expiry,
           op_stage = stage, op_txid = jr_txid r, op_last_error = jr_last_error r\<rparr>))))"

definition operation :: "string \<Rightarrow> journal \<Rightarrow> (string, operation_row option) result" where
  "operation pid j =
     and_then (sql j SqlSelect ''journal query'') (\<lambda>_.
       case find_row (jn_rows j) pid of
         None \<Rightarrow> Ok None
       | Some r \<Rightarrow> and_then (row_to_operation r) (\<lambda>op. Ok (Some op)))"

definition terminal_strs :: "string list" where
  "terminal_strs = [''mined'', ''cancelled'', ''expired'', ''rejected'', ''reorged'']"

text \<open>\<open>ORDER BY created_at\<close>, ties in table order.\<close>

fun rows_to_operations :: "journal_row list \<Rightarrow> (string, operation_row list) result" where
  "rows_to_operations [] = Ok []"
| "rows_to_operations (r # rs) =
     and_then (row_to_operation r) (\<lambda>op. and_then (rows_to_operations rs) (\<lambda>ops. Ok (op # ops)))"

definition non_terminal_rows :: "journal \<Rightarrow> (string, operation_row list) result" where
  "non_terminal_rows j =
     and_then (sql j SqlSelect ''journal query'') (\<lambda>_.
       rows_to_operations (sort_key jr_created_at (filter (\<lambda>r. jr_stage r \<notin> set terminal_strs) (jn_rows j))))"

definition non_terminal :: "journal \<Rightarrow> (string, string list) result" where
  "non_terminal j =
     and_then (sql j SqlSelect ''journal query'') (\<lambda>_.
       Ok (map jr_plan_id (filter (\<lambda>r. jr_stage r \<notin> set terminal_strs) (jn_rows j))))"

end
