(* ===== verification/Broadcast.thy ===== *)
theory Broadcast
  imports Journal Json
begin

text \<open>
  Broadcasting a verified transaction and reconciling the journal with the node
  (\<open>zalkanes-wallet/src/broadcast.rs\<close>). The node, the transport and the wallet that releases
  note locks are calls on a world \<open>'w\<close>; every send and every release is recorded, in order,
  with the journal as it was on disk at that moment.
\<close>

section \<open>Types\<close>

definition EXPIRY_ABSENT_MARGIN :: u32 where [params]: "EXPIRY_ABSENT_MARGIN = 6"

record canonical_tip =
  ct_height :: u32
  ct_hash :: block_hash

datatype transport_result =
    Accepted string
  | RejectedTx int string
  | Ambiguous string

datatype tx_status =
    MinedAt u32
  | InMempool
  | Absent

datatype broadcast_outcome =
    OutcomeAccepted
  | OutcomeRejected string
  | OutcomeUnknown string

record verified_tx =
  vt_bytes :: bytes
  vt_txid :: tx_id
  vt_plan_id :: string
  vt_intent_hash :: string
  vt_tip :: canonical_tip

text \<open>\<open>TipSource\<close>, \<open>BroadcastTransport\<close>, \<open>TxStatusSource\<close> and \<open>ReleaseHook\<close>.\<close>

record 'w wallet_env =
  we_tip :: "('w, string, canonical_tip) step"
  we_send :: "string \<Rightarrow> 'w \<Rightarrow> 'w \<times> transport_result"
  we_status :: "string \<Rightarrow> ('w, string, tx_status) step"
  we_release :: "string \<Rightarrow> ('w, string, unit) step"

datatype wallet_event =
    Sent string "journal_row list"
  | Released string "journal_row list"

record 'w wallet =
  wl_journal :: journal
  wl_world :: 'w
  wl_events :: "wallet_event list"

definition journal_do :: "(journal \<Rightarrow> journal \<times> (string, 'a) result) \<Rightarrow> ('w wallet, string, 'a) step" where
  "journal_do f w = (case f (wl_journal w) of (j, r) \<Rightarrow> (w\<lparr>wl_journal := j\<rparr>, r))"

definition world_do :: "('w \<Rightarrow> 'w \<times> 'a) \<Rightarrow> 'w wallet \<Rightarrow> 'w wallet \<times> 'a" where
  "world_do f w = (case f (wl_world w) of (x, r) \<Rightarrow> (w\<lparr>wl_world := x\<rparr>, r))"

definition send_tx :: "'w wallet_env \<Rightarrow> string \<Rightarrow> 'w wallet \<Rightarrow> 'w wallet \<times> transport_result" where
  "send_tx env tx_hex w =
     world_do (we_send env tx_hex) (w\<lparr>wl_events := wl_events w @ [Sent tx_hex (jn_rows (wl_journal w))]\<rparr>)"

definition release_plan :: "'w wallet_env \<Rightarrow> string \<Rightarrow> ('w wallet, string, unit) step" where
  "release_plan env pid w =
     world_do (we_release env pid) (w\<lparr>wl_events := wl_events w @ [Released pid (jn_rows (wl_journal w))]\<rparr>)"

section \<open>Broadcast\<close>

definition txid_display :: "hex_lib \<Rightarrow> tx_id \<Rightarrow> string" where
  "txid_display hx txid = hex_encode hx (rev (bytes_of txid))"

definition stale_text :: "hex_lib \<Rightarrow> canonical_tip \<Rightarrow> canonical_tip \<Rightarrow> string" where
  "stale_text hx verified current =
     ''StalePlan: canonical tip changed since verification (verified ''
     @ decimal (unat (ct_height verified)) @ '':'' @ hex_encode hx (bytes_of (ct_hash verified))
     @ '', current '' @ decimal (unat (ct_height current)) @ '':'' @ hex_encode hx (bytes_of (ct_hash current))
     @ ''); not broadcast '' @ [CHR 0xE2, CHR 0x80, CHR 0x94] @ '' re-plan required''"

text \<open>What the result of the send does to the row.\<close>

definition record_outcome ::
    "'w wallet_env \<Rightarrow> string \<Rightarrow> string \<Rightarrow> transport_result \<Rightarrow> ('w wallet, string, broadcast_outcome) step" where
  "record_outcome env pid txid_hex res =
     (case res of
        Accepted returned \<Rightarrow>
          if returned \<noteq> txid_hex then
            let msg = ''accepted txid mismatch: node returned '' @ returned in
            bind_step (journal_do (transition pid BroadcastUnknown None (Some msg))) (\<lambda>_. return_step (OutcomeUnknown msg))
          else
            bind_step (journal_do (transition pid BroadcastAccepted None None)) (\<lambda>_. return_step OutcomeAccepted)
      | RejectedTx code message \<Rightarrow>
          let msg = ''rejected (code '' @ signed_decimal code @ ''): '' @ message in
          bind_step (journal_do (transition pid Rejected None (Some msg))) (\<lambda>_.
          bind_step (release_plan env pid) (\<lambda>_. return_step (OutcomeRejected msg)))
      | Ambiguous message \<Rightarrow>
          bind_step (journal_do (transition pid BroadcastUnknown None (Some message)))
            (\<lambda>_. return_step (OutcomeUnknown message)))"

definition broadcast_verified ::
    "hex_lib \<Rightarrow> 'w wallet_env \<Rightarrow> verified_tx \<Rightarrow> ('w wallet, string, broadcast_outcome) step" where
  "broadcast_verified hx env tx =
     bind_step (world_do (we_tip env)) (\<lambda>current.
       if current \<noteq> vt_tip tx then lift_step (Err (stale_text hx (vt_tip tx) current))
       else
         let txid_hex = txid_display hx (vt_txid tx) in
         bind_step (journal_do (transition (vt_plan_id tx) Broadcasting (Some txid_hex) None)) (\<lambda>_ w.
           case send_tx env (hex_encode hx (vt_bytes tx)) w of
             (w, res) \<Rightarrow> record_outcome env (vt_plan_id tx) txid_hex res w))"

section \<open>Reconciliation\<close>

record reconcile_action =
  ra_plan_id :: string
  ra_from :: journal_stage
  ra_to :: journal_stage

record reconcile_report =
  rp_actions :: "reconcile_action list"
  rp_released :: "string list"
  rp_still_unknown :: "string list"
  rp_errors :: "string list"

definition empty_report :: reconcile_report where
  "empty_report = \<lparr>rp_actions = [], rp_released = [], rp_still_unknown = [], rp_errors = []\<rparr>"

definition move_logged ::
    "string \<Rightarrow> journal_stage \<Rightarrow> string option \<Rightarrow> reconcile_report \<Rightarrow> ('w wallet, string, reconcile_report) step" where
  "move_logged pid to err rep =
     bind_step (journal_do (transition pid to None err)) (\<lambda>from.
       return_step (rep\<lparr>rp_actions := rp_actions rep @ [\<lparr>ra_plan_id = pid, ra_from = from, ra_to = to\<rparr>]\<rparr>))"

definition saturating_add32 :: "u32 \<Rightarrow> u32 \<Rightarrow> u32" where
  "saturating_add32 a b = (if unat a + unat b < 2 ^ 32 then a + b else - 1)"

definition definitely_expired :: "operation_row \<Rightarrow> canonical_tip \<Rightarrow> bool" where
  "definitely_expired row tip \<longleftrightarrow>
     (case pf_expiry row of None \<Rightarrow> False
      | Some e \<Rightarrow> ct_height tip > saturating_add32 e EXPIRY_ABSENT_MARGIN)"

text \<open>A row whose transaction the node does not know.\<close>

definition resolve_absent ::
    "'w wallet_env \<Rightarrow> canonical_tip \<Rightarrow> operation_row \<Rightarrow> reconcile_report \<Rightarrow> ('w wallet, string, reconcile_report) step" where
  "resolve_absent env tip row rep =
     (let pid = pf_plan_id row; stage = op_stage row in
      if definitely_expired row tip then
        bind_step
          (if stage = Broadcasting then move_logged pid BroadcastUnknown None rep else return_step rep) (\<lambda>rep.
        bind_step (move_logged pid Expired (Some ''absent past expiry + margin'') rep) (\<lambda>rep.
        bind_step (release_plan env pid) (\<lambda>_.
          return_step (rep\<lparr>rp_released := rp_released rep @ [pid]\<rparr>))))
      else if stage = Broadcasting then
        bind_step (move_logged pid BroadcastUnknown (Some ''absent after restart; send outcome unknown'') rep) (\<lambda>rep.
          return_step (rep\<lparr>rp_still_unknown := rp_still_unknown rep @ [pid]\<rparr>))
      else return_step (rep\<lparr>rp_still_unknown := rp_still_unknown rep @ [pid]\<rparr>))"

definition resolve_row ::
    "'w wallet_env \<Rightarrow> canonical_tip \<Rightarrow> operation_row \<Rightarrow> tx_status \<Rightarrow> reconcile_report \<Rightarrow> ('w wallet, string, reconcile_report) step" where
  "resolve_row env tip row observed rep =
     (case observed of
        MinedAt _ \<Rightarrow>
          if op_stage row \<noteq> Mined then move_logged (pf_plan_id row) Mined None rep else return_step rep
      | InMempool \<Rightarrow>
          if op_stage row \<noteq> BroadcastAccepted then move_logged (pf_plan_id row) BroadcastAccepted None rep
          else return_step rep
      | Absent \<Rightarrow> resolve_absent env tip row rep)"

definition broadcast_phase :: "journal_stage \<Rightarrow> bool" where
  "broadcast_phase stage \<longleftrightarrow> stage \<in> {Broadcasting, BroadcastUnknown, BroadcastAccepted}"

definition add_error :: "string \<Rightarrow> string \<Rightarrow> reconcile_report \<Rightarrow> reconcile_report" where
  "add_error pid text rep = rep\<lparr>rp_errors := rp_errors rep @ [pid @ '': '' @ text]\<rparr>"

definition reconcile_row ::
    "'w wallet_env \<Rightarrow> canonical_tip \<Rightarrow> operation_row \<Rightarrow> reconcile_report \<Rightarrow> ('w wallet, string, reconcile_report) step" where
  "reconcile_row env tip row rep w =
     (if \<not> broadcast_phase (op_stage row) then return_step rep w
      else
        case op_txid row of
          None \<Rightarrow> return_step (add_error (pf_plan_id row) ''broadcast-phase row has no txid'' rep) w
        | Some txid \<Rightarrow>
            (case world_do (we_status env txid) w of
               (w, Inl e) \<Rightarrow> return_step (add_error (pf_plan_id row) e rep) w
             | (w, Inr observed) \<Rightarrow> resolve_row env tip row observed rep w))"

fun reconcile_rows ::
    "'w wallet_env \<Rightarrow> canonical_tip \<Rightarrow> operation_row list \<Rightarrow> reconcile_report \<Rightarrow> ('w wallet, string, reconcile_report) step" where
  "reconcile_rows env tip [] rep = return_step rep"
| "reconcile_rows env tip (row # rows) rep =
     bind_step (reconcile_row env tip row rep) (reconcile_rows env tip rows)"

definition reconcile :: "'w wallet_env \<Rightarrow> canonical_tip \<Rightarrow> ('w wallet, string, reconcile_report) step" where
  "reconcile env tip =
     bind_step (journal_do (\<lambda>j. (j, non_terminal_rows j))) (\<lambda>rows. reconcile_rows env tip rows empty_report)"

section \<open>The node\<close>

text \<open>\<open>ZebraBroadcastClient\<close>: what it makes of the answer to a JSON-RPC call.\<close>

definition zebra_error :: "json \<Rightarrow> json option" where
  "zebra_error resp =
     (case json_get ''error'' resp of None \<Rightarrow> None | Some err \<Rightarrow> if is_null err then None else Some err)"

definition error_message :: "json \<Rightarrow> string" where
  "error_message err = (case Option.bind (json_get ''message'' err) as_str of None \<Rightarrow> [] | Some m \<Rightarrow> m)"

definition debug_code :: "int option \<Rightarrow> string" where
  "debug_code c = (case c of None \<Rightarrow> ''None'' | Some c \<Rightarrow> ''Some('' @ signed_decimal c @ '')'')"

definition send_raw_transaction :: "(string, json) result \<Rightarrow> transport_result" where
  "send_raw_transaction r =
     (case r of
        Err e \<Rightarrow> Ambiguous e
      | Ok resp \<Rightarrow>
          (case Option.bind (json_get ''result'' resp) as_str of
             Some txid \<Rightarrow> Accepted txid
           | None \<Rightarrow>
               (case zebra_error resp of
                  None \<Rightarrow> Ambiguous ''empty result and no error''
                | Some err \<Rightarrow>
                    let code = Option.bind (json_get ''code'' err) as_i64; message = error_message err in
                    (case code of
                       Some c \<Rightarrow>
                         if c \<in> {- 25, - 26, - 27, - 22} then RejectedTx c message
                         else Ambiguous (''unclassified node error '' @ debug_code code @ '': '' @ message)
                     | None \<Rightarrow> Ambiguous (''unclassified node error '' @ debug_code code @ '': '' @ message)))))"

definition mined_or_mempool :: "json \<Rightarrow> (string, tx_status) result" where
  "mined_or_mempool result =
     (let confirmations = (case Option.bind (json_get ''confirmations'' result) as_u64 of None \<Rightarrow> 0 | Some c \<Rightarrow> c) in
      if confirmations \<ge> 1 then
        and_then (ok_or ''mined tx without height'' (Option.bind (json_get ''height'' result) as_u64)) (\<lambda>height.
          if height < 2 ^ 32 then Ok (MinedAt (ucast height)) else Err ''height out of range'')
      else Ok InMempool)"

definition tx_status_of :: "(string, json) result \<Rightarrow> (string, tx_status) result" where
  "tx_status_of r =
     and_then r (\<lambda>resp.
       case (case json_get ''result'' resp of None \<Rightarrow> None | Some v \<Rightarrow> if is_null v then None else Some v) of
         Some result \<Rightarrow> mined_or_mempool result
       | None \<Rightarrow>
           (case zebra_error resp of
              None \<Rightarrow> Err ''getrawtransaction: empty result and no error''
            | Some err \<Rightarrow>
                let message = error_message err in
                if contains_str ''No such mempool or main chain transaction'' message
                   \<or> contains_str ''No information available about transaction'' message
                then Ok Absent
                else Err (''getrawtransaction error: '' @ message)))"

text \<open>The wallet's calls on such a node; \<open>call\<close> is the HTTP request with the method and its
  parameters, the tip source and the lock store are separate.\<close>

definition zebra_env ::
    "(string \<Rightarrow> json list \<Rightarrow> ('w, string, json) step) \<Rightarrow> ('w, string, canonical_tip) step
      \<Rightarrow> (string \<Rightarrow> ('w, string, unit) step) \<Rightarrow> 'w wallet_env" where
  "zebra_env call tip release =
     \<lparr>we_tip = tip,
      we_send = (\<lambda>tx_hex x. case call ''sendrawtransaction'' [JStr tx_hex] x of (x, r) \<Rightarrow> (x, send_raw_transaction r)),
      we_status = (\<lambda>txid x. case call ''getrawtransaction'' [JStr txid, JInt 1] x of (x, r) \<Rightarrow> (x, tx_status_of r)),
      we_release = release\<rparr>"

end
