(* ===== verification/Recovery.thy ===== *)
theory Recovery
  imports Broadcast "HOL-Library.Char_ord"
begin

text \<open>
  Startup recovery (\<open>zalkanes-wallet/src/recovery.rs\<close>): every non-terminal row of the journal
  against the note locks of the wallet, then the broadcast reconciliation. The lock store is
  read once, at the start.
\<close>

section \<open>Locks\<close>

record locked_output =
  lo_output_ref :: string
  lo_owner_hex :: string

definition lock_owner_hex :: "hex_lib \<Rightarrow> sha \<Rightarrow> string \<Rightarrow> string" where
  "lock_owner_hex hx sha plan_id =
     hex_encode hx (bytes_of (sha (ascii ''zalkanes-plan-lock'' @ [0] @ ascii plan_id)))"

definition locks_of :: "locked_output list \<Rightarrow> string \<Rightarrow> locked_output list" where
  "locks_of locks owner = filter (\<lambda>l. lo_owner_hex l = owner) locks"

definition inputs_match :: "operation_row \<Rightarrow> locked_output list \<Rightarrow> bool" where
  "inputs_match row held \<longleftrightarrow>
     sort (filter (\<lambda>s. s \<noteq> []) (split_on CHR '','' (pf_selected_inputs row)))
     = sort (map lo_output_ref held)"

section \<open>The report\<close>

record recovery_report =
  rv_transitions :: "(string \<times> journal_stage \<times> journal_stage) list"
  rv_released :: "string list"
  rv_preserved :: "string list"
  rv_orphan_locks :: "locked_output list"
  rv_anomalies :: "string list"

definition empty_recovery :: recovery_report where
  "empty_recovery = \<lparr>rv_transitions = [], rv_released = [], rv_preserved = [], rv_orphan_locks = [], rv_anomalies = []\<rparr>"

definition recovery_move ::
    "string \<Rightarrow> journal_stage \<Rightarrow> string option \<Rightarrow> recovery_report \<Rightarrow> ('w wallet, string, recovery_report) step" where
  "recovery_move pid to err rep =
     bind_step (journal_do (transition pid to None err)) (\<lambda>from.
       return_step (rep\<lparr>rv_transitions := rv_transitions rep @ [(pid, from, to)]\<rparr>))"

definition anomaly :: "string \<Rightarrow> string \<Rightarrow> recovery_report \<Rightarrow> recovery_report" where
  "anomaly pid text rep = rep\<lparr>rv_anomalies := rv_anomalies rep @ [pid @ '': '' @ text]\<rparr>"

definition release_logged :: "'w wallet_env \<Rightarrow> string \<Rightarrow> recovery_report \<Rightarrow> ('w wallet, string, recovery_report) step" where
  "release_logged env pid rep =
     bind_step (release_plan env pid) (\<lambda>_. return_step (rep\<lparr>rv_released := rv_released rep @ [pid]\<rparr>))"

section \<open>One row\<close>

definition recover_planned :: "operation_row \<Rightarrow> locked_output list \<Rightarrow> recovery_report \<Rightarrow> ('w wallet, string, recovery_report) step" where
  "recover_planned row held rep =
     (let pid = pf_plan_id row in
      if held = [] then recovery_move pid Cancelled (Some ''restart: planned, never reserved'') rep
      else if inputs_match row held then recovery_move pid Reserved None rep
      else return_step (anomaly pid ''planned, but held locks do not match recorded inputs; not touched'' rep))"

definition recover_reserved ::
    "'w wallet_env \<Rightarrow> operation_row \<Rightarrow> locked_output list \<Rightarrow> bool \<Rightarrow> recovery_report \<Rightarrow> ('w wallet, string, recovery_report) step" where
  "recover_reserved env row held expired rep =
     (let pid = pf_plan_id row in
      if held = [] then
        if expired then recovery_move pid Expired (Some ''restart: reservation no longer held and plan expired'') rep
        else return_step (anomaly pid ''reserved, but no locks held and not expired; not touched'' rep)
      else if inputs_match row held then
        bind_step (recovery_move pid Cancelled (Some ''restart: reservation held, authorization not persisted'') rep)
          (release_logged env pid)
      else return_step (anomaly pid ''reserved, but held locks do not match recorded inputs; not touched'' rep))"

definition recover_proving ::
    "'w wallet_env \<Rightarrow> operation_row \<Rightarrow> locked_output list \<Rightarrow> recovery_report \<Rightarrow> ('w wallet, string, recovery_report) step" where
  "recover_proving env row held rep =
     bind_step (recovery_move (pf_plan_id row) Cancelled (Some ''restart: pre-signing stage lost with process memory'') rep)
       (\<lambda>rep. if held \<noteq> [] then release_logged env (pf_plan_id row) rep else return_step rep)"

definition recover_signed :: "operation_row \<Rightarrow> locked_output list \<Rightarrow> recovery_report \<Rightarrow> ('w wallet, string, recovery_report) step" where
  "recover_signed row held rep =
     bind_step (recovery_move (pf_plan_id row) Cancelled (Some ''restart: signing reached; locks preserved until expiry'') rep)
       (\<lambda>rep. return_step
          (if held \<noteq> [] then rep\<lparr>rv_preserved := rv_preserved rep @ [pf_plan_id row]\<rparr> else rep))"

definition row_expired :: "operation_row \<Rightarrow> canonical_tip \<Rightarrow> bool" where
  "row_expired row tip \<longleftrightarrow> (case pf_expiry row of None \<Rightarrow> False | Some e \<Rightarrow> ct_height tip > e)"

definition recover_row ::
    "hex_lib \<Rightarrow> sha \<Rightarrow> 'w wallet_env \<Rightarrow> locked_output list \<Rightarrow> canonical_tip \<Rightarrow> operation_row \<Rightarrow> recovery_report
      \<Rightarrow> ('w wallet, string, recovery_report) step" where
  "recover_row hx sha env locks tip row rep =
     (if pf_funding_mode row = ''shielded'' \<and> pf_lock_owner row \<noteq> lock_owner_hex hx sha (pf_plan_id row)
      then return_step (anomaly (pf_plan_id row) ''journal lock_owner does not match canonical derivation; not touched'' rep)
      else
        let held = (if pf_lock_owner row = [] then [] else locks_of locks (pf_lock_owner row));
            expired = row_expired row tip in
        case op_stage row of
          Planned \<Rightarrow> recover_planned row held rep
        | Reserved \<Rightarrow> recover_reserved env row held expired rep
        | Proving \<Rightarrow> recover_proving env row held rep
        | Proven \<Rightarrow> recover_proving env row held rep
        | Signing \<Rightarrow> recover_signed row held rep
        | Signed \<Rightarrow> recover_signed row held rep
        | Extracted \<Rightarrow> recover_signed row held rep
        | Verified \<Rightarrow> recover_signed row held rep
        | _ \<Rightarrow> return_step rep)"

fun recover_rows ::
    "hex_lib \<Rightarrow> sha \<Rightarrow> 'w wallet_env \<Rightarrow> locked_output list \<Rightarrow> canonical_tip \<Rightarrow> operation_row list \<Rightarrow> recovery_report
      \<Rightarrow> ('w wallet, string, recovery_report) step" where
  "recover_rows hx sha env locks tip [] rep = return_step rep"
| "recover_rows hx sha env locks tip (row # rows) rep =
     bind_step (recover_row hx sha env locks tip row rep) (recover_rows hx sha env locks tip rows)"

section \<open>The pass\<close>

definition merge_reports :: "recovery_report \<Rightarrow> reconcile_report \<Rightarrow> recovery_report" where
  "merge_reports rep b =
     rep\<lparr>rv_transitions := rv_transitions rep @ map (\<lambda>a. (ra_plan_id a, ra_from a, ra_to a)) (rp_actions b),
         rv_released := rv_released rep @ rp_released b,
         rv_anomalies := rv_anomalies rep @ rp_errors b\<rparr>"

definition startup_recover ::
    "hex_lib \<Rightarrow> sha \<Rightarrow> 'w wallet_env \<Rightarrow> ('w, string, locked_output list) step \<Rightarrow> canonical_tip
      \<Rightarrow> ('w wallet, string, recovery_report) step" where
  "startup_recover hx sha env lock_view tip =
     bind_step (world_do lock_view) (\<lambda>locks.
     bind_step (journal_do (\<lambda>j. (j, non_terminal_rows j))) (\<lambda>rows.
       let known = filter (\<lambda>ow. ow \<noteq> []) (map pf_lock_owner rows) in
       bind_step (recover_rows hx sha env locks tip rows empty_recovery) (\<lambda>rep.
       bind_step (reconcile env tip) (\<lambda>b.
         let rep = merge_reports rep b in
         return_step (rep\<lparr>rv_orphan_locks := rv_orphan_locks rep
           @ filter (\<lambda>l. lo_owner_hex l \<notin> set known) locks\<rparr>)))))"

section \<open>Recording a plan\<close>

text \<open>What \<open>record_plan\<close> reads of a plan: its fields; an expiry of 0 means none.\<close>

definition record_plan ::
    "hex_lib \<Rightarrow> sha \<Rightarrow> string \<Rightarrow> string \<Rightarrow> string \<Rightarrow> string \<Rightarrow> canonical_tip \<Rightarrow> u32 \<Rightarrow> string \<Rightarrow> u32 \<Rightarrow> (journal, string, unit) step" where
  "record_plan hx sha plan_id intent_hash kind pool tip target inputs expiry =
     bind_step (create_plan
       \<lparr>pf_plan_id = plan_id, pf_intent_hash = intent_hash, pf_kind = kind, pf_funding_mode = pool,
        pf_lock_owner = (if pool = ''shielded'' then lock_owner_hex hx sha plan_id else []),
        pf_tip_height = ct_height tip, pf_tip_hash = hex_encode hx (bytes_of (ct_hash tip)),
        pf_target_height = target, pf_selected_inputs = inputs,
        pf_expiry = (if expiry = 0 then None else Some expiry)\<rparr>)
       (\<lambda>_. reserve plan_id)"

end
