(* ===== verification/Journal_Props.thy ===== *)
theory Journal_Props
  imports Journal
begin

text \<open>
  The journal as a state machine: what any sequence of operations, clock changes and database
  faults does to its rows.
\<close>

section \<open>Stages\<close>

lemma parse_stage_str [simp]: "parse_stage (stage_str s) = Ok s"
  by (cases s) (simp_all add: parse_stage_def)

lemma parse_stage_Ok_iff: "parse_stage t = Ok s \<longleftrightarrow> t = stage_str s"
proof
  show "parse_stage t = Ok s \<Longrightarrow> t = stage_str s"
    by (auto simp: parse_stage_def split: if_splits)
qed simp

lemma stage_str_inject [simp]: "stage_str a = stage_str b \<longleftrightarrow> a = b"
  by (metis parse_stage_str sum.inject(2))

definition terminal :: "journal_stage \<Rightarrow> bool" where
  "terminal s \<longleftrightarrow> s \<in> {Mined, Cancelled, Expired, Rejected, Reorged}"

lemma terminal_str: "stage_str s \<in> set terminal_strs \<longleftrightarrow> terminal s"
  by (cases s) (simp_all add: terminal_strs_def terminal_def)

lemma can_transition_refl [simp]: "can_transition s s"
  by (simp add: can_transition_def)

lemma terminal_final: "terminal a \<Longrightarrow> can_transition a b \<longleftrightarrow> a = b"
  by (auto simp: terminal_def can_transition_def stage_edges_def)

lemma terminal_forever: "can_transition\<^sup>*\<^sup>* a b \<Longrightarrow> terminal a \<Longrightarrow> b = a"
  by (induction rule: rtranclp_induct) (auto simp: terminal_final)

section \<open>Rows\<close>

definition row_ok :: "journal_row \<Rightarrow> bool" where
  "row_ok r \<longleftrightarrow> is_ok (row_to_operation r)"

definition journal_ok :: "journal \<Rightarrow> bool" where
  "journal_ok j \<longleftrightarrow> distinct (map jr_plan_id (jn_rows j)) \<and> (\<forall>r \<in> set (jn_rows j). row_ok r)"

lemma try_u32_uint [simp]: "try_u32 what (uint (w :: u32)) = Ok w"
  using uint_lt2p [of w] by (simp add: try_u32_def)

lemma try_u32_opt_uint [simp]: "try_u32_opt what (map_option uint e) = Ok (e :: u32 option)"
  by (cases e) (simp_all add: try_u32_opt_def)

definition planned_row :: "plan_fields \<Rightarrow> operation_row" where
  "planned_row p =
     \<lparr>pf_plan_id = pf_plan_id p, pf_intent_hash = pf_intent_hash p, pf_kind = pf_kind p,
      pf_funding_mode = pf_funding_mode p, pf_lock_owner = pf_lock_owner p, pf_tip_height = pf_tip_height p,
      pf_tip_hash = pf_tip_hash p, pf_target_height = pf_target_height p,
      pf_selected_inputs = pf_selected_inputs p, pf_expiry = pf_expiry p,
      op_stage = Planned, op_txid = None, op_last_error = None\<rparr>"

lemma new_row_operation [simp]: "row_to_operation (new_row p now) = Ok (planned_row p)"
  using parse_stage_str [of Planned]
  by (simp add: row_to_operation_def new_row_def planned_row_def)

lemma new_row_ok [simp]: "row_ok (new_row p now)" "jr_plan_id (new_row p now) = pf_plan_id p"
  by (simp add: row_ok_def) (simp add: new_row_def)

lemma new_row_fields [simp]: "existing_fields pid (new_row p now) = Ok p"
  by (simp add: existing_fields_def new_row_def)

lemma row_stage: "row_to_operation r = Ok op \<Longrightarrow> jr_stage r = stage_str (op_stage op)"
  by (auto simp: row_to_operation_def parse_stage_Ok_iff)

lemma move_row_operation:
  "row_to_operation r = Ok op \<Longrightarrow> row_to_operation (move_row to txid err now r)
     = Ok (op\<lparr>op_stage := to, op_txid := coalesce txid (op_txid op),
              op_last_error := coalesce err (op_last_error op)\<rparr>)"
  by (auto simp: row_to_operation_def move_row_def)

lemma find_row_Some: "find_row rows pid = Some r \<Longrightarrow> r \<in> set rows \<and> jr_plan_id r = pid"
  by (auto simp: find_row_def find_Some_iff)

lemma find_row_None: "find_row rows pid = None \<longleftrightarrow> pid \<notin> jr_plan_id ` set rows"
  by (auto simp: find_row_def find_None_iff)

lemma find_row_distinct:
  "distinct (map jr_plan_id rows) \<Longrightarrow> r \<in> set rows \<Longrightarrow> find_row rows (jr_plan_id r) = Some r"
  by (induction rows) (auto simp: find_row_def)

lemma map_update_row [simp]:
  "(\<And>r. jr_plan_id (f r) = jr_plan_id r) \<Longrightarrow> map jr_plan_id (update_row pid f rows) = map jr_plan_id rows"
  by (simp add: update_row_def)

lemma find_update_row:
  assumes "\<And>r. jr_plan_id (f r) = jr_plan_id r"
  shows "find_row (update_row pid f rows) pid' =
    (if pid' = pid then map_option f (find_row rows pid) else find_row rows pid')"
  using assms by (induction rows) (auto simp: find_row_def update_row_def)

lemma move_row_id [simp]: "jr_plan_id (move_row to txid err now r) = jr_plan_id r"
  by (simp add: move_row_def)

section \<open>Transitions\<close>

text \<open>A transition that succeeds, and one that fails, in terms of the table.\<close>

lemma sql_Ok_iff: "sql j c what = Ok () \<longleftrightarrow> jn_fault j c = None"
  by (auto simp: sql_def split: option.splits)

lemma transition_Ok_iff:
  "transition pid to txid err j = (j', Ok from) \<longleftrightarrow>
     jn_fault j SqlBegin = None \<and> jn_fault j SqlSelect = None \<and> jn_fault j SqlUpdate = None \<and> jn_fault j SqlCommit = None
     \<and> (\<exists>r. find_row (jn_rows j) pid = Some r \<and> jr_stage r = stage_str from \<and> can_transition from to)
     \<and> j' = j\<lparr>jn_rows := update_row pid (move_row to txid err (jn_clock j)) (jn_rows j)\<rparr>"
proof -
  have "transition pid to txid err j = (j', Ok from) \<longleftrightarrow>
    and_then (sql j SqlBegin ''journal tx'') (\<lambda>_.
           and_then (sql j SqlSelect (''journal lookup '' @ pid)) (\<lambda>_.
           and_then (ok_or (''journal lookup '' @ pid @ '': Query returned no rows'') (find_row (jn_rows j) pid)) (\<lambda>r.
           and_then (parse_stage (jr_stage r)) (\<lambda>from.
             if \<not> can_transition from to
             then Err (''illegal journal transition for '' @ pid @ '': '' @ jr_stage r @ '' -> '' @ stage_str to)
             else
               and_then (sql j SqlUpdate ''journal transition'') (\<lambda>_.
               and_then (sql j SqlCommit ''journal commit'') (\<lambda>_. Ok from)))))) = Ok from
    \<and> j' = j\<lparr>jn_rows := update_row pid (move_row to txid err (jn_clock j)) (jn_rows j)\<rparr>"
    unfolding transition_def by (auto split: sum.split)
  then show ?thesis
    by (auto simp: sql_Ok_iff parse_stage_Ok_iff split: if_splits)
qed

lemma transition_Err: "transition pid to txid err j = (j', Err e) \<Longrightarrow> j' = j"
  by (auto simp: transition_def split: sum.splits)

lemma transition_cases:
  assumes "transition pid to txid err j = (j', r)"
  obtains (moved) row s where "find_row (jn_rows j) pid = Some row" "can_transition s to" "r = Ok s"
      "jr_stage row = stage_str s"
      "j' = j\<lparr>jn_rows := update_row pid (move_row to txid err (jn_clock j)) (jn_rows j)\<rparr>"
    | (failed) e where "r = Err e" "j' = j"
  using assms by (cases r) (auto simp: transition_Ok_iff dest: transition_Err)

section \<open>The journal as a state machine\<close>

text \<open>One call, or anything that happens outside the table: time passes, faults come and go.\<close>

inductive journal_step :: "journal \<Rightarrow> journal \<Rightarrow> bool" where
  create: "create_plan p j = (j', r) \<Longrightarrow> journal_step j j'"
| move: "transition pid to txid err j = (j', r) \<Longrightarrow> journal_step j j'"
| outside: "jn_rows j' = jn_rows j \<Longrightarrow> journal_step j j'"

inductive_cases journal_stepE: "journal_step j j'"

text \<open>What may become of a row: the fields of the plan stay, the stage follows the machine, and a
  transaction id that was recorded is not forgotten.\<close>

definition row_follows :: "journal_row \<Rightarrow> journal_row \<Rightarrow> bool" where
  "row_follows r r' \<longleftrightarrow>
     jr_plan_id r' = jr_plan_id r
     \<and> (\<forall>pid. existing_fields pid r' = existing_fields pid r) \<and> jr_created_at r' = jr_created_at r
     \<and> (jr_txid r \<noteq> None \<longrightarrow> jr_txid r' \<noteq> None)
     \<and> (\<exists>a b. jr_stage r = stage_str a \<and> jr_stage r' = stage_str b \<and> can_transition\<^sup>*\<^sup>* a b)"

lemma row_follows_refl: "jr_stage r = stage_str a \<Longrightarrow> row_follows r r"
  by (auto simp: row_follows_def)

lemma row_follows_trans: "row_follows r r' \<Longrightarrow> row_follows r' r'' \<Longrightarrow> row_follows r r''"
  unfolding row_follows_def by (metis rtranclp_trans stage_str_inject)

lemma row_follows_move:
  "jr_stage r = stage_str a \<Longrightarrow> can_transition a to \<Longrightarrow> row_follows r (move_row to txid err now r)"
  by (auto simp: row_follows_def move_row_def existing_fields_def coalesce_def split: option.split)

text \<open>The rows of a later table: the old ones in place, each evolved, then newer ones.\<close>

definition rows_follow :: "journal_row list \<Rightarrow> journal_row list \<Rightarrow> bool" where
  "rows_follow rows rows' \<longleftrightarrow>
     length rows \<le> length rows' \<and> list_all2 row_follows rows (take (length rows) rows')"

lemma rows_follow_trans:
  assumes "rows_follow xs ys" "rows_follow ys zs"
  shows "rows_follow xs zs"
proof -
  have "list_all2 row_follows (take (length xs) ys) (take (length xs) (take (length ys) zs))"
    using assms(2) unfolding rows_follow_def by (intro list_all2_takeI) simp
  moreover have "take (length xs) (take (length ys) zs) = take (length xs) zs"
    using assms(1) by (simp add: rows_follow_def min_def)
  ultimately show ?thesis
    using assms list_all2_trans [of row_follows row_follows row_follows xs "take (length xs) ys"]
    by (simp add: rows_follow_def) (meson row_follows_trans)
qed

lemma row_ok_stage: "row_ok r \<Longrightarrow> \<exists>a. jr_stage r = stage_str a"
  using row_stage by (auto simp: row_ok_def is_ok_iff)

lemma rows_follow_same: "\<forall>r \<in> set rows. row_ok r \<Longrightarrow> rows_follow rows (rows @ new)"
  by (auto simp: rows_follow_def list_all2_same dest: row_ok_stage intro: row_follows_refl)

lemma rows_follow_update:
  assumes "\<forall>r \<in> set rows. row_ok r" "find_row rows pid = Some row" "jr_stage row = stage_str a"
    "can_transition a to" "distinct (map jr_plan_id rows)"
  shows "rows_follow rows (update_row pid (move_row to txid err now) rows)"
proof -
  have "row_follows r (if jr_plan_id r = pid then move_row to txid err now r else r)" if "r \<in> set rows" for r
  proof (cases "jr_plan_id r = pid")
    case True
    then have "r = row" using find_row_distinct [OF assms(5) that] assms(2) by simp
    then show ?thesis using True row_follows_move [OF assms(3,4)] by simp
  next
    case False
    then show ?thesis using assms(1) that row_ok_stage row_follows_refl by auto
  qed
  then show ?thesis
    by (simp add: rows_follow_def update_row_def list_all2_map2 list_all2_same)
qed

lemma create_plan_cases:
  assumes "create_plan p j = (j', r)"
  obtains (added) "pf_plan_id p \<notin> jr_plan_id ` set (jn_rows j)" "r = Ok ()"
      "j' = j\<lparr>jn_rows := jn_rows j @ [new_row p (jn_clock j)]\<rparr>"
    | (unchanged) "j' = j"
proof -
  have "j' = j \<or> (find_row (jn_rows j) (pf_plan_id p) = None \<and> r = Ok ()
      \<and> j' = j\<lparr>jn_rows := jn_rows j @ [new_row p (jn_clock j)]\<rparr>)"
    using assms unfolding create_plan_def by (simp split: sum.splits option.splits)
  then show thesis using added unchanged find_row_None by metis
qed

lemma journal_step_keeps:
  assumes "journal_step j j'" "journal_ok j"
  shows "journal_ok j' \<and> rows_follow (jn_rows j) (jn_rows j')"
  using assms(1)
proof cases
  case (create p r)
  then show ?thesis
  proof (cases rule: create_plan_cases)
    case added
    then show ?thesis
      using assms(2) rows_follow_same by (auto simp: journal_ok_def)
  next
    case unchanged
    then show ?thesis using assms(2) rows_follow_same [of "jn_rows j" "[]"] by (simp add: journal_ok_def)
  qed
next
  case (move pid to txid err r)
  then show ?thesis
  proof (cases rule: transition_cases)
    case (moved row s)
    have "row_ok r" "row_ok (move_row to txid err (jn_clock j) r)" if "r \<in> set (jn_rows j)" for r
      using assms(2) that move_row_operation by (auto simp: journal_ok_def row_ok_def is_ok_iff)
    then have "\<forall>r \<in> set (jn_rows j'). row_ok r"
      unfolding moved(5) by (auto simp: update_row_def)
    moreover have "distinct (map jr_plan_id (jn_rows j'))"
      unfolding moved(5) using assms(2) by (simp add: journal_ok_def)
    moreover have "rows_follow (jn_rows j) (jn_rows j')"
      unfolding moved(5) using assms(2) rows_follow_update [OF _ moved(1,4,2)] by (simp add: journal_ok_def)
    ultimately show ?thesis by (simp add: journal_ok_def)
  next
    case failed
    then show ?thesis using assms(2) rows_follow_same [of "jn_rows j" "[]"] by (simp add: journal_ok_def)
  qed
next
  case outside
  then show ?thesis using assms(2) rows_follow_same [of "jn_rows j" "[]"] by (simp add: journal_ok_def)
qed

lemma journal_steps_keep:
  assumes "journal_step\<^sup>*\<^sup>* j j'" "journal_ok j"
  shows "journal_ok j' \<and> rows_follow (jn_rows j) (jn_rows j')"
  using assms(1)
proof (induction rule: rtranclp_induct)
  case base
  then show ?case using assms(2) rows_follow_same [of "jn_rows j" "[]"] by (simp add: journal_ok_def)
next
  case (step j1 j2)
  then show ?case using journal_step_keeps [OF step.hyps(2)] rows_follow_trans by blast
qed

lemma journal_new_ok [simp]: "journal_ok journal_new"
  by (simp add: journal_ok_def journal_new_def)

section \<open>A concrete journal\<close>

definition demo_fields :: plan_fields where
  "demo_fields = \<lparr>pf_plan_id = ''p1'', pf_intent_hash = ''i'', pf_kind = ''call'', pf_funding_mode = ''transparent'',
     pf_lock_owner = ''w'', pf_tip_height = 7, pf_tip_hash = ''t'', pf_target_height = 8, pf_selected_inputs = [],
     pf_expiry = Some 9\<rparr>"

definition demo_row :: "journal_stage \<Rightarrow> string option \<Rightarrow> string option \<Rightarrow> journal_row" where
  "demo_row stage txid err = move_row stage txid err 0 (new_row demo_fields 0)"

lemma demo_row_simps [simp]:
  "jr_plan_id (demo_row s t e) = ''p1''" "jr_stage (demo_row s t e) = stage_str s" "jr_txid (demo_row s t e) = t"
  "move_row s' t' e' 0 (demo_row s t e) = demo_row s' (coalesce t' t) (coalesce e' e)"
  "find_row [demo_row s t e] ''p1'' = Some (demo_row s t e)"
  by (simp_all add: demo_row_def move_row_def new_row_def demo_fields_def coalesce_def find_row_def split: option.split)

lemma demo_step:
  assumes "journal_step\<^sup>*\<^sup>* j (journal_new\<lparr>jn_rows := [demo_row a t e]\<rparr>)" "can_transition a b"
  shows "journal_step\<^sup>*\<^sup>* j (journal_new\<lparr>jn_rows := [demo_row b (coalesce t' t) (coalesce e' e)]\<rparr>)"
proof -
  have "transition ''p1'' b t' e' (journal_new\<lparr>jn_rows := [demo_row a t e]\<rparr>)
      = (journal_new\<lparr>jn_rows := [demo_row b (coalesce t' t) (coalesce e' e)]\<rparr>, Ok a)"
    using assms(2) by (simp add: transition_Ok_iff journal_new_def update_row_def)
  from journal_step.move [OF this] show ?thesis by (rule rtranclp.rtrancl_into_rtrancl [OF assms(1)])
qed

lemma demo_path:
  assumes "journal_step\<^sup>*\<^sup>* journal_new (journal_new\<lparr>jn_rows := [demo_row a t None]\<rparr>)" "successively can_transition (a # bs)"
  shows "journal_step\<^sup>*\<^sup>* journal_new (journal_new\<lparr>jn_rows := [demo_row (last (a # bs)) t None]\<rparr>)"
  using assms
proof (induction bs arbitrary: a)
  case (Cons b bs)
  then show ?case
    using demo_step [of journal_new a t None b None None] by (simp add: coalesce_def)
qed simp

lemma demo_verified_reached: "journal_step\<^sup>*\<^sup>* journal_new (journal_new\<lparr>jn_rows := [demo_row Verified None None]\<rparr>)"
proof -
  have "create_plan demo_fields journal_new = (journal_new\<lparr>jn_rows := [demo_row Planned None None]\<rparr>, Ok ())"
    by (simp add: create_plan_def sql_def journal_new_def find_row_def demo_row_def move_row_def new_row_def coalesce_def)
  then have "journal_step\<^sup>*\<^sup>* journal_new (journal_new\<lparr>jn_rows := [demo_row Planned None None]\<rparr>)"
    by (intro r_into_rtranclp journal_step.create)
  from demo_path [OF this, of "[Reserved, Proving, Proven, Signing, Signed, Extracted, Verified]"] show ?thesis
    by (simp add: can_transition_def stage_edges_def)
qed

lemma demo_reached: "journal_step\<^sup>*\<^sup>* journal_new (journal_new\<lparr>jn_rows := [demo_row Broadcasting (Some ''t'') None]\<rparr>)"
  using demo_step [OF demo_verified_reached, of Broadcasting "Some ''t''" None]
  by (simp add: can_transition_def stage_edges_def coalesce_def)

section \<open>The property\<close>

lemma rows_follow_find:
  assumes "rows_follow rows rows'" "find_row rows pid = Some r" "distinct (map jr_plan_id rows')"
  shows "\<exists>r'. find_row rows' pid = Some r' \<and> row_follows r r'"
proof -
  obtain i where i: "i < length rows" "rows ! i = r"
    using find_row_Some [OF assms(2)] by (auto simp: in_set_conv_nth)
  then have "row_follows r (rows' ! i)" "i < length rows'"
    using assms(1) by (auto simp: rows_follow_def list_all2_conv_all_nth)
  moreover from this have "find_row rows' (jr_plan_id (rows' ! i)) = Some (rows' ! i)"
    using find_row_distinct [OF assms(3)] by simp
  ultimately show ?thesis
    using find_row_Some [OF assms(2)] by (auto simp: row_follows_def)
qed

text \<open>A run of the journal, with the transaction ids that its successful transitions carried, by plan.\<close>

definition carried :: "string \<Rightarrow> string option \<Rightarrow> (string, 'r) result \<Rightarrow> (string \<times> string) list" where
  "carried pid txid r = (case txid of Some t \<Rightarrow> if is_ok r then [(pid, t)] else [] | None \<Rightarrow> [])"

inductive journal_run :: "journal \<Rightarrow> (string \<times> string) list \<Rightarrow> journal \<Rightarrow> bool" for j0 :: journal where
  start: "journal_run j0 [] j0"
| create: "journal_run j0 ids j \<Longrightarrow> create_plan p j = (j', r) \<Longrightarrow> journal_run j0 ids j'"
| move: "journal_run j0 ids j \<Longrightarrow> transition pid to txid err j = (j', r) \<Longrightarrow> journal_run j0 (ids @ carried pid txid r) j'"
| outside: "journal_run j0 ids j \<Longrightarrow> jn_rows j' = jn_rows j \<Longrightarrow> journal_run j0 ids j'"

lemma journal_run_steps: "journal_run j ids j' \<Longrightarrow> journal_step\<^sup>*\<^sup>* j j'"
  by (induction rule: journal_run.induct) (auto intro: rtranclp.rtrancl_into_rtrancl journal_step.intros)

lemma find_row_append: "find_row rows pid = Some r \<Longrightarrow> find_row (rows @ new) pid = Some r"
  by (induction rows) (auto simp: find_row_def)

text \<open>The id of a row is the last one that was carried.\<close>

lemma journal_run_txid:
  assumes "journal_run j ids j'" "journal_ok j" "find_row (jn_rows j) pid = Some r"
  shows "map_option jr_txid (find_row (jn_rows j') pid) = Some (coalesce (map_of (rev ids) pid) (jr_txid r))"
  using assms(1)
proof (induction rule: journal_run.induct)
  case start
  then show ?case using assms(3) by (simp add: coalesce_def)
next
  case (create ids j1 p j2 x)
  from create(2) show ?case
  proof (cases rule: create_plan_cases)
    case added
    then show ?thesis using create(3) by (auto dest: find_row_append)
  qed (use create(3) in simp)
next
  case (move ids j1 pid' to txid err j2 x)
  from move(2) show ?case
  proof (cases rule: transition_cases)
    case (moved row s)
    then show ?thesis
      using move(3) by (cases txid) (auto simp: find_update_row move_row_def carried_def coalesce_def split: option.splits)
  next
    case failed
    then show ?thesis using move(3) by (simp add: carried_def split: option.split)
  qed
qed simp

text \<open>C11. Whatever sequence of calls, failed calls included, and whatever database faults: plan ids
  stay unique, every row can be read back, no row disappears, the fields of a plan never
  change, its stage only moves along the allowed transitions, and a terminal stage is final. The
  transaction id of a row is the last one that a successful transition of this row carried, and stays
  as it was while none carries one; so a recorded id can be replaced but is never cleared.\<close>

theorem journal_follows_machine:
  assumes "journal_step\<^sup>*\<^sup>* journal_new j" "journal_run j ids j'" "find_row (jn_rows j) pid = Some r"
  shows "distinct (map jr_plan_id (jn_rows j')) \<and> (\<forall>r' \<in> set (jn_rows j'). row_ok r')
    \<and> (\<exists>r'. find_row (jn_rows j') pid = Some r'
        \<and> existing_fields pid r' = existing_fields pid r
        \<and> jr_txid r' = (case map_of (rev ids) pid of Some t \<Rightarrow> Some t | None \<Rightarrow> jr_txid r)
        \<and> (\<exists>a b. jr_stage r = stage_str a \<and> jr_stage r' = stage_str b \<and> can_transition\<^sup>*\<^sup>* a b
            \<and> (terminal a \<longrightarrow> b = a)))"
proof -
  have j: "journal_ok j" using journal_steps_keep [OF assms(1)] by simp
  then have ok: "journal_ok j'" "rows_follow (jn_rows j) (jn_rows j')"
    using journal_steps_keep [OF journal_run_steps [OF assms(2)]] by auto
  obtain r' where r': "find_row (jn_rows j') pid = Some r'" "row_follows r r'"
    using ok rows_follow_find [OF ok(2) assms(3)] by (auto simp: journal_ok_def)
  obtain a b where ab: "jr_stage r = stage_str a" "jr_stage r' = stage_str b" "can_transition\<^sup>*\<^sup>* a b"
    using r'(2) by (auto simp: row_follows_def)
  show ?thesis
  proof (intro conjI exI)
    show "distinct (map jr_plan_id (jn_rows j'))" "\<forall>r' \<in> set (jn_rows j'). row_ok r'"
      using ok(1) by (simp_all add: journal_ok_def)
    show "jr_txid r' = (case map_of (rev ids) pid of Some t \<Rightarrow> Some t | None \<Rightarrow> jr_txid r)"
      using journal_run_txid [OF assms(2) j assms(3)] r'(1) by (simp add: coalesce_def)
    show "terminal a \<longrightarrow> b = a" using terminal_forever [OF ab(3)] by blast
  qed (use r' ab in \<open>simp_all add: row_follows_def\<close>)
qed

text \<open>The second id replaces the first.\<close>

lemma journal_follows_machine_witness:
  "\<exists>j'. journal_run (journal_new\<lparr>jn_rows := [demo_row Verified None None]\<rparr>) [(''p1'', ''t''), (''p1'', ''u'')] j'
    \<and> (\<exists>r'. find_row (jn_rows j') ''p1'' = Some r' \<and> jr_txid r' = Some ''u'' \<and> jr_stage r' = stage_str Broadcasting
        \<and> existing_fields ''p1'' r' = existing_fields ''p1'' (demo_row Verified None None))"
proof -
  let ?at = "\<lambda>s t. journal_new\<lparr>jn_rows := [demo_row s t None]\<rparr>"
  have t: "transition ''p1'' Broadcasting (Some y) None (?at s x) = (?at Broadcasting (Some y), Ok s)"
    if "can_transition s Broadcasting" for s x y
    using that by (simp add: transition_Ok_iff journal_new_def update_row_def coalesce_def)
  have "journal_run (?at Verified None) [(''p1'', ''t'')] (?at Broadcasting (Some ''t''))"
    using journal_run.move [OF journal_run.start t [of Verified "''t''" None]]
    by (simp add: carried_def can_transition_def stage_edges_def)
  from journal_run.move [OF this t [of Broadcasting "''u''"]]
  have run: "journal_run (?at Verified None) [(''p1'', ''t''), (''p1'', ''u'')] (?at Broadcasting (Some ''u''))"
    by (simp add: carried_def)
  obtain r' where r': "find_row (jn_rows (?at Broadcasting (Some ''u''))) ''p1'' = Some r'"
      "existing_fields ''p1'' r' = existing_fields ''p1'' (demo_row Verified None None)"
      "jr_txid r' = (case map_of (rev [(''p1'', ''t''), (''p1'', ''u'')]) ''p1'' of Some t \<Rightarrow> Some t
        | None \<Rightarrow> jr_txid (demo_row Verified None None))"
    using journal_follows_machine [OF demo_verified_reached run, of "''p1''" "demo_row Verified None None"] by auto
  moreover from r'(1) have "jr_stage r' = stage_str Broadcasting" by auto
  ultimately show ?thesis using run by auto
qed

end
