(* ===== verification/Broadcast_Props.thy ===== *)
theory Broadcast_Props
  imports Recovery Journal_Props
begin

text \<open>
  Broadcasting and reconciliation: what is on disk when a transaction leaves the process, when
  note locks are released, and that a second reconciliation finds nothing to do.
\<close>

section \<open>Steps on the wallet\<close>

lemma journal_doE:
  assumes "journal_do f w = (w', r)"
  obtains j where "f (wl_journal w) = (j, r)" "w' = w\<lparr>wl_journal := j\<rparr>"
  using assms by (auto simp: journal_do_def split: prod.splits)

lemma journal_move_Ok:
  assumes "journal_do (transition pid to txid err) w = (w', Ok from)"
  shows "\<exists>r. find_row (jn_rows (wl_journal w)) pid = Some r \<and> jr_stage r = stage_str from \<and> can_transition from to
    \<and> w' = w\<lparr>wl_journal := (wl_journal w)\<lparr>jn_rows :=
        update_row pid (move_row to txid err (jn_clock (wl_journal w))) (jn_rows (wl_journal w))\<rparr>\<rparr>"
  using assms by (auto elim!: journal_doE simp: transition_Ok_iff)

lemma journal_move_Err:
  assumes "journal_do (transition pid to txid err) w = (w', Err e)"
  shows "w' = w"
  using assms by (auto elim!: journal_doE dest: transition_Err)

lemma world_do_fields [simp]:
  "world_do f w = (w', r) \<Longrightarrow> wl_journal w' = wl_journal w \<and> wl_events w' = wl_events w
     \<and> f (wl_world w) = (wl_world w', r)"
  by (auto simp: world_do_def split: prod.splits)

lemma release_plan_fields:
  "release_plan env pid w = (w', r) \<Longrightarrow> wl_journal w' = wl_journal w
     \<and> wl_events w' = wl_events w @ [Released pid (jn_rows (wl_journal w))]"
  by (auto simp: release_plan_def dest!: world_do_fields)

lemma send_tx_fields:
  "send_tx env tx w = (w', r) \<Longrightarrow> wl_journal w' = wl_journal w
     \<and> wl_events w' = wl_events w @ [Sent tx (jn_rows (wl_journal w))] \<and> we_send env tx (wl_world w) = (wl_world w', r)"
  by (auto simp: send_tx_def dest!: world_do_fields)

text \<open>The row after a transition.\<close>

lemma moved_row:
  assumes "find_row rows pid = Some r"
  shows "\<exists>r'. find_row (update_row pid (move_row to txid err now) rows) pid = Some r'
    \<and> jr_stage r' = stage_str to \<and> jr_txid r' = coalesce txid (jr_txid r)"
  using assms by (simp add: find_update_row move_row_def)

section \<open>Broadcast\<close>

definition row_stage_is :: "journal_row list \<Rightarrow> string \<Rightarrow> journal_stage \<Rightarrow> bool" where
  "row_stage_is rows pid s \<longleftrightarrow> (\<exists>r. find_row rows pid = Some r \<and> jr_stage r = stage_str s)"

text \<open>What \<open>record_outcome\<close> may do after a send: the events, and the stage on disk.\<close>

definition outcome_recorded :: "string \<Rightarrow> string \<Rightarrow> transport_result \<Rightarrow> 'w wallet \<Rightarrow> 'w wallet \<Rightarrow> (string, broadcast_outcome) result \<Rightarrow> bool" where
  "outcome_recorded pid txid_hex res w w' r \<longleftrightarrow>
     (wl_events w' = wl_events w
      \<or> (\<exists>rows code msg. wl_events w' = wl_events w @ [Released pid rows] \<and> res = RejectedTx code msg \<and> row_stage_is rows pid Rejected))
     \<and> (case r of
          Err e \<Rightarrow> True
        | Ok OutcomeAccepted \<Rightarrow> res = Accepted txid_hex \<and> wl_events w' = wl_events w
            \<and> row_stage_is (jn_rows (wl_journal w')) pid BroadcastAccepted
        | Ok (OutcomeRejected m) \<Rightarrow> wl_events w' \<noteq> wl_events w \<and> row_stage_is (jn_rows (wl_journal w')) pid Rejected
        | Ok (OutcomeUnknown m) \<Rightarrow> wl_events w' = wl_events w
            \<and> row_stage_is (jn_rows (wl_journal w')) pid BroadcastUnknown)"

lemma journal_move_stage:
  assumes "journal_do (transition pid to txid err) w = (w', Ok from)"
  shows "row_stage_is (jn_rows (wl_journal w')) pid to" "wl_events w' = wl_events w" "wl_world w' = wl_world w"
  using journal_move_Ok [OF assms] moved_row by (fastforce simp: row_stage_is_def)+

lemma move_then_return:
  assumes "bind_step (journal_do (transition pid to txid err)) (\<lambda>_. return_step x) w = (w', r)"
  shows "wl_events w' = wl_events w \<and> (case r of Err e \<Rightarrow> True | Ok y \<Rightarrow> y = x \<and> row_stage_is (jn_rows (wl_journal w')) pid to)"
  using assms
proof (cases rule: bind_stepE)
  case (ok w1 s)
  then show ?thesis using journal_move_stage [OF ok(1)] by auto
qed (auto dest: journal_move_Err)

lemma record_outcome_recorded:
  assumes "record_outcome env pid txid_hex res w = (w', r)"
  shows "outcome_recorded pid txid_hex res w w' r"
proof (cases res)
  case (Accepted returned)
  then show ?thesis
    using assms by (auto simp: record_outcome_def outcome_recorded_def Let_def dest!: move_then_return
        split: if_splits sum.splits)
next
  case (Ambiguous message)
  then show ?thesis
    using assms by (auto simp: record_outcome_def outcome_recorded_def dest!: move_then_return split: sum.splits)
next
  case (RejectedTx code message)
  let ?msg = "''rejected (code '' @ signed_decimal code @ ''): '' @ message"
  have "bind_step (journal_do (transition pid Rejected None (Some ?msg))) (\<lambda>_.
      bind_step (release_plan env pid) (\<lambda>_. return_step (OutcomeRejected ?msg))) w = (w', r)"
    using assms RejectedTx by (simp add: record_outcome_def Let_def)
  then show ?thesis
  proof (cases rule: bind_stepE)
    case (failed e)
    then show ?thesis by (auto simp: outcome_recorded_def dest: journal_move_Err)
  next
    case (ok w1 s)
    note moved = journal_move_stage [OF ok(1)]
    from ok(2) show ?thesis
      by (rule bind_stepE)
        (use moved RejectedTx in \<open>auto simp: outcome_recorded_def dest!: release_plan_fields\<close>)
  qed
qed

lemma broadcast_trace:
  assumes "broadcast_verified hx env tx w = (w', r)"
  shows "\<exists>es. wl_events w' = wl_events w @ es \<and>
    (es = [] \<and> (\<forall>x. r \<noteq> Ok x) \<or>
     (\<exists>rows row more res.
        es = Sent (hex_encode hx (vt_bytes tx)) rows # more
        \<and> snd (we_tip env (wl_world w)) = Ok (vt_tip tx)
        \<and> find_row rows (vt_plan_id tx) = Some row
        \<and> jr_stage row = ''broadcasting'' \<and> jr_txid row = Some (txid_display hx (vt_txid tx))
        \<and> res = snd (we_send env (hex_encode hx (vt_bytes tx)) (fst (we_tip env (wl_world w))))
        \<and> (more = [] \<or> (\<exists>rows' code msg. more = [Released (vt_plan_id tx) rows'] \<and> res = RejectedTx code msg
              \<and> row_stage_is rows' (vt_plan_id tx) Rejected))
        \<and> (case r of
             Err e \<Rightarrow> True
           | Ok OutcomeAccepted \<Rightarrow> res = Accepted (txid_display hx (vt_txid tx))
               \<and> row_stage_is (jn_rows (wl_journal w')) (vt_plan_id tx) BroadcastAccepted
           | Ok (OutcomeRejected m) \<Rightarrow> more \<noteq> []
           | Ok (OutcomeUnknown m) \<Rightarrow> more = [] \<and> row_stage_is (jn_rows (wl_journal w')) (vt_plan_id tx) BroadcastUnknown)))"
  using assms unfolding broadcast_verified_def
proof (cases rule: bind_stepE)
  case (failed e)
  then show ?thesis by (auto dest: world_do_fields)
next
  case (ok w1 current)
  note tip = world_do_fields [OF ok(1)]
  let ?pid = "vt_plan_id tx" and ?id = "txid_display hx (vt_txid tx)" and ?hex = "hex_encode hx (vt_bytes tx)"
  show ?thesis
  proof (cases "current = vt_tip tx")
    case False
    then show ?thesis using ok(2) tip by auto
  next
    case True
    then have "bind_step (journal_do (transition ?pid Broadcasting (Some ?id) None)) (\<lambda>_ w.
           case send_tx env ?hex w of (w, res) \<Rightarrow> record_outcome env ?pid ?id res w) w1 = (w', r)"
      using ok(2) by (simp add: Let_def)
    then show ?thesis
    proof (cases rule: bind_stepE)
      case (failed e)
      then show ?thesis using tip by (auto dest: journal_move_Err)
    next
      case (ok w2 s)
      obtain row where row: "find_row (jn_rows (wl_journal w2)) ?pid = Some row"
        "jr_stage row = ''broadcasting''" "jr_txid row = Some ?id"
        using journal_move_Ok [OF ok(1)] moved_row by (fastforce simp: coalesce_def)
      obtain w3 res where send: "send_tx env ?hex w2 = (w3, res)" by fastforce
      note sent = send_tx_fields [OF send]
      have "outcome_recorded ?pid ?id res w3 w' r"
        using ok(2) send by (simp add: record_outcome_recorded)
      then show ?thesis
        using row sent tip True journal_move_stage(2,3) [OF ok(1)]
        by (intro exI [of _ "drop (length (wl_events w)) (wl_events w')"])
          (auto simp: outcome_recorded_def split: sum.splits broadcast_outcome.splits)
    qed
  qed
qed

text \<open>C12. A transaction only leaves the process against the tip it was verified at, and after its row
  is on disk at \<open>Broadcasting\<close> with the transaction id. Locks are released only for an explicit
  rejection, after the row is on disk at \<open>Rejected\<close>; an ambiguous answer releases nothing.\<close>

theorem broadcast_durable_before_send:
  assumes "broadcast_verified hx env tx w = (w', r)"
  shows "\<exists>es. wl_events w' = wl_events w @ es \<and>
    (es = [] \<and> (\<forall>x. r \<noteq> Ok x) \<or>
     (\<exists>rows row more res.
        es = Sent (hex_encode hx (vt_bytes tx)) rows # more
        \<and> snd (we_tip env (wl_world w)) = Ok (vt_tip tx)
        \<and> find_row rows (vt_plan_id tx) = Some row
        \<and> jr_stage row = ''broadcasting'' \<and> jr_txid row = Some (txid_display hx (vt_txid tx))
        \<and> res = snd (we_send env (hex_encode hx (vt_bytes tx)) (fst (we_tip env (wl_world w))))
        \<and> (more = [] \<or> (\<exists>rows' code msg. more = [Released (vt_plan_id tx) rows'] \<and> res = RejectedTx code msg
              \<and> row_stage_is rows' (vt_plan_id tx) Rejected))
        \<and> (case r of
             Err e \<Rightarrow> True
           | Ok OutcomeAccepted \<Rightarrow> res = Accepted (txid_display hx (vt_txid tx))
               \<and> row_stage_is (jn_rows (wl_journal w')) (vt_plan_id tx) BroadcastAccepted
           | Ok (OutcomeRejected m) \<Rightarrow> more \<noteq> []
           | Ok (OutcomeUnknown m) \<Rightarrow> more = [] \<and> row_stage_is (jn_rows (wl_journal w')) (vt_plan_id tx) BroadcastUnknown)))"
  by (rule broadcast_trace [OF assms])

section \<open>A concrete wallet\<close>

definition demo_wallet :: "journal_stage \<Rightarrow> string option \<Rightarrow> string option \<Rightarrow> wallet_event list \<Rightarrow> unit wallet" where
  "demo_wallet s t e evs = \<lparr>wl_journal = journal_new\<lparr>jn_rows := [demo_row s t e]\<rparr>, wl_world = (), wl_events = evs\<rparr>"

definition demo_env :: "transport_result \<Rightarrow> tx_status \<Rightarrow> unit wallet_env" where
  "demo_env res status =
     \<lparr>we_tip = (\<lambda>x. (x, Ok \<lparr>ct_height = 7, ct_hash = fill32 7\<rparr>)), we_send = (\<lambda>h x. (x, res)),
      we_status = (\<lambda>t x. (x, Ok status)), we_release = (\<lambda>p x. (x, Ok ()))\<rparr>"

definition demo_verified :: verified_tx where
  "demo_verified = \<lparr>vt_bytes = [1], vt_txid = fill32 4, vt_plan_id = ''p1'', vt_intent_hash = ''i'',
     vt_tip = \<lparr>ct_height = 7, ct_hash = fill32 7\<rparr>\<rparr>"

lemma demo_move:
  assumes "can_transition a b"
  shows "journal_do (transition ''p1'' b t' e') (demo_wallet a t e evs)
    = (demo_wallet b (coalesce t' t) (coalesce e' e) evs, Ok a)"
proof -
  have "transition ''p1'' b t' e' (journal_new\<lparr>jn_rows := [demo_row a t e]\<rparr>)
      = (journal_new\<lparr>jn_rows := [demo_row b (coalesce t' t) (coalesce e' e)]\<rparr>, Ok a)"
    using assms by (simp add: transition_Ok_iff journal_new_def update_row_def)
  then show ?thesis by (simp add: journal_do_def demo_wallet_def)
qed

lemma demo_calls [simp]:
  "world_do (we_tip (demo_env res st)) (demo_wallet a t e evs) = (demo_wallet a t e evs, Ok \<lparr>ct_height = 7, ct_hash = fill32 7\<rparr>)"
  "world_do (we_status (demo_env res st) txid) (demo_wallet a t e evs) = (demo_wallet a t e evs, Ok st)"
  "send_tx (demo_env res st) h (demo_wallet a t e evs) = (demo_wallet a t e (evs @ [Sent h [demo_row a t e]]), res)"
  "release_plan (demo_env res st) p (demo_wallet a t e evs) = (demo_wallet a t e (evs @ [Released p [demo_row a t e]]), Ok ())"
  by (simp_all add: demo_env_def demo_wallet_def world_do_def send_tx_def release_plan_def)

lemma minus_26: "signed_decimal (- 26) = ''-26''"
  by (simp add: signed_decimal_def decimal.simps [of 26] decimal.simps [of 2] char_of_def bit_0)

lemma broadcast_durable_before_send_witness:
  "\<exists>w' rows rows'. broadcast_verified plain_hex (demo_env (RejectedTx (- 26) ''bad'') Absent) demo_verified
        (demo_wallet Verified None None []) = (w', Ok (OutcomeRejected ''rejected (code -26): bad''))
    \<and> wl_events w' = [Sent (byte_text [1]) rows, Released ''p1'' rows'] \<and> row_stage_is rows' ''p1'' Rejected"
proof -
  let ?id = "txid_display plain_hex (fill32 4)"
  let ?env = "demo_env (RejectedTx (- 26) ''bad'') Absent"
  have "can_transition Verified Broadcasting" "can_transition Broadcasting Rejected"
    by (simp_all add: can_transition_def stage_edges_def)
  note moves = demo_move [OF this(1)] demo_move [OF this(2)]
  have run: "broadcast_verified plain_hex ?env demo_verified (demo_wallet Verified None None [])
      = (demo_wallet Rejected (Some ?id) (Some ''rejected (code -26): bad'')
           [Sent (byte_text [1]) [demo_row Broadcasting (Some ?id) None],
            Released ''p1'' [demo_row Rejected (Some ?id) (Some ''rejected (code -26): bad'')]],
         Ok (OutcomeRejected ''rejected (code -26): bad''))"
    by (simp add: broadcast_verified_def bind_step_def Let_def demo_verified_def record_outcome_def moves coalesce_def
        plain_hex_def minus_26)
  from broadcast_durable_before_send [OF run] run show ?thesis
    by (auto simp: row_stage_is_def demo_wallet_def demo_verified_def)
qed

end
