(* ===== verification/Reconcile_Props.thy ===== *)
theory Reconcile_Props
  imports Broadcast_Props
begin

text \<open>
  Reconciliation on a journal without faults: it never attempts an illegal transition, and a
  second pass against the same chain state finds nothing left to do.
\<close>

section \<open>Operations by plan id\<close>

definition op_at :: "journal \<Rightarrow> string \<Rightarrow> operation_row \<Rightarrow> bool" where
  "op_at j pid op \<longleftrightarrow> (\<exists>r. find_row (jn_rows j) pid = Some r \<and> row_to_operation r = Ok op)"

definition healthy :: "journal \<Rightarrow> bool" where
  "healthy j \<longleftrightarrow> jn_fault j = (\<lambda>_. None) \<and> journal_ok j"

text \<open>A journal that differs from another at one plan at most.\<close>

definition only_at :: "string \<Rightarrow> journal \<Rightarrow> journal \<Rightarrow> bool" where
  "only_at pid j j' \<longleftrightarrow>
     (\<forall>pid'. pid' \<noteq> pid \<longrightarrow> find_row (jn_rows j') pid' = find_row (jn_rows j) pid')
     \<and> map jr_plan_id (jn_rows j') = map jr_plan_id (jn_rows j)"

lemma only_at_refl [simp]: "only_at pid j j"
  by (simp add: only_at_def)

lemma only_at_trans: "only_at pid j j1 \<Longrightarrow> only_at pid j1 j2 \<Longrightarrow> only_at pid j j2"
  by (simp add: only_at_def)

lemma op_at_other: "only_at pid j j' \<Longrightarrow> pid' \<noteq> pid \<Longrightarrow> op_at j' pid' op \<longleftrightarrow> op_at j pid' op"
  by (simp add: op_at_def only_at_def)

lemma op_at_unique: "op_at j pid op \<Longrightarrow> op_at j pid op' \<Longrightarrow> op' = op"
  by (auto simp: op_at_def)

lemma row_to_operation_id: "row_to_operation r = Ok op \<Longrightarrow> pf_plan_id op = jr_plan_id r"
  by (auto simp: row_to_operation_def)

lemma op_at_id: "op_at j pid op \<Longrightarrow> pf_plan_id op = pid"
  using find_row_Some row_to_operation_id by (auto simp: op_at_def)

text \<open>A legal transition on a journal without faults.\<close>

lemma transition_moves:
  assumes "healthy j" "op_at j pid op" "can_transition (op_stage op) to"
  shows "\<exists>j'. transition pid to txid err j = (j', Ok (op_stage op)) \<and> healthy j' \<and> only_at pid j j'
    \<and> op_at j' pid (op\<lparr>op_stage := to, op_txid := coalesce txid (op_txid op),
        op_last_error := coalesce err (op_last_error op)\<rparr>)"
proof -
  let ?j = "j\<lparr>jn_rows := update_row pid (move_row to txid err (jn_clock j)) (jn_rows j)\<rparr>"
  obtain r where r: "find_row (jn_rows j) pid = Some r" "row_to_operation r = Ok op"
    using assms(2) by (auto simp: op_at_def)
  have t: "transition pid to txid err j = (?j, Ok (op_stage op))"
    using assms(1,3) r row_stage [OF r(2)] by (simp add: transition_Ok_iff healthy_def)
  moreover have "healthy ?j"
    using journal_step_keeps [OF journal_step.move [OF t]] assms(1) by (simp add: healthy_def)
  moreover have "only_at pid j ?j"
    by (simp add: only_at_def find_update_row)
  moreover have "op_at ?j pid (op\<lparr>op_stage := to, op_txid := coalesce txid (op_txid op),
      op_last_error := coalesce err (op_last_error op)\<rparr>)"
    using r move_row_operation [OF r(2)] by (simp add: op_at_def find_update_row)
  ultimately show ?thesis by blast
qed

lemma move_logged_moves:
  assumes "healthy (wl_journal w)" "op_at (wl_journal w) pid op" "can_transition (op_stage op) to"
  shows "\<exists>w' rep' op'. move_logged pid to err rep w = (w', Ok rep') \<and> healthy (wl_journal w')
    \<and> only_at pid (wl_journal w) (wl_journal w') \<and> op_at (wl_journal w') pid op'
    \<and> op_stage op' = to \<and> op_txid op' = op_txid op \<and> pf_expiry op' = pf_expiry op"
proof -
  obtain j' where j': "transition pid to None err (wl_journal w) = (j', Ok (op_stage op))" "healthy j'"
    "only_at pid (wl_journal w) j'" "op_at j' pid (op\<lparr>op_stage := to, op_txid := coalesce None (op_txid op),
        op_last_error := coalesce err (op_last_error op)\<rparr>)"
    using transition_moves [OF assms] by blast
  have "move_logged pid to err rep w = (w\<lparr>wl_journal := j'\<rparr>,
      Ok (rep\<lparr>rp_actions := rp_actions rep @ [\<lparr>ra_plan_id = pid, ra_from = op_stage op, ra_to = to\<rparr>]\<rparr>))"
    using j'(1) by (simp add: move_logged_def bind_step_def journal_do_def)
  then show ?thesis
    using j'(2-4)
    by (intro exI [of _ "w\<lparr>wl_journal := j'\<rparr>"]
        exI [of _ "rep\<lparr>rp_actions := rp_actions rep @ [\<lparr>ra_plan_id = pid, ra_from = op_stage op, ra_to = to\<rparr>]\<rparr>"]
        exI [of _ "op\<lparr>op_stage := to, op_txid := coalesce None (op_txid op), op_last_error := coalesce err (op_last_error op)\<rparr>"])
      (simp add: coalesce_def)
qed

section \<open>Rows to examine\<close>

lemma rows_to_operations_Ok_iff:
  "rows_to_operations rs = Ok ops \<longleftrightarrow> list_all2 (\<lambda>r op. row_to_operation r = Ok op) rs ops"
  by (induction rs arbitrary: ops) (auto simp: list_all2_Cons1)

lemma list_all2_right: "list_all2 P xs ys \<Longrightarrow> y \<in> set ys \<Longrightarrow> \<exists>x \<in> set xs. P x y"
  by (induction rule: list_all2_induct) auto

lemma list_all2_left: "list_all2 P xs ys \<Longrightarrow> x \<in> set xs \<Longrightarrow> \<exists>y \<in> set ys. P x y"
  by (induction rule: list_all2_induct) auto

lemma non_terminal_rows_healthy:
  assumes "healthy j"
  shows "\<exists>ops. non_terminal_rows j = Ok ops"
proof -
  have "\<exists>ops. list_all2 (\<lambda>r op. row_to_operation r = Ok op) rs ops" if "\<forall>r \<in> set rs. row_ok r" for rs
    using that by (induction rs) (auto simp: row_ok_def is_ok_iff list_all2_Cons1)
  then show ?thesis
    using assms by (auto simp: non_terminal_rows_def sql_def healthy_def journal_ok_def rows_to_operations_Ok_iff)
qed

lemma non_terminal_rows_spec:
  assumes "non_terminal_rows j = Ok ops" "journal_ok j"
  shows "distinct (map pf_plan_id ops)"
    and "\<And>op. op \<in> set ops \<longleftrightarrow> op_at j (pf_plan_id op) op \<and> \<not> terminal (op_stage op)"
proof -
  let ?rs = "sort_key jr_created_at (filter (\<lambda>r. jr_stage r \<notin> set terminal_strs) (jn_rows j))"
  have all: "list_all2 (\<lambda>r op. row_to_operation r = Ok op) ?rs ops"
    using assms(1) by (auto simp: non_terminal_rows_def rows_to_operations_Ok_iff)
  have dist: "distinct (map jr_plan_id (jn_rows j))" using assms(2) by (simp add: journal_ok_def)
  have "map pf_plan_id ops = map jr_plan_id ?rs"
    using all by (induction) (auto dest: row_to_operation_id)
  moreover have "distinct (map jr_plan_id ?rs)"
    using dist by (auto simp: distinct_map intro: inj_on_subset)
  ultimately show "distinct (map pf_plan_id ops)" by simp
  fix op
  have in_rs: "r \<in> set ?rs \<longleftrightarrow> r \<in> set (jn_rows j) \<and> jr_stage r \<notin> set terminal_strs" for r by auto
  show "op \<in> set ops \<longleftrightarrow> op_at j (pf_plan_id op) op \<and> \<not> terminal (op_stage op)"
  proof
    assume "op \<in> set ops"
    then obtain r where r: "r \<in> set ?rs" "row_to_operation r = Ok op"
      using list_all2_right [OF all] by blast
    then have "find_row (jn_rows j) (pf_plan_id op) = Some r"
      using find_row_distinct [OF dist] row_to_operation_id [OF r(2)] in_rs by metis
    then show "op_at j (pf_plan_id op) op \<and> \<not> terminal (op_stage op)"
      using r in_rs row_stage [OF r(2)] terminal_str by (auto simp: op_at_def)
  next
    assume "op_at j (pf_plan_id op) op \<and> \<not> terminal (op_stage op)"
    then obtain r where r: "find_row (jn_rows j) (pf_plan_id op) = Some r" "row_to_operation r = Ok op"
      "\<not> terminal (op_stage op)" by (auto simp: op_at_def)
    then have "r \<in> set ?rs"
      using find_row_Some [OF r(1)] row_stage [OF r(2)] terminal_str in_rs by simp
    then obtain op' where "op' \<in> set ops" "row_to_operation r = Ok op'"
      using list_all2_left [OF all] by blast
    then show "op \<in> set ops" using r(2) by simp
  qed
qed

section \<open>One row\<close>

text \<open>The stage a broadcast-phase row ends in, given what the node says.\<close>

definition resolved :: "canonical_tip \<Rightarrow> operation_row \<Rightarrow> tx_status \<Rightarrow> journal_stage" where
  "resolved tip op observed =
     (case observed of
        MinedAt _ \<Rightarrow> Mined
      | InMempool \<Rightarrow> BroadcastAccepted
      | Absent \<Rightarrow>
          if definitely_expired op tip then Expired
          else if op_stage op = Broadcasting then BroadcastUnknown
          else op_stage op)"

text \<open>A row that another pass would leave alone.\<close>

definition settled :: "(string \<Rightarrow> (string, tx_status) result) \<Rightarrow> canonical_tip \<Rightarrow> operation_row \<Rightarrow> bool" where
  "settled st tip op \<longleftrightarrow>
     (broadcast_phase (op_stage op) \<longrightarrow>
       (case op_txid op of
          None \<Rightarrow> True
        | Some txid \<Rightarrow> (\<forall>observed. st txid = Ok observed \<longrightarrow> resolved tip op observed = op_stage op)))"

locale chain_state =
  fixes env :: "'w wallet_env" and st :: "string \<Rightarrow> (string, tx_status) result"
  assumes status: "snd (we_status env txid x) = st txid"
    and release: "snd (we_release env pid x) = Ok ()"
begin

lemma release_ok: "\<exists>w'. release_plan env pid w = (w', Ok ()) \<and> wl_journal w' = wl_journal w"
proof -
  obtain w' r where run: "release_plan env pid w = (w', r)" by fastforce
  then have "r = snd (we_release env pid (wl_world w))"
    by (cases "we_release env pid (wl_world w)") (auto simp: release_plan_def world_do_def)
  then have "r = Ok ()" by (simp add: release)
  then show ?thesis using run release_plan_fields [OF run] by simp
qed

lemma status_now:
  "\<exists>w'. world_do (we_status env txid) w = (w', st txid) \<and> wl_journal w' = wl_journal w \<and> wl_events w' = wl_events w"
proof -
  obtain w' r where run: "world_do (we_status env txid) w = (w', r)" by fastforce
  then have "r = snd (we_status env txid (wl_world w))"
    by (cases "we_status env txid (wl_world w)") (auto simp: world_do_def)
  then have "r = st txid" by (simp add: status)
  then show ?thesis using run world_do_fields [OF run] by simp
qed

lemma broadcast_phase_moves:
  assumes "broadcast_phase s"
  shows "can_transition s Mined" "can_transition s BroadcastAccepted" "can_transition BroadcastUnknown Expired"
    "s = Broadcasting \<Longrightarrow> can_transition s BroadcastUnknown" "s \<noteq> Broadcasting \<Longrightarrow> can_transition s Expired"
  using assms by (auto simp: broadcast_phase_def can_transition_def stage_edges_def)

lemma resolve_absent_law:
  assumes "healthy (wl_journal w)" "op_at (wl_journal w) pid op" "broadcast_phase (op_stage op)" "op_txid op = Some txid"
  shows "\<exists>w' rep' op'. resolve_absent env tip op rep w = (w', Ok rep') \<and> healthy (wl_journal w')
    \<and> only_at pid (wl_journal w) (wl_journal w') \<and> op_at (wl_journal w') pid op'
    \<and> op_stage op' = resolved tip op Absent \<and> op_txid op' = op_txid op \<and> pf_expiry op' = pf_expiry op"
proof -
  have pid: "pf_plan_id op = pid" by (rule op_at_id [OF assms(2)])
  note moves = broadcast_phase_moves [OF assms(3)]
  show ?thesis
  proof (cases "definitely_expired op tip")
    case False
    show ?thesis
    proof (cases "op_stage op = Broadcasting")
      case True
      let ?err = "Some ''absent after restart; send outcome unknown''"
      obtain w' rep' op' where m: "move_logged pid BroadcastUnknown ?err rep w = (w', Ok rep')" "healthy (wl_journal w')"
        "only_at pid (wl_journal w) (wl_journal w')" "op_at (wl_journal w') pid op'"
        "op_stage op' = BroadcastUnknown" "op_txid op' = op_txid op" "pf_expiry op' = pf_expiry op"
        using move_logged_moves [OF assms(1,2) moves(4) [OF True]] by blast
      have "resolve_absent env tip op rep w
          = (w', Ok (rep'\<lparr>rp_still_unknown := rp_still_unknown rep' @ [pid]\<rparr>))"
        using False True m(1) by (simp add: resolve_absent_def Let_def pid bind_step_Ok)
      then show ?thesis
        using m False True by (auto simp: resolved_def)
    next
      case other: False
      then show ?thesis
        using False assms(1,2) by (auto simp: resolve_absent_def Let_def pid resolved_def)
    qed
  next
    case True
    define first :: "('w wallet, string, reconcile_report) step" where "first = (if op_stage op = Broadcasting then move_logged pid BroadcastUnknown None rep
        else return_step rep)"
    have "\<exists>w1 rep1 op1. first w = (w1, Ok rep1) \<and> healthy (wl_journal w1) \<and> only_at pid (wl_journal w) (wl_journal w1)
      \<and> op_at (wl_journal w1) pid op1 \<and> can_transition (op_stage op1) Expired
      \<and> op_txid op1 = op_txid op \<and> pf_expiry op1 = pf_expiry op"
    proof (cases "op_stage op = Broadcasting")
      case True
      then show ?thesis
        using move_logged_moves [OF assms(1,2) moves(4) [OF True], of None rep] moves(3)
        unfolding first_def by auto metis
    next
      case False
      then show ?thesis using assms(1,2) moves(5) by (auto simp: first_def)
    qed
    then obtain w1 rep1 op1 where 1: "first w = (w1, Ok rep1)" "healthy (wl_journal w1)"
      "only_at pid (wl_journal w) (wl_journal w1)" "op_at (wl_journal w1) pid op1"
      "can_transition (op_stage op1) Expired" "op_txid op1 = op_txid op" "pf_expiry op1 = pf_expiry op"
      by blast
    obtain w2 rep2 op2 where 2: "move_logged pid Expired (Some ''absent past expiry + margin'') rep1 w1 = (w2, Ok rep2)"
      "healthy (wl_journal w2)" "only_at pid (wl_journal w1) (wl_journal w2)" "op_at (wl_journal w2) pid op2"
      "op_stage op2 = Expired" "op_txid op2 = op_txid op1" "pf_expiry op2 = pf_expiry op1"
      using move_logged_moves [OF 1(2,4,5)] by blast
    obtain w3 where 3: "release_plan env pid w2 = (w3, Ok ())" "wl_journal w3 = wl_journal w2"
      using release_ok by blast
    have "resolve_absent env tip op rep w = (w3, Ok (rep2\<lparr>rp_released := rp_released rep2 @ [pid]\<rparr>))"
      using True 1(1) 2(1) 3(1)
      by (simp add: resolve_absent_def Let_def pid first_def [symmetric] bind_step_Ok)
    then show ?thesis
      using True 1(6,7) 2 3(2) only_at_trans [OF 1(3) 2(3)] by (auto simp: resolved_def)
  qed
qed

lemma reconcile_row_law:
  assumes "healthy (wl_journal w)" "op_at (wl_journal w) pid op"
  shows "\<exists>w' rep' op'. reconcile_row env tip op rep w = (w', Ok rep') \<and> healthy (wl_journal w')
    \<and> only_at pid (wl_journal w) (wl_journal w') \<and> op_at (wl_journal w') pid op' \<and> settled st tip op'"
proof (cases "broadcast_phase (op_stage op) \<and> op_txid op \<noteq> None")
  case False
  then show ?thesis
    using assms by (intro exI [of _ w]) (auto simp: reconcile_row_def settled_def split: option.splits)
next
  case True
  then obtain txid where txid: "op_txid op = Some txid" and phase: "broadcast_phase (op_stage op)" by auto
  have pid: "pf_plan_id op = pid" by (rule op_at_id [OF assms(2)])
  obtain w1 where w1: "world_do (we_status env txid) w = (w1, st txid)" "wl_journal w1 = wl_journal w"
    using status_now by blast
  note here = assms [folded w1(2)]
  note moves = broadcast_phase_moves [OF phase]
  show ?thesis
  proof (cases "st txid")
    case (Inl e)
    then show ?thesis
      using phase txid w1 here by (auto simp: reconcile_row_def settled_def split: option.splits)
  next
    case (Inr observed)
    have row: "reconcile_row env tip op rep w = resolve_row env tip op observed rep w1"
      using phase txid w1(1) Inr by (simp add: reconcile_row_def)
    show ?thesis
    proof (cases observed)
      case (MinedAt h)
      have "op_stage op \<noteq> Mined" using phase by (auto simp: broadcast_phase_def)
      moreover obtain w' rep' op' where m: "move_logged pid Mined None rep w1 = (w', Ok rep')"
        "healthy (wl_journal w')" "only_at pid (wl_journal w1) (wl_journal w')" "op_at (wl_journal w') pid op'"
        "op_stage op' = Mined"
        using move_logged_moves [OF here moves(1)] by blast
      moreover have "settled st tip op'"
        using m(5) by (simp add: settled_def broadcast_phase_def)
      ultimately show ?thesis
        using MinedAt w1(2) unfolding row by (auto simp: resolve_row_def pid)
    next
      case InMempool
      show ?thesis
      proof (cases "op_stage op = BroadcastAccepted")
        case True
        then show ?thesis
          using InMempool here txid Inr w1(2) unfolding row
          by (auto simp: resolve_row_def settled_def resolved_def)
      next
        case False
        obtain w' rep' op' where m: "move_logged pid BroadcastAccepted None rep w1 = (w', Ok rep')"
          "healthy (wl_journal w')" "only_at pid (wl_journal w1) (wl_journal w')" "op_at (wl_journal w') pid op'"
          "op_stage op' = BroadcastAccepted" "op_txid op' = op_txid op"
          using move_logged_moves [OF here moves(2)] by blast
        then have "settled st tip op'"
          using InMempool txid Inr by (simp add: settled_def resolved_def)
        then show ?thesis
          using m InMempool w1(2) False unfolding row by (auto simp: resolve_row_def pid)
      qed
    next
      case Absent
      obtain w' rep' op' where r: "resolve_absent env tip op rep w1 = (w', Ok rep')" "healthy (wl_journal w')"
        "only_at pid (wl_journal w1) (wl_journal w')" "op_at (wl_journal w') pid op'"
        "op_stage op' = resolved tip op Absent" "op_txid op' = op_txid op" "pf_expiry op' = pf_expiry op"
        using resolve_absent_law [OF here phase txid] by blast
      then have "settled st tip op'"
        using txid Inr Absent
        by (auto simp: settled_def resolved_def definitely_expired_def broadcast_phase_def split: if_splits)
      then show ?thesis
        using r w1(2) Absent unfolding row by (auto simp: resolve_row_def)
    qed
  qed
qed

section \<open>All rows\<close>

lemma reconcile_rows_law:
  assumes "healthy (wl_journal w)" "distinct (map pf_plan_id ops)"
    and "\<forall>op \<in> set ops. op_at (wl_journal w) (pf_plan_id op) op"
  shows "\<exists>w' rep'. reconcile_rows env tip ops rep w = (w', Ok rep') \<and> healthy (wl_journal w')
    \<and> (\<forall>pid. pid \<notin> pf_plan_id ` set ops \<longrightarrow> find_row (jn_rows (wl_journal w')) pid = find_row (jn_rows (wl_journal w)) pid)
    \<and> (\<forall>op \<in> set ops. \<exists>op'. op_at (wl_journal w') (pf_plan_id op) op' \<and> settled st tip op')"
  using assms
proof (induction ops arbitrary: w rep)
  case (Cons op ops)
  obtain w1 rep1 op1 where 1: "reconcile_row env tip op rep w = (w1, Ok rep1)" "healthy (wl_journal w1)"
    "only_at (pf_plan_id op) (wl_journal w) (wl_journal w1)" "op_at (wl_journal w1) (pf_plan_id op) op1" "settled st tip op1"
    using reconcile_row_law [OF Cons.prems(1), of "pf_plan_id op" op tip rep] Cons.prems(3) by auto
  have "\<forall>op' \<in> set ops. op_at (wl_journal w1) (pf_plan_id op') op'"
  proof
    fix op' assume "op' \<in> set ops"
    then have mem: "pf_plan_id op' \<in> pf_plan_id ` set ops" by (rule imageI)
    have "pf_plan_id op \<notin> pf_plan_id ` set ops" using Cons.prems(2) by simp
    then have "pf_plan_id op' \<noteq> pf_plan_id op" using mem by metis
    moreover have "op_at (wl_journal w) (pf_plan_id op') op'" using Cons.prems(3) \<open>op' \<in> set ops\<close> by simp
    ultimately show "op_at (wl_journal w1) (pf_plan_id op') op'"
      using op_at_other [OF 1(3)] by simp
  qed
  then obtain w' rep' where 2: "reconcile_rows env tip ops rep1 w1 = (w', Ok rep')" "healthy (wl_journal w')"
    "\<forall>pid. pid \<notin> pf_plan_id ` set ops \<longrightarrow> find_row (jn_rows (wl_journal w')) pid = find_row (jn_rows (wl_journal w1)) pid"
    "\<forall>op \<in> set ops. \<exists>op'. op_at (wl_journal w') (pf_plan_id op) op' \<and> settled st tip op'"
    using Cons.IH [OF 1(2), of rep1] Cons.prems(2) by force
  have "op_at (wl_journal w') (pf_plan_id op) op1"
    using 1(4) 2(3) Cons.prems(2) by (simp add: op_at_def)
  then show ?case
    using 1 2 by (auto simp: bind_step_Ok only_at_def)
qed simp

lemma reconcile_row_quiet:
  assumes "settled st tip op"
  shows "\<exists>w' rep'. reconcile_row env tip op rep w = (w', Ok rep') \<and> wl_journal w' = wl_journal w
    \<and> wl_events w' = wl_events w \<and> rp_actions rep' = rp_actions rep \<and> rp_released rep' = rp_released rep"
proof (cases "broadcast_phase (op_stage op) \<and> op_txid op \<noteq> None")
  case False
  then show ?thesis by (auto simp: reconcile_row_def add_error_def split: option.splits)
next
  case True
  then obtain txid where txid: "op_txid op = Some txid" and phase: "broadcast_phase (op_stage op)" by auto
  obtain w1 where w1: "world_do (we_status env txid) w = (w1, st txid)" "wl_journal w1 = wl_journal w" "wl_events w1 = wl_events w"
    using status_now by blast
  show ?thesis
  proof (cases "st txid")
    case (Inl e)
    then show ?thesis using phase txid w1 by (simp add: reconcile_row_def add_error_def)
  next
    case (Inr observed)
    then have "resolved tip op observed = op_stage op"
      using assms phase txid by (simp add: settled_def)
    then have "\<exists>rep'. resolve_row env tip op observed rep w1 = (w1, Ok rep')
        \<and> rp_actions rep' = rp_actions rep \<and> rp_released rep' = rp_released rep"
      using phase
      by (cases observed)
        (auto simp: resolve_row_def resolved_def broadcast_phase_def resolve_absent_def Let_def split: if_splits)
    then show ?thesis using phase txid w1 Inr by (auto simp: reconcile_row_def)
  qed
qed

lemma reconcile_rows_quiet:
  assumes "\<forall>op \<in> set ops. settled st tip op"
  shows "\<exists>w' rep'. reconcile_rows env tip ops rep w = (w', Ok rep') \<and> wl_journal w' = wl_journal w
    \<and> wl_events w' = wl_events w \<and> rp_actions rep' = rp_actions rep \<and> rp_released rep' = rp_released rep"
  using assms
proof (induction ops arbitrary: w rep)
  case (Cons op ops)
  then obtain w1 rep1 where 1: "reconcile_row env tip op rep w = (w1, Ok rep1)" "wl_journal w1 = wl_journal w"
    "wl_events w1 = wl_events w" "rp_actions rep1 = rp_actions rep" "rp_released rep1 = rp_released rep"
    using reconcile_row_quiet [of tip op rep w] by auto
  then show ?case using Cons.IH [of rep1 w1] Cons.prems by (auto simp: bind_step_Ok)
qed simp

lemma reconcile_twice:
  assumes "healthy (wl_journal w)"
  shows "\<exists>w1 rep1 w2 rep2. reconcile env tip w = (w1, Ok rep1) \<and> reconcile env tip w1 = (w2, Ok rep2)
    \<and> rp_actions rep2 = [] \<and> rp_released rep2 = [] \<and> wl_journal w2 = wl_journal w1 \<and> wl_events w2 = wl_events w1"
proof -
  obtain ops where ops: "non_terminal_rows (wl_journal w) = Ok ops"
    using non_terminal_rows_healthy [OF assms] by blast
  have ok: "journal_ok (wl_journal w)" using assms by (simp add: healthy_def)
  have here: "\<forall>op \<in> set ops. op_at (wl_journal w) (pf_plan_id op) op"
    using non_terminal_rows_spec(2) [OF ops ok] by blast
  obtain w1 rep1 where 1: "reconcile_rows env tip ops empty_report w = (w1, Ok rep1)" "healthy (wl_journal w1)"
    "\<forall>pid. pid \<notin> pf_plan_id ` set ops \<longrightarrow> find_row (jn_rows (wl_journal w1)) pid = find_row (jn_rows (wl_journal w)) pid"
    "\<forall>op \<in> set ops. \<exists>op'. op_at (wl_journal w1) (pf_plan_id op) op' \<and> settled st tip op'"
    using reconcile_rows_law [OF assms non_terminal_rows_spec(1) [OF ops ok] here] by blast
  obtain ops1 where ops1: "non_terminal_rows (wl_journal w1) = Ok ops1"
    using non_terminal_rows_healthy [OF 1(2)] by blast
  have "settled st tip op1" if "op1 \<in> set ops1" for op1
  proof -
    have op1: "op_at (wl_journal w1) (pf_plan_id op1) op1" "\<not> terminal (op_stage op1)"
      using non_terminal_rows_spec(2) [OF ops1] 1(2) that by (simp_all add: healthy_def)
    show ?thesis
    proof (cases "pf_plan_id op1 \<in> pf_plan_id ` set ops")
      case True
      then obtain op' where "op_at (wl_journal w1) (pf_plan_id op1) op'" "settled st tip op'"
        using 1(4) by force
      then show ?thesis using op_at_unique [OF op1(1)] by blast
    next
      case False
      then have "op_at (wl_journal w) (pf_plan_id op1) op1"
        using op1(1) 1(3) by (simp add: op_at_def)
      then have "op1 \<in> set ops" using non_terminal_rows_spec(2) [OF ops ok] op1(2) by blast
      then show ?thesis using False by blast
    qed
  qed
  then obtain w2 rep2 where "reconcile_rows env tip ops1 empty_report w1 = (w2, Ok rep2)" "wl_journal w2 = wl_journal w1"
    "wl_events w2 = wl_events w1" "rp_actions rep2 = []" "rp_released rep2 = []"
    using reconcile_rows_quiet [of ops1 tip empty_report w1] by (auto simp: empty_report_def)
  then show ?thesis
    using ops ops1 1(1) by (simp add: reconcile_def bind_step_def journal_do_def)
qed

end

interpretation stable_zebra: chain_state "zebra_env (\<lambda>m ps x. (x, answer m ps)) tip (\<lambda>pid x. (f pid x, Ok ()))"
    "\<lambda>txid. tx_status_of (answer ''getrawtransaction'' [JStr txid, JInt 1])" for answer tip f
  by unfold_locales (simp_all add: zebra_env_def)

text \<open>C16. On a journal as the operations leave it, without database faults, and a node whose answers
  do not change: reconciliation succeeds (it attempts no illegal transition), and a second
  pass makes no transition and releases no lock.\<close>

theorem reconcile_idempotent:
  assumes "journal_step\<^sup>*\<^sup>* journal_new (wl_journal w)" "jn_fault (wl_journal w) = (\<lambda>_. None)"
    and "\<forall>txid x. snd (we_status env txid x) = st txid" "\<forall>pid x. snd (we_release env pid x) = Ok ()"
  shows "\<exists>w1 rep1 w2 rep2. reconcile env tip w = (w1, Ok rep1) \<and> reconcile env tip w1 = (w2, Ok rep2)
    \<and> rp_actions rep2 = [] \<and> rp_released rep2 = [] \<and> wl_journal w2 = wl_journal w1 \<and> wl_events w2 = wl_events w1"
proof -
  have "chain_state env st" using assms(3,4) by (simp add: chain_state_def)
  moreover have "healthy (wl_journal w)"
    using journal_steps_keep [OF assms(1)] assms(2) by (simp add: healthy_def)
  ultimately show ?thesis by (rule chain_state.reconcile_twice)
qed

lemma reconcile_idempotent_witness:
  "\<exists>w1 rep1 w2 rep2.
    reconcile (demo_env (Ambiguous []) Absent) \<lparr>ct_height = 7, ct_hash = fill32 7\<rparr> (demo_wallet Broadcasting (Some ''t'') None [])
      = (w1, Ok rep1)
    \<and> reconcile (demo_env (Ambiguous []) Absent) \<lparr>ct_height = 7, ct_hash = fill32 7\<rparr> w1 = (w2, Ok rep2)
    \<and> rp_actions rep2 = [] \<and> wl_journal w2 = wl_journal w1"
proof -
  let ?env = "demo_env (Ambiguous []) Absent"
  have "journal_step\<^sup>*\<^sup>* journal_new (wl_journal (demo_wallet Broadcasting (Some ''t'') None []))"
    "jn_fault (wl_journal (demo_wallet Broadcasting (Some ''t'') None [])) = (\<lambda>_. None)"
    using demo_reached by (simp_all add: demo_wallet_def) (simp add: journal_new_def)
  moreover have "\<forall>txid x. snd (we_status ?env txid x) = Ok Absent" "\<forall>pid x. snd (we_release ?env pid x) = Ok ()"
    by (simp_all add: demo_env_def)
  ultimately show ?thesis
    using reconcile_idempotent [of "demo_wallet Broadcasting (Some ''t'') None []" ?env "\<lambda>_. Ok Absent"
        "\<lparr>ct_height = 7, ct_hash = fill32 7\<rparr>"] by blast
qed

end
