(* ===== verification/Recovery_Props.thy ===== *)
theory Recovery_Props
  imports Reconcile_Props
begin

text \<open>
  Startup recovery releases note locks only where nothing can be in flight.
\<close>

section \<open>What a step may change\<close>

text \<open>A journal in order whose rows of the broadcast phase are those of an earlier journal.\<close>

definition phase_from :: "journal \<Rightarrow> journal \<Rightarrow> bool" where
  "phase_from j0 j \<longleftrightarrow> journal_ok j \<and> (\<forall>pid op. op_at j pid op \<longrightarrow> broadcast_phase (op_stage op) \<longrightarrow> op_at j0 pid op)"

lemma phase_from_refl [simp]: "phase_from j j \<longleftrightarrow> journal_ok j"
  by (simp add: phase_from_def)

lemma recovery_move_fields:
  assumes "recovery_move pid to err rep w = (w', r)" "\<not> broadcast_phase to"
  shows "wl_events w' = wl_events w" "is_ok r \<Longrightarrow> row_stage_is (jn_rows (wl_journal w')) pid to"
    "phase_from j0 (wl_journal w) \<Longrightarrow> phase_from j0 (wl_journal w')"
proof -
  have "wl_events w' = wl_events w \<and> (is_ok r \<longrightarrow> row_stage_is (jn_rows (wl_journal w')) pid to)
    \<and> (phase_from j0 (wl_journal w) \<longrightarrow> phase_from j0 (wl_journal w'))"
    using assms(1) unfolding recovery_move_def
  proof (cases rule: bind_stepE)
    case (failed e)
    then show ?thesis by (auto dest: journal_move_Err)
  next
    case (ok w1 s)
    obtain row where row: "find_row (jn_rows (wl_journal w)) pid = Some row"
      "wl_journal w1 = (wl_journal w)\<lparr>jn_rows :=
        update_row pid (move_row to None err (jn_clock (wl_journal w))) (jn_rows (wl_journal w))\<rparr>"
      using journal_move_Ok [OF ok(1)] by auto
    have "op_at (wl_journal w) pid' op" if "op_at (wl_journal w1) pid' op" "broadcast_phase (op_stage op)" for pid' op
    proof (cases "pid' = pid")
      case True
      then have "op_stage op = to"
        using that(1) row by (auto simp: op_at_def find_update_row move_row_def dest!: row_stage)
      then show ?thesis using that(2) assms(2) by simp
    next
      case False
      then show ?thesis using that(1) row by (simp add: op_at_def find_update_row)
    qed
    moreover have "journal_ok (wl_journal w1)" if "journal_ok (wl_journal w)"
      using ok(1) that journal_step_keeps [OF journal_step.move] by (auto elim!: journal_doE)
    ultimately show ?thesis
      using ok(2) journal_move_stage [OF ok(1)] by (auto simp: phase_from_def)
  qed
  then show "wl_events w' = wl_events w" "is_ok r \<Longrightarrow> row_stage_is (jn_rows (wl_journal w')) pid to"
    "phase_from j0 (wl_journal w) \<Longrightarrow> phase_from j0 (wl_journal w')" by blast+
qed

text \<open>A release is the step after a move to \<open>Cancelled\<close>.\<close>

lemma release_logged_fields:
  assumes "release_logged env pid rep w = (w', r)"
  shows "wl_journal w' = wl_journal w" "wl_events w' = wl_events w @ [Released pid (jn_rows (wl_journal w))]"
  using assms by (auto simp: release_logged_def elim!: bind_stepE dest: release_plan_fields)

definition cancelled_release :: "string \<Rightarrow> wallet_event list \<Rightarrow> bool" where
  "cancelled_release pid es \<longleftrightarrow> es = [] \<or> (\<exists>rows. es = [Released pid rows] \<and> row_stage_is rows pid Cancelled)"

lemma cancel_then_release:
  assumes "bind_step (recovery_move pid Cancelled err rep) (\<lambda>rep. if b then release_logged env pid rep else return_step rep) w = (w', r)"
  shows "\<exists>es. wl_events w' = wl_events w @ es \<and> cancelled_release pid es" "phase_from j0 (wl_journal w) \<Longrightarrow> phase_from j0 (wl_journal w')"
proof -
  have c: "\<not> broadcast_phase Cancelled" by (simp add: broadcast_phase_def)
  have "(\<exists>es. wl_events w' = wl_events w @ es \<and> cancelled_release pid es)
    \<and> (phase_from j0 (wl_journal w) \<longrightarrow> phase_from j0 (wl_journal w'))"
    using assms
  proof (cases rule: bind_stepE)
    case (failed e)
    then show ?thesis using recovery_move_fields [OF failed(1) c] by (auto simp: cancelled_release_def)
  next
    case (ok w1 rep1)
    note moved = recovery_move_fields [OF ok(1) c]
    show ?thesis
    proof (cases b)
      case True
      then have "release_logged env pid rep1 w1 = (w', r)" using ok(2) by simp
      from release_logged_fields [OF this] show ?thesis using moved by (simp add: cancelled_release_def)
    next
      case False
      then show ?thesis using ok(2) moved by (simp add: cancelled_release_def)
    qed
  qed
  then show "\<exists>es. wl_events w' = wl_events w @ es \<and> cancelled_release pid es"
    "phase_from j0 (wl_journal w) \<Longrightarrow> phase_from j0 (wl_journal w')" by blast+
qed

section \<open>Recovery of a row\<close>

text \<open>Stages of a plan for which no signature has ever existed.\<close>

definition unsigned_stage :: "journal_stage \<Rightarrow> bool" where
  "unsigned_stage s \<longleftrightarrow> s \<in> {Planned, Reserved, Proving, Proven}"

definition row_events_ok :: "operation_row \<Rightarrow> wallet_event list \<Rightarrow> bool" where
  "row_events_ok op es \<longleftrightarrow> es = [] \<or> unsigned_stage (op_stage op) \<and> cancelled_release (pf_plan_id op) es"

lemma move_only:
  assumes "bind_step (recovery_move pid to err rep) (\<lambda>rep. return_step (f rep)) w = (w', r)" "\<not> broadcast_phase to"
  shows "wl_events w' = wl_events w" "phase_from j0 (wl_journal w) \<Longrightarrow> phase_from j0 (wl_journal w')"
  using assms(1) by (auto elim!: bind_stepE dest: recovery_move_fields [OF _ assms(2)])

lemma recover_row_fields:
  assumes "recover_row hx sha env locks tip op rep w = (w', r)"
  shows "(\<exists>es. wl_events w' = wl_events w @ es \<and> row_events_ok op es)
    \<and> (phase_from j0 (wl_journal w) \<longrightarrow> phase_from j0 (wl_journal w'))"
proof -
  let ?goal = "(\<exists>es. wl_events w' = wl_events w @ es \<and> row_events_ok op es)
    \<and> (phase_from j0 (wl_journal w) \<longrightarrow> phase_from j0 (wl_journal w'))"
  have nb: "\<not> broadcast_phase Cancelled" "\<not> broadcast_phase Reserved" "\<not> broadcast_phase Expired"
    by (simp_all add: broadcast_phase_def)
  have plain: ?goal if "recovery_move pid to err rep w = (w', r)" "\<not> broadcast_phase to" for pid to err
    using recovery_move_fields [OF that] by (auto simp: row_events_ok_def)
  have same: ?goal if "w' = w" using that by (auto simp: row_events_ok_def)
  have cancel: ?goal if "bind_step (recovery_move (pf_plan_id op) Cancelled err rep)
      (\<lambda>rep. if b then release_logged env (pf_plan_id op) rep else return_step rep) w = (w', r)"
    "unsigned_stage (op_stage op)" for b err
    using cancel_then_release [OF that(1)] that(2) by (auto simp: row_events_ok_def)
  have cancel1: ?goal if "bind_step (recovery_move (pf_plan_id op) Cancelled err rep)
      (release_logged env (pf_plan_id op)) w = (w', r)" "unsigned_stage (op_stage op)" for err
    using cancel [where b = True, simplified, OF that] .
  have signed: ?goal if "recover_signed op held rep w = (w', r)" for held
    using move_only [OF that [unfolded recover_signed_def] nb(1)] by (auto simp: row_events_ok_def)
  show ?thesis
    using assms plain [OF _ nb(1)] plain [OF _ nb(2)] plain [OF _ nb(3)] same cancel cancel1 signed
    unfolding recover_row_def recover_planned_def recover_reserved_def recover_proving_def Let_def
    by (cases "op_stage op") (simp_all add: unsigned_stage_def split: if_splits)
qed

lemma recover_rows_fields:
  assumes "recover_rows hx sha env locks tip ops rep w = (w', r)"
  shows "(\<exists>es. wl_events w' = wl_events w @ es
      \<and> (\<forall>e \<in> set es. \<exists>op \<in> set ops. unsigned_stage (op_stage op) \<and> cancelled_release (pf_plan_id op) [e]))
    \<and> (phase_from j0 (wl_journal w) \<longrightarrow> phase_from j0 (wl_journal w'))"
  using assms
proof (induction ops arbitrary: w rep)
  case (Cons op ops)
  obtain w1 r1 where 1: "recover_row hx sha env locks tip op rep w = (w1, r1)" by fastforce
  obtain es1 where es1: "wl_events w1 = wl_events w @ es1" "row_events_ok op es1"
    "phase_from j0 (wl_journal w) \<longrightarrow> phase_from j0 (wl_journal w1)"
    using recover_row_fields [OF 1] by blast
  have e1: "\<forall>e \<in> set es1. unsigned_stage (op_stage op) \<and> cancelled_release (pf_plan_id op) [e]"
    using es1(2) by (auto simp: row_events_ok_def cancelled_release_def)
  show ?case
  proof (cases r1)
    case (Inl x)
    then show ?thesis using Cons.prems 1 es1 e1 by (auto simp: bind_step_Err)
  next
    case (Inr rep1)
    then have "recover_rows hx sha env locks tip ops rep1 w1 = (w', r)"
      using Cons.prems 1 by (simp add: bind_step_Ok)
    from Cons.IH [OF this] obtain es2 where "wl_events w' = wl_events w1 @ es2"
      "\<forall>e \<in> set es2. \<exists>op \<in> set ops. unsigned_stage (op_stage op) \<and> cancelled_release (pf_plan_id op) [e]"
      "phase_from j0 (wl_journal w1) \<longrightarrow> phase_from j0 (wl_journal w')"
      by blast
    then show ?thesis
      using es1 e1 by (intro conjI exI [of _ "es1 @ es2"]) auto
  qed
qed simp

section \<open>Reconciliation of a row\<close>

definition expired_release :: "'w wallet_env \<Rightarrow> canonical_tip \<Rightarrow> operation_row \<Rightarrow> wallet_event \<Rightarrow> bool" where
  "expired_release env tip op e \<longleftrightarrow>
     broadcast_phase (op_stage op) \<and> definitely_expired op tip
     \<and> (\<exists>txid x. op_txid op = Some txid \<and> snd (we_status env txid x) = Ok Absent)
     \<and> (\<exists>rows. e = Released (pf_plan_id op) rows \<and> row_stage_is rows (pf_plan_id op) Expired)"

lemma move_logged_fields:
  assumes "move_logged pid to err rep w = (w', r)"
  shows "wl_events w' = wl_events w \<and> (is_ok r \<longrightarrow> row_stage_is (jn_rows (wl_journal w')) pid to)"
  using assms unfolding move_logged_def
proof (cases rule: bind_stepE)
  case (ok w1 s)
  then show ?thesis using journal_move_stage [OF ok(1)] by auto
qed (auto dest: journal_move_Err)

lemma resolve_absent_fields:
  assumes "resolve_absent env tip op rep w = (w', r)"
  shows "wl_events w' = wl_events w
    \<or> definitely_expired op tip \<and> (\<exists>rows. wl_events w' = wl_events w @ [Released (pf_plan_id op) rows]
        \<and> row_stage_is rows (pf_plan_id op) Expired)"
proof (cases "definitely_expired op tip")
  case False
  then show ?thesis
    using assms by (auto simp: resolve_absent_def Let_def elim!: bind_stepE dest!: move_logged_fields split: if_splits)
next
  case True
  let ?pid = "pf_plan_id op"
  have "bind_step (if op_stage op = Broadcasting then move_logged ?pid BroadcastUnknown None rep else return_step rep)
      (\<lambda>rep. bind_step (move_logged ?pid Expired (Some ''absent past expiry + margin'') rep) (\<lambda>rep.
        bind_step (release_plan env ?pid) (\<lambda>_. return_step (rep\<lparr>rp_released := rp_released rep @ [?pid]\<rparr>)))) w = (w', r)"
    using assms True by (simp add: resolve_absent_def Let_def)
  then show ?thesis
  proof (cases rule: bind_stepE)
    case (failed e)
    then show ?thesis by (auto dest!: move_logged_fields split: if_splits)
  next
    case (ok w1 rep1)
    have 1: "wl_events w1 = wl_events w" using ok(1) by (auto dest!: move_logged_fields split: if_splits)
    from ok(2) show ?thesis
    proof (cases rule: bind_stepE)
      case (failed e)
      then show ?thesis using 1 by (auto dest!: move_logged_fields)
    next
      case (ok w2 rep2)
      from ok(2) show ?thesis
        by (rule bind_stepE)
          (use move_logged_fields [OF ok(1)] 1 True in \<open>auto dest!: release_plan_fields\<close>)
    qed
  qed
qed

lemma reconcile_row_fields:
  assumes "reconcile_row env tip op rep w = (w', r)"
  shows "\<exists>es. wl_events w' = wl_events w @ es \<and> (\<forall>e \<in> set es. expired_release env tip op e)"
proof (cases "broadcast_phase (op_stage op) \<and> op_txid op \<noteq> None")
  case False
  then have "wl_events w' = wl_events w"
    using assms by (auto simp: reconcile_row_def split: option.splits if_splits)
  then show ?thesis by simp
next
  case True
  then obtain txid where txid: "op_txid op = Some txid" by auto
  obtain w1 r1 where s: "world_do (we_status env txid) w = (w1, r1)" by fastforce
  note s1 = world_do_fields [OF s]
  show ?thesis
  proof (cases r1)
    case (Inl x)
    then show ?thesis using assms True txid s s1 by (auto simp: reconcile_row_def)
  next
    case (Inr observed)
    then have run: "resolve_row env tip op observed rep w1 = (w', r)"
      using assms True txid s by (simp add: reconcile_row_def)
    show ?thesis
    proof (cases "observed = Absent")
      case False
      then show ?thesis
        using run s1 by (cases observed) (auto simp: resolve_row_def dest!: move_logged_fields split: if_splits)
    next
      case absent: True
      have "\<exists>x. snd (we_status env txid x) = Ok Absent"
        using s1 Inr absent by (intro exI [of _ "wl_world w"]) simp
      then show ?thesis
        using run absent resolve_absent_fields [of env tip op rep w1 w' r] s1 True txid
        by (auto simp: resolve_row_def expired_release_def)
    qed
  qed
qed

lemma reconcile_rows_fields:
  assumes "reconcile_rows env tip ops rep w = (w', r)"
  shows "\<exists>es. wl_events w' = wl_events w @ es \<and> (\<forall>e \<in> set es. \<exists>op \<in> set ops. expired_release env tip op e)"
  using assms
proof (induction ops arbitrary: w rep)
  case (Cons op ops)
  obtain w1 r1 where 1: "reconcile_row env tip op rep w = (w1, r1)" by fastforce
  obtain es1 where es1: "wl_events w1 = wl_events w @ es1" "\<forall>e \<in> set es1. expired_release env tip op e"
    using reconcile_row_fields [OF 1] by blast
  show ?case
  proof (cases r1)
    case (Inl x)
    then show ?thesis using Cons.prems 1 es1 by (auto simp: bind_step_Err)
  next
    case (Inr rep1)
    then have "reconcile_rows env tip ops rep1 w1 = (w', r)" using Cons.prems 1 by (simp add: bind_step_Ok)
    from Cons.IH [OF this] obtain es2 where "wl_events w' = wl_events w1 @ es2"
      "\<forall>e \<in> set es2. \<exists>op \<in> set ops. expired_release env tip op e" by blast
    then show ?thesis using es1 by (intro exI [of _ "es1 @ es2"]) auto
  qed
qed simp

section \<open>The pass\<close>

lemma read_rows:
  "bind_step (journal_do (\<lambda>j. (j, non_terminal_rows j))) f w =
     (case non_terminal_rows (wl_journal w) of Err e \<Rightarrow> (w, Err e) | Ok ops \<Rightarrow> f ops w)"
  by (simp add: bind_step_def journal_do_def split: sum.splits)

lemma recover_rows_releases:
  assumes "recover_rows hx sha env locks tip ops rep w = (w', r)" "non_terminal_rows (wl_journal w) = Ok ops" "journal_ok (wl_journal w)"
  shows "phase_from (wl_journal w) (wl_journal w')
    \<and> (\<exists>es. wl_events w' = wl_events w @ es \<and> (\<forall>e \<in> set es. \<exists>op. op_at (wl_journal w) (pf_plan_id op) op
        \<and> unsigned_stage (op_stage op) \<and> cancelled_release (pf_plan_id op) [e]))"
proof -
  have "op_at (wl_journal w) (pf_plan_id op) op" if "op \<in> set ops" for op
    using non_terminal_rows_spec(2) [OF assms(2,3)] that by blast
  then show ?thesis
    using recover_rows_fields [OF assms(1), of "wl_journal w"] assms(3) by simp blast
qed

lemma reconcile_releases:
  assumes "reconcile env tip w = (w', r)" "phase_from j (wl_journal w)"
  shows "\<exists>es. wl_events w' = wl_events w @ es
    \<and> (\<forall>e \<in> set es. \<exists>op. op_at j (pf_plan_id op) op \<and> expired_release env tip op e)"
proof (cases "non_terminal_rows (wl_journal w)")
  case (Inl x)
  then show ?thesis using assms(1) by (simp add: reconcile_def read_rows)
next
  case (Inr ops)
  then have "reconcile_rows env tip ops empty_report w = (w', r)"
    using assms(1) by (simp add: reconcile_def read_rows)
  from reconcile_rows_fields [OF this] obtain es where es: "wl_events w' = wl_events w @ es"
    "\<forall>e \<in> set es. \<exists>op \<in> set ops. expired_release env tip op e" by blast
  have "op_at j (pf_plan_id op) op" if "op \<in> set ops" "expired_release env tip op e" for op e
    using non_terminal_rows_spec(2) [OF Inr] assms(2) that by (auto simp: phase_from_def expired_release_def)
  then show ?thesis using es by blast
qed

text \<open>Every release of a recovery is one of a cancelled plan or one of an expired transaction.\<close>

lemma startup_recover_releases:
  assumes "startup_recover hx sha env lock_view tip w = (w', r)" "journal_ok (wl_journal w)"
  shows "\<exists>es. wl_events w' = wl_events w @ es \<and> (\<forall>e \<in> set es. \<exists>op. op_at (wl_journal w) (pf_plan_id op) op
    \<and> (unsigned_stage (op_stage op) \<and> cancelled_release (pf_plan_id op) [e] \<or> expired_release env tip op e))"
  using assms(1) unfolding startup_recover_def
proof (cases rule: bind_stepE)
  case (ok w1 locks)
  note w1 = world_do_fields [OF ok(1)]
  show ?thesis
  proof (cases "non_terminal_rows (wl_journal w1)")
    case (Inr ops)
    obtain w2 r2 where rows: "recover_rows hx sha env locks tip ops empty_recovery w1 = (w2, r2)" by fastforce
    note w2 = recover_rows_releases [OF rows Inr]
    show ?thesis
    proof (cases r2)
      case (Inl x)
      then have "w' = w2" using ok(2) Inr rows by (simp add: bind_step_def journal_do_def Let_def)
      then show ?thesis using w1 w2 assms(2) by fastforce
    next
      case r2: (Inr rep)
      obtain w3 r3 where rec: "reconcile env tip w2 = (w3, r3)" by fastforce
      have "w' = w3" using ok(2) Inr rows r2 rec
        by (cases r3) (simp_all add: bind_step_def journal_do_def Let_def)
      moreover obtain es2 where "wl_events w2 = wl_events w @ es2" "\<forall>e \<in> set es2. \<exists>op. op_at (wl_journal w) (pf_plan_id op) op
          \<and> unsigned_stage (op_stage op) \<and> cancelled_release (pf_plan_id op) [e]"
        using w1 w2 assms(2) by auto
      moreover obtain es3 where "wl_events w3 = wl_events w2 @ es3"
          "\<forall>e \<in> set es3. \<exists>op. op_at (wl_journal w) (pf_plan_id op) op \<and> expired_release env tip op e"
        using reconcile_releases [OF rec, of "wl_journal w"] w1 w2 assms(2) by auto
      ultimately show ?thesis by (intro exI [of _ "es2 @ es3"]) (simp add: ball_Un, blast)
    qed
  qed (use ok(2) w1 in \<open>simp add: read_rows\<close>)
qed (auto dest: world_do_fields)

text \<open>C13. Whatever the node, the lock store and the database do during startup recovery, the locks of
  a plan are only released when no signature can exist or the transaction can no longer be
  mined: the row was before signing, or the node does not know its transaction and the tip is
  past its expiry by the reorg margin. The release comes after the row is on disk at
  \<open>Cancelled\<close> or \<open>Expired\<close>, and nothing is sent.\<close>

theorem recovery_release_safe:
  assumes "startup_recover hx sha env lock_view tip w = (w', r)" "journal_ok (wl_journal w)"
  shows "\<exists>es. wl_events w' = wl_events w @ es \<and>
    (\<forall>e \<in> set es. \<exists>pid rows op.
       e = Released pid rows \<and> op_at (wl_journal w) pid op
       \<and> (row_stage_is rows pid Cancelled \<and> op_stage op \<in> {Planned, Reserved, Proving, Proven}
          \<or> row_stage_is rows pid Expired \<and> broadcast_phase (op_stage op) \<and> definitely_expired op tip
             \<and> (\<exists>txid x. op_txid op = Some txid \<and> snd (we_status env txid x) = Ok Absent)))"
proof -
  obtain es where es: "wl_events w' = wl_events w @ es" "\<forall>e \<in> set es. \<exists>op. op_at (wl_journal w) (pf_plan_id op) op
      \<and> (unsigned_stage (op_stage op) \<and> cancelled_release (pf_plan_id op) [e] \<or> expired_release env tip op e)"
    using startup_recover_releases [OF assms] by blast
  have "\<exists>pid rows op. e = Released pid rows \<and> op_at (wl_journal w) pid op
       \<and> (row_stage_is rows pid Cancelled \<and> op_stage op \<in> {Planned, Reserved, Proving, Proven}
          \<or> row_stage_is rows pid Expired \<and> broadcast_phase (op_stage op) \<and> definitely_expired op tip
             \<and> (\<exists>txid x. op_txid op = Some txid \<and> snd (we_status env txid x) = Ok Absent))"
    if "e \<in> set es" for e
    using es(2) that unfolding unsigned_stage_def cancelled_release_def expired_release_def by blast
  then show ?thesis using es(1) by blast
qed

text \<open>A restart at \<open>Proving\<close> with the lock still held.\<close>

lemma demo_row_operation:
  "row_to_operation (demo_row s t e) = Ok (planned_row demo_fields\<lparr>op_stage := s, op_txid := t, op_last_error := e\<rparr>)"
  using move_row_operation [OF new_row_operation, of s t e 0 demo_fields 0]
  by (simp add: demo_row_def planned_row_def coalesce_def split: option.splits)

lemma demo_rows:
  "non_terminal_rows (wl_journal (demo_wallet s t e evs))
     = Ok (if terminal s then [] else [planned_row demo_fields\<lparr>op_stage := s, op_txid := t, op_last_error := e\<rparr>])"
  using terminal_str [of s] by (simp add: non_terminal_rows_def demo_wallet_def sql_def journal_new_def demo_row_operation)

lemma demo_locks:
  "world_do (\<lambda>x. ((), res)) (demo_wallet s t e evs) = (demo_wallet s t e evs, res)"
  by (simp add: world_do_def demo_wallet_def)

lemma recovery_release_safe_witness:
  "\<exists>w' r rows. startup_recover plain_hex (\<lambda>x. fill32 0) (demo_env (Ambiguous []) Absent)
        (\<lambda>x. (x, Ok [\<lparr>lo_output_ref = ''o'', lo_owner_hex = ''w''\<rparr>])) \<lparr>ct_height = 7, ct_hash = fill32 7\<rparr>
        (demo_wallet Proving None None []) = (w', Ok r)
    \<and> wl_events w' = [Released ''p1'' rows] \<and> row_stage_is rows ''p1'' Cancelled"
proof -
  let ?env = "demo_env (Ambiguous []) Absent" and ?tip = "\<lparr>ct_height = 7, ct_hash = fill32 7\<rparr>"
  let ?view = "\<lambda>x. (x, Ok [\<lparr>lo_output_ref = ''o'', lo_owner_hex = ''w''\<rparr>])"
  let ?err = "Some ''restart: pre-signing stage lost with process memory''"
  let ?w = "demo_wallet Cancelled None ?err [Released ''p1'' [demo_row Cancelled None ?err]]"
  have "can_transition Proving Cancelled" by (simp add: can_transition_def stage_edges_def)
  note move = demo_move [OF this, of None ?err]
  have stages: "\<not> terminal Proving" "terminal Cancelled" by (simp_all add: terminal_def)
  have run: "\<exists>r. startup_recover plain_hex (\<lambda>x. fill32 0) ?env ?view ?tip (demo_wallet Proving None None []) = (?w, Ok r)"
    by (simp add: startup_recover_def bind_step_def demo_locks journal_do_def [of "\<lambda>j. (j, non_terminal_rows j)"]
        Let_def demo_rows stages recover_row_def demo_fields_def recover_proving_def recovery_move_def planned_row_def
        move release_logged_def locks_of_def coalesce_def reconcile_def)
  then obtain r where r: "startup_recover plain_hex (\<lambda>x. fill32 0) ?env ?view ?tip (demo_wallet Proving None None []) = (?w, Ok r)" ..
  have ok: "journal_ok (wl_journal (demo_wallet Proving None None []))"
    by (simp add: journal_ok_def row_ok_def demo_wallet_def journal_new_def demo_row_operation)
  have proving: "op_stage op = Proving" if "op_at (wl_journal (demo_wallet Proving None None [])) ''p1'' op" for op
    using that by (auto simp: op_at_def demo_wallet_def demo_row_operation)
  have "wl_events ?w = [Released ''p1'' [demo_row Cancelled None ?err]]" "wl_events (demo_wallet Proving None None []) = []"
    by (simp_all add: demo_wallet_def)
  then show ?thesis
    using recovery_release_safe [OF r ok] r by (fastforce dest: proving simp: broadcast_phase_def)
qed

end
