(* ===== verification/Policy.thy ===== *)
theory Policy
  imports Broadcast Tx_Plan
begin

text \<open>
  What a wallet transaction is planned from: the privacy policies
  (\<open>zalkanes-wallet/src/policy.rs\<close>) and the requests, contexts and pools of
  \<open>zalkanes-wallet/src/funding.rs\<close>.
\<close>

section \<open>Privacy policies\<close>

datatype privacy_policy =
    FullPrivacy | AllowRevealedAmounts | AllowRevealedRecipients | AllowRevealedSenders
  | AllowFullyTransparent | AllowLinkingAccountAddresses | NoPrivacy

text \<open>The derived order: by position in the declaration.\<close>

fun policy_rank :: "privacy_policy \<Rightarrow> nat" where
  "policy_rank FullPrivacy = 0"
| "policy_rank AllowRevealedAmounts = 1"
| "policy_rank AllowRevealedRecipients = 2"
| "policy_rank AllowRevealedSenders = 3"
| "policy_rank AllowFullyTransparent = 4"
| "policy_rank AllowLinkingAccountAddresses = 5"
| "policy_rank NoPrivacy = 6"

lemma policy_rank_inject [simp]: "policy_rank p = policy_rank q \<longleftrightarrow> p = q"
  by (cases p; cases q) simp_all

instantiation privacy_policy :: linorder
begin

definition less_eq_privacy_policy :: "privacy_policy \<Rightarrow> privacy_policy \<Rightarrow> bool" where
  "less_eq_privacy_policy p q \<longleftrightarrow> policy_rank p \<le> policy_rank q"

definition less_privacy_policy :: "privacy_policy \<Rightarrow> privacy_policy \<Rightarrow> bool" where
  "less_privacy_policy p q \<longleftrightarrow> policy_rank p < policy_rank q"

instance
  by standard (auto simp: less_eq_privacy_policy_def less_privacy_policy_def)

end

definition permits :: "privacy_policy \<Rightarrow> privacy_policy \<Rightarrow> bool" where
  "permits granted required \<longleftrightarrow> granted \<ge> required"

fun policy_str :: "privacy_policy \<Rightarrow> string" where
  "policy_str FullPrivacy = ''FullPrivacy''"
| "policy_str AllowRevealedAmounts = ''AllowRevealedAmounts''"
| "policy_str AllowRevealedRecipients = ''AllowRevealedRecipients''"
| "policy_str AllowRevealedSenders = ''AllowRevealedSenders''"
| "policy_str AllowFullyTransparent = ''AllowFullyTransparent''"
| "policy_str AllowLinkingAccountAddresses = ''AllowLinkingAccountAddresses''"
| "policy_str NoPrivacy = ''NoPrivacy''"

fun policy_description :: "privacy_policy \<Rightarrow> string" where
  "policy_description FullPrivacy = ''no additional information revealed''"
| "policy_description AllowRevealedAmounts = ''amounts may be revealed''"
| "policy_description AllowRevealedRecipients = ''shielded recipients may be revealed''"
| "policy_description AllowRevealedSenders = ''shielded senders may be revealed''"
| "policy_description AllowFullyTransparent = ''fully transparent transaction allowed''"
| "policy_description AllowLinkingAccountAddresses = ''account addresses may be linked together''"
| "policy_description NoPrivacy = ''no privacy constraints''"

definition policy_of_str :: "string \<Rightarrow> (string, privacy_policy) result" where
  "policy_of_str s =
     (if s = ''FullPrivacy'' then Ok FullPrivacy
      else if s = ''AllowRevealedAmounts'' then Ok AllowRevealedAmounts
      else if s = ''AllowRevealedRecipients'' then Ok AllowRevealedRecipients
      else if s = ''AllowRevealedSenders'' then Ok AllowRevealedSenders
      else if s = ''AllowFullyTransparent'' then Ok AllowFullyTransparent
      else if s = ''AllowLinkingAccountAddresses'' then Ok AllowLinkingAccountAddresses
      else if s = ''NoPrivacy'' then Ok NoPrivacy
      else Err (''unknown privacy policy '' @ quoted s @ ''; expected one of FullPrivacy, AllowRevealedAmounts, AllowRevealedRecipients, AllowRevealedSenders, AllowFullyTransparent, AllowLinkingAccountAddresses, NoPrivacy''))"

lemma policy_of_str_exact: "policy_of_str s = Ok p \<longleftrightarrow> s = policy_str p"
  by (cases p) (auto simp: policy_of_str_def)

section \<open>Requests\<close>

text \<open>\<open>OutPoint\<close> of librustzcash by its two accessors.\<close>

record outpoint =
  ou_hash :: tx_id
  ou_n :: u32

datatype tx_request =
    ReqPrepare "u64 list"
  | ReqDeploy "bytes list" "outpoint list" "u64 list" bytes
  | ReqCall bytes

fun request_kind :: "tx_request \<Rightarrow> string" where
  "request_kind (ReqPrepare _) = ''prepare''"
| "request_kind (ReqDeploy _ _ _ _) = ''deploy''"
| "request_kind (ReqCall _) = ''call''"

fun op_return_payload :: "tx_request \<Rightarrow> bytes option" where
  "op_return_payload (ReqPrepare _) = None"
| "op_return_payload (ReqDeploy _ _ _ op_return) = Some op_return"
| "op_return_payload (ReqCall op_return) = Some op_return"

definition request_opcode :: "tx_request \<Rightarrow> u8 option" where
  "request_opcode req = Option.bind (op_return_payload req) (\<lambda>p. case p of [] \<Rightarrow> None | b # _ \<Rightarrow> Some b)"

record fund_context =
  fc_network :: network
  fc_chain_tip :: canonical_tip
  fc_target_height :: u32

text \<open>\<open>height + 1\<close> wraps around in the release profile.\<close>

definition fund_context_new :: "network \<Rightarrow> canonical_tip \<Rightarrow> fund_context" where
  "fund_context_new net tip =
     \<lparr>fc_network = net, fc_chain_tip = tip, fc_target_height = ct_height tip + 1\<rparr>"

definition branch_id_for_height :: "(consensus_params \<Rightarrow> u32 \<Rightarrow> 'b) \<Rightarrow> network \<Rightarrow> u32 \<Rightarrow> 'b" where
  "branch_id_for_height for_height net height = for_height (for_network net) height"

record funding_utxo =
  fu_outpoint :: outpoint
  fu_value :: u64

datatype funding_pool = PoolTransparent | PoolShielded | PoolAuto

fun pool_str :: "funding_pool \<Rightarrow> string" where
  "pool_str PoolTransparent = ''transparent''"
| "pool_str PoolShielded = ''shielded''"
| "pool_str PoolAuto = ''auto''"

definition pool_of_str :: "string \<Rightarrow> (string, funding_pool) result" where
  "pool_of_str s =
     (if s = ''transparent'' then Ok PoolTransparent
      else if s = ''shielded'' then Ok PoolShielded
      else if s = ''auto'' then Ok PoolAuto
      else Err (''unknown funding pool '' @ quoted s @ ''; expected transparent, shielded, or auto''))"

lemma pool_of_str_exact: "pool_of_str s = Ok p \<longleftrightarrow> s = pool_str p"
  by (cases p) (auto simp: pool_of_str_def)

end
