(* ===== verification/Plan.thy ===== *)
theory Plan
  imports Policy Indexer
begin

text \<open>
  The staged transaction plan (\<open>zalkanes-wallet/src/plan.rs\<close>) of a transparent plan;
  \<open>Shielded_Verify\<close> has the stages of a shielded one. The hash, the hex text, the random plan
  id and librustzcash's transaction reader are parameters. The stages query the node for the
  canonical tip; they run on the world \<open>'w\<close> and the plan.
\<close>

section \<open>The commitment of a plan\<close>

record plan_input =
  pi_pool :: u8
  pi_txid :: tx_id
  pi_output_index :: u32
  pi_value :: u64

record plan_output =
  po_value :: u64
  po_script :: bytes

record plan_anchor =
  pa_pool :: u8
  pa_height :: u32
  pa_root :: b32

record plan_change =
  pc_value :: u64
  pc_pool :: u8
  pc_destination :: bytes

text \<open>The arguments of \<open>commit_plan\<close>.\<close>

record commitment =
  cm_network :: u8
  cm_protocol_version :: u8
  cm_pool :: u8
  cm_tip_height :: u32
  cm_tip_hash :: b32
  cm_target_height :: u32
  cm_branch_id :: u32
  cm_tx_version :: u8
  cm_expiry_height :: u32
  cm_inputs :: "plan_input list"
  cm_anchors :: "plan_anchor list"
  cm_outputs :: "plan_output list"
  cm_change :: "plan_change option"
  cm_fee :: u64
  cm_payload :: bytes
  cm_kind :: u8

text \<open>\<open>len() as u16\<close> truncates.\<close>

definition len_prefix :: "'a list \<Rightarrow> bytes" where
  "len_prefix xs = u16_to_le_bytes (of_nat (length xs))"

definition input_bytes :: "plan_input \<Rightarrow> bytes" where
  "input_bytes i = [pi_pool i] @ bytes_of (pi_txid i) @ u32_to_le_bytes (pi_output_index i) @ u64_to_le_bytes (pi_value i)"

definition anchor_bytes :: "plan_anchor \<Rightarrow> bytes" where
  "anchor_bytes a = [pa_pool a] @ u32_to_le_bytes (pa_height a) @ bytes_of (pa_root a)"

definition output_bytes :: "plan_output \<Rightarrow> bytes" where
  "output_bytes out = u64_to_le_bytes (po_value out) @ len_prefix (po_script out) @ po_script out"

fun change_bytes :: "plan_change option \<Rightarrow> bytes" where
  "change_bytes (Some c) =
     [1] @ u64_to_le_bytes (pc_value c) @ [pc_pool c] @ len_prefix (pc_destination c) @ pc_destination c"
| "change_bytes None = [0]"

definition commitment_bytes :: "commitment \<Rightarrow> bytes" where
  "commitment_bytes c =
     ascii ''ZALKANES_FUNDING_PLAN_V1'' @ [0]
     @ [cm_network c, cm_protocol_version c, cm_pool c]
     @ u32_to_le_bytes (cm_tip_height c) @ bytes_of (cm_tip_hash c) @ u32_to_le_bytes (cm_target_height c)
     @ u32_to_le_bytes (cm_branch_id c) @ [cm_tx_version c] @ u32_to_le_bytes (cm_expiry_height c)
     @ len_prefix (cm_inputs c) @ concat (map input_bytes (cm_inputs c))
     @ len_prefix (cm_anchors c) @ concat (map anchor_bytes (cm_anchors c))
     @ len_prefix (cm_outputs c) @ concat (map output_bytes (cm_outputs c))
     @ change_bytes (cm_change c) @ u64_to_le_bytes (cm_fee c)
     @ len_prefix (cm_payload c) @ cm_payload c @ [cm_kind c]"

definition commit_plan :: "hex_lib \<Rightarrow> sha \<Rightarrow> commitment \<Rightarrow> string" where
  "commit_plan hx sha c = hex_encode hx (bytes_of (sha (commitment_bytes c)))"

section \<open>The plan\<close>

datatype plan_stage = StagePlanned | StageProven | StageSigned | StageExtracted

record ('k, 'b) transparent_plan =
  tp_prepared :: "('k, outpoint) prepared_tx"
  tp_journal_inputs :: string
  tp_request :: tx_request
  tp_branch_id :: 'b
  tp_target_height :: u32
  tp_canonical_tip :: canonical_tip
  tp_stage :: plan_stage
  tp_signed :: "signed_tx option"
  tp_plan_id :: string
  tp_intent_hash :: string

text \<open>
  A transaction as librustzcash reads it: its version (other versions by their name), expiry,
  and the inputs (previous output and scriptSig) and outputs of its transparent bundle.
\<close>

datatype tx_version = V5 | OtherVersion string

record read_tx =
  rd_version :: tx_version
  rd_expiry :: u32
  rd_transparent :: "((outpoint \<times> bytes) list \<times> spend_output list) option"

record ('k, 'b) wallet_lib =
  wb_hex :: hex_lib
  wb_sha :: sha
  wb_hash160 :: "bytes \<Rightarrow> bytes"
  wb_signing :: "('k, outpoint, 'b) signing_lib"
  wb_for_height :: "consensus_params \<Rightarrow> u32 \<Rightarrow> 'b"
  wb_branch_u32 :: "'b \<Rightarrow> u32"
  wb_read :: "bytes \<Rightarrow> 'b \<Rightarrow> (string, read_tx) result"

text \<open>The errors, with the values their messages show. Numbers are input or output positions and counts.\<close>

datatype plan_error =
    BadTarget u32 u32
  | NoTransparentUtxos
  | NoCarriersForPrepare
  | NoUtxoForCall
  | PlanFailed tx_error
  | TipUnavailable string
  | StalePlan canonical_tip canonical_tip
  | WrongStage plan_stage plan_stage
  | NoSignedTransaction
  | BuildFailed build_error
  | UnreadableTx string
  | VersionMismatch tx_version
  | ExpiryMismatch u32
  | NoTransparentBundle
  | InputCountMismatch nat nat
  | PrevoutMismatch nat
  | OutputCountMismatch nat nat
  | OutputValueMismatch nat
  | OutputScriptMismatch nat
  | P2pkhPushCount nat nat
  | P2pkhPubkeyMismatch nat
  | SignatureStructure nat
  | CarrierPushCount nat nat
  | ChunkIndexMismatch nat
  | RedeemScriptMismatch nat
  | ChunkBytesMismatch nat
  | OpReturnUnparsable parse_error
  | NotADeployMessage
  | ReconstructionFailed carrier_error
  | OutputValueOverflow
  | NegativeFee
  | FeeMismatch u64 u64

section \<open>Verification of an extracted transaction\<close>

fun check_prevouts :: "nat \<Rightarrow> (outpoint \<times> bytes) list \<Rightarrow> ('k, outpoint) spend_input list \<Rightarrow> (plan_error, unit) result" where
  "check_prevouts i ((prevout, _) # vin) (inp # inputs) =
     (if ou_hash prevout \<noteq> ou_hash (si_outpoint inp) \<or> ou_n prevout \<noteq> ou_n (si_outpoint inp)
      then Err (PrevoutMismatch i) else check_prevouts (Suc i) vin inputs)"
| "check_prevouts i _ _ = Ok ()"

fun check_outputs :: "nat \<Rightarrow> spend_output list \<Rightarrow> spend_output list \<Rightarrow> (plan_error, unit) result" where
  "check_outputs i (out # vout) (planned # outputs) =
     (if so_value out \<noteq> so_value planned then Err (OutputValueMismatch i)
      else if so_script_pubkey out \<noteq> so_script_pubkey planned then Err (OutputScriptMismatch i)
      else check_outputs (Suc i) vout outputs)"
| "check_outputs i _ _ = Ok ()"

text \<open>\<open>xs.first() != Some(&0x30)\<close>.\<close>

definition der_shaped :: "bytes \<Rightarrow> bool" where
  "der_shaped sig \<longleftrightarrow> (case sig of [] \<Rightarrow> False | b # _ \<Rightarrow> b = 0x30)"

definition check_p2pkh_sig :: "nat \<Rightarrow> bytes \<Rightarrow> bytes list \<Rightarrow> (plan_error, unit) result" where
  "check_p2pkh_sig i pubkey pushes =
     (if length pushes \<noteq> 2 then Err (P2pkhPushCount i (length pushes))
      else if pushes ! 1 \<noteq> pubkey then Err (P2pkhPubkeyMismatch i)
      else if \<not> der_shaped (pushes ! 0) then Err (SignatureStructure i)
      else Ok ())"

definition check_carrier_sig ::
    "nat \<Rightarrow> u8 \<Rightarrow> bytes \<Rightarrow> bytes \<Rightarrow> bytes list \<Rightarrow> (plan_error, chunk) result" where
  "check_carrier_sig i chunk_index chunk_data redeem pushes =
     (if length pushes < 4 then Err (CarrierPushCount i (length pushes))
      else if pushes ! 0 \<noteq> [chunk_index] then Err (ChunkIndexMismatch i)
      else if last pushes \<noteq> redeem then Err (RedeemScriptMismatch i)
      else if \<not> der_shaped (pushes ! (length pushes - 2)) then Err (SignatureStructure i)
      else
        let data = concat (slice 1 (length pushes - 2) pushes) in
        if data \<noteq> chunk_data then Err (ChunkBytesMismatch i)
        else Ok \<lparr>ch_index = chunk_index, ch_data = data\<rparr>)"

text \<open>The chunks of the final scriptSigs, in input order.\<close>

fun check_script_sigs ::
    "('k \<Rightarrow> bytes) \<Rightarrow> nat \<Rightarrow> bytes list \<Rightarrow> ('k, outpoint) spend_input list \<Rightarrow> (plan_error, chunk list) result" where
  "check_script_sigs pubkey_of i (script_sig # sigs) (inp # inputs) =
     (case si_kind inp of
        P2pkh key \<Rightarrow>
          and_then (check_p2pkh_sig i (pubkey_of key) (parse_script_pushes script_sig)) (\<lambda>_.
            check_script_sigs pubkey_of (Suc i) sigs inputs)
      | CarrierSpend key chunk_index chunk_data redeem \<Rightarrow>
          and_then (check_carrier_sig i chunk_index chunk_data redeem (parse_script_pushes script_sig)) (\<lambda>c.
          and_then (check_script_sigs pubkey_of (Suc i) sigs inputs) (\<lambda>cs. Ok (c # cs))))"
| "check_script_sigs pubkey_of i _ _ = Ok []"

definition check_deploy_stream :: "sha \<Rightarrow> tx_request \<Rightarrow> chunk list \<Rightarrow> (plan_error, unit) result" where
  "check_deploy_stream sha req final_chunks =
     (case req of
        ReqDeploy _ _ _ op_return \<Rightarrow>
          and_then (map_err OpReturnUnparsable (parse_op_return op_return)) (\<lambda>msg.
            case msg of
              Some (Deploy d) \<Rightarrow>
                and_then (map_err ReconstructionFailed
                    (reconstruct sha final_chunks (dm_chunk_count d) (dm_code_length d) (dm_code_hash d)))
                  (\<lambda>_. Ok ())
            | _ \<Rightarrow> Err NotADeployMessage)
      | _ \<Rightarrow> Ok ())"

definition verify_script_sigs ::
    "('k, 'b) wallet_lib \<Rightarrow> ('k, 'b) transparent_plan \<Rightarrow> bytes list \<Rightarrow> (plan_error, unit) result" where
  "verify_script_sigs lib p script_sigs =
     and_then (check_script_sigs (sl_pubkey (wb_signing lib)) 0 script_sigs (pt_inputs (tp_prepared p)))
       (check_deploy_stream (wb_sha lib) (tp_request p))"

definition checked_add64 :: "u64 \<Rightarrow> u64 \<Rightarrow> u64 option" where
  "checked_add64 a b = (if unat a + unat b < 2 ^ 64 then Some (a + b) else None)"

fun checked_sum :: "u64 \<Rightarrow> u64 list \<Rightarrow> u64 option" where
  "checked_sum acc [] = Some acc"
| "checked_sum acc (v # vs) = Option.bind (checked_add64 acc v) (\<lambda>acc. checked_sum acc vs)"

text \<open>The plain sum of the input values wraps around in the release profile.\<close>

definition check_fee :: "('k, outpoint) prepared_tx \<Rightarrow> spend_output list \<Rightarrow> (plan_error, unit) result" where
  "check_fee prepared vout =
     and_then (ok_or OutputValueOverflow (checked_sum 0 (map so_value vout))) (\<lambda>out_sum.
     and_then (ok_or NegativeFee (checked_sub (sum_list (map si_value (pt_inputs prepared))) out_sum)) (\<lambda>actual_fee.
       if actual_fee \<noteq> pt_fee prepared then Err (FeeMismatch actual_fee (pt_fee prepared)) else Ok ()))"

definition verify_bundle ::
    "('k, 'b) wallet_lib \<Rightarrow> ('k, 'b) transparent_plan \<Rightarrow> (outpoint \<times> bytes) list \<Rightarrow> spend_output list
      \<Rightarrow> (plan_error, unit) result" where
  "verify_bundle lib p vin vout =
     (let prepared = tp_prepared p in
      if length vin \<noteq> length (pt_inputs prepared) then Err (InputCountMismatch (length vin) (length (pt_inputs prepared)))
      else
        and_then (check_prevouts 0 vin (pt_inputs prepared)) (\<lambda>_.
        if length vout \<noteq> length (pt_outputs prepared)
        then Err (OutputCountMismatch (length vout) (length (pt_outputs prepared)))
        else
          and_then (check_outputs 0 vout (pt_outputs prepared)) (\<lambda>_.
          and_then (verify_script_sigs lib p (map snd vin)) (\<lambda>_. check_fee prepared vout))))"

definition verify_extracted ::
    "('k, 'b) wallet_lib \<Rightarrow> ('k, 'b) transparent_plan \<Rightarrow> signed_tx \<Rightarrow> (plan_error, unit) result" where
  "verify_extracted lib p tx =
     and_then (map_err UnreadableTx (wb_read lib (st_bytes tx) (tp_branch_id p))) (\<lambda>parsed.
       if rd_version parsed \<noteq> V5 then Err (VersionMismatch (rd_version parsed))
       else if rd_expiry parsed \<noteq> 0 then Err (ExpiryMismatch (rd_expiry parsed))
       else
         case rd_transparent parsed of
           None \<Rightarrow> Err NoTransparentBundle
         | Some (vin, vout) \<Rightarrow> verify_bundle lib p vin vout)"

section \<open>Stages\<close>

definition check_freshness :: "('k, 'b) transparent_plan \<Rightarrow> canonical_tip \<Rightarrow> (plan_error, unit) result" where
  "check_freshness p current =
     (if tp_canonical_tip p \<noteq> current then Err (StalePlan (tp_canonical_tip p) current) else Ok ())"

definition expect_stage :: "plan_stage \<Rightarrow> ('k, 'b) transparent_plan \<Rightarrow> (plan_error, unit) result" where
  "expect_stage expected p =
     (if tp_stage p \<noteq> expected then Err (WrongStage (tp_stage p) expected) else Ok ())"

definition prove_transparent ::
    "('k, 'b) transparent_plan \<Rightarrow> ('k, 'b) transparent_plan \<times> (plan_error, unit) result" where
  "prove_transparent p =
     (case expect_stage StagePlanned p of
        Err e \<Rightarrow> (p, Err e)
      | Ok _ \<Rightarrow> (p\<lparr>tp_stage := StageProven\<rparr>, Ok ()))"

definition sign_transparent ::
    "('k, 'b) wallet_lib \<Rightarrow> ('k, 'b) transparent_plan \<Rightarrow> ('k, 'b) transparent_plan \<times> (plan_error, unit) result" where
  "sign_transparent lib p =
     (case and_then (expect_stage StageProven p) (\<lambda>_.
           map_err BuildFailed (build_transparent_tx (wb_signing lib) (pt_inputs (tp_prepared p))
             (pt_outputs (tp_prepared p)) 0 (tp_branch_id p))) of
        Err e \<Rightarrow> (p, Err e)
      | Ok tx \<Rightarrow> (p\<lparr>tp_signed := Some tx, tp_stage := StageSigned\<rparr>, Ok ()))"

definition extract_transparent ::
    "('k, 'b) transparent_plan \<Rightarrow> ('k, 'b) transparent_plan \<times> (plan_error, signed_tx) result" where
  "extract_transparent p =
     (case expect_stage StageSigned p of
        Err e \<Rightarrow> (p, Err e)
      | Ok _ \<Rightarrow>
          (case tp_signed p of
             None \<Rightarrow> (p, Err NoSignedTransaction)
           | Some tx \<Rightarrow> (p\<lparr>tp_signed := None, tp_stage := StageExtracted\<rparr>, Ok tx)))"

type_synonym 'w tip_source = "('w, string, canonical_tip) step"

definition query_tip :: "'w tip_source \<Rightarrow> ('w \<times> 'p, plan_error, canonical_tip) step" where
  "query_tip src = (\<lambda>(x, p). case src x of (x, r) \<Rightarrow> ((x, p), map_err TipUnavailable r))"

definition on_plan :: "('p \<Rightarrow> 'p \<times> (plan_error, 'a) result) \<Rightarrow> ('w \<times> 'p, plan_error, 'a) step" where
  "on_plan f = (\<lambda>(x, p). case f p of (p, r) \<Rightarrow> ((x, p), r))"

definition if_fresh ::
    "'w tip_source \<Rightarrow> (canonical_tip \<Rightarrow> ('w \<times> ('k, 'b) transparent_plan, plan_error, 'a) step)
      \<Rightarrow> ('w \<times> ('k, 'b) transparent_plan, plan_error, 'a) step" where
  "if_fresh src next_step =
     bind_step (query_tip src) (\<lambda>tip.
     bind_step (on_plan (\<lambda>p. (p, check_freshness p tip))) (\<lambda>_. next_step tip))"

definition prove_plan :: "'w tip_source \<Rightarrow> ('w \<times> ('k, 'b) transparent_plan, plan_error, unit) step" where
  "prove_plan src = if_fresh src (\<lambda>_. on_plan prove_transparent)"

definition sign_plan :: "('k, 'b) wallet_lib \<Rightarrow> 'w tip_source \<Rightarrow> ('w \<times> ('k, 'b) transparent_plan, plan_error, unit) step" where
  "sign_plan lib src = if_fresh src (\<lambda>_. on_plan (sign_transparent lib))"

definition extract_plan :: "'w tip_source \<Rightarrow> ('w \<times> ('k, 'b) transparent_plan, plan_error, signed_tx) step" where
  "extract_plan src = if_fresh src (\<lambda>_. on_plan extract_transparent)"

definition extract_verified ::
    "('k, 'b) wallet_lib \<Rightarrow> 'w tip_source \<Rightarrow> ('w \<times> ('k, 'b) transparent_plan, plan_error, verified_tx) step" where
  "extract_verified lib src =
     if_fresh src (\<lambda>tip.
     bind_step (extract_plan src) (\<lambda>tx.
       on_plan (\<lambda>p. (p, and_then (verify_extracted lib p tx) (\<lambda>_.
         Ok \<lparr>vt_bytes = st_bytes tx, vt_txid = st_txid tx, vt_plan_id = tp_plan_id p,
             vt_intent_hash = tp_intent_hash p, vt_tip = tip\<rparr>)))))"

end
