(* ===== verification/Transparent.thy ===== *)
theory Transparent
  imports Plan Recovery
begin

text \<open>
  Transparent funding (\<open>zalkanes-wallet/src/transparent.rs\<close>): planning a request over a list
  of UTXOs, and how a plan is shown (\<open>describe\<close> of \<open>plan.rs\<close>). The random plan id is an
  argument.
\<close>

section \<open>Planning\<close>

record 'k transparent_funding =
  tf_key :: 'k
  tf_utxos :: "funding_utxo list"

definition validate_context :: "fund_context \<Rightarrow> (plan_error, unit) result" where
  "validate_context ctx =
     (let expected = ct_height (fc_chain_tip ctx) + 1 in
      if fc_target_height ctx \<noteq> expected then Err (BadTarget (fc_target_height ctx) expected) else Ok ())"

definition build_plan ::
    "('k, 'b) wallet_lib \<Rightarrow> 'k transparent_funding \<Rightarrow> tx_request \<Rightarrow> (plan_error, ('k, outpoint) prepared_tx) result" where
  "build_plan lib tf req =
     (let pubkey_of = sl_pubkey (wb_signing lib) in
      case req of
        ReqPrepare carrier_values \<Rightarrow>
          if carrier_values = [] then Err NoCarriersForPrepare
          else map_err PlanFailed (prepare_plan (wb_hash160 lib) pubkey_of (tf_key tf)
            (map (\<lambda>u. (fu_outpoint u, fu_value u)) (tf_utxos tf)) carrier_values)
      | ReqDeploy chunks outpoints carrier_values op_return \<Rightarrow>
          map_err PlanFailed (deploy_plan (wb_hash160 lib) pubkey_of (tf_key tf) outpoints carrier_values chunks op_return)
      | ReqCall op_return \<Rightarrow>
          (case tf_utxos tf of
             [] \<Rightarrow> Err NoUtxoForCall
           | utxo # _ \<Rightarrow>
               map_err PlanFailed (call_plan (wb_hash160 lib) pubkey_of (tf_key tf) (fu_outpoint utxo) (fu_value utxo) op_return)))"

fun request_kind_byte :: "tx_request \<Rightarrow> u8" where
  "request_kind_byte (ReqPrepare _) = 0"
| "request_kind_byte (ReqDeploy _ _ _ _) = 1"
| "request_kind_byte (ReqCall _) = 2"

definition transparent_commitment ::
    "('k, 'b) wallet_lib \<Rightarrow> tx_request \<Rightarrow> fund_context \<Rightarrow> 'b \<Rightarrow> ('k, outpoint) prepared_tx \<Rightarrow> commitment" where
  "transparent_commitment lib req ctx branch prepared =
     \<lparr>cm_network = id_byte (fc_network ctx), cm_protocol_version = 0, cm_pool = 0,
      cm_tip_height = ct_height (fc_chain_tip ctx), cm_tip_hash = ct_hash (fc_chain_tip ctx),
      cm_target_height = fc_target_height ctx, cm_branch_id = wb_branch_u32 lib branch,
      cm_tx_version = 5, cm_expiry_height = 0,
      cm_inputs = map (\<lambda>i. \<lparr>pi_pool = 0, pi_txid = ou_hash (si_outpoint i),
        pi_output_index = ou_n (si_outpoint i), pi_value = si_value i\<rparr>) (pt_inputs prepared),
      cm_anchors = [],
      cm_outputs = map (\<lambda>out. \<lparr>po_value = so_value out, po_script = so_script_pubkey out\<rparr>) (pt_outputs prepared),
      cm_change = None, cm_fee = pt_fee prepared,
      cm_payload = (case op_return_payload req of None \<Rightarrow> [] | Some p \<Rightarrow> p),
      cm_kind = request_kind_byte req\<rparr>"

definition journal_inputs :: "hex_lib \<Rightarrow> ('k, outpoint) prepared_tx \<Rightarrow> string" where
  "journal_inputs hx prepared =
     concat (intersperse '','' (map (\<lambda>i. ''0:'' @ hex_encode hx (bytes_of (ou_hash (si_outpoint i))) @ '':''
       @ decimal (unat (ou_n (si_outpoint i)))) (pt_inputs prepared)))"

definition transparent_plan_of ::
    "('k, 'b) wallet_lib \<Rightarrow> 'k transparent_funding \<Rightarrow> string \<Rightarrow> tx_request \<Rightarrow> fund_context
      \<Rightarrow> (plan_error, ('k, 'b) transparent_plan) result" where
  "transparent_plan_of lib tf plan_id req ctx =
     and_then (validate_context ctx) (\<lambda>_.
       if tf_utxos tf = [] then Err NoTransparentUtxos
       else
         and_then (build_plan lib tf req) (\<lambda>prepared.
           let branch = branch_id_for_height (wb_for_height lib) (fc_network ctx) (fc_target_height ctx) in
           Ok \<lparr>tp_prepared = prepared, tp_journal_inputs = journal_inputs (wb_hex lib) prepared,
               tp_request = req, tp_branch_id = branch, tp_target_height = fc_target_height ctx,
               tp_canonical_tip = fc_chain_tip ctx, tp_stage = StagePlanned, tp_signed = None,
               tp_plan_id = plan_id,
               tp_intent_hash = commit_plan (wb_hex lib) (wb_sha lib) (transparent_commitment lib req ctx branch prepared)\<rparr>))"

section \<open>Description\<close>

definition pad_left :: "nat \<Rightarrow> string \<Rightarrow> string" where
  "pad_left n s = replicate (n - length s) CHR ''0'' @ s"

definition zat_to_zec :: "u64 \<Rightarrow> string" where
  "zat_to_zec zat = decimal (unat (zat div 100000000)) @ ''.'' @ pad_left 8 (decimal (unat (zat mod 100000000)))"

fun plan_stage_str :: "plan_stage \<Rightarrow> string" where
  "plan_stage_str StagePlanned = ''Planned''"
| "plan_stage_str StageProven = ''Proven''"
| "plan_stage_str StageSigned = ''Signed''"
| "plan_stage_str StageExtracted = ''Extracted''"

definition zalk_payload_hex :: "hex_lib \<Rightarrow> ('k, 'b) transparent_plan \<Rightarrow> string" where
  "zalk_payload_hex hx p =
     (case op_return_payload (tp_request p) of
        Some payload \<Rightarrow> hex_encode hx payload
      | None \<Rightarrow> ''carrier outputs x'' @ decimal (length (pt_outputs (tp_prepared p))))"

definition describe_output :: "nat \<Rightarrow> spend_output \<Rightarrow> string" where
  "describe_output i out =
     ''  output['' @ decimal i @ '']: ''
     @ (case so_script_pubkey out of
          b # _ \<Rightarrow> if b = 0x6a then ''OP_RETURN (ZALK)'' else ''transparent''
        | [] \<Rightarrow> ''transparent'')
     @ '', '' @ decimal (unat (so_value out)) @ '' zat''"

definition minimum_policy :: "('k, 'b) transparent_plan \<Rightarrow> privacy_policy" where
  "minimum_policy p = AllowFullyTransparent"

definition amount_line :: "string \<Rightarrow> u64 \<Rightarrow> string" where
  "amount_line label v = label @ decimal (unat v) @ '' zat ('' @ zat_to_zec v @ '' ZEC)''"

definition describe_plan :: "hex_lib \<Rightarrow> ('k, 'b) transparent_plan \<Rightarrow> string list" where
  "describe_plan hx p =
     [''Funding pool:       transparent'',
      ''Stage:              '' @ plan_stage_str (tp_stage p),
      amount_line ''Selected value:     '' (pt_selected_value (tp_prepared p)),
      amount_line ''Fee (ZIP-317):      '' (pt_fee (tp_prepared p)),
      amount_line ''Change (transparent): '' (pt_change (tp_prepared p)),
      ''Target height:      '' @ decimal (unat (tp_target_height p)),
      ''Transaction version:v5'',
      ''Expiry height:      0'',
      ''ZALK payload:       '' @ zalk_payload_hex hx p,
      ''Min privacy policy: '' @ policy_str (minimum_policy p) @ '' ('' @ policy_description (minimum_policy p) @ '')'',
      ''Zalkanes disclosure: contract id / opcode / calldata / code are public'']
     @ map (\<lambda>(i, out). describe_output i out) (enumerate 0 (pt_outputs (tp_prepared p)))"

section \<open>Recording in the journal\<close>

text \<open>\<open>record_plan\<close> on a transparent plan: no expiry and no note locks.\<close>

definition record_transparent_plan ::
    "('k, 'b) wallet_lib \<Rightarrow> ('k, 'b) transparent_plan \<Rightarrow> (journal, string, unit) step" where
  "record_transparent_plan lib p =
     record_plan (wb_hex lib) (wb_sha lib) (tp_plan_id p) (tp_intent_hash p) (request_kind (tp_request p))
       ''transparent'' (tp_canonical_tip p) (tp_target_height p) (tp_journal_inputs p) 0"

end
