(* ===== verification/Plan_Commit.thy ===== *)
theory Plan_Commit
  imports Transparent
begin

text \<open>
  The plan commitment determines the plan: the encoding under the hash is uniquely readable,
  as long as every length fits its 16-bit prefix.
\<close>

section \<open>Uniquely readable encodings\<close>

definition prefix_code :: "'a set \<Rightarrow> ('a \<Rightarrow> bytes) \<Rightarrow> bool" where
  "prefix_code A e \<longleftrightarrow> (\<forall>x \<in> A. \<forall>y \<in> A. \<forall>r s. e x @ r = e y @ s \<longrightarrow> x = y \<and> r = s)"

lemma prefix_codeI:
  "(\<And>x y r s. x \<in> A \<Longrightarrow> y \<in> A \<Longrightarrow> e x @ r = e y @ s \<Longrightarrow> x = y \<and> r = s) \<Longrightarrow> prefix_code A e"
  unfolding prefix_code_def by blast

lemma prefix_codeD:
  "prefix_code A e \<Longrightarrow> x \<in> A \<Longrightarrow> y \<in> A \<Longrightarrow> e x @ r = e y @ s \<Longrightarrow> x = y \<and> r = s"
  unfolding prefix_code_def by blast

lemma fixed_append: "length a = length b \<Longrightarrow> a @ r = b @ s \<longleftrightarrow> a = b \<and> r = s"
  by (rule append_eq_append_conv) simp

lemma prefix_code_concat:
  assumes "prefix_code A e" "set xs \<subseteq> A" "set ys \<subseteq> A" "length xs = length ys"
    and "concat (map e xs) @ r = concat (map e ys) @ s"
  shows "xs = ys \<and> r = s"
  using assms(4,2,3,5)
proof (induction xs ys rule: list_induct2)
  case (Cons x xs y ys)
  have "x = y \<and> concat (map e xs) @ r = concat (map e ys) @ s"
    using Cons.prems by (intro prefix_codeD [OF assms(1)]) auto
  then show ?case using Cons.IH Cons.prems by auto
qed simp

lemma len_prefix_append:
  assumes "len_prefix xs @ r = len_prefix ys @ s" "length xs < 65536" "length ys < 65536"
  shows "length xs = length ys" "r = s"
proof -
  have eq: "len_prefix xs = len_prefix ys" "r = s"
    using assms(1) fixed_append [of "len_prefix xs" "len_prefix ys"] by (simp_all add: len_prefix_def)
  from eq(1) have "unat (of_nat (length xs) :: u16) = unat (of_nat (length ys) :: u16)"
    by (simp add: len_prefix_def)
  then show "length xs = length ys" using assms(2,3) by (simp add: unat_of_nat)
  show "r = s" by (rule eq(2))
qed

lemma prefix_code_list:
  assumes "prefix_code A e"
  shows "prefix_code {xs. length xs < 65536 \<and> set xs \<subseteq> A} (\<lambda>xs. len_prefix xs @ concat (map e xs))"
proof (rule prefix_codeI)
  fix xs ys r s
  assume a: "xs \<in> {xs. length xs < 65536 \<and> set xs \<subseteq> A}" "ys \<in> {xs. length xs < 65536 \<and> set xs \<subseteq> A}"
    and "(len_prefix xs @ concat (map e xs)) @ r = (len_prefix ys @ concat (map e ys)) @ s"
  then have eq: "len_prefix xs @ concat (map e xs) @ r = len_prefix ys @ concat (map e ys) @ s"
    by simp
  show "xs = ys \<and> r = s"
    using a len_prefix_append [OF eq] by (intro prefix_code_concat [OF assms]) simp_all
qed

lemma prefix_code_bytes: "prefix_code {xs. length xs < 65536} (\<lambda>xs. len_prefix xs @ xs)"
proof (rule prefix_codeI)
  fix xs ys r s
  assume a: "xs \<in> {xs :: bytes. length xs < 65536}" "ys \<in> {xs. length xs < 65536}"
    and "(len_prefix xs @ xs) @ r = (len_prefix ys @ ys) @ s"
  then have eq: "len_prefix xs @ xs @ r = len_prefix ys @ ys @ s" by simp
  show "xs = ys \<and> r = s"
    using a len_prefix_append [OF eq] fixed_append [of xs ys] by simp
qed

section \<open>The parts of a commitment\<close>

lemma input_bytes_code: "prefix_code UNIV input_bytes"
proof (rule prefix_codeI)
  fix x y r s
  assume "input_bytes x @ r = input_bytes y @ s"
  then show "x = y \<and> r = s" by (simp add: input_bytes_def fixed_append)
qed

lemma anchor_bytes_code: "prefix_code UNIV anchor_bytes"
proof (rule prefix_codeI)
  fix x y r s
  assume "anchor_bytes x @ r = anchor_bytes y @ s"
  then show "x = y \<and> r = s" by (simp add: anchor_bytes_def fixed_append)
qed

lemma output_bytes_code: "prefix_code {x. length (po_script x) < 65536} output_bytes"
proof (rule prefix_codeI)
  fix x y r s
  assume a: "x \<in> {x. length (po_script x) < 65536}" "y \<in> {x. length (po_script x) < 65536}"
    and "output_bytes x @ r = output_bytes y @ s"
  then have eq: "po_value x = po_value y"
    "(len_prefix (po_script x) @ po_script x) @ r = (len_prefix (po_script y) @ po_script y) @ s"
    by (simp_all add: output_bytes_def fixed_append)
  from prefix_codeD [OF prefix_code_bytes _ _ eq(2)] a eq(1) show "x = y \<and> r = s" by simp
qed

definition change_ok :: "plan_change option \<Rightarrow> bool" where
  "change_ok c \<longleftrightarrow> (\<forall>x. c = Some x \<longrightarrow> length (pc_destination x) < 65536)"

lemma change_bytes_code: "prefix_code {c. change_ok c} change_bytes"
proof (rule prefix_codeI)
  fix c d r s
  assume a: "c \<in> {c. change_ok c}" "d \<in> {c. change_ok c}" and eq: "change_bytes c @ r = change_bytes d @ s"
  show "c = d \<and> r = s"
  proof (cases c; cases d)
    fix x y assume c: "c = Some x" and d: "d = Some y"
    then have p: "pc_value x = pc_value y" "pc_pool x = pc_pool y"
      "(len_prefix (pc_destination x) @ pc_destination x) @ r
        = (len_prefix (pc_destination y) @ pc_destination y) @ s"
      using eq by (simp_all add: fixed_append)
    from prefix_codeD [OF prefix_code_bytes _ _ p(3)] a c d p(1,2) show ?thesis
      by (simp add: change_ok_def)
  qed (use eq in simp_all)
qed

text \<open>Lengths that fit their prefixes.\<close>

definition commitment_ok :: "commitment \<Rightarrow> bool" where
  "commitment_ok c \<longleftrightarrow>
     length (cm_inputs c) < 65536 \<and> length (cm_anchors c) < 65536 \<and> length (cm_outputs c) < 65536
     \<and> (\<forall>out \<in> set (cm_outputs c). length (po_script out) < 65536)
     \<and> change_ok (cm_change c) \<and> length (cm_payload c) < 65536"

definition list_part :: "('a \<Rightarrow> bytes) \<Rightarrow> 'a list \<Rightarrow> bytes" where
  "list_part e xs = len_prefix xs @ concat (map e xs)"

lemmas list_part_code = prefix_code_list [folded list_part_def]

lemma commitment_bytes_inject:
  assumes "commitment_bytes c = commitment_bytes d" "commitment_ok c" "commitment_ok d"
  shows "c = d"
proof -
  from assms(1) have head: "cm_network c = cm_network d" "cm_protocol_version c = cm_protocol_version d"
    "cm_pool c = cm_pool d" "cm_tip_height c = cm_tip_height d" "cm_tip_hash c = cm_tip_hash d"
    "cm_target_height c = cm_target_height d" "cm_branch_id c = cm_branch_id d"
    "cm_tx_version c = cm_tx_version d" "cm_expiry_height c = cm_expiry_height d"
    and rest: "list_part input_bytes (cm_inputs c) @ list_part anchor_bytes (cm_anchors c)
      @ list_part output_bytes (cm_outputs c) @ change_bytes (cm_change c) @ u64_to_le_bytes (cm_fee c)
      @ (len_prefix (cm_payload c) @ cm_payload c) @ [cm_kind c]
     = list_part input_bytes (cm_inputs d) @ list_part anchor_bytes (cm_anchors d)
      @ list_part output_bytes (cm_outputs d) @ change_bytes (cm_change d) @ u64_to_le_bytes (cm_fee d)
      @ (len_prefix (cm_payload d) @ cm_payload d) @ [cm_kind d]"
    by (simp_all add: commitment_bytes_def fixed_append list_part_def)
  note ok = assms(2,3) [unfolded commitment_ok_def]
  have 1: "cm_inputs c = cm_inputs d" and rest1: "list_part anchor_bytes (cm_anchors c)
      @ list_part output_bytes (cm_outputs c) @ change_bytes (cm_change c) @ u64_to_le_bytes (cm_fee c)
      @ (len_prefix (cm_payload c) @ cm_payload c) @ [cm_kind c]
     = list_part anchor_bytes (cm_anchors d)
      @ list_part output_bytes (cm_outputs d) @ change_bytes (cm_change d) @ u64_to_le_bytes (cm_fee d)
      @ (len_prefix (cm_payload d) @ cm_payload d) @ [cm_kind d]"
    using prefix_codeD [OF list_part_code [OF input_bytes_code] _ _ rest] ok by simp_all
  have 2: "cm_anchors c = cm_anchors d" and rest2: "list_part output_bytes (cm_outputs c)
      @ change_bytes (cm_change c) @ u64_to_le_bytes (cm_fee c) @ (len_prefix (cm_payload c) @ cm_payload c) @ [cm_kind c]
     = list_part output_bytes (cm_outputs d)
      @ change_bytes (cm_change d) @ u64_to_le_bytes (cm_fee d) @ (len_prefix (cm_payload d) @ cm_payload d) @ [cm_kind d]"
    using prefix_codeD [OF list_part_code [OF anchor_bytes_code] _ _ rest1] ok by simp_all
  have 3: "cm_outputs c = cm_outputs d" and rest3: "change_bytes (cm_change c) @ u64_to_le_bytes (cm_fee c)
      @ (len_prefix (cm_payload c) @ cm_payload c) @ [cm_kind c]
     = change_bytes (cm_change d) @ u64_to_le_bytes (cm_fee d) @ (len_prefix (cm_payload d) @ cm_payload d) @ [cm_kind d]"
    using prefix_codeD [OF list_part_code [OF output_bytes_code] _ _ rest2] ok by auto
  have 4: "cm_change c = cm_change d" and rest4: "u64_to_le_bytes (cm_fee c)
      @ (len_prefix (cm_payload c) @ cm_payload c) @ [cm_kind c]
     = u64_to_le_bytes (cm_fee d) @ (len_prefix (cm_payload d) @ cm_payload d) @ [cm_kind d]"
    using prefix_codeD [OF change_bytes_code _ _ rest3] ok by simp_all
  have 5: "cm_fee c = cm_fee d" and rest5: "(len_prefix (cm_payload c) @ cm_payload c) @ [cm_kind c]
     = (len_prefix (cm_payload d) @ cm_payload d) @ [cm_kind d]"
    using rest4 fixed_append [of "u64_to_le_bytes (cm_fee c)" "u64_to_le_bytes (cm_fee d)"] by simp_all
  have 6: "cm_payload c = cm_payload d" "cm_kind c = cm_kind d"
    using prefix_codeD [OF prefix_code_bytes _ _ rest5] ok by simp_all
  show ?thesis using head 1 2 3 4 5 6 by simp
qed

text \<open>The plan commitment binds the plan: two plans that differ in any committed field (network,
  tip height or hash, target, branch, version, expiry, an input, anchor or output, the change,
  the fee, the payload, the kind) have different commitments, when all lengths fit 16 bits
  and the hash does not collide on the two encodings.\<close>

theorem commit_plan_binds:
  assumes "c \<noteq> d" "commitment_ok c" "commitment_ok d" "inj (hex_encode hx)"
    and "commitment_bytes c \<noteq> commitment_bytes d \<Longrightarrow> sha (commitment_bytes c) \<noteq> sha (commitment_bytes d)"
  shows "commit_plan hx sha c \<noteq> commit_plan hx sha d"
  using assms commitment_bytes_inject by (auto simp: commit_plan_def inj_eq)

text \<open>A deployment and a call that agree in everything else.\<close>

definition demo_commitment :: "u8 \<Rightarrow> commitment" where
  "demo_commitment kind =
     \<lparr>cm_network = 3, cm_protocol_version = 0, cm_pool = 0, cm_tip_height = 7, cm_tip_hash = fill32 7,
      cm_target_height = 8, cm_branch_id = 1, cm_tx_version = 5, cm_expiry_height = 0,
      cm_inputs = [\<lparr>pi_pool = 0, pi_txid = fill32 1, pi_output_index = 0, pi_value = 100000\<rparr>],
      cm_anchors = [], cm_outputs = [\<lparr>po_value = 0, po_script = [0x6a, 1, 9]\<rparr>], cm_change = None,
      cm_fee = 10000, cm_payload = [9], cm_kind = kind\<rparr>"

lemma inj_plain_hex: "inj (hex_encode plain_hex)"
  by (rule inj_on_inverseI [of _ ascii]) (simp add: plain_hex_def)

end
