(* ===== verification/Plan_Verify.thy ===== *)
theory Plan_Verify
  imports Transparent Pipeline
begin

text \<open>
  What verification of an extracted transaction guarantees, and that consensus reads a verified
  deployment as the plan meant it.
\<close>

section \<open>What the checks accept\<close>

lemma check_outputs_Ok:
  "length vout = length outputs \<Longrightarrow> check_outputs i vout outputs = Ok () \<longleftrightarrow> vout = outputs"
  by (induction i vout outputs rule: check_outputs.induct) auto

lemma check_prevouts_Ok:
  "length vin = length inputs \<Longrightarrow>
     check_prevouts i vin inputs = Ok () \<longleftrightarrow> map fst vin = map (\<lambda>inp. (si_outpoint inp :: outpoint)) inputs"
  by (induction i vin inputs rule: check_prevouts.induct) auto

lemma verify_bundle_Ok:
  "verify_bundle lib p vin vout = Ok () \<longleftrightarrow>
     map fst vin = map si_outpoint (pt_inputs (tp_prepared p)) \<and> vout = pt_outputs (tp_prepared p)
     \<and> verify_script_sigs lib p (map snd vin) = Ok () \<and> check_fee (tp_prepared p) vout = Ok ()"
proof -
  have "map fst vin = map si_outpoint inputs \<Longrightarrow> length vin = length inputs"
    for inputs :: "('a, outpoint) spend_input list"
    using map_eq_imp_length_eq by fastforce
  then show ?thesis
    by (auto simp: verify_bundle_def Let_def check_prevouts_Ok check_outputs_Ok and_then_Ok_iff)
qed

lemma verify_extracted_Ok:
  assumes "verify_extracted lib p tx = Ok ()" "wb_read lib (st_bytes tx) (tp_branch_id p) = Ok parsed"
  obtains vin vout where "rd_transparent parsed = Some (vin, vout)" "verify_bundle lib p vin vout = Ok ()"
  using assms by (auto simp: verify_extracted_def split: if_splits option.splits)

lemma check_carrier_sig_chunk:
  assumes "check_carrier_sig i k d redeem (parse_script_pushes sig) = Ok c"
  shows "chunk_from_script_sig sig = Some (k, d)" "c = \<lparr>ch_index = k, ch_data = d\<rparr>"
  using assms by (auto simp: check_carrier_sig_def chunk_from_script_sig_def Let_def split: if_splits)

lemma check_script_sigs_carriers:
  assumes "check_script_sigs pk i sigs inputs = Ok cs" "length sigs = length inputs"
    and "map si_kind inputs = map (\<lambda>(j, d). CarrierSpend key (of_nat j) d redeem) (enumerate n chunks)"
  shows "map chunk_from_script_sig sigs = map (\<lambda>(j, d). Some (of_nat j, d)) (enumerate n chunks)
    \<and> cs = map (\<lambda>(j, d). \<lparr>ch_index = of_nat j, ch_data = d\<rparr>) (enumerate n chunks)"
  using assms
proof (induction chunks arbitrary: sigs inputs cs i n)
  case (Cons d chunks)
  obtain inp rest where inputs: "inputs = inp # rest" "si_kind inp = CarrierSpend key (of_nat n) d redeem"
    "map si_kind rest = map (\<lambda>(j, d). CarrierSpend key (of_nat j) d redeem) (enumerate (Suc n) chunks)"
    using Cons.prems(3) by (cases inputs) auto
  obtain sig sigs' where sigs: "sigs = sig # sigs'" "length sigs' = length rest"
    using Cons.prems(2) inputs(1) by (cases sigs) auto
  obtain c cs' where c: "check_carrier_sig i (of_nat n) d redeem (parse_script_pushes sig) = Ok c"
    "check_script_sigs pk (Suc i) sigs' rest = Ok cs'" "cs = c # cs'"
    using Cons.prems(1) unfolding inputs(1) sigs(1) by (auto simp: inputs(2) and_then_Ok_iff)
  show ?case
    using Cons.IH [OF c(2) sigs(2) inputs(3)] check_carrier_sig_chunk [OF c(1)] c(3) sigs(1) by simp
qed auto

lemma deploy_plan_kinds:
  assumes "deploy_plan hash160 pubkey_of key outpoints carriers chunks payload = Ok p"
  shows "map si_kind (pt_inputs p)
    = map (\<lambda>(j, d). CarrierSpend key (of_nat j) d (redeem_script (pubkey_of key))) (enumerate 0 chunks)"
proof (rule nth_equalityI)
  show "length (map si_kind (pt_inputs p)) = length (map (\<lambda>(j, d). CarrierSpend key (of_nat j :: u8) d
      (redeem_script (pubkey_of key))) (enumerate 0 chunks))"
    by (simp add: deploy_plan_inputs(1) [OF assms])
  fix i assume "i < length (map si_kind (pt_inputs p))"
  then have "i < length chunks" by (simp add: deploy_plan_inputs(1) [OF assms])
  then show "map si_kind (pt_inputs p) ! i = map (\<lambda>(j, d). CarrierSpend key (of_nat j) d
      (redeem_script (pubkey_of key))) (enumerate 0 chunks) ! i"
    using deploy_plan_inputs(1,3) [OF assms] by (simp add: nth_enumerate_eq)
qed

section \<open>A verified deployment\<close>

lemma transparent_deploy_plan:
  assumes "transparent_plan_of lib tf pid (ReqDeploy chunks outpoints carriers op_return) ctx = Ok p"
  shows "deploy_plan (wb_hash160 lib) (sl_pubkey (wb_signing lib)) (tf_key tf) outpoints carriers chunks op_return
      = Ok (tp_prepared p)"
    "tp_request p = ReqDeploy chunks outpoints carriers op_return"
  using assms by (auto simp: transparent_plan_of_def build_plan_def Let_def and_then_Ok_iff map_err_Ok_iff split: if_splits)

text \<open>C17. A transaction that passes verification against a transparent DEPLOY plan, however its bytes
  came about, deploys what was planned when it is mined: the indexer reads back the chunks of
  the plan and commits their concatenation under the derived contract id, if the message names
  its own output 0, the module validates and the id is free.\<close>

theorem verified_deploy_lands:
  assumes "transparent_plan_of wl tf pid (ReqDeploy chunks outpoints carriers op_return) ctx = Ok p"
    and "verify_extracted wl p stx = Ok ()"
    and "wb_read wl (st_bytes stx) (tp_branch_id p) = Ok parsed" "rd_transparent parsed = Some (vin, vout)"
    and "parse_op_return op_return = Ok (Some (Deploy d))" "dm_output_index d = 0"
    and "nl_sha lib = wb_sha wl"
    and "cid = derive_contract_id (nl_blake lib) (ic_network config) txid 0 (dm_code_hash d)"
    and "\<not> so_has_contract ops st cid" "validate_module (nl_engine lib) (concat chunks) = Ok ()"
  shows "\<exists>q. process_transactions lib ops st config
        [parse_transaction (txid, Some (map snd vin, map so_script_pubkey vout))] (start_block h hash) = Some q
    \<and> bc_deploys (pg_commit q) = [(cid, dm_code_hash d, concat chunks)] \<and> pg_deployed q = [cid]"
proof -
  note plan = transparent_deploy_plan [OF assms(1)]
  have checked: "map fst vin = map si_outpoint (pt_inputs (tp_prepared p))" "vout = pt_outputs (tp_prepared p)"
    "verify_script_sigs wl p (map snd vin) = Ok ()"
    using verify_extracted_Ok [OF assms(2,3)] assms(4) by (auto simp: verify_bundle_Ok)
  have msg: "accepted_message (Deploy d)" "op_return = encode_message (Deploy d)"
    using assms(5) by (auto simp: parse_op_return_Ok_iff)
  obtain cs wasm where cs: "check_script_sigs (sl_pubkey (wb_signing wl)) 0 (map snd vin) (pt_inputs (tp_prepared p)) = Ok cs"
    and code: "reconstruct (wb_sha wl) cs (dm_chunk_count d) (dm_code_length d) (dm_code_hash d) = Ok wasm"
    using checked(3) assms(5)
    by (auto simp: verify_script_sigs_def check_deploy_stream_def plan(2) and_then_Ok_iff map_err_Ok_iff)
  have "length vin = length (pt_inputs (tp_prepared p))" using map_eq_imp_length_eq [OF checked(1)] .
  then have sigs: "map chunk_from_script_sig (map snd vin) = map (\<lambda>(j, d). Some (of_nat j, d)) (enumerate 0 chunks)"
    "cs = number_chunks chunks"
    using check_script_sigs_carriers [OF cs _ deploy_plan_kinds [OF plan(1)]] by (simp_all add: number_chunks_def)
  let ?tx = "\<lparr>ft_branch = (), ft_lock_time = 0, ft_vin = map (\<lambda>(a, s). (a, s, 0)) vin, ft_outputs = vout\<rparr>"
  let ?px = "parse_transaction (mined txid ?tx)"
  have px: "parse_transaction (txid, Some (map snd vin, map so_script_pubkey vout)) = ?px"
    by (simp add: mined_def case_prod_unfold o_def)
  have chunks: "carrier_chunks ?px = number_chunks chunks"
    using sigs(1) by (intro mined_chunks) (simp add: case_prod_unfold o_def)
  have "wasm = concat chunks"
    using code unfolding sigs(2) by (rule reconstruct_number_chunks_concat)
  then have code': "reconstruct (nl_sha lib) (carrier_chunks ?px) (dm_chunk_count d) (dm_code_length d) (dm_code_hash d)
      = Ok (concat chunks)"
    using code by (simp add: chunks sigs(2) assms(7))
  have short: "length (encode_message (Deploy d)) \<le> 0xffff" by (simp add: encode_deploy_def params)
  obtain rest where "map so_script_pubkey vout = op_return_script (encode_message (Deploy d)) # rest"
    "\<forall>s \<in> set rest. output_message s = None"
    using deploy_outputs_messages [OF plan(1) [unfolded msg(2)] msg(1) short] checked(2) by blast
  then obtain others where outs: "px_outputs ?px = (0, op_return_script (encode_message (Deploy d))) # others"
    "\<forall>(i, s) \<in> set others. output_message s = None" "px_txid ?px = txid"
    using mined_outputs [of ?tx] by simp blast
  show ?thesis
    unfolding px
    using reconstructed_deploy_lands [OF outs(1,2) msg(1) assms(6) code' _ assms(9,10)] assms(8) outs(3) by simp
qed

end
