(* ===== verification/Plan_Stages.thy ===== *)
theory Plan_Stages
  imports Plan_Verify
begin

text \<open>
  The stages of a plan: the transaction a plan builds passes its own verification, and a plan
  gives out at most one transaction.
\<close>

section \<open>The planned transaction passes the checks\<close>

definition input_fits :: "('k \<Rightarrow> bytes) \<Rightarrow> ('k, outpoint) spend_input \<Rightarrow> bool" where
  "input_fits pubkey_of inp \<longleftrightarrow>
     (case si_kind inp of
        P2pkh key \<Rightarrow> length (pubkey_of key) \<le> 0xffff
      | CarrierSpend key i d redeem \<Rightarrow> d \<noteq> [] \<and> length redeem \<le> 0xffff)"

definition der_ok :: "('k, 'o, 'b) signing_lib \<Rightarrow> bool" where
  "der_ok sl \<longleftrightarrow> (\<forall>k msg. der_shaped (sl_sign_der sl k msg) \<and> length (sl_sign_der sl k msg) < 0xffff)"

definition planned_chunks :: "('k, outpoint) spend_input list \<Rightarrow> chunk list" where
  "planned_chunks inputs = List.map_filter (\<lambda>inp. case si_kind inp of
     P2pkh _ \<Rightarrow> None | CarrierSpend _ i d _ \<Rightarrow> Some \<lparr>ch_index = i, ch_data = d\<rparr>) inputs"

lemma der_ok_sig:
  assumes "der_ok sl"
  shows "der_shaped (sl_sign_der sl k msg @ [1])" "length (sl_sign_der sl k msg @ [1]) \<le> 0xffff"
proof -
  have "der_shaped (sl_sign_der sl k msg)" "length (sl_sign_der sl k msg) < 0xffff"
    using assms by (simp_all add: der_ok_def)
  then show "der_shaped (sl_sign_der sl k msg @ [1])" "length (sl_sign_der sl k msg @ [1]) \<le> 0xffff"
    by (cases "sl_sign_der sl k msg"; simp add: der_shaped_def)+
qed

lemma check_signed_input:
  assumes "der_ok sl" "input_fits (sl_pubkey sl) inp"
  shows "case si_kind inp of
      P2pkh key \<Rightarrow> check_p2pkh_sig j (sl_pubkey sl key) (parse_script_pushes (sign_input sl ef n inp)) = Ok ()
    | CarrierSpend key i d redeem \<Rightarrow>
        check_carrier_sig j i d redeem (parse_script_pushes (sign_input sl ef n inp)) = Ok \<lparr>ch_index = i, ch_data = d\<rparr>"
proof (cases "si_kind inp")
  case (P2pkh key)
  then have "parse_script_pushes (sign_input sl ef n inp)
      = [sl_sign_der sl key (sl_sighash sl ef n (si_script_code inp) (si_script_pubkey inp) (si_value inp)) @ [1],
         sl_pubkey sl key]"
    using assms(2) der_ok_sig(2) [OF assms(1)] parse_script_pushes_push_data [of "sl_pubkey sl key" "[]"]
    by (simp add: sign_input_def p2pkh_script_sig_def input_fits_def Let_def parse_script_pushes_push_data
        del: length_append)
  then show ?thesis
    using der_ok_sig(1) [OF assms(1)] by (simp add: P2pkh check_p2pkh_sig_def)
next
  case (CarrierSpend key i d redeem)
  let ?sig = "sl_sign_der sl key (sl_sighash sl ef n (si_script_code inp) (si_script_pubkey inp) (si_value inp)) @ [1]"
  have d: "d \<noteq> []" "length redeem \<le> 0xffff" using assms(2) CarrierSpend by (simp_all add: input_fits_def)
  have pushes: "parse_script_pushes (sign_input sl ef n inp) = [i] # chunks_of MAX_PUSH_SIZE d @ [?sig, redeem]"
    using carrier_script_sig_pushes [OF der_ok_sig(2) [OF assms(1)] d(2)]
    by (simp add: sign_input_def CarrierSpend Let_def)
  have "chunks_of MAX_PUSH_SIZE d \<noteq> []" using d(1) by (subst chunks_of.simps) (simp add: params)
  moreover have "concat (chunks_of MAX_PUSH_SIZE d) = d" by (rule concat_chunks_of) (simp add: params)
  ultimately show ?thesis
    using der_ok_sig(1) [OF assms(1)]
    by (cases "chunks_of MAX_PUSH_SIZE d") (simp_all add: CarrierSpend pushes check_carrier_sig_def Let_def slice_def nth_append)
qed

lemma check_signed_inputs:
  assumes "der_ok sl" "\<forall>inp \<in> set inputs. input_fits (sl_pubkey sl) inp"
  shows "check_script_sigs (sl_pubkey sl) j (map (\<lambda>(i, inp). sign_input sl ef i inp) (enumerate n inputs)) inputs
    = Ok (planned_chunks inputs)"
  using assms(2)
proof (induction inputs arbitrary: j n)
  case (Cons inp inputs)
  then show ?case
    using check_signed_input [OF assms(1), of inp j ef n]
    by (cases "si_kind inp") (simp_all add: planned_chunks_def map_filter_simps)
qed (simp add: planned_chunks_def map_filter_simps)

lemma checked_sum_exact:
  "unat acc + total vs < 18446744073709551616 \<Longrightarrow> checked_sum acc vs = Some (acc + sum_list vs)"
proof (induction vs arbitrary: acc)
  case (Cons v vs)
  have "unat (acc + v) = unat acc + unat v"
    using Cons.prems by (simp add: unat_word_ariths)
  then show ?case
    using Cons.IH [of "acc + v"] Cons.prems by (simp add: checked_add64_def add.assoc)
qed simp

lemma check_fee_conserved:
  assumes "value_conserved q" "total (map si_value (pt_inputs q)) < 18446744073709551616"
  shows "check_fee q (pt_outputs q) = Ok ()"
proof -
  have tot: "total (map si_value (pt_inputs q)) = total (map so_value (pt_outputs q)) + unat (pt_fee q)"
    using assms(1) by (simp add: value_conserved_def)
  then have outs: "total (map so_value (pt_outputs q)) < 18446744073709551616" using assms(2) by simp
  have "checked_sum 0 (map so_value (pt_outputs q)) = Some (sum_list (map so_value (pt_outputs q)))"
    using checked_sum_exact [of 0 "map so_value (pt_outputs q)"] outs by simp
  moreover have "checked_sub (sum_list (map si_value (pt_inputs q))) (sum_list (map so_value (pt_outputs q))) = Some (pt_fee q)"
    using tot unat_sum_list_exact [OF assms(2)] unat_sum_list_exact [OF outs] by (simp add: checked_sub_Some_iff)
  ultimately show ?thesis by (simp add: check_fee_def)
qed

text \<open>librustzcash's reader gives back what its serializer wrote, as a V5 transaction without expiry.\<close>

definition reads_back :: "('k, 'b) wallet_lib \<Rightarrow> ('k, outpoint, 'b) final_tx \<Rightarrow> bool" where
  "reads_back lib tx \<longleftrightarrow>
     wb_read lib (sl_serialize (wb_signing lib) tx) (ft_branch tx)
       = Ok \<lparr>rd_version = V5, rd_expiry = 0,
             rd_transparent = Some (map (\<lambda>(prevout, sig, _). (prevout, sig)) (ft_vin tx), ft_outputs tx)\<rparr>"

lemma assembled_parts:
  assumes "assemble_tx sl inputs outputs lt br = Ok tx"
  shows "\<exists>ef. map (\<lambda>(prevout, sig, _). (prevout, sig)) (ft_vin tx)
      = zip (map si_outpoint inputs) (map (\<lambda>(i, inp). sign_input sl ef i inp) (enumerate 0 inputs))"
    "ft_outputs tx = outputs" "ft_branch tx = br"
  using assms by (auto simp: assemble_tx_def Let_def zip_map1 zip_map2 split: if_splits)

lemma built_transaction_verifies:
  assumes tx: "assemble_tx (wb_signing lib) (pt_inputs (tp_prepared p)) (pt_outputs (tp_prepared p)) 0 (tp_branch_id p) = Ok tx"
    and "reads_back lib tx" "der_ok (wb_signing lib)"
    and "\<forall>inp \<in> set (pt_inputs (tp_prepared p)). input_fits (sl_pubkey (wb_signing lib)) inp"
    and "value_conserved (tp_prepared p)" "total (map si_value (pt_inputs (tp_prepared p))) < 18446744073709551616"
    and "check_deploy_stream (wb_sha lib) (tp_request p) (planned_chunks (pt_inputs (tp_prepared p))) = Ok ()"
  shows "verify_extracted lib p \<lparr>st_bytes = sl_serialize (wb_signing lib) tx, st_txid = sl_txid (wb_signing lib) tx\<rparr> = Ok ()"
proof -
  obtain ef where vin: "map (\<lambda>(prevout, sig, _). (prevout, sig)) (ft_vin tx)
      = zip (map si_outpoint (pt_inputs (tp_prepared p)))
          (map (\<lambda>(i, inp). sign_input (wb_signing lib) ef i inp) (enumerate 0 (pt_inputs (tp_prepared p))))"
    using assembled_parts(1) [OF tx] by blast
  have "verify_bundle lib p (zip (map si_outpoint (pt_inputs (tp_prepared p)))
      (map (\<lambda>(i, inp). sign_input (wb_signing lib) ef i inp) (enumerate 0 (pt_inputs (tp_prepared p)))))
      (pt_outputs (tp_prepared p)) = Ok ()"
    using check_signed_inputs [OF assms(3,4)] check_fee_conserved [OF assms(5,6)] assms(7)
    by (simp add: verify_bundle_Ok verify_script_sigs_def del: map_map)
  then show ?thesis
    using assms(2) by (simp add: verify_extracted_def reads_back_def vin assembled_parts(2,3) [OF tx])
qed

section \<open>Requests\<close>

text \<open>Amounts fit 64 bits, and a deployment's message describes its non-empty chunks.\<close>

fun request_fits :: "sha \<Rightarrow> tx_request \<Rightarrow> bool" where
  "request_fits sha (ReqPrepare carriers) \<longleftrightarrow> total carriers < 2 ^ 64"
| "request_fits sha (ReqDeploy chunks outpoints carriers op_return) \<longleftrightarrow>
     total carriers < 2 ^ 64 \<and> [] \<notin> set chunks
     \<and> check_deploy_stream sha (ReqDeploy chunks outpoints carriers op_return) (number_chunks chunks) = Ok ()"
| "request_fits sha (ReqCall op_return) \<longleftrightarrow> True"

lemma p2pkh_chunks: "\<forall>inp \<in> set inputs. \<exists>key. si_kind inp = P2pkh key \<Longrightarrow> planned_chunks inputs = []"
  by (induction inputs) (auto simp: planned_chunks_def map_filter_simps)

lemma carrier_planned_chunks:
  "map si_kind inputs = map (\<lambda>(j, d). CarrierSpend key (of_nat j) d redeem) (enumerate n chunks) \<Longrightarrow>
     planned_chunks inputs = map (\<lambda>(j, d). \<lparr>ch_index = of_nat j, ch_data = d\<rparr>) (enumerate n chunks)"
proof (induction chunks arbitrary: inputs n)
  case (Cons d chunks)
  then obtain inp rest where "inputs = inp # rest" "si_kind inp = CarrierSpend key (of_nat n) d redeem"
    "map si_kind rest = map (\<lambda>(j, d). CarrierSpend key (of_nat j) d redeem) (enumerate (Suc n) chunks)"
    by (cases inputs) auto
  then show ?case using Cons.IH [of rest "Suc n"] by (simp add: planned_chunks_def map_filter_simps)
qed (simp add: planned_chunks_def map_filter_simps)

text \<open>What planning leaves for the checks of a plan.\<close>

definition plan_fits :: "('k, 'b) wallet_lib \<Rightarrow> tx_request \<Rightarrow> ('k, outpoint) prepared_tx \<Rightarrow> bool" where
  "plan_fits lib req q \<longleftrightarrow>
     (\<forall>inp \<in> set (pt_inputs q). input_fits (sl_pubkey (wb_signing lib)) inp)
     \<and> value_conserved q \<and> total (map si_value (pt_inputs q)) < 18446744073709551616
     \<and> check_deploy_stream (wb_sha lib) req (planned_chunks (pt_inputs q)) = Ok ()"

lemma build_plan_fits:
  assumes "build_plan lib tf req = Ok q" "length (sl_pubkey (wb_signing lib) (tf_key tf)) = 33"
    and "total (map fu_value (tf_utxos tf)) < 2 ^ 64" "request_fits (wb_sha lib) req"
  shows "plan_fits lib req q"
proof (cases req)
  case (ReqPrepare carriers)
  let ?utxos = "map (\<lambda>u. (fu_outpoint u, fu_value u)) (tf_utxos tf)"
  have plan: "prepare_plan (wb_hash160 lib) (sl_pubkey (wb_signing lib)) (tf_key tf) ?utxos carriers = Ok q"
    using assms(1) ReqPrepare by (auto simp: build_plan_def Let_def split: if_splits)
  have vals: "map snd ?utxos = map fu_value (tf_utxos tf)" by simp
  have tot: "total (map snd ?utxos) < 18446744073709551616" unfolding vals using assms(3) by simp
  have ins: "pt_inputs q = map (\<lambda>(outpoint, v). p2pkh_input (wb_hash160 lib)
      (sl_pubkey (wb_signing lib) (tf_key tf)) (tf_key tf) outpoint v) ?utxos"
    using plan by (auto simp: prepare_plan_def Let_def split: if_splits)
  have "map si_value (pt_inputs q) = map snd ?utxos" unfolding ins by (rule total_p2pkh_inputs)
  then have "total (map si_value (pt_inputs q)) < 18446744073709551616" using tot by (simp only:)
  moreover have "value_conserved q"
    using prepare_plan_conserved [OF plan tot] assms(4) ReqPrepare by simp
  moreover have p2pkh: "\<forall>inp \<in> set (pt_inputs q). si_kind inp = P2pkh (tf_key tf)"
    unfolding ins by (auto simp: p2pkh_input_def)
  moreover have "planned_chunks (pt_inputs q) = []" by (rule p2pkh_chunks) (use p2pkh in blast)
  ultimately show ?thesis
    using assms(2) by (simp add: plan_fits_def ReqPrepare check_deploy_stream_def input_fits_def)
next
  case (ReqDeploy chunks outpoints carriers op_return)
  have plan: "deploy_plan (wb_hash160 lib) (sl_pubkey (wb_signing lib)) (tf_key tf) outpoints carriers chunks op_return = Ok q"
    using assms(1) ReqDeploy by (simp add: build_plan_def Let_def)
  have lens: "length outpoints = length chunks" "length outpoints = length carriers"
    and ins: "pt_inputs q = map (carrier_input (wb_hash160 lib) (sl_pubkey (wb_signing lib) (tf_key tf)) (tf_key tf))
        (enumerate 0 (zip (zip outpoints carriers) chunks))"
    using plan by (auto simp: deploy_plan_def Let_def split: if_splits)
  have tot: "total (map si_value (pt_inputs q)) < 18446744073709551616"
    unfolding ins carrier_input_values [OF lens] using assms(4) ReqDeploy by simp
  have "value_conserved q"
    using deploy_plan_conserved [OF plan] assms(4) ReqDeploy by simp
  moreover have "planned_chunks (pt_inputs q) = number_chunks chunks"
    using carrier_planned_chunks [OF deploy_plan_kinds [OF plan]] by (simp add: number_chunks_def)
  moreover have "input_fits (sl_pubkey (wb_signing lib)) inp" if mem: "inp \<in> set (pt_inputs q)" for inp
  proof -
    obtain i where i: "i < length (pt_inputs q)" "pt_inputs q ! i = inp"
      using mem unfolding in_set_conv_nth by blast
    then have n: "i < length chunks" using deploy_plan_inputs(1) [OF plan] by simp
    have ne: "\<forall>d \<in> set chunks. d \<noteq> []" using assms(4) ReqDeploy by auto
    show ?thesis
      using deploy_plan_inputs(3) [OF plan n] bspec [OF ne nth_mem [OF n]] i(2) assms(2)
      by (simp add: input_fits_def redeem_script_def)
  qed
  ultimately show ?thesis using tot assms(4) by (simp add: plan_fits_def ReqDeploy)
next
  case (ReqCall op_return)
  then obtain u us where u: "tf_utxos tf = u # us"
    "call_plan (wb_hash160 lib) (sl_pubkey (wb_signing lib)) (tf_key tf) (fu_outpoint u) (fu_value u) op_return = Ok q"
    using assms(1) by (auto simp: build_plan_def Let_def split: list.splits)
  then have ins: "pt_inputs q = [p2pkh_input (wb_hash160 lib) (sl_pubkey (wb_signing lib) (tf_key tf)) (tf_key tf)
      (fu_outpoint u) (fu_value u)]"
    by (auto simp: call_plan_def Let_def)
  have "planned_chunks (pt_inputs q) = []" unfolding ins by (rule p2pkh_chunks) (simp add: p2pkh_input_def)
  then show ?thesis
    using call_plan_conserved [OF u(2)] assms(2)
    by (simp add: plan_fits_def ReqCall check_deploy_stream_def ins input_fits_def p2pkh_input_def)
qed

section \<open>Authorization\<close>

lemma if_fresh_current:
  assumes "\<forall>x. snd (src x) = Ok (tp_canonical_tip p)"
  shows "if_fresh src f (x, p) = f (tp_canonical_tip p) (fst (src x), p)"
proof -
  have "src x = (fst (src x), Ok (tp_canonical_tip p))"
    using assms by (metis prod.collapse)
  then have "query_tip src (x, p) = ((fst (src x), p), Ok (tp_canonical_tip p))"
    unfolding query_tip_def by (metis (no_types, lifting) map_err.simps(2) old.prod.case)
  then show ?thesis
    by (simp add: if_fresh_def on_plan_def check_freshness_def bind_step_Ok)
qed

text \<open>A planned transaction can be authorized: while the node stays at the tip the plan is pinned
  to, proving, signing and verified extraction succeed for any PREPARE, DEPLOY or CALL whose
  amounts fit 64 bits and whose message fits its chunks, and give the assembled transaction
  with the plan's id, its commitment and that tip. The signatures and librustzcash's reader
  are parameters with their documented behaviour.\<close>

lemma plan_authorizes:
  assumes "transparent_plan_of lib tf pid req ctx = Ok p" "\<forall>x. snd (src x) = Ok (fc_chain_tip ctx)"
    and "assemble_tx (wb_signing lib) (pt_inputs (tp_prepared p)) (pt_outputs (tp_prepared p)) 0 (tp_branch_id p) = Ok tx"
    and "reads_back lib tx" "der_ok (wb_signing lib)" "length (sl_pubkey (wb_signing lib) (tf_key tf)) = 33"
    and "total (map fu_value (tf_utxos tf)) < 2 ^ 64" "request_fits (wb_sha lib) req"
  shows "\<exists>x'. bind_step (prove_plan src) (\<lambda>_. bind_step (sign_plan lib src) (\<lambda>_. extract_verified lib src)) (x, p)
    = ((x', p\<lparr>tp_stage := StageExtracted\<rparr>),
       Ok \<lparr>vt_bytes = sl_serialize (wb_signing lib) tx, vt_txid = sl_txid (wb_signing lib) tx, vt_plan_id = pid,
           vt_intent_hash = tp_intent_hash p, vt_tip = fc_chain_tip ctx\<rparr>)"
proof -
  have p: "build_plan lib tf req = Ok (tp_prepared p)" "tp_request p = req" "tp_canonical_tip p = fc_chain_tip ctx"
    "tp_stage p = StagePlanned" "tp_signed p = None" "tp_plan_id p = pid"
    using assms(1) by (auto simp: transparent_plan_of_def Let_def split: if_splits)
  let ?stx = "\<lparr>st_bytes = sl_serialize (wb_signing lib) tx, st_txid = sl_txid (wb_signing lib) tx\<rparr>"
  have fits: "plan_fits lib (tp_request p) (tp_prepared p)"
    using build_plan_fits [OF p(1) assms(6,7,8)] p(2) by simp
  have same: "p\<lparr>tp_stage := s, tp_signed := None\<rparr> = p\<lparr>tp_stage := s\<rparr>" for s
    using p(5) by (cases p) simp
  have "verify_extracted lib (p\<lparr>tp_stage := StageExtracted, tp_signed := None\<rparr>) ?stx = Ok ()"
    using fits assms(3,4,5) by (intro built_transaction_verifies) (simp_all add: plan_fits_def)
  then show ?thesis
    using p assms(2,3)
    by (simp add: prove_plan_def sign_plan_def extract_verified_def extract_plan_def bind_step_def if_fresh_current
        on_plan_def prove_transparent_def sign_transparent_def extract_transparent_def expect_stage_def
        build_transparent_tx_def same)
qed

section \<open>A concrete deployment\<close>

definition demo_plan_signing :: "(unit, outpoint, unit) signing_lib" where
  "demo_plan_signing =
     \<lparr>sl_zatoshis_ok = \<lambda>_. True, sl_input_ok = \<lambda>_. True, sl_sighash = \<lambda>_ _ _ _ _. [],
      sl_sign_der = \<lambda>_ _. [48], sl_pubkey = \<lambda>_. replicate 33 2, sl_serialize = \<lambda>_. [7],
      sl_txid = \<lambda>_. fill32 4\<rparr>"

text \<open>A reader that knows one transaction.\<close>

definition demo_wallet_lib :: "(unit, outpoint, unit) final_tx \<Rightarrow> (unit, unit) wallet_lib" where
  "demo_wallet_lib tx =
     \<lparr>wb_hex = plain_hex, wb_sha = \<lambda>x. fill32 0, wb_hash160 = \<lambda>_. replicate 20 0,
      wb_signing = demo_plan_signing, wb_for_height = \<lambda>_ _. (), wb_branch_u32 = \<lambda>_. 1,
      wb_read = \<lambda>_ _. Ok \<lparr>rd_version = V5, rd_expiry = 0,
        rd_transparent = Some (map (\<lambda>(prevout, sig, _). (prevout, sig)) (ft_vin tx), ft_outputs tx)\<rparr>\<rparr>"

definition demo_funding :: "unit transparent_funding" where
  "demo_funding = \<lparr>tf_key = (), tf_utxos = [\<lparr>fu_outpoint = \<lparr>ou_hash = fill32 1, ou_n = 0\<rparr>, fu_value = 5\<rparr>]\<rparr>"

definition demo_message :: deploy_message where
  "demo_message = deploy_message_for (\<lambda>x. fill32 0) [9] [[9]]"

definition demo_request :: tx_request where
  "demo_request = ReqDeploy [[9]] [\<lparr>ou_hash = fill32 1, ou_n = 0\<rparr>] [100000] (encode_message (Deploy demo_message))"

definition demo_context :: fund_context where
  "demo_context = fund_context_new Regtest \<lparr>ct_height = 7, ct_hash = fill32 7\<rparr>"

lemma demo_message_parses: "parse_op_return (encode_message (Deploy demo_message)) = Ok (Some (Deploy demo_message))"
  by (simp only: parse_encode_message) (simp add: demo_message_def deploy_message_for_def params)

lemma demo_request_fits: "request_fits (\<lambda>x. fill32 0) demo_request"
  using demo_message_parses reconstruct_number_chunks [OF demo_split, of "\<lambda>x. fill32 0"]
  by (simp add: demo_request_def check_deploy_stream_def del: encode_message.simps)
    (simp add: demo_message_def deploy_message_for_def)

lemma demo_fee:
  "length payload = 45 \<Longrightarrow> deploy_fee (\<lambda>_. replicate 20 0) (replicate 33 2) [[9]] payload = 15000"
  by (simp add: deploy_fee_def Let_def zip317_fee_from_sizes_def div_ceil_def params input_serialized_size_def
      output_serialized_size_def serialized_script_size_def carrier_script_sig_len_def chunk_pushes_len.simps
      push_overhead_def p2pkh_script_pubkey_def op_return_script_def length_push_data)

lemma demo_prepared:
  "\<exists>q tx. (\<forall>t. build_plan (demo_wallet_lib t) demo_funding demo_request = Ok q)
    \<and> assemble_tx demo_plan_signing (pt_inputs q) (pt_outputs q) 0 () = Ok tx"
proof -
  have "length (encode_message (Deploy demo_message)) = 45" by (simp add: encode_deploy_def params)
  note fee = demo_fee [OF this]
  show ?thesis
    by (simp add: build_plan_def demo_wallet_lib_def demo_funding_def demo_request_def deploy_plan_def fee
        Let_def checked_sub_def assemble_tx_def demo_plan_signing_def del: encode_message.simps)
qed

lemma demo_planned:
  obtains p tx where "transparent_plan_of (demo_wallet_lib tx) demo_funding ''p1'' demo_request demo_context = Ok p"
    "assemble_tx demo_plan_signing (pt_inputs (tp_prepared p)) (pt_outputs (tp_prepared p)) 0 (tp_branch_id p) = Ok tx"
    "tp_stage p = StagePlanned" "tp_signed p = None"
proof -
  obtain q tx where q: "\<forall>t. build_plan (demo_wallet_lib t) demo_funding demo_request = Ok q"
    "assemble_tx demo_plan_signing (pt_inputs q) (pt_outputs q) 0 () = Ok tx"
    using demo_prepared by blast
  obtain p where p: "transparent_plan_of (demo_wallet_lib tx) demo_funding ''p1'' demo_request demo_context = Ok p"
    "tp_prepared p = q" "tp_stage p = StagePlanned" "tp_signed p = None"
    using q(1)
    by (simp add: transparent_plan_of_def validate_context_def demo_context_def fund_context_new_def demo_funding_def Let_def)
  show thesis using that [OF p(1) _ p(3,4)] q(2) p(2) by simp
qed

lemma demo_lib_facts:
  "reads_back (demo_wallet_lib tx) tx" "der_ok (wb_signing (demo_wallet_lib tx))"
  "wb_signing (demo_wallet_lib tx) = demo_plan_signing" "wb_sha (demo_wallet_lib tx) = (\<lambda>x. fill32 0)"
  by (simp_all add: reads_back_def der_ok_def der_shaped_def demo_wallet_lib_def demo_plan_signing_def)

lemma verified_deploy_lands_witness:
  "\<exists>p tx vin vout q. transparent_plan_of (demo_wallet_lib tx) demo_funding ''p1'' demo_request demo_context = Ok p
    \<and> verify_extracted (demo_wallet_lib tx) p \<lparr>st_bytes = [7], st_txid = fill32 4\<rparr> = Ok ()
    \<and> process_transactions demo_lib (memory_ops (\<lambda>p x. fill32 0)) memory_new demo_config
        [parse_transaction (fill32 4, Some (vin, vout))] (start_block 5 (fill32 9)) = Some q
    \<and> bc_deploys (pg_commit q) = [(fill32 0, fill32 0, [9])]"
proof -
  obtain p tx where p: "transparent_plan_of (demo_wallet_lib tx) demo_funding ''p1'' demo_request demo_context = Ok p"
    and tx: "assemble_tx demo_plan_signing (pt_inputs (tp_prepared p)) (pt_outputs (tp_prepared p)) 0 (tp_branch_id p) = Ok tx"
    using demo_planned by blast
  let ?vin = "map (\<lambda>(prevout, sig, _). (prevout, sig)) (ft_vin tx)"
  let ?read = "\<lparr>rd_version = V5, rd_expiry = 0, rd_transparent = Some (?vin, ft_outputs tx)\<rparr>"
  have built: "build_plan (demo_wallet_lib tx) demo_funding demo_request = Ok (tp_prepared p)" "tp_request p = demo_request"
    using p by (auto simp: transparent_plan_of_def Let_def split: if_splits)
  have "plan_fits (demo_wallet_lib tx) (tp_request p) (tp_prepared p)"
    using build_plan_fits [OF built(1)] demo_request_fits
    by (simp add: built(2) demo_lib_facts demo_plan_signing_def demo_funding_def)
  then have ok: "verify_extracted (demo_wallet_lib tx) p \<lparr>st_bytes = [7], st_txid = fill32 4\<rparr> = Ok ()"
    using built_transaction_verifies [of "demo_wallet_lib tx" p tx] tx demo_lib_facts(1,2) [of tx]
    by (simp add: plan_fits_def demo_lib_facts(3)) (simp add: demo_plan_signing_def)
  have read: "wb_read (demo_wallet_lib tx) (st_bytes \<lparr>st_bytes = [7], st_txid = fill32 4\<rparr>) (tp_branch_id p) = Ok ?read"
    by (simp add: demo_wallet_lib_def)
  have module: "validate_module (nl_engine demo_lib) (concat [[9]]) = Ok ()"
    by (simp add: demo_lib_def validate_module_def demo_engine_def parse_module_contained_def
        count_module_entities_def check_counts_def params)
  have cid: "fill32 0 = derive_contract_id (nl_blake demo_lib) (ic_network demo_config) (fill32 4) 0 (dm_code_hash demo_message)"
    by (simp add: derive_contract_id_def demo_lib_def)
  have free: "\<not> so_has_contract (memory_ops (\<lambda>p x. fill32 0)) memory_new (fill32 0)"
    by (simp add: memory_ops_def memory_new_def)
  have msg: "dm_output_index demo_message = 0" "dm_code_hash demo_message = fill32 0"
    by (simp_all add: demo_message_def deploy_message_for_def)
  have sha: "nl_sha demo_lib = wb_sha (demo_wallet_lib tx)"
    by (simp add: demo_lib_def demo_wallet_lib_def)
  show ?thesis
    using verified_deploy_lands [OF p [unfolded demo_request_def] ok read _ demo_message_parses msg(1) sha cid free module,
        of ?vin "ft_outputs tx" 5 "fill32 9"] p ok
    by (simp add: msg(2)) blast
qed

section \<open>One transaction per plan\<close>

datatype handed_out =
    Extracted signed_tx
  | HandedOver verified_tx

text \<open>Any calls of the stages, with time passing in between, and what they give out.\<close>

inductive authorized ::
    "('k, 'b) wallet_lib \<Rightarrow> ('k, 'b) transparent_plan \<Rightarrow> 'w \<times> ('k, 'b) transparent_plan \<Rightarrow> handed_out list \<Rightarrow> bool"
  for lib p0 where
  starts: "authorized lib p0 (x, p0) []"
| waits: "authorized lib p0 (x, p) outs \<Longrightarrow> authorized lib p0 (y, p) outs"
| proves: "authorized lib p0 s outs \<Longrightarrow> prove_plan src s = (s', r) \<Longrightarrow> authorized lib p0 s' outs"
| signs: "authorized lib p0 s outs \<Longrightarrow> sign_plan lib src s = (s', r) \<Longrightarrow> authorized lib p0 s' outs"
| extracts: "authorized lib p0 s outs \<Longrightarrow> extract_plan src s = (s', r) \<Longrightarrow>
    authorized lib p0 s' (outs @ (case r of Inl e \<Rightarrow> [] | Inr tx \<Rightarrow> [Extracted tx]))"
| hands_over: "authorized lib p0 s outs \<Longrightarrow> extract_verified lib src s = (s', r) \<Longrightarrow>
    authorized lib p0 s' (outs @ (case r of Inl e \<Rightarrow> [] | Inr vt \<Rightarrow> [HandedOver vt]))"

definition planned_build :: "('k, 'b) wallet_lib \<Rightarrow> ('k, 'b) transparent_plan \<Rightarrow> (build_error, signed_tx) result" where
  "planned_build lib p =
     build_transparent_tx (wb_signing lib) (pt_inputs (tp_prepared p)) (pt_outputs (tp_prepared p)) 0 (tp_branch_id p)"

fun output_ok :: "('k, 'b) wallet_lib \<Rightarrow> ('k, 'b) transparent_plan \<Rightarrow> handed_out \<Rightarrow> bool" where
  "output_ok lib p (Extracted tx) \<longleftrightarrow> planned_build lib p = Ok tx"
| "output_ok lib p (HandedOver vt) \<longleftrightarrow>
     (\<exists>tx. planned_build lib p = Ok tx \<and> verify_extracted lib p tx = Ok ()
        \<and> vt = \<lparr>vt_bytes = st_bytes tx, vt_txid = st_txid tx, vt_plan_id = tp_plan_id p,
                vt_intent_hash = tp_intent_hash p, vt_tip = tp_canonical_tip p\<rparr>)"

definition plan_inv :: "('k, 'b) wallet_lib \<Rightarrow> ('k, 'b) transparent_plan \<Rightarrow> ('k, 'b) transparent_plan \<Rightarrow> handed_out list \<Rightarrow> bool" where
  "plan_inv lib p0 p outs \<longleftrightarrow>
     p = p0\<lparr>tp_stage := tp_stage p, tp_signed := tp_signed p\<rparr>
     \<and> (case tp_stage p of
          StageSigned \<Rightarrow> outs = [] \<and> (\<exists>tx. tp_signed p = Some tx \<and> planned_build lib p0 = Ok tx)
        | StageExtracted \<Rightarrow> tp_signed p = None \<and> (outs = [] \<or> (\<exists>out. outs = [out] \<and> output_ok lib p0 out))
        | _ \<Rightarrow> outs = [] \<and> tp_signed p = None)"

lemma verify_bundle_staged:
  "verify_bundle lib (p\<lparr>tp_stage := s, tp_signed := t\<rparr>) = verify_bundle lib p"
proof -
  have sigs: "verify_script_sigs lib (p\<lparr>tp_stage := s, tp_signed := t\<rparr>) = verify_script_sigs lib p"
    by (intro ext) (simp add: verify_script_sigs_def)
  show ?thesis unfolding verify_bundle_def sigs by simp
qed

lemma verify_extracted_staged [simp]:
  "verify_extracted lib (p\<lparr>tp_stage := s, tp_signed := t\<rparr>) tx = verify_extracted lib p tx"
  unfolding verify_extracted_def verify_bundle_staged by simp

lemma if_freshE:
  assumes "if_fresh src f s = (s', r)"
  obtains (stale) x e where "s' = (x, snd s)" "r = Err e"
    | (fresh) x where "f (tp_canonical_tip (snd s)) (x, snd s) = (s', r)"
proof -
  obtain x p where s: "s = (x, p)" by fastforce
  obtain x1 t where t: "src x = (x1, t)" by fastforce
  show thesis
    using assms t stale fresh
    by (cases t) (auto simp: s if_fresh_def query_tip_def bind_step_def on_plan_def check_freshness_def split: if_splits)
qed

lemma extract_plan_inv:
  assumes "extract_plan src s = (s', r)" "plan_inv lib p0 (snd s) outs"
  shows "case r of Err e \<Rightarrow> plan_inv lib p0 (snd s') outs
    | Ok tx \<Rightarrow> outs = [] \<and> planned_build lib p0 = Ok tx \<and> tp_stage (snd s') = StageExtracted \<and> tp_signed (snd s') = None
        \<and> snd s' = p0\<lparr>tp_stage := StageExtracted, tp_signed := None\<rparr>"
  using assms(1) unfolding extract_plan_def
proof (cases rule: if_freshE)
  case (fresh x)
  have "p = p0\<lparr>tp_stage := a, tp_signed := b\<rparr> \<Longrightarrow>
      p\<lparr>tp_signed := None, tp_stage := StageExtracted\<rparr> = p0\<lparr>tp_stage := StageExtracted, tp_signed := None\<rparr>" for p a b
    by simp
  with fresh assms(2) show ?thesis
    by (auto simp: on_plan_def extract_transparent_def expect_stage_def plan_inv_def split: if_splits option.splits)
qed (use assms(2) in simp)

lemma authorized_inv:
  assumes "authorized lib p0 s outs" "tp_stage p0 = StagePlanned" "tp_signed p0 = None"
  shows "plan_inv lib p0 (snd s) outs"
  using assms
proof (induction rule: authorized.induct)
  case (proves s outs src s' r)
  from proves.hyps(2) show ?case unfolding prove_plan_def
    by (cases rule: if_freshE)
      (use proves.IH proves.prems in \<open>auto simp: on_plan_def prove_transparent_def expect_stage_def plan_inv_def
        split: if_splits plan_stage.splits\<close>)
next
  case (signs s outs src s' r)
  from signs.hyps(2) show ?case unfolding sign_plan_def
    by (cases rule: if_freshE)
      (use signs.IH signs.prems in \<open>auto simp: on_plan_def sign_transparent_def expect_stage_def plan_inv_def planned_build_def
        split: if_splits plan_stage.splits sum.splits\<close>)
next
  case (extracts s outs src s' r)
  then have inv: "plan_inv lib p0 (snd s) outs" by blast
  show ?case
    using extract_plan_inv [OF extracts.hyps(2) inv] by (cases r) (simp, simp add: plan_inv_def)
next
  case (hands_over s outs src s' r)
  then have inv: "plan_inv lib p0 (snd s) outs" by blast
  from hands_over.hyps(2) show ?case unfolding extract_verified_def
  proof (cases rule: if_freshE)
    case (fresh x)
    have inv': "plan_inv lib p0 (snd (x, snd s)) outs" using inv by simp
    from fresh show ?thesis
    proof (cases rule: bind_stepE)
      case (failed e)
      then show ?thesis using extract_plan_inv [OF failed(1) inv'] by simp
    next
      case (ok s1 tx)
      note out = extract_plan_inv [OF ok(1) inv']
      have tip: "tp_canonical_tip (snd s) = tp_canonical_tip p0"
        using inv by (metis (no_types, lifting) plan_inv_def transparent_plan.select_convs(6) transparent_plan.surjective
            transparent_plan.update_convs(7) transparent_plan.update_convs(8))
      have p1: "snd s1 = p0\<lparr>tp_stage := StageExtracted, tp_signed := None\<rparr>" "outs = []" "planned_build lib p0 = Ok tx"
        using out by simp_all
      then have r: "snd s' = snd s1" "r = and_then (verify_extracted lib p0 tx) (\<lambda>_.
          Ok \<lparr>vt_bytes = st_bytes tx, vt_txid = st_txid tx, vt_plan_id = tp_plan_id p0,
              vt_intent_hash = tp_intent_hash p0, vt_tip = tp_canonical_tip p0\<rparr>)"
        using ok(2) tip by (auto simp: on_plan_def split: prod.splits)
      show ?thesis
        using r p1 by (cases "verify_extracted lib p0 tx") (simp_all add: plan_inv_def)
    qed
  qed (use inv in simp)
qed (auto simp: plan_inv_def)

text \<open>C18. However the stages of a plan are called, and whatever the node answers: the plan keeps its
  inputs, outputs, request, tip and ids; it gives out at most one transaction, the one built
  from its planned inputs and outputs, and hands it over for broadcasting only if it passed
  verification, with the plan's own id, commitment and tip; afterwards it is at \<open>Extracted\<close>.\<close>

theorem plan_hands_out_once:
  assumes "authorized lib p0 (x, p) outs" "tp_stage p0 = StagePlanned" "tp_signed p0 = None"
  shows "p = p0\<lparr>tp_stage := tp_stage p, tp_signed := tp_signed p\<rparr>
    \<and> (outs = [] \<or> tp_stage p = StageExtracted \<and> tp_signed p = None \<and>
         (\<exists>tx. planned_build lib p0 = Ok tx \<and>
           (outs = [Extracted tx] \<or>
            verify_extracted lib p0 tx = Ok ()
            \<and> outs = [HandedOver \<lparr>vt_bytes = st_bytes tx, vt_txid = st_txid tx, vt_plan_id = tp_plan_id p0,
                       vt_intent_hash = tp_intent_hash p0, vt_tip = tp_canonical_tip p0\<rparr>])))"
proof -
  have inv: "plan_inv lib p0 p outs" using authorized_inv [OF assms] by simp
  have "output_ok lib p0 out \<Longrightarrow> \<exists>tx. planned_build lib p0 = Ok tx \<and> (out = Extracted tx \<or>
      verify_extracted lib p0 tx = Ok () \<and> out = HandedOver \<lparr>vt_bytes = st_bytes tx, vt_txid = st_txid tx,
        vt_plan_id = tp_plan_id p0, vt_intent_hash = tp_intent_hash p0, vt_tip = tp_canonical_tip p0\<rparr>)" for out
    by (cases out) auto
  then show ?thesis
    using inv by (auto simp: plan_inv_def split: plan_stage.splits)
qed

lemma plan_hands_out_once_witness:
  "\<exists>p tx p' stx. transparent_plan_of (demo_wallet_lib tx) demo_funding ''p1'' demo_request demo_context = Ok p
    \<and> authorized (demo_wallet_lib tx) p (0 :: nat, p') [Extracted stx] \<and> planned_build (demo_wallet_lib tx) p = Ok stx
    \<and> tp_stage p' = StageExtracted"
proof -
  let ?src = "\<lambda>x :: nat. (x, Ok \<lparr>ct_height = 7, ct_hash = fill32 7\<rparr> :: (string, canonical_tip) result)"
  obtain p tx where p: "transparent_plan_of (demo_wallet_lib tx) demo_funding ''p1'' demo_request demo_context = Ok p"
    and tx: "assemble_tx demo_plan_signing (pt_inputs (tp_prepared p)) (pt_outputs (tp_prepared p)) 0 (tp_branch_id p) = Ok tx"
    and fresh: "tp_stage p = StagePlanned" "tp_signed p = None"
    using demo_planned by blast
  have tip: "\<forall>x. snd (?src x) = Ok (tp_canonical_tip p)"
    using p by (auto simp: transparent_plan_of_def Let_def demo_context_def fund_context_new_def split: if_splits)
  let ?lib = "demo_wallet_lib tx" and ?stx = "\<lparr>st_bytes = [7], st_txid = fill32 4\<rparr>"
  have build: "build_transparent_tx demo_plan_signing (pt_inputs (tp_prepared p)) (pt_outputs (tp_prepared p)) 0 (tp_branch_id p) = Ok ?stx"
    using tx by (simp add: build_transparent_tx_def) (simp add: demo_plan_signing_def)
  have steps: "prove_plan ?src (0, p) = ((0, p\<lparr>tp_stage := StageProven\<rparr>), Ok ())"
    "sign_plan ?lib ?src (0, p\<lparr>tp_stage := StageProven\<rparr>) = ((0, p\<lparr>tp_stage := StageSigned, tp_signed := Some ?stx\<rparr>), Ok ())"
    "extract_plan ?src (0, p\<lparr>tp_stage := StageSigned, tp_signed := Some ?stx\<rparr>)
      = ((0, p\<lparr>tp_stage := StageExtracted, tp_signed := None\<rparr>), Ok ?stx)"
    using tip fresh build
    by (simp_all add: prove_plan_def sign_plan_def extract_plan_def if_fresh_current on_plan_def prove_transparent_def
        sign_transparent_def extract_transparent_def expect_stage_def demo_lib_facts(3))
  have "authorized ?lib p (0 :: nat, p\<lparr>tp_stage := StageSigned, tp_signed := Some ?stx\<rparr>) []"
    by (rule authorized.signs [OF authorized.proves [OF authorized.starts steps(1)] steps(2)])
  from authorized.extracts [OF this steps(3)]
  have run: "authorized ?lib p (0 :: nat, p\<lparr>tp_stage := StageExtracted, tp_signed := None\<rparr>) [Extracted ?stx]" by simp
  from plan_hands_out_once [OF run fresh] have "planned_build ?lib p = Ok ?stx" by auto
  then show ?thesis using p run by fastforce
qed

end
