(* ===== verification/Keystore.thy ===== *)
theory Keystore
  imports Core
begin

text \<open>
  The encrypted seed file (\<open>zalkanes-wallet/src/keystore.rs\<close>). The crate \<open>age\<close> is a parameter, and
  so is what the operating system answers; the disk is a map from paths to contents with the
  owner-only permission. \<open>create\<close> gives, with its result, every state of the disk on the way, which
  are the states a crash can leave behind. Paths end in a file name; directories are left out.
\<close>

section \<open>Format\<close>

datatype keystore_network = KsMainnet | KsTestnet | KsRegtest

fun keystore_tag :: "keystore_network \<Rightarrow> u8" where
  "keystore_tag KsMainnet = 0"
| "keystore_tag KsTestnet = 1"
| "keystore_tag KsRegtest = 2"

datatype age_failure = AgeUnreadable | AgeWrongPassphrase | AgeTruncated

datatype keystore_error =
    SeedTooShort
  | EmptyPassphrase
  | AlreadyExists string
  | EncryptFailed string
  | FileFailed string string
  | TruncatedHeader
  | BadMagic
  | UnsupportedVersion u8
  | UnknownNetworkTag u8
  | NetworkMismatch keystore_network keystore_network
  | CannotDecrypt age_failure
  | DecryptedTooShort

definition keystore_from_tag :: "u8 \<Rightarrow> (keystore_error, keystore_network) result" where
  "keystore_from_tag tag =
     (if tag = 0 then Ok KsMainnet else if tag = 1 then Ok KsTestnet else if tag = 2 then Ok KsRegtest
      else Err (UnknownNetworkTag tag))"

fun keystore_network_str :: "keystore_network \<Rightarrow> string" where
  "keystore_network_str KsMainnet = ''mainnet''"
| "keystore_network_str KsTestnet = ''testnet''"
| "keystore_network_str KsRegtest = ''regtest''"

record keystore_info =
  ki_version :: u8
  ki_network :: keystore_network
  ki_account :: u32

definition KEYSTORE_MAGIC :: bytes where
  "KEYSTORE_MAGIC = ascii ''ZALKKEY'' @ [0]"

definition KEYSTORE_VERSION :: u8 where
  "KEYSTORE_VERSION = 1"

definition keystore_blob :: "keystore_network \<Rightarrow> u32 \<Rightarrow> bytes \<Rightarrow> bytes" where
  "keystore_blob net account ciphertext =
     KEYSTORE_MAGIC @ [KEYSTORE_VERSION] @ [keystore_tag net] @ u32_to_be_bytes account @ ciphertext"

definition parse_blob :: "bytes \<Rightarrow> (keystore_error, keystore_info \<times> bytes) result" where
  "parse_blob blob =
     (let n = length KEYSTORE_MAGIC; header_len = n + 6 in
      if length blob < header_len then Err TruncatedHeader
      else if take n blob \<noteq> KEYSTORE_MAGIC then Err BadMagic
      else if blob ! n \<noteq> KEYSTORE_VERSION then Err (UnsupportedVersion (blob ! n))
      else
        and_then (keystore_from_tag (blob ! (n + 1))) (\<lambda>net.
          Ok (\<lparr>ki_version = blob ! n, ki_network = net, ki_account = u32_from_be_bytes (slice (n + 2) (n + 6) blob)\<rparr>,
              drop header_len blob)))"

section \<open>Files\<close>

record disk_file =
  fl_contents :: bytes
  fl_owner_only :: bool

type_synonym disk = "string \<rightharpoonup> disk_file"

text \<open>What the system calls of \<open>create\<close> answer, and how many bytes a write stored.\<close>

record create_faults =
  cf_open :: "(string, unit) result"
  cf_write :: "(string, unit) result \<times> nat"
  cf_sync :: "(string, unit) result"
  cf_chmod :: "(string, unit) result"
  cf_rename :: "(string, unit) result"

record age_lib =
  ag_encrypt :: "string \<Rightarrow> bytes \<Rightarrow> (string, bytes) result"
  ag_decrypt :: "string \<Rightarrow> bytes \<Rightarrow> (age_failure, bytes) result"

text \<open>\<open>Path::with_extension\<close>: a dot at the start of the file name does not begin an extension.\<close>

definition with_extension :: "string \<Rightarrow> string \<Rightarrow> string" where
  "with_extension ext path =
     (let name = rev (takeWhile (\<lambda>c. c \<noteq> CHR ''/'') (rev path));
          dir = take (length path - length name) path;
          from_dot = dropWhile (\<lambda>c. c \<noteq> CHR ''.'') (rev name);
          stem = (if length from_dot \<le> 1 then name else rev (tl from_dot)) in
      if name = ''..'' then path else dir @ stem @ ''.'' @ ext)"

definition tmp_path :: "string \<Rightarrow> string" where
  "tmp_path path = with_extension ''tmp'' path"

text \<open>A write of the blob passes through its prefixes.\<close>

definition write_states :: "string \<Rightarrow> bytes \<Rightarrow> nat \<Rightarrow> disk \<Rightarrow> disk list" where
  "write_states path blob stored d =
     map (\<lambda>n. d(path \<mapsto> \<lparr>fl_contents = take n blob, fl_owner_only = False\<rparr>)) [0 ..< Suc (min stored (length blob))]"

definition install_blob :: "create_faults \<Rightarrow> string \<Rightarrow> bytes \<Rightarrow> disk \<Rightarrow> disk list \<times> (keystore_error, unit) result" where
  "install_blob cf path blob d =
     (let tmp = tmp_path path in
      case (if d tmp \<noteq> None then Err ''file exists'' else cf_open cf) of
        Err e \<Rightarrow> ([d], Err (FileFailed ''create temporary file'' e))
      | Ok _ \<Rightarrow>
          (case cf_write cf of
             (Err e, stored) \<Rightarrow> (d # write_states tmp blob stored d, Err (FileFailed ''write temporary file'' e))
           | (Ok _, _) \<Rightarrow>
               let written = d(tmp \<mapsto> \<lparr>fl_contents = blob, fl_owner_only = False\<rparr>);
                   states = d # write_states tmp blob (length blob) d in
               (case cf_sync cf of
                  Err e \<Rightarrow> (states, Err (FileFailed ''fsync'' e))
                | Ok _ \<Rightarrow>
                    (case cf_chmod cf of
                       Err e \<Rightarrow> (states, Err (FileFailed ''chmod 600'' e))
                     | Ok _ \<Rightarrow>
                         let closed = \<lparr>fl_contents = blob, fl_owner_only = True\<rparr>;
                             restricted = written(tmp \<mapsto> closed) in
                         (case cf_rename cf of
                            Err e \<Rightarrow> (states @ [restricted], Err (FileFailed ''rename into place'' e))
                          | Ok _ \<Rightarrow> (states @ [restricted, (restricted(tmp := None))(path \<mapsto> closed)], Ok ()))))))"

definition keystore_create ::
    "age_lib \<Rightarrow> create_faults \<Rightarrow> string \<Rightarrow> string \<Rightarrow> bytes \<Rightarrow> keystore_network \<Rightarrow> u32 \<Rightarrow> disk
      \<Rightarrow> disk list \<times> (keystore_error, unit) result" where
  "keystore_create age cf path passphrase seed net account d =
     (if length seed < 32 then ([d], Err SeedTooShort)
      else if passphrase = [] then ([d], Err EmptyPassphrase)
      else if d path \<noteq> None then ([d], Err (AlreadyExists path))
      else
        case ag_encrypt age passphrase seed of
          Err e \<Rightarrow> ([d], Err (EncryptFailed e))
        | Ok ciphertext \<Rightarrow> install_blob cf path (keystore_blob net account ciphertext) d)"

definition read_parts :: "string \<Rightarrow> disk \<Rightarrow> (keystore_error, keystore_info \<times> bytes) result" where
  "read_parts path d =
     (case d path of
        None \<Rightarrow> Err (FileFailed ''read'' ''no such file'')
      | Some f \<Rightarrow> parse_blob (fl_contents f))"

definition keystore_info_of :: "string \<Rightarrow> disk \<Rightarrow> (keystore_error, keystore_info) result" where
  "keystore_info_of path d = and_then (read_parts path d) (\<lambda>(info, _). Ok info)"

definition keystore_unlock ::
    "age_lib \<Rightarrow> string \<Rightarrow> string \<Rightarrow> keystore_network \<Rightarrow> disk \<Rightarrow> (keystore_error, bytes) result" where
  "keystore_unlock age path passphrase expected d =
     and_then (read_parts path d) (\<lambda>(info, ciphertext).
       if ki_network info \<noteq> expected then Err (NetworkMismatch (ki_network info) expected)
       else
         and_then (map_err CannotDecrypt (ag_decrypt age passphrase ciphertext)) (\<lambda>seed.
           if length seed < 32 then Err DecryptedTooShort else Ok seed))"

section \<open>The format reads back\<close>

lemma keystore_tags: "keystore_from_tag (keystore_tag net) = Ok net"
  by (cases net) (simp_all add: keystore_from_tag_def)

lemma parse_keystore_blob:
  "parse_blob (keystore_blob net account ct)
     = Ok (\<lparr>ki_version = KEYSTORE_VERSION, ki_network = net, ki_account = account\<rparr>, ct)"
proof -
  have len: "length KEYSTORE_MAGIC = 8" by (simp add: KEYSTORE_MAGIC_def ascii_def)
  obtain a b c e where be: "u32_to_be_bytes account = [a, b, c, e]"
    using length_int_bytes(2) [of account] by (auto simp: length_Suc_conv eval_nat_numeral simp del: length_int_bytes)
  have "u32_from_be_bytes [a, b, c, e] = account" by (simp flip: be)
  then show ?thesis
    by (simp add: parse_blob_def keystore_blob_def len be nth_append slice_def keystore_tags Let_def)
qed

end
