(* ===== verification/Keystore_Props.thy ===== *)
theory Keystore_Props
  imports Keystore
begin

text \<open>The properties of the encrypted seed file.\<close>

lemma length_magic [simp]: "length KEYSTORE_MAGIC = 8"
  by (simp add: KEYSTORE_MAGIC_def ascii_def)

lemma from_tag_iff: "keystore_from_tag t = Ok net \<longleftrightarrow> t = keystore_tag net"
  by (cases net) (auto simp: keystore_from_tag_def)

text \<open>The parser accepts exactly the format.\<close>

lemma parse_blob_iff:
  "parse_blob blob = Ok (info, ct) \<longleftrightarrow>
     blob = keystore_blob (ki_network info) (ki_account info) ct \<and> ki_version info = KEYSTORE_VERSION"
proof
  assume p: "parse_blob blob = Ok (info, ct)"
  then have len: "14 \<le> length blob" and magic: "take 8 blob = KEYSTORE_MAGIC" and version: "blob ! 8 = KEYSTORE_VERSION"
    and tag: "keystore_from_tag (blob ! 9) = Ok (ki_network info)" and ct: "ct = drop 14 blob"
    and info: "ki_version info = blob ! 8" "ki_account info = u32_from_be_bytes (slice 10 14 blob)"
    by (auto simp: parse_blob_def Let_def and_then_Ok_iff split: if_splits)
  have "slice 10 14 blob = u32_to_be_bytes (ki_account info)"
    using len by (simp add: info(2) codec)
  moreover have "blob = take 8 blob @ [blob ! 8] @ [blob ! 9] @ slice 10 14 blob @ drop 14 blob"
  proof -
    have "drop 8 blob = blob ! 8 # drop 9 blob" "drop 9 blob = blob ! 9 # drop 10 blob"
      using len by (simp_all add: Cons_nth_drop_Suc [symmetric])
    moreover have "drop 10 blob = slice 10 14 blob @ drop 14 blob"
      using append_take_drop_id [of 4 "drop 10 blob"] by (simp add: slice_def)
    ultimately show ?thesis using append_take_drop_id [of 8 blob] by simp
  qed
  ultimately have "blob = keystore_blob (ki_network info) (ki_account info) ct"
    using magic version tag by (simp add: keystore_blob_def ct from_tag_iff)
  then show "blob = keystore_blob (ki_network info) (ki_account info) ct \<and> ki_version info = KEYSTORE_VERSION"
    using info(1) version by simp
next
  assume "blob = keystore_blob (ki_network info) (ki_account info) ct \<and> ki_version info = KEYSTORE_VERSION"
  then show "parse_blob blob = Ok (info, ct)" by (simp add: parse_keystore_blob)
qed

text \<open>C34. Unlocking fails loudly: it yields a seed exactly when the file is a keystore of this version
  and of the requested network, byte for byte, whose payload decrypts under the passphrase to
  at least 32 bytes.\<close>

theorem keystore_unlock_exact:
  "keystore_unlock age path passphrase net d = Ok seed \<longleftrightarrow>
     (\<exists>account ct owner_only. d path = Some \<lparr>fl_contents = keystore_blob net account ct, fl_owner_only = owner_only\<rparr>
        \<and> ag_decrypt age passphrase ct = Ok seed \<and> 32 \<le> length seed)"
proof -
  have "keystore_unlock age path passphrase net d = Ok seed \<longleftrightarrow>
      (\<exists>f info ct. d path = Some f \<and> parse_blob (fl_contents f) = Ok (info, ct) \<and> ki_network info = net
        \<and> ag_decrypt age passphrase ct = Ok seed \<and> 32 \<le> length seed)"
    by (auto simp: keystore_unlock_def read_parts_def and_then_Ok_iff map_err_Ok_iff not_less split: option.splits if_splits)
  also have "\<dots> \<longleftrightarrow> (\<exists>account ct owner_only.
      d path = Some \<lparr>fl_contents = keystore_blob net account ct, fl_owner_only = owner_only\<rparr>
        \<and> ag_decrypt age passphrase ct = Ok seed \<and> 32 \<le> length seed)"
  proof (safe, goal_cases)
    case (1 f info ct)
    then show ?case
      by (intro exI [of _ "ki_account info"] exI [of _ ct] exI [of _ "fl_owner_only f"]) (cases f; simp add: parse_blob_iff)
  next
    case (2 account ct owner_only)
    then show ?case
      by (intro exI [of _ "\<lparr>fl_contents = keystore_blob net account ct, fl_owner_only = owner_only\<rparr>"]
          exI [of _ "\<lparr>ki_version = KEYSTORE_VERSION, ki_network = net, ki_account = account\<rparr>"] exI [of _ ct])
        (simp add: parse_keystore_blob)
  qed
  finally show ?thesis .
qed

section \<open>Creating\<close>

lemma write_states_at [simp]:
  "x \<in> set (write_states p blob n d) \<Longrightarrow> q \<noteq> p \<Longrightarrow> x q = d q"
  by (auto simp: write_states_def)

lemma install_blob_states:
  assumes "install_blob cf path blob d = (states, r)" "tmp_path path \<noteq> path"
  shows "states \<noteq> []"
    "x \<in> set states \<Longrightarrow> q \<noteq> path \<Longrightarrow> q \<noteq> tmp_path path \<Longrightarrow> x q = d q"
    "x \<in> set states \<Longrightarrow> x path = d path \<or> x path = Some \<lparr>fl_contents = blob, fl_owner_only = True\<rparr>"
    "r = Ok () \<Longrightarrow> last states path = Some \<lparr>fl_contents = blob, fl_owner_only = True\<rparr> \<and> last states (tmp_path path) = None"
    "r = Err e \<Longrightarrow> x \<in> set states \<Longrightarrow> x path = d path"
  using assms
  by (auto simp: install_blob_def Let_def split: if_splits sum.splits prod.splits)

text \<open>C33. Creating a keystore is atomic and never destroys a seed: whatever the system calls answer and
  at whatever point a crash interrupts it, the keystore's path holds what it held before or,
  if there was nothing, the complete encrypted file with owner-only access, and no other file
  changes except the temporary one. An existing keystore is never touched. After a success the
  file is in place and the temporary file gone, and unlocking with the same passphrase and
  network gives the seed back, for any other network it is refused. It is assumed that age
  decrypts what it encrypted, and that the keystore's own name does not end in \<open>.tmp\<close>.\<close>

theorem keystore_create_atomic:
  assumes "keystore_create age cf path passphrase seed net account d = (states, r)" "tmp_path path \<noteq> path"
    and "\<And>s ct. ag_encrypt age passphrase s = Ok ct \<Longrightarrow> ag_decrypt age passphrase ct = Ok s"
  shows "(\<forall>x \<in> set states.
        (x path = d path \<or> d path = None \<and> keystore_unlock age path passphrase net x = Ok seed
            \<and> map_option fl_owner_only (x path) = Some True)
        \<and> (\<forall>q. q \<noteq> path \<and> q \<noteq> tmp_path path \<longrightarrow> x q = d q))
    \<and> (case r of
        Err e \<Rightarrow> \<forall>x \<in> set states. x path = d path
      | Ok _ \<Rightarrow> d path = None \<and> keystore_unlock age path passphrase net (last states) = Ok seed
          \<and> last states (tmp_path path) = None
          \<and> (\<forall>net'. net' \<noteq> net \<longrightarrow> keystore_unlock age path passphrase net' (last states) = Err (NetworkMismatch net net')))"
proof (cases "states = [d] \<and> r \<noteq> Ok ()")
  case True
  then show ?thesis by (cases r) auto
next
  case False
  then obtain ct where ct: "ag_encrypt age passphrase seed = Ok ct" "32 \<le> length seed" "d path = None"
    and i: "install_blob cf path (keystore_blob net account ct) d = (states, r)"
    using assms(1) by (auto simp: keystore_create_def split: if_splits sum.splits)
  let ?f = "\<lparr>fl_contents = keystore_blob net account ct, fl_owner_only = True\<rparr>"
  have opens: "keystore_unlock age path passphrase net' x = (if net' = net then Ok seed else Err (NetworkMismatch net net'))"
    if "x path = Some ?f" for x net'
    using that ct assms(3) by (simp add: keystore_unlock_def read_parts_def parse_keystore_blob)
  note st = install_blob_states [OF i assms(2)]
  show ?thesis
  proof (intro conjI ballI)
    fix x assume x: "x \<in> set states"
    show "x path = d path \<or> d path = None \<and> keystore_unlock age path passphrase net x = Ok seed
        \<and> map_option fl_owner_only (x path) = Some True"
      using st(3) [OF x] opens [of x net] ct(3) by auto
    show "\<forall>q. q \<noteq> path \<and> q \<noteq> tmp_path path \<longrightarrow> x q = d q" using st(2) [OF x] by simp
  next
    show "case r of
        Err e \<Rightarrow> \<forall>x \<in> set states. x path = d path
      | Ok _ \<Rightarrow> d path = None \<and> keystore_unlock age path passphrase net (last states) = Ok seed
          \<and> last states (tmp_path path) = None
          \<and> (\<forall>net'. net' \<noteq> net \<longrightarrow> keystore_unlock age path passphrase net' (last states) = Err (NetworkMismatch net net'))"
      using st(4,5) opens [of "last states"] ct(3) by (cases r) auto
  qed
qed

text \<open>A temporary file left behind by a crash blocks every later attempt.\<close>

lemma stale_temporary_file_blocks:
  assumes "d (tmp_path path) \<noteq> None"
  shows "\<exists>e. keystore_create age cf path passphrase seed net account d = ([d], Err e)"
  using assms by (auto simp: keystore_create_def install_blob_def split: sum.splits)

definition demo_age :: age_lib where
  "demo_age = \<lparr>ag_encrypt = (\<lambda>p s. Ok s), ag_decrypt = (\<lambda>p s. Ok s)\<rparr>"

definition no_faults :: create_faults where
  "no_faults = \<lparr>cf_open = Ok (), cf_write = (Ok (), 0), cf_sync = Ok (), cf_chmod = Ok (), cf_rename = Ok ()\<rparr>"

lemma keystore_create_atomic_witness:
  "\<exists>states. keystore_create demo_age no_faults ''w/seed.age'' ''pw'' (replicate 32 7) KsTestnet 0 (\<lambda>_. None) = (states, Ok ())
    \<and> keystore_unlock demo_age ''w/seed.age'' ''pw'' KsTestnet (last states) = Ok (replicate 32 7)"
proof -
  have tmp: "tmp_path ''w/seed.age'' = ''w/seed.tmp''"
    by (simp add: tmp_path_def with_extension_def Let_def)
  obtain states where run: "keystore_create demo_age no_faults ''w/seed.age'' ''pw'' (replicate 32 7) KsTestnet 0 (\<lambda>_. None) = (states, Ok ())"
    by (simp add: keystore_create_def demo_age_def no_faults_def install_blob_def Let_def)
  from keystore_create_atomic [OF run] tmp run show ?thesis
    by (simp add: demo_age_def)
qed

end
