(* ===== verification/Rpc.thy ===== *)
theory Rpc
  imports Sync Json
begin

text \<open>
  The handlers of the node's JSON-RPC server and its health endpoint
  (\<open>zalkanes-rpc/src/lib.rs\<close>), over the same store the indexer writes. The server itself
  (jsonrpsee, the sockets) is left out. A handler that takes the state lock several times is
  given the store as it is at each of them, because the indexer may write in between.
\<close>

section \<open>Liveness\<close>

datatype rpc_liveness =
    RpcStarting
  | RpcHealthy bool
  | RpcStalled duration "string option"
  | RpcDead string

record liveness_report =
  lr_liveness :: rpc_liveness
  lr_indexed_height :: "u32 option"
  lr_tip_height :: "u32 option"
  lr_last_progress_secs_ago :: "nat option"
  lr_last_tick_ok_secs_ago :: "nat option"
  lr_consecutive_failures :: u32
  lr_total_failures :: u64
  lr_last_error :: "string option"
  lr_dead_reason :: "string option"

definition as_secs :: "duration \<Rightarrow> nat" where
  "as_secs d = d div 10 ^ 9"

fun rpc_liveness_of :: "liveness \<Rightarrow> rpc_liveness" where
  "rpc_liveness_of Starting = RpcStarting"
| "rpc_liveness_of (Healthy caught) = RpcHealthy caught"
| "rpc_liveness_of (Stalled since err) = RpcStalled since err"
| "rpc_liveness_of (Dead reason) = RpcDead reason"

text \<open>\<open>HealthProbe\<close> of the node binary (\<open>zalkanes-cli/src/main.rs\<close>), reporting at \<open>now\<close>.\<close>

definition health_report :: "instant \<Rightarrow> duration \<Rightarrow> indexer_status \<Rightarrow> liveness_report" where
  "health_report now stale_after s =
     \<lparr>lr_liveness = rpc_liveness_of (assess now stale_after s),
      lr_indexed_height = is_indexed_height s, lr_tip_height = is_tip_height s,
      lr_last_progress_secs_ago = map_option (\<lambda>t. as_secs (now - t)) (is_last_progress s),
      lr_last_tick_ok_secs_ago = map_option (\<lambda>t. as_secs (now - t)) (is_last_tick_ok s),
      lr_consecutive_failures = is_consecutive_failures s, lr_total_failures = is_total_failures s,
      lr_last_error = is_last_error s, lr_dead_reason = is_dead s\<rparr>"

text \<open>
  What \<open>node_serve\<close> (\<open>zalkanes-cli/src/main.rs\<close>) does when the sync loop has returned: after an
  error the process exits with code 1, so that its supervisor restarts it, and no handler answers
  any more; after a return without error it goes on serving.
\<close>

datatype node_process = NodeServing | NodeExited nat

definition sync_task_end :: "(sync_error, unit) result \<Rightarrow> node_process" where
  "sync_task_end r = (case r of Err _ \<Rightarrow> NodeExited 1 | Ok _ \<Rightarrow> NodeServing)"

record indexer_info =
  ii_state :: string
  ii_alive :: bool
  ii_advancing :: bool
  ii_indexed_height :: "u32 option"
  ii_tip_height :: "u32 option"
  ii_last_progress_secs_ago :: "nat option"
  ii_last_tick_ok_secs_ago :: "nat option"
  ii_consecutive_failures :: u32
  ii_total_failures :: u64
  ii_last_error :: "string option"
  ii_dead_reason :: "string option"

fun liveness_words :: "rpc_liveness \<Rightarrow> string \<times> bool \<times> bool" where
  "liveness_words RpcStarting = (''starting'', True, False)"
| "liveness_words (RpcHealthy True) = (''healthy'', True, True)"
| "liveness_words (RpcHealthy False) = (''syncing'', True, True)"
| "liveness_words (RpcStalled since err) = (''stalled'', True, False)"
| "liveness_words (RpcDead reason) = (''dead'', False, False)"

definition indexer_info_of :: "liveness_report \<Rightarrow> indexer_info" where
  "indexer_info_of r =
     (case liveness_words (lr_liveness r) of
        (state, alive, advancing) \<Rightarrow>
          \<lparr>ii_state = state, ii_alive = alive, ii_advancing = advancing,
           ii_indexed_height = lr_indexed_height r, ii_tip_height = lr_tip_height r,
           ii_last_progress_secs_ago = lr_last_progress_secs_ago r,
           ii_last_tick_ok_secs_ago = lr_last_tick_ok_secs_ago r,
           ii_consecutive_failures = lr_consecutive_failures r, ii_total_failures = lr_total_failures r,
           ii_last_error = lr_last_error r, ii_dead_reason = lr_dead_reason r\<rparr>)"

section \<open>Queries\<close>

text \<open>What a handler holds besides the store: the network, the tip last seen, and the report of
  the attached indexing loop, if any.\<close>

record rpc_handler =
  rh_network :: network
  rh_chain_tip :: "block_ref option"
  rh_indexer :: "liveness_report option"

record info_response =
  ir_protocol_version :: u8
  ir_manifest_hash :: string
  ir_network :: string
  ir_indexed_height :: "u32 option"
  ir_chain_tip_height :: "u32 option"
  ir_indexed_block_hash :: "string option"
  ir_state_root :: string
  ir_syncing :: bool
  ir_indexer :: "indexer_info option"

definition hex32 :: "hex_lib \<Rightarrow> b32 \<Rightarrow> string" where
  "hex32 hx x = hex_encode hx (bytes_of x)"

text \<open>The manifest is a file of the repository, embedded when the program is built.\<close>

definition protocol_manifest_hash_hex :: "hex_lib \<Rightarrow> sha \<Rightarrow> bytes \<Rightarrow> string" where
  "protocol_manifest_hash_hex hx sha manifest = hex32 hx (sha manifest)"

definition get_info :: "hex_lib \<Rightarrow> sha \<Rightarrow> bytes \<Rightarrow> 's store_ops \<Rightarrow> rpc_handler \<Rightarrow> 's \<Rightarrow> info_response" where
  "get_info hx sha manifest ops h st =
     (let indexed = so_indexed_height ops st; tip = map_option br_height (rh_chain_tip h) in
      \<lparr>ir_protocol_version = 0, ir_manifest_hash = protocol_manifest_hash_hex hx sha manifest,
       ir_network = zebra_name (rh_network h), ir_indexed_height = indexed, ir_chain_tip_height = tip,
       ir_indexed_block_hash = map_option (hex32 hx) (so_indexed_block_hash ops st),
       ir_state_root = hex32 hx (so_compute_root ops st),
       ir_syncing = (case (indexed, tip) of (Some i, Some t) \<Rightarrow> i < t | _ \<Rightarrow> True),
       ir_indexer = map_option indexer_info_of (rh_indexer h)\<rparr>)"

definition get_state_root :: "hex_lib \<Rightarrow> 's store_ops \<Rightarrow> 's \<Rightarrow> string" where
  "get_state_root hx ops st = hex32 hx (so_compute_root ops st)"

definition parse_id32 :: "hex_lib \<Rightarrow> string \<Rightarrow> b32 option" where
  "parse_id32 hx s =
     (case hex_decode hx s of
        None \<Rightarrow> None
      | Some bs \<Rightarrow> if length bs \<noteq> 32 then None else Some (mk32 bs))"

record contract_response =
  cr_contract_id :: string
  cr_code_hash :: string
  cr_code_size :: nat

record code_response =
  cd_contract_id :: string
  cd_code_hash :: string
  cd_code_hex :: string

definition get_contract_info :: "hex_lib \<Rightarrow> 's store_ops \<Rightarrow> string \<Rightarrow> 's \<Rightarrow> contract_response option" where
  "get_contract_info hx ops id_hex st =
     Option.bind (parse_id32 hx id_hex) (\<lambda>cid.
       map_option (\<lambda>(code_hash, code).
           \<lparr>cr_contract_id = id_hex, cr_code_hash = hex32 hx code_hash, cr_code_size = length code\<rparr>)
         (so_get_contract ops st cid))"

definition get_code :: "hex_lib \<Rightarrow> 's store_ops \<Rightarrow> string \<Rightarrow> 's \<Rightarrow> code_response option" where
  "get_code hx ops id_hex st =
     Option.bind (parse_id32 hx id_hex) (\<lambda>cid.
       map_option (\<lambda>(code_hash, code).
           \<lparr>cd_contract_id = id_hex, cd_code_hash = hex32 hx code_hash, cd_code_hex = hex_encode hx code\<rparr>)
         (so_get_contract ops st cid))"

text \<open>The text of a transaction id is byte-reversed.\<close>

definition get_execution :: "hex_lib \<Rightarrow> 's store_ops \<Rightarrow> string \<Rightarrow> 's \<Rightarrow> execution option" where
  "get_execution hx ops txid_hex st =
     Option.bind (hex_decode hx txid_hex) (\<lambda>bs.
       if length bs \<noteq> 32 then None else so_execution ops st (mk32 (rev bs)))"

definition get_block_executions :: "'s store_ops \<Rightarrow> u32 \<Rightarrow> 's \<Rightarrow> execution list" where
  "get_block_executions ops height st = so_executions_at_height ops st height"

section \<open>Views\<close>

record view_response =
  vr_success :: bool
  vr_output_hex :: string
  vr_fuel_used :: u64
  vr_indexed_height :: "u32 option"
  vr_state_root :: string
  vr_error :: "string option"

definition view_context :: "contract_id \<Rightarrow> u16 \<Rightarrow> bytes \<Rightarrow> u32 option \<Rightarrow> call_context" where
  "view_context cid opcode input indexed =
     \<lparr>cc_contract_id = cid, cc_caller = None, cc_txid = mk32 (replicate 32 0),
      cc_block_height = (case indexed of None \<Rightarrow> 0 | Some h \<Rightarrow> h), cc_opcode = opcode, cc_input = input,
      cc_fuel_limit = MAX_FUEL_PER_CALL, cc_depth = 0\<rparr>"

fun view_result :: "hex_lib \<Rightarrow> call_result \<Rightarrow> u32 option \<Rightarrow> string \<Rightarrow> view_response" where
  "view_result hx (Success output fuel_used writes) indexed root =
     \<lparr>vr_success = True, vr_output_hex = hex_encode hx output, vr_fuel_used = fuel_used,
      vr_indexed_height = indexed, vr_state_root = root, vr_error = None\<rparr>"
| "view_result hx (Trap reason fuel_used) indexed root =
     \<lparr>vr_success = False, vr_output_hex = [], vr_fuel_used = fuel_used, vr_indexed_height = indexed,
      vr_state_root = root, vr_error = Some (trap_text reason)\<rparr>"
| "view_result hx (FuelExhausted fuel_used) indexed root =
     \<lparr>vr_success = False, vr_output_hex = [], vr_fuel_used = fuel_used, vr_indexed_height = indexed,
      vr_state_root = root, vr_error = Some ''fuel exhausted''\<rparr>"
| "view_result hx (InvalidModule reason) indexed root =
     \<lparr>vr_success = False, vr_output_hex = [], vr_fuel_used = 0, vr_indexed_height = indexed,
      vr_state_root = root, vr_error = Some (invalid_module_text reason)\<rparr>"
| "view_result hx ContractNotFound indexed root =
     \<lparr>vr_success = False, vr_output_hex = [], vr_fuel_used = 0, vr_indexed_height = indexed,
      vr_state_root = root, vr_error = Some ''contract not found''\<rparr>"

text \<open>The store at the three points where \<open>view\<close> locks it: for the height, for the root, and for
  the call. \<open>None\<close> is a host panic.\<close>

definition rpc_view ::
    "hex_lib \<Rightarrow> 'm wasm_engine \<Rightarrow> 's store_ops \<Rightarrow> string \<Rightarrow> u16 \<Rightarrow> bytes \<Rightarrow> 's \<Rightarrow> 's \<Rightarrow> 's \<Rightarrow> view_response option" where
  "rpc_view hx eng ops id_hex opcode input st_height st_root st_call =
     (case parse_id32 hx id_hex of
        None \<Rightarrow>
          Some \<lparr>vr_success = False, vr_output_hex = [], vr_fuel_used = 0, vr_indexed_height = None,
                vr_state_root = get_state_root hx ops st_root, vr_error = Some ''invalid contract id''\<rparr>
      | Some cid \<Rightarrow>
          map_option (\<lambda>result.
              view_result hx result (so_indexed_height ops st_height) (get_state_root hx ops st_root))
            (execute eng ops (view_context cid opcode input (so_indexed_height ops st_call)) st_call))"

text \<open>The positional parameters of \<open>zalkanes_view\<close>.\<close>

definition view_params :: "hex_lib \<Rightarrow> json list \<Rightarrow> string \<times> u16 \<times> bytes" where
  "view_params hx arr =
     (let arg = (\<lambda>i. if i < length arr then Some (arr ! i) else None) in
      (case Option.bind (arg 0) as_str of None \<Rightarrow> [] | Some s \<Rightarrow> s,
       case Option.bind (arg 1) as_u64 of None \<Rightarrow> 0 | Some w \<Rightarrow> ucast w,
       case Option.bind (arg 2) as_str of
         None \<Rightarrow> []
       | Some s \<Rightarrow> (case hex_decode hx s of None \<Rightarrow> [] | Some bs \<Rightarrow> bs)))"

section \<open>Readiness\<close>

datatype health_state = HsStarting | HsSyncing | HsCaughtUp | HsUnhealthy

fun health_word :: "health_state \<Rightarrow> string" where
  "health_word HsCaughtUp = ''caught_up''"
| "health_word HsSyncing = ''syncing''"
| "health_word HsStarting = ''starting''"
| "health_word HsUnhealthy = ''unhealthy''"

definition readiness :: "'s store_ops \<Rightarrow> rpc_handler \<Rightarrow> 's \<Rightarrow> health_state \<times> string" where
  "readiness ops h st =
     (case map_option lr_liveness (rh_indexer h) of
        Some (RpcDead reason) \<Rightarrow> (HsUnhealthy, ''unhealthy: indexer dead: '' @ reason)
      | Some (RpcStalled since last_error) \<Rightarrow>
          (HsUnhealthy, ''unhealthy: indexer stalled for '' @ decimal (as_secs since) @ ''s''
             @ (case last_error of None \<Rightarrow> [] | Some e \<Rightarrow> '' (last error: '' @ e @ '')''))
      | Some RpcStarting \<Rightarrow> (HsStarting, ''starting'')
      | Some (RpcHealthy caught) \<Rightarrow> if caught then (HsCaughtUp, ''caught_up'') else (HsSyncing, ''syncing'')
      | None \<Rightarrow>
          (let state = (case (so_indexed_height ops st, map_option br_height (rh_chain_tip h)) of
               (Some i, Some t) \<Rightarrow> if i \<ge> t then HsCaughtUp else HsSyncing
             | (Some i, None) \<Rightarrow> HsSyncing
             | _ \<Rightarrow> HsStarting) in
           (state, health_word state)))"

fun ready_status :: "health_state \<Rightarrow> string" where
  "ready_status HsCaughtUp = ''200 OK''"
| "ready_status HsSyncing = ''202 Accepted''"
| "ready_status HsStarting = ''200 OK''"
| "ready_status HsUnhealthy = ''503 Service Unavailable''"

definition newline :: string where
  "newline = [CHR 0x0A]"

definition health_answer :: "'s store_ops \<Rightarrow> rpc_handler \<Rightarrow> string \<Rightarrow> 's \<Rightarrow> string \<times> string" where
  "health_answer ops h path st =
     (if path = ''/health'' then (''200 OK'', ''alive'' @ newline)
      else if path = ''/ready'' then
        (case readiness ops h st of (state, detail) \<Rightarrow> (ready_status state, detail @ newline))
      else (''404 Not Found'', ''not_found'' @ newline))"

text \<open>\<open>lines\<close> and \<open>split_whitespace\<close> of an ASCII request: the second word of the first line.\<close>

definition is_space :: "char \<Rightarrow> bool" where
  "is_space c \<longleftrightarrow> c \<in> {CHR '' '', CHR 0x09, CHR 0x0A, CHR 0x0B, CHR 0x0C, CHR 0x0D}"

fun words :: "string \<Rightarrow> string list" where
  "words [] = []"
| "words (c # cs) =
     (if is_space c then words cs
      else
        case cs of
          [] \<Rightarrow> [[c]]
        | d # _ \<Rightarrow> if is_space d then [c] # words cs
                  else case words cs of [] \<Rightarrow> [[c]] | w # ws \<Rightarrow> (c # w) # ws)"

definition request_path :: "string \<Rightarrow> string" where
  "request_path request =
     (case words (takeWhile (\<lambda>c. c \<noteq> CHR 0x0A) request) of
        _ # path # _ \<Rightarrow> path
      | _ \<Rightarrow> ''/'')"

definition crlf :: string where
  "crlf = [CHR 0x0D, CHR 0x0A]"

definition health_conn :: "'s store_ops \<Rightarrow> rpc_handler \<Rightarrow> string \<Rightarrow> 's \<Rightarrow> string" where
  "health_conn ops h request st =
     (case health_answer ops h (request_path request) st of
        (status, body) \<Rightarrow>
          ''HTTP/1.1 '' @ status @ crlf @ ''Content-Type: text/plain'' @ crlf
          @ ''Content-Length: '' @ decimal (length body) @ crlf @ ''Connection: close'' @ crlf @ crlf @ body)"

end
