(* ===== verification/Rpc_Props.thy ===== *)
theory Rpc_Props
  imports Rpc Sync_Props Broadcast
begin

text \<open>What the RPC server answers from the database that the indexer writes.\<close>

section \<open>Execution records in the database\<close>

lemma exec_db_key_inject [simp]: "exec_db_key t = exec_db_key t' \<longleftrightarrow> t = t'"
  by (simp add: exec_db_key_def bytes_of_inject)

lemma exec_key_kinds [simp]: "exec_db_key t \<noteq> exec_height_db_key h" "exec_height_db_key h \<noteq> exec_db_key t"
  by (simp_all add: exec_db_key_def exec_height_db_key_def)

definition last_execution :: "execution list \<Rightarrow> tx_id \<Rightarrow> execution option" where
  "last_execution es txid = find (\<lambda>e. ex_txid e = txid) (rev es)"

lemma last_execution_simps [simp]:
  "last_execution [] t = None"
  "last_execution (e # es) t =
     (case last_execution es t of Some x \<Rightarrow> Some x | None \<Rightarrow> if ex_txid e = t then Some e else None)"
proof -
  have find_app: "find P (xs @ ys) = (case find P xs of Some x \<Rightarrow> Some x | None \<Rightarrow> find P ys)" for P xs and ys :: "execution list"
    by (induction xs) auto
  show "last_execution [] t = None"
    "last_execution (e # es) t =
     (case last_execution es t of Some x \<Rightarrow> Some x | None \<Rightarrow> if ex_txid e = t then Some e else None)"
    by (simp_all add: last_execution_def find_app split: option.split)
qed

lemma last_execution_None: "last_execution es t = None \<longleftrightarrow> t \<notin> ex_txid ` set es"
  by (induction es) (auto split: option.splits)

lemma last_execution_mem: "last_execution es t = Some e \<Longrightarrow> e \<in> set es"
  by (induction es) (auto split: option.splits if_splits)

lemma get_exec_batch:
  assumes "exec_batch to_json es = Some ops"
  shows "om_get (apply_batch ops m) (exec_db_key t) =
    (case last_execution es t of None \<Rightarrow> om_get m (exec_db_key t) | Some e \<Rightarrow> to_json e)"
  using assms
proof (induction es arbitrary: ops m)
  case (Cons e es)
  then obtain json ops' where b: "to_json e = Some json" "exec_batch to_json es = Some ops'"
    "ops = BPut (exec_db_key (ex_txid e)) json # BPut (exec_height_db_key (ex_block_height e)) [] # ops'"
    by (auto split: option.splits)
  show ?case
    using b by (simp add: Cons.IH [OF b(2)] split: option.splits)
qed simp

text \<open>The contracts of the ledger after a block.\<close>

lemma ledger_contracts:
  assumes "process_parsed_block lib (ledger_ops blake) config b lg = Some (lg', Ok be)"
  shows "if cid \<in> set (be_deployed be) then \<exists>wasm. om_get (fst (lg_contents lg')) cid = Some (nl_sha lib wasm, wasm)
    else om_get (fst (lg_contents lg')) cid = om_get (fst (lg_contents lg)) cid"
proof -
  let ?ops = "ledger_ops blake"
  consider "lg' = lg" "be_deployed be = []"
    | "commit_empty_block ?ops (pb_height b) (pb_hash b) lg = (lg', Ok be)"
    | p where "process_transactions lib ?ops lg config (pb_transactions b) (start_block (pb_height b) (pb_hash b)) = Some p"
        "commit_progress ?ops b (so_compute_root ?ops lg) p lg = (lg', Ok be)"
    using assms by (auto simp: process_parsed_block_def no_interpretation_def split: option.splits if_splits)
  then show ?thesis
  proof cases
    case 2
    then have "be_deployed be = []"
      by (auto simp: commit_empty_block_def ledger_ops_def no_interpretation_def)
    then show ?thesis using commit_empty_ledger(2) [OF 2] by simp
  next
    case 3
    have inv: "commit_inv lib ?ops lg config (pb_transactions b) p" using 3(1) by (rule commit_inv_transactions)
    then have deployed: "be_deployed be = map fst (bc_deploys (pg_commit p))"
      using 3(2) by (auto simp: commit_inv_def commit_progress_def ledger_ops_def Let_def)
    have "om_get (fst (lg_contents lg')) cid =
        (case map_of (rev (bc_deploys (pg_commit p))) cid of Some x \<Rightarrow> Some x | None \<Rightarrow> om_get (fst (lg_contents lg)) cid)"
      by (simp add: commit_progress_ledger(1) [OF 3(2)] spec_commit_def apply_commit_def get_apply_deploys Let_def)
    moreover have "\<exists>wasm. x = (nl_sha lib wasm, wasm)" if "map_of (rev (bc_deploys (pg_commit p))) cid = Some x" for x
    proof -
      have "(cid, x) \<in> set (bc_deploys (pg_commit p))" using map_of_SomeD [OF that] by simp
      then obtain tx d where "genuine_deploy lib ?ops lg config tx d (cid, x)"
        using inv unfolding commit_inv_def by fast
      then show ?thesis by (cases x) (auto dest: genuine_deploy_length)
    qed
    moreover have "map_of (rev (bc_deploys (pg_commit p))) cid = None \<longleftrightarrow> cid \<notin> set (be_deployed be)"
      by (simp add: deployed map_of_eq_None_iff)
    ultimately show ?thesis
      by (cases "map_of (rev (bc_deploys (pg_commit p))) cid") auto
  qed simp
qed

context kv_store begin

lemma saved_execution:
  assumes "rocks_save_executions to_json kv d es = (d', Ok u)" "\<And>e bs. to_json e = Some bs \<Longrightarrow> from_json bs = Some e"
    and "last_execution es t = Some e"
  shows "rocks_execution from_json kv d' t = Some e"
proof -
  obtain batch where b: "exec_batch to_json es = Some batch"
    using assms(1) by (auto simp: rocks_save_executions_def split: option.splits)
  then have "kv_write kv d batch = (d', Ok ())"
    using assms(1) by (auto simp: rocks_save_executions_def split: prod.splits sum.splits)
  from write_batch [OF this] have view: "om_get (view d') (exec_db_key t) = to_json e"
    using get_exec_batch [OF b] assms(3) by simp
  have "to_json e \<noteq> None"
  proof -
    have "e \<in> set es" using assms(3) by (rule last_execution_mem)
    with b show ?thesis
      by (induction es arbitrary: batch) (auto split: option.splits)
  qed
  with view assms(2) show ?thesis
    by (auto simp: rocks_execution_def kv_read_def get)
qed

text \<open>Which module a contract has after a processed block, and where its records are.\<close>

lemma block_contracts_law:
  assumes "rocks_rel view d lg"
    and "next_height lg (pb_height b)" "length (pb_transactions b) < 2 ^ 31"
    and "process_parsed_block lib (rocks_ops blake to_json from_json kv) config b d = Some (d', Ok be)"
  shows "if cid \<in> set (be_deployed be) then \<exists>wasm. rocks_get_contract kv d' cid = Some (nl_sha lib wasm, wasm)
    else rocks_get_contract kv d' cid = rocks_get_contract kv d cid"
proof -
  obtain lg' where lg': "process_parsed_block lib (ledger_ops blake) config b lg = Some (lg', Ok be)"
    "rocks_rel view d' lg'"
    using rocks.process_block_refines [OF assms] by blast
  have reads: "rocks_get_contract kv d cid = om_get (fst (lg_contents lg)) cid"
    "rocks_get_contract kv d' cid = om_get (fst (lg_contents lg')) cid"
    using rocks.get_contract [OF assms(1)] rocks.get_contract [OF lg'(2)] by (simp_all add: rocks_ops_def)
  have "if cid \<in> set (be_deployed be) then \<exists>wasm. om_get (fst (lg_contents lg')) cid = Some (nl_sha lib wasm, wasm)
    else om_get (fst (lg_contents lg')) cid = om_get (fst (lg_contents lg)) cid"
    using lg'(1) by (rule ledger_contracts)
  then show ?thesis by (simp add: reads)
qed

lemma block_records_law:
  assumes "process_parsed_block lib (rocks_ops blake to_json from_json kv) config b d = Some (d', Ok be)"
    and "\<And>e bs. to_json e = Some bs \<Longrightarrow> from_json bs = Some e" "last_execution (be_executions be) t = Some e"
  shows "rocks_execution from_json kv d' t = Some e"
proof -
  have "be_executions be \<noteq> []" using assms(3) by auto
  then obtain p where p: "commit_progress (rocks_ops blake to_json from_json kv) b
      (so_compute_root (rocks_ops blake to_json from_json kv) d) p d = (d', Ok be)"
    using assms(1)
    by (auto simp: process_parsed_block_def no_interpretation_def commit_empty_block_def
        split: option.splits if_splits prod.splits sum.splits)
  then obtain d1 where "rocks_save_executions to_json kv d1 (be_executions be) = (d', Ok ())"
    by (auto simp: commit_progress_def rocks_ops_def split: prod.splits sum.splits)
  from saved_execution [OF this assms(2,3)] show ?thesis .
qed

end

section \<open>A block with one record\<close>

definition demo_record :: execution where
  "demo_record = \<lparr>ex_txid = fill32 4, ex_contract_id = fill32 1, ex_opcode = 0, ex_success = False,
     ex_fuel_used = 0, ex_return_data = [], ex_error = Some ''contract not found'', ex_root_before = fill32 0,
     ex_root_after = fill32 0, ex_block_height = 5, ex_block_hash = fill32 9\<rparr>"

lemma demo_rocks_record:
  assumes "to_json demo_record \<noteq> None"
  shows "\<exists>d' be. process_parsed_block demo_lib (rocks_ops (\<lambda>p x. fill32 0) to_json from_json map_kv)
      demo_config demo_block om_empty = Some (d', Ok be) \<and> be_executions be = [demo_record]"
proof -
  let ?ops = "rocks_ops (\<lambda>p x. fill32 0) to_json from_json map_kv"
  have rel: "rocks_rel (\<lambda>d. d) om_empty empty_ledger" by (rule rocks_rel_fresh) simp
  have "execute (demo_engine demo_write_run) ?ops ctx om_empty = Some ContractNotFound" if "cc_depth ctx = 0" for ctx
    using map_db.rocks.get_contract [OF rel, of "\<lambda>p x. fill32 0" to_json from_json] that
    by (simp add: execute_def empty_ledger_def params)
  then obtain p where p: "process_transactions demo_lib ?ops om_empty demo_config [demo_tx] (start_block 5 (fill32 9)) = Some p"
    "pg_executions p = [demo_record]"
    using demo_transaction [of ?ops "start_block 5 (fill32 9)" om_empty ContractNotFound]
    by (simp add: start_block_def no_limits_used_def record_call_def Let_def count_message_fields demo_record_def
        demo_tx_def empty_commit_def demo_lib_def projected_root_def projected_root_of_def rocks_ops_def
        rocks_compute_root_def root_from_leaves_def case_prod_unfold)
  have small: "small_commit (pg_commit p)" "bc_height (pg_commit p) = 5"
    using block_commit_small [OF p(1)] header_transactions [OF p(1)] by (simp_all add: header_inv_def)
  obtain d1 root where d1: "rocks_commit_block (\<lambda>p x. fill32 0) map_kv om_empty (pg_commit p) = (d1, Ok root)"
    using map_db.commit_total [OF rel _ small(1)] by (force simp: next_height_def spec_last_def empty_ledger_def)
  obtain batch where "exec_batch to_json (pg_executions p) = Some batch"
    using assms p(2) by auto
  then obtain d2 where d2: "rocks_save_executions to_json map_kv d1 (pg_executions p) = (d2, Ok ())"
    by (simp add: rocks_save_executions_def map_kv_def)
  show ?thesis
    using p d1 d2
    by (simp add: process_parsed_block_def activation_height_def demo_config_def demo_block_def params
        commit_progress_def rocks_ops_def)
qed

definition demo_to_json :: "execution \<Rightarrow> bytes option" where
  "demo_to_json e = (if e = demo_record then Some [1] else None)"

definition demo_from_json :: "bytes \<Rightarrow> execution option" where
  "demo_from_json bs = (if bs = [1] then Some demo_record else None)"

section \<open>Properties\<close>

text \<open>C27. The server answers from what the indexer committed: after a block is processed on the
  database of a network with an activation height, \<open>getInfo\<close> reports the block's height and
  hash and the root that processing returned, \<open>getStateRoot\<close> the same root; \<open>getCode\<close> serves
  each contract the block deployed with a module that hashes to the reported code hash, and
  every other contract as before; \<open>getExecution\<close> finds, under the displayed transaction id,
  the last record of the transaction.\<close>

theorem block_is_served:
  assumes "kv_store kv view" "rocks_rel view d lg"
    and "next_height lg (pb_height b)" "length (pb_transactions b) < 2 ^ 31"
    and "process_parsed_block lib (rocks_ops blake to_json from_json kv) config b d = Some (d', Ok be)"
    and "activation_height config \<noteq> None"
    and "\<And>bs. hex_decode hx (hex_encode hx bs) = Some bs" "\<And>e bs. to_json e = Some bs \<Longrightarrow> from_json bs = Some e"
  shows "ir_indexed_height (get_info hx sha manifest (rocks_ops blake to_json from_json kv) h d') = Some (pb_height b)
    \<and> ir_indexed_block_hash (get_info hx sha manifest (rocks_ops blake to_json from_json kv) h d')
        = Some (hex32 hx (pb_hash b))
    \<and> ir_state_root (get_info hx sha manifest (rocks_ops blake to_json from_json kv) h d') = hex32 hx (be_root_after be)
    \<and> get_state_root hx (rocks_ops blake to_json from_json kv) d' = hex32 hx (be_root_after be)
    \<and> (if cid \<in> set (be_deployed be)
       then \<exists>wasm. get_code hx (rocks_ops blake to_json from_json kv) (hex32 hx cid) d'
         = Some \<lparr>cd_contract_id = hex32 hx cid, cd_code_hash = hex32 hx (nl_sha lib wasm), cd_code_hex = hex_encode hx wasm\<rparr>
       else get_code hx (rocks_ops blake to_json from_json kv) (hex32 hx cid) d'
         = get_code hx (rocks_ops blake to_json from_json kv) (hex32 hx cid) d)
    \<and> (case last_execution (be_executions be) t of
         None \<Rightarrow> t \<notin> ex_txid ` set (be_executions be)
       | Some e \<Rightarrow> get_execution hx (rocks_ops blake to_json from_json kv) (txid_display hx t) d' = Some e)"
proof -
  have parse: "parse_id32 hx (hex32 hx c) = Some c" for c
    by (simp add: parse_id32_def hex32_def assms(7))
  have roots: "rocks_indexed_height kv d' = Some (pb_height b)" "rocks_indexed_block_hash kv d' = Some (pb_hash b)"
    "rocks_compute_root blake kv d' = be_root_after be"
    using kv_store.block_roots_law [OF assms(1-5)] assms(6) by auto
  have code: "get_code hx (rocks_ops blake to_json from_json kv) (hex32 hx cid) x =
      map_option (\<lambda>(code_hash, code). \<lparr>cd_contract_id = hex32 hx cid, cd_code_hash = hex32 hx code_hash,
        cd_code_hex = hex_encode hx code\<rparr>) (rocks_get_contract kv x cid)" for x
    by (simp add: get_code_def parse rocks_ops_def)
  have "get_execution hx (rocks_ops blake to_json from_json kv) (txid_display hx t) d'
      = rocks_execution from_json kv d' t"
    by (simp add: get_execution_def txid_display_def assms(7) rocks_ops_def)
  then show ?thesis
    using kv_store.block_contracts_law [OF assms(1-5), of cid]
      kv_store.block_records_law [OF assms(1,5,8), of t]
    by (auto simp: get_info_def get_state_root_def rocks_reads roots code last_execution_None Let_def
        split: option.splits if_splits)
qed

lemma block_is_served_witness:
  "\<exists>d' be. process_parsed_block demo_lib (rocks_ops (\<lambda>p x. fill32 0) demo_to_json demo_from_json map_kv)
      demo_config demo_block om_empty = Some (d', Ok be)
    \<and> ir_indexed_height (get_info plain_hex (\<lambda>x. fill32 0) [] (rocks_ops (\<lambda>p x. fill32 0) demo_to_json demo_from_json map_kv)
        \<lparr>rh_network = Regtest, rh_chain_tip = None, rh_indexer = None\<rparr> d') = Some 5
    \<and> get_execution plain_hex (rocks_ops (\<lambda>p x. fill32 0) demo_to_json demo_from_json map_kv)
        (txid_display plain_hex (fill32 4)) d' = Some demo_record"
proof -
  have rel: "rocks_rel (\<lambda>d. d) om_empty empty_ledger" by (rule rocks_rel_fresh) simp
  obtain d' be where run: "process_parsed_block demo_lib (rocks_ops (\<lambda>p x. fill32 0) demo_to_json demo_from_json map_kv)
      demo_config demo_block om_empty = Some (d', Ok be)" "be_executions be = [demo_record]"
    using demo_rocks_record [of demo_to_json demo_from_json] by (auto simp: demo_to_json_def)
  have "activation_height demo_config \<noteq> None" by (simp add: activation_height_def demo_config_def params)
  note served = block_is_served [OF map_db.kv_store_axioms rel demo_block_next run(1) this, of plain_hex "\<lambda>x. fill32 0" "[]"
      "\<lparr>rh_network = Regtest, rh_chain_tip = None, rh_indexer = None\<rparr>" "fill32 1" "fill32 4"]
  have "\<And>bs. hex_decode plain_hex (hex_encode plain_hex bs) = Some bs" by (simp add: plain_hex_def)
  moreover have "\<And>e bs. demo_to_json e = Some bs \<Longrightarrow> demo_from_json bs = Some e"
    by (auto simp: demo_to_json_def demo_from_json_def split: if_splits)
  moreover have "pb_height demo_block = 5" "ex_txid demo_record = fill32 4"
    by (simp_all add: demo_block_def demo_record_def)
  ultimately show ?thesis
    using served run by auto
qed

text \<open>C28. A loop that gave up never goes unseen: if the loop returned an error, it was a fatal one, and the
  node process exits with code 1; whatever is asked between the loop's last entry in its record and the
  exit, at any time and for every content of the database, \<open>/ready\<close> answers 503 with the error's text
  while \<open>/health\<close> still answers 200, and \<open>getInfo\<close> reports the indexer as not alive. If the loop
  stopped without an error, the process keeps serving and does not report it dead.\<close>

theorem dead_loop_reported:
  assumes "run_sync n fuel lib rd up ops config e s handle h = Finished (e', s', handle', h', r)" "is_dead h = None"
    and "rh_indexer handler = Some (health_report now stale_after h')"
  shows "case r of
      Ok _ \<Rightarrow> sync_task_end r = NodeServing \<and> ii_alive (indexer_info_of (health_report now stale_after h'))
    | Err x \<Rightarrow> sync_task_end r = NodeExited 1 \<and> (\<exists>what cause. x = Fatal what cause)
        \<and> health_answer ops handler ''/ready'' st = (''503 Service Unavailable'',
            ''unhealthy: indexer dead: '' @ sync_error_text x @ newline)
        \<and> health_answer ops handler ''/health'' st = (''200 OK'', ''alive'' @ newline)
        \<and> map_option ii_alive (ir_indexer (get_info hx sha manifest ops handler st)) = Some False"
proof (cases r)
  case (Inr u)
  then have "is_dead h' = None" using run_sync_stops [OF assms(1,2)] by simp
  then have "rpc_liveness_of (assess now stale_after h') \<noteq> RpcDead w" for w
    by (cases "assess now stale_after h'") (auto simp: assess_Dead_iff)
  then have "fst (snd (liveness_words (rpc_liveness_of (assess now stale_after h'))))"
    by (cases "rpc_liveness_of (assess now stale_after h')" rule: liveness_words.cases) auto
  with Inr show ?thesis by (simp add: sync_task_end_def indexer_info_of_def health_report_def case_prod_unfold)
next
  case (Inl x)
  then have "(\<exists>what cause. x = Fatal what cause)" "assess now stale_after h' = Dead (sync_error_text x)"
    using run_sync_stops [OF assms(1,2)] by simp_all
  then show ?thesis
    by (simp add: Inl assms(3) sync_task_end_def health_answer_def readiness_def health_report_def get_info_def indexer_info_of_def Let_def
        del: sync_error_text.simps)
qed

lemma dead_loop_reported_witness:
  "\<exists>h'. run_sync 1 3 demo_lib demo_reader (demo_up (Ok \<lparr>br_height = 5, br_hash = fill32 9\<rparr>)) full_disk
      \<lparr>ic_network = Testnet, ic_data_dir = [], ic_regtest_activation_override = None\<rparr> False memory_new None (health_new_at 0)
      = Finished (True, memory_new, Some \<lparr>br_height = 5, br_hash = fill32 9\<rparr>, h',
          Err (Fatal ''committing the fast-forward block'' (StoreError WriteFailed)))
    \<and> sync_task_end (Err (Fatal ''committing the fast-forward block'' (StoreError WriteFailed)) :: (sync_error, unit) result) = NodeExited 1
    \<and> health_answer full_disk
        \<lparr>rh_network = Testnet, rh_chain_tip = None, rh_indexer = Some (health_report 9 7 h')\<rparr> ''/ready'' memory_new
      = (''503 Service Unavailable'',
         ''unhealthy: indexer dead: committing the fast-forward block: state store error'' @ newline)"
proof -
  obtain h' where h': "run_sync 1 3 demo_lib demo_reader (demo_up (Ok \<lparr>br_height = 5, br_hash = fill32 9\<rparr>)) full_disk
      \<lparr>ic_network = Testnet, ic_data_dir = [], ic_regtest_activation_override = None\<rparr> False memory_new None (health_new_at 0)
      = Finished (True, memory_new, Some \<lparr>br_height = 5, br_hash = fill32 9\<rparr>, h',
          Err (Fatal ''committing the fast-forward block'' (StoreError WriteFailed)))"
    using full_disk_run by blast
  from dead_loop_reported [OF h', of "\<lparr>rh_network = Testnet, rh_chain_tip = None, rh_indexer = Some (health_report 9 7 h')\<rparr>"
      9 7 memory_new plain_hex "\<lambda>x. fill32 0" "[]"]
  show ?thesis
    using h' by (intro exI [of _ h']) (simp add: index_error_text_def)
qed

end
