(* ===== verification/Sdk.thy ===== *)
theory Sdk
  imports Runtime_Props
begin

text \<open>
  The contract side of the host interface: the crate \<open>zalkanes-sdk\<close> (\<open>lib.rs\<close>).

  An SDK function places its arguments in linear memory, calls the host, and reads the answer
  out of its buffer. The compiler and the allocator decide where the buffers are and may run
  out of memory or fuel, so they are a parameter: the record \<open>guest\<close>, whose state stands for the
  rest of the contract's memory. \<open>guest_ends\<close> says how a contract's run ends, and there is one
  rule for each SDK function.
\<close>

section \<open>Buffers\<close>

record 'g guest =
  gs_place :: "'g \<Rightarrow> bytes list \<Rightarrow> (string \<times> u64, 'g \<times> bytes \<times> i32 list) result"
  gs_fuel :: "'g \<Rightarrow> u64"

type_synonym ('g, 'a) guest_code = "('a \<Rightarrow> 'g \<Rightarrow> i32 run) \<Rightarrow> 'g \<Rightarrow> i32 run"

definition with_buffers :: "'g guest \<Rightarrow> bytes list \<Rightarrow> ('g \<Rightarrow> bytes \<Rightarrow> i32 list \<Rightarrow> i32 run) \<Rightarrow> 'g \<Rightarrow> i32 run" where
  "with_buffers gm bufs body g =
     (case gs_place gm g bufs of
        Err (msg, fuel) \<Rightarrow> Failed msg fuel
      | Ok (g', mem, ptrs) \<Rightarrow> body g' mem ptrs)"

definition buffer_at :: "i32 \<Rightarrow> nat \<Rightarrow> bytes option \<Rightarrow> bytes" where
  "buffer_at ptr n mem =
     (case mem of None \<Rightarrow> [] | Some data \<Rightarrow> slice (as_usize ptr) (as_usize ptr + n) data)"

definition BUFFER_SIZE :: nat where
  "BUFFER_SIZE = 65536"

definition empty_buffer :: bytes where
  "empty_buffer = replicate BUFFER_SIZE 0"

lemma length_empty_buffer [simp]: "length empty_buffer = BUFFER_SIZE"
  by (simp add: empty_buffer_def)

definition len_arg :: "bytes \<Rightarrow> i32" where
  "len_arg bs = of_nat (length bs)"

section \<open>The functions\<close>

definition sdk_get :: "'g guest \<Rightarrow> bytes \<Rightarrow> ('g, bytes option) guest_code" where
  "sdk_get gm key k =
     with_buffers gm [key, empty_buffer] (\<lambda>g mem ptrs.
       HostCall (StorageGet (ptrs ! 0) (len_arg key) (ptrs ! 1)) (Some mem) (\<lambda>len mem.
         k (if sint len < 0 then None
            else Some (take (unat len) (buffer_at (ptrs ! 1) BUFFER_SIZE mem))) g))"

definition sdk_set :: "'g guest \<Rightarrow> bytes \<Rightarrow> bytes \<Rightarrow> ('g, bool) guest_code" where
  "sdk_set gm key val k =
     with_buffers gm [key, val] (\<lambda>g mem ptrs.
       HostCall (StorageSet (ptrs ! 0) (len_arg key) (ptrs ! 1) (len_arg val)) (Some mem) (\<lambda>rc mem. k (rc = 0) g))"

definition sdk_delete :: "'g guest \<Rightarrow> bytes \<Rightarrow> ('g, bool) guest_code" where
  "sdk_delete gm key k =
     with_buffers gm [key] (\<lambda>g mem ptrs.
       HostCall (StorageDelete (ptrs ! 0) (len_arg key)) (Some mem) (\<lambda>rc mem. k (rc = 0) g))"

definition sdk_block_height :: "'g guest \<Rightarrow> ('g, u32) guest_code" where
  "sdk_block_height gm k =
     with_buffers gm [replicate 4 0] (\<lambda>g mem ptrs.
       HostCall (ContextBlockHeight (ptrs ! 0)) (Some mem) (\<lambda>rc mem.
         k (u32_from_be_bytes (buffer_at (ptrs ! 0) 4 mem)) g))"

definition sdk_read_input :: "'g guest \<Rightarrow> ('g, bytes) guest_code" where
  "sdk_read_input gm k =
     with_buffers gm [empty_buffer] (\<lambda>g mem ptrs.
       HostCall (InputRead (ptrs ! 0) 0 (len_arg empty_buffer)) (Some mem) (\<lambda>len mem.
         k (if sint len > 0 then take (unat len) (buffer_at (ptrs ! 0) BUFFER_SIZE mem) else []) g))"

definition sdk_write_output :: "'g guest \<Rightarrow> bytes \<Rightarrow> ('g, bool) guest_code" where
  "sdk_write_output gm data k =
     with_buffers gm [data] (\<lambda>g mem ptrs.
       HostCall (OutputWrite (ptrs ! 0) (len_arg data)) (Some mem) (\<lambda>rc mem. k (rc = 0) g))"

text \<open>The value that \<open>dispatch\<close> returns to the host.\<close>

definition guest_return :: "'g guest \<Rightarrow> i32 \<Rightarrow> 'g \<Rightarrow> i32 run" where
  "guest_return gm v g = Returned v (gs_fuel gm g)"

definition u64_to_bytes :: "u64 \<Rightarrow> bytes" where
  "u64_to_bytes v = u64_to_be_bytes v"

definition bytes_to_u64 :: "bytes \<Rightarrow> u64" where
  "bytes_to_u64 b = (if length b < 8 then 0 else u64_from_be_bytes (take 8 b))"

section \<open>How a run ends\<close>

text \<open>The run does not panic the host, returns with a result and host state in \<open>Q\<close>, or fails because
  the contract ran out of memory or fuel, while it needed no more than 1 MiB of buffers at once.\<close>

definition WORK_SPACE :: nat where
  "WORK_SPACE = 1048576"

definition guest_ends ::
    "'g guest \<Rightarrow> (contract_id \<Rightarrow> bytes \<Rightarrow> bytes option) \<Rightarrow> i32 run \<Rightarrow> host_state \<Rightarrow> (i32 \<Rightarrow> host_state \<Rightarrow> bool) \<Rightarrow> bool" where
  "guest_ends gm base r hs Q \<longleftrightarrow>
     (case interpret_run base r hs of
        None \<Rightarrow> False
      | Some (EndReturned v hs' fuel) \<Rightarrow> Q v hs'
      | Some (EndFailed msg fuel) \<Rightarrow> (\<exists>g bufs. length (concat bufs) \<le> WORK_SPACE \<and> gs_place gm g bufs = Err (msg, fuel)))"

lemma ends_return [simp]: "guest_ends gm base (guest_return gm v g) hs Q \<longleftrightarrow> Q v hs"
  by (simp add: guest_ends_def guest_return_def)

lemma ends_HostCall:
  "run_host_call base call hs mem = Some (ret, hs', mem') \<Longrightarrow>
     guest_ends gm base (HostCall call mem k) hs Q \<longleftrightarrow> guest_ends gm base (k ret mem') hs' Q"
  by (simp add: guest_ends_def)

lemma ends_with_buffers:
  assumes "length (concat bufs) \<le> WORK_SPACE"
    and "\<And>g' mem ptrs. gs_place gm g bufs = Ok (g', mem, ptrs) \<Longrightarrow> guest_ends gm base (body g' mem ptrs) hs Q"
  shows "guest_ends gm base (with_buffers gm bufs body g) hs Q"
proof (cases "gs_place gm g bufs")
  case (Inl e)
  then show ?thesis using assms(1)
    by (cases e) (auto simp: with_buffers_def guest_ends_def)
next
  case (Inr p)
  then show ?thesis using assms(2) by (cases p) (simp add: with_buffers_def)
qed

lemma ends_mono: "guest_ends gm base r hs Q \<Longrightarrow> (\<And>v hs'. Q v hs' \<Longrightarrow> R v hs') \<Longrightarrow> guest_ends gm base r hs R"
  by (auto simp: guest_ends_def split: option.splits run_end.splits)

section \<open>Rules\<close>

lemma host_view_output [simp]: "host_view base (hs\<lparr>hs_output := x\<rparr>) = host_view base hs"
  by (simp add: host_view_def fun_eq_iff split: option.split)

text \<open>Every stored value is at most \<open>MAX_STORAGE_VALUE_BYTES\<close>, which is the size of the buffer.\<close>

definition small_values :: "(bytes \<Rightarrow> bytes option) \<Rightarrow> bool" where
  "small_values vw \<longleftrightarrow> (\<forall>key v. vw key = Some v \<longrightarrow> length v \<le> BUFFER_SIZE)"

lemma small_values_upd [simp]:
  "small_values vw \<Longrightarrow> length v \<le> BUFFER_SIZE \<Longrightarrow> small_values (vw(key := Some v))"
  "small_values vw \<Longrightarrow> small_values (vw(key := None))"
  by (auto simp: small_values_def)

lemma unat_of_nat32: "n < 2147483648 \<Longrightarrow> unat (of_nat n :: i32) = n"
  by (simp add: unsigned_of_nat take_bit_nat_eq_self)

lemma as_usize_of_nat: "n < 2147483648 \<Longrightarrow> as_usize (of_nat n) = n"
  by (subst as_usize_small) (simp_all add: unat_of_nat32)

lemma sint_of_nat32: "n < 2147483648 \<Longrightarrow> sint (of_nat n :: i32) = int n"
  by (subst sint_small) (simp_all add: unat_of_nat32)

definition can_set :: "host_state \<Rightarrow> bytes \<Rightarrow> bytes \<Rightarrow> bool" where
  "can_set hs key val \<longleftrightarrow>
     length key \<le> unat MAX_STORAGE_KEY_BYTES \<and> length val \<le> unat MAX_STORAGE_VALUE_BYTES \<and> \<not> overlay_full hs key"

locale guest_memory =
  fixes gm :: "'g guest"
  assumes placed: "gs_place gm g bufs = Ok (g', mem, ptrs) \<Longrightarrow>
    length mem \<le> 16777216 \<and> length ptrs = length bufs
    \<and> (\<forall>i < length bufs. as_usize (ptrs ! i) + length (bufs ! i) \<le> length mem
        \<and> slice (as_usize (ptrs ! i)) (as_usize (ptrs ! i) + length (bufs ! i)) mem = bufs ! i)"
begin

lemma placed_nth:
  assumes "gs_place gm g bufs = Ok (g', mem, ptrs)" "i < length bufs"
  shows "as_usize (len_arg (bufs ! i)) = length (bufs ! i)"
    "saturating_add (as_usize (ptrs ! i)) (length (bufs ! i)) = as_usize (ptrs ! i) + length (bufs ! i)"
    "as_usize (ptrs ! i) + length (bufs ! i) \<le> length mem"
    "slice (as_usize (ptrs ! i)) (as_usize (ptrs ! i) + length (bufs ! i)) mem = bufs ! i"
    "length mem \<le> 16777216"
proof -
  note p = placed [OF assms(1)]
  show fit: "as_usize (ptrs ! i) + length (bufs ! i) \<le> length mem"
    and "slice (as_usize (ptrs ! i)) (as_usize (ptrs ! i) + length (bufs ! i)) mem = bufs ! i"
    and mem: "length mem \<le> 16777216"
    using p assms(2) by auto
  show "as_usize (len_arg (bufs ! i)) = length (bufs ! i)"
    unfolding len_arg_def using fit mem by (intro as_usize_of_nat) simp
  show "saturating_add (as_usize (ptrs ! i)) (length (bufs ! i)) = as_usize (ptrs ! i) + length (bufs ! i)"
    using fit mem by (simp add: saturating_add_def params)
qed

lemma ends_get:
  assumes "length key \<le> BUFFER_SIZE" "small_values (host_view base hs)"
    and "\<And>g. guest_ends gm base (k (host_view base hs key) g) hs Q"
  shows "guest_ends gm base (sdk_get gm key k g) hs Q"
  unfolding sdk_get_def
proof (rule ends_with_buffers)
  fix g' mem ptrs
  assume p: "gs_place gm g [key, empty_buffer] = Ok (g', mem, ptrs)"
  note key = placed_nth [OF p, of 0, simplified] and buf = placed_nth [OF p, of 1, simplified]
  let ?call = "StorageGet (ptrs ! 0) (len_arg key) (ptrs ! 1)"
  have key_read: "slice_or_panic (as_usize (ptrs ! 0)) (as_usize (ptrs ! 0) + length key) mem = Some key"
    using key by (simp add: slice_or_panic_def)
  show "guest_ends gm base (HostCall ?call (Some mem) (\<lambda>len mem.
      k (if sint len < 0 then None else Some (take (unat len) (buffer_at (ptrs ! 1) BUFFER_SIZE mem))) g')) hs Q"
  proof (cases "host_view base hs key")
    case None
    then have "run_host_call base ?call hs (Some mem) = Some (-1, hs, Some mem)"
      using key key_read by (simp add: host_storage_get_def host_view_def)
    then show ?thesis using assms(3) None by (simp add: ends_HostCall)
  next
    case (Some v)
    then have v: "length v \<le> BUFFER_SIZE" using assms(2) by (simp add: small_values_def)
    have "run_host_call base ?call hs (Some mem)
        = Some (of_nat (length v), hs, Some (write_at (as_usize (ptrs ! 1)) v mem))"
      using key buf key_read v Some
      by (simp add: host_storage_get_def host_view_def checked_add_def params)
    moreover have "sint (of_nat (length v) :: i32) = int (length v)" "unat (of_nat (length v) :: i32) = length v"
      using v by (simp_all add: sint_of_nat32 unat_of_nat32 BUFFER_SIZE_def)
    moreover have "take (length v) (buffer_at (ptrs ! 1) BUFFER_SIZE (Some (write_at (as_usize (ptrs ! 1)) v mem))) = v"
      using buf v by (simp add: buffer_at_def write_at_def slice_def)
    ultimately show ?thesis using assms(3) Some by (simp add: ends_HostCall)
  qed
qed (use assms(1) in \<open>simp add: BUFFER_SIZE_def WORK_SPACE_def\<close>)

lemma len_arg_le:
  assumes "length bs < 2147483648" "unat m < 2147483648"
  shows "len_arg bs > m \<longleftrightarrow> unat m < length bs"
  using assms by (simp add: len_arg_def word_less_nat_alt unat_of_nat32)

lemma ends_set:
  assumes "length key \<le> BUFFER_SIZE" "length val \<le> BUFFER_SIZE"
    and "\<And>g. can_set hs key val \<Longrightarrow>
      guest_ends gm base (k True g) (hs\<lparr>hs_overlay := om_insert key (Some val) (hs_overlay hs)\<rparr>) Q"
    and "\<And>g. \<not> can_set hs key val \<Longrightarrow> guest_ends gm base (k False g) hs Q"
  shows "guest_ends gm base (sdk_set gm key val k g) hs Q"
  unfolding sdk_set_def
proof (rule ends_with_buffers)
  fix g' mem ptrs
  assume p: "gs_place gm g [key, val] = Ok (g', mem, ptrs)"
  note k = placed_nth [OF p, of 0, simplified] and v = placed_nth [OF p, of 1, simplified]
  have big: "len_arg key > MAX_STORAGE_KEY_BYTES \<longleftrightarrow> unat MAX_STORAGE_KEY_BYTES < length key"
    "len_arg val > MAX_STORAGE_VALUE_BYTES \<longleftrightarrow> unat MAX_STORAGE_VALUE_BYTES < length val"
    using k v by (intro len_arg_le; simp add: params)+
  have "run_host_call base (StorageSet (ptrs ! 0) (len_arg key) (ptrs ! 1) (len_arg val)) hs (Some mem)
      = (if can_set hs key val then Some (0, hs\<lparr>hs_overlay := om_insert key (Some val) (hs_overlay hs)\<rparr>, Some mem)
         else Some (-1, hs, Some mem))"
    using k v by (simp add: host_storage_set_def big can_set_def slice_or_panic_def not_less)
  then show "guest_ends gm base (HostCall (StorageSet (ptrs ! 0) (len_arg key) (ptrs ! 1) (len_arg val)) (Some mem)
      (\<lambda>rc mem. k (rc = 0) g')) hs Q"
    using assms(2-) by (cases "can_set hs key val") (simp_all add: ends_HostCall)
qed (use assms(1,2) in \<open>simp add: BUFFER_SIZE_def WORK_SPACE_def\<close>)

lemma ends_delete:
  assumes "length key \<le> BUFFER_SIZE"
    and "\<And>g. can_set hs key [] \<Longrightarrow>
      guest_ends gm base (k True g) (hs\<lparr>hs_overlay := om_insert key None (hs_overlay hs)\<rparr>) Q"
    and "\<And>g. \<not> can_set hs key [] \<Longrightarrow> guest_ends gm base (k False g) hs Q"
  shows "guest_ends gm base (sdk_delete gm key k g) hs Q"
  unfolding sdk_delete_def
proof (rule ends_with_buffers)
  fix g' mem ptrs
  assume p: "gs_place gm g [key] = Ok (g', mem, ptrs)"
  note k = placed_nth [OF p, of 0, simplified]
  have "len_arg key > MAX_STORAGE_KEY_BYTES \<longleftrightarrow> unat MAX_STORAGE_KEY_BYTES < length key"
    using k by (intro len_arg_le; simp add: params)
  then have "run_host_call base (StorageDelete (ptrs ! 0) (len_arg key)) hs (Some mem)
      = (if can_set hs key [] then Some (0, hs\<lparr>hs_overlay := om_insert key None (hs_overlay hs)\<rparr>, Some mem)
         else Some (-1, hs, Some mem))"
    using k by (simp add: host_storage_delete_def can_set_def slice_or_panic_def not_less)
  then show "guest_ends gm base (HostCall (StorageDelete (ptrs ! 0) (len_arg key)) (Some mem)
      (\<lambda>rc mem. k (rc = 0) g')) hs Q"
    using assms(2-) by (cases "can_set hs key []") (simp_all add: ends_HostCall)
qed (use assms(1) in \<open>simp add: BUFFER_SIZE_def WORK_SPACE_def\<close>)

lemma ends_write_output:
  assumes "length data \<le> unat MAX_RETURN_DATA_BYTES"
    and "\<And>g. guest_ends gm base (k True g) (hs\<lparr>hs_output := data\<rparr>) Q"
  shows "guest_ends gm base (sdk_write_output gm data k g) hs Q"
  unfolding sdk_write_output_def
proof (rule ends_with_buffers)
  fix g' mem ptrs
  assume p: "gs_place gm g [data] = Ok (g', mem, ptrs)"
  note d = placed_nth [OF p, of 0, simplified]
  have "len_arg data > MAX_RETURN_DATA_BYTES \<longleftrightarrow> unat MAX_RETURN_DATA_BYTES < length data"
    using d by (intro len_arg_le; simp add: params)
  then have "run_host_call base (OutputWrite (ptrs ! 0) (len_arg data)) hs (Some mem)
      = Some (0, hs\<lparr>hs_output := data\<rparr>, Some mem)"
    using d assms(1) by (simp add: host_output_write_def slice_or_panic_def not_less)
  then show "guest_ends gm base (HostCall (OutputWrite (ptrs ! 0) (len_arg data)) (Some mem)
      (\<lambda>rc mem. k (rc = 0) g')) hs Q"
    using assms(2) by (simp add: ends_HostCall)
qed (use assms(1) in \<open>simp add: params WORK_SPACE_def\<close>)

lemma ends_read_input:
  assumes "\<And>g. guest_ends gm base (k (take BUFFER_SIZE (hs_input hs)) g) hs Q"
  shows "guest_ends gm base (sdk_read_input gm k g) hs Q"
  unfolding sdk_read_input_def
proof (rule ends_with_buffers)
  fix g' mem ptrs
  assume p: "gs_place gm g [empty_buffer] = Ok (g', mem, ptrs)"
  note b = placed_nth [OF p, of 0, simplified]
  let ?in = "take BUFFER_SIZE (hs_input hs)"
  let ?call = "InputRead (ptrs ! 0) 0 (len_arg empty_buffer)"
  show "guest_ends gm base (HostCall ?call (Some mem) (\<lambda>len mem.
      k (if sint len > 0 then take (unat len) (buffer_at (ptrs ! 0) BUFFER_SIZE mem) else []) g')) hs Q"
  proof (cases "hs_input hs = []")
    case True
    then have "run_host_call base ?call hs (Some mem) = Some (0, hs, Some mem)"
      by (simp add: host_input_read_def)
    then show ?thesis using assms True by (simp add: ends_HostCall)
  next
    case False
    have small: "length ?in \<le> BUFFER_SIZE" by simp
    have cap: "take (min (length xs) n) xs = take n xs" for xs :: bytes and n
      by (cases "length xs \<le> n") (simp_all add: min_def)
    have whole: "slice_or_panic 0 (min (length (hs_input hs)) BUFFER_SIZE) (hs_input hs) = Some ?in"
      by (simp add: slice_or_panic_def slice_def cap)
    have wrap: "wrapping_add 0 BUFFER_SIZE = BUFFER_SIZE" by (simp add: wrapping_add_def params BUFFER_SIZE_def)
    have fits: "as_usize (ptrs ! 0) + length ?in \<le> length mem" using b small by simp
    have "checked_add (as_usize (ptrs ! 0)) (length ?in) = Some (as_usize (ptrs ! 0) + length ?in)"
      using fits b by (simp add: checked_add_def params)
    then have "run_host_call base ?call hs (Some mem)
        = Some (of_nat (length ?in), hs, Some (write_at (as_usize (ptrs ! 0)) ?in mem))"
      using b fits whole False unfolding run_host_call.simps host_input_read_def
      by (simp add: wrap Let_def del: length_take)
    moreover have "sint (of_nat (length ?in) :: i32) = int (length ?in)" "unat (of_nat (length ?in) :: i32) = length ?in"
      using small by (simp_all add: sint_of_nat32 unat_of_nat32 BUFFER_SIZE_def del: length_take)
    moreover have "take (length ?in) (buffer_at (ptrs ! 0) BUFFER_SIZE (Some (write_at (as_usize (ptrs ! 0)) ?in mem))) = ?in"
      using b small by (simp add: buffer_at_def write_at_def slice_def cap)
    moreover have "length ?in > 0" using False by (simp add: BUFFER_SIZE_def)
    ultimately show ?thesis using assms by (simp add: ends_HostCall del: length_take)
  qed
qed (simp add: BUFFER_SIZE_def WORK_SPACE_def)

lemma ends_block_height:
  assumes "\<And>g. guest_ends gm base (k (hs_block_height hs) g) hs Q"
  shows "guest_ends gm base (sdk_block_height gm k g) hs Q"
  unfolding sdk_block_height_def
proof (rule ends_with_buffers)
  fix g' mem ptrs
  assume p: "gs_place gm g [replicate 4 0] = Ok (g', mem, ptrs)"
  note b = placed_nth [OF p, of 0, simplified]
  have "run_host_call base (ContextBlockHeight (ptrs ! 0)) hs (Some mem)
      = Some (0, hs, Some (write_at (as_usize (ptrs ! 0)) (u32_to_be_bytes (hs_block_height hs)) mem))"
    using b by (simp add: host_context_block_height_def checked_add_def params)
  moreover have "buffer_at (ptrs ! 0) 4 (Some (write_at (as_usize (ptrs ! 0)) (u32_to_be_bytes (hs_block_height hs)) mem))
      = u32_to_be_bytes (hs_block_height hs)"
    using b by (simp add: buffer_at_def write_at_def slice_def codec)
  ultimately show "guest_ends gm base (HostCall (ContextBlockHeight (ptrs ! 0)) (Some mem) (\<lambda>rc mem.
      k (u32_from_be_bytes (buffer_at (ptrs ! 0) 4 mem)) g')) hs Q"
    using assms by (simp add: ends_HostCall codec)
qed (simp add: WORK_SPACE_def)

end

section \<open>An allocator\<close>

text \<open>Buffers side by side from address 0, in a memory that they fill.\<close>

fun offsets :: "nat \<Rightarrow> bytes list \<Rightarrow> i32 list" where
  "offsets n [] = []"
| "offsets n (b # bs) = of_nat n # offsets (n + length b) bs"

definition flat_guest :: "unit guest" where
  "flat_guest =
     \<lparr>gs_place = (\<lambda>g bufs. if length (concat bufs) \<le> 16777216 then Ok ((), concat bufs, offsets 0 bufs)
        else Err (''unreachable'', 0)),
      gs_fuel = (\<lambda>g. 1)\<rparr>"

lemma offsets_nth:
  assumes "length pre = n" "n + length (concat bufs) \<le> 16777216" "i < length bufs"
  shows "length (offsets n bufs) = length bufs
    \<and> as_usize (offsets n bufs ! i) + length (bufs ! i) \<le> length (pre @ concat bufs)
    \<and> slice (as_usize (offsets n bufs ! i)) (as_usize (offsets n bufs ! i) + length (bufs ! i)) (pre @ concat bufs) = bufs ! i"
  using assms
proof (induction bufs arbitrary: n pre i)
  case (Cons b bs)
  have len: "length (offsets m xs) = length xs" for m and xs :: "bytes list"
    by (induction xs arbitrary: m) auto
  show ?case
  proof (cases i)
    case 0
    have "as_usize (of_nat n) = n" using Cons.prems(2) by (intro as_usize_of_nat) simp
    then show ?thesis using 0 Cons.prems(1) by (simp add: len slice_def)
  next
    case (Suc j)
    then show ?thesis
      using Cons.IH [of "pre @ b" "n + length b" j] Cons.prems by (simp add: len)
  qed
qed simp

interpretation flat: guest_memory flat_guest
proof
  fix g bufs g' mem ptrs
  assume p: "gs_place flat_guest g bufs = Ok (g', mem, ptrs)"
  then have "mem = concat bufs" "ptrs = offsets 0 bufs" "length (concat bufs) \<le> 16777216"
    by (auto simp: flat_guest_def split: if_splits)
  moreover have "length (offsets m xs) = length xs" for m and xs :: "bytes list"
    by (induction xs arbitrary: m) auto
  ultimately show "length mem \<le> 16777216 \<and> length ptrs = length bufs
    \<and> (\<forall>i < length bufs. as_usize (ptrs ! i) + length (bufs ! i) \<le> length mem
        \<and> slice (as_usize (ptrs ! i)) (as_usize (ptrs ! i) + length (bufs ! i)) mem = bufs ! i)"
    using offsets_nth [of "[]" 0 bufs] by simp
qed

text \<open>This allocator never runs out within the work space, so the run returns.\<close>

lemma flat_returns:
  assumes "guest_ends flat_guest base r hs Q"
  obtains v hs' fuel where "interpret_run base r hs = Some (EndReturned v hs' fuel)" "Q v hs'"
  using assms
  by (auto simp: guest_ends_def flat_guest_def WORK_SPACE_def split: option.splits run_end.splits if_splits)

end
