(* ===== verification/Contracts.thy ===== *)
theory Contracts
  imports Sdk
begin

text \<open>
  The example contracts \<open>counter\<close>, \<open>key-value\<close> and \<open>token\<close> (\<open>src/contracts\<close>), written with the
  functions of \<open>Sdk\<close>: each \<open>dispatch\<close> is the run tree that the engine executes.
\<close>

section \<open>Counter\<close>

definition COUNTER_KEY :: bytes where
  "COUNTER_KEY = ascii ''counter''"

definition counter_value :: "bytes option \<Rightarrow> u64" where
  "counter_value v = (case v of None \<Rightarrow> 0 | Some b \<Rightarrow> bytes_to_u64 b)"

definition counter_dispatch :: "'g guest \<Rightarrow> i32 \<Rightarrow> i32 \<Rightarrow> 'g \<Rightarrow> i32 run" where
  "counter_dispatch gm opcode input_len =
     (let opc = (ucast opcode :: u16) in
      if opc = 0x0001 then
        sdk_get gm COUNTER_KEY (\<lambda>v.
        sdk_set gm COUNTER_KEY (u64_to_bytes (counter_value v + 1)) (\<lambda>_. guest_return gm 0))
      else if opc = 0x0002 then
        sdk_get gm COUNTER_KEY (\<lambda>v.
        sdk_write_output gm (u64_to_bytes (counter_value v)) (\<lambda>ok. guest_return gm (if ok then 0 else -1)))
      else if opc = 0x0003 then
        sdk_read_input gm (\<lambda>input.
          if length input < 8 then guest_return gm (-1)
          else sdk_set gm COUNTER_KEY (u64_to_bytes (bytes_to_u64 (take 8 input))) (\<lambda>_. guest_return gm 0))
      else guest_return gm (-1))"

section \<open>Key-value store\<close>

definition key_value_set :: "'g guest \<Rightarrow> bytes \<Rightarrow> 'g \<Rightarrow> i32 run" where
  "key_value_set gm input =
     (if length input < 2 then guest_return gm (-1)
      else
        let key_len = unat (u16_from_be_bytes [input ! 0, input ! 1]) in
        if length input < 2 + key_len then guest_return gm (-1)
        else
          let key = slice 2 (2 + key_len) input; val = drop (2 + key_len) input in
          sdk_set gm key val (\<lambda>_. guest_return gm 0))"

definition key_value_dispatch :: "'g guest \<Rightarrow> i32 \<Rightarrow> i32 \<Rightarrow> 'g \<Rightarrow> i32 run" where
  "key_value_dispatch gm opcode input_len =
     sdk_read_input gm (\<lambda>input.
       let opc = (ucast opcode :: u16) in
       if opc = 0x0001 then key_value_set gm input
       else if opc = 0x0002 then
         sdk_get gm input (\<lambda>v. case v of
             Some v \<Rightarrow> sdk_write_output gm v (\<lambda>_. guest_return gm 0)
           | None \<Rightarrow> guest_return gm (-1))
       else if opc = 0x0003 then sdk_delete gm input (\<lambda>_. guest_return gm 0)
       else guest_return gm (-1))"

section \<open>Token\<close>

type_synonym u128 = "128 word"

definition u128_to_bytes :: "u128 \<Rightarrow> bytes" where
  "u128_to_bytes v = rev (nat_to_le 16 (unat v))"

definition bytes_to_u128 :: "bytes \<Rightarrow> u128" where
  "bytes_to_u128 b = (if length b < 16 then 0 else of_nat (nat_from_le (rev (take 16 b))))"

definition balance_key :: "b32 \<Rightarrow> bytes" where
  "balance_key addr = ascii ''balance/'' @ bytes_of addr"

definition SUPPLY_KEY :: bytes where
  "SUPPLY_KEY = ascii ''supply''"

definition OWNER_KEY :: bytes where
  "OWNER_KEY = ascii ''owner''"

definition stored_u128 :: "bytes option \<Rightarrow> u128" where
  "stored_u128 v = (case v of None \<Rightarrow> 0 | Some b \<Rightarrow> bytes_to_u128 b)"

definition get_balance :: "'g guest \<Rightarrow> b32 \<Rightarrow> ('g, u128) guest_code" where
  "get_balance gm addr k = sdk_get gm (balance_key addr) (\<lambda>v. k (stored_u128 v))"

definition set_balance :: "'g guest \<Rightarrow> b32 \<Rightarrow> u128 \<Rightarrow> ('g \<Rightarrow> i32 run) \<Rightarrow> 'g \<Rightarrow> i32 run" where
  "set_balance gm addr v k = sdk_set gm (balance_key addr) (u128_to_bytes v) (\<lambda>_. k)"

definition get_supply :: "'g guest \<Rightarrow> ('g, u128) guest_code" where
  "get_supply gm k = sdk_get gm SUPPLY_KEY (\<lambda>v. k (stored_u128 v))"

definition set_supply :: "'g guest \<Rightarrow> u128 \<Rightarrow> ('g \<Rightarrow> i32 run) \<Rightarrow> 'g \<Rightarrow> i32 run" where
  "set_supply gm v k = sdk_set gm SUPPLY_KEY (u128_to_bytes v) (\<lambda>_. k)"

definition saturating_add128 :: "u128 \<Rightarrow> u128 \<Rightarrow> u128" where
  "saturating_add128 a b = (if unat a + unat b < 2 ^ 128 then a + b else -1)"

definition saturating_sub128 :: "u128 \<Rightarrow> u128 \<Rightarrow> u128" where
  "saturating_sub128 a b = (if b \<le> a then a - b else 0)"

definition token_initialize :: "'g guest \<Rightarrow> bytes \<Rightarrow> 'g \<Rightarrow> i32 run" where
  "token_initialize gm input =
     (if length input < 48 then guest_return gm (-1)
      else
        let supply = bytes_to_u128 (take 16 input); owner = mk32 (slice 16 48 input) in
        set_supply gm supply (
        set_balance gm owner supply (
        sdk_set gm OWNER_KEY (bytes_of owner) (\<lambda>_. guest_return gm 0))))"

definition token_balance_of :: "'g guest \<Rightarrow> bytes \<Rightarrow> 'g \<Rightarrow> i32 run" where
  "token_balance_of gm input =
     (if length input < 32 then guest_return gm (-1)
      else get_balance gm (mk32 (take 32 input)) (\<lambda>bal.
        sdk_write_output gm (u128_to_bytes bal) (\<lambda>_. guest_return gm 0)))"

definition token_transfer :: "'g guest \<Rightarrow> bytes \<Rightarrow> 'g \<Rightarrow> i32 run" where
  "token_transfer gm input =
     (if length input < 80 then guest_return gm (-1)
      else
        let sender = mk32 (take 32 input); receiver = mk32 (slice 32 64 input);
            amount = bytes_to_u128 (slice 64 80 input) in
        get_balance gm sender (\<lambda>from_bal.
          if from_bal < amount then guest_return gm (-1)
          else
            set_balance gm sender (from_bal - amount) (
            get_balance gm receiver (\<lambda>to_bal.
            set_balance gm receiver (saturating_add128 to_bal amount) (guest_return gm 0)))))"

definition token_mint :: "'g guest \<Rightarrow> bytes \<Rightarrow> 'g \<Rightarrow> i32 run" where
  "token_mint gm input =
     (if length input < 48 then guest_return gm (-1)
      else
        let receiver = mk32 (take 32 input); amount = bytes_to_u128 (slice 32 48 input) in
        get_supply gm (\<lambda>supply.
          let new_supply = (if unat supply + unat amount < 2 ^ 128 then supply + amount else -1) in
          if new_supply = -1 then guest_return gm (-1)
          else
            set_supply gm new_supply (
            get_balance gm receiver (\<lambda>bal.
            set_balance gm receiver (saturating_add128 bal amount) (guest_return gm 0)))))"

definition token_burn :: "'g guest \<Rightarrow> bytes \<Rightarrow> 'g \<Rightarrow> i32 run" where
  "token_burn gm input =
     (if length input < 48 then guest_return gm (-1)
      else
        let sender = mk32 (take 32 input); amount = bytes_to_u128 (slice 32 48 input) in
        get_balance gm sender (\<lambda>bal.
          if bal < amount then guest_return gm (-1)
          else
            get_supply gm (\<lambda>supply.
            set_balance gm sender (bal - amount) (
            set_supply gm (saturating_sub128 supply amount) (guest_return gm 0)))))"

definition token_dispatch :: "'g guest \<Rightarrow> i32 \<Rightarrow> i32 \<Rightarrow> 'g \<Rightarrow> i32 run" where
  "token_dispatch gm opcode input_len =
     sdk_read_input gm (\<lambda>input.
       let opc = (ucast opcode :: u16) in
       if opc = 0x0001 then token_initialize gm input
       else if opc = 0x0002 then token_balance_of gm input
       else if opc = 0x0003 then token_transfer gm input
       else if opc = 0x0004 then token_mint gm input
       else if opc = 0x0005 then token_burn gm input
       else if opc = 0x0006 then
         get_supply gm (\<lambda>supply. sdk_write_output gm (u128_to_bytes supply) (\<lambda>_. guest_return gm 0))
       else guest_return gm (-1))"

end
