(* ===== verification/Token_Props.thy ===== *)
theory Token_Props
  imports Contracts
begin

text \<open>
  The token contract implements an abstract ledger of natural-number balances, in which the
  supply is the sum of the balances.
\<close>

section \<open>Encodings\<close>

lemma length_u128_to_bytes [simp]: "length (u128_to_bytes v) = 16"
  by (simp add: u128_to_bytes_def del: nat_to_le_numeral)

lemma bytes_to_u128_to_bytes [simp]: "bytes_to_u128 (u128_to_bytes v) = v"
proof -
  have "unat v < 256 ^ 16" using unsigned_less [of v] by simp
  then show ?thesis
    unfolding bytes_to_u128_def length_u128_to_bytes
    by (simp add: u128_to_bytes_def nat_from_le_to_le del: nat_to_le_numeral)
qed

lemma token_keys [simp]:
  "balance_key a = balance_key b \<longleftrightarrow> a = b" "balance_key a \<noteq> SUPPLY_KEY" "SUPPLY_KEY \<noteq> balance_key a"
  "balance_key a \<noteq> OWNER_KEY" "OWNER_KEY \<noteq> balance_key a" "SUPPLY_KEY \<noteq> OWNER_KEY" "OWNER_KEY \<noteq> SUPPLY_KEY"
  by (simp_all add: balance_key_def SUPPLY_KEY_def OWNER_KEY_def ascii_def)

lemma length_token_keys [simp]: "length (balance_key a) = 40" "length SUPPLY_KEY = 6" "length OWNER_KEY = 5"
  by (simp_all add: balance_key_def SUPPLY_KEY_def OWNER_KEY_def ascii_def)

lemma finite_b32 [simp]: "finite (UNIV :: b32 set)"
proof -
  have "finite {xs :: bytes. length xs = 32}"
    using finite_lists_length_eq [of "UNIV :: u8 set" 32] by simp
  then have "finite (bytes_of ` (UNIV :: b32 set))"
    by (rule rev_finite_subset) auto
  then show ?thesis by (rule finite_imageD) (auto intro: injI)
qed

section \<open>The abstract ledger\<close>

type_synonym balances = "b32 \<Rightarrow> nat"

definition supply_of :: "balances \<Rightarrow> nat" where
  "supply_of bal = (\<Sum>a\<in>UNIV. bal a)"

definition credit :: "b32 \<Rightarrow> nat \<Rightarrow> balances \<Rightarrow> balances" where
  "credit a n bal = bal(a := bal a + n)"

definition debit :: "b32 \<Rightarrow> nat \<Rightarrow> balances \<Rightarrow> balances" where
  "debit a n bal = bal(a := bal a - n)"

lemma supply_upd: "supply_of (bal(a := n)) + bal a = supply_of bal + n"
  unfolding supply_of_def
  by (simp add: sum.remove [of UNIV a] sum.remove [of UNIV a "bal(a := n)"])

lemma supply_credit [simp]: "supply_of (credit a n bal) = supply_of bal + n"
  using supply_upd [of bal a "bal a + n"] by (simp add: credit_def)

lemma supply_debit [simp]: "n \<le> bal a \<Longrightarrow> supply_of (debit a n bal) = supply_of bal - n"
  using supply_upd [of bal a "bal a - n"] by (simp add: debit_def)

lemma balance_le_supply: "bal a \<le> supply_of bal"
  unfolding supply_of_def by (rule member_le_sum) auto

text \<open>What an operation other than \<open>initialize\<close> does: the balances after it and its output, or an error.\<close>

definition ledger_step :: "u16 \<Rightarrow> bytes \<Rightarrow> balances \<Rightarrow> (balances \<times> bytes option) option" where
  "ledger_step opc input bal =
     (if opc = 2 then
        if length input < 32 then None
        else Some (bal, Some (u128_to_bytes (of_nat (bal (mk32 (take 32 input))))))
      else if opc = 3 then
        let sender = mk32 (take 32 input); receiver = mk32 (slice 32 64 input);
            amount = unat (bytes_to_u128 (slice 64 80 input)) in
        if length input < 80 \<or> bal sender < amount then None
        else Some (credit receiver amount (debit sender amount bal), None)
      else if opc = 4 then
        let receiver = mk32 (take 32 input); amount = unat (bytes_to_u128 (slice 32 48 input)) in
        if length input < 48 \<or> supply_of bal + amount \<ge> 2 ^ 128 - 1 then None
        else Some (credit receiver amount bal, None)
      else if opc = 5 then
        let sender = mk32 (take 32 input); amount = unat (bytes_to_u128 (slice 32 48 input)) in
        if length input < 48 \<or> bal sender < amount then None
        else Some (debit sender amount bal, None)
      else if opc = 6 then Some (bal, Some (u128_to_bytes (of_nat (supply_of bal))))
      else None)"

text \<open>The storage of the contract holds these balances, and their sum as its supply.\<close>

definition holds_balances :: "(bytes \<Rightarrow> bytes option) \<Rightarrow> balances \<Rightarrow> bool" where
  "holds_balances vw bal \<longleftrightarrow>
     small_values vw \<and> (\<forall>a. unat (stored_u128 (vw (balance_key a))) = bal a)
     \<and> unat (stored_u128 (vw SUPPLY_KEY)) = supply_of bal"

lemma unat_u128_less [simp]: "unat (v :: u128) < 340282366920938463463374607431768211456"
  using unsigned_less [of v] by simp

lemma of_nat_u128: "unat v = n \<Longrightarrow> (of_nat n :: u128) = v"
  by auto

lemma supply_less: "holds_balances vw bal \<Longrightarrow> supply_of bal < 2 ^ 128"
  unfolding holds_balances_def using unat_u128_less [of "stored_u128 (vw SUPPLY_KEY)"] by simp

definition stored_balances :: "(bytes \<Rightarrow> bytes option) \<Rightarrow> balances" where
  "stored_balances vw = (\<lambda>a. unat (stored_u128 (vw (balance_key a))))"

lemma holds_balances_iff:
  "holds_balances vw bal \<longleftrightarrow>
     small_values vw \<and> stored_balances vw = bal \<and> unat (stored_u128 (vw SUPPLY_KEY)) = supply_of bal"
  by (auto simp: holds_balances_def stored_balances_def)

lemma stored_balances_upd [simp]:
  "stored_balances (vw(balance_key a := Some (u128_to_bytes v))) = (stored_balances vw)(a := unat v)"
  "stored_balances (vw(SUPPLY_KEY := x)) = stored_balances vw" "stored_balances (vw(OWNER_KEY := x)) = stored_balances vw"
  by (auto simp: stored_balances_def stored_u128_def fun_eq_iff)

lemma stored_balance: "unat (stored_u128 (vw (balance_key a))) = stored_balances vw a"
  by (simp add: stored_balances_def)

lemma stored_u128_bytes [simp]: "stored_u128 (Some (u128_to_bytes v)) = v"
  by (simp add: stored_u128_def)

lemma unat_u128_arith:
  "(a :: u128) < b \<longleftrightarrow> unat a < unat b" "\<not> unat a < unat (b :: u128) \<Longrightarrow> unat (a - b) = unat a - unat b"
  "unat a + unat (b :: u128) < 2 ^ 128 \<Longrightarrow> unat (a + b) = unat a + unat b"
  "unat (- 1 :: u128) = 2 ^ 128 - 1"
  by (simp_all add: word_less_nat_alt unat_sub word_le_nat_alt unat_word_ariths(1) unsigned_minus_1_eq_mask mask_eq_exp_minus_1)

lemma saturating_u128:
  "unat a + unat b < 2 ^ 128 \<Longrightarrow> unat (saturating_add128 a b) = unat a + unat b"
  "\<not> unat a < unat b \<Longrightarrow> unat (saturating_sub128 a b) = unat a - unat b"
  by (simp_all add: saturating_add128_def saturating_sub128_def unat_u128_arith word_le_nat_alt)

section \<open>The operations\<close>

definition room :: "nat \<Rightarrow> host_state \<Rightarrow> bool" where
  "room n hs \<longleftrightarrow> length (om_entries (hs_overlay hs)) + n \<le> unat MAX_STORAGE_WRITES_PER_CALL"

definition implements ::
    "(contract_id \<Rightarrow> bytes \<Rightarrow> bytes option) \<Rightarrow> host_state \<Rightarrow> (balances \<times> bytes option) option \<Rightarrow> i32 \<Rightarrow> host_state \<Rightarrow> bool" where
  "implements base hs res v hs' \<longleftrightarrow>
     (case res of
        None \<Rightarrow> v = -1 \<and> hs' = hs
      | Some (bal, out) \<Rightarrow> v = 0 \<and> holds_balances (host_view base hs') bal
          \<and> hs_output hs' = (case out of None \<Rightarrow> hs_output hs | Some bs \<Rightarrow> bs))"

text \<open>What \<open>initialize\<close> does to a storage that already holds balances.\<close>

definition reinitialized :: "bytes \<Rightarrow> (bytes \<Rightarrow> bytes option) \<Rightarrow> bytes \<Rightarrow> bytes option" where
  "reinitialized input vw = vw
     (SUPPLY_KEY := Some (u128_to_bytes (bytes_to_u128 (take 16 input))),
      balance_key (mk32 (slice 16 48 input)) := Some (u128_to_bytes (bytes_to_u128 (take 16 input))),
      OWNER_KEY := Some (slice 16 48 input))"

context guest_memory begin

lemma ends_put:
  assumes "room (Suc n) hs" "length key \<le> 256" "length val \<le> 65536"
    and "\<And>g hs'. room n hs' \<Longrightarrow> host_view base hs' = (host_view base hs)(key := Some val)
      \<Longrightarrow> hs_output hs' = hs_output hs \<Longrightarrow> guest_ends gm base (k g) hs' Q"
  shows "guest_ends gm base (sdk_set gm key val (\<lambda>_. k) g) hs Q"
proof (rule ends_set)
  show "length key \<le> BUFFER_SIZE" "length val \<le> BUFFER_SIZE"
    using assms(2,3) by (simp_all add: BUFFER_SIZE_def)
next
  fix g assume "can_set hs key val"
  show "guest_ends gm base (k g) (hs\<lparr>hs_overlay := om_insert key (Some val) (hs_overlay hs)\<rparr>) Q"
    using assms(1) by (intro assms(4)) (auto simp: room_def length_om_insert)
next
  fix g assume "\<not> can_set hs key val"
  then show "guest_ends gm base (k g) hs Q"
    using assms(1-3) by (simp add: can_set_def overlay_full_def room_def params)
qed

lemma ends_get_balance:
  "small_values (host_view base hs) \<Longrightarrow>
     (\<And>g. guest_ends gm base (k (stored_u128 (host_view base hs (balance_key a))) g) hs Q) \<Longrightarrow>
     guest_ends gm base (get_balance gm a k g) hs Q"
  unfolding get_balance_def by (rule ends_get) (simp_all add: BUFFER_SIZE_def)

lemma ends_get_supply:
  "small_values (host_view base hs) \<Longrightarrow>
     (\<And>g. guest_ends gm base (k (stored_u128 (host_view base hs SUPPLY_KEY)) g) hs Q) \<Longrightarrow>
     guest_ends gm base (get_supply gm k g) hs Q"
  unfolding get_supply_def by (rule ends_get) (simp_all add: BUFFER_SIZE_def)

lemma ends_set_balance:
  assumes "room (Suc n) hs"
    and "\<And>g hs'. room n hs' \<Longrightarrow> host_view base hs' = (host_view base hs)(balance_key a := Some (u128_to_bytes v))
      \<Longrightarrow> hs_output hs' = hs_output hs \<Longrightarrow> guest_ends gm base (k g) hs' Q"
  shows "guest_ends gm base (set_balance gm a v k g) hs Q"
  unfolding set_balance_def using assms by (intro ends_put) simp_all

lemma ends_set_supply:
  assumes "room (Suc n) hs"
    and "\<And>g hs'. room n hs' \<Longrightarrow> host_view base hs' = (host_view base hs)(SUPPLY_KEY := Some (u128_to_bytes v))
      \<Longrightarrow> hs_output hs' = hs_output hs \<Longrightarrow> guest_ends gm base (k g) hs' Q"
  shows "guest_ends gm base (set_supply gm v k g) hs Q"
  unfolding set_supply_def using assms by (intro ends_put) simp_all

lemma transfer_ends:
  assumes "holds_balances (host_view base hs) bal" "room 2 hs"
  shows "guest_ends gm base (token_transfer gm input g) hs (implements base hs (ledger_step 3 input bal))"
    (is "guest_ends gm base _ hs ?Q")
proof (cases "length input < 80")
  case True
  then show ?thesis by (simp add: token_transfer_def implements_def ledger_step_def)
next
  case False
  define sender receiver amount where "sender = mk32 (take 32 input)" "receiver = mk32 (slice 32 64 input)"
    "amount = bytes_to_u128 (slice 64 80 input)"
  note defs = this
  note h = assms(1) [unfolded holds_balances_iff]
  show ?thesis
    unfolding token_transfer_def
  proof (simp only: False if_False Let_def defs [symmetric], rule ends_get_balance)
    fix g1
    let ?bal = "stored_u128 (host_view base hs (balance_key sender))"
    let ?rest = "get_balance gm receiver (\<lambda>to_bal. set_balance gm receiver (saturating_add128 to_bal amount) (guest_return gm 0))"
    have b: "unat ?bal = bal sender" using h by (auto simp: stored_balance)
    show "guest_ends gm base ((if ?bal < amount then guest_return gm (- 1)
        else set_balance gm sender (?bal - amount) ?rest) g1) hs ?Q"
    proof (cases "bal sender < unat amount")
      case True
      then show ?thesis
        using False by (simp add: b unat_u128_arith implements_def ledger_step_def defs [symmetric])
    next
      case enough: False
      let ?after = "credit receiver (unat amount) (debit sender (unat amount) bal)"
      have total: "supply_of ?after = supply_of bal" "supply_of bal < 2 ^ 128"
        using enough balance_le_supply [of bal sender] supply_less [OF assms(1)] by simp_all
      have "guest_ends gm base (set_balance gm sender (?bal - amount) ?rest g1) hs ?Q"
      proof (rule ends_set_balance [of 1])
        fix g2 hs1
        assume 1: "room 1 hs1" "host_view base hs1 = (host_view base hs)(balance_key sender := Some (u128_to_bytes (?bal - amount)))"
          "hs_output hs1 = hs_output hs"
        have bal1: "stored_balances (host_view base hs1) = debit sender (unat amount) bal"
          using h enough by (simp add: 1(2) debit_def unat_u128_arith b)
        show "guest_ends gm base (?rest g2) hs1 ?Q"
        proof (rule ends_get_balance)
          show "small_values (host_view base hs1)" using h by (simp add: 1(2) BUFFER_SIZE_def)
          fix g3
          let ?to = "stored_u128 (host_view base hs1 (balance_key receiver))"
          have "?after receiver < 2 ^ 128" using balance_le_supply [of ?after receiver] total by simp
          then have new: "unat (saturating_add128 ?to amount) = ?after receiver"
            using bal1 by (subst saturating_u128) (simp_all add: stored_balance credit_def)
          show "guest_ends gm base (set_balance gm receiver (saturating_add128 ?to amount) (guest_return gm 0) g3) hs1 ?Q"
          proof (rule ends_set_balance [of 0])
            fix g4 hs2
            assume 2: "host_view base hs2 = (host_view base hs1)(balance_key receiver := Some (u128_to_bytes (saturating_add128 ?to amount)))"
              "hs_output hs2 = hs_output hs1"
            have "stored_balances (host_view base hs2) = ?after"
              by (simp add: 2 bal1 new) (simp add: credit_def)
            then have "holds_balances (host_view base hs2) ?after"
              using h total by (simp add: holds_balances_iff 2 1(2) BUFFER_SIZE_def)
            then show "guest_ends gm base (guest_return gm 0 g4) hs2 ?Q"
              using False enough by (simp add: implements_def ledger_step_def defs [symmetric] 1(3) 2(2) Let_def)
          qed (use 1(1) in simp)
        qed
      qed (use assms(2) in \<open>simp add: numeral_2_eq_2\<close>)
      then show ?thesis using enough by (simp add: unat_u128_arith b)
    qed
  qed (use h in simp)
qed

lemma mint_ends:
  assumes "holds_balances (host_view base hs) bal" "room 2 hs"
  shows "guest_ends gm base (token_mint gm input g) hs (implements base hs (ledger_step 4 input bal))"
    (is "guest_ends gm base _ hs ?Q")
proof (cases "length input < 48")
  case True
  then show ?thesis by (simp add: token_mint_def implements_def ledger_step_def)
next
  case False
  define receiver amount where "receiver = mk32 (take 32 input)" "amount = bytes_to_u128 (slice 32 48 input)"
  note defs = this
  note h = assms(1) [unfolded holds_balances_iff]
  show ?thesis
    unfolding token_mint_def
  proof (simp only: False if_False Let_def defs [symmetric], rule ends_get_supply)
    fix g1
    let ?supply = "stored_u128 (host_view base hs SUPPLY_KEY)"
    let ?new = "if unat ?supply + unat amount < 2 ^ 128 then ?supply + amount else - 1"
    let ?rest = "get_balance gm receiver (\<lambda>bal. set_balance gm receiver (saturating_add128 bal amount) (guest_return gm 0))"
    have s: "unat ?supply = supply_of bal" using h by simp
    have full: "?new = - 1 \<longleftrightarrow> supply_of bal + unat amount \<ge> 2 ^ 128 - 1"
      by (auto simp: word_unat_eq_iff unat_u128_arith s)
    show "guest_ends gm base ((if ?new = - 1 then guest_return gm (- 1) else set_supply gm ?new ?rest) g1) hs ?Q"
    proof (cases "supply_of bal + unat amount \<ge> 2 ^ 128 - 1")
      case True
      then show ?thesis
        unfolding full using False by (simp add: implements_def ledger_step_def defs [symmetric] Let_def)
    next
      case fits: False
      let ?after = "credit receiver (unat amount) bal"
      have new: "unat ?new = supply_of ?after" using fits by (simp add: unat_u128_arith s)
      have "guest_ends gm base (set_supply gm ?new ?rest g1) hs ?Q"
      proof (rule ends_set_supply [of 1])
        fix g2 hs1
        assume 1: "room 1 hs1" "host_view base hs1 = (host_view base hs)(SUPPLY_KEY := Some (u128_to_bytes ?new))"
          "hs_output hs1 = hs_output hs"
        have bal1: "stored_balances (host_view base hs1) = bal" using h by (simp add: 1(2))
        show "guest_ends gm base (?rest g2) hs1 ?Q"
        proof (rule ends_get_balance)
          show "small_values (host_view base hs1)" using h by (simp add: 1(2) BUFFER_SIZE_def)
          fix g3
          let ?to = "stored_u128 (host_view base hs1 (balance_key receiver))"
          have "?after receiver < 2 ^ 128" using balance_le_supply [of ?after receiver] fits by simp
          then have sum: "unat (saturating_add128 ?to amount) = ?after receiver"
            using bal1 by (subst saturating_u128) (simp_all add: stored_balance credit_def)
          show "guest_ends gm base (set_balance gm receiver (saturating_add128 ?to amount) (guest_return gm 0) g3) hs1 ?Q"
          proof (rule ends_set_balance [of 0])
            fix g4 hs2
            assume 2: "host_view base hs2 = (host_view base hs1)(balance_key receiver := Some (u128_to_bytes (saturating_add128 ?to amount)))"
              "hs_output hs2 = hs_output hs1"
            have "stored_balances (host_view base hs2) = ?after"
              by (simp add: 2 bal1 sum) (simp add: credit_def)
            then have "holds_balances (host_view base hs2) ?after"
              using h new by (simp add: holds_balances_iff 2 1(2) BUFFER_SIZE_def)
            then show "guest_ends gm base (guest_return gm 0 g4) hs2 ?Q"
              using False fits by (simp add: implements_def ledger_step_def defs [symmetric] 1(3) 2(2) Let_def)
          qed (use 1(1) in simp)
        qed
      qed (use assms(2) in \<open>simp add: numeral_2_eq_2\<close>)
      then show ?thesis unfolding full using fits by simp
    qed
  qed (use h in simp)
qed

lemma burn_ends:
  assumes "holds_balances (host_view base hs) bal" "room 2 hs"
  shows "guest_ends gm base (token_burn gm input g) hs (implements base hs (ledger_step 5 input bal))"
    (is "guest_ends gm base _ hs ?Q")
proof (cases "length input < 48")
  case True
  then show ?thesis by (simp add: token_burn_def implements_def ledger_step_def)
next
  case False
  define sender amount where "sender = mk32 (take 32 input)" "amount = bytes_to_u128 (slice 32 48 input)"
  note defs = this
  note h = assms(1) [unfolded holds_balances_iff]
  let ?bal = "stored_u128 (host_view base hs (balance_key sender))"
  let ?supply = "stored_u128 (host_view base hs SUPPLY_KEY)"
  have b: "unat ?bal = bal sender" "unat ?supply = supply_of bal" using h by (auto simp: stored_balance)
  show ?thesis
    unfolding token_burn_def
  proof (simp only: False if_False Let_def defs [symmetric], rule ends_get_balance)
    fix g1
    let ?rest = "get_supply gm (\<lambda>supply. set_balance gm sender (?bal - amount)
      (set_supply gm (saturating_sub128 supply amount) (guest_return gm 0)))"
    show "guest_ends gm base ((if ?bal < amount then guest_return gm (- 1) else ?rest) g1) hs ?Q"
    proof (cases "bal sender < unat amount")
      case True
      then show ?thesis
        using False by (simp add: b unat_u128_arith implements_def ledger_step_def defs [symmetric] Let_def)
    next
      case enough: False
      let ?after = "debit sender (unat amount) bal"
      have less: "\<not> unat ?supply < unat amount" using enough balance_le_supply [of bal sender] by (simp add: b)
      have "guest_ends gm base (?rest g1) hs ?Q"
      proof (rule ends_get_supply)
        fix g2
        show "guest_ends gm base (set_balance gm sender (?bal - amount)
            (set_supply gm (saturating_sub128 ?supply amount) (guest_return gm 0)) g2) hs ?Q"
        proof (rule ends_set_balance [of 1])
          fix g3 hs1
          assume 1: "room 1 hs1" "host_view base hs1 = (host_view base hs)(balance_key sender := Some (u128_to_bytes (?bal - amount)))"
            "hs_output hs1 = hs_output hs"
          show "guest_ends gm base (set_supply gm (saturating_sub128 ?supply amount) (guest_return gm 0) g3) hs1 ?Q"
          proof (rule ends_set_supply [of 0])
            fix g4 hs2
            assume 2: "host_view base hs2 = (host_view base hs1)(SUPPLY_KEY := Some (u128_to_bytes (saturating_sub128 ?supply amount)))"
              "hs_output hs2 = hs_output hs1"
            have "stored_balances (host_view base hs2) = ?after"
              using h enough by (simp add: 2 1(2) unat_u128_arith b debit_def)
            then have "holds_balances (host_view base hs2) ?after"
              using h enough less by (simp add: holds_balances_iff 2 1(2) BUFFER_SIZE_def saturating_u128 b)
            then show "guest_ends gm base (guest_return gm 0 g4) hs2 ?Q"
              using False enough by (simp add: implements_def ledger_step_def defs [symmetric] 1(3) 2(2) Let_def)
          qed (use 1(1) in simp)
        qed (use assms(2) in \<open>simp add: numeral_2_eq_2\<close>)
      qed (use h in simp)
      then show ?thesis using enough by (simp add: unat_u128_arith b)
    qed
  qed (use h in simp)
qed

lemma balance_of_ends:
  assumes "holds_balances (host_view base hs) bal"
  shows "guest_ends gm base (token_balance_of gm input g) hs (implements base hs (ledger_step 2 input bal))"
proof -
  have h: "small_values (host_view base hs)" using assms by (simp add: holds_balances_def)
  have "unat (stored_u128 (host_view base hs (balance_key a))) = bal a" for a
    using assms by (simp add: holds_balances_def)
  then have bal: "of_nat (bal a) = stored_u128 (host_view base hs (balance_key a))" for a
    by (intro of_nat_u128)
  show ?thesis
    unfolding token_balance_of_def using assms
    by (auto simp: h bal implements_def ledger_step_def params intro!: ends_get_balance ends_write_output)
qed

lemma total_supply_ends:
  assumes "holds_balances (host_view base hs) bal"
  shows "guest_ends gm base (get_supply gm (\<lambda>supply. sdk_write_output gm (u128_to_bytes supply) (\<lambda>_. guest_return gm 0)) g)
      hs (implements base hs (ledger_step 6 input bal))"
proof -
  have h: "small_values (host_view base hs)" using assms by (simp add: holds_balances_def)
  have "unat (stored_u128 (host_view base hs SUPPLY_KEY)) = supply_of bal"
    using assms by (simp add: holds_balances_def)
  then have bal: "of_nat (supply_of bal) = stored_u128 (host_view base hs SUPPLY_KEY)"
    by (intro of_nat_u128)
  show ?thesis
    using assms
    by (auto simp: h bal implements_def ledger_step_def params intro!: ends_get_supply ends_write_output)
qed

lemma initialize_ends:
  assumes "room 3 hs"
  shows "guest_ends gm base (token_initialize gm input g) hs (\<lambda>v hs'.
    if length input < 48 then v = -1 \<and> hs' = hs
    else v = 0 \<and> host_view base hs' = reinitialized input (host_view base hs))"
proof (cases "length input < 48")
  case True
  then show ?thesis by (simp add: token_initialize_def)
next
  case False
  define owner amount where "owner = mk32 (slice 16 48 input)" "amount = bytes_to_u128 (take 16 input)"
  note defs = this
  let ?Q = "\<lambda>v hs'. v = 0 \<and> host_view base hs' = reinitialized input (host_view base hs)"
  have owner: "bytes_of owner = slice 16 48 input" using False by (simp add: defs)
  show ?thesis
    unfolding token_initialize_def
  proof (simp only: False if_False Let_def defs [symmetric], rule ends_set_supply [of 2])
    fix g1 hs1
    assume 1: "room 2 hs1" "host_view base hs1 = (host_view base hs)(SUPPLY_KEY := Some (u128_to_bytes amount))"
    show "guest_ends gm base (set_balance gm owner amount (sdk_set gm OWNER_KEY (bytes_of owner) (\<lambda>_. guest_return gm 0)) g1)
        hs1 ?Q"
    proof (rule ends_set_balance [of 1])
      fix g2 hs2
      assume 2: "room 1 hs2" "host_view base hs2 = (host_view base hs1)(balance_key owner := Some (u128_to_bytes amount))"
      show "guest_ends gm base (sdk_set gm OWNER_KEY (bytes_of owner) (\<lambda>_. guest_return gm 0) g2) hs2 ?Q"
      proof (rule ends_put [of 0])
        fix g3 hs3
        assume "host_view base hs3 = (host_view base hs2)(OWNER_KEY := Some (bytes_of owner))"
        then show "guest_ends gm base (guest_return gm 0 g3) hs3 ?Q"
          by (simp add: 1(2) 2(2) owner reinitialized_def flip: defs)
      qed (use 2(1) in simp_all)
    qed (use 1(1) in \<open>simp add: numeral_2_eq_2\<close>)
  qed (use assms in \<open>simp add: numeral_3_eq_3 numeral_2_eq_2\<close>)
qed

end

end
