(* ===== verification/Write_Order.thy ===== *)
theory Write_Order
  imports Indexer_Props
begin

text \<open>
  What the calls of a block leave in the storage: every call runs on the storage before the block,
  and the store applies all sets of the block before all its deletes.
\<close>

section \<open>The writes of a block\<close>

text \<open>The storage after a block that made the given writes, in the order of its calls.\<close>

definition block_storage ::
    "(contract_id \<Rightarrow> bytes \<Rightarrow> bytes option) \<Rightarrow> storage_write list \<Rightarrow> contract_id \<Rightarrow> bytes \<Rightarrow> bytes option" where
  "block_storage base ws cid key =
     (if WDelete cid key \<in> set ws then None
      else case map_of (rev (set_bindings ws)) (cid, key) of Some v \<Rightarrow> Some v | None \<Rightarrow> base cid key)"

definition result_writes :: "call_result \<Rightarrow> storage_write list" where
  "result_writes r = snd (snd (snd (snd (call_outcome r))))"

definition calls_writes :: "(call_context \<times> call_result) list \<Rightarrow> storage_write list" where
  "calls_writes calls = concat (map (result_writes \<circ> snd) calls)"

text \<open>What an execution record says of a call.\<close>

definition call_record :: "call_context \<times> call_result \<Rightarrow> tx_id \<times> contract_id \<times> u16 \<times> bool" where
  "call_record c = (cc_txid (fst c), cc_contract_id (fst c), cc_opcode (fst c), fst (call_outcome (snd c)))"

definition execution_record :: "execution \<Rightarrow> tx_id \<times> contract_id \<times> u16 \<times> bool" where
  "execution_record e = (ex_txid e, ex_contract_id e, ex_opcode e, ex_success e)"

text \<open>A block in progress has executed exactly these calls, each on the storage before the block.\<close>

definition executed ::
    "'m node_lib \<Rightarrow> 's store_ops \<Rightarrow> 's \<Rightarrow> (call_context \<times> call_result) list \<Rightarrow> progress \<Rightarrow> bool" where
  "executed lib ops st calls p \<longleftrightarrow>
     (\<forall>(ctx, r) \<in> set calls. execute (nl_engine lib) ops ctx st = Some r)
     \<and> map execution_record (pg_executions p) = map call_record calls
     \<and> upsert_bindings (bc_upserts (pg_commit p)) = set_bindings (calls_writes calls)
     \<and> (\<forall>cid key. (cid, key) \<in> set (bc_deletes (pg_commit p)) \<longleftrightarrow> WDelete cid key \<in> set (calls_writes calls))"

lemma set_bindings_append [simp]: "set_bindings (xs @ ys) = set_bindings xs @ set_bindings ys"
proof (induction xs)
  case (Cons w xs)
  then show ?case by (cases w) simp_all
qed simp

lemma calls_writes_snoc [simp]: "calls_writes [] = []" "calls_writes (calls @ [c]) = calls_writes calls @ result_writes (snd c)"
  by (simp_all add: calls_writes_def)

lemma executed_frame:
  "executed lib ops st calls p \<Longrightarrow> pg_executions q = pg_executions p
    \<Longrightarrow> bc_upserts (pg_commit q) = bc_upserts (pg_commit p) \<Longrightarrow> bc_deletes (pg_commit q) = bc_deletes (pg_commit p)
    \<Longrightarrow> executed lib ops st calls q"
  by (simp add: executed_def)

lemma executed_call:
  assumes "executed lib ops st calls p" "execute (nl_engine lib) ops (call_ctx tx cid opcode input q) st = Some r"
  shows "executed lib ops st (calls @ [(call_ctx tx cid opcode input q, r)]) (record_call lib ops st tx cid opcode r p)"
  using assms
  by (cases "call_outcome r")
    (auto simp: executed_def record_call_def Let_def result_writes_def upserts_of_writes deletes_of_writes
      call_record_def execution_record_def call_ctx_def)

lemma executed_message:
  assumes "handle_message lib ops st config tx idx m (count_message p) = Some p'" "executed lib ops st calls p"
  shows "\<exists>more. executed lib ops st (calls @ more) p'"
  using assms(1)
proof (cases rule: handle_messageE)
  case skip
  then have "executed lib ops st (calls @ []) p'"
    using executed_frame [OF assms(2), of p'] by (simp add: same_work_def count_message_fields)
  then show ?thesis ..
next
  case (deploy d dep q0)
  then have "executed lib ops st (calls @ []) p'"
    using executed_frame [OF assms(2), of p'] by (simp add: add_deploy_def add_deploy_bytes_def count_message_fields)
  then show ?thesis ..
next
  case (call q0 cid opcode input r)
  then have "executed lib ops st calls q0"
    using executed_frame [OF assms(2), of q0] by (simp add: same_work_def count_message_fields)
  from executed_call [OF this call(3)] show ?thesis unfolding call(4) by blast
qed

lemma executed_transactions:
  assumes "process_transactions lib ops st config txs (start_block h hash) = Some p"
  shows "\<exists>calls. executed lib ops st calls p"
proof (rule process_transactions_inv [where I = "\<lambda>_ p. \<exists>calls. executed lib ops st calls p", OF assms])
  show "\<exists>calls. executed lib ops st calls (start_block h hash)"
    by (intro exI [of _ "[]"]) (simp add: executed_def start_block_def empty_commit_def upsert_bindings_def)
  fix tx q q'
  assume q: "\<exists>calls. executed lib ops st calls q" and run: "process_transaction lib ops st config tx q = Some q'"
  show "\<exists>calls. executed lib ops st calls q'"
    using run [unfolded process_transaction_def]
  proof (rule process_outputs_inv [where I = "\<lambda>p. \<exists>calls. executed lib ops st calls p"])
    show "\<exists>calls. executed lib ops st calls (q\<lparr>pg_tx_fuel := 0, pg_tx_messages := 0\<rparr>)"
      using q by (elim exE) (rule exI, erule executed_frame, simp_all)
    show "\<exists>calls. executed lib ops st calls q''" if "\<exists>calls. executed lib ops st calls q'"
        "handle_message lib ops st config tx idx m (count_message q') = Some q''" for idx m q' q''
      using that by (auto dest: executed_message)
    show "\<exists>calls. executed lib ops st calls (count_message q')" if "\<exists>calls. executed lib ops st calls q'" for q'
      using that by (elim exE) (rule exI, erule executed_frame, simp_all add: count_message_fields)
  qed
qed

context state_store begin

lemma block_storage_law:
  assumes "rel s lg" "next_height lg (pb_height b)" "length (pb_transactions b) < 2 ^ 31"
    and "activation_height config = Some act" "act \<le> pb_height b"
    and "process_parsed_block lib ops config b s = Some (s', Ok be)"
  shows "\<exists>calls. (\<forall>(ctx, r) \<in> set calls. execute (nl_engine lib) ops ctx s = Some r)
    \<and> map execution_record (be_executions be) = map call_record calls
    \<and> so_storage_get ops s' = block_storage (so_storage_get ops s) (calls_writes calls)"
proof -
  obtain p where p: "process_transactions lib ops s config (pb_transactions b)
      (start_block (pb_height b) (pb_hash b)) = Some p"
    "commit_progress ops b (so_compute_root ops s) p s = (s', Ok be)"
    using assms(4-6) by (auto simp: process_parsed_block_def split: if_splits)
  obtain calls where calls: "executed lib ops s calls p" using executed_transactions [OF p(1)] by blast
  have h: "next_height lg (bc_height (pg_commit p))" using header_transactions [OF p(1)] assms(2) by (simp add: header_inv_def)
  obtain s1 root where c: "so_commit_block ops s (pg_commit p) = (s1, Ok root)"
    using p(2) by (auto simp: commit_progress_def split: prod.splits sum.splits)
  obtain s2 r2 where v: "so_save_executions ops s1 (pg_executions p) = (s2, r2)" by fastforce
  have fin: "s' = s2" "be_executions be = pg_executions p"
    using p(2) c v by (auto simp: commit_progress_def split: sum.splits)
  note small = block_commit_small [OF p(1) assms(3)]
  have "so_storage_get ops s' cid key = so_storage_get ops s1 cid key" for cid key
  proof -
    have "rel s1 (spec_commit blake (pg_commit p) lg)" using commit [OF assms(1) h small c] by simp
    moreover from this have "rel s' (spec_commit blake (pg_commit p) lg)" using save v fin(1) by blast
    ultimately show ?thesis by (simp add: storage_get)
  qed
  then have "so_storage_get ops s' = block_storage (so_storage_get ops s) (calls_writes calls)"
    using storage_get_after_commit [OF assms(1) h small c] calls
    by (simp add: fun_eq_iff block_storage_def executed_def)
  then show ?thesis using calls fin(2) by (intro exI [of _ calls]) (simp add: executed_def)
qed

end

context kv_store begin

lemma rocks_block_storage:
  assumes "rocks_rel view d lg" "next_height lg (pb_height b)" "length (pb_transactions b) < 2 ^ 31"
    and "activation_height config = Some act" "act \<le> pb_height b"
    and "process_parsed_block lib (rocks_ops blake to_json from_json kv) config b d = Some (d', Ok be)"
  shows "\<exists>calls. (\<forall>(ctx, r) \<in> set calls. execute (nl_engine lib) (rocks_ops blake to_json from_json kv) ctx d = Some r)
    \<and> map execution_record (be_executions be) = map call_record calls
    \<and> rocks_storage_get kv d' = block_storage (rocks_storage_get kv d) (calls_writes calls)"
proof -
  have "so_storage_get (rocks_ops blake to_json from_json kv) = rocks_storage_get kv" by (simp add: rocks_ops_def)
  then show ?thesis using rocks.block_storage_law [OF assms] by simp
qed

end

section \<open>The property\<close>

text \<open>C39. What a block of calls leaves in the database: every recorded execution is one call, run on the
  storage before the block, without the writes of the calls before it; after the block a key is absent
  if any successful call of the block deleted it, even when a later call set it again; otherwise the
  last set in the order of the calls wins; otherwise the old value stays. So the block is not the
  sequence of its calls.\<close>

theorem block_write_order:
  assumes "kv_store kv view" "rocks_rel view d lg" "next_height lg (pb_height b)" "length (pb_transactions b) < 2 ^ 31"
    and "activation_height config = Some act" "act \<le> pb_height b"
    and "process_parsed_block lib (rocks_ops blake to_json from_json kv) config b d = Some (d', Ok be)"
  shows "\<exists>calls. (\<forall>(ctx, r) \<in> set calls. execute (nl_engine lib) (rocks_ops blake to_json from_json kv) ctx d = Some r)
    \<and> map execution_record (be_executions be) = map call_record calls
    \<and> (\<forall>cid key. rocks_storage_get kv d' cid key =
        (if WDelete cid key \<in> set (calls_writes calls) then None
         else case map_of (rev (set_bindings (calls_writes calls))) (cid, key) of
           Some v \<Rightarrow> Some v | None \<Rightarrow> rocks_storage_get kv d cid key))"
  using kv_store.rocks_block_storage [OF assms] by (simp add: block_storage_def fun_eq_iff)

text \<open>A contract that deletes \<open>[8]\<close> when called with opcode 0, and sets it to \<open>[7]\<close> otherwise; a block
  with both calls.\<close>

definition demo_order_lib :: "unit node_lib" where
  "demo_order_lib = demo_lib\<lparr>nl_engine := (demo_engine demo_set_run)\<lparr>we_instantiate := (\<lambda>_ fuel. Returned (Some (\<lambda>_ opc _.
     if opc = 0 then HostCall (StorageDelete 0 1) (Some [8]) (\<lambda>_ _. Returned 0 40) else demo_set_run)) fuel)\<rparr>\<rparr>"

definition demo_order_call :: "u16 \<Rightarrow> message" where
  "demo_order_call opc = Call \<lparr>cm_contract_id = fill32 1, cm_opcode = opc, cm_input = [5]\<rparr>"

definition demo_order_tx :: parsed_transaction where
  "demo_order_tx = \<lparr>px_txid = fill32 4, px_outputs = [(0, op_return_script (encode_message (demo_order_call 0))),
     (1, op_return_script (encode_message (demo_order_call 1)))], px_inputs = []\<rparr>"

definition demo_order_block :: parsed_block where
  "demo_order_block = \<lparr>pb_height = 5, pb_hash = fill32 9, pb_transactions = [demo_order_tx]\<rparr>"

definition demo_deployed :: ledger where
  "demo_deployed = spec_commit (\<lambda>p x. fill32 0) ((empty_commit 1 (fill32 8))\<lparr>bc_deploys := [(fill32 1, fill32 3, [])]\<rparr>) empty_ledger"

lemma demo_order_result:
  assumes "execute (nl_engine demo_order_lib) ops ctx st = Some r" "fst (call_outcome r)"
    and "so_get_contract ops st (fill32 1) = Some (fill32 3, [])" "cc_contract_id ctx = fill32 1"
    "cc_opcode ctx \<in> {0, 1}"
  shows "result_writes r = [if cc_opcode ctx = 0 then WDelete (fill32 1) [8] else WSet (fill32 1) [8] [7]]"
  using assms
  by (auto simp: execute_def dispatch_call_def demo_order_lib_def demo_engine_def demo_set_run_def params result_writes_def
      parse_module_contained_def initial_host_def host_storage_set_def host_storage_delete_def Let_def saturating_add_def
      slice_or_panic_def slice_def finish_call_def overlay_writes_def overlay_full_def om_eval split: if_splits)

lemma demo_order_execute:
  assumes "so_get_contract ops st (fill32 1) = Some (fill32 3, [])" "opc \<in> {0, 1}"
  shows "execute (nl_engine demo_order_lib) ops
      \<lparr>cc_contract_id = fill32 1, cc_caller = None, cc_txid = t, cc_block_height = h, cc_opcode = opc, cc_input = [5],
       cc_fuel_limit = f, cc_depth = 0\<rparr> st = Some (Success [] (saturating_sub f 40)
     [if opc = 0 then WDelete (fill32 1) [8] else WSet (fill32 1) [8] [7]])"
  using assms
  by (auto simp: execute_def dispatch_call_def demo_order_lib_def demo_engine_def demo_set_run_def params
      parse_module_contained_def initial_host_def host_storage_set_def host_storage_delete_def Let_def saturating_add_def
      slice_or_panic_def slice_def finish_call_def overlay_writes_def overlay_full_def om_eval)

lemma demo_order_message:
  "output_message (op_return_script (encode_message (demo_order_call opc))) = Some (demo_order_call opc)"
  by (rule output_message_op_return)
    (simp_all add: demo_order_call_def encode_call_def params u16_to_be_bytes_def)

lemma demo_order_handled:
  assumes "so_get_contract ops st (fill32 1) = Some (fill32 3, [])" "opc \<in> {0, 1}" "call_fuel_limit p \<noteq> 0"
  shows "handle_message demo_order_lib ops st config demo_order_tx i (demo_order_call opc) p =
    Some (record_call demo_order_lib ops st demo_order_tx (fill32 1) opc (Success [] (saturating_sub (call_fuel_limit p) 40)
      [if opc = 0 then WDelete (fill32 1) [8] else WSet (fill32 1) [8] [7]]) p)"
  using assms demo_order_execute [OF assms(1,2)]
  by (simp add: demo_order_call_def handle_call_def execute_call_def demo_order_tx_def)

lemma demo_order_run:
  assumes "so_get_contract ops st (fill32 1) = Some (fill32 3, [])"
  shows "\<exists>p. process_transactions demo_order_lib ops st demo_config [demo_order_tx] (start_block 5 (fill32 9)) = Some p
    \<and> map execution_record (pg_executions p) = [(fill32 4, fill32 1, 0, True), (fill32 4, fill32 1, 1, True)]"
proof -
  let ?p1 = "count_message (start_block 5 (fill32 9))"
  let ?p2 = "count_message (record_call demo_order_lib ops st demo_order_tx (fill32 1) 0
      (Success [] (saturating_sub (call_fuel_limit ?p1) 40) [WDelete (fill32 1) [8]]) ?p1)"
  have 1: "call_fuel_limit ?p1 = 10000000" "\<not> over_message_cap ?p1"
    "(start_block 5 (fill32 9))\<lparr>pg_tx_fuel := 0, pg_tx_messages := 0\<rparr> = start_block 5 (fill32 9)"
    by (simp_all add: call_fuel_limit_def count_message_def start_block_def no_limits_used_def saturating_sub_def over_message_cap_def params)
  have 2: "call_fuel_limit ?p2 \<noteq> 0" "\<not> over_message_cap ?p2"
    by (simp_all add: 1(1)) (simp_all add: call_fuel_limit_def count_message_def start_block_def no_limits_used_def saturating_sub_def
      over_message_cap_def record_call_def Let_def saturating_add64_def params)
  have out: "px_outputs demo_order_tx = [(0, op_return_script (encode_message (demo_order_call 0))),
     (1, op_return_script (encode_message (demo_order_call 1)))]" by (simp add: demo_order_tx_def)
  note h1 = demo_order_handled [OF assms, of 0 ?p1] and h2 = demo_order_handled [OF assms, of 1 ?p2]
  show ?thesis
    using h1 h2 1 2
    by (simp add: process_transaction_def out demo_order_message del: encode_message.simps)
      (simp add: record_call_def count_message_def start_block_def execution_record_def Let_def demo_order_tx_def)
qed

text \<open>The set of the second call is lost.\<close>

lemma block_write_order_witness:
  "\<exists>d d' be. process_parsed_block demo_order_lib (rocks_ops (\<lambda>p x. fill32 0) (\<lambda>e. Some []) (\<lambda>_. None) map_kv)
      demo_config demo_order_block d = Some (d', Ok be)
    \<and> map execution_record (be_executions be) = [(fill32 4, fill32 1, 0, True), (fill32 4, fill32 1, 1, True)]
    \<and> rocks_storage_get map_kv d' (fill32 1) [8] = None"
proof -
  let ?ops = "rocks_ops (\<lambda>p x. fill32 0) (\<lambda>e. Some []) (\<lambda>_. None) map_kv"
  have rel0: "rocks_rel (\<lambda>d. d) om_empty empty_ledger" by (rule rocks_rel_fresh) simp
  have "next_height empty_ledger 1" "small_commit ((empty_commit 1 (fill32 8))\<lparr>bc_deploys := [(fill32 1, fill32 3, [])]\<rparr>)"
    by (simp_all add: next_height_def spec_last_def empty_ledger_def small_commit_def empty_commit_def)
  then obtain d where d: "rocks_rel (\<lambda>d. d) d demo_deployed"
    using map_json.total.commits [OF rel0, of "(empty_commit 1 (fill32 8))\<lparr>bc_deploys := [(fill32 1, fill32 3, [])]\<rparr>" "\<lambda>p x. fill32 0"]
    by (auto simp: demo_deployed_def empty_commit_def)
  have next_ok: "next_height demo_deployed (pb_height demo_order_block)" "length (pb_transactions demo_order_block) < 2 ^ 31"
    by (simp_all add: next_height_def demo_deployed_def spec_commit_last demo_order_block_def empty_commit_def)
  have contract: "so_get_contract ?ops d (fill32 1) = Some (fill32 3, [])"
    using map_db.rocks.get_contract [OF d, of "\<lambda>p x. fill32 0" "\<lambda>e. Some []" "\<lambda>_. None" "fill32 1"]
    by (simp add: demo_deployed_def spec_commit_def apply_commit_def apply_deploys_def apply_upserts_def apply_deletes_def
        empty_commit_def empty_ledger_def Let_def)
  have act: "activation_height demo_config = Some 1" by (simp add: activation_height_def demo_config_def params)
  have height: "1 \<le> pb_height demo_order_block" by (simp add: demo_order_block_def)
  have "so_get_contract (ledger_ops (\<lambda>p x. fill32 0)) demo_deployed (fill32 1) = Some (fill32 3, [])"
    by (simp add: ledger_ops_def demo_deployed_def spec_commit_def apply_commit_def apply_deploys_def apply_upserts_def
        apply_deletes_def empty_commit_def empty_ledger_def Let_def)
  then obtain lg' be where "process_parsed_block demo_order_lib (ledger_ops (\<lambda>p x. fill32 0)) demo_config demo_order_block demo_deployed
      = Some (lg', Ok be)" and records: "map execution_record (be_executions be) = [(fill32 4, fill32 1, 0, True), (fill32 4, fill32 1, 1, True)]"
    using demo_order_run [of "ledger_ops (\<lambda>p x. fill32 0)" demo_deployed] act
    by (auto simp: process_parsed_block_def demo_order_block_def commit_progress_def ledger_ops_def)
  then obtain d' where run: "process_parsed_block demo_order_lib ?ops demo_config demo_order_block d = Some (d', Ok be)"
    using map_json.total.process_block_total [OF d next_ok] by blast
  from block_write_order [OF map_db.kv_store_axioms d next_ok act height run] obtain calls where calls:
    "\<forall>(ctx, r) \<in> set calls. execute (nl_engine demo_order_lib) ?ops ctx d = Some r"
    "map execution_record (be_executions be) = map call_record calls"
    "rocks_storage_get map_kv d' (fill32 1) [8] = (if WDelete (fill32 1) [8] \<in> set (calls_writes calls) then None
         else case map_of (rev (set_bindings (calls_writes calls))) (fill32 1, [8]) of
           Some v \<Rightarrow> Some v | None \<Rightarrow> rocks_storage_get map_kv d (fill32 1) [8])"
    by blast
  obtain ctx r more where c: "calls = (ctx, r) # more"
    using calls(2) records by (cases calls) auto
  then have "fst (call_outcome r)" "cc_contract_id ctx = fill32 1" "cc_opcode ctx = 0"
    using calls(2) records by (simp_all add: call_record_def)
  moreover have "execute (nl_engine demo_order_lib) ?ops ctx d = Some r" using calls(1) c by simp
  ultimately have "result_writes r = [WDelete (fill32 1) [8]]"
    using demo_order_result [OF _ _ contract] by fastforce
  then have "WDelete (fill32 1) [8] \<in> set (calls_writes calls)" by (simp add: c calls_writes_def)
  then have "rocks_storage_get map_kv d' (fill32 1) [8] = None" using calls(3) by simp
  with run records show ?thesis by (intro exI conjI)
qed

end
