(* ===== verification/Contract_Props.thy ===== *)
theory Contract_Props
  imports Token_Props Write_Order
begin

text \<open>The properties of the example contracts.\<close>

section \<open>A call from the start\<close>

lemma opcode_arg [simp]: "ucast (ucast (w :: u16) :: i32) = w"
  by (rule ucast_up_ucast_id) (simp add: is_up)

lemma initial_view [simp]: "host_view base (initial_host ctx) = base (cc_contract_id ctx)"
  by (simp add: host_view_def initial_host_def fun_eq_iff)

lemma initial_fields [simp]:
  "hs_input (initial_host ctx) = cc_input ctx" "hs_output (initial_host ctx) = []"
  "hs_contract_id (initial_host ctx) = cc_contract_id ctx"
  by (simp_all add: initial_host_def)

lemma initial_room [simp]: "n \<le> 256 \<Longrightarrow> room n (initial_host ctx)"
  by (simp add: room_def initial_host_def params)

text \<open>The SDK reads at most one buffer of input; every operation of the token reads less.\<close>

lemma slice_take: "j \<le> n \<Longrightarrow> slice i j (take n xs) = slice i j xs"
  by (simp add: slice_def drop_take min_def)

lemma ledger_step_take: "ledger_step opc (take BUFFER_SIZE input) bal = ledger_step opc input bal"
proof -
  have "length (take BUFFER_SIZE input) < n \<longleftrightarrow> length input < n" if "n \<le> 80" for n
    using that by (auto simp: BUFFER_SIZE_def)
  moreover have "take n (take BUFFER_SIZE input) = take n input" if "n \<le> 80" for n
    using that by (simp add: BUFFER_SIZE_def min_def)
  moreover have "slice i n (take BUFFER_SIZE input) = slice i n input" if "n \<le> 80" for i n
    using that by (simp add: slice_take BUFFER_SIZE_def)
  ultimately show ?thesis by (simp add: ledger_step_def)
qed

context guest_memory begin

lemma token_dispatch_ends:
  assumes "holds_balances (host_view base hs) bal" "room 2 hs" "(ucast opcode :: u16) \<noteq> 1"
  shows "guest_ends gm base (token_dispatch gm opcode len g) hs
    (implements base hs (ledger_step (ucast opcode) (hs_input hs) bal))"
  unfolding token_dispatch_def
proof (rule ends_read_input)
  fix g
  let ?in = "take BUFFER_SIZE (hs_input hs)" and ?opc = "ucast opcode :: u16"
  have other: "ledger_step ?opc ?in bal = None" if "?opc \<notin> {2, 3, 4, 5, 6}"
    using that by (simp add: ledger_step_def)
  show "guest_ends gm base ((let opc = ?opc in
       if opc = 0x0001 then token_initialize gm ?in
       else if opc = 0x0002 then token_balance_of gm ?in
       else if opc = 0x0003 then token_transfer gm ?in
       else if opc = 0x0004 then token_mint gm ?in
       else if opc = 0x0005 then token_burn gm ?in
       else if opc = 0x0006 then
         get_supply gm (\<lambda>supply. sdk_write_output gm (u128_to_bytes supply) (\<lambda>_. guest_return gm 0))
       else guest_return gm (-1)) g) hs (implements base hs (ledger_step ?opc (hs_input hs) bal))"
    using assms balance_of_ends [OF assms(1), of ?in g] transfer_ends [OF assms(1,2), of ?in g]
      mint_ends [OF assms(1,2), of ?in g] burn_ends [OF assms(1,2), of ?in g]
      total_supply_ends [OF assms(1), of g ?in] other
    by (auto simp: Let_def ledger_step_take implements_def)
qed

end

section \<open>Properties of the token\<close>

text \<open>C29. The token contract implements the abstract ledger: on a storage that holds balances and
  their sum, every call except \<open>initialize\<close> answers, without panicking the host, what the
  ledger answers, with arithmetic on natural numbers: it fails with -1 and changes nothing, or
  leaves a storage that holds the ledger's new balances and their sum. So no wrap-around and no
  saturation happens, transfers to oneself included. The placement of the buffers by compiler
  and allocator is a parameter; the contract may still run out of memory or fuel.\<close>

theorem token_refines_ledger:
  assumes "guest_memory gm" "holds_balances (base (cc_contract_id ctx)) bal" "cc_opcode ctx \<noteq> 1"
  shows "guest_ends gm base (token_dispatch gm (ucast (cc_opcode ctx)) len g) (initial_host ctx)
    (implements base (initial_host ctx) (ledger_step (cc_opcode ctx) (cc_input ctx) bal))"
proof -
  show ?thesis
    using guest_memory.token_dispatch_ends [OF assms(1), of base "initial_host ctx" bal "ucast (cc_opcode ctx)" len g]
      assms(2,3) by simp
qed

definition demo_initialize :: call_context where
  "demo_initialize = \<lparr>cc_contract_id = fill32 1, cc_caller = None, cc_txid = fill32 4, cc_block_height = 5,
     cc_opcode = 1, cc_input = u128_to_bytes 12 @ bytes_of (fill32 7), cc_fuel_limit = 100, cc_depth = 0\<rparr>"

definition demo_transfer :: call_context where
  "demo_transfer = demo_initialize\<lparr>cc_opcode := 3,
     cc_input := bytes_of (fill32 7) @ bytes_of (fill32 8) @ u128_to_bytes 5\<rparr>"

definition demo_storage :: "contract_id \<Rightarrow> bytes \<Rightarrow> bytes option" where
  "demo_storage cid key =
     (if key = SUPPLY_KEY \<or> key = balance_key (fill32 7) then Some (u128_to_bytes 12) else None)"

definition demo_balances :: balances where
  "demo_balances = (\<lambda>_. 0)(fill32 7 := 12)"

lemma supply_single: "supply_of ((\<lambda>_. 0)(a := n)) = n"
  using supply_upd [of "\<lambda>_. 0" a n] by (simp add: supply_of_def)

lemma demo_holds: "holds_balances (demo_storage cid) demo_balances"
proof -
  have "small_values (demo_storage cid)" by (simp add: small_values_def demo_storage_def BUFFER_SIZE_def)
  moreover have "stored_balances (demo_storage cid) = demo_balances"
    by (simp add: stored_balances_def demo_storage_def demo_balances_def fun_eq_iff stored_u128_def)
  ultimately show ?thesis
    by (simp add: holds_balances_iff supply_single demo_balances_def demo_storage_def)
qed

lemma demo_ledger_step:
  "ledger_step 3 (cc_input demo_transfer) demo_balances
     = Some (credit (fill32 8) 5 (debit (fill32 7) 5 demo_balances), None)"
proof -
  have "mk32 (take 32 (cc_input demo_transfer)) = fill32 7" "mk32 (slice 32 64 (cc_input demo_transfer)) = fill32 8"
    "slice 64 80 (cc_input demo_transfer) = u128_to_bytes 5"
    by (simp_all add: demo_transfer_def slice_def del: bytes_of_fill32)
  then show ?thesis
    by (simp add: ledger_step_def demo_transfer_def demo_balances_def Let_def del: bytes_of_fill32)
qed

lemma token_refines_ledger_witness:
  "\<exists>hs fuel. interpret_run demo_storage (token_dispatch flat_guest 3 80 ()) (initial_host demo_transfer)
      = Some (EndReturned 0 hs fuel)
    \<and> unat (stored_u128 (host_view demo_storage hs (balance_key (fill32 7)))) = 7
    \<and> unat (stored_u128 (host_view demo_storage hs (balance_key (fill32 8)))) = 5"
proof -
  have "cc_opcode demo_transfer = 3" "cc_contract_id demo_transfer = fill32 1"
    by (simp_all add: demo_transfer_def demo_initialize_def)
  then have "guest_ends flat_guest demo_storage (token_dispatch flat_guest 3 80 ()) (initial_host demo_transfer)
      (implements demo_storage (initial_host demo_transfer) (ledger_step 3 (cc_input demo_transfer) demo_balances))"
    using token_refines_ledger [OF flat.guest_memory_axioms, of demo_storage demo_transfer demo_balances 80 "()"]
      demo_holds by simp
  then obtain v hs fuel where run: "interpret_run demo_storage (token_dispatch flat_guest 3 80 ()) (initial_host demo_transfer)
      = Some (EndReturned v hs fuel)"
    "implements demo_storage (initial_host demo_transfer) (ledger_step 3 (cc_input demo_transfer) demo_balances) v hs"
    by (rule flat_returns)
  then have "v = 0" "holds_balances (host_view demo_storage hs) (credit (fill32 8) 5 (debit (fill32 7) 5 demo_balances))"
    by (simp_all add: demo_ledger_step implements_def)
  with run show ?thesis
    by (auto simp: holds_balances_def credit_def debit_def demo_balances_def)
qed

context guest_memory begin

lemma token_initialize_ends:
  assumes "room 3 hs" "(ucast opcode :: u16) = 1"
  shows "guest_ends gm base (token_dispatch gm opcode len g) hs (\<lambda>v hs'.
    if length (hs_input hs) < 48 then v = -1 \<and> hs' = hs
    else v = 0 \<and> host_view base hs' = reinitialized (hs_input hs) (host_view base hs))"
  unfolding token_dispatch_def
proof (rule ends_read_input)
  fix g
  let ?in = "take BUFFER_SIZE (hs_input hs)"
  have in': "length ?in < 48 \<longleftrightarrow> length (hs_input hs) < 48" "take 16 ?in = take 16 (hs_input hs)"
    "slice 16 48 ?in = slice 16 48 (hs_input hs)"
    by (auto simp: BUFFER_SIZE_def slice_take min_def)
  let ?Q = "\<lambda>v hs'. if length (hs_input hs) < 48 then v = -1 \<and> hs' = hs
    else v = 0 \<and> host_view base hs' = reinitialized (hs_input hs) (host_view base hs)"
  have "reinitialized ?in = reinitialized (hs_input hs)" by (rule ext) (simp only: reinitialized_def in')
  then have "guest_ends gm base (token_initialize gm ?in g) hs ?Q"
    using initialize_ends [OF assms(1), of base ?in g] by (simp only: in')
  then show "guest_ends gm base ((let opc = ucast opcode :: u16 in
       if opc = 0x0001 then token_initialize gm ?in
       else if opc = 0x0002 then token_balance_of gm ?in
       else if opc = 0x0003 then token_transfer gm ?in
       else if opc = 0x0004 then token_mint gm ?in
       else if opc = 0x0005 then token_burn gm ?in
       else if opc = 0x0006 then
         get_supply gm (\<lambda>supply. sdk_write_output gm (u128_to_bytes supply) (\<lambda>_. guest_return gm 0))
       else guest_return gm (-1)) g) hs ?Q"
    by (simp add: assms(2) Let_def)
qed

end

lemma reinitialized_balances:
  assumes "stored_balances vw = bal" "small_values vw" "\<not> length input < 48"
  shows "stored_balances (reinitialized input vw) = bal(mk32 (slice 16 48 input) := unat (bytes_to_u128 (take 16 input)))"
    "unat (stored_u128 (reinitialized input vw SUPPLY_KEY)) = unat (bytes_to_u128 (take 16 input))"
    "small_values (reinitialized input vw)"
  using assms by (auto simp: reinitialized_def BUFFER_SIZE_def)

context guest_memory begin

lemma initialize_law:
  assumes "holds_balances (base (cc_contract_id ctx)) bal" "cc_opcode ctx = 1"
  shows "guest_ends gm base (token_dispatch gm (ucast (cc_opcode ctx)) len g) (initial_host ctx) (\<lambda>v hs'.
    if length (cc_input ctx) < 48 then v = -1 \<and> hs' = initial_host ctx
    else v = 0 \<and> host_view base hs' = reinitialized (cc_input ctx) (base (cc_contract_id ctx))
      \<and> ((\<exists>bal'. holds_balances (host_view base hs') bal')
          \<longleftrightarrow> (\<forall>a. a \<noteq> mk32 (slice 16 48 (cc_input ctx)) \<longrightarrow> bal a = 0)))"
proof -
  let ?owner = "mk32 (slice 16 48 (cc_input ctx))" and ?amount = "unat (bytes_to_u128 (take 16 (cc_input ctx)))"
  note h = assms(1) [unfolded holds_balances_iff]
  have "(\<exists>bal'. holds_balances (reinitialized (cc_input ctx) (base (cc_contract_id ctx))) bal')
      \<longleftrightarrow> (\<forall>a. a \<noteq> ?owner \<longrightarrow> bal a = 0)" if "\<not> length (cc_input ctx) < 48"
  proof -
    have "(\<exists>bal'. holds_balances (reinitialized (cc_input ctx) (base (cc_contract_id ctx))) bal')
        \<longleftrightarrow> ?amount = supply_of (bal(?owner := ?amount))"
      using reinitialized_balances [OF _ _ that, of "base (cc_contract_id ctx)" bal] h
      by (simp add: holds_balances_iff)
    also have "\<dots> \<longleftrightarrow> supply_of (bal(?owner := 0)) = 0"
      using supply_upd [of bal ?owner ?amount] supply_upd [of bal ?owner 0] by linarith
    also have "\<dots> \<longleftrightarrow> (\<forall>a. a \<noteq> ?owner \<longrightarrow> bal a = 0)"
      by (auto simp: supply_of_def)
    finally show ?thesis .
  qed
  moreover have "guest_ends gm base (token_dispatch gm (ucast (cc_opcode ctx)) len g) (initial_host ctx) (\<lambda>v hs'.
      if length (cc_input ctx) < 48 then v = -1 \<and> hs' = initial_host ctx
      else v = 0 \<and> host_view base hs' = reinitialized (cc_input ctx) (base (cc_contract_id ctx)))"
    using token_initialize_ends [of "initial_host ctx" "ucast (cc_opcode ctx)" base len g] assms(2)
    by (simp cong: if_cong split del: if_split)
  ultimately show ?thesis
    by (elim ends_mono) (simp split: if_splits)
qed

end

text \<open>C31. \<open>initialize\<close> can be called again by anyone: on a storage that holds balances and their sum, a
  call with a full input succeeds, stores the given amount as the supply and as the named owner's
  balance and the owner's address as the owner, and leaves every other key as it was, the other
  balances among them. Afterwards the supply is the sum of the balances exactly when every other
  balance was zero. With a short input it fails and changes nothing.\<close>

theorem token_initialize_exact:
  assumes "guest_memory gm" "holds_balances (base (cc_contract_id ctx)) bal" "cc_opcode ctx = 1"
  shows "guest_ends gm base (token_dispatch gm (ucast (cc_opcode ctx)) len g) (initial_host ctx) (\<lambda>v hs'.
    if length (cc_input ctx) < 48 then v = -1 \<and> hs' = initial_host ctx
    else v = 0
      \<and> host_view base hs' = (base (cc_contract_id ctx))
          (SUPPLY_KEY := Some (u128_to_bytes (bytes_to_u128 (take 16 (cc_input ctx)))),
           balance_key (mk32 (slice 16 48 (cc_input ctx))) := Some (u128_to_bytes (bytes_to_u128 (take 16 (cc_input ctx)))),
           OWNER_KEY := Some (slice 16 48 (cc_input ctx)))
      \<and> ((\<exists>bal'. holds_balances (host_view base hs') bal')
          \<longleftrightarrow> (\<forall>a. a \<noteq> mk32 (slice 16 48 (cc_input ctx)) \<longrightarrow> bal a = 0)))"
  using guest_memory.initialize_law [OF assms(1), of base ctx bal] assms(2,3) unfolding reinitialized_def .

text \<open>Someone else names a new owner and a supply of 3, while 12 tokens are held.\<close>

lemma token_initialize_exact_witness:
  "\<exists>hs fuel. interpret_run demo_storage (token_dispatch flat_guest 1 48 ())
        (initial_host (demo_initialize\<lparr>cc_input := u128_to_bytes 3 @ bytes_of (fill32 9)\<rparr>))
      = Some (EndReturned 0 hs fuel)
    \<and> host_view demo_storage hs SUPPLY_KEY = Some (u128_to_bytes 3)
    \<and> host_view demo_storage hs (balance_key (fill32 7)) = Some (u128_to_bytes 12)
    \<and> \<not> (\<exists>bal. holds_balances (host_view demo_storage hs) bal)"
proof -
  let ?ctx = "demo_initialize\<lparr>cc_input := u128_to_bytes 3 @ bytes_of (fill32 9)\<rparr>"
  have ctx: "cc_opcode ?ctx = 1" "\<not> length (cc_input ?ctx) < 48" "mk32 (slice 16 48 (cc_input ?ctx)) = fill32 9"
      "bytes_to_u128 (take 16 (cc_input ?ctx)) = 3" "cc_contract_id ?ctx = fill32 1"
    by (simp_all add: demo_initialize_def slice_def del: bytes_of_fill32)
  have law: "guest_ends flat_guest demo_storage (token_dispatch flat_guest (ucast (cc_opcode ?ctx)) 48 ()) (initial_host ?ctx) (\<lambda>v hs'.
      v = 0 \<and> host_view demo_storage hs' SUPPLY_KEY = Some (u128_to_bytes 3)
      \<and> host_view demo_storage hs' (balance_key (fill32 7)) = Some (u128_to_bytes 12)
      \<and> \<not> (\<exists>bal. holds_balances (host_view demo_storage hs') bal))"
  proof (rule ends_mono [OF token_initialize_exact [OF flat.guest_memory_axioms demo_holds ctx(1)]])
    fix v hs'
    assume "if length (cc_input ?ctx) < 48 then v = -1 \<and> hs' = initial_host ?ctx
      else v = 0
      \<and> host_view demo_storage hs' = (demo_storage (cc_contract_id ?ctx))
          (SUPPLY_KEY := Some (u128_to_bytes (bytes_to_u128 (take 16 (cc_input ?ctx)))),
           balance_key (mk32 (slice 16 48 (cc_input ?ctx))) := Some (u128_to_bytes (bytes_to_u128 (take 16 (cc_input ?ctx)))),
           OWNER_KEY := Some (slice 16 48 (cc_input ?ctx)))
      \<and> ((\<exists>bal'. holds_balances (host_view demo_storage hs') bal')
          \<longleftrightarrow> (\<forall>a. a \<noteq> mk32 (slice 16 48 (cc_input ?ctx)) \<longrightarrow> demo_balances a = 0))"
    then have q: "v = 0" "host_view demo_storage hs' = (demo_storage (fill32 1))(SUPPLY_KEY := Some (u128_to_bytes 3),
          balance_key (fill32 9) := Some (u128_to_bytes 3), OWNER_KEY := Some (slice 16 48 (cc_input ?ctx)))"
        "(\<exists>bal'. holds_balances (host_view demo_storage hs') bal') \<longleftrightarrow> (\<forall>a. a \<noteq> fill32 9 \<longrightarrow> demo_balances a = 0)"
      unfolding ctx(3-5) using ctx(2) by argo+
    moreover have "\<not> (\<forall>a. a \<noteq> fill32 9 \<longrightarrow> demo_balances a = 0)"
      by (auto simp: demo_balances_def intro!: exI [of _ "fill32 7"])
    ultimately show "v = 0 \<and> host_view demo_storage hs' SUPPLY_KEY = Some (u128_to_bytes 3)
      \<and> host_view demo_storage hs' (balance_key (fill32 7)) = Some (u128_to_bytes 12)
      \<and> \<not> (\<exists>bal. holds_balances (host_view demo_storage hs') bal)"
      by (simp add: q(2) demo_storage_def)
  qed
  then obtain v hs fuel where "interpret_run demo_storage (token_dispatch flat_guest (ucast (cc_opcode ?ctx)) 48 ()) (initial_host ?ctx)
      = Some (EndReturned v hs fuel)" "v = 0 \<and> host_view demo_storage hs SUPPLY_KEY = Some (u128_to_bytes 3)
      \<and> host_view demo_storage hs (balance_key (fill32 7)) = Some (u128_to_bytes 12)
      \<and> \<not> (\<exists>bal. holds_balances (host_view demo_storage hs) bal)"
    by (rule flat_returns)
  then show ?thesis
    using ctx by (intro exI [of _ hs] exI [of _ fuel]) (simp del: bytes_of_fill32)
qed

subsection \<open>The token over the blocks of its life\<close>

text \<open>A call of the token that returns 0, on the storage before the block. \<open>initialize\<close> counts only if nobody
  but the owner that it names holds tokens, so on a fresh contract always.\<close>

definition token_call :: "'g guest \<Rightarrow> contract_id \<Rightarrow> (contract_id \<Rightarrow> bytes \<Rightarrow> bytes option) \<Rightarrow> host_state \<Rightarrow> bool" where
  "token_call gm cid base hs \<longleftrightarrow>
     (\<exists>ctx len g fuel. cc_contract_id ctx = cid
        \<and> interpret_run base (token_dispatch gm (ucast (cc_opcode ctx)) len g) (initial_host ctx) = Some (EndReturned 0 hs fuel)
        \<and> (cc_opcode ctx = 1 \<longrightarrow>
            (\<forall>a. a \<noteq> mk32 (slice 16 48 (cc_input ctx)) \<longrightarrow> stored_u128 (base cid (balance_key a)) = 0)))"

fun writes_to :: "contract_id \<Rightarrow> storage_write \<Rightarrow> bool" where
  "writes_to cid (WSet c key val) \<longleftrightarrow> c = cid"
| "writes_to cid (WDelete c key) \<longleftrightarrow> c = cid"

text \<open>A block with at most one such call, among any calls of other contracts.\<close>

inductive token_block :: "'g guest \<Rightarrow> contract_id \<Rightarrow> (contract_id \<Rightarrow> bytes \<Rightarrow> bytes option) \<Rightarrow> storage_write list \<Rightarrow> bool"
  for gm :: "'g guest" and cid :: contract_id and base where
  others: "\<forall>w \<in> set ws. \<not> writes_to cid w \<Longrightarrow> token_block gm cid base ws"
| called: "token_call gm cid base hs \<Longrightarrow> \<forall>w \<in> set us. \<not> writes_to cid w \<Longrightarrow> \<forall>w \<in> set vs. \<not> writes_to cid w \<Longrightarrow>
    token_block gm cid base (us @ overlay_writes cid (hs_overlay hs) @ vs)"

inductive token_history :: "'g guest \<Rightarrow> contract_id \<Rightarrow> (contract_id \<Rightarrow> bytes \<Rightarrow> bytes option) \<Rightarrow> bool"
  for gm :: "'g guest" and cid :: contract_id where
  fresh: "base cid = (\<lambda>_. None) \<Longrightarrow> token_history gm cid base"
| block: "token_history gm cid base \<Longrightarrow> token_block gm cid base ws \<Longrightarrow> token_history gm cid (block_storage base ws)"

lemma set_bindings_mem: "((c, key), v) \<in> set (set_bindings ws) \<longleftrightarrow> WSet c key v \<in> set ws"
proof (induction ws)
  case (Cons w ws)
  then show ?case by (cases w) auto
qed simp

lemma elsewhere:
  assumes "\<forall>w \<in> set ws. \<not> writes_to cid w"
  shows "WDelete cid key \<notin> set ws" "map_of (rev (set_bindings ws)) (cid, key) = None"
proof -
  show "WDelete cid key \<notin> set ws" using assms writes_to.simps(2) by blast
  have "(cid, key) \<notin> fst ` set (set_bindings ws)"
    using assms bspec [OF assms, of "WSet cid key v" for v] by (auto simp: set_bindings_mem)
  then show "map_of (rev (set_bindings ws)) (cid, key) = None" by (simp add: map_of_eq_None_iff)
qed

lemma block_storage_elsewhere: "\<forall>w \<in> set ws. \<not> writes_to cid w \<Longrightarrow> block_storage base ws cid = base cid"
  using elsewhere [of ws cid] by (simp add: block_storage_def fun_eq_iff)

lemma block_storage_around:
  assumes "\<forall>w \<in> set us. \<not> writes_to cid w" "\<forall>w \<in> set vs. \<not> writes_to cid w"
  shows "block_storage base (us @ ws @ vs) cid = block_storage base ws cid"
  using elsewhere [OF assms(1)] elsewhere [OF assms(2)]
  by (simp add: block_storage_def fun_eq_iff map_add_def split: option.split)

lemma block_storage_call:
  "hs_contract_id hs = cid \<Longrightarrow> block_storage base (overlay_writes cid (hs_overlay hs)) cid = host_view base hs"
  by (simp add: block_storage_def overlay_bindings overlay_deletes host_view_def fun_eq_iff split: option.split)

lemma call_contract:
  assumes "interpret_run base r (initial_host ctx) = Some (EndReturned v hs fuel)"
  shows "hs_contract_id hs = cc_contract_id ctx"
  using interpret_run_bounded [OF assms bounded_initial] by (simp add: same_call_def)

lemma token_call_keeps_balances:
  assumes "guest_memory gm" "token_call gm cid base hs" "holds_balances (base cid) bal"
  shows "hs_contract_id hs = cid \<and> (\<exists>bal'. holds_balances (host_view base hs) bal')"
proof -
  obtain ctx len g fuel where ctx: "cc_contract_id ctx = cid"
    and run: "interpret_run base (token_dispatch gm (ucast (cc_opcode ctx)) len g) (initial_host ctx) = Some (EndReturned 0 hs fuel)"
    and sole: "cc_opcode ctx = 1 \<Longrightarrow> (\<forall>a. a \<noteq> mk32 (slice 16 48 (cc_input ctx)) \<longrightarrow> stored_u128 (base cid (balance_key a)) = 0)"
    using assms(2) by (auto simp: token_call_def)
  have bal: "holds_balances (base (cc_contract_id ctx)) bal" using assms(3) ctx by simp
  have "\<exists>bal'. holds_balances (host_view base hs) bal'"
  proof (cases "cc_opcode ctx = 1")
    case True
    have "\<forall>a. a \<noteq> mk32 (slice 16 48 (cc_input ctx)) \<longrightarrow> bal a = 0"
      using sole [OF True] assms(3) by (metis holds_balances_def unat_0)
    then show ?thesis
      using guest_memory.initialize_law [OF assms(1), of base ctx bal len g] bal True run by (auto simp: guest_ends_def split: if_splits)
  next
    case False
    then show ?thesis
      using guest_memory.token_dispatch_ends [OF assms(1), of base "initial_host ctx" bal "ucast (cc_opcode ctx)" len g] run bal
      by (auto simp: guest_ends_def implements_def split: option.splits)
  qed
  then show ?thesis using call_contract [OF run] ctx by simp
qed

text \<open>C30. Tokens are conserved from block to block: if no block runs more than one successful call of the
  token, and \<open>initialize\<close> only succeeds while nobody but the owner that it names holds tokens, then
  after every block the stored supply is the sum of all stored balances, so no balance exceeds it.\<close>

theorem token_supply_is_sum:
  assumes "token_history gm cid base" "guest_memory gm"
  shows "unat (stored_u128 (base cid SUPPLY_KEY)) = (\<Sum>a\<in>UNIV. unat (stored_u128 (base cid (balance_key a))))
    \<and> stored_u128 (base cid (balance_key a)) \<le> stored_u128 (base cid SUPPLY_KEY)"
proof -
  have "\<exists>bal. holds_balances (base cid) bal"
    using assms(1)
  proof induction
    case (fresh base)
    then have "holds_balances (base cid) (\<lambda>_. 0)"
      by (simp add: holds_balances_def small_values_def stored_u128_def supply_of_def)
    then show ?case by blast
  next
    case (block base ws)
    then obtain bal where bal: "holds_balances (base cid) bal" by blast
    from block(2) show ?case
    proof cases
      case others
      then show ?thesis using bal block_storage_elsewhere by metis
    next
      case (called hs us vs)
      then show ?thesis
        using token_call_keeps_balances [OF assms(2) called(2) bal]
        by (simp add: block_storage_around block_storage_call)
    qed
  qed
  then obtain bal where bal: "holds_balances (base cid) bal" by blast
  then have "unat (stored_u128 (base cid (balance_key b))) = bal b" for b by (simp add: holds_balances_def)
  with bal show ?thesis
    using balance_le_supply [of bal a] by (simp add: holds_balances_def supply_of_def word_le_nat_alt)
qed

lemma demo_first_call:
  obtains hs fuel where
    "interpret_run (\<lambda>_ _. None) (token_dispatch flat_guest (ucast (cc_opcode demo_initialize)) 48 ()) (initial_host demo_initialize)
      = Some (EndReturned 0 hs fuel)"
    "host_view (\<lambda>_ _. None) hs = reinitialized (cc_input demo_initialize) (\<lambda>_. None)"
proof -
  have ctx: "\<not> length (cc_input demo_initialize) < 48" "cc_opcode demo_initialize = 1"
    by (simp_all add: demo_initialize_def)
  have "guest_ends flat_guest (\<lambda>_ _. None) (token_dispatch flat_guest (ucast (cc_opcode demo_initialize)) 48 ())
      (initial_host demo_initialize) (\<lambda>v hs'. v = 0 \<and> host_view (\<lambda>_ _. None) hs' = reinitialized (cc_input demo_initialize) (\<lambda>_. None))"
    using flat.token_initialize_ends [of "initial_host demo_initialize" "ucast (cc_opcode demo_initialize)" "\<lambda>_ _. None" 48 "()"]
      ctx by (simp cong: if_cong)
  then show thesis by (rule flat_returns) (use that in blast)
qed

lemma token_supply_is_sum_witness:
  "\<exists>base. token_history flat_guest (fill32 1) base
    \<and> unat (stored_u128 (base (fill32 1) SUPPLY_KEY)) = 12
    \<and> (\<Sum>a\<in>UNIV. unat (stored_u128 (base (fill32 1) (balance_key a)))) = 12"
proof -
  obtain hs fuel where run: "interpret_run (\<lambda>_ _. None) (token_dispatch flat_guest (ucast (cc_opcode demo_initialize)) 48 ())
      (initial_host demo_initialize) = Some (EndReturned 0 hs fuel)"
    "host_view (\<lambda>_ _. None) hs = reinitialized (cc_input demo_initialize) (\<lambda>_. None)"
    by (rule demo_first_call)
  let ?base = "block_storage (\<lambda>_ _. None) ([] @ overlay_writes (fill32 1) (hs_overlay hs) @ [])"
  have cid: "cc_contract_id demo_initialize = fill32 1" by (simp add: demo_initialize_def)
  have "token_call flat_guest (fill32 1) (\<lambda>_ _. None) hs"
    unfolding token_call_def using run(1) cid
    by (intro exI [of _ demo_initialize] exI [of _ 48] exI [of _ "()"] exI [of _ fuel]) (simp add: stored_u128_def)
  then have "token_block flat_guest (fill32 1) (\<lambda>_ _. None) ([] @ overlay_writes (fill32 1) (hs_overlay hs) @ [])"
    by (rule token_block.called) simp_all
  then have history: "token_history flat_guest (fill32 1) ?base"
    by (rule token_history.block [OF token_history.fresh [OF refl]])
  have "?base (fill32 1) = reinitialized (cc_input demo_initialize) (\<lambda>_. None)"
    using block_storage_call [of hs "fill32 1" "\<lambda>_ _. None"] call_contract [OF run(1)] cid run(2) by simp
  then have "unat (stored_u128 (?base (fill32 1) SUPPLY_KEY)) = 12"
    by (simp only:) (simp add: reinitialized_def demo_initialize_def del: bytes_of_fill32)
  with token_supply_is_sum [OF history flat.guest_memory_axioms] history show ?thesis
    by (intro exI [of _ ?base]) simp
qed

subsection \<open>Two mints in one block\<close>

context guest_memory begin

text \<open>A mint writes the supply and one balance.\<close>

lemma mint_touches:
  assumes "small_values (host_view base hs)"
  shows "guest_ends gm base (token_mint gm input g) hs (\<lambda>v hs'. \<forall>key. key \<noteq> SUPPLY_KEY \<longrightarrow>
    key \<noteq> balance_key (mk32 (take 32 input)) \<longrightarrow> om_get (hs_overlay hs') key = om_get (hs_overlay hs) key)"
    (is "guest_ends gm base _ hs ?Q")
proof (cases "length input < 48")
  case False
  let ?to = "mk32 (take 32 input)" and ?amount = "bytes_to_u128 (slice 32 48 input)"
  let ?rest = "get_balance gm ?to (\<lambda>bal. set_balance gm ?to (saturating_add128 bal ?amount) (guest_return gm 0))"
  have rest: "guest_ends gm base (?rest g) hs1 ?Q"
    if "small_values (host_view base hs1)" "\<forall>key. key \<noteq> SUPPLY_KEY \<longrightarrow> om_get (hs_overlay hs1) key = om_get (hs_overlay hs) key" for g hs1
    by (rule ends_get_balance [OF that(1)], unfold set_balance_def, rule ends_set) (use that(2) in \<open>simp_all add: BUFFER_SIZE_def\<close>)
  have "guest_ends gm base (set_supply gm new ?rest g) hs ?Q" for new g
    unfolding set_supply_def
  proof (rule ends_set)
    show "guest_ends gm base (?rest g) (hs\<lparr>hs_overlay := om_insert SUPPLY_KEY (Some (u128_to_bytes new)) (hs_overlay hs)\<rparr>) ?Q" for g
      by (rule rest) (use assms in \<open>auto simp: small_values_def host_view_def BUFFER_SIZE_def split: option.splits\<close>)
    show "guest_ends gm base (?rest g) hs ?Q" for g by (rule rest) (use assms in simp_all)
  qed (simp_all add: BUFFER_SIZE_def)
  then show ?thesis
    unfolding token_mint_def by (simp only: False if_False Let_def) (rule ends_get_supply [OF assms], simp)
qed (simp add: token_mint_def)

lemma mint_call_touches:
  assumes "small_values (base (cc_contract_id ctx))" "cc_opcode ctx = 4"
  shows "guest_ends gm base (token_dispatch gm (ucast (cc_opcode ctx)) len g) (initial_host ctx) (\<lambda>v hs'.
    \<forall>key. key \<noteq> SUPPLY_KEY \<longrightarrow> key \<noteq> balance_key (mk32 (take 32 (cc_input ctx))) \<longrightarrow> om_get (hs_overlay hs') key = None)"
  unfolding token_dispatch_def
proof (rule ends_read_input)
  fix g
  show "guest_ends gm base ((let opc = ucast (ucast (cc_opcode ctx) :: i32) :: u16 in
       if opc = 0x0001 then token_initialize gm (take BUFFER_SIZE (hs_input (initial_host ctx)))
       else if opc = 0x0002 then token_balance_of gm (take BUFFER_SIZE (hs_input (initial_host ctx)))
       else if opc = 0x0003 then token_transfer gm (take BUFFER_SIZE (hs_input (initial_host ctx)))
       else if opc = 0x0004 then token_mint gm (take BUFFER_SIZE (hs_input (initial_host ctx)))
       else if opc = 0x0005 then token_burn gm (take BUFFER_SIZE (hs_input (initial_host ctx)))
       else if opc = 0x0006 then
         get_supply gm (\<lambda>supply. sdk_write_output gm (u128_to_bytes supply) (\<lambda>_. guest_return gm 0))
       else guest_return gm (-1)) g) (initial_host ctx) (\<lambda>v hs'.
    \<forall>key. key \<noteq> SUPPLY_KEY \<longrightarrow> key \<noteq> balance_key (mk32 (take 32 (cc_input ctx))) \<longrightarrow> om_get (hs_overlay hs') key = None)"
    using mint_touches [of base "initial_host ctx" "take BUFFER_SIZE (cc_input ctx)" g] assms
    by (simp add: Let_def BUFFER_SIZE_def) (simp add: initial_host_def)
qed

text \<open>What one mint of a block leaves for the block's commit.\<close>

lemma mint_in_block:
  assumes "holds_balances (base cid) bal" "cc_contract_id ctx = cid" "cc_opcode ctx = 4"
    and "interpret_run base (token_dispatch gm (ucast (cc_opcode ctx)) len g) (initial_host ctx) = Some (EndReturned 0 hs fuel)"
  shows "hs_contract_id hs = cid"
    and "holds_balances (host_view base hs)
      (credit (mk32 (take 32 (cc_input ctx))) (unat (bytes_to_u128 (slice 32 48 (cc_input ctx)))) bal)"
    and "key \<noteq> SUPPLY_KEY \<Longrightarrow> key \<noteq> balance_key (mk32 (take 32 (cc_input ctx))) \<Longrightarrow> om_get (hs_overlay hs) key = None"
proof -
  show "hs_contract_id hs = cid" using call_contract [OF assms(4)] assms(2) by simp
  show "holds_balances (host_view base hs)
      (credit (mk32 (take 32 (cc_input ctx))) (unat (bytes_to_u128 (slice 32 48 (cc_input ctx)))) bal)"
    using token_dispatch_ends [of base "initial_host ctx" bal "ucast (cc_opcode ctx)" len g] assms
    by (auto simp: guest_ends_def implements_def ledger_step_def Let_def split: option.splits if_splits)
  show "key \<noteq> SUPPLY_KEY \<Longrightarrow> key \<noteq> balance_key (mk32 (take 32 (cc_input ctx))) \<Longrightarrow> om_get (hs_overlay hs) key = None"
    using mint_call_touches [of base ctx len g] assms by (simp add: guest_ends_def holds_balances_def)
qed

end

lemma block_storage_two:
  "hs_contract_id hs1 = cid \<Longrightarrow> hs_contract_id hs2 = cid \<Longrightarrow>
   block_storage base (overlay_writes cid (hs_overlay hs1) @ overlay_writes cid (hs_overlay hs2)) cid key =
     (if om_get (hs_overlay hs1) key = Some None then None
      else case om_get (hs_overlay hs2) key of Some v \<Rightarrow> v | None \<Rightarrow> host_view base hs1 key)"
  by (auto simp: block_storage_def overlay_bindings overlay_deletes host_view_def map_add_def split: option.splits)

text \<open>Two mints to different receivers that succeed in one block: both run on the supply before the block,
  so both receivers are credited, but the supply only grows by the second amount, and is no longer
  the sum of the balances.\<close>

theorem two_mints_lose_supply:
  assumes "guest_memory gm" "holds_balances (base cid) bal"
    and "cc_contract_id ctx1 = cid" "cc_opcode ctx1 = 4" "cc_contract_id ctx2 = cid" "cc_opcode ctx2 = 4"
    and "interpret_run base (token_dispatch gm (ucast (cc_opcode ctx1)) len1 g1) (initial_host ctx1) = Some (EndReturned 0 hs1 fuel1)"
    and "interpret_run base (token_dispatch gm (ucast (cc_opcode ctx2)) len2 g2) (initial_host ctx2) = Some (EndReturned 0 hs2 fuel2)"
    and "a = mk32 (take 32 (cc_input ctx1))" "b = mk32 (take 32 (cc_input ctx2))" "a \<noteq> b"
    and "x = unat (bytes_to_u128 (slice 32 48 (cc_input ctx1)))" "y = unat (bytes_to_u128 (slice 32 48 (cc_input ctx2)))" "0 < x" "0 < y"
    and "vw = block_storage base (overlay_writes cid (hs_overlay hs1) @ overlay_writes cid (hs_overlay hs2)) cid"
  shows "stored_balances vw = credit b y (credit a x bal) \<and> unat (stored_u128 (vw SUPPLY_KEY)) = supply_of bal + y
    \<and> \<not> (\<exists>bal'. holds_balances vw bal')"
proof -
  note m1 = guest_memory.mint_in_block [OF assms(1,2,3,4,7), folded assms(9,12)]
  note m2 = guest_memory.mint_in_block [OF assms(1,2,5,6,8), folded assms(10,13)]
  note vw = block_storage_two [OF m1(1) m2(1), of base, folded assms(16)]
  have v: "unat (stored_u128 (host_view base hs1 (balance_key c))) = credit a x bal c"
    "unat (stored_u128 (host_view base hs2 (balance_key c))) = credit b y bal c"
    "unat (stored_u128 (host_view base hs1 SUPPLY_KEY)) = supply_of bal + x"
    "unat (stored_u128 (host_view base hs2 SUPPLY_KEY)) = supply_of bal + y"
    "unat (stored_u128 (base cid SUPPLY_KEY)) = supply_of bal" "unat (stored_u128 (base cid (balance_key c))) = bal c" for c
    using m1(2) m2(2) assms(2) by (simp_all add: holds_balances_def)
  have keeps: "om_get (hs_overlay hs1) key \<noteq> Some None" if "0 < unat (stored_u128 (host_view base hs1 key))" for key
    using that by (auto simp: host_view_def stored_u128_def)
  have after: "unat (stored_u128 (vw SUPPLY_KEY)) = supply_of bal + y"
  proof -
    obtain val where "om_get (hs_overlay hs2) SUPPLY_KEY = Some val"
      using v(4,5) assms(15) m2(1) by (cases "om_get (hs_overlay hs2) SUPPLY_KEY") (simp_all add: host_view_def)
    then show ?thesis using v(3,4) assms(14) keeps [of SUPPLY_KEY] by (simp add: vw host_view_def)
  qed
  have "unat (stored_u128 (vw (balance_key c))) = credit b y (credit a x bal) c" for c
  proof (cases "c = b")
    case True
    then have o1: "om_get (hs_overlay hs1) (balance_key c) = None" using m1(3) assms(11) by simp
    obtain val where "om_get (hs_overlay hs2) (balance_key c) = Some val"
      using v(2,6) [of c] assms(15) m2(1) True
      by (cases "om_get (hs_overlay hs2) (balance_key c)") (simp_all add: host_view_def credit_def)
    then show ?thesis using v(2) [of c] o1 True assms(11) by (simp add: vw host_view_def credit_def)
  next
    case False
    then have o2: "om_get (hs_overlay hs2) (balance_key c) = None" using m2(3) by simp
    have "om_get (hs_overlay hs1) (balance_key c) \<noteq> Some None"
    proof (cases "c = a")
      case True
      then show ?thesis using keeps [of "balance_key c"] v(1) [of c] assms(14) by (simp add: credit_def)
    qed (use m1(3) in simp)
    then show ?thesis using v(1) [of c] o2 False by (simp add: vw credit_def)
  qed
  then have bals: "stored_balances vw = credit b y (credit a x bal)" by (simp add: stored_balances_def fun_eq_iff)
  then have "\<not> holds_balances vw bal'" for bal'
    using after assms(14) by (auto simp: holds_balances_iff)
  with bals after show ?thesis by blast
qed

section \<open>Key-value store and counter\<close>

context guest_memory begin

lemma key_value_set_ends:
  assumes "hs_input hs = u16_to_be_bytes (of_nat (length key)) @ key @ val" "length (hs_input hs) \<le> BUFFER_SIZE"
    and "(ucast opcode :: u16) = 1" "room 1 hs"
  shows "guest_ends gm base (key_value_dispatch gm opcode len g) hs (\<lambda>v hs'. v = 0
    \<and> host_view base hs' = (if length key \<le> 256 then (host_view base hs)(key := Some val) else host_view base hs))"
    (is "guest_ends gm base _ hs ?Q")
  unfolding key_value_dispatch_def
proof (rule ends_read_input)
  fix g
  obtain a b where ab: "u16_to_be_bytes (of_nat (length key)) = [a, b]"
    using length_int_bytes(1) [of "of_nat (length key)"] by (auto simp: length_Suc_conv numeral_2_eq_2 simp del: length_int_bytes)
  have len: "length key < 65536" using assms(1,2) by (simp add: BUFFER_SIZE_def)
  have "u16_from_be_bytes [a, b] = of_nat (length key)" by (simp flip: ab)
  then have n: "unat (u16_from_be_bytes [a, b]) = length key"
    using len by (simp add: unsigned_of_nat take_bit_nat_eq_self)
  have in': "take BUFFER_SIZE (hs_input hs) = a # b # key @ val" using assms(1,2) by (simp add: ab)
  have "guest_ends gm base (sdk_set gm key val (\<lambda>_. guest_return gm 0) g) hs ?Q"
  proof (rule ends_set)
    show "length key \<le> BUFFER_SIZE" "length val \<le> BUFFER_SIZE" using assms(1,2) by simp_all
  qed (use assms(1,2,4) in \<open>auto simp: can_set_def overlay_full_def room_def params BUFFER_SIZE_def\<close>)
  then show "guest_ends gm base ((let opc = ucast opcode :: u16 in
       if opc = 0x0001 then key_value_set gm (take BUFFER_SIZE (hs_input hs))
       else if opc = 0x0002 then
         sdk_get gm (take BUFFER_SIZE (hs_input hs)) (\<lambda>v. case v of
             Some v \<Rightarrow> sdk_write_output gm v (\<lambda>_. guest_return gm 0)
           | None \<Rightarrow> guest_return gm (-1))
       else if opc = 0x0003 then sdk_delete gm (take BUFFER_SIZE (hs_input hs)) (\<lambda>_. guest_return gm 0)
       else guest_return gm (-1)) g) hs ?Q"
    by (simp add: assms(3) Let_def in' key_value_set_def n slice_def)
qed

lemma key_value_get_ends:
  assumes "length (hs_input hs) \<le> BUFFER_SIZE" "(ucast opcode :: u16) = 2" "small_values (host_view base hs)"
  shows "guest_ends gm base (key_value_dispatch gm opcode len g) hs (\<lambda>v hs'.
    case host_view base hs (hs_input hs) of None \<Rightarrow> v = -1 \<and> hs' = hs | Some x \<Rightarrow> v = 0 \<and> hs' = hs\<lparr>hs_output := x\<rparr>)"
    (is "guest_ends gm base _ hs ?Q")
  unfolding key_value_dispatch_def
proof (rule ends_read_input)
  fix g
  have "guest_ends gm base (sdk_get gm (hs_input hs) (\<lambda>v. case v of
             Some v \<Rightarrow> sdk_write_output gm v (\<lambda>_. guest_return gm 0)
           | None \<Rightarrow> guest_return gm (-1)) g) hs ?Q"
  proof (rule ends_get [OF assms(1,3)])
    fix g
    show "guest_ends gm base ((case host_view base hs (hs_input hs) of
             Some v \<Rightarrow> sdk_write_output gm v (\<lambda>_. guest_return gm 0)
           | None \<Rightarrow> guest_return gm (-1)) g) hs ?Q"
    proof (cases "host_view base hs (hs_input hs)")
      case (Some x)
      then have "length x \<le> unat MAX_RETURN_DATA_BYTES"
        using assms(3) by (auto simp: small_values_def params BUFFER_SIZE_def)
      then have "guest_ends gm base (sdk_write_output gm x (\<lambda>_. guest_return gm 0) g) hs (\<lambda>v hs'. v = 0 \<and> hs' = hs\<lparr>hs_output := x\<rparr>)"
        by (rule ends_write_output) simp
      then show ?thesis by (simp add: Some)
    qed simp
  qed
  then show "guest_ends gm base ((let opc = ucast opcode :: u16 in
       if opc = 0x0001 then key_value_set gm (take BUFFER_SIZE (hs_input hs))
       else if opc = 0x0002 then
         sdk_get gm (take BUFFER_SIZE (hs_input hs)) (\<lambda>v. case v of
             Some v \<Rightarrow> sdk_write_output gm v (\<lambda>_. guest_return gm 0)
           | None \<Rightarrow> guest_return gm (-1))
       else if opc = 0x0003 then sdk_delete gm (take BUFFER_SIZE (hs_input hs)) (\<lambda>_. guest_return gm 0)
       else guest_return gm (-1)) g) hs ?Q"
    using assms(1) by (simp add: assms(2) Let_def)
qed

end

text \<open>C32. What a \<open>set\<close> call of the key-value contract stores is what a later \<open>get\<close> call returns, for
  every value that fits the input and keys up to 256 bytes. A longer key is refused by the
  host, but the contract ignores that: the call still returns 0, nothing is stored, and the
  \<open>get\<close> answers what was there before.\<close>

theorem key_value_set_get:
  assumes "guest_memory gm" "small_values (base cid)"
    and "cc_contract_id put = cid" "cc_opcode put = 1" "cc_contract_id query = cid" "cc_opcode query = 2"
    and "cc_input put = u16_to_be_bytes (of_nat (length key)) @ key @ val" "cc_input query = key"
    and "length (cc_input put) \<le> BUFFER_SIZE"
  shows "guest_ends gm base (key_value_dispatch gm (ucast (cc_opcode put)) len g) (initial_host put) (\<lambda>v hs.
    v = 0
    \<and> (length key \<le> 256 \<longrightarrow> host_view base hs = (base cid)(key := Some val))
    \<and> (length key > 256 \<longrightarrow> host_view base hs = base cid)
    \<and> guest_ends gm (base(cid := host_view base hs)) (key_value_dispatch gm (ucast (cc_opcode query)) len' g')
        (initial_host query) (\<lambda>v hs'.
          case (if length key \<le> 256 then Some val else base cid key) of
            None \<Rightarrow> v = -1
          | Some x \<Rightarrow> v = 0 \<and> hs_output hs' = x))"
proof -
  have fits: "length val \<le> BUFFER_SIZE" "length key \<le> BUFFER_SIZE" using assms(7,9) by simp_all
  have read: "guest_ends gm base' (key_value_dispatch gm (ucast (cc_opcode query)) len' g') (initial_host query)
      (\<lambda>v hs'. case base' cid key of None \<Rightarrow> v = -1 | Some x \<Rightarrow> v = 0 \<and> hs_output hs' = x)"
    if "small_values (base' cid)" for base'
    using guest_memory.key_value_get_ends [OF assms(1), of "initial_host query" "ucast (cc_opcode query)" base' len' g']
      that assms(5,6,8) fits(2) by (auto elim!: ends_mono split: option.splits)
  have "guest_ends gm base (key_value_dispatch gm (ucast (cc_opcode put)) len g) (initial_host put) (\<lambda>v hs. v = 0
      \<and> host_view base hs = (if length key \<le> 256 then (base cid)(key := Some val) else base cid))"
    using guest_memory.key_value_set_ends [OF assms(1), of "initial_host put" key val "ucast (cc_opcode put)" base len g]
      assms(3,4,7,9) by (simp cong: if_cong split del: if_split)
  then show ?thesis
  proof (rule ends_mono)
    fix v hs
    assume put: "v = 0 \<and> host_view base hs = (if length key \<le> 256 then (base cid)(key := Some val) else base cid)"
    have "small_values (host_view base hs)" using put assms(2) fits(1) by simp
    then show "v = 0
      \<and> (length key \<le> 256 \<longrightarrow> host_view base hs = (base cid)(key := Some val))
      \<and> (length key > 256 \<longrightarrow> host_view base hs = base cid)
      \<and> guest_ends gm (base(cid := host_view base hs)) (key_value_dispatch gm (ucast (cc_opcode query)) len' g')
        (initial_host query) (\<lambda>v hs'.
          case (if length key \<le> 256 then Some val else base cid key) of
            None \<Rightarrow> v = -1
          | Some x \<Rightarrow> v = 0 \<and> hs_output hs' = x)"
      using read [of "base(cid := host_view base hs)"] put by (cases "length key \<le> 256") simp_all
  qed
qed

definition demo_put :: call_context where
  "demo_put = demo_initialize\<lparr>cc_input := [0, 1, 5, 6, 7]\<rparr>"

lemma key_value_set_get_witness:
  "\<exists>hs fuel. interpret_run (\<lambda>_ _. None) (key_value_dispatch flat_guest 1 5 ()) (initial_host demo_put)
      = Some (EndReturned 0 hs fuel)
    \<and> host_view (\<lambda>_ _. None) hs [5] = Some [6, 7]"
proof -
  let ?query = "demo_put\<lparr>cc_opcode := 2, cc_input := [5]\<rparr>"
  have small: "small_values ((\<lambda>_ _. None) (fill32 1))" by (simp add: small_values_def)
  have ctx: "cc_contract_id demo_put = fill32 1" "cc_opcode demo_put = 1" "cc_contract_id ?query = fill32 1"
    "cc_opcode ?query = 2" "cc_input demo_put = u16_to_be_bytes (of_nat (length [5::u8])) @ [5] @ [6, 7]"
    "cc_input ?query = [5]" "length (cc_input demo_put) \<le> BUFFER_SIZE"
    by (simp_all add: demo_put_def demo_initialize_def u16_to_be_bytes_def BUFFER_SIZE_def)
  note ends = key_value_set_get [OF flat.guest_memory_axioms small ctx, of 5 "()" 1 "()"]
  obtain v hs fuel where "interpret_run (\<lambda>_ _. None) (key_value_dispatch flat_guest (ucast (cc_opcode demo_put)) 5 ())
      (initial_host demo_put) = Some (EndReturned v hs fuel)" "v = 0" "host_view (\<lambda>_ _. None) hs = (\<lambda>_. None)([5] := Some [6, 7])"
    by (rule flat_returns [OF ends]) simp
  then show ?thesis using ctx(2) by (intro exI [of _ hs] exI [of _ fuel]) simp
qed

context guest_memory begin

text \<open>The counter: \<open>increment\<close> wraps around at \<open>2 ^ 64\<close>, \<open>get\<close> returns the value, \<open>initialize\<close> sets it.\<close>

lemma counter_ends:
  assumes "small_values (host_view base hs)" "room 1 hs"
  defines "value \<equiv> counter_value (host_view base hs COUNTER_KEY)"
  shows "guest_ends gm base (counter_dispatch gm opcode len g) hs (\<lambda>v hs'.
    if (ucast opcode :: u16) = 1 then v = 0 \<and> counter_value (host_view base hs' COUNTER_KEY) = value + 1
    else if (ucast opcode :: u16) = 2 then v = 0 \<and> hs_output hs' = u64_to_bytes value \<and> host_view base hs' = host_view base hs
    else if (ucast opcode :: u16) = 3 \<and> length (hs_input hs) \<ge> 8
    then v = 0 \<and> counter_value (host_view base hs' COUNTER_KEY) = u64_from_be_bytes (take 8 (hs_input hs))
    else v = -1 \<and> hs' = hs)"
proof -
  have key: "length COUNTER_KEY = 7" by (simp add: COUNTER_KEY_def ascii_def)
  have enc: "counter_value (Some (u64_to_bytes w)) = w" "length (u64_to_bytes w) = 8" for w
    by (simp_all add: counter_value_def bytes_to_u64_def u64_to_bytes_def)
  have "length (take BUFFER_SIZE (hs_input hs)) < 8 \<longleftrightarrow> length (hs_input hs) < 8"
    "take 8 (take BUFFER_SIZE (hs_input hs)) = take 8 (hs_input hs)"
    by (auto simp: BUFFER_SIZE_def min_def)
  then show ?thesis
    using assms(1,2) key enc unfolding counter_dispatch_def Let_def value_def
    by (auto simp: bytes_to_u64_def not_less BUFFER_SIZE_def params
        intro!: ends_get ends_put [of 0] ends_write_output ends_read_input)
qed

end

end
