(* ===== verification/Testkit.thy ===== *)
theory Testkit
  imports Pipeline
begin

text \<open>
  The test harness (\<open>zalkanes-testkit/src/lib.rs\<close>): a chain of synthetic blocks over \<open>MemoryState\<close>,
  run through the block processor of \<open>Indexer\<close>. \<open>None\<close> is a panic of the host or of an assertion.
\<close>

section \<open>Scripts\<close>

definition encode_push :: "bytes \<Rightarrow> bytes" where
  "encode_push data =
     (let n = length data in
      if n \<le> 75 then [of_nat n] @ data
      else if n \<le> 0xff then [0x4c, of_nat n] @ data
      else [0x4d] @ u16_to_le_bytes (of_nat n) @ data)"

definition testkit_op_return :: "bytes \<Rightarrow> bytes" where
  "testkit_op_return data = [0x6a] @ encode_push data"

definition encode_coinbase_script :: "u32 \<Rightarrow> bytes" where
  "encode_coinbase_script height =
     (let h = ucast height :: u64 in
      if h = 0 then [0x00]
      else
        let bytes = u64_to_be_bytes h;
            zeros = length (takeWhile (\<lambda>b. b = 0) bytes);
            first = (if zeros < 8 then zeros else 7);
            len = 8 - first in
        [of_nat len] @ drop first bytes)"

definition encode_carrier_script_sig :: "u8 \<Rightarrow> bytes \<Rightarrow> bytes" where
  "encode_carrier_script_sig index data = [0x01, index] @ encode_push data @ [0x01, 0x30, 0x01, 0x51]"

section \<open>The chain\<close>

record test_chain =
  tc_state :: memory_state
  tc_height :: u32
  tc_network :: network

datatype testkit_error =
    WasmValidation invalid_module
  | ProcessBlock string index_error
  | CommitEmpty state_error
  | ViewTrapped trap_reason
  | ViewFuelExhausted
  | ViewInvalidModule invalid_module
  | ViewNotFound

definition tk_new :: test_chain where
  "tk_new = \<lparr>tc_state = memory_new, tc_height = 0, tc_network = Regtest\<rparr>"

definition tk_config :: "test_chain \<Rightarrow> indexer_config" where
  "tk_config chain =
     \<lparr>ic_network = tc_network chain, ic_data_dir = ''/tmp/zalkanes-test'', ic_regtest_activation_override = None\<rparr>"

definition tk_state_root :: "blake \<Rightarrow> test_chain \<Rightarrow> state_root" where
  "tk_state_root blake chain = mem_compute_root blake (tc_state chain)"

definition synthetic_txid :: "sha \<Rightarrow> u32 \<Rightarrow> u32 \<Rightarrow> tx_id" where
  "synthetic_txid sha height tx_index = sha (u32_to_be_bytes height @ u32_to_be_bytes tx_index)"

definition synthetic_hash :: "sha \<Rightarrow> u32 \<Rightarrow> block_hash" where
  "synthetic_hash sha height = sha (u32_to_be_bytes height)"

definition deploy_parsed_block :: "sha \<Rightarrow> test_chain \<Rightarrow> tx_id \<Rightarrow> bytes \<Rightarrow> chunk list \<Rightarrow> parsed_block" where
  "deploy_parsed_block sha chain txid op_return chunks =
     (let height = tc_height chain + 1;
          inputs = (0, encode_coinbase_script height)
            # map (\<lambda>(i, c). (of_nat (i + 1), encode_carrier_script_sig (ch_index c) (ch_data c))) (enumerate 0 chunks) in
      \<lparr>pb_height = height, pb_hash = synthetic_hash sha height,
       pb_transactions = [\<lparr>px_txid = txid, px_outputs = [(0, testkit_op_return op_return), (1, [0x51])],
                           px_inputs = inputs\<rparr>]\<rparr>)"

definition call_parsed_block :: "sha \<Rightarrow> test_chain \<Rightarrow> tx_id \<Rightarrow> bytes \<Rightarrow> parsed_block" where
  "call_parsed_block sha chain txid op_return =
     (let height = tc_height chain + 1 in
      \<lparr>pb_height = height, pb_hash = synthetic_hash sha height,
       pb_transactions = [\<lparr>px_txid = txid, px_outputs = [(0, testkit_op_return op_return)],
                           px_inputs = [(0, encode_coinbase_script height)]\<rparr>]\<rparr>)"

text \<open>The end of every operation that mines: the height moves, and the block is processed.\<close>

definition mine_block ::
    "'m node_lib \<Rightarrow> string \<Rightarrow> parsed_block \<Rightarrow> test_chain \<Rightarrow> (test_chain \<times> (testkit_error, unit) result) option" where
  "mine_block lib what parsed chain =
     (let chain = chain\<lparr>tc_height := tc_height chain + 1\<rparr> in
      map_option (\<lambda>(st, r).
          (chain\<lparr>tc_state := st\<rparr>, and_then (map_err (ProcessBlock what) r) (\<lambda>_. Ok ())))
        (process_parsed_block lib (memory_ops (nl_blake lib)) (tk_config chain) parsed (tc_state chain)))"

definition tk_deploy ::
    "'m node_lib \<Rightarrow> bytes \<Rightarrow> test_chain \<Rightarrow> (test_chain \<times> (testkit_error, contract_id) result) option" where
  "tk_deploy lib wasm chain =
     (case validate_module (nl_engine lib) wasm of
        Err e \<Rightarrow> Some (chain, Err (WasmValidation e))
      | Ok _ \<Rightarrow>
          let code_hash = nl_sha lib wasm;
              txid = synthetic_txid (nl_sha lib) (tc_height chain) 0;
              contract_id = derive_contract_id (nl_blake lib) (tc_network chain) txid 0 code_hash in
          Option.bind (split_payload wasm 4096) (\<lambda>chunks.
            let msg = \<lparr>dm_code_hash = code_hash, dm_code_length = of_nat (length wasm),
                       dm_chunk_count = of_nat (length chunks), dm_output_index = 0\<rparr>;
                parsed = deploy_parsed_block (nl_sha lib) chain txid (encode_deploy msg) chunks in
            map_option (\<lambda>(chain', r). (chain', and_then r (\<lambda>_. Ok contract_id)))
              (mine_block lib ''process deploy block'' parsed chain)))"

definition tk_call ::
    "'m node_lib \<Rightarrow> contract_id \<Rightarrow> u16 \<Rightarrow> bytes \<Rightarrow> test_chain \<Rightarrow> (test_chain \<times> (testkit_error, unit) result) option" where
  "tk_call lib cid opcode input chain =
     (let txid = synthetic_txid (nl_sha lib) (tc_height chain) 1;
          msg = \<lparr>cm_contract_id = cid, cm_opcode = opcode, cm_input = input\<rparr> in
      mine_block lib ''process call block'' (call_parsed_block (nl_sha lib) chain txid (encode_call msg)) chain)"

definition tk_raw_message_block ::
    "'m node_lib \<Rightarrow> bytes \<Rightarrow> test_chain \<Rightarrow> (test_chain \<times> (testkit_error, unit) result) option" where
  "tk_raw_message_block lib payload chain =
     (let txid = synthetic_txid (nl_sha lib) (tc_height chain) 1 in
      mine_block lib ''process raw block'' (call_parsed_block (nl_sha lib) chain txid payload) chain)"

definition tk_multi_call_block ::
    "'m node_lib \<Rightarrow> (contract_id \<times> u16 \<times> bytes) list \<Rightarrow> test_chain \<Rightarrow> (test_chain \<times> (testkit_error, unit) result) option" where
  "tk_multi_call_block lib calls chain =
     (let height = tc_height chain + 1;
          transactions = map (\<lambda>(i, (cid, opcode, input)).
            let msg = \<lparr>cm_contract_id = cid, cm_opcode = opcode, cm_input = input\<rparr> in
            \<lparr>px_txid = synthetic_txid (nl_sha lib) (tc_height chain) (of_nat (i + 1)),
             px_outputs = [(0, testkit_op_return (encode_call msg))],
             px_inputs = [(0, encode_coinbase_script height)]\<rparr>) (enumerate 0 calls) in
      mine_block lib ''process multi-call block''
        \<lparr>pb_height = height, pb_hash = synthetic_hash (nl_sha lib) height, pb_transactions = transactions\<rparr> chain)"

definition tk_mine_empty_block :: "'m node_lib \<Rightarrow> test_chain \<Rightarrow> test_chain \<times> (testkit_error, unit) result" where
  "tk_mine_empty_block lib chain =
     (let height = tc_height chain + 1;
          (st, r) = mem_commit_block (nl_blake lib) (tc_state chain) (empty_commit height (synthetic_hash (nl_sha lib) height)) in
      (chain\<lparr>tc_height := height, tc_state := st\<rparr>, and_then (map_err CommitEmpty r) (\<lambda>_. Ok ())))"

fun view_outcome :: "call_result \<Rightarrow> (testkit_error, bytes) result" where
  "view_outcome (Success output fuel_used writes) = Ok output"
| "view_outcome (Trap reason fuel_used) = Err (ViewTrapped reason)"
| "view_outcome (FuelExhausted fuel_used) = Err ViewFuelExhausted"
| "view_outcome (InvalidModule reason) = Err (ViewInvalidModule reason)"
| "view_outcome ContractNotFound = Err ViewNotFound"

definition tk_view ::
    "'m node_lib \<Rightarrow> contract_id \<Rightarrow> u16 \<Rightarrow> bytes \<Rightarrow> test_chain \<Rightarrow> (testkit_error, bytes) result option" where
  "tk_view lib cid opcode input chain =
     map_option view_outcome
       (execute (nl_engine lib) (memory_ops (nl_blake lib))
         \<lparr>cc_contract_id = cid, cc_caller = None, cc_txid = mk32 (replicate 32 0), cc_block_height = tc_height chain,
          cc_opcode = opcode, cc_input = input, cc_fuel_limit = MAX_FUEL_PER_CALL, cc_depth = 0\<rparr>
         (tc_state chain))"

text \<open>A test is a sequence of operations whose results it may ignore.\<close>

datatype test_op =
    DoDeploy bytes
  | DoCall contract_id u16 bytes
  | DoRaw bytes
  | DoMultiCall "(contract_id \<times> u16 \<times> bytes) list"
  | DoEmpty

fun test_step :: "'m node_lib \<Rightarrow> test_op \<Rightarrow> test_chain \<Rightarrow> test_chain option" where
  "test_step lib (DoDeploy wasm) chain = map_option fst (tk_deploy lib wasm chain)"
| "test_step lib (DoCall cid opcode input) chain = map_option fst (tk_call lib cid opcode input chain)"
| "test_step lib (DoRaw payload) chain = map_option fst (tk_raw_message_block lib payload chain)"
| "test_step lib (DoMultiCall calls) chain = map_option fst (tk_multi_call_block lib calls chain)"
| "test_step lib DoEmpty chain = Some (fst (tk_mine_empty_block lib chain))"

fun run_test :: "'m node_lib \<Rightarrow> test_op list \<Rightarrow> test_chain \<Rightarrow> test_chain option" where
  "run_test lib [] chain = Some chain"
| "run_test lib (op # ops) chain = Option.bind (test_step lib op chain) (run_test lib ops)"

section \<open>The scripts read back\<close>

lemma encode_push_data: "length d \<le> 0xffff \<Longrightarrow> encode_push d = push_data d"
proof -
  assume len: "length d \<le> 0xffff"
  have "u16_to_le_bytes (of_nat (length d)) = [of_nat (length d mod 256), of_nat (length d div 256)]"
    using len by (simp add: u16_to_le_bytes_def unat_of_nat numeral_2_eq_2 less_mult_imp_div_less)
  then show "encode_push d = push_data d"
    by (auto simp: encode_push_def push_data_def Let_def)
qed

lemma testkit_op_return_script: "length d \<le> 0xffff \<Longrightarrow> testkit_op_return d = op_return_script d"
  by (simp add: testkit_op_return_def op_return_script_def encode_push_data)

text \<open>The coinbase input is one push, so it carries no chunk.\<close>

lemma coinbase_no_chunk: "chunk_from_script_sig (encode_coinbase_script h) = None"
proof (cases "h = 0")
  case True
  have "parse_script_pushes [0] = [[]]"
    by (simp add: parse_script_pushes.simps parse_push_def)
  then show ?thesis
    by (simp add: True encode_coinbase_script_def chunk_from_script_sig_def)
next
  case False
  define f where "f = (let n = length (takeWhile (\<lambda>b. b = 0) (u64_to_be_bytes (ucast h))) in if n < 8 then n else 7)"
  have f: "f \<le> 7" by (auto simp: f_def Let_def)
  have "unat (ucast h :: u64) = unat h"
    by simp
  then have nz: "(ucast h :: u64) \<noteq> 0" using False by (metis unat_0 unat_eq_zero)
  have "encode_coinbase_script h = push_data (drop f (u64_to_be_bytes (ucast h)))"
    using f nz by (simp add: encode_coinbase_script_def push_data_def Let_def flip: f_def [unfolded Let_def])
  moreover have "parse_script_pushes (push_data (drop f (u64_to_be_bytes (ucast h)))) = [drop f (u64_to_be_bytes (ucast h))]"
    using parse_script_pushes_push_data [of "drop f (u64_to_be_bytes (ucast h))" "[]"] by simp
  ultimately show ?thesis by (simp add: chunk_from_script_sig_def)
qed

lemma carrier_input_chunk:
  assumes "length d \<le> 0xffff"
  shows "chunk_from_script_sig (encode_carrier_script_sig i d) = Some (i, d)"
proof -
  have one: "[0x01, x] = push_data [x]" for x by (simp add: push_data_def)
  have "encode_carrier_script_sig i d = push_data [i] @ push_data d @ push_data [0x30] @ push_data [0x51]"
    using one by (simp add: encode_carrier_script_sig_def encode_push_data [OF assms])
  moreover have "parse_script_pushes (push_data [0x51]) = [[0x51]]"
    using parse_script_pushes_push_data [of "[0x51]" "[]"] by simp
  ultimately have "parse_script_pushes (encode_carrier_script_sig i d) = [[i], d, [0x30], [0x51]]"
    using assms by (simp add: parse_script_pushes_push_data)
  then show ?thesis by (simp add: chunk_from_script_sig_def slice_def)
qed

lemma map_filter_Some: "(\<And>x. x \<in> set xs \<Longrightarrow> f x = Some (g x)) \<Longrightarrow> List.map_filter f xs = map g xs"
  by (induction xs) (simp_all add: map_filter_simps)

lemma deploy_block_chunks:
  assumes "pb_transactions (deploy_parsed_block sha chain txid op_return chunks) = [px]"
    and "\<forall>c \<in> set chunks. length (ch_data c) \<le> 0xffff"
  shows "carrier_chunks px = chunks"
proof -
  let ?g = "\<lambda>(i, c). (of_nat (i + 1) :: u32, encode_carrier_script_sig (ch_index c) (ch_data c))"
  let ?f = "\<lambda>(idx, script_sig).
         map_option (\<lambda>(index, data). \<lparr>ch_index = index, ch_data = data\<rparr>) (chunk_from_script_sig script_sig)"
  have px: "px_inputs px = (0, encode_coinbase_script (tc_height chain + 1)) # map ?g (enumerate 0 chunks)"
    using assms(1) by (auto simp: deploy_parsed_block_def Let_def)
  have "List.map_filter (?f \<circ> ?g) (enumerate 0 chunks) = map snd (enumerate 0 chunks)"
    using assms(2) by (intro map_filter_Some) (auto simp: carrier_input_chunk enumerate_eq_zip dest: set_zip_rightD)
  then have "List.map_filter ?f (map ?g (enumerate 0 chunks)) = chunks"
    by (simp add: map_filter_map)
  then show ?thesis
    by (simp add: carrier_chunks_def px map_filter_simps coinbase_no_chunk)
qed

end
