(* ===== verification/Testkit_Props.thy ===== *)
theory Testkit_Props
  imports Testkit
begin

text \<open>Whatever a test does, the chain of the harness is a chain of the store's ledger, and what it
  deploys is deployed.\<close>

section \<open>Following the ledger\<close>

definition test_history :: "sha \<Rightarrow> nat \<Rightarrow> (u32 \<times> block_hash) list" where
  "test_history sha n = map (\<lambda>i. (of_nat i, synthetic_hash sha (of_nat i))) [1 ..< Suc n]"

definition tk_rel :: "sha \<Rightarrow> test_chain \<Rightarrow> ledger \<Rightarrow> bool" where
  "tk_rel sha chain lg \<longleftrightarrow>
     mem_rel (tc_state chain) lg \<and> tc_network chain = Regtest
     \<and> map (\<lambda>r. (hr_height r, hr_hash r)) (spec_history lg) = test_history sha (unat (tc_height chain))"

lemma spec_last_history: "spec_last lg = (if spec_history lg = [] then None else Some (last (spec_history lg)))"
  by (cases "lg_blocks lg") (auto simp: spec_last_def spec_history_def)

lemma tk_next_height:
  assumes "tk_rel sha chain lg" "unat (tc_height chain) < 2 ^ 32 - 1"
  shows "next_height lg (tc_height chain + 1)" "unat (tc_height chain + 1) = Suc (unat (tc_height chain))"
proof -
  show suc: "unat (tc_height chain + 1) = Suc (unat (tc_height chain))"
    using assms(2) by (simp add: unat_plus_if')
  have h: "map (\<lambda>r. (hr_height r, hr_hash r)) (spec_history lg) = test_history sha (unat (tc_height chain))"
    using assms(1) by (simp add: tk_rel_def)
  have "hr_height (last (spec_history lg)) = tc_height chain" if "spec_history lg \<noteq> []"
  proof -
    have "(hr_height (last (spec_history lg)), hr_hash (last (spec_history lg)))
        = last (test_history sha (unat (tc_height chain)))"
      using that by (simp add: last_map flip: h)
    moreover have "unat (tc_height chain) \<noteq> 0"
      using h that by (cases "unat (tc_height chain) = 0") (auto simp: test_history_def)
    ultimately show ?thesis by (simp add: test_history_def)
  qed
  then show "next_height lg (tc_height chain + 1)"
    using suc by (simp add: next_height_def spec_last_history word_less_nat_alt)
qed

lemma tk_rel_commit:
  assumes "tk_rel sha chain lg" "unat (tc_height chain) < 2 ^ 32 - 1"
    and "bc_height c = tc_height chain + 1" "bc_hash c = synthetic_hash sha (tc_height chain + 1)"
    and "mem_rel st (spec_commit blake c lg)"
  shows "tk_rel sha (chain\<lparr>tc_height := tc_height chain + 1, tc_state := st\<rparr>) (spec_commit blake c lg)"
  using assms tk_next_height(2) [OF assms(1,2)]
  by (simp add: tk_rel_def test_history_def spec_history_def spec_commit_def Let_def add.commute)

lemma mine_block_lands:
  assumes rel: "tk_rel (nl_sha lib) chain lg" "unat (tc_height chain) < 2 ^ 32 - 1"
    and block: "pb_height parsed = tc_height chain + 1"
      "pb_hash parsed = synthetic_hash (nl_sha lib) (tc_height chain + 1)"
    and run: "process_transactions lib (memory_ops (nl_blake lib)) (tc_state chain) (tk_config chain)
      (pb_transactions parsed) (start_block (pb_height parsed) (pb_hash parsed)) = Some p"
  shows "\<exists>st. mine_block lib what parsed chain = Some (chain\<lparr>tc_height := tc_height chain + 1, tc_state := st\<rparr>, Ok ())
    \<and> mem_rel st (spec_commit (nl_blake lib) (pg_commit p) lg)
    \<and> tk_rel (nl_sha lib) (chain\<lparr>tc_height := tc_height chain + 1, tc_state := st\<rparr>)
        (spec_commit (nl_blake lib) (pg_commit p) lg)"
proof -
  have mem: "mem_rel (tc_state chain) lg" and net: "tc_network chain = Regtest"
    using rel(1) by (simp_all add: tk_rel_def)
  have "tc_height chain + 1 \<noteq> 0"
    using tk_next_height(2) [OF rel] by (metis nat.distinct(1) unat_0)
  then have act: "activation_height (tk_config chain) = Some 1" "\<not> pb_height parsed < 1"
    using net block by (simp_all add: activation_height_def tk_config_def params not_less)
  have header: "bc_height (pg_commit p) = tc_height chain + 1"
      "bc_hash (pg_commit p) = synthetic_hash (nl_sha lib) (tc_height chain + 1)"
    using header_transactions [OF run] block by (simp_all add: header_inv_def)
  obtain st1 where st1: "mem_commit_block (nl_blake lib) (tc_state chain) (pg_commit p)
      = (st1, Ok (contents_root (nl_blake lib) (apply_commit (pg_commit p) (lg_contents lg))))"
    "mem_rel st1 (spec_commit (nl_blake lib) (pg_commit p) lg)"
    using mem_commit_rel [OF mem] tk_next_height(1) [OF rel] header(1) by metis
  obtain st2 where st2: "mem_save_executions st1 (pg_executions p) = (st2, Ok ())"
    by (simp add: mem_save_executions_def)
  have "so_save_executions (memory_ops (nl_blake lib)) st1 (pg_executions p) = (st2, Ok ())"
    using st2 by (simp add: memory_ops_def)
  from mem.save [OF st1(2) this] have rel2: "mem_rel st2 (spec_commit (nl_blake lib) (pg_commit p) lg)" .
  have "mine_block lib what parsed chain = Some (chain\<lparr>tc_height := tc_height chain + 1, tc_state := st2\<rparr>, Ok ())"
    using act run st1(1) st2
    by (simp add: mine_block_def process_parsed_block_def tk_config_def commit_progress_def memory_ops_def Let_def)
  with rel2 tk_rel_commit [OF rel header rel2] show ?thesis by blast
qed

lemma mine_block_rel:
  assumes "tk_rel (nl_sha lib) chain lg" "unat (tc_height chain) < 2 ^ 32 - 1"
    and "pb_height parsed = tc_height chain + 1" "pb_hash parsed = synthetic_hash (nl_sha lib) (tc_height chain + 1)"
    and "mine_block lib what parsed chain = Some (chain', r)"
  shows "r = Ok () \<and> tc_height chain' = tc_height chain + 1 \<and> (\<exists>lg'. tk_rel (nl_sha lib) chain' lg')"
proof -
  have "tc_network chain = Regtest" using assms(1) by (simp add: tk_rel_def)
  moreover have "tc_height chain + 1 \<noteq> 0"
    using tk_next_height(2) [OF assms(1,2)] by (metis nat.distinct(1) unat_0)
  ultimately obtain p where "process_transactions lib (memory_ops (nl_blake lib)) (tc_state chain) (tk_config chain)
      (pb_transactions parsed) (start_block (pb_height parsed) (pb_hash parsed)) = Some p"
    using assms(3,5)
    by (auto simp: mine_block_def process_parsed_block_def activation_height_def tk_config_def params
        Let_def not_less split: if_splits)
  from mine_block_lands [OF assms(1-4) this, of what] assms(5) show ?thesis by auto
qed

lemma tk_deploy_rel:
  assumes "tk_rel (nl_sha lib) chain lg" "unat (tc_height chain) < 2 ^ 32 - 1"
    and "tk_deploy lib wasm chain = Some (chain', r)"
  shows "(\<exists>lg'. tk_rel (nl_sha lib) chain' lg') \<and> unat (tc_height chain') \<le> Suc (unat (tc_height chain))"
proof (cases "validate_module (nl_engine lib) wasm")
  case (Inl e)
  then show ?thesis using assms by (auto simp: tk_deploy_def)
next
  case (Inr u)
  then obtain parsed r' where "mine_block lib ''process deploy block'' parsed chain = Some (chain', r')"
    "pb_height parsed = tc_height chain + 1" "pb_hash parsed = synthetic_hash (nl_sha lib) (tc_height chain + 1)"
    using assms(3) by (auto simp: tk_deploy_def Let_def split_payload_def deploy_parsed_block_def)
  from mine_block_rel [OF assms(1,2) this(2,3,1)] tk_next_height(2) [OF assms(1,2)] show ?thesis by simp
qed

lemma test_step_rel:
  assumes "tk_rel (nl_sha lib) chain lg" "unat (tc_height chain) < 2 ^ 32 - 1"
    and "test_step lib op chain = Some chain'"
  shows "(\<exists>lg'. tk_rel (nl_sha lib) chain' lg') \<and> unat (tc_height chain') \<le> Suc (unat (tc_height chain))"
proof (cases op)
  case (DoDeploy wasm)
  then show ?thesis using assms(3) tk_deploy_rel [OF assms(1,2)] by auto
next
  case DoEmpty
  let ?c = "empty_commit (tc_height chain + 1) (synthetic_hash (nl_sha lib) (tc_height chain + 1))"
  have "mem_rel (tc_state chain) lg" using assms(1) by (simp add: tk_rel_def)
  moreover have "next_height lg (bc_height ?c)"
    using tk_next_height(1) [OF assms(1,2)] by (simp add: empty_commit_def)
  ultimately obtain st where "mem_commit_block (nl_blake lib) (tc_state chain) ?c
      = (st, Ok (contents_root (nl_blake lib) (apply_commit ?c (lg_contents lg))))"
    "mem_rel st (spec_commit (nl_blake lib) ?c lg)"
    using mem_commit_rel by metis
  with tk_rel_commit [OF assms(1,2), of ?c st "nl_blake lib"] assms(3) tk_next_height(2) [OF assms(1,2)] show ?thesis
    by (auto simp: DoEmpty tk_mine_empty_block_def Let_def empty_commit_def)
qed (use assms(3) tk_next_height(2) [OF assms(1,2)] in
  \<open>auto simp: tk_call_def tk_raw_message_block_def tk_multi_call_block_def call_parsed_block_def Let_def
    dest!: mine_block_rel [OF assms(1,2), rotated 2]\<close>)

lemma run_test_rel:
  assumes "run_test lib ops chain = Some chain'" "tk_rel (nl_sha lib) chain lg"
    and "unat (tc_height chain) + length ops < 2 ^ 32"
  shows "(\<exists>lg'. tk_rel (nl_sha lib) chain' lg') \<and> unat (tc_height chain') \<le> unat (tc_height chain) + length ops"
  using assms
proof (induction ops arbitrary: chain lg)
  case (Cons op ops)
  then obtain chain1 where 1: "test_step lib op chain = Some chain1" "run_test lib ops chain1 = Some chain'"
    by (auto simp: bind_eq_Some_conv)
  have "unat (tc_height chain) < 2 ^ 32 - 1" using Cons.prems(3) by simp
  from test_step_rel [OF Cons.prems(2) this 1(1)] obtain lg1 where
    "tk_rel (nl_sha lib) chain1 lg1" "unat (tc_height chain1) \<le> Suc (unat (tc_height chain))" by blast
  with Cons.IH [OF 1(2)] Cons.prems(3) show ?case by fastforce
qed auto

lemma tk_rel_new: "tk_rel sha tk_new empty_ledger"
  using mem_rel_new by (simp add: tk_rel_def tk_new_def test_history_def spec_history_def empty_ledger_def)

section \<open>Deploying\<close>

lemma testkit_message:
  fixes sha :: sha
  assumes "wasm \<noteq> []" "length wasm \<le> 262144" "chunks = chunks_of 4096 wasm"
  defines "d \<equiv> \<lparr>dm_code_hash = sha wasm, dm_code_length = of_nat (length wasm),
      dm_chunk_count = of_nat (length chunks), dm_output_index = 0\<rparr>"
  shows "accepted_message (Deploy d)"
    "reconstruct sha (number_chunks chunks) (of_nat (length chunks)) (of_nat (length wasm)) (sha wasm) = Ok wasm"
proof -
  have "length chunks = (length wasm + 4095) div 4096"
    using length_chunks_of [of 4096 wasm] assms(3) by (simp add: div_ceil_def)
  then have n: "length chunks \<le> 64" "0 < length chunks"
    using assms(1,2) by (simp_all add: div_greater_zero_iff Suc_le_eq flip: length_greater_0_conv)
  have u: "unat (of_nat (length chunks) :: u8) = length chunks" "unat (of_nat (length wasm) :: u32) = length wasm"
    using n assms(2) by (simp_all add: unat_of_nat)
  have nz: "(of_nat (length chunks) :: u8) \<noteq> 0" "(0 :: u32) < of_nat (length wasm)"
    using u n assms(1) by (metis less_irrefl unat_0, simp add: word_less_nat_alt)
  then show "accepted_message (Deploy d)"
    using u assms(2) by (simp add: d_def word_le_nat_alt params)
  have "concat chunks = wasm" using assms(3) by (simp add: concat_chunks_of)
  then show "reconstruct sha (number_chunks chunks) (of_nat (length chunks)) (of_nat (length wasm)) (sha wasm) = Ok wasm"
    unfolding reconstruct_Ok_iff using u n nz assms(2)
    by (intro conjI exI [of _ chunks]) (simp_all add: word_le_nat_alt params)
qed

text \<open>What a test deploys is deployed: after any sequence of operations of the harness, deploying a
  module that validates succeeds with the contract id under which the store then holds exactly
  the module, if that id was free. No other contract and no storage changes; the chain's
  history is the synthetic blocks 1 to the new height, and its root is the persisted one.\<close>

theorem testkit_deploy_lands:
  assumes "run_test lib ops tk_new = Some chain" "length ops < 2 ^ 32 - 1"
    and "validate_module (nl_engine lib) wasm = Ok ()" "wasm \<noteq> []" "length wasm < 2 ^ 32"
    and "cid = derive_contract_id (nl_blake lib) Regtest (synthetic_txid (nl_sha lib) (tc_height chain) 0) 0 (nl_sha lib wasm)"
    and "om_get (ms_contracts (tc_state chain)) cid = None"
  shows "\<exists>chain'. tk_deploy lib wasm chain = Some (chain', Ok cid)
    \<and> om_get (ms_contracts (tc_state chain')) = (om_get (ms_contracts (tc_state chain)))(cid \<mapsto> (nl_sha lib wasm, wasm))
    \<and> ms_storage (tc_state chain') = ms_storage (tc_state chain)
    \<and> map (\<lambda>r. (hr_height r, hr_hash r)) (ms_history (tc_state chain')) = test_history (nl_sha lib) (unat (tc_height chain) + 1)
    \<and> ms_persisted_root (tc_state chain') = Some (tk_state_root (nl_blake lib) chain')"
proof -
  obtain lg where rel: "tk_rel (nl_sha lib) chain lg" "unat (tc_height chain) < 2 ^ 32 - 1"
    using run_test_rel [OF assms(1) tk_rel_new] assms(2) by (auto simp: tk_new_def)
  then have mem: "mem_rel (tc_state chain) lg" and net: "tc_network chain = Regtest" by (simp_all add: tk_rel_def)
  have small: "length wasm \<le> 262144"
    using assms(3,5) by (auto simp: validate_module_def word_le_nat_alt unat_of_nat params not_less split: if_splits)
  define chunks where "chunks = chunks_of 4096 wasm"
  define d where "d = \<lparr>dm_code_hash = nl_sha lib wasm, dm_code_length = of_nat (length wasm),
      dm_chunk_count = of_nat (length chunks), dm_output_index = 0\<rparr>"
  note msg = testkit_message [OF assms(4) small chunks_def, of "nl_sha lib", folded d_def]
  let ?txid = "synthetic_txid (nl_sha lib) (tc_height chain) 0"
  let ?block = "deploy_parsed_block (nl_sha lib) chain ?txid (encode_deploy d) (number_chunks chunks)"
  obtain px where px: "pb_transactions ?block = [px]" "px_txid px = ?txid"
    "px_outputs px = (0, op_return_script (encode_message (Deploy d))) # [(1, [0x51])]"
    by (simp add: deploy_parsed_block_def Let_def testkit_op_return_script encode_deploy_def params)
  have fits: "\<forall>c \<in> set (number_chunks chunks). length (ch_data c) \<le> 0xffff"
  proof
    fix c assume "c \<in> set (number_chunks chunks)"
    then have "ch_data c \<in> set (chunks_of 4096 wasm)" by (auto simp: set_number_chunks chunks_def)
    then show "length (ch_data c) \<le> 0xffff" using chunks_of_lengths [of "ch_data c" 4096 wasm] by simp
  qed
  have silent: "\<forall>(i, s) \<in> set [(1 :: u16, [0x51 :: 8 word])]. output_message s = None"
    by (simp add: output_message_def extract_op_return_data_def)
  have code: "reconstruct (nl_sha lib) (carrier_chunks px) (dm_chunk_count d) (dm_code_length d) (dm_code_hash d) = Ok wasm"
    using msg(2) by (simp add: deploy_block_chunks [OF px(1) fits] d_def)
  have cid: "cid = derive_contract_id (nl_blake lib) (ic_network (tk_config chain)) (px_txid px) 0 (dm_code_hash d)"
    using assms(6) net by (simp add: tk_config_def px(2) d_def)
  have free: "\<not> so_has_contract (memory_ops (nl_blake lib)) (tc_state chain) cid"
    using assms(7) by (simp add: memory_ops_def)
  have idx: "dm_output_index d = 0" and hash: "dm_code_hash d = nl_sha lib wasm" by (simp_all add: d_def)
  obtain q where q: "process_transactions lib (memory_ops (nl_blake lib)) (tc_state chain) (tk_config chain)
      (pb_transactions ?block) (start_block (pb_height ?block) (pb_hash ?block)) = Some q"
    "pg_commit q = (empty_commit (pb_height ?block) (pb_hash ?block))\<lparr>bc_deploys := [(cid, nl_sha lib wasm, wasm)]\<rparr>"
    using reconstructed_deploy_commit [OF px(3) silent msg(1) idx code cid free assms(3), of "pb_height ?block" "pb_hash ?block"]
    unfolding px(1) hash by blast
  have block: "pb_height ?block = tc_height chain + 1"
    "pb_hash ?block = synthetic_hash (nl_sha lib) (tc_height chain + 1)"
    by (simp_all add: deploy_parsed_block_def Let_def)
  obtain st where st: "mine_block lib ''process deploy block'' ?block chain
      = Some (chain\<lparr>tc_height := tc_height chain + 1, tc_state := st\<rparr>, Ok ())"
    "mem_rel st (spec_commit (nl_blake lib) (pg_commit q) lg)"
    "tk_rel (nl_sha lib) (chain\<lparr>tc_height := tc_height chain + 1, tc_state := st\<rparr>)
        (spec_commit (nl_blake lib) (pg_commit q) lg)"
    using mine_block_lands [OF rel block q(1)] by blast
  let ?chain' = "chain\<lparr>tc_height := tc_height chain + 1, tc_state := st\<rparr>"
  have "tk_deploy lib wasm chain = Some (?chain', Ok cid)"
    using st(1) assms(3,6) net by (simp add: tk_deploy_def split_payload_def Let_def d_def chunks_def)
  moreover have "lg_contents (spec_commit (nl_blake lib) (pg_commit q) lg) = apply_commit (pg_commit q) (lg_contents lg)"
    by (simp add: spec_commit_def Let_def)
  moreover have "apply_commit (pg_commit q) (lg_contents lg)
      = (om_insert cid (nl_sha lib wasm, wasm) (ms_contracts (tc_state chain)), ms_storage (tc_state chain))"
    using mem by (cases "lg_contents lg") (simp add: q(2) apply_commit_def empty_commit_def mem_rel_def)
  ultimately show ?thesis
    using st(2,3) tk_next_height(2) [OF rel]
    by (intro exI [of _ ?chain'])
      (auto simp: mem_rel_def tk_rel_def tk_state_root_def mem_compute_root_def contents_root_def)
qed

text \<open>A one-byte module is deployed after an empty block and an empty message.\<close>

end
