(* ===== verification/Shielded.thy ===== *)
theory Shielded
  imports Transparent
begin

text \<open>
  Shielded funding (\<open>zalkanes-wallet/src/shielded.rs\<close>): selecting notes, building the PCZT, what
  the plan expects of it. The crates \<open>orchard\<close>, \<open>pczt\<close> and \<open>zcash_primitives\<close> are parameters:
  \<open>'x\<close> are their keys, notes and Merkle paths, \<open>'p\<close> a PCZT, \<open>'t\<close> an extracted transaction. An
  address and an anchor are their canonical encodings. \<open>i64\<close> values are integers with the
  conversions and the saturation written out.
\<close>

section \<open>Selections\<close>

datatype value_pool = Orchard | Ironwood

record 'x shielded_spend =
  ssp_fvk :: 'x
  ssp_ask :: 'x
  ssp_note :: 'x
  ssp_merkle_path :: 'x
  ssp_value :: u64
  ssp_pool :: value_pool

record output_ref =
  or_txid :: tx_id
  or_pool :: value_pool
  or_index :: u32

record 'x shielded_selection =
  sel_spends :: "'x shielded_spend list"
  sel_selected_value :: u64
  sel_change_address :: bytes
  sel_change_fvk :: 'x
  sel_change_ask :: 'x
  sel_change_ovk :: "'x option"
  sel_change_pool :: value_pool
  sel_anchor_height :: u32
  sel_orchard_anchor :: "b32 option"
  sel_ironwood_anchor :: "b32 option"
  sel_output_refs :: "output_ref list"
  sel_lock_owner :: b32

record sync_status =
  ys_zebra_tip_height :: u32
  ys_zebra_tip_hash :: block_hash
  ys_wallet_scan_height :: u32
  ys_wallet_scan_hash :: block_hash
  ys_synced :: bool
  ys_anchor_height :: "u32 option"

text \<open>The trait \<open>ShieldedWallet\<close> on a wallet state \<open>'w\<close>.\<close>

record ('w, 'x) shielded_wallet =
  sw_sync_status :: "canonical_tip \<Rightarrow> ('w, string, sync_status) step"
  sw_select_spends :: "u64 \<Rightarrow> string \<Rightarrow> ('w, string, 'x shielded_selection) step"
  sw_release :: "string \<Rightarrow> ('w, string, unit) step"

definition MINIMUM_FEE :: u64 where
  "MINIMUM_FEE = 10000"

definition MAX_SELECT_ITERATIONS :: nat where
  "MAX_SELECT_ITERATIONS = 16"

section \<open>Expectations\<close>

record expected_spend =
  xs_pool :: value_pool
  xs_action_index :: nat
  xs_nullifier :: b32
  xs_value :: u64

record 'x expected_change =
  xc_pool :: value_pool
  xc_action_index :: nat
  xc_value :: u64
  xc_address_bytes :: bytes
  xc_ivk :: 'x

record 'x shielded_expectations =
  xe_spends :: "expected_spend list"
  xe_change :: "'x expected_change"
  xe_actions_orchard :: nat
  xe_actions_ironwood :: nat
  xe_anchor_orchard :: "b32 option"
  xe_anchor_ironwood :: "b32 option"
  xe_net_orchard :: int
  xe_net_ironwood :: int

section \<open>The libraries\<close>

datatype branch_id = Nu6_2 | Nu6_3 | OtherBranch nat

datatype circuit_version = FixedPostNu6_2 | PostNu6_3

text \<open>The calls made on librustzcash's builder, in order.\<close>

datatype 'x builder_step =
    OrchardSpend 'x 'x 'x
  | IronwoodSpend 'x 'x 'x
  | NullDataOutput bytes
  | TransparentOutput bytes u64
  | OrchardChangeOutput 'x "'x option" bytes u64
  | IronwoodOutput "'x option" bytes u64

record 'x tx_builder =
  tb_params :: consensus_params
  tb_target_height :: u32
  tb_orchard_anchor :: "b32 option"
  tb_ironwood_anchor :: "b32 option"
  tb_steps :: "'x builder_step list"

text \<open>\<open>BundleMetadata\<close>: where the builder put the n-th spend and output.\<close>

record bundle_meta =
  bm_spend_index :: "nat \<Rightarrow> nat option"
  bm_output_index :: "nat \<Rightarrow> nat option"

record 'p build_result =
  br_expiry_height :: u32
  br_is_v6 :: bool
  br_parts :: 'p
  br_orchard_meta :: bundle_meta
  br_ironwood_meta :: bundle_meta

text \<open>An action and a bundle of a PCZT, as the Verifier role shows them.\<close>

record 'x pczt_action =
  pn_nullifier :: b32
  pn_spend_value :: "u64 option"
  pn_recipient :: "bytes option"
  pn_value :: "u64 option"
  pn_cmx :: b32
  pn_rest :: 'x

record 'x pczt_bundle =
  pq_pool :: value_pool
  pq_anchor :: b32
  pq_actions :: "'x pczt_action list"
  pq_magnitude :: u64
  pq_positive :: bool

text \<open>A bundle of a final transaction: nullifier and note commitment of each action.\<close>

record final_bundle =
  fb_anchor :: b32
  fb_actions :: "(b32 \<times> b32) list"
  fb_value_balance :: int

text \<open>A transaction as librustzcash reads it: the number of transparent inputs and the
  transparent outputs, the bundles, and what \<open>fee_paid\<close> computes when no previous output is known.\<close>

datatype shielded_version = TxV5 | TxV6 | TxOther string

record final_shielded =
  fx_version :: shielded_version
  fx_expiry :: u32
  fx_transparent :: "(nat \<times> plan_output list) option"
  fx_orchard :: "final_bundle option"
  fx_ironwood :: "final_bundle option"
  fx_fee :: "(string, u64 option) result"

datatype pczt_role = Prover | Signer | Verifier

text \<open>The libraries: building a transaction, reading a PCZT or a transaction, and the roles that
  change a PCZT.\<close>

record ('x, 'p) builder_lib =
  xl_for_height :: "consensus_params \<Rightarrow> u32 \<Rightarrow> branch_id"
  xl_branch_u32 :: "branch_id \<Rightarrow> u32"
  xl_zatoshis_ok :: "u64 \<Rightarrow> bool"
  xl_add :: "'x tx_builder \<Rightarrow> 'x builder_step \<Rightarrow> (string, unit) result"
  xl_fee :: "'x tx_builder \<Rightarrow> (string, u64) result"
  xl_build :: "'x tx_builder \<Rightarrow> (string, 'p build_result) result"
  xl_create :: "'p \<Rightarrow> 'p option"
  xl_finalize_io :: "'p \<Rightarrow> (string, 'p) result"
  xl_nullifier :: "'x \<Rightarrow> 'x \<Rightarrow> b32"
  xl_internal_ivk :: "'x \<Rightarrow> 'x"

record ('x, 'p) view_lib =
  xv_action_count :: "value_pool \<Rightarrow> 'p \<Rightarrow> nat"
  xv_expiry :: "'p \<Rightarrow> u32"
  xv_branch :: "'p \<Rightarrow> u32"
  xv_inputs :: "'p \<Rightarrow> nat"
  xv_outputs :: "'p \<Rightarrow> plan_output list"
  xv_bundle :: "value_pool \<Rightarrow> 'p \<Rightarrow> (string, 'x pczt_bundle) result"
  xv_commitment_ok :: "'x pczt_action \<Rightarrow> (string, unit) result"
  xv_decrypt :: "value_pool \<Rightarrow> 'x \<Rightarrow> 'x pczt_action \<Rightarrow> (u64 \<times> bytes) option"
  xv_read :: "bytes \<Rightarrow> branch_id \<Rightarrow> (string, final_shielded) result"

record ('x, 'p, 't) role_lib =
  xr_needs_proof :: "value_pool \<Rightarrow> 'p \<Rightarrow> bool"
  xr_prove :: "value_pool \<Rightarrow> circuit_version \<Rightarrow> 'p \<Rightarrow> (string, 'p) result"
  xr_signer :: "'p \<Rightarrow> (string, 'p) result"
  xr_sign :: "value_pool \<Rightarrow> nat \<Rightarrow> 'x \<Rightarrow> 'p \<Rightarrow> (string, 'p) result"
  xr_finish :: "pczt_role \<Rightarrow> 'p \<Rightarrow> 'p"
  xr_extract :: "'p \<Rightarrow> (string, 't) result"
  xr_write :: "'t \<Rightarrow> (string, bytes) result"
  xr_txid :: "'t \<Rightarrow> tx_id"

text \<open>The errors, with the values their messages show.\<close>

datatype bundle_error =
    ActionCountMismatch nat nat
  | WrongValuePool
  | NoPlannedAnchor
  | AnchorMismatch
  | NullifierMismatch nat
  | SpendValueMissing nat
  | SpendValueMismatch nat
  | ExtraSpend nat
  | ChangeRecipientMissing nat
  | ChangeDestinationMismatch
  | ChangeValueMissing nat
  | ChangeValueMismatch
  | ChangeCommitmentInvalid string
  | ChangeUndecryptable
  | DecryptedChangeMismatch
  | ChangeActionMissing
  | ChangeCmxNotRecorded
  | ChangeCmxMismatch
  | OutputValueMissing nat
  | UnplannedOutput nat
  | SpendActionMissing
  | ValueBalanceMismatch
  | MissingBundle

datatype build_failure =
    FeeFailed string
  | InvalidZatoshis u64
  | BuilderRejected string
  | BuildPcztFailed string
  | CreatorRejected
  | IoFinalizeFailed string
  | MissingSpendIndex value_pool nat
  | MissingChangeIndex
  | ValueExceedsI64
  | NoAnchor value_pool
  | UnsupportedBranch branch_id

datatype shielded_error =
    BadContext plan_error
  | NoCarrierKey
  | DeployNotShielded
  | NoCarrierOutputs
  | SelectFailed string
  | RequiredOverflow
  | NotConverged
  | InsufficientSelected
  | BuildFailure build_failure

section \<open>Building\<close>

definition builder_add ::
    "('x, 'p) builder_lib \<Rightarrow> 'x builder_step \<Rightarrow> 'x tx_builder \<Rightarrow> (build_failure, 'x tx_builder) result" where
  "builder_add lib st b =
     and_then (map_err BuilderRejected (xl_add lib b st)) (\<lambda>_. Ok (b\<lparr>tb_steps := tb_steps b @ [st]\<rparr>))"

definition add_spend ::
    "('x, 'p) builder_lib \<Rightarrow> 'x shielded_spend \<Rightarrow> 'x tx_builder \<Rightarrow> (build_failure, 'x tx_builder) result" where
  "add_spend lib s b =
     (case ssp_pool s of
        Orchard \<Rightarrow> builder_add lib (OrchardSpend (ssp_fvk s) (ssp_note s) (ssp_merkle_path s)) b
      | Ironwood \<Rightarrow> builder_add lib (IronwoodSpend (ssp_fvk s) (ssp_note s) (ssp_merkle_path s)) b)"

definition add_carrier ::
    "('x, 'p) builder_lib \<Rightarrow> bytes \<times> u64 \<Rightarrow> 'x tx_builder \<Rightarrow> (build_failure, 'x tx_builder) result" where
  "add_carrier lib carrier b =
     (case carrier of (addr, v) \<Rightarrow>
        if \<not> xl_zatoshis_ok lib v then Err (InvalidZatoshis v) else builder_add lib (TransparentOutput addr v) b)"

definition add_change ::
    "('x, 'p) builder_lib \<Rightarrow> 'x shielded_selection \<Rightarrow> u64 \<Rightarrow> 'x tx_builder \<Rightarrow> (build_failure, 'x tx_builder) result" where
  "add_change lib sel change b =
     (if change = 0 then Ok b
      else if \<not> xl_zatoshis_ok lib change then Err (InvalidZatoshis change)
      else
        case sel_change_pool sel of
          Orchard \<Rightarrow>
            builder_add lib (OrchardChangeOutput (sel_change_fvk sel) (sel_change_ovk sel) (sel_change_address sel) change) b
        | Ironwood \<Rightarrow> builder_add lib (IronwoodOutput (sel_change_ovk sel) (sel_change_address sel) change) b)"

definition assemble_builder ::
    "('x, 'p) builder_lib \<Rightarrow> consensus_params \<Rightarrow> u32 \<Rightarrow> 'x shielded_selection \<Rightarrow> (bytes \<times> u64) list \<Rightarrow> bytes
      \<Rightarrow> u64 \<Rightarrow> (build_failure, 'x tx_builder) result" where
  "assemble_builder lib params target_height sel carriers op_return change =
     (let b = \<lparr>tb_params = params, tb_target_height = target_height, tb_orchard_anchor = sel_orchard_anchor sel,
               tb_ironwood_anchor = sel_ironwood_anchor sel, tb_steps = []\<rparr> in
      and_then (fold_res (add_spend lib) (sel_spends sel) b) (\<lambda>b.
      and_then (if op_return = [] then Ok b else builder_add lib (NullDataOutput op_return) b) (\<lambda>b.
      and_then (fold_res (add_carrier lib) carriers b) (add_change lib sel change))))"

text \<open>The PCZT, its bundle metadata, the transaction version and the expiry height.\<close>

definition assemble_and_build ::
    "('x, 'p) builder_lib \<Rightarrow> consensus_params \<Rightarrow> u32 \<Rightarrow> 'x shielded_selection \<Rightarrow> (bytes \<times> u64) list \<Rightarrow> bytes
      \<Rightarrow> u64 \<Rightarrow> (build_failure, 'p \<times> bundle_meta \<times> bundle_meta \<times> string \<times> u32) result" where
  "assemble_and_build lib params target_height sel carriers op_return change =
     and_then (assemble_builder lib params target_height sel carriers op_return change) (\<lambda>b.
     and_then (map_err BuildPcztFailed (xl_build lib b)) (\<lambda>r.
     and_then (ok_or CreatorRejected (xl_create lib (br_parts r))) (\<lambda>pczt.
     and_then (map_err IoFinalizeFailed (xl_finalize_io lib pczt)) (\<lambda>pczt.
       Ok (pczt, br_orchard_meta r, br_ironwood_meta r, if br_is_v6 r then ''v6'' else ''v5'', br_expiry_height r)))))"

definition measured_fee ::
    "('x, 'p) builder_lib \<Rightarrow> consensus_params \<Rightarrow> u32 \<Rightarrow> 'x shielded_selection \<Rightarrow> (bytes \<times> u64) list \<Rightarrow> bytes
      \<Rightarrow> (build_failure, u64) result" where
  "measured_fee lib params target_height sel carriers op_return =
     and_then (assemble_builder lib params target_height sel carriers op_return 1) (\<lambda>b.
       map_err FeeFailed (xl_fee lib b))"

definition select_step :: "('w, 'x) shielded_wallet \<Rightarrow> u64 \<Rightarrow> string \<Rightarrow> ('w, shielded_error, 'x shielded_selection) step" where
  "select_step wallet required plan_id w =
     (case sw_select_spends wallet required plan_id w of (w, r) \<Rightarrow> (w, map_err SelectFailed r))"

text \<open>The rounds of \<open>select_for\<close>; the first argument counts the rounds left. The last addition is
  unchecked in the code and wraps around in the release profile.\<close>

fun select_rounds ::
    "nat \<Rightarrow> ('x, 'p) builder_lib \<Rightarrow> ('w, 'x) shielded_wallet \<Rightarrow> consensus_params \<Rightarrow> u32 \<Rightarrow> (bytes \<times> u64) list \<Rightarrow> bytes
      \<Rightarrow> u64 \<Rightarrow> string \<Rightarrow> u64 \<Rightarrow> ('w, shielded_error, 'x shielded_selection \<times> u64) step" where
  "select_rounds 0 lib wallet params target_height carriers op_return required_value plan_id required =
     lift_step (Err NotConverged)"
| "select_rounds (Suc n) lib wallet params target_height carriers op_return required_value plan_id required =
     bind_step (select_step wallet required plan_id) (\<lambda>sel.
     bind_step (lift_step (map_err BuildFailure (measured_fee lib params target_height sel carriers op_return))) (\<lambda>fee.
     bind_step (lift_step (ok_or RequiredOverflow (checked_add64 required_value fee))) (\<lambda>total_needed.
       if sel_selected_value sel > total_needed then return_step (sel, fee)
       else select_rounds n lib wallet params target_height carriers op_return required_value plan_id (total_needed + 1))))"

definition select_for ::
    "('x, 'p) builder_lib \<Rightarrow> ('w, 'x) shielded_wallet \<Rightarrow> consensus_params \<Rightarrow> u32 \<Rightarrow> (bytes \<times> u64) list \<Rightarrow> bytes
      \<Rightarrow> u64 \<Rightarrow> string \<Rightarrow> ('w, shielded_error, 'x shielded_selection \<times> u64) step" where
  "select_for lib wallet params target_height carriers op_return required_value plan_id =
     bind_step (lift_step (ok_or RequiredOverflow (checked_add64 required_value MINIMUM_FEE))) (\<lambda>required.
       select_rounds MAX_SELECT_ITERATIONS lib wallet params target_height carriers op_return required_value plan_id required)"

section \<open>What the plan expects\<close>

definition of_pool :: "value_pool \<Rightarrow> 'a \<Rightarrow> 'a \<Rightarrow> 'a" where
  "of_pool pool orchard ironwood = (case pool of Orchard \<Rightarrow> orchard | Ironwood \<Rightarrow> ironwood)"

fun pool_tag :: "value_pool \<Rightarrow> u8" where
  "pool_tag Orchard = 1"
| "pool_tag Ironwood = 2"

definition journal_inputs_for :: "hex_lib \<Rightarrow> 'x shielded_selection \<Rightarrow> string" where
  "journal_inputs_for hx sel =
     concat (intersperse '','' (map (\<lambda>(s, r).
         decimal (unat (pool_tag (ssp_pool s))) @ '':'' @ hex_encode hx (bytes_of (or_txid r)) @ '':''
           @ decimal (unat (or_index r)))
       (zip (sel_spends sel) (sel_output_refs sel))))"

text \<open>The action of each spend and, for an Orchard change, of the change, with the signing keys.\<close>

fun spend_signers ::
    "bundle_meta \<Rightarrow> bundle_meta \<Rightarrow> nat \<Rightarrow> nat \<Rightarrow> 'x shielded_spend list
      \<Rightarrow> (build_failure, (nat \<times> 'x) list \<times> (nat \<times> 'x) list) result" where
  "spend_signers om im i_orchard i_ironwood [] = Ok ([], [])"
| "spend_signers om im i_orchard i_ironwood (s # ss) =
     (case ssp_pool s of
        Orchard \<Rightarrow>
          and_then (ok_or (MissingSpendIndex Orchard i_orchard) (bm_spend_index om i_orchard)) (\<lambda>idx.
          and_then (spend_signers om im (Suc i_orchard) i_ironwood ss) (\<lambda>(os, is). Ok ((idx, ssp_ask s) # os, is)))
      | Ironwood \<Rightarrow>
          and_then (ok_or (MissingSpendIndex Ironwood i_ironwood) (bm_spend_index im i_ironwood)) (\<lambda>idx.
          and_then (spend_signers om im i_orchard (Suc i_ironwood) ss) (\<lambda>(os, is). Ok (os, (idx, ssp_ask s) # is))))"

definition signing_plans ::
    "'x shielded_selection \<Rightarrow> bundle_meta \<Rightarrow> bundle_meta \<Rightarrow> (build_failure, (nat \<times> 'x) list \<times> (nat \<times> 'x) list) result" where
  "signing_plans sel om im =
     and_then (spend_signers om im 0 0 (sel_spends sel)) (\<lambda>(os, is).
       if sel_change_pool sel = Orchard
       then and_then (ok_or MissingChangeIndex (bm_output_index om 0)) (\<lambda>idx. Ok (os @ [(idx, sel_change_ask sel)], is))
       else Ok (os, is))"

definition to_i64 :: "u64 \<Rightarrow> (build_failure, int) result" where
  "to_i64 v = (if uint v < 2 ^ 63 then Ok (uint v) else Err ValueExceedsI64)"

definition saturate_i64 :: "int \<Rightarrow> int" where
  "saturate_i64 i = max (- (2 ^ 63)) (min (2 ^ 63 - 1) i)"

fun expect_spends ::
    "('x, 'p) builder_lib \<Rightarrow> bundle_meta \<Rightarrow> bundle_meta \<Rightarrow> nat \<Rightarrow> nat \<Rightarrow> 'x shielded_spend list \<Rightarrow> int \<Rightarrow> int
      \<Rightarrow> (build_failure, expected_spend list \<times> int \<times> int) result" where
  "expect_spends lib om im i_orchard i_ironwood [] net_orchard net_ironwood = Ok ([], net_orchard, net_ironwood)"
| "expect_spends lib om im i_orchard i_ironwood (s # ss) net_orchard net_ironwood =
     (let pool = ssp_pool s; bucket = of_pool pool i_orchard i_ironwood in
      and_then (ok_or (MissingSpendIndex pool bucket) (bm_spend_index (of_pool pool om im) bucket)) (\<lambda>idx.
      and_then (to_i64 (ssp_value s)) (\<lambda>v.
      and_then (expect_spends lib om im
          (if pool = Orchard then Suc i_orchard else i_orchard) (if pool = Ironwood then Suc i_ironwood else i_ironwood) ss
          (if pool = Orchard then saturate_i64 (net_orchard + v) else net_orchard)
          (if pool = Ironwood then saturate_i64 (net_ironwood + v) else net_ironwood)) (\<lambda>(rest, nets).
        Ok (\<lparr>xs_pool = pool, xs_action_index = idx, xs_nullifier = xl_nullifier lib (ssp_note s) (ssp_fvk s),
             xs_value = ssp_value s\<rparr> # rest, nets)))))"

definition build_expectations ::
    "('x, 'p) builder_lib \<Rightarrow> ('x, 'p) view_lib \<Rightarrow> 'x shielded_selection \<Rightarrow> bundle_meta \<Rightarrow> bundle_meta \<Rightarrow> 'p \<Rightarrow> u64
      \<Rightarrow> (build_failure, 'x shielded_expectations) result" where
  "build_expectations lib vl sel om im pczt change =
     and_then (expect_spends lib om im 0 0 (sel_spends sel) 0 0) (\<lambda>(spends, net_orchard, net_ironwood).
     and_then (ok_or MissingChangeIndex (bm_output_index (of_pool (sel_change_pool sel) om im) 0)) (\<lambda>change_index.
     and_then (to_i64 change) (\<lambda>c.
       Ok \<lparr>xe_spends = spends,
           xe_change = \<lparr>xc_pool = sel_change_pool sel, xc_action_index = change_index, xc_value = change,
             xc_address_bytes = sel_change_address sel, xc_ivk = xl_internal_ivk lib (sel_change_fvk sel)\<rparr>,
           xe_actions_orchard = xv_action_count vl Orchard pczt,
           xe_actions_ironwood = xv_action_count vl Ironwood pczt,
           xe_anchor_orchard = sel_orchard_anchor sel, xe_anchor_ironwood = sel_ironwood_anchor sel,
           xe_net_orchard = (if sel_change_pool sel = Orchard then saturate_i64 (net_orchard - c) else net_orchard),
           xe_net_ironwood = (if sel_change_pool sel = Ironwood then saturate_i64 (net_ironwood - c) else net_ironwood)\<rparr>)))"

definition spent_anchor ::
    "value_pool \<Rightarrow> 'x shielded_selection \<Rightarrow> b32 option \<Rightarrow> (build_failure, plan_anchor list) result" where
  "spent_anchor pool sel anchor =
     (if \<exists>s \<in> set (sel_spends sel). ssp_pool s = pool
      then and_then (ok_or (NoAnchor pool) anchor) (\<lambda>root.
        Ok [\<lparr>pa_pool = pool_tag pool, pa_height = sel_anchor_height sel, pa_root = root\<rparr>])
      else Ok [])"

definition commit_shielded ::
    "('x, 'p) builder_lib \<Rightarrow> hex_lib \<Rightarrow> sha \<Rightarrow> fund_context \<Rightarrow> branch_id \<Rightarrow> 'x shielded_selection \<Rightarrow> u64 \<Rightarrow> u64 \<Rightarrow> string
      \<Rightarrow> u32 \<Rightarrow> plan_output list \<Rightarrow> bytes \<Rightarrow> u8 \<Rightarrow> (build_failure, string) result" where
  "commit_shielded lib hx sha ctx branch sel fee change tx_version expiry_height outputs payload kind =
     and_then (spent_anchor Orchard sel (sel_orchard_anchor sel)) (\<lambda>orchard.
     and_then (spent_anchor Ironwood sel (sel_ironwood_anchor sel)) (\<lambda>ironwood.
       Ok (commit_plan hx sha
         \<lparr>cm_network = id_byte (fc_network ctx), cm_protocol_version = 0, cm_pool = 1,
          cm_tip_height = ct_height (fc_chain_tip ctx), cm_tip_hash = ct_hash (fc_chain_tip ctx),
          cm_target_height = fc_target_height ctx, cm_branch_id = xl_branch_u32 lib branch,
          cm_tx_version = (if tx_version = ''v6'' then 6 else 5), cm_expiry_height = expiry_height,
          cm_inputs = map (\<lambda>(s, r). \<lparr>pi_pool = pool_tag (ssp_pool s), pi_txid = or_txid r,
              pi_output_index = or_index r, pi_value = ssp_value s\<rparr>) (zip (sel_spends sel) (sel_output_refs sel)),
          cm_anchors = orchard @ ironwood, cm_outputs = outputs,
          cm_change = Some \<lparr>pc_value = change, pc_pool = pool_tag (sel_change_pool sel),
              pc_destination = sel_change_address sel\<rparr>,
          cm_fee = fee, cm_payload = payload, cm_kind = kind\<rparr>)))"

definition circuit_version_of :: "branch_id \<Rightarrow> (build_failure, circuit_version) result" where
  "circuit_version_of branch =
     (case branch of
        Nu6_2 \<Rightarrow> Ok FixedPostNu6_2
      | Nu6_3 \<Rightarrow> Ok PostNu6_3
      | OtherBranch n \<Rightarrow> Err (UnsupportedBranch branch))"

end
