(* ===== verification/Shielded_Verify.thy ===== *)
theory Shielded_Verify
  imports Shielded
begin

text \<open>
  The shielded plan (\<open>shielded.rs\<close>): verification of the finalized PCZT and of the final
  transaction against what the plan expects, the stages, and planning a request. A stage takes
  the PCZT out of the plan first, so a failed stage leaves a plan without one.
\<close>

section \<open>The plan\<close>

datatype final_error =
    FinalUnreadable string
  | FinalVersion shielded_version
  | FinalExpiry u32 u32
  | FinalNoTransparent
  | FeeAccounting string
  | FeeNotComputable
  | FinalFee u64 u64

datatype stage_error =
    ShieldedTip string
  | ShieldedStale canonical_tip canonical_tip
  | ShieldedWrongStage plan_stage plan_stage
  | NoPczt
  | ProveFailed value_pool string
  | SignerInit string
  | SignFailed value_pool nat string
  | PcztExpiry u32 u32
  | PcztBranch
  | FundingInputs nat
  | TransparentCount nat nat
  | TransparentValue nat
  | TransparentScript nat
  | BundleUnreadable value_pool string
  | BundleRejected value_pool bundle_error
  | ChangeNotFound
  | ExtractFailed string
  | SerializeFailed string
  | FinalRejected final_error

record ('x, 'p) shielded_plan =
  zp_stage :: plan_stage
  zp_selected_value :: u64
  zp_fee :: u64
  zp_change :: u64
  zp_change_destination :: bytes
  zp_change_pool :: u8
  zp_branch_id :: branch_id
  zp_target_height :: u32
  zp_canonical_tip :: canonical_tip
  zp_tx_version :: string
  zp_expiry_height :: u32
  zp_request :: tx_request
  zp_transparent_outputs :: "plan_output list"
  zp_pczt :: "'p option"
  zp_orchard_sign :: "(nat \<times> 'x) list"
  zp_ironwood_sign :: "(nat \<times> 'x) list"
  zp_expected :: "'x shielded_expectations"
  zp_journal_inputs :: string
  zp_expected_change_cmx :: "b32 option"
  zp_circuit_version :: circuit_version
  zp_signed :: "signed_tx option"
  zp_plan_id :: string
  zp_intent_hash :: string

record 'p verified_pczt =
  vp_pczt :: 'p
  vp_change_cmx :: b32

section \<open>Verification of one bundle of the PCZT\<close>

definition expected_actions :: "value_pool \<Rightarrow> 'x shielded_expectations \<Rightarrow> nat" where
  "expected_actions pool xe = of_pool pool (xe_actions_orchard xe) (xe_actions_ironwood xe)"

definition expected_anchor :: "value_pool \<Rightarrow> 'x shielded_expectations \<Rightarrow> b32 option" where
  "expected_anchor pool xe = of_pool pool (xe_anchor_orchard xe) (xe_anchor_ironwood xe)"

definition expected_net :: "value_pool \<Rightarrow> 'x shielded_expectations \<Rightarrow> int" where
  "expected_net pool xe = of_pool pool (xe_net_orchard xe) (xe_net_ironwood xe)"

definition pool_spends :: "value_pool \<Rightarrow> 'x shielded_expectations \<Rightarrow> expected_spend list" where
  "pool_spends pool xe = filter (\<lambda>s. xs_pool s = pool) (xe_spends xe)"

definition check_spend :: "expected_spend list \<Rightarrow> nat \<Rightarrow> 'x pczt_action \<Rightarrow> (bundle_error, unit) result" where
  "check_spend spends idx action =
     (case find (\<lambda>s. xs_action_index s = idx) spends of
        Some expected \<Rightarrow>
          if pn_nullifier action \<noteq> xs_nullifier expected then Err (NullifierMismatch idx)
          else
            (case pn_spend_value action of
               None \<Rightarrow> Err (SpendValueMissing idx)
             | Some v \<Rightarrow> if v \<noteq> xs_value expected then Err (SpendValueMismatch idx) else Ok ())
      | None \<Rightarrow>
          (case pn_spend_value action of
             None \<Rightarrow> Err (SpendValueMissing idx)
           | Some v \<Rightarrow> if v \<noteq> 0 then Err (ExtraSpend idx) else Ok ()))"

definition check_change ::
    "('x, 'p) view_lib \<Rightarrow> value_pool \<Rightarrow> 'x expected_change \<Rightarrow> nat \<Rightarrow> 'x pczt_action \<Rightarrow> (bundle_error, b32) result" where
  "check_change vl pool xc idx action =
     (case pn_recipient action of
        None \<Rightarrow> Err (ChangeRecipientMissing idx)
      | Some recipient \<Rightarrow>
          if recipient \<noteq> xc_address_bytes xc then Err ChangeDestinationMismatch
          else
            (case pn_value action of
               None \<Rightarrow> Err (ChangeValueMissing idx)
             | Some v \<Rightarrow>
                 if v \<noteq> xc_value xc then Err ChangeValueMismatch
                 else
                   and_then (map_err ChangeCommitmentInvalid (xv_commitment_ok vl action)) (\<lambda>_.
                     case xv_decrypt vl pool (xc_ivk xc) action of
                       None \<Rightarrow> Err ChangeUndecryptable
                     | Some (note_value, addr) \<Rightarrow>
                         if note_value \<noteq> xc_value xc \<or> addr \<noteq> xc_address_bytes xc
                         then Err DecryptedChangeMismatch else Ok (pn_cmx action))))"

definition check_output :: "nat \<Rightarrow> 'x pczt_action \<Rightarrow> (bundle_error, unit) result" where
  "check_output idx action =
     (case pn_value action of
        None \<Rightarrow> Err (OutputValueMissing idx)
      | Some v \<Rightarrow> if v \<noteq> 0 then Err (UnplannedOutput idx) else Ok ())"

text \<open>The loop over the actions from position \<open>idx\<close> on; the last argument is \<open>change_cmx\<close>.\<close>

fun check_actions ::
    "('x, 'p) view_lib \<Rightarrow> value_pool \<Rightarrow> 'x shielded_expectations \<Rightarrow> nat \<Rightarrow> 'x pczt_action list \<Rightarrow> b32 option
      \<Rightarrow> (bundle_error, b32 option) result" where
  "check_actions vl pool xe idx [] cmx = Ok cmx"
| "check_actions vl pool xe idx (action # actions) cmx =
     and_then (check_spend (pool_spends pool xe) idx action) (\<lambda>_.
       if xc_pool (xe_change xe) = pool \<and> xc_action_index (xe_change xe) = idx
       then and_then (check_change vl pool (xe_change xe) idx action) (\<lambda>c.
         check_actions vl pool xe (Suc idx) actions (Some c))
       else and_then (check_output idx action) (\<lambda>_. check_actions vl pool xe (Suc idx) actions cmx))"

definition bundle_net :: "'x pczt_bundle \<Rightarrow> int" where
  "bundle_net b = (if pq_positive b then uint (pq_magnitude b) else - uint (pq_magnitude b))"

definition verify_pool_bundle ::
    "('x, 'p) view_lib \<Rightarrow> value_pool \<Rightarrow> 'x shielded_expectations \<Rightarrow> 'x pczt_bundle \<Rightarrow> b32 option
      \<Rightarrow> (bundle_error, b32 option) result" where
  "verify_pool_bundle vl pool xe b cmx =
     (if length (pq_actions b) \<noteq> expected_actions pool xe
      then Err (ActionCountMismatch (length (pq_actions b)) (expected_actions pool xe))
      else if expected_actions pool xe = 0 then Ok cmx
      else if pq_pool b \<noteq> pool then Err WrongValuePool
      else
        case expected_anchor pool xe of
          None \<Rightarrow> Err NoPlannedAnchor
        | Some anchor \<Rightarrow>
            if pq_anchor b \<noteq> anchor then Err AnchorMismatch
            else
              and_then (check_actions vl pool xe 0 (pq_actions b) cmx) (\<lambda>cmx.
                if bundle_net b \<noteq> expected_net pool xe then Err ValueBalanceMismatch else Ok cmx))"

section \<open>Verification of the finalized PCZT\<close>

fun check_plan_outputs :: "nat \<Rightarrow> plan_output list \<Rightarrow> plan_output list \<Rightarrow> (stage_error, unit) result" where
  "check_plan_outputs i (out # outs) (planned # ps) =
     (if po_value out \<noteq> po_value planned then Err (TransparentValue i)
      else if po_script out \<noteq> po_script planned then Err (TransparentScript i)
      else check_plan_outputs (Suc i) outs ps)"
| "check_plan_outputs i _ _ = Ok ()"

definition check_transparent_side :: "nat \<Rightarrow> plan_output list \<Rightarrow> plan_output list \<Rightarrow> (stage_error, unit) result" where
  "check_transparent_side inputs outs planned =
     (if inputs \<noteq> 0 then Err (FundingInputs inputs)
      else if length outs \<noteq> length planned then Err (TransparentCount (length outs) (length planned))
      else check_plan_outputs 0 outs planned)"

definition with_bundle ::
    "('x, 'p) view_lib \<Rightarrow> value_pool \<Rightarrow> 'x shielded_expectations \<Rightarrow> 'p \<Rightarrow> b32 option \<Rightarrow> (stage_error, b32 option) result" where
  "with_bundle vl pool xe pczt cmx =
     and_then (map_err (BundleUnreadable pool) (xv_bundle vl pool pczt)) (\<lambda>b.
       map_err (BundleRejected pool) (verify_pool_bundle vl pool xe b cmx))"

definition verify_finalized_pczt ::
    "('x, 'p) builder_lib \<Rightarrow> ('x, 'p) view_lib \<Rightarrow> ('x, 'p, 't) role_lib \<Rightarrow> ('x, 'p) shielded_plan \<Rightarrow> 'p
      \<Rightarrow> (stage_error, 'p verified_pczt) result" where
  "verify_finalized_pczt bl vl rl p pczt =
     (if xv_expiry vl pczt \<noteq> zp_expiry_height p then Err (PcztExpiry (xv_expiry vl pczt) (zp_expiry_height p))
      else if xv_branch vl pczt \<noteq> xl_branch_u32 bl (zp_branch_id p) then Err PcztBranch
      else
        and_then (check_transparent_side (xv_inputs vl pczt) (xv_outputs vl pczt) (zp_transparent_outputs p)) (\<lambda>_.
        and_then (with_bundle vl Orchard (zp_expected p) pczt None) (\<lambda>cmx.
        and_then (with_bundle vl Ironwood (zp_expected p) pczt cmx) (\<lambda>cmx.
        and_then (ok_or ChangeNotFound cmx) (\<lambda>c.
          Ok \<lparr>vp_pczt = xr_finish rl Verifier pczt, vp_change_cmx = c\<rparr>)))))"

section \<open>Verification of the final transaction\<close>

fun check_nullifiers :: "(b32 \<times> b32) list \<Rightarrow> expected_spend list \<Rightarrow> (bundle_error, unit) result" where
  "check_nullifiers actions [] = Ok ()"
| "check_nullifiers actions (s # ss) =
     (if xs_action_index s \<ge> length actions then Err SpendActionMissing
      else if fst (actions ! xs_action_index s) \<noteq> xs_nullifier s then Err (NullifierMismatch (xs_action_index s))
      else check_nullifiers actions ss)"

definition check_change_cmx :: "value_pool \<Rightarrow> 'x expected_change \<Rightarrow> b32 option \<Rightarrow> (b32 \<times> b32) list \<Rightarrow> (bundle_error, unit) result" where
  "check_change_cmx pool xc recorded actions =
     (if xc_pool xc \<noteq> pool then Ok ()
      else
        and_then (ok_or ChangeCmxNotRecorded recorded) (\<lambda>cmx.
          if xc_action_index xc \<ge> length actions then Err ChangeActionMissing
          else if snd (actions ! xc_action_index xc) \<noteq> cmx then Err ChangeCmxMismatch
          else Ok ()))"

definition verify_final_pool ::
    "('x, 'p) shielded_plan \<Rightarrow> value_pool \<Rightarrow> final_bundle option \<Rightarrow> (bundle_error, unit) result" where
  "verify_final_pool p pool bundle =
     (let xe = zp_expected p in
      case bundle of
        None \<Rightarrow> if expected_actions pool xe \<noteq> 0 then Err MissingBundle else Ok ()
      | Some b \<Rightarrow>
          if length (fb_actions b) \<noteq> expected_actions pool xe
          then Err (ActionCountMismatch (length (fb_actions b)) (expected_actions pool xe))
          else
            and_then (ok_or NoPlannedAnchor (expected_anchor pool xe)) (\<lambda>anchor.
              if fb_anchor b \<noteq> anchor then Err AnchorMismatch
              else
                and_then (check_nullifiers (fb_actions b) (pool_spends pool xe)) (\<lambda>_.
                  if fb_value_balance b \<noteq> expected_net pool xe then Err ValueBalanceMismatch
                  else check_change_cmx pool (xe_change xe) (zp_expected_change_cmx p) (fb_actions b))))"

definition shielded_verify_extracted ::
    "('x, 'p) view_lib \<Rightarrow> ('x, 'p) shielded_plan \<Rightarrow> signed_tx \<Rightarrow> (stage_error, unit) result" where
  "shielded_verify_extracted vl p tx =
     and_then (map_err (FinalRejected \<circ> FinalUnreadable) (xv_read vl (st_bytes tx) (zp_branch_id p))) (\<lambda>parsed.
       let expected_version = (if zp_tx_version p = ''v6'' then TxV6 else TxV5) in
       if fx_version parsed \<noteq> expected_version then Err (FinalRejected (FinalVersion (fx_version parsed)))
       else if fx_expiry parsed \<noteq> zp_expiry_height p
       then Err (FinalRejected (FinalExpiry (fx_expiry parsed) (zp_expiry_height p)))
       else
         and_then (ok_or (FinalRejected FinalNoTransparent) (fx_transparent parsed)) (\<lambda>(inputs, outs).
         and_then (check_transparent_side inputs outs (zp_transparent_outputs p)) (\<lambda>_.
         and_then (map_err (BundleRejected Orchard) (verify_final_pool p Orchard (fx_orchard parsed))) (\<lambda>_.
         and_then (map_err (BundleRejected Ironwood) (verify_final_pool p Ironwood (fx_ironwood parsed))) (\<lambda>_.
         and_then (map_err (FinalRejected \<circ> FeeAccounting) (fx_fee parsed)) (\<lambda>fee.
         and_then (ok_or (FinalRejected FeeNotComputable) fee) (\<lambda>actual_fee.
           if actual_fee \<noteq> zp_fee p then Err (FinalRejected (FinalFee actual_fee (zp_fee p))) else Ok ())))))))"

section \<open>Stages\<close>

definition shielded_expect_stage :: "plan_stage \<Rightarrow> ('x, 'p) shielded_plan \<Rightarrow> (stage_error, unit) result" where
  "shielded_expect_stage expected p =
     (if zp_stage p \<noteq> expected then Err (ShieldedWrongStage (zp_stage p) expected) else Ok ())"

text \<open>\<open>expect_stage\<close>, then \<open>self.pczt.take()\<close>, then the work on the PCZT, in the plan without it.\<close>

definition take_pczt ::
    "plan_stage \<Rightarrow> ('p \<Rightarrow> ('x, 'p) shielded_plan \<Rightarrow> ('x, 'p) shielded_plan \<times> (stage_error, 'a) result)
      \<Rightarrow> ('x, 'p) shielded_plan \<Rightarrow> ('x, 'p) shielded_plan \<times> (stage_error, 'a) result" where
  "take_pczt expected work p =
     (case shielded_expect_stage expected p of
        Err e \<Rightarrow> (p, Err e)
      | Ok _ \<Rightarrow>
          (case zp_pczt p of
             None \<Rightarrow> (p, Err NoPczt)
           | Some pczt \<Rightarrow> work pczt (p\<lparr>zp_pczt := None\<rparr>)))"

definition create_proof ::
    "('x, 'p, 't) role_lib \<Rightarrow> value_pool \<Rightarrow> circuit_version \<Rightarrow> 'p \<Rightarrow> (stage_error, 'p) result" where
  "create_proof rl pool cv pczt =
     (if xr_needs_proof rl pool pczt then map_err (ProveFailed pool) (xr_prove rl pool cv pczt) else Ok pczt)"

definition shielded_prove ::
    "('x, 'p, 't) role_lib \<Rightarrow> ('x, 'p) shielded_plan \<Rightarrow> ('x, 'p) shielded_plan \<times> (stage_error, unit) result" where
  "shielded_prove rl =
     take_pczt StagePlanned (\<lambda>pczt p.
       case and_then (create_proof rl Orchard (zp_circuit_version p) pczt)
              (create_proof rl Ironwood (zp_circuit_version p)) of
         Err e \<Rightarrow> (p, Err e)
       | Ok pczt' \<Rightarrow> (p\<lparr>zp_pczt := Some (xr_finish rl Prover pczt'), zp_stage := StageProven\<rparr>, Ok ()))"

definition sign_action ::
    "('x, 'p, 't) role_lib \<Rightarrow> value_pool \<Rightarrow> nat \<times> 'x \<Rightarrow> 'p \<Rightarrow> (stage_error, 'p) result" where
  "sign_action rl pool entry pczt =
     (case entry of (idx, ask) \<Rightarrow> map_err (SignFailed pool idx) (xr_sign rl pool idx ask pczt))"

definition shielded_sign ::
    "('x, 'p, 't) role_lib \<Rightarrow> ('x, 'p) shielded_plan \<Rightarrow> ('x, 'p) shielded_plan \<times> (stage_error, unit) result" where
  "shielded_sign rl =
     take_pczt StageProven (\<lambda>pczt p.
       case and_then (map_err SignerInit (xr_signer rl pczt)) (\<lambda>signer.
            and_then (fold_res (sign_action rl Orchard) (zp_orchard_sign p) signer)
              (fold_res (sign_action rl Ironwood) (zp_ironwood_sign p))) of
         Err e \<Rightarrow> (p, Err e)
       | Ok signer \<Rightarrow> (p\<lparr>zp_pczt := Some (xr_finish rl Signer signer), zp_stage := StageSigned\<rparr>, Ok ()))"

definition extract_from_verified ::
    "('x, 'p, 't) role_lib \<Rightarrow> 'p verified_pczt \<Rightarrow> ('x, 'p) shielded_plan \<Rightarrow> ('x, 'p) shielded_plan \<times> (stage_error, signed_tx) result" where
  "extract_from_verified rl verified p =
     (case and_then (map_err ExtractFailed (xr_extract rl (vp_pczt verified))) (\<lambda>tx.
           and_then (map_err SerializeFailed (xr_write rl tx)) (\<lambda>bytes.
             Ok \<lparr>st_bytes = bytes, st_txid = xr_txid rl tx\<rparr>)) of
        Err e \<Rightarrow> (p, Err e)
      | Ok tx \<Rightarrow>
          (p\<lparr>zp_expected_change_cmx := Some (vp_change_cmx verified), zp_signed := Some tx,
             zp_stage := StageExtracted\<rparr>, Ok tx))"

definition shielded_extract ::
    "('x, 'p) builder_lib \<Rightarrow> ('x, 'p) view_lib \<Rightarrow> ('x, 'p, 't) role_lib
      \<Rightarrow> ('x, 'p) shielded_plan \<Rightarrow> ('x, 'p) shielded_plan \<times> (stage_error, signed_tx) result" where
  "shielded_extract bl vl rl =
     take_pczt StageSigned (\<lambda>pczt p.
       case verify_finalized_pczt bl vl rl p pczt of
         Err e \<Rightarrow> (p, Err e)
       | Ok verified \<Rightarrow> extract_from_verified rl verified p)"

text \<open>The stages as \<open>FundingPlan\<close> runs them: each asks the node for its tip first.\<close>

definition shielded_fresh ::
    "'w tip_source \<Rightarrow> (canonical_tip \<Rightarrow> ('w \<times> ('x, 'p) shielded_plan, stage_error, 'a) step)
      \<Rightarrow> ('w \<times> ('x, 'p) shielded_plan, stage_error, 'a) step" where
  "shielded_fresh src body = (\<lambda>(w, p).
     case src w of (w, r) \<Rightarrow>
       (case r of
          Err e \<Rightarrow> ((w, p), Err (ShieldedTip e))
        | Ok tip \<Rightarrow>
            if zp_canonical_tip p \<noteq> tip then ((w, p), Err (ShieldedStale (zp_canonical_tip p) tip))
            else body tip (w, p)))"

definition on_shielded ::
    "(('x, 'p) shielded_plan \<Rightarrow> ('x, 'p) shielded_plan \<times> (stage_error, 'a) result)
      \<Rightarrow> ('w \<times> ('x, 'p) shielded_plan, stage_error, 'a) step" where
  "on_shielded f = (\<lambda>(w, p). case f p of (p, r) \<Rightarrow> ((w, p), r))"

definition prove_shielded_plan ::
    "('x, 'p, 't) role_lib \<Rightarrow> 'w tip_source \<Rightarrow> ('w \<times> ('x, 'p) shielded_plan, stage_error, unit) step" where
  "prove_shielded_plan rl src = shielded_fresh src (\<lambda>_. on_shielded (shielded_prove rl))"

definition sign_shielded_plan ::
    "('x, 'p, 't) role_lib \<Rightarrow> 'w tip_source \<Rightarrow> ('w \<times> ('x, 'p) shielded_plan, stage_error, unit) step" where
  "sign_shielded_plan rl src = shielded_fresh src (\<lambda>_. on_shielded (shielded_sign rl))"

definition extract_shielded_plan ::
    "('x, 'p) builder_lib \<Rightarrow> ('x, 'p) view_lib \<Rightarrow> ('x, 'p, 't) role_lib \<Rightarrow> 'w tip_source
      \<Rightarrow> ('w \<times> ('x, 'p) shielded_plan, stage_error, signed_tx) step" where
  "extract_shielded_plan bl vl rl src = shielded_fresh src (\<lambda>_. on_shielded (shielded_extract bl vl rl))"

definition extract_verified_shielded ::
    "('x, 'p) builder_lib \<Rightarrow> ('x, 'p) view_lib \<Rightarrow> ('x, 'p, 't) role_lib \<Rightarrow> 'w tip_source
      \<Rightarrow> ('w \<times> ('x, 'p) shielded_plan, stage_error, verified_tx) step" where
  "extract_verified_shielded bl vl rl src =
     shielded_fresh src (\<lambda>tip.
     bind_step (extract_shielded_plan bl vl rl src) (\<lambda>tx.
       on_shielded (\<lambda>p. (p, and_then (shielded_verify_extracted vl p tx) (\<lambda>_.
         Ok \<lparr>vt_bytes = st_bytes tx, vt_txid = st_txid tx, vt_plan_id = zp_plan_id p,
             vt_intent_hash = zp_intent_hash p, vt_tip = tip\<rparr>)))))"

end
