(* ===== verification/Shielded_Plan.thy ===== *)
theory Shielded_Plan
  imports Shielded_Verify
begin

text \<open>
  Planning a request with shielded notes (\<open>ShieldedFunding\<close> of \<open>shielded.rs\<close>) and how a shielded
  plan is shown. The random plan id is an argument. A plan id whose planning fails after the
  selection is dropped with the notes it has locked.
\<close>

section \<open>Planning\<close>

record ('w, 'x, 'k) shielded_funding =
  sf_wallet :: "('w, 'x) shielded_wallet"
  sf_carrier_key :: "'k option"

text \<open>\<open>sf_hash160\<close> and \<open>sf_pubkey\<close> are the calls of \<open>zalkanes-tx\<close> that need a key or a hash.\<close>

record 'k key_lib =
  kl_hex :: hex_lib
  kl_sha :: sha
  kl_hash160 :: "bytes \<Rightarrow> bytes"
  kl_pubkey :: "'k \<Rightarrow> bytes"

text \<open>The common tail of \<open>plan_call\<close> and \<open>plan_prepare\<close>, after the selection.\<close>

definition finish_plan ::
    "('x, 'p) builder_lib \<Rightarrow> ('x, 'p) view_lib \<Rightarrow> 'k key_lib \<Rightarrow> fund_context \<Rightarrow> string \<Rightarrow> tx_request \<Rightarrow> (bytes \<times> u64) list
      \<Rightarrow> bytes \<Rightarrow> plan_output list \<Rightarrow> u8 \<Rightarrow> 'x shielded_selection \<Rightarrow> u64 \<Rightarrow> u64
      \<Rightarrow> (build_failure, ('x, 'p) shielded_plan) result" where
  "finish_plan bl vl kl ctx plan_id req carriers op_return outputs kind sel fee change =
     (let params = for_network (fc_network ctx);
          branch = branch_id_for_height (xl_for_height bl) (fc_network ctx) (fc_target_height ctx) in
      and_then (assemble_and_build bl params (fc_target_height ctx) sel carriers op_return change)
        (\<lambda>(pczt, orchard_meta, ironwood_meta, tx_version, expiry_height).
      and_then (signing_plans sel orchard_meta ironwood_meta) (\<lambda>(orchard_sign, ironwood_sign).
      and_then (build_expectations bl vl sel orchard_meta ironwood_meta pczt change) (\<lambda>expected.
      and_then (commit_shielded bl (kl_hex kl) (kl_sha kl) ctx branch sel fee change tx_version expiry_height outputs
          op_return kind) (\<lambda>intent_hash.
      and_then (circuit_version_of branch) (\<lambda>cv.
        Ok \<lparr>zp_stage = StagePlanned, zp_selected_value = sel_selected_value sel, zp_fee = fee, zp_change = change,
            zp_change_destination = sel_change_address sel, zp_change_pool = pool_tag (sel_change_pool sel),
            zp_branch_id = branch, zp_target_height = fc_target_height ctx, zp_canonical_tip = fc_chain_tip ctx,
            zp_tx_version = tx_version, zp_expiry_height = expiry_height, zp_request = req,
            zp_transparent_outputs = outputs, zp_pczt = Some pczt, zp_orchard_sign = orchard_sign,
            zp_ironwood_sign = ironwood_sign, zp_expected = expected,
            zp_journal_inputs = journal_inputs_for (kl_hex kl) sel, zp_expected_change_cmx = None,
            zp_circuit_version = cv, zp_signed = None, zp_plan_id = plan_id, zp_intent_hash = intent_hash\<rparr>))))))"

text \<open>The subtraction of the fee is plain; the selection loop has made sure that it cannot wrap.\<close>

definition shielded_plan_call ::
    "('x, 'p) builder_lib \<Rightarrow> ('x, 'p) view_lib \<Rightarrow> 'k key_lib \<Rightarrow> ('w, 'x, 'k) shielded_funding \<Rightarrow> string \<Rightarrow> bytes \<Rightarrow> fund_context
      \<Rightarrow> ('w, shielded_error, ('x, 'p) shielded_plan) step" where
  "shielded_plan_call bl vl kl sf plan_id op_return ctx =
     bind_step (select_for bl (sf_wallet sf) (for_network (fc_network ctx)) (fc_target_height ctx) [] op_return 0 plan_id)
       (\<lambda>(sel, fee).
         lift_step (map_err BuildFailure (finish_plan bl vl kl ctx plan_id (ReqCall op_return) [] op_return
           [\<lparr>po_value = 0, po_script = op_return_script op_return\<rparr>] 2 sel fee (sel_selected_value sel - fee))))"

text \<open>The sum of the carrier values is plain and wraps around in the release profile.\<close>

definition shielded_plan_prepare ::
    "('x, 'p) builder_lib \<Rightarrow> ('x, 'p) view_lib \<Rightarrow> 'k key_lib \<Rightarrow> ('w, 'x, 'k) shielded_funding \<Rightarrow> string \<Rightarrow> 'k \<Rightarrow> u64 list
      \<Rightarrow> fund_context \<Rightarrow> ('w, shielded_error, ('x, 'p) shielded_plan) step" where
  "shielded_plan_prepare bl vl kl sf plan_id carrier_key carrier_values ctx =
     (if carrier_values = [] then lift_step (Err NoCarrierOutputs)
      else
        let redeem = redeem_script (kl_pubkey kl carrier_key);
            carriers = map (\<lambda>v. (kl_hash160 kl redeem, v)) carrier_values;
            carrier_total = sum_list carrier_values;
            script = p2sh_script_pubkey (kl_hash160 kl) redeem in
        bind_step (select_for bl (sf_wallet sf) (for_network (fc_network ctx)) (fc_target_height ctx) carriers []
            carrier_total plan_id)
          (\<lambda>(sel, fee).
            case Option.bind (checked_sub (sel_selected_value sel) carrier_total) (\<lambda>v. checked_sub v fee) of
              None \<Rightarrow> lift_step (Err InsufficientSelected)
            | Some change \<Rightarrow>
                lift_step (map_err BuildFailure (finish_plan bl vl kl ctx plan_id (ReqPrepare carrier_values) carriers []
                  (map (\<lambda>v. \<lparr>po_value = v, po_script = script\<rparr>) carrier_values) 0 sel fee change))))"

definition shielded_plan_of ::
    "('x, 'p) builder_lib \<Rightarrow> ('x, 'p) view_lib \<Rightarrow> 'k key_lib \<Rightarrow> ('w, 'x, 'k) shielded_funding \<Rightarrow> string \<Rightarrow> tx_request \<Rightarrow> fund_context
      \<Rightarrow> ('w, shielded_error, ('x, 'p) shielded_plan) step" where
  "shielded_plan_of bl vl kl sf plan_id req ctx =
     bind_step (lift_step (map_err BadContext (validate_context ctx))) (\<lambda>_.
       case req of
         ReqCall op_return \<Rightarrow> shielded_plan_call bl vl kl sf plan_id op_return ctx
       | ReqPrepare carrier_values \<Rightarrow>
           (case sf_carrier_key sf of
              None \<Rightarrow> lift_step (Err NoCarrierKey)
            | Some key \<Rightarrow> shielded_plan_prepare bl vl kl sf plan_id key carrier_values ctx)
       | ReqDeploy _ _ _ _ \<Rightarrow> lift_step (Err DeployNotShielded))"

section \<open>Description\<close>

definition shielded_minimum_policy :: "('x, 'p) shielded_plan \<Rightarrow> privacy_policy" where
  "shielded_minimum_policy p =
     (case zp_request p of
        ReqCall _ \<Rightarrow> FullPrivacy
      | ReqPrepare _ \<Rightarrow> AllowRevealedAmounts
      | ReqDeploy _ _ _ _ \<Rightarrow> AllowFullyTransparent)"

definition shielded_payload_hex :: "hex_lib \<Rightarrow> ('x, 'p) shielded_plan \<Rightarrow> string" where
  "shielded_payload_hex hx p =
     (case op_return_payload (zp_request p) of
        Some payload \<Rightarrow> hex_encode hx payload
      | None \<Rightarrow>
          (case zp_request p of
             ReqPrepare carrier_values \<Rightarrow>
               ''carrier outputs x'' @ decimal (length carrier_values) @ '' (''
                 @ decimal (unat (sum_list carrier_values)) @ '' zat total)''
           | _ \<Rightarrow> ''n/a''))"

definition shielded_describe_lines :: "hex_lib \<Rightarrow> ('x, 'p) shielded_plan \<Rightarrow> string list" where
  "shielded_describe_lines hx p =
     [''Shielded spends:    '' @ decimal (length (xe_spends (zp_expected p))) @ '' note(s), ''
        @ decimal (unat (zp_selected_value p)) @ '' zat'',
      ''Shielded change:    '' @ decimal (unat (zp_change p)) @ '' zat -> ''
        @ (if zp_change_pool p = 2 then ''ironwood'' else ''orchard'') @ '' pool, destination ''
        @ hex_encode hx (zp_change_destination p)]"

end
