(* ===== verification/Shielded_Props.thy ===== *)
theory Shielded_Props
  imports Shielded_Plan Plan_Stages
begin

text \<open>
  What a shielded plan lets out of the wallet: the declarative meaning of its two verification
  layers, and the invariant of its stages.
\<close>

section \<open>What a verified PCZT is\<close>

definition action_conforms ::
    "('x, 'p) view_lib \<Rightarrow> value_pool \<Rightarrow> 'x shielded_expectations \<Rightarrow> nat \<Rightarrow> 'x pczt_action \<Rightarrow> bool" where
  "action_conforms vl pool xe i a \<longleftrightarrow>
     (case find (\<lambda>s. xs_action_index s = i) (pool_spends pool xe) of
        Some s \<Rightarrow> pn_nullifier a = xs_nullifier s \<and> pn_spend_value a = Some (xs_value s)
      | None \<Rightarrow> pn_spend_value a = Some 0)
     \<and> (let xc = xe_change xe in
        if xc_pool xc = pool \<and> xc_action_index xc = i
        then pn_recipient a = Some (xc_address_bytes xc) \<and> pn_value a = Some (xc_value xc)
          \<and> xv_commitment_ok vl a = Ok () \<and> xv_decrypt vl pool (xc_ivk xc) a = Some (xc_value xc, xc_address_bytes xc)
        else pn_value a = Some 0)"

lemma check_spend_Ok:
  "check_spend spends i a = Ok () \<longleftrightarrow>
     (case find (\<lambda>s. xs_action_index s = i) spends of
        Some s \<Rightarrow> pn_nullifier a = xs_nullifier s \<and> pn_spend_value a = Some (xs_value s)
      | None \<Rightarrow> pn_spend_value a = Some 0)"
  by (auto simp: check_spend_def split: option.splits)

lemma check_change_Ok:
  "check_change vl pool xc i a = Ok c \<longleftrightarrow>
     pn_recipient a = Some (xc_address_bytes xc) \<and> pn_value a = Some (xc_value xc)
     \<and> xv_commitment_ok vl a = Ok () \<and> xv_decrypt vl pool (xc_ivk xc) a = Some (xc_value xc, xc_address_bytes xc)
     \<and> c = pn_cmx a"
  by (auto simp: check_change_def split: option.splits)

lemma check_output_Ok: "check_output i a = Ok () \<longleftrightarrow> pn_value a = Some 0"
  by (auto simp: check_output_def split: option.splits)

lemma check_actions_Ok:
  "check_actions vl pool xe idx actions cmx = Ok cmx' \<longleftrightarrow>
     (\<forall>i < length actions. action_conforms vl pool xe (idx + i) (actions ! i))
     \<and> cmx' = (let xc = xe_change xe in
         if xc_pool xc = pool \<and> idx \<le> xc_action_index xc \<and> xc_action_index xc < idx + length actions
         then Some (pn_cmx (actions ! (xc_action_index xc - idx))) else cmx)"
proof (induction actions arbitrary: idx cmx)
  case (Cons a actions)
  have split: "(\<forall>i < length (a # actions). action_conforms vl pool xe (idx + i) ((a # actions) ! i))
      \<longleftrightarrow> action_conforms vl pool xe idx a \<and> (\<forall>i < length actions. action_conforms vl pool xe (Suc idx + i) (actions ! i))"
    by (auto simp: less_Suc_eq_0_disj)
  show ?case
    unfolding split check_actions.simps
    using Cons.IH
    by (auto simp: check_spend_Ok check_change_Ok check_output_Ok action_conforms_def Let_def nth_Cons'
        split: if_splits)
qed (auto simp: Let_def)

definition bundle_conforms ::
    "('x, 'p) view_lib \<Rightarrow> value_pool \<Rightarrow> 'x shielded_expectations \<Rightarrow> 'x pczt_bundle \<Rightarrow> bool" where
  "bundle_conforms vl pool xe b \<longleftrightarrow>
     length (pq_actions b) = expected_actions pool xe
     \<and> (\<forall>i < length (pq_actions b). action_conforms vl pool xe i (pq_actions b ! i))
     \<and> (pq_actions b \<noteq> [] \<longrightarrow> pq_pool b = pool \<and> expected_anchor pool xe = Some (pq_anchor b)
          \<and> bundle_net b = expected_net pool xe)"

definition change_cmx_in :: "value_pool \<Rightarrow> 'x shielded_expectations \<Rightarrow> 'x pczt_bundle \<Rightarrow> b32 option" where
  "change_cmx_in pool xe b =
     (let xc = xe_change xe in
      if xc_pool xc = pool \<and> xc_action_index xc < length (pq_actions b)
      then Some (pn_cmx (pq_actions b ! xc_action_index xc)) else None)"

lemma verify_pool_bundle_Ok:
  "verify_pool_bundle vl pool xe b cmx = Ok cmx' \<longleftrightarrow>
     bundle_conforms vl pool xe b
     \<and> cmx' = (if change_cmx_in pool xe b = None then cmx else change_cmx_in pool xe b)"
proof (cases "length (pq_actions b) = expected_actions pool xe \<and> expected_actions pool xe \<noteq> 0")
  case True
  then have "pq_actions b \<noteq> []" by auto
  with True show ?thesis
    by (auto simp: verify_pool_bundle_def bundle_conforms_def check_actions_Ok change_cmx_in_def Let_def
        split: option.splits if_splits)
next
  case False
  then show ?thesis
    by (auto simp: verify_pool_bundle_def bundle_conforms_def change_cmx_in_def Let_def)
qed

lemma check_plan_outputs_Ok:
  "length outs = length planned \<Longrightarrow> check_plan_outputs i outs planned = Ok () \<longleftrightarrow> outs = planned"
  by (induction i outs planned rule: check_plan_outputs.induct) (auto intro: plan_output.equality)

lemma check_transparent_side_Ok:
  "check_transparent_side n outs planned = Ok () \<longleftrightarrow> n = 0 \<and> outs = planned"
  by (auto simp: check_transparent_side_def check_plan_outputs_Ok)

definition pczt_conforms ::
    "('x, 'p) builder_lib \<Rightarrow> ('x, 'p) view_lib \<Rightarrow> ('x, 'p) shielded_plan \<Rightarrow> 'p \<Rightarrow> b32 \<Rightarrow> bool" where
  "pczt_conforms bl vl p q c \<longleftrightarrow>
     xv_expiry vl q = zp_expiry_height p \<and> xv_branch vl q = xl_branch_u32 bl (zp_branch_id p)
     \<and> xv_inputs vl q = 0 \<and> xv_outputs vl q = zp_transparent_outputs p
     \<and> (\<exists>b b'. xv_bundle vl Orchard q = Ok b \<and> xv_bundle vl Ironwood q = Ok b'
          \<and> bundle_conforms vl Orchard (zp_expected p) b \<and> bundle_conforms vl Ironwood (zp_expected p) b'
          \<and> change_cmx_in (xc_pool (xe_change (zp_expected p))) (zp_expected p)
              (of_pool (xc_pool (xe_change (zp_expected p))) b b') = Some c)"

lemma change_cmx_other [simp]: "xc_pool (xe_change xe) \<noteq> pool \<Longrightarrow> change_cmx_in pool xe b = None"
  by (simp add: change_cmx_in_def Let_def)

lemma verify_finalized_Ok:
  "verify_finalized_pczt bl vl rl p q = Ok v \<longleftrightarrow>
     (\<exists>c. pczt_conforms bl vl p q c \<and> v = \<lparr>vp_pczt = xr_finish rl Verifier q, vp_change_cmx = c\<rparr>)"
proof (cases "xc_pool (xe_change (zp_expected p))")
  case Orchard
  then show ?thesis
    by (simp add: verify_finalized_pczt_def pczt_conforms_def with_bundle_def check_transparent_side_Ok
        verify_pool_bundle_Ok of_pool_def split: if_splits) blast
next
  case Ironwood
  then show ?thesis
    by (simp add: verify_finalized_pczt_def pczt_conforms_def with_bundle_def check_transparent_side_Ok
        verify_pool_bundle_Ok of_pool_def split: if_splits) blast
qed

section \<open>What a verified transaction is\<close>

definition final_pool_conforms :: "'x shielded_expectations \<Rightarrow> b32 \<Rightarrow> value_pool \<Rightarrow> final_bundle option \<Rightarrow> bool" where
  "final_pool_conforms xe c pool bundle \<longleftrightarrow>
     (case bundle of
        None \<Rightarrow> expected_actions pool xe = 0
      | Some b \<Rightarrow>
          length (fb_actions b) = expected_actions pool xe
          \<and> expected_anchor pool xe = Some (fb_anchor b) \<and> fb_value_balance b = expected_net pool xe
          \<and> (\<forall>s \<in> set (pool_spends pool xe). xs_action_index s < length (fb_actions b)
               \<and> fst (fb_actions b ! xs_action_index s) = xs_nullifier s)
          \<and> (xc_pool (xe_change xe) = pool \<longrightarrow> xc_action_index (xe_change xe) < length (fb_actions b)
               \<and> snd (fb_actions b ! xc_action_index (xe_change xe)) = c))"

definition final_conforms :: "('x, 'p) view_lib \<Rightarrow> ('x, 'p) shielded_plan \<Rightarrow> b32 \<Rightarrow> signed_tx \<Rightarrow> bool" where
  "final_conforms vl p c tx \<longleftrightarrow>
     (\<exists>f. xv_read vl (st_bytes tx) (zp_branch_id p) = Ok f
        \<and> fx_version f = (if zp_tx_version p = ''v6'' then TxV6 else TxV5) \<and> fx_expiry f = zp_expiry_height p
        \<and> fx_transparent f = Some (0, zp_transparent_outputs p) \<and> fx_fee f = Ok (Some (zp_fee p))
        \<and> final_pool_conforms (zp_expected p) c Orchard (fx_orchard f)
        \<and> final_pool_conforms (zp_expected p) c Ironwood (fx_ironwood f))"

lemma check_nullifiers_Ok:
  "check_nullifiers actions ss = Ok () \<longleftrightarrow>
     (\<forall>s \<in> set ss. xs_action_index s < length actions \<and> fst (actions ! xs_action_index s) = xs_nullifier s)"
  by (induction ss) (auto simp: not_le)

lemma verify_final_pool_Ok:
  assumes "zp_expected_change_cmx p = Some c"
  shows "verify_final_pool p pool fb = Ok () \<longleftrightarrow> final_pool_conforms (zp_expected p) c pool fb"
proof (cases fb)
  case (Some b)
  have "check_change_cmx pool (xe_change (zp_expected p)) (Some c) (fb_actions b) = Ok () \<longleftrightarrow>
      (xc_pool (xe_change (zp_expected p)) = pool \<longrightarrow> xc_action_index (xe_change (zp_expected p)) < length (fb_actions b)
         \<and> snd (fb_actions b ! xc_action_index (xe_change (zp_expected p))) = c)"
    by (auto simp: check_change_cmx_def)
  then show ?thesis
    using assms by (auto simp: verify_final_pool_def final_pool_conforms_def Some Let_def check_nullifiers_Ok)
qed (simp add: verify_final_pool_def final_pool_conforms_def)

lemma verify_final_extracted_Ok:
  assumes "zp_expected_change_cmx p = Some c"
  shows "shielded_verify_extracted vl p tx = Ok () \<longleftrightarrow> final_conforms vl p c tx"
  using verify_final_pool_Ok [OF assms]
  by (auto simp: shielded_verify_extracted_def final_conforms_def Let_def check_transparent_side_Ok)

section \<open>One transaction per shielded plan\<close>

text \<open>Any calls of the stages, with time passing in between, and what they give out.\<close>

inductive authorized_shielded ::
    "('x, 'p) builder_lib \<Rightarrow> ('x, 'p) view_lib \<Rightarrow> ('x, 'p, 't) role_lib \<Rightarrow> ('x, 'p) shielded_plan
      \<Rightarrow> 'w \<times> ('x, 'p) shielded_plan \<Rightarrow> handed_out list \<Rightarrow> bool"
  for bl vl rl p0 where
  starts: "authorized_shielded bl vl rl p0 (w, p0) []"
| waits: "authorized_shielded bl vl rl p0 (w, p) outs \<Longrightarrow> authorized_shielded bl vl rl p0 (w', p) outs"
| proves: "authorized_shielded bl vl rl p0 s outs \<Longrightarrow> prove_shielded_plan rl src s = (s', r)
    \<Longrightarrow> authorized_shielded bl vl rl p0 s' outs"
| signs: "authorized_shielded bl vl rl p0 s outs \<Longrightarrow> sign_shielded_plan rl src s = (s', r)
    \<Longrightarrow> authorized_shielded bl vl rl p0 s' outs"
| extracts: "authorized_shielded bl vl rl p0 s outs \<Longrightarrow> extract_shielded_plan bl vl rl src s = (s', r)
    \<Longrightarrow> authorized_shielded bl vl rl p0 s' (outs @ (case r of Inl e \<Rightarrow> [] | Inr tx \<Rightarrow> [Extracted tx]))"
| hands_over: "authorized_shielded bl vl rl p0 s outs \<Longrightarrow> extract_verified_shielded bl vl rl src s = (s', r)
    \<Longrightarrow> authorized_shielded bl vl rl p0 s' (outs @ (case r of Inl e \<Rightarrow> [] | Inr vt \<Rightarrow> [HandedOver vt]))"

definition with_progress ::
    "('x, 'p) shielded_plan \<Rightarrow> plan_stage \<Rightarrow> 'p option \<Rightarrow> b32 option \<Rightarrow> signed_tx option \<Rightarrow> ('x, 'p) shielded_plan" where
  "with_progress p stage pczt cmx tx =
     p\<lparr>zp_stage := stage, zp_pczt := pczt, zp_expected_change_cmx := cmx, zp_signed := tx\<rparr>"

lemma with_progress_simps [simp]:
  "zp_stage (with_progress p st q c tx) = st" "zp_pczt (with_progress p st q c tx) = q"
  "zp_expected_change_cmx (with_progress p st q c tx) = c" "zp_canonical_tip (with_progress p st q c tx) = zp_canonical_tip p"
  "zp_plan_id (with_progress p st q c tx) = zp_plan_id p" "zp_intent_hash (with_progress p st q c tx) = zp_intent_hash p"
  "zp_circuit_version (with_progress p st q c tx) = zp_circuit_version p"
  "pczt_conforms bl vl (with_progress p st q c tx) = pczt_conforms bl vl p"
  "final_conforms vl (with_progress p st q c tx) = final_conforms vl p"
  "(with_progress p st q c tx)\<lparr>zp_pczt := q'\<rparr> = with_progress p st q' c tx"
  "(with_progress p st q c tx)\<lparr>zp_stage := st'\<rparr> = with_progress p st' q c tx"
  "(with_progress p st q c tx)\<lparr>zp_expected_change_cmx := c'\<rparr> = with_progress p st q c' tx"
  "(with_progress p st q c tx)\<lparr>zp_signed := tx'\<rparr> = with_progress p st q c tx'"
  by (simp_all add: with_progress_def pczt_conforms_def final_conforms_def fun_eq_iff)

lemma with_progress_inject [simp]:
  "with_progress p st q c tx = with_progress p st' q' c' tx' \<longleftrightarrow> st = st' \<and> q = q' \<and> c = c' \<and> tx = tx'"
  by (metis with_progress_simps(1-3) with_progress_def shielded_plan.select_convs(21) shielded_plan.surjective
      shielded_plan.update_convs)

lemma with_progress_self: "with_progress p (zp_stage p) (zp_pczt p) (zp_expected_change_cmx p) (zp_signed p) = p"
  by (simp add: with_progress_def)

text \<open>The transaction that the extractor makes of a PCZT that passed the verification.\<close>

definition extracted_of ::
    "('x, 'p) builder_lib \<Rightarrow> ('x, 'p) view_lib \<Rightarrow> ('x, 'p, 't) role_lib \<Rightarrow> ('x, 'p) shielded_plan \<Rightarrow> b32 \<Rightarrow> signed_tx \<Rightarrow> bool" where
  "extracted_of bl vl rl p c tx \<longleftrightarrow>
     (\<exists>q t. pczt_conforms bl vl p q c \<and> xr_extract rl (xr_finish rl Verifier q) = Ok t
        \<and> xr_write rl t = Ok (st_bytes tx) \<and> st_txid tx = xr_txid rl t)"

definition shielded_inv ::
    "('x, 'p) builder_lib \<Rightarrow> ('x, 'p) view_lib \<Rightarrow> ('x, 'p, 't) role_lib \<Rightarrow> ('x, 'p) shielded_plan \<Rightarrow> ('x, 'p) shielded_plan
      \<Rightarrow> handed_out list \<Rightarrow> bool" where
  "shielded_inv bl vl rl p0 p outs \<longleftrightarrow>
     (\<exists>st q c tx. p = with_progress p0 st q c tx
        \<and> (outs = [] \<or> st = StageExtracted \<and> (\<exists>cmx stx. c = Some cmx \<and> extracted_of bl vl rl p0 cmx stx \<and>
            (outs = [Extracted stx] \<or> final_conforms vl p0 cmx stx \<and>
             outs = [HandedOver \<lparr>vt_bytes = st_bytes stx, vt_txid = st_txid stx, vt_plan_id = zp_plan_id p0,
                       vt_intent_hash = zp_intent_hash p0, vt_tip = zp_canonical_tip p0\<rparr>]))))"

lemma shielded_freshE:
  assumes "shielded_fresh src f s = (s', r)"
  obtains (stale) w e where "s' = (w, snd s)" "r = Err e"
    | (fresh) w where "f (zp_canonical_tip (snd s)) (w, snd s) = (s', r)"
proof -
  obtain w p where s: "s = (w, p)" by fastforce
  obtain w1 t where t: "src w = (w1, t)" by fastforce
  show thesis
    using assms t stale fresh by (cases t) (auto simp: s shielded_fresh_def split: if_splits)
qed

lemma take_pcztE:
  assumes "take_pczt st work p = (p', r)"
  obtains (refused) e where "p' = p" "r = Err e"
    | (works) q where "zp_stage p = st" "zp_pczt p = Some q" "work q (p\<lparr>zp_pczt := None\<rparr>) = (p', r)"
  using assms that by (auto simp: take_pczt_def shielded_expect_stage_def split: if_splits option.splits)

text \<open>Proving and signing: the plan's contents stay, and nothing is given out.\<close>

lemma shielded_prove_inv:
  assumes "shielded_inv bl vl rl p0 p outs" "shielded_prove rl p = (p', r)"
  shows "shielded_inv bl vl rl p0 p' outs"
  using assms(2) unfolding shielded_prove_def
proof (cases rule: take_pcztE)
  case (works q)
  then show ?thesis
    using assms(1) by (auto simp: shielded_inv_def split: sum.splits)
qed (use assms(1) in simp)

lemma shielded_sign_inv:
  assumes "shielded_inv bl vl rl p0 p outs" "shielded_sign rl p = (p', r)"
  shows "shielded_inv bl vl rl p0 p' outs"
  using assms(2) unfolding shielded_sign_def
proof (cases rule: take_pcztE)
  case (works q)
  then show ?thesis
    using assms(1) by (auto simp: shielded_inv_def split: sum.splits)
qed (use assms(1) in simp)

text \<open>Extracting: a transaction comes out of a conforming PCZT only, and only as the first one.\<close>

lemma shielded_extract_inv:
  assumes "shielded_inv bl vl rl p0 p outs" "shielded_extract bl vl rl p = (p', r)"
  shows "case r of
      Inl e \<Rightarrow> shielded_inv bl vl rl p0 p' outs
    | Inr stx \<Rightarrow> outs = [] \<and> (\<exists>q c tx. p' = with_progress p0 StageExtracted q (Some c) tx \<and> extracted_of bl vl rl p0 c stx)"
  using assms(2) unfolding shielded_extract_def
proof (cases rule: take_pcztE)
  case (works q)
  obtain st q0 c tx where p: "p = with_progress p0 st q0 c tx" using assms(1) by (auto simp: shielded_inv_def)
  have outs: "outs = []" using assms(1) works(1) by (auto simp: shielded_inv_def p)
  have signed: "st = StageSigned" using works(1) p by simp
  show ?thesis
  proof (cases "verify_finalized_pczt bl vl rl (with_progress p0 StageSigned None c tx) q")
    case (Inl e)
    then show ?thesis using works(3) outs by (auto simp: p signed shielded_inv_def)
  next
    case (Inr v)
    then obtain cmx where v: "pczt_conforms bl vl p0 q cmx" "v = \<lparr>vp_pczt = xr_finish rl Verifier q, vp_change_cmx = cmx\<rparr>"
      by (auto simp: verify_finalized_Ok)
    show ?thesis
    proof (cases r)
      case (Inl e)
      then show ?thesis
        using works(3) Inr outs by (auto simp: p signed v(2) extract_from_verified_def shielded_inv_def split: sum.splits)
    next
      case (Inr stx)
      then show ?thesis
        using works(3) \<open>_ = Inr v\<close> outs v
        by (auto simp: p signed extract_from_verified_def extracted_of_def split: sum.splits) blast
    qed
  qed
qed (use assms(1) in simp)

lemma authorized_shielded_inv:
  assumes "authorized_shielded bl vl rl p0 s outs"
  shows "shielded_inv bl vl rl p0 (snd s) outs"
  using assms
proof (induction rule: authorized_shielded.induct)
  case (starts w)
  then show ?case
    using with_progress_self [of p0] by (simp add: shielded_inv_def) metis
next
  case (proves s outs src s' r)
  from proves.hyps(2) show ?case unfolding prove_shielded_plan_def
    by (cases rule: shielded_freshE)
      (use proves.IH in \<open>auto simp: on_shielded_def split: prod.splits dest: shielded_prove_inv\<close>)
next
  case (signs s outs src s' r)
  from signs.hyps(2) show ?case unfolding sign_shielded_plan_def
    by (cases rule: shielded_freshE)
      (use signs.IH in \<open>auto simp: on_shielded_def split: prod.splits dest: shielded_sign_inv\<close>)
next
  case (extracts s outs src s' r)
  from extracts.hyps(2) show ?case unfolding extract_shielded_plan_def
  proof (cases rule: shielded_freshE)
    case (fresh w)
    then have "shielded_extract bl vl rl (snd s) = (snd s', r)" by (auto simp: on_shielded_def split: prod.splits)
    from shielded_extract_inv [OF extracts.IH this] show ?thesis
      by (auto simp: shielded_inv_def split: sum.splits)
  qed (use extracts.IH in simp)
next
  case (hands_over s outs src s' r)
  from hands_over.hyps(2) show ?case unfolding extract_verified_shielded_def
  proof (cases rule: shielded_freshE)
    case (fresh w)
    from fresh show ?thesis
    proof (cases rule: bind_stepE)
      case (failed e)
      then show ?thesis unfolding extract_shielded_plan_def
        by (cases rule: shielded_freshE)
          (use hands_over.IH failed(2) shielded_extract_inv [OF hands_over.IH] in
            \<open>force simp: on_shielded_def split: prod.splits\<close>)+
    next
      case (ok s1 stx)
      from ok(1) have "shielded_extract bl vl rl (snd s) = (snd s1, Ok stx)"
        unfolding extract_shielded_plan_def
        by (cases rule: shielded_freshE) (auto simp: on_shielded_def split: prod.splits)
      from shielded_extract_inv [OF hands_over.IH this] obtain q c tx where
        out: "outs = []" "snd s1 = with_progress p0 StageExtracted q (Some c) tx" "extracted_of bl vl rl p0 c stx" by auto
      have tip: "zp_canonical_tip (snd s) = zp_canonical_tip p0"
        using hands_over.IH by (auto simp: shielded_inv_def)
      show ?thesis
        using ok(2) out tip
        by (auto simp: on_shielded_def shielded_inv_def verify_final_extracted_Ok split: prod.splits sum.splits)
    qed
  qed (use hands_over.IH in simp)
qed simp

section \<open>What can be paid\<close>

text \<open>Every note of value that is spent is a planned one, at the planned value; every note of value
  that is created is the change, to the wallet's own address and readable by its own key; the
  transparent side is the planned one.\<close>

definition pays_only_planned :: "('x, 'p) view_lib \<Rightarrow> ('x, 'p) shielded_plan \<Rightarrow> 'p \<Rightarrow> bool" where
  "pays_only_planned vl p q \<longleftrightarrow>
     xv_inputs vl q = 0 \<and> xv_outputs vl q = zp_transparent_outputs p
     \<and> (\<forall>pool. \<exists>b. xv_bundle vl pool q = Ok b
          \<and> (\<forall>a \<in> set (pq_actions b).
               (\<exists>v. pn_spend_value a = Some v \<and> (v \<noteq> 0 \<longrightarrow>
                  (\<exists>s \<in> set (xe_spends (zp_expected p)). xs_pool s = pool \<and> xs_nullifier s = pn_nullifier a \<and> xs_value s = v)))
               \<and> (\<exists>v. pn_value a = Some v \<and> (v \<noteq> 0 \<longrightarrow>
                  (let xc = xe_change (zp_expected p) in
                   xc_pool xc = pool \<and> v = xc_value xc \<and> pn_recipient a = Some (xc_address_bytes xc)
                   \<and> xv_decrypt vl pool (xc_ivk xc) a = Some (v, xc_address_bytes xc))))))"

lemma found_spend: "find P (pool_spends pool xe) = Some s \<Longrightarrow> s \<in> set (xe_spends xe) \<and> xs_pool s = pool"
proof -
  assume "find P (pool_spends pool xe) = Some s"
  then have "s \<in> set (pool_spends pool xe)" by (auto simp: find_Some_iff)
  then show ?thesis by (simp add: pool_spends_def)
qed

lemma conforming_action_pays:
  assumes "action_conforms vl pool xe i a"
  shows "\<exists>v. pn_spend_value a = Some v \<and> (v \<noteq> 0 \<longrightarrow>
      (\<exists>s \<in> set (xe_spends xe). xs_pool s = pool \<and> xs_nullifier s = pn_nullifier a \<and> xs_value s = v))"
    "\<exists>v. pn_value a = Some v \<and> (v \<noteq> 0 \<longrightarrow> (let xc = xe_change xe in
      xc_pool xc = pool \<and> v = xc_value xc \<and> pn_recipient a = Some (xc_address_bytes xc)
      \<and> xv_decrypt vl pool (xc_ivk xc) a = Some (v, xc_address_bytes xc)))"
  using assms
  by (auto simp: action_conforms_def Let_def dest!: found_spend split: option.splits if_splits)

lemma conforming_pays:
  assumes "pczt_conforms bl vl p q c"
  shows "pays_only_planned vl p q"
proof -
  have "\<exists>b. xv_bundle vl pool q = Ok b \<and> bundle_conforms vl pool (zp_expected p) b" for pool
    using assms by (cases pool) (auto simp: pczt_conforms_def)
  then obtain b where b: "xv_bundle vl pool q = Ok (b pool)" "bundle_conforms vl pool (zp_expected p) (b pool)" for pool
    by metis
  have "\<exists>i. action_conforms vl pool (zp_expected p) i a" if "a \<in> set (pq_actions (b pool))" for a pool
    using b(2) [of pool] that by (auto simp: bundle_conforms_def in_set_conv_nth)
  then have "\<forall>a \<in> set (pq_actions (b pool)).
      (\<exists>v. pn_spend_value a = Some v \<and> (v \<noteq> 0 \<longrightarrow>
         (\<exists>s \<in> set (xe_spends (zp_expected p)). xs_pool s = pool \<and> xs_nullifier s = pn_nullifier a \<and> xs_value s = v)))
      \<and> (\<exists>v. pn_value a = Some v \<and> (v \<noteq> 0 \<longrightarrow> (let xc = xe_change (zp_expected p) in
           xc_pool xc = pool \<and> v = xc_value xc \<and> pn_recipient a = Some (xc_address_bytes xc)
           \<and> xv_decrypt vl pool (xc_ivk xc) a = Some (v, xc_address_bytes xc))))" for pool
    using conforming_action_pays by blast
  then show ?thesis
    using assms b(1) by (simp add: pays_only_planned_def pczt_conforms_def)
qed

text \<open>C19. However the stages of a shielded plan are called, and whatever the node and the libraries
  answer: the plan gives out at most one transaction. It was extracted from a PCZT that spends no
  note of value but the planned ones and creates none but the planned change to the wallet itself,
  with exactly the planned transparent outputs; and it is handed over for broadcasting only if,
  read back from its bytes, it has the planned version, expiry, outputs, nullifiers, anchors,
  value balances, fee and the verified change note, with the plan's own id, commitment and tip.\<close>

theorem shielded_pays_only_planned:
  assumes "authorized_shielded bl vl rl p0 (w, p) outs" "out \<in> set outs"
  shows "outs = [out] \<and> zp_stage p = StageExtracted \<and> zp_expected p = zp_expected p0
    \<and> (\<exists>q c t stx. xr_extract rl (xr_finish rl Verifier q) = Ok t \<and> xr_write rl t = Ok (st_bytes stx)
        \<and> st_txid stx = xr_txid rl t \<and> pays_only_planned vl p0 q \<and> pczt_conforms bl vl p0 q c
        \<and> (out = Extracted stx \<or> final_conforms vl p0 c stx \<and>
            out = HandedOver \<lparr>vt_bytes = st_bytes stx, vt_txid = st_txid stx, vt_plan_id = zp_plan_id p0,
                    vt_intent_hash = zp_intent_hash p0, vt_tip = zp_canonical_tip p0\<rparr>))"
proof -
  have "shielded_inv bl vl rl p0 p outs" using authorized_shielded_inv [OF assms(1)] by simp
  then obtain q c tx stx cmx where p: "p = with_progress p0 StageExtracted q c tx"
    and x: "extracted_of bl vl rl p0 cmx stx"
    and outs: "outs = [Extracted stx] \<or> final_conforms vl p0 cmx stx \<and>
             outs = [HandedOver \<lparr>vt_bytes = st_bytes stx, vt_txid = st_txid stx, vt_plan_id = zp_plan_id p0,
                       vt_intent_hash = zp_intent_hash p0, vt_tip = zp_canonical_tip p0\<rparr>]"
    using assms(2) by (auto simp: shielded_inv_def)
  from x obtain q' t where ex: "pczt_conforms bl vl p0 q' cmx" "xr_extract rl (xr_finish rl Verifier q') = Ok t"
    "xr_write rl t = Ok (st_bytes stx)" "st_txid stx = xr_txid rl t" by (auto simp: extracted_of_def)
  have "zp_expected p = zp_expected p0" "zp_stage p = StageExtracted" by (simp_all add: p with_progress_def)
  moreover have "outs = [out]" using outs assms(2) by auto
  moreover have "out = Extracted stx \<or> final_conforms vl p0 cmx stx \<and>
      out = HandedOver \<lparr>vt_bytes = st_bytes stx, vt_txid = st_txid stx, vt_plan_id = zp_plan_id p0,
              vt_intent_hash = zp_intent_hash p0, vt_tip = zp_canonical_tip p0\<rparr>"
    using outs assms(2) by auto
  ultimately show ?thesis using ex conforming_pays [OF ex(1)] by blast
qed

section \<open>An example\<close>

text \<open>A call funded by one Ironwood note of 50000 zat: a fee of 10000 and 40000 back.\<close>

definition demo_shielded_selection :: "nat shielded_selection" where
  "demo_shielded_selection =
     \<lparr>sel_spends = [\<lparr>ssp_fvk = 1, ssp_ask = 2, ssp_note = 3, ssp_merkle_path = 4, ssp_value = 50000, ssp_pool = Ironwood\<rparr>],
      sel_selected_value = 50000, sel_change_address = replicate 43 9, sel_change_fvk = 1, sel_change_ask = 2,
      sel_change_ovk = None, sel_change_pool = Ironwood, sel_anchor_height = 6, sel_orchard_anchor = None,
      sel_ironwood_anchor = Some (fill32 8),
      sel_output_refs = [\<lparr>or_txid = fill32 2, or_pool = Ironwood, or_index = 0\<rparr>], sel_lock_owner = fill32 1\<rparr>"

definition demo_shielded_wallet :: "(unit, nat) shielded_wallet" where
  "demo_shielded_wallet =
     \<lparr>sw_sync_status = \<lambda>tip w. (w, Err []), sw_select_spends = \<lambda>required plan_id w. (w, Ok demo_shielded_selection),
      sw_release = \<lambda>plan_id w. (w, Ok ())\<rparr>"

definition demo_builder :: "(nat, unit) builder_lib" where
  "demo_builder =
     \<lparr>xl_for_height = \<lambda>params h. Nu6_3, xl_branch_u32 = \<lambda>b. 7, xl_zatoshis_ok = \<lambda>v. True, xl_add = \<lambda>b st. Ok (),
      xl_fee = \<lambda>b. Ok 10000,
      xl_build = \<lambda>b. Ok \<lparr>br_expiry_height = 120, br_is_v6 = True, br_parts = (),
        br_orchard_meta = \<lparr>bm_spend_index = \<lambda>i. None, bm_output_index = \<lambda>i. None\<rparr>,
        br_ironwood_meta = \<lparr>bm_spend_index = \<lambda>i. Some i, bm_output_index = \<lambda>i. Some i\<rparr>\<rparr>,
      xl_create = \<lambda>q. Some q, xl_finalize_io = \<lambda>q. Ok q, xl_nullifier = \<lambda>note fvk. fill32 5, xl_internal_ivk = \<lambda>fvk. 6\<rparr>"

definition demo_outputs :: "plan_output list" where
  "demo_outputs = [\<lparr>po_value = 0, po_script = op_return_script [1]\<rparr>]"

definition demo_view :: "(nat, unit) view_lib" where
  "demo_view =
     \<lparr>xv_action_count = \<lambda>pool q. of_pool pool 0 1, xv_expiry = \<lambda>q. 120, xv_branch = \<lambda>q. 7, xv_inputs = \<lambda>q. 0,
      xv_outputs = \<lambda>q. demo_outputs,
      xv_bundle = \<lambda>pool q. Ok (of_pool pool
        \<lparr>pq_pool = Orchard, pq_anchor = fill32 0, pq_actions = [], pq_magnitude = 0, pq_positive = True\<rparr>
        \<lparr>pq_pool = Ironwood, pq_anchor = fill32 8,
         pq_actions = [\<lparr>pn_nullifier = fill32 5, pn_spend_value = Some 50000, pn_recipient = Some (replicate 43 9),
                       pn_value = Some 40000, pn_cmx = fill32 3, pn_rest = 0\<rparr>],
         pq_magnitude = 10000, pq_positive = True\<rparr>),
      xv_commitment_ok = \<lambda>a. Ok (), xv_decrypt = \<lambda>pool ivk a. Some (40000, replicate 43 9),
      xv_read = \<lambda>bytes branch. Ok \<lparr>fx_version = TxV6, fx_expiry = 120, fx_transparent = Some (0, demo_outputs),
        fx_orchard = None,
        fx_ironwood = Some \<lparr>fb_anchor = fill32 8, fb_actions = [(fill32 5, fill32 3)], fb_value_balance = 10000\<rparr>,
        fx_fee = Ok (Some 10000)\<rparr>\<rparr>"

definition demo_roles :: "(nat, unit, unit) role_lib" where
  "demo_roles =
     \<lparr>xr_needs_proof = \<lambda>pool q. True, xr_prove = \<lambda>pool cv q. Ok q, xr_signer = \<lambda>q. Ok q, xr_sign = \<lambda>pool i ask q. Ok q,
      xr_finish = \<lambda>role q. q, xr_extract = \<lambda>q. Ok (), xr_write = \<lambda>t. Ok [7], xr_txid = \<lambda>t. fill32 4\<rparr>"

definition demo_keys :: "unit key_lib" where
  "demo_keys =
     \<lparr>kl_hex = plain_hex, kl_sha = \<lambda>x. fill32 0, kl_hash160 = \<lambda>x. replicate 20 0, kl_pubkey = \<lambda>k. replicate 33 2\<rparr>"

definition demo_shielded_funding :: "(unit, nat, unit) shielded_funding" where
  "demo_shielded_funding = \<lparr>sf_wallet = demo_shielded_wallet, sf_carrier_key = None\<rparr>"

lemma demo_shielded_plan:
  "\<exists>p. shielded_plan_of demo_builder demo_view demo_keys demo_shielded_funding ''p1'' (ReqCall [1]) demo_context () = ((), Ok p)
    \<and> zp_stage p = StagePlanned \<and> zp_pczt p = Some () \<and> zp_expected_change_cmx p = None \<and> zp_fee p = 10000
    \<and> zp_expiry_height p = 120 \<and> zp_transparent_outputs p = demo_outputs \<and> zp_tx_version p = ''v6''
    \<and> zp_branch_id p = Nu6_3 \<and> zp_canonical_tip p = fc_chain_tip demo_context
    \<and> zp_orchard_sign p = [] \<and> zp_ironwood_sign p = [(0, 2)]
    \<and> zp_expected p = \<lparr>xe_spends = [\<lparr>xs_pool = Ironwood, xs_action_index = 0, xs_nullifier = fill32 5, xs_value = 50000\<rparr>],
        xe_change = \<lparr>xc_pool = Ironwood, xc_action_index = 0, xc_value = 40000, xc_address_bytes = replicate 43 9, xc_ivk = 6\<rparr>,
        xe_actions_orchard = 0, xe_actions_ironwood = 1, xe_anchor_orchard = None, xe_anchor_ironwood = Some (fill32 8),
        xe_net_orchard = 0, xe_net_ironwood = 10000\<rparr>"
proof -
  have built: "assemble_builder demo_builder params th demo_shielded_selection [] [1] change
      = Ok \<lparr>tb_params = params, tb_target_height = th, tb_orchard_anchor = None, tb_ironwood_anchor = Some (fill32 8),
          tb_steps = [IronwoodSpend 1 3 4, NullDataOutput [1], IronwoodOutput None (replicate 43 9) change]\<rparr>"
    if "change \<noteq> 0" for params th change
    using that by (simp add: assemble_builder_def add_spend_def builder_add_def add_change_def demo_builder_def
        demo_shielded_selection_def Let_def)
  have "measured_fee demo_builder params th demo_shielded_selection [] [1] = Ok 10000" for params th
    by (simp add: measured_fee_def built) (simp add: demo_builder_def)
  then have rounds: "select_rounds (Suc n) demo_builder demo_shielded_wallet params th [] [1] 0 ''p1'' required ()
      = ((), Ok (demo_shielded_selection, 10000))" for n params th required
    by (simp add: bind_step_def select_step_def demo_shielded_wallet_def checked_add64_def)
      (simp add: demo_shielded_selection_def)
  have "select_rounds MAX_SELECT_ITERATIONS demo_builder demo_shielded_wallet params th [] [1] 0 ''p1'' required ()
      = ((), Ok (demo_shielded_selection, 10000))" for params th required
    using rounds [of 15] by (simp add: MAX_SELECT_ITERATIONS_def del: select_rounds.simps)
  then have select: "select_for demo_builder demo_shielded_wallet params th [] [1] 0 ''p1'' ()
      = ((), Ok (demo_shielded_selection, 10000))" for params th
    by (simp add: select_for_def bind_step_def checked_add64_def MINIMUM_FEE_def)
  have "assemble_and_build demo_builder params th demo_shielded_selection [] [1] 40000
      = Ok ((), \<lparr>bm_spend_index = \<lambda>i. None, bm_output_index = \<lambda>i. None\<rparr>,
          \<lparr>bm_spend_index = \<lambda>i. Some i, bm_output_index = \<lambda>i. Some i\<rparr>, ''v6'', 120)" for params th
    by (simp add: assemble_and_build_def built del: and_then_Ok_iff) (simp add: demo_builder_def)
  then show ?thesis
    by (simp add: shielded_plan_of_def shielded_plan_call_def validate_context_def demo_context_def fund_context_new_def
        demo_shielded_funding_def select bind_step_def finish_plan_def Let_def del: and_then_Ok_iff)
      (simp add: demo_shielded_selection_def demo_builder_def demo_view_def signing_plans_def build_expectations_def
        of_pool_def to_i64_def saturate_i64_def commit_shielded_def spent_anchor_def circuit_version_of_def
        branch_id_for_height_def demo_outputs_def del: and_then_Ok_iff)
qed

lemma shielded_pays_only_planned_witness:
  "\<exists>p0 p vt. shielded_plan_of demo_builder demo_view demo_keys demo_shielded_funding ''p1'' (ReqCall [1]) demo_context ()
      = ((), Ok p0)
    \<and> authorized_shielded demo_builder demo_view demo_roles p0 ((), p) [HandedOver vt] \<and> zp_stage p = StageExtracted
    \<and> vt_bytes vt = [7]"
proof -
  let ?src = "\<lambda>w :: unit. (w, Ok (fc_chain_tip demo_context) :: (string, canonical_tip) result)"
  obtain p0 where p0: "shielded_plan_of demo_builder demo_view demo_keys demo_shielded_funding ''p1'' (ReqCall [1]) demo_context ()
      = ((), Ok p0)"
    and plan: "zp_stage p0 = StagePlanned" "zp_pczt p0 = Some ()" "zp_expected_change_cmx p0 = None" "zp_fee p0 = 10000"
      "zp_expiry_height p0 = 120" "zp_transparent_outputs p0 = demo_outputs" "zp_tx_version p0 = ''v6''"
      "zp_branch_id p0 = Nu6_3" "zp_canonical_tip p0 = fc_chain_tip demo_context"
      "zp_orchard_sign p0 = []" "zp_ironwood_sign p0 = [(0, 2)]"
      "zp_expected p0 = \<lparr>xe_spends = [\<lparr>xs_pool = Ironwood, xs_action_index = 0, xs_nullifier = fill32 5, xs_value = 50000\<rparr>],
        xe_change = \<lparr>xc_pool = Ironwood, xc_action_index = 0, xc_value = 40000, xc_address_bytes = replicate 43 9, xc_ivk = 6\<rparr>,
        xe_actions_orchard = 0, xe_actions_ironwood = 1, xe_anchor_orchard = None, xe_anchor_ironwood = Some (fill32 8),
        xe_net_orchard = 0, xe_net_ironwood = 10000\<rparr>"
    using demo_shielded_plan by blast
  have proved: "prove_shielded_plan demo_roles ?src ((), p0) = (((), p0\<lparr>zp_stage := StageProven\<rparr>), Ok ())"
    using plan by (simp add: prove_shielded_plan_def shielded_fresh_def on_shielded_def shielded_prove_def take_pczt_def
        shielded_expect_stage_def create_proof_def demo_roles_def)
  have signed: "sign_shielded_plan demo_roles ?src ((), p0\<lparr>zp_stage := StageProven\<rparr>)
      = (((), p0\<lparr>zp_stage := StageSigned\<rparr>), Ok ())"
    using plan by (simp add: sign_shielded_plan_def shielded_fresh_def on_shielded_def shielded_sign_def take_pczt_def
        shielded_expect_stage_def sign_action_def demo_roles_def)
  let ?p1 = "p0\<lparr>zp_stage := StageExtracted, zp_pczt := None, zp_expected_change_cmx := Some (fill32 3),
      zp_signed := Some \<lparr>st_bytes = [7], st_txid = fill32 4\<rparr>\<rparr>"
  have "pczt_conforms demo_builder demo_view (p0\<lparr>zp_stage := StageSigned, zp_pczt := None\<rparr>) () (fill32 3)"
    using plan by (simp add: pczt_conforms_def demo_view_def demo_builder_def bundle_conforms_def of_pool_def
        expected_actions_def expected_anchor_def expected_net_def change_cmx_in_def action_conforms_def pool_spends_def
        bundle_net_def)
  then have "verify_finalized_pczt demo_builder demo_view demo_roles (p0\<lparr>zp_stage := StageSigned, zp_pczt := None\<rparr>) ()
      = Ok \<lparr>vp_pczt = (), vp_change_cmx = fill32 3\<rparr>"
    by (auto simp: verify_finalized_Ok demo_roles_def)
  then have extracted: "extract_shielded_plan demo_builder demo_view demo_roles ?src ((), p0\<lparr>zp_stage := StageSigned\<rparr>)
      = (((), ?p1), Ok \<lparr>st_bytes = [7], st_txid = fill32 4\<rparr>)"
    using plan by (simp add: extract_shielded_plan_def shielded_fresh_def on_shielded_def shielded_extract_def take_pczt_def
        shielded_expect_stage_def extract_from_verified_def demo_roles_def)
  have "final_conforms demo_view ?p1 (fill32 3) \<lparr>st_bytes = [7], st_txid = fill32 4\<rparr>"
    using plan by (simp add: final_conforms_def demo_view_def final_pool_conforms_def expected_actions_def expected_anchor_def
        expected_net_def of_pool_def pool_spends_def)
  then have "shielded_verify_extracted demo_view ?p1 \<lparr>st_bytes = [7], st_txid = fill32 4\<rparr> = Ok ()"
    by (subst verify_final_extracted_Ok) simp_all
  with extracted obtain vt where handed: "extract_verified_shielded demo_builder demo_view demo_roles ?src
      ((), p0\<lparr>zp_stage := StageSigned\<rparr>) = (((), ?p1), Ok vt)" "vt_bytes vt = [7]"
    using plan by (simp add: extract_verified_shielded_def shielded_fresh_def bind_step_def on_shielded_def)
  have "authorized_shielded demo_builder demo_view demo_roles p0 ((), p0\<lparr>zp_stage := StageSigned\<rparr>) []"
    by (rule authorized_shielded.signs [OF authorized_shielded.proves [OF authorized_shielded.starts proved] signed])
  from authorized_shielded.hands_over [OF this handed(1)]
  have run: "authorized_shielded demo_builder demo_view demo_roles p0 ((), ?p1) [HandedOver vt]" by simp
  from shielded_pays_only_planned [OF run, of "HandedOver vt"] have "zp_stage ?p1 = StageExtracted" by simp
  then show ?thesis using p0 run handed(2) by blast
qed

end
