(* ===== verification/Shielded_Value.thy ===== *)
theory Shielded_Value
  imports Shielded_Props
begin

text \<open>A shielded plan conserves value: what the selected notes hold is what the transparent outputs,
  the fee and the change add up to, and the value balances it expects of the two pools say so.\<close>

definition pool_value :: "value_pool \<Rightarrow> 'x shielded_spend list \<Rightarrow> int" where
  "pool_value pool ss = sum_list (map (uint \<circ> ssp_value) (filter (\<lambda>s. ssp_pool s = pool) ss))"

lemma pool_value_simps [simp]:
  "pool_value pool [] = 0"
  "pool_value pool (s # ss) = (if ssp_pool s = pool then uint (ssp_value s) + pool_value pool ss else pool_value pool ss)"
  by (simp_all add: pool_value_def)

lemma pool_value_nonneg: "0 \<le> pool_value pool ss"
  by (induction ss) auto

lemma pool_values: "pool_value Orchard ss + pool_value Ironwood ss = int (total (map ssp_value ss))"
proof (induction ss)
  case (Cons s ss)
  then show ?case by (cases "ssp_pool s") auto
qed simp

lemma saturate_i64_id:
  "0 \<le> i \<Longrightarrow> i < 2 ^ 63 \<Longrightarrow> saturate_i64 i = i"
  "0 \<le> i \<Longrightarrow> i < 2 ^ 63 \<Longrightarrow> 0 \<le> j \<Longrightarrow> j < 2 ^ 63 \<Longrightarrow> saturate_i64 (i - j) = i - j"
  by (simp_all add: saturate_i64_def)

lemma expect_spends_Ok:
  assumes "expect_spends bl om im i j ss a b = Ok (es, a', b')" "0 \<le> a" "0 \<le> b"
    and "a + pool_value Orchard ss < 2 ^ 63" "b + pool_value Ironwood ss < 2 ^ 63"
  shows "map xs_value es = map ssp_value ss \<and> a' = a + pool_value Orchard ss \<and> b' = b + pool_value Ironwood ss"
  using assms
proof (induction ss arbitrary: i j a b es)
  case (Cons s ss)
  show ?case
  proof (cases "ssp_pool s")
    case Orchard
    then obtain es' idx where e: "expect_spends bl om im (Suc i) j ss (saturate_i64 (a + uint (ssp_value s))) b = Ok (es', a', b')"
      "es = \<lparr>xs_pool = Orchard, xs_action_index = idx, xs_nullifier = xl_nullifier bl (ssp_note s) (ssp_fvk s), xs_value = ssp_value s\<rparr> # es'"
      using Cons.prems(1) by (auto simp: Let_def to_i64_def split: if_splits)
    have "saturate_i64 (a + uint (ssp_value s)) = a + uint (ssp_value s)"
      using Cons.prems(2,4) Orchard pool_value_nonneg [of Orchard ss]
      by (intro saturate_i64_id(1)) simp_all
    with Cons.IH [OF e(1)] Cons.prems Orchard show ?thesis by (simp add: e(2))
  next
    case Ironwood
    then obtain es' idx where e: "expect_spends bl om im i (Suc j) ss a (saturate_i64 (b + uint (ssp_value s))) = Ok (es', a', b')"
      "es = \<lparr>xs_pool = Ironwood, xs_action_index = idx, xs_nullifier = xl_nullifier bl (ssp_note s) (ssp_fvk s), xs_value = ssp_value s\<rparr> # es'"
      using Cons.prems(1) by (auto simp: Let_def to_i64_def split: if_splits)
    have "saturate_i64 (b + uint (ssp_value s)) = b + uint (ssp_value s)"
      using Cons.prems(3,5) Ironwood pool_value_nonneg [of Ironwood ss]
      by (intro saturate_i64_id(1)) simp_all
    with Cons.IH [OF e(1)] Cons.prems Ironwood show ?thesis by (simp add: e(2))
  qed
qed simp

lemma build_expectations_Ok:
  assumes "build_expectations bl vl sel om im pczt change = Ok xe"
    and "total (map ssp_value (sel_spends sel)) < 2 ^ 63"
  shows "xc_value (xe_change xe) = change" "map xs_value (xe_spends xe) = map ssp_value (sel_spends sel)"
    "xe_net_orchard xe + xe_net_ironwood xe = int (total (map ssp_value (sel_spends sel))) - uint change"
proof -
  obtain es a b where es: "expect_spends bl om im 0 0 (sel_spends sel) 0 0 = Ok (es, a, b)" "xe_spends xe = es"
    and change: "xc_value (xe_change xe) = change" "uint change < 2 ^ 63"
    and nets: "xe_net_orchard xe = (if sel_change_pool sel = Orchard then saturate_i64 (a - uint change) else a)"
      "xe_net_ironwood xe = (if sel_change_pool sel = Ironwood then saturate_i64 (b - uint change) else b)"
    using assms(1) by (auto simp: build_expectations_def to_i64_def split: if_splits)
  have "int (total (map ssp_value (sel_spends sel))) < 2 ^ 63" using assms(2) by simp
  then have bound: "pool_value Orchard (sel_spends sel) < 2 ^ 63" "pool_value Ironwood (sel_spends sel) < 2 ^ 63"
    using pool_values [of "sel_spends sel"] pool_value_nonneg [of Orchard "sel_spends sel"]
      pool_value_nonneg [of Ironwood "sel_spends sel"] by linarith+
  note x = expect_spends_Ok [OF es(1)]
  have vals: "map xs_value es = map ssp_value (sel_spends sel)" "a = pool_value Orchard (sel_spends sel)"
    "b = pool_value Ironwood (sel_spends sel)"
    using x bound by simp_all
  show "xc_value (xe_change xe) = change" "map xs_value (xe_spends xe) = map ssp_value (sel_spends sel)"
    using change vals es(2) by simp_all
  show "xe_net_orchard xe + xe_net_ironwood xe = int (total (map ssp_value (sel_spends sel))) - uint change"
    using nets vals bound change(2) pool_values [of "sel_spends sel"] pool_value_nonneg [of Orchard "sel_spends sel"]
      pool_value_nonneg [of Ironwood "sel_spends sel"]
    by (cases "sel_change_pool sel") (simp_all add: saturate_i64_id)
qed

section \<open>The selection loop\<close>

lemma checked_add64_Some: "checked_add64 a b = Some c \<longleftrightarrow> unat a + unat b < 2 ^ 64 \<and> unat c = unat a + unat b"
  by (auto simp: checked_add64_def unat_word_ariths word_unat_eq_iff)

text \<open>A selection that comes out covers what is required and the fee measured for it, with change left.\<close>

lemma select_rounds_Ok:
  assumes "select_rounds n bl wallet params th carriers op_return rv plan_id required w = (w', Ok (sel, fee))"
  shows "(\<exists>required w1 w2. sw_select_spends wallet required plan_id w1 = (w2, Ok sel))
    \<and> measured_fee bl params th sel carriers op_return = Ok fee \<and> unat rv + unat fee < unat (sel_selected_value sel)"
  using assms
proof (induction n arbitrary: required w)
  case (Suc n)
  obtain w1 r where s: "sw_select_spends wallet required plan_id w = (w1, r)" by fastforce
  with Suc.prems obtain sel1 where sel1: "r = Ok sel1" by (cases r) (auto simp: bind_step_def select_step_def)
  with s Suc.prems obtain fee1 where fee1: "measured_fee bl params th sel1 carriers op_return = Ok fee1"
    by (cases "measured_fee bl params th sel1 carriers op_return") (auto simp: bind_step_def select_step_def)
  with s sel1 Suc.prems obtain needed where needed: "checked_add64 rv fee1 = Some needed"
    by (cases "checked_add64 rv fee1") (auto simp: bind_step_def select_step_def)
  show ?case
  proof (cases "sel_selected_value sel1 > needed")
    case True
    with s sel1 fee1 needed Suc.prems have "sel = sel1" "fee = fee1" by (auto simp: bind_step_def select_step_def)
    with s sel1 fee1 needed True show ?thesis by (auto simp: checked_add64_Some word_less_nat_alt)
  next
    case False
    with s sel1 fee1 needed Suc.prems have
      "select_rounds n bl wallet params th carriers op_return rv plan_id (needed + 1) w1 = (w', Ok (sel, fee))"
      by (auto simp: bind_step_def select_step_def)
    then show ?thesis by (rule Suc.IH)
  qed
qed simp

lemma select_for_Ok:
  assumes "select_for bl wallet params th carriers op_return rv plan_id w = (w', Ok (sel, fee))"
  shows "(\<exists>required w1 w2. sw_select_spends wallet required plan_id w1 = (w2, Ok sel))
    \<and> measured_fee bl params th sel carriers op_return = Ok fee \<and> unat rv + unat fee < unat (sel_selected_value sel)"
  using assms select_rounds_Ok
  by (cases "checked_add64 rv MINIMUM_FEE") (fastforce simp: select_for_def bind_step_def)+

section \<open>Plans\<close>

definition plan_conserves :: "('x, 'p) shielded_plan \<Rightarrow> bool" where
  "plan_conserves p \<longleftrightarrow>
     unat (zp_selected_value p) = total (map po_value (zp_transparent_outputs p)) + unat (zp_fee p) + unat (zp_change p)
     \<and> 0 < zp_change p \<and> xc_value (xe_change (zp_expected p)) = zp_change p
     \<and> total (map xs_value (xe_spends (zp_expected p))) = unat (zp_selected_value p)
     \<and> xe_net_orchard (zp_expected p) + xe_net_ironwood (zp_expected p)
         = int (total (map po_value (zp_transparent_outputs p)) + unat (zp_fee p))"

lemma finish_plan_conserves:
  assumes "finish_plan bl vl kl ctx plan_id req carriers op_return outputs kind sel fee change = Ok p"
    and "total (map ssp_value (sel_spends sel)) = unat (sel_selected_value sel)" "unat (sel_selected_value sel) < 2 ^ 63"
    and "unat (sel_selected_value sel) = total (map po_value outputs) + unat fee + unat change" "0 < change"
  shows "plan_conserves p \<and> zp_stage p = StagePlanned \<and> zp_pczt p \<noteq> None"
proof -
  obtain om im pczt xe where xe: "build_expectations bl vl sel om im pczt change = Ok xe"
    and p: "zp_selected_value p = sel_selected_value sel" "zp_transparent_outputs p = outputs" "zp_fee p = fee"
      "zp_change p = change" "zp_expected p = xe" "zp_stage p = StagePlanned" "zp_pczt p \<noteq> None"
    using assms(1) by (auto simp: finish_plan_def Let_def)
  note e = build_expectations_Ok [OF xe]
  show ?thesis
    using e assms(2-5) by (simp add: plan_conserves_def p)
qed

lemma call_plan_conserves:
  assumes "shielded_plan_of bl vl kl sf plan_id (ReqCall op_return) ctx w = (w', Ok p)"
    and "\<And>required w1 w2 sel. sw_select_spends (sf_wallet sf) required plan_id w1 = (w2, Ok sel) \<Longrightarrow>
      total (map ssp_value (sel_spends sel)) = unat (sel_selected_value sel) \<and> unat (sel_selected_value sel) < 2 ^ 63"
  shows "plan_conserves p \<and> zp_stage p = StagePlanned \<and> zp_pczt p \<noteq> None"
proof -
  obtain sel fee where s: "select_for bl (sf_wallet sf) (for_network (fc_network ctx)) (fc_target_height ctx) []
      op_return 0 plan_id w = (w', Ok (sel, fee))"
    and f: "finish_plan bl vl kl ctx plan_id (ReqCall op_return) [] op_return
         [\<lparr>po_value = 0, po_script = op_return_script op_return\<rparr>] 2 sel fee (sel_selected_value sel - fee) = Ok p"
    using assms(1)
    by (auto simp: shielded_plan_of_def shielded_plan_call_def bind_step_def split: prod.splits sum.splits)
  obtain required w1 w2 where "sw_select_spends (sf_wallet sf) required plan_id w1 = (w2, Ok sel)"
    using select_for_Ok [OF s] by blast
  note wallet = assms(2) [OF this]
  have lt: "fee < sel_selected_value sel"
    using select_for_Ok [OF s] by (simp add: word_less_nat_alt)
  then have sub: "unat (sel_selected_value sel - fee) = unat (sel_selected_value sel) - unat fee"
    by (intro unat_sub) simp
  have less: "unat fee < unat (sel_selected_value sel)" using lt by (simp only: word_less_nat_alt)
  have "unat (sel_selected_value sel) = total (map po_value [\<lparr>po_value = 0, po_script = op_return_script op_return\<rparr>])
      + unat fee + unat (sel_selected_value sel - fee)"
    using less by (simp add: sub)
  moreover have "0 < sel_selected_value sel - fee"
    using less sub by (simp only: word_less_nat_alt unat_0)
  ultimately show ?thesis
    using wallet by (intro finish_plan_conserves [OF f]) simp_all
qed

lemma prepare_plan_conserves:
  assumes "shielded_plan_of bl vl kl sf plan_id (ReqPrepare vs) ctx w = (w', Ok p)"
    and "\<And>required w1 w2 sel. sw_select_spends (sf_wallet sf) required plan_id w1 = (w2, Ok sel) \<Longrightarrow>
      total (map ssp_value (sel_spends sel)) = unat (sel_selected_value sel) \<and> unat (sel_selected_value sel) < 2 ^ 63"
    and "total vs < 2 ^ 64"
  shows "plan_conserves p \<and> zp_stage p = StagePlanned \<and> zp_pczt p \<noteq> None"
proof -
  obtain sel fee change carriers outputs where s: "select_for bl (sf_wallet sf) (for_network (fc_network ctx)) (fc_target_height ctx)
      carriers [] (sum_list vs) plan_id w = (w', Ok (sel, fee))"
    and change: "Option.bind (checked_sub (sel_selected_value sel) (sum_list vs)) (\<lambda>v. checked_sub v fee) = Some change"
    and f: "finish_plan bl vl kl ctx plan_id (ReqPrepare vs) carriers [] outputs 0 sel fee change = Ok p"
    and outputs: "map po_value outputs = vs"
    using assms(1)
    by (auto simp: shielded_plan_of_def shielded_plan_prepare_def bind_step_def Let_def comp_def
        split: prod.splits sum.splits option.splits if_splits)
  obtain required w1 w2 where "sw_select_spends (sf_wallet sf) required plan_id w1 = (w2, Ok sel)"
    using select_for_Ok [OF s] by blast
  note wallet = assms(2) [OF this]
  have total: "unat (sum_list vs) = total vs"
    using unat_sum_list_exact [of vs] assms(3) by simp
  have sum: "unat (sel_selected_value sel) = total vs + unat fee + unat change"
    using change total by (auto simp: bind_eq_Some_conv checked_sub_Some_iff)
  moreover have "0 < change"
    using sum select_for_Ok [OF s] total by (simp add: word_less_nat_alt)
  ultimately show ?thesis
    using finish_plan_conserves [OF f] wallet outputs by simp
qed

text \<open>C20. A shielded plan conserves value: the selected notes are worth exactly the transparent outputs,
  the fee and a positive change; the spends it expects of the transaction are these notes, the
  change it expects is that change, and the value balances it expects of the two pools add up to
  what leaves them. It is assumed that the wallet reports the sum of the notes it selects, below
  \<open>2 ^ 63\<close> zat, and that the carrier amounts of a PREPARE fit 64 bits.\<close>

theorem shielded_plan_conserves_value:
  assumes "shielded_plan_of bl vl kl sf plan_id req ctx w = (w', Ok p)"
    and "\<And>required w1 w2 sel. sw_select_spends (sf_wallet sf) required plan_id w1 = (w2, Ok sel) \<Longrightarrow>
      total (map ssp_value (sel_spends sel)) = unat (sel_selected_value sel) \<and> unat (sel_selected_value sel) < 2 ^ 63"
    and "\<And>vs. req = ReqPrepare vs \<Longrightarrow> total vs < 2 ^ 64"
  shows "unat (zp_selected_value p) = total (map po_value (zp_transparent_outputs p)) + unat (zp_fee p) + unat (zp_change p)
    \<and> 0 < zp_change p \<and> xc_value (xe_change (zp_expected p)) = zp_change p
    \<and> total (map xs_value (xe_spends (zp_expected p))) = unat (zp_selected_value p)
    \<and> xe_net_orchard (zp_expected p) + xe_net_ironwood (zp_expected p)
        = int (total (map po_value (zp_transparent_outputs p)) + unat (zp_fee p))
    \<and> zp_stage p = StagePlanned \<and> zp_pczt p \<noteq> None"
proof -
  have "plan_conserves p \<and> zp_stage p = StagePlanned \<and> zp_pczt p \<noteq> None"
  proof (cases req)
    case (ReqCall op_return)
    then show ?thesis using call_plan_conserves [of bl vl kl sf plan_id op_return ctx w w' p] assms(1,2) by simp
  next
    case (ReqPrepare vs)
    then show ?thesis using prepare_plan_conserves [of bl vl kl sf plan_id vs ctx w w' p] assms by simp
  qed (use assms(1) in \<open>simp add: shielded_plan_of_def bind_step_def split: sum.splits\<close>)
  then show ?thesis by (simp add: plan_conserves_def)
qed

lemma shielded_plan_conserves_value_witness:
  "\<exists>p. shielded_plan_of demo_builder demo_view demo_keys demo_shielded_funding ''p1'' (ReqCall [1]) demo_context () = ((), Ok p)
    \<and> 0 < zp_change p \<and> xe_net_orchard (zp_expected p) + xe_net_ironwood (zp_expected p) = 10000"
proof -
  obtain p where p: "shielded_plan_of demo_builder demo_view demo_keys demo_shielded_funding ''p1'' (ReqCall [1]) demo_context ()
      = ((), Ok p)" "zp_fee p = 10000" "zp_transparent_outputs p = demo_outputs"
    using demo_shielded_plan by blast
  from shielded_plan_conserves_value [OF p(1)] p show ?thesis
    by (simp add: demo_shielded_funding_def demo_shielded_wallet_def demo_shielded_selection_def demo_outputs_def)
qed

text \<open>A plan that fails after the selection leaves the wallet as the selection left it, with its
  notes locked: nothing releases them, and the plan id is gone.\<close>

lemma failed_planning_keeps_locks:
  assumes "select_for bl (sf_wallet sf) (for_network (fc_network ctx)) (fc_target_height ctx) [] op_return 0 plan_id w
      = (w', Ok (sel, fee))"
    and "branch_id_for_height (xl_for_height bl) (fc_network ctx) (fc_target_height ctx) = OtherBranch n"
  shows "\<exists>e. shielded_plan_call bl vl kl sf plan_id op_return ctx w = (w', Err e)"
proof -
  have "finish_plan bl vl kl ctx plan_id req carriers op_return' outputs kind sel fee change \<noteq> Ok p"
    for req carriers op_return' outputs kind change p
    using assms(2) by (auto simp: finish_plan_def Let_def circuit_version_of_def)
  then obtain e where "finish_plan bl vl kl ctx plan_id (ReqCall op_return) [] op_return
      [\<lparr>po_value = 0, po_script = op_return_script op_return\<rparr>] 2 sel fee (sel_selected_value sel - fee) = Err e"
    by (metis sum.exhaust)
  then show ?thesis
    using assms(1) by (auto simp: shielded_plan_call_def bind_step_def)
qed

end
