(* ===== verification/Wallet_Db.thy ===== *)
theory Wallet_Db
  imports Shielded_Plan
begin

text \<open>
  The wallet over \<open>zcash_client_sqlite\<close> (\<open>zalkanes-wallet/src/sqlite.rs\<close>): its parts, opening,
  unlocking and creating it. The database \<open>'d\<close>, its operations, the keys and notes \<open>'x\<close> and the
  scanner are parameters; the chain source runs on a world \<open>'w\<close> and may change between two calls.
\<close>

section \<open>The chain source\<close>

text \<open>\<open>ChainState\<close>: the block, the three tree sizes, the rest.\<close>

record 'x chain_state =
  cs_height :: u32
  cs_hash :: block_hash
  cs_sapling_size :: nat
  cs_orchard_size :: nat
  cs_ironwood_size :: nat
  cs_rest :: 'x

text \<open>The trait \<open>CanonicalChainSource\<close>; a block is an opaque value.\<close>

record ('w, 'x) chain_source =
  cc_canonical_tip :: "('w, string, canonical_tip) step"
  cc_source_hash :: "u32 \<Rightarrow> ('w, string, block_hash) step"
  cc_source_block :: "u32 \<Rightarrow> ('w, string, 'x) step"
  cc_tree_state :: "u32 \<Rightarrow> ('w, string, 'x chain_state) step"

record block_metadata =
  md_height :: u32
  md_hash :: block_hash
  md_sapling :: "u32 option"
  md_orchard :: "u32 option"
  md_ironwood :: "u32 option"

text \<open>\<open>u32::try_from(size).unwrap_or(0)\<close>.\<close>

definition tree_size_u32 :: "nat \<Rightarrow> u32" where
  "tree_size_u32 n = (if n < 2 ^ 32 then of_nat n else 0)"

definition chain_state_to_block_metadata :: "'x chain_state \<Rightarrow> block_metadata" where
  "chain_state_to_block_metadata cs =
     \<lparr>md_height = cs_height cs, md_hash = cs_hash cs, md_sapling = Some (tree_size_u32 (cs_sapling_size cs)),
      md_orchard = Some (tree_size_u32 (cs_orchard_size cs)), md_ironwood = Some (tree_size_u32 (cs_ironwood_size cs))\<rparr>"

section \<open>The database\<close>

text \<open>\<open>ad_default_addresses\<close> gives the encoded default address of each account's viewing key.\<close>

record ('d, 'x, 'a) account_db =
  ad_for_path :: "string \<Rightarrow> consensus_params \<Rightarrow> (string, 'd) result"
  ad_init :: "('d, string, unit) step"
  ad_account_ids :: "'d \<Rightarrow> (string, 'a list) result"
  ad_create_account :: "string \<Rightarrow> bytes \<Rightarrow> 'x chain_state \<Rightarrow> ('d, string, 'a) step"
  ad_orchard_viewing_keys :: "'d \<Rightarrow> (string, 'a \<Rightarrow> 'x option) result"
  ad_params :: "'d \<Rightarrow> consensus_params"
  ad_account_birthday :: "'a \<Rightarrow> 'd \<Rightarrow> (string, u32) result"
  ad_default_addresses :: "'d \<Rightarrow> (string, 'a \<Rightarrow> (string, string) result option) result"

text \<open>The last block up to which everything is scanned, stored block hashes, and the operations that
  follow the chain. \<open>xd_scan\<close> is \<open>decrypt_block\<close> with \<open>scan_block\<close>.\<close>

record ('d, 'x) scan_db =
  xd_viewing_keys :: "'d \<Rightarrow> (string, 'x) result"
  xd_unspent_nullifiers :: "'d \<Rightarrow> (string, 'x) result"
  xd_fully_scanned :: "'d \<Rightarrow> (string, (u32 \<times> block_hash) option) result"
  xd_block_hash :: "u32 \<Rightarrow> 'd \<Rightarrow> (string, block_hash option) result"
  xd_rewind :: "'x chain_state \<Rightarrow> ('d, string, unit) step"
  xd_scan :: "consensus_params \<Rightarrow> u32 \<Rightarrow> 'x \<Rightarrow> 'x \<Rightarrow> 'x \<Rightarrow> block_metadata \<Rightarrow> (string, 'x) result"
  xd_update_nullifiers :: "'x \<Rightarrow> 'x \<Rightarrow> 'x"
  xd_put_blocks :: "'x chain_state \<Rightarrow> 'x \<Rightarrow> ('d, string, unit) step"
  xd_update_chain_tip :: "u32 \<Rightarrow> ('d, string, unit) step"

record 'x received_note =
  rn_note :: 'x
  rn_value :: u64
  rn_position :: u64
  rn_txid :: tx_id
  rn_output_index :: u32
  rn_mined_height :: "u32 option"

text \<open>Notes come as the Orchard and the Ironwood ones. The target height and the confirmations select
  spendable notes that no lock excludes.\<close>

record ('d, 'x, 'a) note_db =
  nd_select_spendable :: "'a \<Rightarrow> u64 \<Rightarrow> u32 \<Rightarrow> nat \<Rightarrow> 'd \<Rightarrow> (string, 'x received_note list \<times> 'x received_note list) result"
  nd_select_unspent :: "'a \<Rightarrow> u32 \<Rightarrow> 'd \<Rightarrow> (string, 'x received_note list \<times> 'x received_note list) result"
  nd_witness :: "value_pool \<Rightarrow> u64 \<Rightarrow> u32 \<Rightarrow> ('d, string, 'x option) step"
  nd_root :: "value_pool \<Rightarrow> u32 \<Rightarrow> ('d, string, b32 option) step"
  nd_lock_outputs :: "output_ref list \<Rightarrow> b32 \<Rightarrow> u32 \<Rightarrow> ('d, string, unit) step"
  nd_locked_outputs :: "'a \<Rightarrow> 'd \<Rightarrow> (string, output_ref list) result"
  nd_unlock_output :: "output_ref \<Rightarrow> b32 \<Rightarrow> ('d, string, unit) step"
  nd_summary :: "'d \<Rightarrow> (string, ('a \<Rightarrow> u64 option) option) result"

record 'x account_keys =
  ak_derive :: "consensus_params \<Rightarrow> bytes \<Rightarrow> (string, 'x) result"
  ak_fvk :: "'x \<Rightarrow> 'x"
  ak_ask :: "'x \<Rightarrow> 'x"
  ak_fvk_bytes :: "'x \<Rightarrow> bytes"
  ak_internal_address :: "'x \<Rightarrow> bytes"
  ak_internal_ovk :: "'x \<Rightarrow> 'x"
  ak_zatoshis_ok :: "u64 \<Rightarrow> bool"
  ak_branch_has_ironwood :: "consensus_params \<Rightarrow> u32 \<Rightarrow> bool"

text \<open>\<open>sq_spending\<close> holds the full viewing key and the spend authorizing key while unlocked.\<close>

record ('d, 'x, 'a) sqlite_wallet =
  sq_db :: 'd
  sq_account_id :: 'a
  sq_spending :: "('x \<times> 'x) option"
  sq_zebra_tip :: u32
  sq_zebra_tip_hash :: block_hash

datatype wallet_error =
    OpenFailed string
  | DeriveFailed string
  | WalletMissing
  | WalletExists
  | NoViewingKey
  | WrongSeed
  | BirthdayZero
  | ChainUnavailable string

section \<open>Opening and unlocking\<close>

definition from_parts :: "'d \<Rightarrow> 'a \<Rightarrow> ('x \<times> 'x) option \<Rightarrow> ('d, 'x, 'a) sqlite_wallet" where
  "from_parts db account spending =
     \<lparr>sq_db = db, sq_account_id = account, sq_spending = spending, sq_zebra_tip = 0,
      sq_zebra_tip_hash = mk32 (replicate 32 0)\<rparr>"

text \<open>The database, the full viewing key and the spend authorizing key.\<close>

definition open_db_and_derive ::
    "('d, 'x, 'a) account_db \<Rightarrow> 'x account_keys \<Rightarrow> string \<Rightarrow> consensus_params \<Rightarrow> bytes \<Rightarrow> (wallet_error, 'd \<times> 'x \<times> 'x) result" where
  "open_db_and_derive ad ak path network seed =
     and_then (map_err OpenFailed (ad_for_path ad path network)) (\<lambda>db.
     and_then (map_err DeriveFailed (ak_derive ak network seed)) (\<lambda>usk.
       case ad_init ad db of
         (db, Err e) \<Rightarrow> Err (OpenFailed e)
       | (db, Ok _) \<Rightarrow> Ok (db, ak_fvk ak usk, ak_ask ak usk)))"

text \<open>\<open>account_ids.first()\<close>.\<close>

definition existing_account :: "('d, 'x, 'a) account_db \<Rightarrow> 'd \<Rightarrow> (wallet_error, 'a) result" where
  "existing_account ad db =
     and_then (map_err OpenFailed (ad_account_ids ad db)) (\<lambda>ids.
       case ids of [] \<Rightarrow> Err WalletMissing | account # _ \<Rightarrow> Ok account)"

definition open_locked ::
    "('d, 'x, 'a) account_db \<Rightarrow> string \<Rightarrow> consensus_params \<Rightarrow> (wallet_error, ('d, 'x, 'a) sqlite_wallet) result" where
  "open_locked ad path network =
     and_then (map_err OpenFailed (ad_for_path ad path network)) (\<lambda>db.
       case ad_init ad db of
         (db, Err e) \<Rightarrow> Err (OpenFailed e)
       | (db, Ok _) \<Rightarrow> and_then (existing_account ad db) (\<lambda>account. Ok (from_parts db account None)))"

definition is_unlocked :: "('d, 'x, 'a) sqlite_wallet \<Rightarrow> bool" where
  "is_unlocked w \<longleftrightarrow> sq_spending w \<noteq> None"

definition unlock_with_seed ::
    "('d, 'x, 'a) account_db \<Rightarrow> 'x account_keys \<Rightarrow> bytes \<Rightarrow> (('d, 'x, 'a) sqlite_wallet, wallet_error, unit) step" where
  "unlock_with_seed ad ak seed w =
     (case and_then (map_err DeriveFailed (ak_derive ak (ad_params ad (sq_db w)) seed)) (\<lambda>usk.
           and_then (map_err OpenFailed (ad_orchard_viewing_keys ad (sq_db w))) (\<lambda>keys.
           and_then (ok_or NoViewingKey (keys (sq_account_id w))) (\<lambda>stored.
             if ak_fvk_bytes ak stored \<noteq> ak_fvk_bytes ak (ak_fvk ak usk) then Err WrongSeed else Ok usk))) of
        Err e \<Rightarrow> (w, Err e)
      | Ok usk \<Rightarrow> (w\<lparr>sq_spending := Some (ak_fvk ak usk, ak_ask ak usk)\<rparr>, Ok ()))"

definition lock_wallet :: "('d, 'x, 'a) sqlite_wallet \<Rightarrow> ('d, 'x, 'a) sqlite_wallet" where
  "lock_wallet w = w\<lparr>sq_spending := None\<rparr>"

section \<open>Creating\<close>

text \<open>The common end of \<open>create_new\<close> and \<open>restore\<close>: the account from the tree state at a height.\<close>

definition create_at ::
    "('d, 'x, 'a) account_db \<Rightarrow> ('w, 'x) chain_source \<Rightarrow> bytes \<Rightarrow> 'd \<Rightarrow> 'x \<times> 'x \<Rightarrow> u32
      \<Rightarrow> ('w, wallet_error, ('d, 'x, 'a) sqlite_wallet) step" where
  "create_at ad src seed db keys height x =
     (case cc_tree_state src height x of
        (x, Err e) \<Rightarrow> (x, Err (ChainUnavailable e))
      | (x, Ok cs) \<Rightarrow>
          (case ad_create_account ad ''zalkanes'' seed cs db of
             (db, Err e) \<Rightarrow> (x, Err (OpenFailed e))
           | (db, Ok account) \<Rightarrow> (x, Ok (from_parts db account (Some keys)))))"

text \<open>Their common beginning: a database without an account.\<close>

definition open_empty ::
    "('d, 'x, 'a) account_db \<Rightarrow> 'x account_keys \<Rightarrow> string \<Rightarrow> consensus_params \<Rightarrow> bytes \<Rightarrow> (wallet_error, 'd \<times> 'x \<times> 'x) result" where
  "open_empty ad ak path network seed =
     and_then (open_db_and_derive ad ak path network seed) (\<lambda>(db, keys).
     and_then (map_err OpenFailed (ad_account_ids ad db)) (\<lambda>ids.
       if ids \<noteq> [] then Err WalletExists else Ok (db, keys)))"

definition create_new ::
    "('d, 'x, 'a) account_db \<Rightarrow> 'x account_keys \<Rightarrow> ('w, 'x) chain_source \<Rightarrow> string \<Rightarrow> consensus_params \<Rightarrow> bytes
      \<Rightarrow> ('w, wallet_error, ('d, 'x, 'a) sqlite_wallet) step" where
  "create_new ad ak src path network seed =
     bind_step (lift_step (open_empty ad ak path network seed)) (\<lambda>(db, keys). \<lambda>x.
       case cc_canonical_tip src x of
         (x, Err e) \<Rightarrow> (x, Err (ChainUnavailable e))
       | (x, Ok tip) \<Rightarrow> create_at ad src seed db keys (if ct_height tip < 100 then 0 else ct_height tip - 100) x)"

definition reopen ::
    "('d, 'x, 'a) account_db \<Rightarrow> 'x account_keys \<Rightarrow> string \<Rightarrow> consensus_params \<Rightarrow> bytes
      \<Rightarrow> (wallet_error, ('d, 'x, 'a) sqlite_wallet) result" where
  "reopen ad ak path network seed =
     and_then (open_db_and_derive ad ak path network seed) (\<lambda>(db, keys).
     and_then (existing_account ad db) (\<lambda>account. Ok (from_parts db account (Some keys))))"

definition restore ::
    "('d, 'x, 'a) account_db \<Rightarrow> 'x account_keys \<Rightarrow> ('w, 'x) chain_source \<Rightarrow> string \<Rightarrow> consensus_params \<Rightarrow> bytes \<Rightarrow> u32
      \<Rightarrow> ('w, wallet_error, ('d, 'x, 'a) sqlite_wallet) step" where
  "restore ad ak src path network seed birthday_height =
     (if birthday_height = 0 then lift_step (Err BirthdayZero)
      else
        bind_step (lift_step (open_empty ad ak path network seed)) (\<lambda>(db, keys).
          create_at ad src seed db keys (birthday_height - 1)))"

definition set_canonical_tip :: "canonical_tip \<Rightarrow> ('d, 'x, 'a) sqlite_wallet \<Rightarrow> ('d, 'x, 'a) sqlite_wallet" where
  "set_canonical_tip tip w = w\<lparr>sq_zebra_tip := ct_height tip, sq_zebra_tip_hash := ct_hash tip\<rparr>"

end
