(* ===== verification/Wallet_Scan.thy ===== *)
theory Wallet_Scan
  imports Wallet_Db
begin

text \<open>Scanning the wallet to the canonical tip, and what it holds (\<open>zalkanes-wallet/src/sqlite.rs\<close>).
  The scanning loop takes fuel, since the chain may change for ever; running out of it is an error
  of its own.\<close>

section \<open>Following the chain\<close>

datatype scan_error =
    DbError string
  | SourceError string
  | BirthdayCrossed u32
  | TipChanged block_hash block_hash
  | OutOfScanFuel

text \<open>A step on the world of the chain source and the database.\<close>

type_synonym ('w, 'd, 'r) scan_step = "('w \<times> 'd, scan_error, 'r) step"

definition ask_source :: "('w, string, 'r) step \<Rightarrow> ('w, 'd, 'r) scan_step" where
  "ask_source f = (\<lambda>(w, d). case f w of (w, r) \<Rightarrow> ((w, d), map_err SourceError r))"

definition read_db :: "('d \<Rightarrow> (string, 'r) result) \<Rightarrow> ('w, 'd, 'r) scan_step" where
  "read_db f = (\<lambda>(w, d). ((w, d), map_err DbError (f d)))"

definition write_db :: "('d, string, 'r) step \<Rightarrow> ('w, 'd, 'r) scan_step" where
  "write_db f = (\<lambda>(w, d). case f d of (d, r) \<Rightarrow> ((w, d), map_err DbError r))"

definition rewind_at :: "('d, 'x) scan_db \<Rightarrow> ('w, 'x) chain_source \<Rightarrow> u32 \<Rightarrow> ('w, 'd, u32) scan_step" where
  "rewind_at xd src height =
     bind_step (ask_source (cc_tree_state src height)) (\<lambda>cs.
     bind_step (write_db (xd_rewind xd cs)) (\<lambda>_. return_step (height + 1)))"

function rewind_to_common_ancestor ::
    "('d, 'x) scan_db \<Rightarrow> ('w, 'x) chain_source \<Rightarrow> u32 \<Rightarrow> u32 \<Rightarrow> ('w, 'd, u32) scan_step" where
  "rewind_to_common_ancestor xd src birthday height s =
     (case bind_step (read_db (xd_block_hash xd height)) (\<lambda>wallet_hash.
           bind_step (ask_source (cc_source_hash src height)) (\<lambda>zebra_hash.
             return_step (wallet_hash = Some zebra_hash))) s of
        (s, Err e) \<Rightarrow> (s, Err e)
      | (s, Ok agree) \<Rightarrow>
          if agree then rewind_at xd src height s
          else if height \<le> birthday then (s, Err (BirthdayCrossed birthday))
          else rewind_to_common_ancestor xd src birthday (height - 1) s)"
  by pat_completeness auto
termination
proof (relation "measure (\<lambda>(xd, src, birthday, height, s). unat height)", simp)
  fix birthday height :: u32 assume "\<not> height \<le> birthday"
  then have "unat birthday < unat height" by (simp add: not_le word_less_nat_alt)
  then have "unat (height - 1) < unat height"
    by (subst unat_sub) (simp_all add: word_le_nat_alt)
  then show "((xd, src, birthday, height - 1, s'), xd, src, birthday, height, s)
      \<in> measure (\<lambda>(xd, src, birthday, height, s). unat height)" for xd src s s' by simp
qed

declare rewind_to_common_ancestor.simps [simp del]

text \<open>After a rewind: the next height, the nullifiers and the hash the node now has below it.\<close>

definition rewind_from ::
    "('d, 'x) scan_db \<Rightarrow> ('w, 'x) chain_source \<Rightarrow> u32 \<Rightarrow> u32 \<Rightarrow> ('w, 'd, u32 \<times> 'x \<times> block_hash) scan_step" where
  "rewind_from xd src birthday from_height =
     bind_step (rewind_to_common_ancestor xd src birthday from_height) (\<lambda>height.
     bind_step (read_db (xd_unspent_nullifiers xd)) (\<lambda>nullifiers.
     bind_step (ask_source (cc_source_hash src (height - 1))) (\<lambda>prev. return_step (height, nullifiers, prev))))"

definition scan_one ::
    "('d, 'x) scan_db \<Rightarrow> ('w, 'x) chain_source \<Rightarrow> consensus_params \<Rightarrow> 'x \<Rightarrow> 'x \<Rightarrow> u32 \<Rightarrow> 'x chain_state
      \<Rightarrow> ('w, 'd, 'x \<times> block_hash) scan_step" where
  "scan_one xd src network keys nullifiers height from_state =
     bind_step (ask_source (cc_source_block src height)) (\<lambda>block.
     bind_step (lift_step (map_err DbError
         (xd_scan xd network height block keys nullifiers (chain_state_to_block_metadata from_state)))) (\<lambda>scanned.
     bind_step (write_db (xd_put_blocks xd from_state scanned)) (\<lambda>_.
     bind_step (ask_source (cc_source_hash src height)) (\<lambda>prev.
       return_step (xd_update_nullifiers xd nullifiers scanned, prev)))))"

fun scan_blocks ::
    "nat \<Rightarrow> ('d, 'x) scan_db \<Rightarrow> ('w, 'x) chain_source \<Rightarrow> consensus_params \<Rightarrow> 'x \<Rightarrow> u32 \<Rightarrow> u32 \<Rightarrow> u32 \<Rightarrow> 'x
      \<Rightarrow> block_hash option \<Rightarrow> ('w, 'd, unit) scan_step" where
  "scan_blocks 0 xd src network keys birthday target height nullifiers prev_hash = lift_step (Err OutOfScanFuel)"
| "scan_blocks (Suc fuel) xd src network keys birthday target height nullifiers prev_hash =
     (if height > target then return_step ()
      else
        bind_step (ask_source (cc_tree_state src (height - 1))) (\<lambda>from_state.
          if prev_hash \<noteq> None \<and> prev_hash \<noteq> Some (cs_hash from_state)
          then bind_step (rewind_from xd src birthday (height - 1)) (\<lambda>(height, nullifiers, prev).
            scan_blocks fuel xd src network keys birthday target height nullifiers (Some prev))
          else bind_step (scan_one xd src network keys nullifiers height from_state) (\<lambda>(nullifiers, prev).
            scan_blocks fuel xd src network keys birthday target (height + 1) nullifiers (Some prev))))"

text \<open>The comparison at the common boundary before the loop: whether to rewind.\<close>

definition needs_rewind ::
    "('d, 'x) scan_db \<Rightarrow> ('w, 'x) chain_source \<Rightarrow> u32 \<Rightarrow> u32 \<Rightarrow> block_hash \<Rightarrow> ('w, 'd, bool) scan_step" where
  "needs_rewind xd src scanned_tip target prev =
     (let boundary = min scanned_tip target in
      bind_step (if boundary = scanned_tip then return_step (Some prev) else read_db (xd_block_hash xd boundary)) (\<lambda>wallet_hash.
        if scanned_tip > target then return_step True
        else bind_step (ask_source (cc_source_hash src boundary)) (\<lambda>h. return_step (wallet_hash \<noteq> Some h))))"

definition scan_start ::
    "('d, 'x) scan_db \<Rightarrow> ('w, 'x) chain_source \<Rightarrow> u32 \<Rightarrow> u32 \<Rightarrow> 'x \<Rightarrow> (u32 \<times> block_hash) option
      \<Rightarrow> ('w, 'd, u32 \<times> 'x \<times> block_hash option) scan_step" where
  "scan_start xd src birthday target nullifiers scanned =
     (case scanned of
        None \<Rightarrow> return_step (birthday, nullifiers, None)
      | Some (scanned_height, prev) \<Rightarrow>
          let height = scanned_height + 1; scanned_tip = height - 1 in
          bind_step (needs_rewind xd src scanned_tip target prev) (\<lambda>rewind.
            if rewind
            then bind_step (rewind_from xd src birthday (min scanned_tip target)) (\<lambda>(height, nullifiers, prev).
              return_step (height, nullifiers, Some prev))
            else return_step (height, nullifiers, Some prev)))"

definition scan_chain ::
    "nat \<Rightarrow> ('d, 'x, 'a) account_db \<Rightarrow> ('d, 'x) scan_db \<Rightarrow> ('w, 'x) chain_source \<Rightarrow> 'a \<Rightarrow> ('w, 'd, canonical_tip) scan_step" where
  "scan_chain fuel ad xd src account =
     bind_step (ask_source (cc_canonical_tip src)) (\<lambda>target.
     bind_step (read_db (\<lambda>d. Ok (ad_params ad d))) (\<lambda>network.
     bind_step (read_db (xd_viewing_keys xd)) (\<lambda>keys.
     bind_step (read_db (xd_unspent_nullifiers xd)) (\<lambda>nullifiers.
     bind_step (read_db (ad_account_birthday ad account)) (\<lambda>birthday.
     bind_step (read_db (xd_fully_scanned xd)) (\<lambda>scanned.
     bind_step (scan_start xd src birthday (ct_height target) nullifiers scanned) (\<lambda>(height, nullifiers, prev_hash).
     bind_step (scan_blocks fuel xd src network keys birthday (ct_height target) height nullifiers prev_hash) (\<lambda>_.
     bind_step (write_db (xd_update_chain_tip xd (ct_height target))) (\<lambda>_.
     bind_step (ask_source (cc_source_hash src (ct_height target))) (\<lambda>final_hash.
       if final_hash \<noteq> ct_hash target then lift_step (Err (TipChanged final_hash (ct_hash target)))
       else return_step target))))))))))"

definition scan_to_tip ::
    "nat \<Rightarrow> ('d, 'x, 'a) account_db \<Rightarrow> ('d, 'x) scan_db \<Rightarrow> ('w, 'x) chain_source
      \<Rightarrow> ('w \<times> ('d, 'x, 'a) sqlite_wallet, scan_error, unit) step" where
  "scan_to_tip fuel ad xd src = (\<lambda>(w, wallet).
     case scan_chain fuel ad xd src (sq_account_id wallet) (w, sq_db wallet) of
       ((w, d), Err e) \<Rightarrow> ((w, wallet\<lparr>sq_db := d\<rparr>), Err e)
     | ((w, d), Ok target) \<Rightarrow> ((w, set_canonical_tip target (wallet\<lparr>sq_db := d\<rparr>)), Ok ()))"

definition next_scan_height ::
    "('d, 'x, 'a) account_db \<Rightarrow> ('d, 'x) scan_db \<Rightarrow> ('d, 'x, 'a) sqlite_wallet \<Rightarrow> (string, u32) result" where
  "next_scan_height ad xd wallet =
     and_then (xd_fully_scanned xd (sq_db wallet)) (\<lambda>scanned.
       case scanned of
         Some (h, _) \<Rightarrow> Ok (h + 1)
       | None \<Rightarrow> ad_account_birthday ad (sq_account_id wallet) (sq_db wallet))"

definition birthday_height :: "('d, 'x, 'a) account_db \<Rightarrow> ('d, 'x, 'a) sqlite_wallet \<Rightarrow> (string, u32) result" where
  "birthday_height ad wallet = ad_account_birthday ad (sq_account_id wallet) (sq_db wallet)"

definition unified_address :: "('d, 'x, 'a) account_db \<Rightarrow> ('d, 'x, 'a) sqlite_wallet \<Rightarrow> (wallet_error, string) result" where
  "unified_address ad wallet =
     and_then (map_err OpenFailed (ad_default_addresses ad (sq_db wallet))) (\<lambda>addresses.
     and_then (ok_or NoViewingKey (addresses (sq_account_id wallet))) (map_err DeriveFailed))"

section \<open>What the wallet holds\<close>

definition mined_count :: "'x received_note list \<Rightarrow> nat" where
  "mined_count notes = length (filter (\<lambda>n. rn_mined_height n \<noteq> None) notes)"

text \<open>Orchard mined and unmined, Ironwood mined and unmined.\<close>

definition note_counts ::
    "('d, 'x, 'a) note_db \<Rightarrow> ('d, 'x, 'a) sqlite_wallet \<Rightarrow> (string, nat \<times> nat \<times> nat \<times> nat) result" where
  "note_counts nd wallet =
     and_then (nd_select_unspent nd (sq_account_id wallet) (sq_zebra_tip wallet) (sq_db wallet)) (\<lambda>(orchard, ironwood).
       Ok (mined_count orchard, length orchard - mined_count orchard,
           mined_count ironwood, length ironwood - mined_count ironwood))"

definition canonical_note_summary ::
    "('d, 'x, 'a) note_db \<Rightarrow> ('d, 'x, 'a) sqlite_wallet \<Rightarrow> (string, string) result" where
  "canonical_note_summary nd wallet =
     and_then (note_counts nd wallet) (\<lambda>(o_c, _, i_c, _).
       Ok (''orchard_notes='' @ decimal o_c @ '' ironwood_notes='' @ decimal i_c))"

definition retained_note_rows ::
    "('d, 'x, 'a) note_db \<Rightarrow> ('d, 'x, 'a) sqlite_wallet \<Rightarrow> (string, string) result" where
  "retained_note_rows nd wallet =
     and_then (note_counts nd wallet) (\<lambda>(o_c, o_u, i_c, i_u).
       Ok (''orchard_rows='' @ decimal (o_c + o_u) @ '' (unmined '' @ decimal o_u @ '') ironwood_rows=''
         @ decimal (i_c + i_u) @ '' (unmined '' @ decimal i_u @ '')''))"

definition wallet_balance :: "('d, 'x, 'a) note_db \<Rightarrow> ('d, 'x, 'a) sqlite_wallet \<Rightarrow> (string, u64) result" where
  "wallet_balance nd wallet =
     and_then (nd_summary nd (sq_db wallet)) (\<lambda>summary.
       Ok (case summary of
             None \<Rightarrow> 0
           | Some balances \<Rightarrow> (case balances (sq_account_id wallet) of None \<Rightarrow> 0 | Some v \<Rightarrow> v)))"

definition wallet_sync_status ::
    "('d, 'x) scan_db \<Rightarrow> canonical_tip \<Rightarrow> ('d, 'x, 'a) sqlite_wallet \<Rightarrow> (string, sync_status) result" where
  "wallet_sync_status xd tip wallet =
     and_then (xd_fully_scanned xd (sq_db wallet)) (\<lambda>scanned.
       let (scan_height, scan_hash) = (case scanned of Some s \<Rightarrow> s | None \<Rightarrow> (0, mk32 (replicate 32 0)));
           synced = (scan_height = ct_height tip \<and> scan_hash = ct_hash tip) in
       Ok \<lparr>ys_zebra_tip_height = ct_height tip, ys_zebra_tip_hash = ct_hash tip,
           ys_wallet_scan_height = scan_height, ys_wallet_scan_hash = scan_hash, ys_synced = synced,
           ys_anchor_height = (if synced then Some (ct_height tip) else None)\<rparr>)"

end
