(* ===== verification/Wallet_Select.thy ===== *)
theory Wallet_Select
  imports Wallet_Scan
begin

text \<open>Selecting and locking notes: the trait \<open>ShieldedWallet\<close> of the wallet
  (\<open>zalkanes-wallet/src/sqlite.rs\<close>).\<close>

definition lock_owner_for :: "sha \<Rightarrow> string \<Rightarrow> b32" where
  "lock_owner_for sha plan_id = sha (ascii ''zalkanes-plan-lock'' @ [0] @ ascii plan_id)"

datatype select_error =
    WalletLocked
  | TipUnknown
  | StatusFailed string
  | NotSynced sync_status
  | TipTooLow u32
  | AmountInvalid u64
  | SelectNotes string
  | NoSpendableNotes u64
  | WitnessFailed value_pool string
  | NoWitness u32
  | AnchorFailed value_pool string
  | ReserveFailed string

text \<open>The loop over the selected notes: the spends, their sum (which wraps around in the release
  profile) and the references to lock.\<close>

fun witness_notes ::
    "('d, 'x, 'a) note_db \<Rightarrow> 'x \<times> 'x \<Rightarrow> u32 \<Rightarrow> (value_pool \<times> 'x received_note) list
      \<Rightarrow> ('d, select_error, 'x shielded_spend list \<times> u64 \<times> output_ref list) step" where
  "witness_notes nd keys anchor_height [] = return_step ([], 0, [])"
| "witness_notes nd keys anchor_height ((pool, rn) # notes) = (\<lambda>d.
     case nd_witness nd pool (rn_position rn) anchor_height d of
       (d, Err e) \<Rightarrow> (d, Err (WitnessFailed pool e))
     | (d, Ok None) \<Rightarrow> (d, Err (NoWitness anchor_height))
     | (d, Ok (Some path)) \<Rightarrow>
         bind_step (witness_notes nd keys anchor_height notes) (\<lambda>(spends, amount, refs).
           return_step
             (\<lparr>ssp_fvk = fst keys, ssp_ask = snd keys, ssp_note = rn_note rn, ssp_merkle_path = path,
               ssp_value = rn_value rn, ssp_pool = pool\<rparr> # spends,
              rn_value rn + amount,
              \<lparr>or_txid = rn_txid rn, or_pool = pool, or_index = rn_output_index rn\<rparr> # refs)) d)"

definition anchor_for ::
    "('d, 'x, 'a) note_db \<Rightarrow> value_pool \<Rightarrow> u32 \<Rightarrow> ('d, select_error, b32 option) step" where
  "anchor_for nd pool anchor_height = (\<lambda>d.
     case nd_root nd pool anchor_height d of (d, r) \<Rightarrow> (d, map_err (AnchorFailed pool) r))"

text \<open>The notes at the canonical tip, once the wallet is known to be unlocked and synced.\<close>

definition reserve_notes ::
    "('d, 'x, 'a) note_db \<Rightarrow> 'x account_keys \<Rightarrow> sha \<Rightarrow> consensus_params \<Rightarrow> 'x \<times> 'x \<Rightarrow> 'a \<Rightarrow> u32 \<Rightarrow> u64 \<Rightarrow> string
      \<Rightarrow> ('d, select_error, 'x shielded_selection) step" where
  "reserve_notes nd ak sha params keys account zebra_tip required plan_id =
     (let target_height = zebra_tip + 1; anchor_height = zebra_tip - 1; owner = lock_owner_for sha plan_id in
      if \<not> ak_zatoshis_ok ak required then lift_step (Err (AmountInvalid required))
      else
      (\<lambda>d. case nd_select_spendable nd account required target_height 2 d of
         Err e \<Rightarrow> (d, Err (SelectNotes e))
       | Ok (orchard, ironwood) \<Rightarrow>
           (let notes = map (Pair Orchard) orchard @ map (Pair Ironwood) ironwood in
            if notes = [] then (d, Err (NoSpendableNotes required))
            else
              bind_step (witness_notes nd keys anchor_height notes) (\<lambda>(spends, amount, refs).
              bind_step (anchor_for nd Orchard anchor_height) (\<lambda>orchard_anchor.
              bind_step (anchor_for nd Ironwood anchor_height) (\<lambda>ironwood_anchor.
              bind_step (\<lambda>d. case nd_lock_outputs nd refs owner (zebra_tip + 128) d of
                  (d, r) \<Rightarrow> (d, map_err ReserveFailed r)) (\<lambda>_.
                return_step
                  \<lparr>sel_spends = spends, sel_selected_value = amount,
                   sel_change_address = ak_internal_address ak (fst keys), sel_change_fvk = fst keys,
                   sel_change_ask = snd keys, sel_change_ovk = Some (ak_internal_ovk ak (fst keys)),
                   sel_change_pool = (if ak_branch_has_ironwood ak params target_height then Ironwood else Orchard),
                   sel_anchor_height = anchor_height, sel_orchard_anchor = orchard_anchor,
                   sel_ironwood_anchor = ironwood_anchor, sel_output_refs = refs, sel_lock_owner = owner\<rparr>)))) d)))"

definition select_spends ::
    "('d, 'x, 'a) account_db \<Rightarrow> ('d, 'x) scan_db \<Rightarrow> ('d, 'x, 'a) note_db \<Rightarrow> 'x account_keys \<Rightarrow> sha \<Rightarrow> u64 \<Rightarrow> string
      \<Rightarrow> (('d, 'x, 'a) sqlite_wallet, select_error, 'x shielded_selection) step" where
  "select_spends ad xd nd ak sha required plan_id wallet =
     (let zebra_tip = sq_zebra_tip wallet in
      case and_then (ok_or WalletLocked (sq_spending wallet)) (\<lambda>keys.
           if zebra_tip = 0 then Err TipUnknown
           else
             and_then (map_err StatusFailed
                 (wallet_sync_status xd \<lparr>ct_height = zebra_tip, ct_hash = sq_zebra_tip_hash wallet\<rparr> wallet)) (\<lambda>status.
               if \<not> ys_synced status then Err (NotSynced status)
               else if zebra_tip < 2 then Err (TipTooLow zebra_tip)
               else Ok keys)) of
        Err e \<Rightarrow> (wallet, Err e)
      | Ok keys \<Rightarrow>
          (case reserve_notes nd ak sha (ad_params ad (sq_db wallet)) keys (sq_account_id wallet) zebra_tip required plan_id
              (sq_db wallet) of
             (d, r) \<Rightarrow> (wallet\<lparr>sq_db := d\<rparr>, r)))"

text \<open>Every locked output is unlocked for the owner; what the database answers is ignored.\<close>

definition release_locks ::
    "('d, 'x, 'a) note_db \<Rightarrow> sha \<Rightarrow> string \<Rightarrow> (('d, 'x, 'a) sqlite_wallet, string, unit) step" where
  "release_locks nd sha plan_id wallet =
     (case nd_locked_outputs nd (sq_account_id wallet) (sq_db wallet) of
        Err e \<Rightarrow> (wallet, Err e)
      | Ok locked \<Rightarrow>
          (wallet\<lparr>sq_db := fold (\<lambda>r d. fst (nd_unlock_output nd r (lock_owner_for sha plan_id) d)) locked (sq_db wallet)\<rparr>,
           Ok ()))"

definition sqlite_shielded_wallet ::
    "('d, 'x, 'a) account_db \<Rightarrow> ('d, 'x) scan_db \<Rightarrow> ('d, 'x, 'a) note_db \<Rightarrow> 'x account_keys \<Rightarrow> sha
      \<Rightarrow> (select_error \<Rightarrow> string) \<Rightarrow> (('d, 'x, 'a) sqlite_wallet, 'x) shielded_wallet" where
  "sqlite_shielded_wallet ad xd nd ak sha message =
     \<lparr>sw_sync_status = (\<lambda>tip wallet. (wallet, wallet_sync_status xd tip wallet)),
      sw_select_spends = (\<lambda>required plan_id wallet.
        case select_spends ad xd nd ak sha required plan_id wallet of (wallet, r) \<Rightarrow> (wallet, map_err message r)),
      sw_release = (\<lambda>plan_id wallet. release_locks nd sha plan_id wallet)\<rparr>"

end
