(* ===== verification/Wallet_Follow.thy ===== *)
theory Wallet_Follow
  imports Wallet_Select
begin

text \<open>Following a chain that does not change: what is assumed of the node and of the database, rules for
  the steps of a scan, and the rewind to the highest common ancestor.\<close>

section \<open>What is assumed of the node and of the database\<close>

text \<open>A call answers a value in the states \<open>live\<close> of the world and stays in them.\<close>

definition gives :: "('w \<Rightarrow> bool) \<Rightarrow> ('w, string, 'r) step \<Rightarrow> 'r \<Rightarrow> bool" where
  "gives live f v \<longleftrightarrow> (\<forall>w. live w \<longrightarrow> (\<exists>w'. live w' \<and> f w = (w', Ok v)))"

text \<open>A source that answers every height up to its tip from one chain.\<close>

definition steady_source ::
    "('w, 'x) chain_source \<Rightarrow> ('w \<Rightarrow> bool) \<Rightarrow> canonical_tip \<Rightarrow> (u32 \<Rightarrow> block_hash) \<Rightarrow> (u32 \<Rightarrow> 'x chain_state) \<Rightarrow> (u32 \<Rightarrow> 'x) \<Rightarrow> bool" where
  "steady_source src live tip hash_at tree_at block_at \<longleftrightarrow>
     ct_hash tip = hash_at (ct_height tip) \<and> gives live (cc_canonical_tip src) tip
     \<and> (\<forall>h. h \<le> ct_height tip \<longrightarrow> gives live (cc_source_hash src h) (hash_at h)
         \<and> gives live (cc_source_block src h) (block_at h) \<and> gives live (cc_tree_state src h) (tree_at h)
         \<and> cs_height (tree_at h) = h \<and> cs_hash (tree_at h) = hash_at h)"

text \<open>The blocks of the database are a map \<open>view d\<close> from heights to hashes. A rewind to a stored block
  drops what is above it, a block is put on top of the one its chain state names, and the scan
  progress is the top of the contiguous blocks from the birthday on.\<close>

definition block_store ::
    "('d, 'x, 'a) account_db \<Rightarrow> ('d, 'x) scan_db \<Rightarrow> 'a \<Rightarrow> u32 \<Rightarrow> ('d \<Rightarrow> u32 \<Rightarrow> block_hash option) \<Rightarrow> ('x \<Rightarrow> u32 \<times> block_hash) \<Rightarrow> bool" where
  "block_store ad xd account birthday view block_of \<longleftrightarrow>
     (\<forall>d. ad_account_birthday ad account d = Ok birthday \<and> is_ok (xd_viewing_keys xd d) \<and> is_ok (xd_unspent_nullifiers xd d))
     \<and> (\<forall>d. view d = Map.empty \<longrightarrow> xd_fully_scanned xd d = Ok None)
     \<and> (\<forall>d t. birthday \<le> t \<longrightarrow> dom (view d) = {birthday..t} \<longrightarrow> xd_fully_scanned xd d = Ok (Some (t, the (view d t))))
     \<and> (\<forall>d h. xd_block_hash xd h d = Ok (view d h))
     \<and> (\<forall>d cs. view d (cs_height cs) = Some (cs_hash cs) \<longrightarrow>
          (\<exists>d'. xd_rewind xd cs d = (d', Ok ()) \<and> view d' = view d |` {..cs_height cs}))
     \<and> (\<forall>d cs s h. block_of s = (cs_height cs + 1, h) \<and> cs_height cs < cs_height cs + 1 \<longrightarrow>
          view d = Map.empty \<and> cs_height cs + 1 = birthday
            \<or> birthday \<le> cs_height cs \<and> dom (view d) = {birthday..cs_height cs} \<and> view d (cs_height cs) = Some (cs_hash cs) \<longrightarrow>
          (\<exists>d'. xd_put_blocks xd cs s d = (d', Ok ()) \<and> view d' = (view d)(cs_height cs + 1 \<mapsto> h)))
     \<and> (\<forall>d h. \<exists>d'. xd_update_chain_tip xd h d = (d', Ok ()) \<and> view d' = view d)"

text \<open>The scanner accepts the blocks of the chain and reports their height and hash.\<close>

definition scans_chain ::
    "('d, 'x) scan_db \<Rightarrow> ('x \<Rightarrow> u32 \<times> block_hash) \<Rightarrow> u32 \<Rightarrow> u32 \<Rightarrow> (u32 \<Rightarrow> block_hash) \<Rightarrow> (u32 \<Rightarrow> 'x chain_state) \<Rightarrow> (u32 \<Rightarrow> 'x) \<Rightarrow> bool" where
  "scans_chain xd block_of birthday final hash_at tree_at block_at \<longleftrightarrow>
     (\<forall>network keys nullifiers h. birthday \<le> h \<longrightarrow> h \<le> final \<longrightarrow>
        (\<exists>s. xd_scan xd network h (block_at h) keys nullifiers (chain_state_to_block_metadata (tree_at (h - 1))) = Ok s
          \<and> block_of s = (h, hash_at h)))"

text \<open>The canonical blocks from the birthday up to, but without, a height.\<close>

definition scanned_below :: "u32 \<Rightarrow> (u32 \<Rightarrow> block_hash) \<Rightarrow> u32 \<Rightarrow> u32 \<Rightarrow> block_hash option" where
  "scanned_below birthday hash_at h = (\<lambda>k. if birthday \<le> k \<and> k < h then Some (hash_at k) else None)"

text \<open>A block names its predecessor: two chains that share a block share all the blocks below it.\<close>

definition agrees_downwards :: "u32 \<Rightarrow> u32 \<Rightarrow> (u32 \<Rightarrow> block_hash option) \<Rightarrow> (u32 \<Rightarrow> block_hash) \<Rightarrow> bool" where
  "agrees_downwards birthday final m hash_at \<longleftrightarrow>
     (\<forall>h k. birthday \<le> k \<longrightarrow> k \<le> h \<longrightarrow> h \<le> final \<longrightarrow> m h = Some (hash_at h) \<longrightarrow> m k = Some (hash_at k))"

section \<open>Heights\<close>

lemma word_pred:
  fixes h :: "'a::len word"
  assumes "0 < h"
  shows "h - 1 < h" "unat (h - 1) = unat h - 1" "k \<le> h - 1 \<longleftrightarrow> k < h" "k < h \<Longrightarrow> k \<le> h - 1"
proof -
  have "1 \<le> h" using assms by (simp add: word_le_nat_alt word_less_nat_alt)
  then show u: "unat (h - 1) = unat h - 1" by (simp add: unat_sub)
  have "0 < unat h" using assms by (simp add: word_less_nat_alt)
  with u show "h - 1 < h" "k \<le> h - 1 \<longleftrightarrow> k < h" "k < h \<Longrightarrow> k \<le> h - 1"
    by (auto simp: word_less_nat_alt word_le_nat_alt)
qed

lemma word_suc:
  fixes h t :: "'a::len word"
  assumes "h \<le> t" "unat t + 1 < 2 ^ LENGTH('a)"
  shows "unat (h + 1) = unat h + 1" "k < h + 1 \<longleftrightarrow> k \<le> h" "h + 1 \<le> k \<longleftrightarrow> h < k"
proof -
  have "unat h + 1 < 2 ^ LENGTH('a)" using assms by (simp add: word_le_nat_alt)
  then show u: "unat (h + 1) = unat h + 1" by (simp add: unat_word_ariths)
  then show "k < h + 1 \<longleftrightarrow> k \<le> h" "h + 1 \<le> k \<longleftrightarrow> h < k"
    by (auto simp: word_less_nat_alt word_le_nat_alt)
qed

lemma word_succ_le:
  fixes k :: "'a::len word"
  assumes "k < k + 1"
  shows "j \<le> k + 1 \<longleftrightarrow> j \<le> k \<or> j = k + 1" "m \<le> k \<Longrightarrow> m \<le> k + 1" "\<not> k + 1 \<le> k"
proof -
  have "unat (k + 1) = unat k + 1"
    using assms by (simp add: word_less_nat_alt unat_word_ariths mod_Suc split: if_splits)
  then show "j \<le> k + 1 \<longleftrightarrow> j \<le> k \<or> j = k + 1" "m \<le> k \<Longrightarrow> m \<le> k + 1" "\<not> k + 1 \<le> k"
    by (auto simp: word_le_nat_alt word_unat_eq_iff)
qed

section \<open>Running steps\<close>

text \<open>From a state of \<open>live\<close> and the database \<open>d\<close>, a step answers \<open>r\<close> and leaves the database \<open>d'\<close>.\<close>

definition runs :: "('w \<Rightarrow> bool) \<Rightarrow> ('w, 'd, 'r) scan_step \<Rightarrow> 'd \<Rightarrow> (scan_error, 'r) result \<Rightarrow> 'd \<Rightarrow> bool" where
  "runs live f d r d' \<longleftrightarrow> (\<forall>w. live w \<longrightarrow> (\<exists>w'. live w' \<and> f (w, d) = ((w', d'), r)))"

named_theorems step_runs

lemma runs_bind [step_runs]: "runs live f d (Ok v) d1 \<Longrightarrow> runs live (g v) d1 r d2 \<Longrightarrow> runs live (bind_step f g) d r d2"
  by (fastforce simp: runs_def bind_step_def)

lemma runs_bind_Err: "runs live f d (Err e) d1 \<Longrightarrow> runs live (bind_step f g) d (Err e) d1"
  by (fastforce simp: runs_def bind_step_def)

lemma runs_steps [step_runs]:
  "gives live call v \<Longrightarrow> runs live (ask_source call) d (Ok v) d"
  "reading d = Ok v \<Longrightarrow> runs live (read_db reading) d (Ok v) d"
  "writing d = (d', Ok v) \<Longrightarrow> runs live (write_db writing) d (Ok v) d'"
  "runs live (return_step v) d (Ok v) d" "r = Ok v \<Longrightarrow> runs live (lift_step (map_err DbError r)) d (Ok v) d"
  by (fastforce simp: runs_def gives_def ask_source_def read_db_def write_db_def return_step_def lift_step_def)+

lemma steady_sourceD:
  assumes "steady_source src live tip hash_at tree_at block_at"
  shows "ct_hash tip = hash_at (ct_height tip)" "gives live (cc_canonical_tip src) tip"
    "h \<le> ct_height tip \<Longrightarrow> gives live (cc_source_hash src h) (hash_at h)"
    "h \<le> ct_height tip \<Longrightarrow> gives live (cc_source_block src h) (block_at h)"
    "h \<le> ct_height tip \<Longrightarrow> gives live (cc_tree_state src h) (tree_at h)"
    "h \<le> ct_height tip \<Longrightarrow> cs_height (tree_at h) = h" "h \<le> ct_height tip \<Longrightarrow> cs_hash (tree_at h) = hash_at h"
  using assms by (simp_all add: steady_source_def)

section \<open>Rewinding\<close>

lemma rewind_step:
  assumes "steady_source src live tip hash_at tree_at block_at" "block_store ad xd account birthday view block_of"
    and "h \<le> ct_height tip"
    and "if view d h = Some (hash_at h) then runs live (rewind_at xd src h) d r d'
      else if h \<le> birthday then r = Err (BirthdayCrossed birthday) \<and> d' = d
      else runs live (rewind_to_common_ancestor xd src birthday (h - 1)) d r d'"
  shows "runs live (rewind_to_common_ancestor xd src birthday h) d r d'"
  unfolding runs_def
proof (intro allI impI)
  fix w assume "live w"
  then obtain w1 where w1: "live w1" "cc_source_hash src h w = (w1, Ok (hash_at h))"
    using steady_sourceD(3) [OF assms(1,3)] by (auto simp: gives_def)
  moreover have "xd_block_hash xd h d = Ok (view d h)"
    using assms(2) unfolding block_store_def by blast
  ultimately have "rewind_to_common_ancestor xd src birthday h (w, d) =
    (if view d h = Some (hash_at h) then rewind_at xd src h (w1, d)
     else if h \<le> birthday then ((w1, d), Err (BirthdayCrossed birthday))
     else rewind_to_common_ancestor xd src birthday (h - 1) (w1, d))"
    by (subst rewind_to_common_ancestor.simps) (simp add: bind_step_def read_db_def ask_source_def return_step_def)
  with assms(4) w1(1) show "\<exists>w'. live w' \<and> rewind_to_common_ancestor xd src birthday h (w, d) = ((w', d'), r)"
    by (auto simp: runs_def split: if_splits)
qed

lemma rewind_at_stored:
  assumes "steady_source src live tip hash_at tree_at block_at" "block_store ad xd account birthday view block_of"
    and "h \<le> ct_height tip" "view d h = Some (hash_at h)"
  shows "\<exists>d'. runs live (rewind_at xd src h) d (Ok (h + 1)) d' \<and> view d' = view d |` {..h}"
proof -
  note cs = steady_sourceD(6,7) [OF assms(1,3)]
  have "view d (cs_height (tree_at h)) = Some (cs_hash (tree_at h))"
    using assms(4) by (simp add: cs)
  then obtain d' where d': "xd_rewind xd (tree_at h) d = (d', Ok ())" "view d' = view d |` {..cs_height (tree_at h)}"
    using assms(2) unfolding block_store_def by blast
  have "runs live (rewind_at xd src h) d (Ok (h + 1)) d'"
    unfolding rewind_at_def by (rule step_runs steady_sourceD(5) [OF assms(1,3)] d'(1))+
  with d'(2) show ?thesis by (auto simp: cs)
qed

lemma rewind_finds:
  assumes "steady_source src live tip hash_at tree_at block_at" "block_store ad xd account birthday view block_of"
    and "h \<le> ct_height tip" "a \<le> h" "birthday \<le> a" "view d a = Some (hash_at a)"
    and "\<And>k. a < k \<Longrightarrow> k \<le> h \<Longrightarrow> view d k \<noteq> Some (hash_at k)"
  shows "\<exists>d'. runs live (rewind_to_common_ancestor xd src birthday h) d (Ok (a + 1)) d' \<and> view d' = view d |` {..a}"
  using assms(3,4,7)
proof (induction "unat h" arbitrary: h rule: less_induct)
  case less
  show ?case
  proof (cases "h = a")
    case True
    with less.prems(1) have "a \<le> ct_height tip" by simp
    from rewind_at_stored [OF assms(1,2) this assms(6)] obtain d' where
      "runs live (rewind_at xd src a) d (Ok (a + 1)) d'" "view d' = view d |` {..a}" by blast
    moreover from this(1) have "runs live (rewind_to_common_ancestor xd src birthday a) d (Ok (a + 1)) d'"
      using assms(6) by (intro rewind_step [OF assms(1,2) \<open>a \<le> ct_height tip\<close>]) simp
    ultimately show ?thesis using True by blast
  next
    case False
    with less.prems have lt: "a < h" by simp
    then have pos: "0 < h" by (rule le_less_trans [rotated]) simp
    note p = word_pred [OF pos]
    have "\<not> h \<le> birthday" "view d h \<noteq> Some (hash_at h)" using lt assms(5) less.prems(3) by auto
    then have step: "runs live (rewind_to_common_ancestor xd src birthday h) d r d'"
      if "runs live (rewind_to_common_ancestor xd src birthday (h - 1)) d r d'" for r d'
      using that by (intro rewind_step [OF assms(1,2) less.prems(1)]) simp
    have "unat (h - 1) < unat h" using p(1) by (simp only: word_less_nat_alt)
    moreover have "h - 1 \<le> ct_height tip" using p(1) less.prems(1) by (meson less_imp_le order_trans)
    moreover have "a \<le> h - 1" using lt by (rule p(4))
    moreover have "view d k \<noteq> Some (hash_at k)" if "a < k" "k \<le> h - 1" for k
      using less.prems(3) that p(3) by (meson less_imp_le)
    ultimately show ?thesis using less.hyps step by blast
  qed
qed

lemma rewind_fails:
  assumes "steady_source src live tip hash_at tree_at block_at" "block_store ad xd account birthday view block_of"
    and "h \<le> ct_height tip" "\<And>k. k \<le> h \<Longrightarrow> view d k \<noteq> Some (hash_at k)"
  shows "runs live (rewind_to_common_ancestor xd src birthday h) d (Err (BirthdayCrossed birthday)) d"
  using assms(3,4)
proof (induction "unat h" arbitrary: h rule: less_induct)
  case less
  show ?case
  proof (cases "h \<le> birthday")
    case False
    then have pos: "0 < h" by (metis le_less_trans not_le word_zero_le)
    note p = word_pred [OF pos]
    have "unat (h - 1) < unat h" using p(1) by (simp only: word_less_nat_alt)
    moreover have "h - 1 \<le> ct_height tip" using p(1) less.prems(1) by (meson less_imp_le order_trans)
    moreover have "view d k \<noteq> Some (hash_at k)" if "k \<le> h - 1" for k
      using less.prems(2) that p(3) by (meson less_imp_le)
    ultimately have "runs live (rewind_to_common_ancestor xd src birthday (h - 1)) d (Err (BirthdayCrossed birthday)) d"
      using less.hyps by blast
    then show ?thesis using False less.prems(2) [of h] by (intro rewind_step [OF assms(1,2) less.prems(1)]) simp
  next
    case True
    then show ?thesis using less.prems(2) [of h] by (intro rewind_step [OF assms(1,2) less.prems(1)]) simp
  qed
qed

end
