(* ===== verification/Wallet_Scan_Props.thy ===== *)
theory Wallet_Scan_Props
  imports Wallet_Follow
begin

text \<open>Scanning ends in sync: against a node whose chain does not change, the wallet's blocks become
  exactly the canonical ones, whatever stale branch it had scanned before.\<close>

section \<open>The forward loop\<close>

lemma put_on_top:
  assumes "block_store ad xd account birthday view block_of" "block_of s = (k + 1, x)" "k < k + 1" "cs_height cs = k" "cs_hash cs = y"
    and "view d = Map.empty \<and> k + 1 = birthday \<or> birthday \<le> k \<and> dom (view d) = {birthday..k} \<and> view d k = Some y"
  shows "\<exists>d'. xd_put_blocks xd cs s d = (d', Ok ()) \<and> view d' = (view d)(k + 1 \<mapsto> x)"
  using assms unfolding block_store_def by blast

lemma scan_one_puts:
  assumes "steady_source src live tip hash_at tree_at block_at" "block_store ad xd account birthday view block_of"
    and "scans_chain xd block_of birthday (ct_height tip) hash_at tree_at block_at"
    and "0 < birthday" "birthday \<le> h" "h \<le> ct_height tip" "unat (ct_height tip) + 1 < 2 ^ 32"
    and "view d = scanned_below birthday hash_at h"
  shows "\<exists>d' n. runs live (scan_one xd src network keys nullifiers h (tree_at (h - 1))) d (Ok (n, hash_at h)) d'
    \<and> view d' = scanned_below birthday hash_at (h + 1)"
proof -
  have pos: "0 < h" using assms(4,5) by (rule less_le_trans)
  note p = word_pred [OF pos]
  have le: "h - 1 \<le> ct_height tip" using p(1) assms(6) by simp
  note cs = steady_sourceD(6,7) [OF assms(1) le]
  obtain s where s: "xd_scan xd network h (block_at h) keys nullifiers (chain_state_to_block_metadata (tree_at (h - 1))) = Ok s"
      "block_of s = (h, hash_at h)"
    using assms(3,5,6) unfolding scans_chain_def by blast
  have "view d = Map.empty \<and> h - 1 + 1 = birthday
      \<or> birthday \<le> h - 1 \<and> dom (view d) = {birthday..h - 1} \<and> view d (h - 1) = Some (hash_at (h - 1))"
  proof (cases "h = birthday")
    case True
    then show ?thesis using assms(8) by (auto simp: scanned_below_def fun_eq_iff)
  next
    case False
    with assms(5) have "birthday < h" by simp
    then have "birthday \<le> h - 1" by (rule p(4))
    moreover have "dom (view d) = {birthday..h - 1}"
      by (rule set_eqI) (simp only: assms(8) scanned_below_def dom_def p(3) atLeastAtMost_iff mem_Collect_eq, simp)
    moreover have "view d (h - 1) = Some (hash_at (h - 1))"
      by (simp only: assms(8) scanned_below_def p(1) \<open>birthday \<le> h - 1\<close> simp_thms if_True)
    ultimately show ?thesis by blast
  qed
  moreover have "block_of s = (h - 1 + 1, hash_at h)" "h - 1 < h - 1 + 1" using s(2) p(1) by simp_all
  ultimately obtain d' where d': "xd_put_blocks xd (tree_at (h - 1)) s d = (d', Ok ())" "view d' = (view d)(h - 1 + 1 \<mapsto> hash_at h)"
    using put_on_top [OF assms(2) _ _ cs] by blast
  have "view d' = scanned_below birthday hash_at (h + 1)"
    using assms(5,8) word_suc [OF assms(6)] assms(7) by (auto simp: d' scanned_below_def fun_eq_iff)
  moreover have "runs live (scan_one xd src network keys nullifiers h (tree_at (h - 1))) d
      (Ok (xd_update_nullifiers xd nullifiers s, hash_at h)) d'"
    unfolding scan_one_def by (rule step_runs steady_sourceD(3,4) [OF assms(1,6)] s(1) d'(1))+
  ultimately show ?thesis by blast
qed

lemma scan_blocks_reach:
  assumes "steady_source src live tip hash_at tree_at block_at" "block_store ad xd account birthday view block_of"
    and "scans_chain xd block_of birthday (ct_height tip) hash_at tree_at block_at"
    and "0 < birthday" "unat (ct_height tip) + 1 < 2 ^ 32"
    and "birthday \<le> h" "h \<le> ct_height tip + 1" "view d = scanned_below birthday hash_at h"
    and "prev = None \<or> prev = Some (hash_at (h - 1))" "unat (ct_height tip) + 1 - unat h < fuel"
  shows "\<exists>d'. runs live (scan_blocks fuel xd src network keys birthday (ct_height tip) h nullifiers prev) d (Ok ()) d'
    \<and> view d' = scanned_below birthday hash_at (ct_height tip + 1)"
  using assms(6-)
proof (induction fuel arbitrary: h nullifiers prev d)
  case (Suc fuel)
  show ?case
  proof (cases "h \<le> ct_height tip")
    case True
    have pos: "0 < h" using assms(4) Suc.prems(1) by (rule less_le_trans)
    note p = word_pred [OF pos]
    have le: "h - 1 \<le> ct_height tip" using p(1) True by (meson less_imp_le order_trans)
    have next_u: "unat (h + 1) = unat h + 1" using word_suc(1) [OF True] assms(5) by simp
    obtain d' n where one: "runs live (scan_one xd src network keys nullifiers h (tree_at (h - 1))) d (Ok (n, hash_at h)) d'"
        "view d' = scanned_below birthday hash_at (h + 1)"
      using scan_one_puts [OF assms(1-4) Suc.prems(1) True assms(5) Suc.prems(3)] by blast
    have "birthday \<le> h + 1" "h + 1 \<le> ct_height tip + 1" "unat (ct_height tip) + 1 - unat (h + 1) < fuel"
      using Suc.prems(1,5) True next_u assms(5) word_suc(1) [of "ct_height tip" "ct_height tip"]
      by (simp_all add: word_le_nat_alt)
    from Suc.IH [OF this(1,2) one(2) _ this(3), of "Some (hash_at h)" n] obtain d'' where
      rest: "runs live (scan_blocks fuel xd src network keys birthday (ct_height tip) (h + 1) n (Some (hash_at h))) d' (Ok ()) d''"
      "view d'' = scanned_below birthday hash_at (ct_height tip + 1)"
      by auto
    have follows: "\<not> (prev \<noteq> None \<and> prev \<noteq> Some (cs_hash (tree_at (h - 1))))"
      using Suc.prems(4) steady_sourceD(7) [OF assms(1) le] by auto
    have "runs live (bind_step (scan_one xd src network keys nullifiers h (tree_at (h - 1))) (\<lambda>(nullifiers, prev).
        scan_blocks fuel xd src network keys birthday (ct_height tip) (h + 1) nullifiers (Some prev))) d (Ok ()) d''"
      using rest(1) by (intro runs_bind [OF one(1)]) simp
    then have "runs live (scan_blocks (Suc fuel) xd src network keys birthday (ct_height tip) h nullifiers prev) d (Ok ()) d''"
      using True follows
      by (auto intro!: runs_bind [OF runs_steps(1) [OF steady_sourceD(5) [OF assms(1) le]]])
    with rest(2) show ?thesis by blast
  next
    case False
    then have "ct_height tip + 1 \<le> h" using word_suc(3) [of "ct_height tip" "ct_height tip" h] assms(5) by simp
    with Suc.prems(2) have "h = ct_height tip + 1" by (rule order_antisym)
    with False Suc.prems(3) show ?thesis by (auto simp: not_le runs_def)
  qed
qed simp

section \<open>Where the scan starts\<close>

lemma highest_agreement:
  fixes m :: "u32 \<Rightarrow> block_hash option"
  assumes "k \<le> h" "birthday \<le> k" "m k = Some (hash_at k)"
  obtains a where "a \<le> h" "birthday \<le> a" "m a = Some (hash_at a)" "\<And>j. a < j \<Longrightarrow> j \<le> h \<Longrightarrow> m j \<noteq> Some (hash_at j)"
proof -
  let ?S = "{j. j \<le> h \<and> birthday \<le> j \<and> m j = Some (hash_at j)}"
  have ne: "?S \<noteq> {}" "finite ?S" using assms by auto
  have max: "Max ?S \<in> ?S" by (rule Max_in [OF ne(2,1)])
  have low: "birthday \<le> Max ?S" using max by blast
  have ge: "j \<le> Max ?S" if "j \<in> ?S" for j by (rule Max_ge [OF ne(2) that])
  show thesis
  proof (rule that [of "Max ?S"])
    show "m j \<noteq> Some (hash_at j)" if "Max ?S < j" "j \<le> h" for j
    proof
      assume "m j = Some (hash_at j)"
      moreover have "birthday \<le> j" by (rule order_trans [OF low less_imp_le [OF that(1)]])
      ultimately have "j \<le> Max ?S" using that(2) by (intro ge) simp
      with that(1) show False by (simp add: leD)
    qed
  qed (use max in \<open>blast+\<close>)
qed

lemma rewind_from_finds:
  assumes "steady_source src live tip hash_at tree_at block_at" "block_store ad xd account birthday view block_of"
    and "h \<le> ct_height tip" "unat (ct_height tip) + 1 < 2 ^ 32" "k \<le> h" "birthday \<le> k" "view d k = Some (hash_at k)"
    and "dom (view d) = {birthday..t}" "agrees_downwards birthday (ct_height tip) (view d) hash_at"
  shows "\<exists>a d' n. runs live (rewind_from xd src birthday h) d (Ok (a + 1, n, hash_at a)) d'
    \<and> birthday \<le> a \<and> a \<le> h \<and> view d' = scanned_below birthday hash_at (a + 1)"
proof -
  obtain a where a: "a \<le> h" "birthday \<le> a" "view d a = Some (hash_at a)" "\<And>j. a < j \<Longrightarrow> j \<le> h \<Longrightarrow> view d j \<noteq> Some (hash_at j)"
    using highest_agreement [of k h birthday "view d" hash_at, OF assms(5,6,7)] by metis
  obtain d' where d': "runs live (rewind_to_common_ancestor xd src birthday h) d (Ok (a + 1)) d'" "view d' = view d |` {..a}"
    using rewind_finds [OF assms(1-3) a] by blast
  obtain n where n: "xd_unspent_nullifiers xd d' = Ok n"
    using assms(2) unfolding block_store_def is_ok_iff by blast
  have le: "a \<le> ct_height tip" using a(1) assms(3) by (rule order_trans)
  have "view d' j = scanned_below birthday hash_at (a + 1) j" for j
  proof (cases "birthday \<le> j \<and> j \<le> a")
    case True
    then show ?thesis
      using assms(9) a(3) le word_suc(2) [OF le, of j] assms(4) by (auto simp: d' scanned_below_def agrees_downwards_def)
  next
    case False
    then have "view d' j = None" using assms(8) by (auto simp: d' restrict_map_def)
    with False show ?thesis using word_suc(2) [OF le, of j] assms(4) by (auto simp: scanned_below_def)
  qed
  then have "view d' = scanned_below birthday hash_at (a + 1)" by (rule ext)
  moreover have prev: "gives live (cc_source_hash src (a + 1 - 1)) (hash_at a)"
    using steady_sourceD(3) [OF assms(1) le] by simp
  have "runs live (rewind_from xd src birthday h) d (Ok (a + 1, n, hash_at a)) d'"
    unfolding rewind_from_def by (rule d'(1) step_runs n prev)+
  ultimately show ?thesis using a(1,2) by blast
qed

lemma needs_rewind_exact:
  assumes "steady_source src live tip hash_at tree_at block_at" "block_store ad xd account birthday view block_of"
    and "birthday \<le> t" "dom (view d) = {birthday..t}"
  shows "runs live (needs_rewind xd src t (ct_height tip) (the (view d t))) d
    (Ok (\<not> (t \<le> ct_height tip \<and> view d t = Some (hash_at t)))) d"
proof (cases "t \<le> ct_height tip")
  case True
  obtain y where "view d t = Some y" using assms(3,4) by (auto simp: dom_def set_eq_iff)
  moreover have "runs live (bind_step (ask_source (cc_source_hash src t)) (\<lambda>h. return_step (Some y \<noteq> Some h))) d
      (Ok (Some y \<noteq> Some (hash_at t))) d"
    by (rule step_runs steady_sourceD(3) [OF assms(1) True])+
  ultimately show ?thesis
    using True leD [OF True] by (auto simp: needs_rewind_def min_absorb1 Let_def intro!: runs_bind [OF runs_steps(4)])
next
  case False
  then have "min t (ct_height tip) = ct_height tip" "ct_height tip \<noteq> t" "ct_height tip < t" by auto
  moreover have "xd_block_hash xd (ct_height tip) d = Ok (view d (ct_height tip))"
    using assms(2) unfolding block_store_def by blast
  ultimately show ?thesis
    using False by (auto simp: needs_rewind_def Let_def intro!: runs_bind [OF runs_steps(2)] runs_steps(4))
qed

lemma scan_start_agrees:
  assumes "steady_source src live tip hash_at tree_at block_at" "block_store ad xd account birthday view block_of"
    and "unat (ct_height tip) + 1 < 2 ^ 32" "birthday \<le> t" "dom (view d) = {birthday..t}"
    and "agrees_downwards birthday (ct_height tip) (view d) hash_at"
    and "k \<le> ct_height tip" "view d k = Some (hash_at k)"
  shows "\<exists>a d' n. runs live (scan_start xd src birthday (ct_height tip) nullifiers (Some (t, the (view d t)))) d
      (Ok (a + 1, n, Some (hash_at a))) d'
    \<and> birthday \<le> a \<and> a \<le> ct_height tip \<and> view d' = scanned_below birthday hash_at (a + 1)"
proof -
  let ?h = "min t (ct_height tip)"
  have k: "birthday \<le> k" "k \<le> ?h" using assms(5,7,8) by (auto simp: dom_def)
  have min: "?h \<le> ct_height tip" by simp
  have t: "t + 1 - 1 = t" by simp
  note needs = needs_rewind_exact [OF assms(1,2,4,5)]
  show ?thesis
  proof (cases "t \<le> ct_height tip \<and> view d t = Some (hash_at t)")
    case True
    then have stays: "runs live (needs_rewind xd src t (ct_height tip) (hash_at t)) d (Ok False) d"
      using needs by simp
    from True have start: "runs live (scan_start xd src birthday (ct_height tip) nullifiers (Some (t, the (view d t)))) d
        (Ok (t + 1, nullifiers, Some (hash_at t))) d"
      by (simp add: scan_start_def t Let_def) (rule runs_bind [OF stays], simp add: runs_def)
    have "view d j = scanned_below birthday hash_at (t + 1) j" for j
    proof (cases "birthday \<le> j \<and> j \<le> t")
      case True
      then show ?thesis
        using assms(6) \<open>t \<le> ct_height tip \<and> view d t = Some (hash_at t)\<close> word_suc(2) [of t "ct_height tip" j] assms(3)
        by (auto simp: scanned_below_def agrees_downwards_def)
    next
      case False
      then have "view d j = None" using assms(5) by auto
      with False show ?thesis
        using word_suc(2) [of t "ct_height tip" j] assms(3) True by (auto simp: scanned_below_def)
    qed
    then have "view d = scanned_below birthday hash_at (t + 1)" by (rule ext)
    with start True assms(4) show ?thesis by blast
  next
    case False
    obtain a d' n where a: "runs live (rewind_from xd src birthday ?h) d (Ok (a + 1, n, hash_at a)) d'"
      "birthday \<le> a" "a \<le> ?h" "view d' = scanned_below birthday hash_at (a + 1)"
      using rewind_from_finds [OF assms(1,2) min assms(3) k(2,1) assms(8,5,6)] by blast
    have "runs live (bind_step (rewind_from xd src birthday ?h) (\<lambda>(height, nullifiers, prev).
        return_step (height, nullifiers, Some prev))) d (Ok (a + 1, n, Some (hash_at a))) d'"
      by (rule runs_bind [OF a(1)]) (simp add: runs_def)
    then have "runs live (scan_start xd src birthday (ct_height tip) nullifiers (Some (t, the (view d t)))) d
        (Ok (a + 1, n, Some (hash_at a))) d'"
      using False by (auto simp: scan_start_def t Let_def intro!: runs_bind [OF needs])
    with a(2-4) show ?thesis by (meson min order_trans)
  qed
qed

lemma scan_start_crosses:
  assumes "steady_source src live tip hash_at tree_at block_at" "block_store ad xd account birthday view block_of"
    and "dom (view d) = {birthday..t}" "birthday \<le> t" "\<And>k. k \<le> ct_height tip \<Longrightarrow> view d k \<noteq> Some (hash_at k)"
  shows "runs live (scan_start xd src birthday (ct_height tip) nullifiers (Some (t, the (view d t)))) d
    (Err (BirthdayCrossed birthday)) d"
proof -
  let ?h = "min t (ct_height tip)"
  have t: "t + 1 - 1 = t" by simp
  have "runs live (rewind_to_common_ancestor xd src birthday ?h) d (Err (BirthdayCrossed birthday)) d"
    using assms(5) by (intro rewind_fails [OF assms(1,2)]) simp_all
  then have "runs live (bind_step (rewind_from xd src birthday ?h) (\<lambda>(height, nullifiers, prev).
      return_step (height, nullifiers, Some prev))) d (Err (BirthdayCrossed birthday)) d"
    unfolding rewind_from_def by (intro runs_bind_Err)
  moreover have "\<not> (t \<le> ct_height tip \<and> view d t = Some (hash_at t))" using assms(5) by blast
  ultimately show ?thesis
    by (auto simp: scan_start_def t Let_def intro!: runs_bind [OF needs_rewind_exact [OF assms(1,2,4,3)]])
qed

section \<open>The whole scan\<close>

lemma scan_start_meets:
  assumes "steady_source src live tip hash_at tree_at block_at" "block_store ad xd account birthday view block_of"
    and "birthday \<le> ct_height tip" "unat (ct_height tip) + 1 < 2 ^ 32"
    and "view d = Map.empty \<or> (\<exists>t. birthday \<le> t \<and> dom (view d) = {birthday..t})"
    and "agrees_downwards birthday (ct_height tip) (view d) hash_at"
    and "view d = Map.empty \<or> (\<exists>k. k \<le> ct_height tip \<and> view d k = Some (hash_at k))"
  obtains scanned d' h n prev where "xd_fully_scanned xd d = Ok scanned"
    "runs live (scan_start xd src birthday (ct_height tip) nullifiers scanned) d (Ok (h, n, prev)) d'"
    "birthday \<le> h" "h \<le> ct_height tip + 1" "view d' = scanned_below birthday hash_at h"
    "prev = None \<or> prev = Some (hash_at (h - 1))"
proof (cases "view d = Map.empty")
  case True
  then have "xd_fully_scanned xd d = Ok None" using assms(2) unfolding block_store_def by blast
  moreover have "runs live (scan_start xd src birthday (ct_height tip) nullifiers None) d (Ok (birthday, nullifiers, None)) d"
    by (simp add: scan_start_def runs_def)
  moreover have "birthday \<le> ct_height tip + 1"
    using assms(3) word_suc(1) [of "ct_height tip" "ct_height tip"] assms(4) by (simp add: word_le_nat_alt)
  moreover have "view d = scanned_below birthday hash_at birthday"
    using True by (auto simp: scanned_below_def fun_eq_iff)
  ultimately show ?thesis using that by blast
next
  case False
  with assms(5) obtain t where t: "birthday \<le> t" "dom (view d) = {birthday..t}" by auto
  from False assms(7) obtain k where k: "k \<le> ct_height tip" "view d k = Some (hash_at k)" by blast
  have "xd_fully_scanned xd d = Ok (Some (t, the (view d t)))"
    using assms(2) t unfolding block_store_def by blast
  moreover obtain a d' n where a: "runs live (scan_start xd src birthday (ct_height tip) nullifiers (Some (t, the (view d t)))) d
      (Ok (a + 1, n, Some (hash_at a))) d'"
    "birthday \<le> a" "a \<le> ct_height tip" "view d' = scanned_below birthday hash_at (a + 1)"
    using scan_start_agrees [OF assms(1,2,4) t assms(6) k] by blast
  moreover have "birthday \<le> a + 1" "a + 1 \<le> ct_height tip + 1"
    using a(2,3) word_suc(1) [OF a(3)] word_suc(1) [of "ct_height tip" "ct_height tip"] assms(4)
    by (simp_all add: word_le_nat_alt)
  moreover have "a + 1 - 1 = a" by simp
  ultimately show ?thesis using that by metis
qed

lemma scan_chain_finishes:
  assumes "steady_source src live tip hash_at tree_at block_at" "block_store ad xd account birthday view block_of"
    and "scans_chain xd block_of birthday (ct_height tip) hash_at tree_at block_at"
    and "0 < birthday" "unat (ct_height tip) + 1 < 2 ^ 32" "unat (ct_height tip) + 1 - unat birthday < fuel"
    and "xd_unspent_nullifiers xd d = Ok nullifiers" "xd_fully_scanned xd d = Ok scanned"
    and "runs live (scan_start xd src birthday (ct_height tip) nullifiers scanned) d (Ok (h, n, prev)) d1"
    and "birthday \<le> h" "h \<le> ct_height tip + 1" "view d1 = scanned_below birthday hash_at h"
    and "prev = None \<or> prev = Some (hash_at (h - 1))"
  shows "\<exists>d'. runs live (scan_chain fuel ad xd src account) d (Ok tip) d'
    \<and> view d' = scanned_below birthday hash_at (ct_height tip + 1)"
proof -
  obtain keys where reads: "ad_account_birthday ad account d = Ok birthday" "xd_viewing_keys xd d = Ok keys"
    using assms(2) unfolding block_store_def is_ok_iff by blast
  have "unat (ct_height tip) + 1 - unat h < fuel"
    using assms(6,10) by (simp add: word_le_nat_alt)
  from scan_blocks_reach [OF assms(1-5) assms(10-13) this] obtain d2 where
    d2: "runs live (scan_blocks fuel xd src (ad_params ad d) keys birthday (ct_height tip) h n prev) d1 (Ok ()) d2"
      "view d2 = scanned_below birthday hash_at (ct_height tip + 1)" by blast
  obtain d3 where d3: "xd_update_chain_tip xd (ct_height tip) d2 = (d3, Ok ())" "view d3 = view d2"
    using assms(2) unfolding block_store_def by blast
  have final: "runs live (if hash_at (ct_height tip) \<noteq> ct_hash tip
      then lift_step (Err (TipChanged (hash_at (ct_height tip)) (ct_hash tip))) else return_step tip) d3 (Ok tip) d3"
    by (simp add: steady_sourceD(1) [OF assms(1)] runs_def)
  have "runs live (scan_chain fuel ad xd src account) d (Ok tip) d3"
    unfolding scan_chain_def
    by (rule runs_bind steady_sourceD(2) [OF assms(1)] steady_sourceD(3) [OF assms(1) order_refl] runs_steps(1-3)
        assms(7-9) reads d2(1) d3(1) final refl | simp only: prod.case)+
  with d2(2) d3(2) show ?thesis by auto
qed

lemma scan_chain_crosses:
  assumes "steady_source src live tip hash_at tree_at block_at" "block_store ad xd account birthday view block_of"
    and "dom (view d) = {birthday..t}" "birthday \<le> t" "\<And>k. k \<le> ct_height tip \<Longrightarrow> view d k \<noteq> Some (hash_at k)"
  shows "runs live (scan_chain fuel ad xd src account) d (Err (BirthdayCrossed birthday)) d"
proof -
  obtain keys nullifiers where reads: "ad_account_birthday ad account d = Ok birthday" "xd_viewing_keys xd d = Ok keys"
      "xd_unspent_nullifiers xd d = Ok nullifiers"
    using assms(2) unfolding block_store_def is_ok_iff by blast
  have scanned: "xd_fully_scanned xd d = Ok (Some (t, the (view d t)))"
    using assms(2-4) unfolding block_store_def by blast
  show ?thesis
    unfolding scan_chain_def
    by (rule runs_bind_Err [OF scan_start_crosses [OF assms]] runs_bind steady_sourceD(2) [OF assms(1)] runs_steps(1-3)
        reads scanned refl)+
qed

lemma scan_to_tip_runs:
  assumes "runs live (scan_chain fuel ad xd src (sq_account_id wallet)) (sq_db wallet) r d" "live w"
  shows "\<exists>w'. live w' \<and> scan_to_tip fuel ad xd src (w, wallet) =
    (case r of Err e \<Rightarrow> ((w', wallet\<lparr>sq_db := d\<rparr>), Err e)
     | Ok tip \<Rightarrow> ((w', wallet\<lparr>sq_db := d, sq_zebra_tip := ct_height tip, sq_zebra_tip_hash := ct_hash tip\<rparr>), Ok ()))"
  using assms by (fastforce simp: runs_def scan_to_tip_def set_canonical_tip_def split: sum.splits)

text \<open>C21. Scanning ends in sync. Against a node whose chain does not change and a database that
  keeps its blocks as documented, and with fuel for the blocks from the birthday to the tip, a scan
  succeeds whenever nothing was scanned yet or some scanned block is canonical: afterwards the
  database holds exactly the canonical blocks from the birthday to the tip, what was scanned of a
  stale branch is gone, the wallet plans against this tip and reports itself synced at it. Otherwise
  the scan refuses to rewind past the birthday and leaves the blocks as they were.\<close>

theorem scan_reaches_canonical_tip:
  assumes "steady_source src live tip hash_at tree_at block_at" "live w"
    and "block_store ad xd (sq_account_id wallet) birthday view block_of"
    and "scans_chain xd block_of birthday (ct_height tip) hash_at tree_at block_at"
    and "0 < birthday" "birthday \<le> ct_height tip" "unat (ct_height tip) + 1 < 2 ^ 32" "unat (ct_height tip) + 1 - unat birthday < fuel"
    and "view (sq_db wallet) = Map.empty \<or> (\<exists>t. birthday \<le> t \<and> dom (view (sq_db wallet)) = {birthday..t})"
    and "agrees_downwards birthday (ct_height tip) (view (sq_db wallet)) hash_at"
  shows "\<exists>w' d. live w' \<and> (if view (sq_db wallet) = Map.empty \<or> (\<exists>k. k \<le> ct_height tip \<and> view (sq_db wallet) k = Some (hash_at k))
    then scan_to_tip fuel ad xd src (w, wallet)
        = ((w', wallet\<lparr>sq_db := d, sq_zebra_tip := ct_height tip, sq_zebra_tip_hash := ct_hash tip\<rparr>), Ok ())
      \<and> view d = (\<lambda>k. if birthday \<le> k \<and> k \<le> ct_height tip then Some (hash_at k) else None)
      \<and> wallet_sync_status xd tip (wallet\<lparr>sq_db := d\<rparr>)
        = Ok \<lparr>ys_zebra_tip_height = ct_height tip, ys_zebra_tip_hash = ct_hash tip,
              ys_wallet_scan_height = ct_height tip, ys_wallet_scan_hash = ct_hash tip, ys_synced = True,
              ys_anchor_height = Some (ct_height tip)\<rparr>
    else scan_to_tip fuel ad xd src (w, wallet) = ((w', wallet\<lparr>sq_db := d\<rparr>), Err (BirthdayCrossed birthday))
      \<and> view d = view (sq_db wallet))"
proof (cases "view (sq_db wallet) = Map.empty \<or> (\<exists>k. k \<le> ct_height tip \<and> view (sq_db wallet) k = Some (hash_at k))")
  case True
  obtain nullifiers where n: "xd_unspent_nullifiers xd (sq_db wallet) = Ok nullifiers"
    using assms(3) unfolding block_store_def is_ok_iff by blast
  obtain d where d: "runs live (scan_chain fuel ad xd src (sq_account_id wallet)) (sq_db wallet) (Ok tip) d"
    "view d = scanned_below birthday hash_at (ct_height tip + 1)"
    using scan_start_meets [OF assms(1,3,6,7,9,10) True] scan_chain_finishes [OF assms(1,3,4,5,7,8) n] by metis
  have v: "view d = (\<lambda>k. if birthday \<le> k \<and> k \<le> ct_height tip then Some (hash_at k) else None)"
    using word_suc(2) [of "ct_height tip" "ct_height tip"] assms(7) by (simp add: d(2) scanned_below_def)
  then have "dom (view d) = {birthday..ct_height tip}" by (auto simp: dom_def)
  then have "xd_fully_scanned xd d = Ok (Some (ct_height tip, ct_hash tip))"
    using assms(3,6) v steady_sourceD(1) [OF assms(1)] unfolding block_store_def by auto
  then have status: "wallet_sync_status xd tip (wallet\<lparr>sq_db := d\<rparr>)
      = Ok \<lparr>ys_zebra_tip_height = ct_height tip, ys_zebra_tip_hash = ct_hash tip,
            ys_wallet_scan_height = ct_height tip, ys_wallet_scan_hash = ct_hash tip, ys_synced = True,
            ys_anchor_height = Some (ct_height tip)\<rparr>"
    by (simp add: wallet_sync_status_def)
  obtain w' where w': "live w'" "scan_to_tip fuel ad xd src (w, wallet)
      = ((w', wallet\<lparr>sq_db := d, sq_zebra_tip := ct_height tip, sq_zebra_tip_hash := ct_hash tip\<rparr>), Ok ())"
    using scan_to_tip_runs [OF d(1) assms(2)] by auto
  show ?thesis
    using True w' v status by (intro exI [of _ w'] exI [of _ d]) (simp only: simp_thms if_True)
next
  case False
  with assms(9) obtain t where t: "birthday \<le> t" "dom (view (sq_db wallet)) = {birthday..t}" by auto
  have "runs live (scan_chain fuel ad xd src (sq_account_id wallet)) (sq_db wallet) (Err (BirthdayCrossed birthday)) (sq_db wallet)"
    using False by (intro scan_chain_crosses [OF assms(1,3) t(2,1)]) blast
  from scan_to_tip_runs [OF this assms(2)] obtain w' where
    "live w'" "scan_to_tip fuel ad xd src (w, wallet) = ((w', wallet\<lparr>sq_db := sq_db wallet\<rparr>), Err (BirthdayCrossed birthday))"
    by auto
  with False show ?thesis
    by (intro exI [of _ w'] exI [of _ "sq_db wallet"]) (simp only: simp_thms if_False)
qed

section \<open>A wallet on a stale branch\<close>

text \<open>A database that keeps the top of its blocks and their hashes; its birthday is block 3.\<close>

type_synonym demo_blocks = "u32 option \<times> (u32 \<Rightarrow> block_hash)"

definition demo_blocks_view :: "demo_blocks \<Rightarrow> u32 \<Rightarrow> block_hash option" where
  "demo_blocks_view d = (case fst d of
     None \<Rightarrow> Map.empty
   | Some t \<Rightarrow> if 3 \<le> t then (\<lambda>k. if 3 \<le> k \<and> k \<le> t then Some (snd d k) else None) else Map.empty)"

definition demo_account_db :: "(demo_blocks, u32 \<times> block_hash, unit) account_db" where
  "demo_account_db =
     \<lparr>ad_for_path = (\<lambda>_ _. Ok (None, \<lambda>_. fill32 0)), ad_init = (\<lambda>d. (d, Ok ())), ad_account_ids = (\<lambda>_. Ok [()]),
      ad_create_account = (\<lambda>_ _ _ d. (d, Ok ())), ad_orchard_viewing_keys = (\<lambda>_. Ok (\<lambda>_. None)),
      ad_params = (\<lambda>_. for_network Regtest), ad_account_birthday = (\<lambda>_ _. Ok 3), ad_default_addresses = (\<lambda>_. Ok (\<lambda>_. None))\<rparr>"

definition demo_scan_db :: "(demo_blocks, u32 \<times> block_hash) scan_db" where
  "demo_scan_db =
     \<lparr>xd_viewing_keys = (\<lambda>_. Ok (0, fill32 0)), xd_unspent_nullifiers = (\<lambda>_. Ok (0, fill32 0)),
      xd_fully_scanned = (\<lambda>d. Ok (case fst d of None \<Rightarrow> None | Some t \<Rightarrow> if 3 \<le> t then Some (t, snd d t) else None)),
      xd_block_hash = (\<lambda>h d. Ok (demo_blocks_view d h)),
      xd_rewind = (\<lambda>cs d. ((Some (cs_height cs), snd d), Ok ())),
      xd_scan = (\<lambda>_ _ block _ _ _. Ok block), xd_update_nullifiers = (\<lambda>n _. n),
      xd_put_blocks = (\<lambda>_ s d. ((Some (fst s), (snd d)(fst s := snd s)), Ok ())),
      xd_update_chain_tip = (\<lambda>_ d. (d, Ok ()))\<rparr>"

definition demo_hash_at :: "u32 \<Rightarrow> block_hash" where
  "demo_hash_at h = fill32 (ucast h)"

definition demo_tree_at :: "u32 \<Rightarrow> (u32 \<times> block_hash) chain_state" where
  "demo_tree_at h = \<lparr>cs_height = h, cs_hash = demo_hash_at h, cs_sapling_size = 0, cs_orchard_size = 0,
     cs_ironwood_size = 0, cs_rest = (0, fill32 0)\<rparr>"

definition demo_chain_source :: "(unit, u32 \<times> block_hash) chain_source" where
  "demo_chain_source =
     \<lparr>cc_canonical_tip = (\<lambda>w. (w, Ok \<lparr>ct_height = 5, ct_hash = demo_hash_at 5\<rparr>)),
      cc_source_hash = (\<lambda>h w. (w, Ok (demo_hash_at h))), cc_source_block = (\<lambda>h w. (w, Ok (h, demo_hash_at h))),
      cc_tree_state = (\<lambda>h w. (w, Ok (demo_tree_at h)))\<rparr>"

text \<open>Block 3 of the wallet is canonical, block 4 is not.\<close>

definition demo_stale_wallet :: "(demo_blocks, u32 \<times> block_hash, unit) sqlite_wallet" where
  "demo_stale_wallet = from_parts (Some 4, demo_hash_at(4 := fill32 99)) () None"

lemma demo_view_top:
  assumes "3 \<le> t" "dom (demo_blocks_view d) = {3..t}"
  shows "fst d = Some t"
proof (cases "fst d")
  case (Some t')
  then have "dom (demo_blocks_view d) = {3..t'}" by (auto simp: demo_blocks_view_def dom_def)
  with assms Some show ?thesis by (auto simp: Icc_eq_Icc)
qed (use assms in \<open>simp add: demo_blocks_view_def\<close>)

lemma demo_rewind:
  assumes "demo_blocks_view d h = Some x"
  shows "demo_blocks_view (Some h, snd d) = demo_blocks_view d |` {..h}"
proof -
  obtain t where t: "fst d = Some t" "3 \<le> h" "h \<le> t"
    using assms by (auto simp: demo_blocks_view_def split: option.splits if_splits)
  then have "3 \<le> t" by (meson order_trans)
  with t show ?thesis by (auto simp: demo_blocks_view_def restrict_map_def fun_eq_iff)
qed

lemma demo_put:
  assumes "k < k + 1"
    and "demo_blocks_view d = Map.empty \<and> k + 1 = 3 \<or> 3 \<le> k \<and> dom (demo_blocks_view d) = {3..k}"
  shows "demo_blocks_view (Some (k + 1), (snd d)(k + 1 := x)) = (demo_blocks_view d)(k + 1 \<mapsto> x)"
proof (cases "k + 1 = 3")
  case True
  with assms have "demo_blocks_view d = Map.empty" by (metis leD)
  with True show ?thesis by (auto simp: demo_blocks_view_def fun_eq_iff)
next
  case False
  with assms(2) have k: "3 \<le> k" "dom (demo_blocks_view d) = {3..k}" by auto
  note suc = word_succ_le [OF assms(1)]
  show ?thesis
    using demo_view_top [OF k] k(1) suc by (auto simp: demo_blocks_view_def fun_eq_iff)
qed

lemma demo_store: "block_store demo_account_db demo_scan_db () 3 demo_blocks_view id"
  unfolding block_store_def
proof (intro conjI allI impI)
  fix d and t :: u32 assume t: "3 \<le> t" "dom (demo_blocks_view d) = {3..t}"
  show "xd_fully_scanned demo_scan_db d = Ok (Some (t, the (demo_blocks_view d t)))"
    using demo_view_top [OF t] t(1) by (simp add: demo_scan_db_def demo_blocks_view_def)
next
  fix d :: demo_blocks and cs :: "(u32 \<times> block_hash) chain_state"
  assume "demo_blocks_view d (cs_height cs) = Some (cs_hash cs)"
  from demo_rewind [OF this] show "\<exists>d'. xd_rewind demo_scan_db cs d = (d', Ok ()) \<and> demo_blocks_view d' = demo_blocks_view d |` {..cs_height cs}"
    by (simp add: demo_scan_db_def)
next
  fix d :: demo_blocks and cs :: "(u32 \<times> block_hash) chain_state" and s and h :: block_hash
  assume "id s = (cs_height cs + 1, h) \<and> cs_height cs < cs_height cs + 1"
    "demo_blocks_view d = Map.empty \<and> cs_height cs + 1 = 3 \<or> 3 \<le> cs_height cs
      \<and> dom (demo_blocks_view d) = {3..cs_height cs} \<and> demo_blocks_view d (cs_height cs) = Some (cs_hash cs)"
  then show "\<exists>d'. xd_put_blocks demo_scan_db cs s d = (d', Ok ())
      \<and> demo_blocks_view d' = (demo_blocks_view d)(cs_height cs + 1 \<mapsto> h)"
    using demo_put [of "cs_height cs" d h] by (auto simp: demo_scan_db_def)
next
  fix d assume "demo_blocks_view d = Map.empty"
  then show "xd_fully_scanned demo_scan_db d = Ok None"
    by (auto simp: demo_scan_db_def demo_blocks_view_def fun_eq_iff split: option.splits if_splits)
qed (simp_all add: demo_account_db_def demo_scan_db_def)

lemma demo_scans: "scans_chain demo_scan_db id 3 5 demo_hash_at demo_tree_at (\<lambda>h. (h, demo_hash_at h))"
  by (simp add: scans_chain_def demo_scan_db_def)

lemma demo_source:
  "steady_source demo_chain_source (\<lambda>_. True) \<lparr>ct_height = 5, ct_hash = demo_hash_at 5\<rparr> demo_hash_at demo_tree_at
    (\<lambda>h. (h, demo_hash_at h))"
  by (simp add: steady_source_def gives_def demo_chain_source_def demo_tree_at_def)

lemma demo_stored:
  "demo_blocks_view (sq_db demo_stale_wallet) = (\<lambda>k. if 3 \<le> k \<and> k \<le> 4 then Some ((demo_hash_at(4 := fill32 99)) k) else None)"
  "agrees_downwards 3 5 (demo_blocks_view (sq_db demo_stale_wallet)) demo_hash_at"
  "\<exists>t. 3 \<le> t \<and> dom (demo_blocks_view (sq_db demo_stale_wallet)) = {3..t}"
  "\<exists>k. k \<le> (5::u32) \<and> demo_blocks_view (sq_db demo_stale_wallet) k = Some (demo_hash_at k)"
proof -
  show v: "demo_blocks_view (sq_db demo_stale_wallet) = (\<lambda>k. if 3 \<le> k \<and> k \<le> 4 then Some ((demo_hash_at(4 := fill32 99)) k) else None)"
    by (auto simp: demo_blocks_view_def demo_stale_wallet_def from_parts_def)
  have "h = 3 \<or> h = 4" if "3 \<le> h" "h \<le> 4" for h :: u32
    using that by (auto simp: word_le_nat_alt word_unat_eq_iff)
  then show "agrees_downwards 3 5 (demo_blocks_view (sq_db demo_stale_wallet)) demo_hash_at"
    by (fastforce simp: agrees_downwards_def v demo_hash_at_def split: if_splits)
  have "dom (demo_blocks_view (sq_db demo_stale_wallet)) = {3..4}" by (auto simp: v dom_def)
  then show "\<exists>t. 3 \<le> t \<and> dom (demo_blocks_view (sq_db demo_stale_wallet)) = {3..t}"
    by (intro exI [of _ 4]) simp
  show "\<exists>k. k \<le> (5::u32) \<and> demo_blocks_view (sq_db demo_stale_wallet) k = Some (demo_hash_at k)"
    by (rule exI [of _ 3]) (simp add: v)
qed

lemma scan_reaches_canonical_tip_witness:
  "\<exists>d. scan_to_tip 9 demo_account_db demo_scan_db demo_chain_source ((), demo_stale_wallet)
      = (((), demo_stale_wallet\<lparr>sq_db := d, sq_zebra_tip := 5, sq_zebra_tip_hash := fill32 5\<rparr>), Ok ())
    \<and> demo_blocks_view d 4 = Some (fill32 4) \<and> demo_blocks_view (sq_db demo_stale_wallet) 4 = Some (fill32 99)"
proof -
  have store: "block_store demo_account_db demo_scan_db (sq_account_id demo_stale_wallet) 3 demo_blocks_view id"
    by (rule demo_store [folded unit_eq [of "sq_account_id demo_stale_wallet"]])
  obtain d where "scan_to_tip 9 demo_account_db demo_scan_db demo_chain_source ((), demo_stale_wallet)
      = (((), demo_stale_wallet\<lparr>sq_db := d, sq_zebra_tip := 5, sq_zebra_tip_hash := demo_hash_at 5\<rparr>), Ok ())"
    "demo_blocks_view d = (\<lambda>k. if 3 \<le> k \<and> k \<le> 5 then Some (demo_hash_at k) else None)"
    using scan_reaches_canonical_tip [OF demo_source _ store, of 9 "()"] demo_scans demo_stored(2-4) by auto
  then show ?thesis by (intro exI [of _ d]) (simp add: demo_stored(1) demo_hash_at_def)
qed

end
