(* ===== verification/Wallet_Select_Props.thy ===== *)
theory Wallet_Select_Props
  imports Wallet_Scan_Props
begin

text \<open>What the wallet hands to a shielded plan: only when it is unlocked and scanned to its tip, the
  notes the database selected with their witnesses one block below the tip, locked for the plan.\<close>

text \<open>A spend is a selected note under the wallet's keys, with a witness at the anchor.\<close>

definition spends_note ::
    "('d, 'x, 'a) note_db \<Rightarrow> 'x \<times> 'x \<Rightarrow> u32 \<Rightarrow> 'x shielded_spend \<Rightarrow> value_pool \<times> 'x received_note \<Rightarrow> bool" where
  "spends_note nd keys anchor s pn \<longleftrightarrow>
     ssp_pool s = fst pn \<and> ssp_note s = rn_note (snd pn) \<and> ssp_value s = rn_value (snd pn)
     \<and> ssp_fvk s = fst keys \<and> ssp_ask s = snd keys
     \<and> (\<exists>d d'. nd_witness nd (fst pn) (rn_position (snd pn)) anchor d = (d', Ok (Some (ssp_merkle_path s))))"

definition note_ref :: "value_pool \<times> 'x received_note \<Rightarrow> output_ref" where
  "note_ref pn = \<lparr>or_txid = rn_txid (snd pn), or_pool = fst pn, or_index = rn_output_index (snd pn)\<rparr>"

definition pooled :: "'x received_note list \<times> 'x received_note list \<Rightarrow> (value_pool \<times> 'x received_note) list" where
  "pooled rns = map (Pair Orchard) (fst rns) @ map (Pair Ironwood) (snd rns)"

lemma witness_notes_Ok:
  "witness_notes nd keys anchor rns d = (d', Ok (spends, amount, refs)) \<Longrightarrow>
    list_all2 (spends_note nd keys anchor) spends rns \<and> amount = sum_list (map ssp_value spends) \<and> refs = map note_ref rns"
proof (induction rns arbitrary: d spends amount refs)
  case (Cons pn rns)
  obtain pool rn where pn: "pn = (pool, rn)" by (cases pn)
  obtain d1 path where path: "nd_witness nd pool (rn_position rn) anchor d = (d1, Ok (Some path))"
    using Cons.prems by (auto simp: pn split: prod.splits sum.splits option.splits)
  obtain spends' amount' refs' where rest: "witness_notes nd keys anchor rns d1 = (d', Ok (spends', amount', refs'))"
    and eqs: "amount = rn_value rn + amount'" "refs = \<lparr>or_txid = rn_txid rn, or_pool = pool, or_index = rn_output_index rn\<rparr> # refs'"
      "spends = \<lparr>ssp_fvk = fst keys, ssp_ask = snd keys, ssp_note = rn_note rn, ssp_merkle_path = path,
         ssp_value = rn_value rn, ssp_pool = pool\<rparr> # spends'"
    using Cons.prems path by (auto simp: pn bind_step_def return_step_def split: prod.splits sum.splits)
  from Cons.IH [OF rest] path show ?case by (auto simp: eqs pn spends_note_def note_ref_def)
qed (simp add: return_step_def)

lemma reserve_notes_Ok:
  assumes "reserve_notes nd ak sha params keys account tip required plan_id d = (d', Ok sel)"
  shows "\<exists>rns d1. nd_select_spendable nd account required (tip + 1) 2 d = Ok rns \<and> pooled rns \<noteq> []
    \<and> list_all2 (spends_note nd keys (tip - 1)) (sel_spends sel) (pooled rns)
    \<and> sel_selected_value sel = sum_list (map ssp_value (sel_spends sel)) \<and> sel_anchor_height sel = tip - 1
    \<and> sel_output_refs sel = map note_ref (pooled rns) \<and> sel_lock_owner sel = lock_owner_for sha plan_id
    \<and> nd_lock_outputs nd (sel_output_refs sel) (lock_owner_for sha plan_id) (tip + 128) d1 = (d', Ok ())"
proof -
  obtain orchard ironwood where rns: "nd_select_spendable nd account required (tip + 1) 2 d = Ok (orchard, ironwood)"
      "map (Pair Orchard) orchard @ map (Pair Ironwood) ironwood \<noteq> []"
    using assms by (auto simp: reserve_notes_def Let_def lift_step_def split: sum.splits prod.splits if_splits)
  let ?rns = "map (Pair Orchard) orchard @ map (Pair Ironwood) ironwood"
  have ok: "ak_zatoshis_ok ak required"
    using assms by (auto simp: reserve_notes_def Let_def lift_step_def split: if_splits)
  obtain d1 spends amount refs where w: "witness_notes nd keys (tip - 1) ?rns d = (d1, Ok (spends, amount, refs))"
    using assms rns ok by (auto simp: reserve_notes_def Let_def bind_step_def split: prod.splits sum.splits)
  obtain d2 oa where oa: "anchor_for nd Orchard (tip - 1) d1 = (d2, Ok oa)"
    using assms rns ok w by (auto simp: reserve_notes_def Let_def bind_step_def split: prod.splits sum.splits)
  obtain d3 ia where ia: "anchor_for nd Ironwood (tip - 1) d2 = (d3, Ok ia)"
    using assms rns ok w oa by (auto simp: reserve_notes_def Let_def bind_step_def split: prod.splits sum.splits)
  obtain lock: "nd_lock_outputs nd refs (lock_owner_for sha plan_id) (tip + 128) d3 = (d', Ok ())"
    and sel: "sel_spends sel = spends" "sel_selected_value sel = amount" "sel_anchor_height sel = tip - 1"
      "sel_output_refs sel = refs" "sel_lock_owner sel = lock_owner_for sha plan_id"
    using assms rns ok w oa ia
    by (auto simp: reserve_notes_def Let_def bind_step_def return_step_def split: prod.splits sum.splits)
  show ?thesis
    using rns lock witness_notes_Ok [OF w] by (auto simp: sel pooled_def)
qed

text \<open>C22. The wallet only hands out notes it may spend: an accepted selection means the wallet is
  unlocked and fully scanned at the height and hash of its tip, which is at least 2. The spends are
  exactly the notes the database selected with two confirmations, each under the wallet's keys and
  with a witness at the anchor one block below the tip; their sum is the selected value, if it fits
  64 bits; and before the selection is returned all of them are locked for this plan until 128
  blocks past the tip. Nothing but the database changes.\<close>

theorem select_spends_reserves:
  assumes "select_spends ad xd nd ak sha required plan_id wallet = (wallet', Ok sel)"
  shows "\<exists>keys rns d. sq_spending wallet = Some keys \<and> 2 \<le> sq_zebra_tip wallet
    \<and> xd_fully_scanned xd (sq_db wallet) = Ok (Some (sq_zebra_tip wallet, sq_zebra_tip_hash wallet))
    \<and> nd_select_spendable nd (sq_account_id wallet) required (sq_zebra_tip wallet + 1) 2 (sq_db wallet) = Ok rns
    \<and> pooled rns \<noteq> [] \<and> list_all2 (spends_note nd keys (sq_zebra_tip wallet - 1)) (sel_spends sel) (pooled rns)
    \<and> (total (map ssp_value (sel_spends sel)) < 2 ^ 64
        \<longrightarrow> unat (sel_selected_value sel) = total (map ssp_value (sel_spends sel)))
    \<and> sel_anchor_height sel = sq_zebra_tip wallet - 1
    \<and> sel_output_refs sel = map note_ref (pooled rns) \<and> sel_lock_owner sel = lock_owner_for sha plan_id
    \<and> nd_lock_outputs nd (sel_output_refs sel) (lock_owner_for sha plan_id) (sq_zebra_tip wallet + 128) d = (sq_db wallet', Ok ())
    \<and> wallet' = wallet\<lparr>sq_db := sq_db wallet'\<rparr>"
proof -
  let ?tip = "sq_zebra_tip wallet"
  obtain keys where keys: "sq_spending wallet = Some keys" "2 \<le> ?tip"
    and status: "\<exists>status. wallet_sync_status xd \<lparr>ct_height = ?tip, ct_hash = sq_zebra_tip_hash wallet\<rparr> wallet = Ok status
      \<and> ys_synced status"
    and reserve: "reserve_notes nd ak sha (ad_params ad (sq_db wallet)) keys (sq_account_id wallet) ?tip required plan_id
      (sq_db wallet) = (sq_db wallet', Ok sel)" and wallet': "wallet' = wallet\<lparr>sq_db := sq_db wallet'\<rparr>"
    using assms
    by (auto simp: select_spends_def Let_def not_less and_then_Ok_iff split: sum.splits prod.splits if_splits option.splits)
  have "xd_fully_scanned xd (sq_db wallet) = Ok (Some (?tip, sq_zebra_tip_hash wallet))"
    using status keys(2) by (auto simp: wallet_sync_status_def Let_def split: option.splits)
  moreover obtain rns d where "nd_select_spendable nd (sq_account_id wallet) required (?tip + 1) 2 (sq_db wallet) = Ok rns"
      "pooled rns \<noteq> []" "list_all2 (spends_note nd keys (?tip - 1)) (sel_spends sel) (pooled rns)"
      "sel_selected_value sel = sum_list (map ssp_value (sel_spends sel))" "sel_anchor_height sel = ?tip - 1"
      "sel_output_refs sel = map note_ref (pooled rns)" "sel_lock_owner sel = lock_owner_for sha plan_id"
      "nd_lock_outputs nd (sel_output_refs sel) (lock_owner_for sha plan_id) (?tip + 128) d = (sq_db wallet', Ok ())"
    using reserve_notes_Ok [OF reserve] by blast
  ultimately show ?thesis
    using keys wallet' unat_sum_list_exact [of "map ssp_value (sel_spends sel)"] by auto
qed

section \<open>A synced wallet with one note\<close>

definition demo_note :: "(u32 \<times> block_hash) received_note" where
  "demo_note = \<lparr>rn_note = (0, fill32 1), rn_value = 70000, rn_position = 9, rn_txid = fill32 2, rn_output_index = 0,
     rn_mined_height = Some 3\<rparr>"

definition demo_note_db :: "(demo_blocks, u32 \<times> block_hash, unit) note_db" where
  "demo_note_db =
     \<lparr>nd_select_spendable = (\<lambda>_ _ _ _ _. Ok ([demo_note], [])), nd_select_unspent = (\<lambda>_ _ _. Ok ([demo_note], [])),
      nd_witness = (\<lambda>_ position _ d. (d, Ok (Some (ucast position, fill32 3)))), nd_root = (\<lambda>_ _ d. (d, Ok (Some (fill32 4)))),
      nd_lock_outputs = (\<lambda>_ _ _ d. (d, Ok ())), nd_locked_outputs = (\<lambda>_ _. Ok []),
      nd_unlock_output = (\<lambda>_ _ d. (d, Ok ())), nd_summary = (\<lambda>_. Ok None)\<rparr>"

definition demo_account_keys :: "(u32 \<times> block_hash) account_keys" where
  "demo_account_keys =
     \<lparr>ak_derive = (\<lambda>_ _. Ok (0, fill32 5)), ak_fvk = id, ak_ask = id, ak_fvk_bytes = (\<lambda>k. bytes_of (snd k)),
      ak_internal_address = (\<lambda>k. bytes_of (snd k)), ak_internal_ovk = id, ak_zatoshis_ok = (\<lambda>v. v \<le> 2100000000000000),
      ak_branch_has_ironwood = (\<lambda>_ _. True)\<rparr>"

definition demo_synced_wallet :: "(demo_blocks, u32 \<times> block_hash, unit) sqlite_wallet" where
  "demo_synced_wallet =
     set_canonical_tip \<lparr>ct_height = 5, ct_hash = demo_hash_at 5\<rparr>
       (from_parts (Some 5, demo_hash_at) () (Some ((0, fill32 5), (0, fill32 5))))"

lemma demo_selection:
  "\<exists>w sel. select_spends demo_account_db demo_scan_db demo_note_db demo_account_keys (\<lambda>_. fill32 6) 50000 ''p1'' demo_synced_wallet
    = (w, Ok sel) \<and> sel_selected_value sel = 70000"
  by (simp add: select_spends_def demo_synced_wallet_def from_parts_def set_canonical_tip_def wallet_sync_status_def
      demo_scan_db_def demo_note_db_def demo_account_keys_def reserve_notes_def Let_def bind_step_def return_step_def
      anchor_for_def demo_note_def demo_account_db_def)

lemma select_spends_reserves_witness:
  "\<exists>w sel. select_spends demo_account_db demo_scan_db demo_note_db demo_account_keys (\<lambda>_. fill32 6) 50000 ''p1'' demo_synced_wallet
    = (w, Ok sel) \<and> sel_anchor_height sel = 4 \<and> sel_output_refs sel = [note_ref (Orchard, demo_note)]"
proof -
  obtain w sel where sel: "select_spends demo_account_db demo_scan_db demo_note_db demo_account_keys (\<lambda>_. fill32 6) 50000 ''p1''
      demo_synced_wallet = (w, Ok sel)"
    using demo_selection by blast
  from select_spends_reserves [OF sel] show ?thesis
    using sel by (auto simp: demo_synced_wallet_def from_parts_def set_canonical_tip_def demo_note_db_def pooled_def)
qed

section \<open>Over a shielded plan\<close>

text \<open>The wallet reports the sum of the notes it selects: what a shielded plan relies on.\<close>

lemma sqlite_wallet_reports_sum:
  assumes "sw_select_spends (sqlite_shielded_wallet ad xd nd ak sha message) required plan_id wallet = (wallet', Ok sel)"
    and "\<And>account required th d rns. nd_select_spendable nd account required th 2 d = Ok rns \<Longrightarrow>
      total (map (rn_value \<circ> snd) (pooled rns)) < 2 ^ 63"
  shows "total (map ssp_value (sel_spends sel)) = unat (sel_selected_value sel) \<and> unat (sel_selected_value sel) < 2 ^ 63"
proof -
  have "select_spends ad xd nd ak sha required plan_id wallet = (wallet', Ok sel)"
    using assms(1) by (auto simp: sqlite_shielded_wallet_def split: prod.splits)
  then obtain keys rns where rns: "nd_select_spendable nd (sq_account_id wallet) required (sq_zebra_tip wallet + 1) 2 (sq_db wallet) = Ok rns"
    and spends: "list_all2 (spends_note nd keys (sq_zebra_tip wallet - 1)) (sel_spends sel) (pooled rns)"
    and amount: "sel_selected_value sel = sum_list (map ssp_value (sel_spends sel))"
    by (auto simp: select_spends_def Let_def split: sum.splits prod.splits dest!: reserve_notes_Ok)
  from spends have "map ssp_value (sel_spends sel) = map (rn_value \<circ> snd) (pooled rns)"
    by (induction rule: list_all2_induct) (simp_all add: spends_note_def)
  with assms(2) [OF rns] amount show ?thesis
    using unat_sum_list_exact [of "map ssp_value (sel_spends sel)"] by simp
qed

end
