(* ===== verification/Wallet_Source.thy ===== *)
theory Wallet_Source
  imports Wallet_Follow
begin

text \<open>
  The wallet's chain source over the JSON-RPC of its own node
  (\<open>zalkanes-wallet/src/chain_source.rs\<close>): the bounded retry of transport failures, hashes in display
  order, and the block that is only accepted under the hash the node gave for its height. The HTTP
  client, serde, the parsers of blocks and tree states, and the crate \<open>hex\<close> are parameters.
\<close>

section \<open>Responses\<close>

text \<open>A request that was not sent or timed out, a body that does not deserialize, or a reply with its
  result and its error message.\<close>

datatype 'a wallet_reply =
    NotSent string
  | NotParsed string
  | Answered "'a option" "string option"

record node_info =
  ni_blocks :: u32
  ni_best_block_hash :: string

record tree_response =
  tr_height :: u64
  tr_hash :: string
  tr_sapling :: "string option"
  tr_orchard :: "string option"
  tr_ironwood :: "string option"

record 'e wallet_node =
  wn_info :: "'e \<Rightarrow> 'e \<times> node_info wallet_reply"
  wn_block_hash :: "u32 \<Rightarrow> 'e \<Rightarrow> 'e \<times> string wallet_reply"
  wn_block :: "string \<Rightarrow> 'e \<Rightarrow> 'e \<times> string wallet_reply"
  wn_tree :: "string \<Rightarrow> 'e \<Rightarrow> 'e \<times> tree_response wallet_reply"
  wn_sleep :: "nat \<Rightarrow> 'e \<Rightarrow> 'e"

record tree_state =
  te_network :: string
  te_height :: u64
  te_hash :: string
  te_time :: u32
  te_sapling :: string
  te_orchard :: string
  te_ironwood :: string

record 'x block_lib =
  bx_read :: "consensus_params \<Rightarrow> bytes \<Rightarrow> (string, 'x) result"
  bx_hash :: "'x \<Rightarrow> block_hash"
  bx_chain_state :: "tree_state \<Rightarrow> (string, 'x chain_state) result"
  bx_hex_error :: "string \<Rightarrow> string"

section \<open>Requests\<close>

text \<open>The loop with \<open>n\<close> attempts left of eight, after the failure \<open>cause\<close>; it sleeps before each
  further attempt, twice as long each time. Only a request that was not sent is repeated.\<close>

fun rpc_attempts ::
    "'e wallet_node \<Rightarrow> string \<Rightarrow> string \<Rightarrow> ('e \<Rightarrow> 'e \<times> 'a wallet_reply) \<Rightarrow> nat \<Rightarrow> string \<Rightarrow> ('e, string, 'a) step" where
  "rpc_attempts z method params send 0 cause = (\<lambda>e.
     (e, Err (''rpc '' @ method @ (if length params \<le> 64 then '' '' @ params else '''') @ '': '' @ cause @ '' (after 8 attempts)'')))"
| "rpc_attempts z method params send (Suc n) cause = (\<lambda>e.
     case send e of
       (e, Answered answer err) \<Rightarrow>
         (e, ok_or (''rpc '' @ method @ '' error: '' @ (case err of None \<Rightarrow> '''' | Some m \<Rightarrow> m)) answer)
     | (e, NotParsed c) \<Rightarrow> (e, Err (''rpc '' @ method @ '' deserialize: '' @ c))
     | (e, NotSent c) \<Rightarrow>
         rpc_attempts z method params send n c (if n = 0 then e else wn_sleep z (100 * 2 ^ min (7 - n) 7) e))"

definition wallet_rpc :: "'e wallet_node \<Rightarrow> string \<Rightarrow> string \<Rightarrow> ('e \<Rightarrow> 'e \<times> 'a wallet_reply) \<Rightarrow> ('e, string, 'a) step" where
  "wallet_rpc z method params send = rpc_attempts z method params send 8 ''''"

text \<open>\<open>trim_start_matches("0x")\<close>: repeatedly.\<close>

function trim_0x :: "string \<Rightarrow> string" where
  "trim_0x s = (if take 2 s = ''0x'' then trim_0x (drop 2 s) else s)"
  by pat_completeness auto
termination by (relation "measure length") (auto dest: arg_cong [of _ _ length])

declare trim_0x.simps [simp del]

definition display_hex_to_internal :: "hex_lib \<Rightarrow> 'x block_lib \<Rightarrow> string \<Rightarrow> (string, block_hash) result" where
  "display_hex_to_internal hx bx s =
     (case hex_decode hx (trim_0x s) of
        None \<Rightarrow> Err (''invalid hex hash: '' @ bx_hex_error bx (trim_0x s))
      | Some bs \<Rightarrow>
          if length bs \<noteq> 32 then Err (''invalid hash length '' @ decimal (length bs))
          else Ok (mk32 (rev bs)))"

section \<open>The source\<close>

definition zebra_tip :: "hex_lib \<Rightarrow> 'x block_lib \<Rightarrow> 'e wallet_node \<Rightarrow> ('e, string, canonical_tip) step" where
  "zebra_tip hx bx z =
     bind_step (wallet_rpc z ''getblockchaininfo'' ''[]'' (wn_info z)) (\<lambda>info.
     bind_step (lift_step (display_hex_to_internal hx bx (ni_best_block_hash info))) (\<lambda>hash.
       return_step \<lparr>ct_height = ni_blocks info, ct_hash = hash\<rparr>))"

definition zebra_block_hash :: "hex_lib \<Rightarrow> 'x block_lib \<Rightarrow> 'e wallet_node \<Rightarrow> u32 \<Rightarrow> ('e, string, block_hash) step" where
  "zebra_block_hash hx bx z height =
     bind_step (wallet_rpc z ''getblockhash'' (''['' @ decimal (unat height) @ '']'') (wn_block_hash z height)) (\<lambda>h.
       lift_step (display_hex_to_internal hx bx h))"

definition zebra_block ::
    "hex_lib \<Rightarrow> 'x block_lib \<Rightarrow> 'e wallet_node \<Rightarrow> consensus_params \<Rightarrow> u32 \<Rightarrow> ('e, string, 'x) step" where
  "zebra_block hx bx z network height =
     (let h = decimal (unat height) in
      bind_step (zebra_block_hash hx bx z height) (\<lambda>expected.
      bind_step (wallet_rpc z ''getblock'' (''['' @ quoted h @ '',0]'') (wn_block z h)) (\<lambda>raw.
      bind_step (lift_step (ok_or (''invalid block hex: '' @ bx_hex_error bx (trim_0x raw)) (hex_decode hx (trim_0x raw)))) (\<lambda>bytes.
      bind_step (lift_step (map_err (\<lambda>e. ''parse block '' @ h @ '': '' @ e) (bx_read bx network bytes))) (\<lambda>block.
        if bx_hash bx block \<noteq> expected
        then lift_step (Err (''block hash mismatch at '' @ h @ '': expected '' @ hex_encode hx (bytes_of expected)
          @ '', got '' @ hex_encode hx (bytes_of (bx_hash bx block))))
        else return_step block)))))"

text \<open>Zebra reports regtest as \<open>test\<close>.\<close>

definition tree_network_name :: "consensus_params \<Rightarrow> string" where
  "tree_network_name network = (case network of Main_Params \<Rightarrow> ''main'' | Test_Params \<Rightarrow> ''test'' | Regtest_Params \<Rightarrow> ''test'')"

definition tree_state_of :: "consensus_params \<Rightarrow> tree_response \<Rightarrow> tree_state" where
  "tree_state_of network ts =
     (let final = (\<lambda>t. case t of None \<Rightarrow> '''' | Some s \<Rightarrow> s) in
      \<lparr>te_network = tree_network_name network, te_height = tr_height ts, te_hash = trim_0x (tr_hash ts), te_time = 0,
       te_sapling = final (tr_sapling ts), te_orchard = final (tr_orchard ts), te_ironwood = final (tr_ironwood ts)\<rparr>)"

definition zebra_tree_state :: "'x block_lib \<Rightarrow> 'e wallet_node \<Rightarrow> consensus_params \<Rightarrow> u32 \<Rightarrow> ('e, string, 'x chain_state) step" where
  "zebra_tree_state bx z network height =
     (let h = decimal (unat height) in
      bind_step (wallet_rpc z ''z_gettreestate'' (''['' @ quoted h @ '']'') (wn_tree z h)) (\<lambda>ts.
        lift_step (map_err (\<lambda>e. ''treestate -> chain state: '' @ e) (bx_chain_state bx (tree_state_of network ts)))))"

definition zebra_chain_source ::
    "hex_lib \<Rightarrow> 'x block_lib \<Rightarrow> 'e wallet_node \<Rightarrow> consensus_params \<Rightarrow> ('e, 'x) chain_source" where
  "zebra_chain_source hx bx z network =
     \<lparr>cc_canonical_tip = zebra_tip hx bx z, cc_source_hash = zebra_block_hash hx bx z,
      cc_source_block = zebra_block hx bx z network, cc_tree_state = zebra_tree_state bx z network\<rparr>"

section \<open>A node that drops connections\<close>

text \<open>In a state of \<open>dropping n\<close> at most \<open>n\<close> more requests in a row are lost; after an answer, at
  most seven are.\<close>

definition answers ::
    "'e wallet_node \<Rightarrow> (nat \<Rightarrow> 'e \<Rightarrow> bool) \<Rightarrow> ('e \<Rightarrow> 'e \<times> 'a wallet_reply) \<Rightarrow> 'a \<Rightarrow> bool" where
  "answers z dropping send v \<longleftrightarrow> (\<forall>n e. dropping n e \<longrightarrow>
     (\<exists>e' c. 0 < n \<and> send e = (e', NotSent c) \<and> dropping (n - 1) e' \<and> (\<forall>t. dropping (n - 1) (wn_sleep z t e')))
     \<or> (\<exists>e' err. send e = (e', Answered (Some v) err) \<and> dropping 7 e'))"

lemma rpc_attempts_answer:
  assumes "answers z dropping send v" "dropping n e" "n < m"
  shows "\<exists>e'. dropping 7 e' \<and> rpc_attempts z method params send m cause e = (e', Ok v)"
  using assms(2,3)
proof (induction m arbitrary: n cause e)
  case (Suc m)
  show ?case
  proof (cases "\<exists>e' err. send e = (e', Answered (Some v) err) \<and> dropping 7 e'")
    case False
    with assms(1) Suc.prems(1) obtain e' c where e': "0 < n" "send e = (e', NotSent c)" "dropping (n - 1) e'"
        "\<And>t. dropping (n - 1) (wn_sleep z t e')"
      unfolding answers_def by blast
    then have "dropping (n - 1) (if m = 0 then e' else wn_sleep z (100 * 2 ^ min (7 - m) 7) e')" by simp
    moreover have "n - 1 < m" using e'(1) Suc.prems(2) by simp
    ultimately show ?thesis using Suc.IH e'(2) by simp
  qed auto
qed simp

lemma wallet_rpc_gives: "answers z dropping send v \<Longrightarrow> gives (dropping 7) (wallet_rpc z method params send) v"
  using rpc_attempts_answer [of z dropping send v 7 _ 8] by (simp add: gives_def wallet_rpc_def)

text \<open>A request that is lost eight times is given up, with the last cause.\<close>

lemma rpc_attempts_give_up:
  assumes "\<And>e. \<exists>e'. send e = (e', NotSent c)"
  shows "\<exists>e'. rpc_attempts z method params send m c e = (e', Err (''rpc '' @ method
    @ (if length params \<le> 64 then '' '' @ params else '''') @ '': '' @ c @ '' (after 8 attempts)''))"
proof (induction m arbitrary: e)
  case (Suc m)
  from assms obtain e' where "send e = (e', NotSent c)" by blast
  with Suc show ?case by simp
qed simp

text \<open>A block is only accepted under the hash that the node gave for its height.\<close>

lemma zebra_block_checked:
  assumes "zebra_block hx bx z network h e = (e', Ok block)"
  shows "\<exists>e1. zebra_block_hash hx bx z h e = (e1, Ok (bx_hash bx block))"
  using assms
  by (cases "zebra_block_hash hx bx z h e" rule: prod.exhaust; cases "snd (zebra_block_hash hx bx z h e)")
    (auto simp: zebra_block_def Let_def bind_step_def lift_step_def split: prod.splits sum.splits if_splits)

section \<open>The source is steady\<close>

named_theorems step_gives

lemma gives_bind [step_gives]: "gives live f v \<Longrightarrow> gives live (g v) u \<Longrightarrow> gives live (bind_step f g) u"
  by (fastforce simp: gives_def bind_step_def)

lemma gives_pure [step_gives]: "r = Ok v \<Longrightarrow> gives live (lift_step r) v" "gives live (return_step v) v"
  by (simp_all add: gives_def lift_step_def)

lemma display_hash: "hex_decode hx (trim_0x s) = Some (rev (bytes_of h)) \<Longrightarrow> display_hex_to_internal hx bx s = Ok h"
  by (simp add: display_hex_to_internal_def)

text \<open>A node that serves a chain up to its tip, in the documented format of the RPC methods.\<close>

definition serves_chain ::
    "hex_lib \<Rightarrow> 'x block_lib \<Rightarrow> 'e wallet_node \<Rightarrow> consensus_params \<Rightarrow> (nat \<Rightarrow> 'e \<Rightarrow> bool) \<Rightarrow> canonical_tip
      \<Rightarrow> (u32 \<Rightarrow> block_hash) \<Rightarrow> (u32 \<Rightarrow> 'x chain_state) \<Rightarrow> (u32 \<Rightarrow> 'x) \<Rightarrow> bool" where
  "serves_chain hx bx z network dropping tip hash_at tree_at block_at \<longleftrightarrow>
     ct_hash tip = hash_at (ct_height tip)
     \<and> (\<exists>s. answers z dropping (wn_info z) \<lparr>ni_blocks = ct_height tip, ni_best_block_hash = s\<rparr>
          \<and> hex_decode hx (trim_0x s) = Some (rev (bytes_of (ct_hash tip))))
     \<and> (\<forall>h. h \<le> ct_height tip \<longrightarrow>
          (\<exists>s. answers z dropping (wn_block_hash z h) s \<and> hex_decode hx (trim_0x s) = Some (rev (bytes_of (hash_at h))))
        \<and> (\<exists>s bs. answers z dropping (wn_block z (decimal (unat h))) s \<and> hex_decode hx (trim_0x s) = Some bs
             \<and> bx_read bx network bs = Ok (block_at h) \<and> bx_hash bx (block_at h) = hash_at h)
        \<and> (\<exists>ts. answers z dropping (wn_tree z (decimal (unat h))) ts
             \<and> bx_chain_state bx (tree_state_of network ts) = Ok (tree_at h)
             \<and> cs_height (tree_at h) = h \<and> cs_hash (tree_at h) = hash_at h))"

lemma zebra_block_hash_gives:
  assumes "answers z dropping (wn_block_hash z h) s" "hex_decode hx (trim_0x s) = Some (rev (bytes_of x))"
  shows "gives (dropping 7) (zebra_block_hash hx bx z h) x"
  unfolding zebra_block_hash_def by (rule step_gives wallet_rpc_gives assms(1) display_hash [OF assms(2)])+

text \<open>C23. Lost connections do not stop a scan: over a node that serves one chain and loses at most
  seven requests in a row, the chain source answers every call about that chain without an error,
  each hash reversed from display order and each block under the hash of its height. This is
  what the scan of the wallet asks of a source.\<close>

theorem zebra_source_steady:
  assumes "serves_chain hx bx z network dropping tip hash_at tree_at block_at"
  shows "steady_source (zebra_chain_source hx bx z network) (dropping 7) tip hash_at tree_at block_at"
proof -
  have tip: "gives (dropping 7) (zebra_tip hx bx z) tip"
  proof -
    obtain s where s: "answers z dropping (wn_info z) \<lparr>ni_blocks = ct_height tip, ni_best_block_hash = s\<rparr>"
        "hex_decode hx (trim_0x s) = Some (rev (bytes_of (ct_hash tip)))"
      using assms unfolding serves_chain_def by blast
    have "gives (dropping 7) (zebra_tip hx bx z) \<lparr>ct_height = ct_height tip, ct_hash = ct_hash tip\<rparr>"
      unfolding zebra_tip_def
      by (rule gives_bind [OF wallet_rpc_gives [OF s(1)]]) (simp add: display_hash [OF s(2)] gives_def lift_step_def bind_step_def)
    then show ?thesis by (cases tip) simp
  qed
  have hash: "gives (dropping 7) (zebra_block_hash hx bx z h) (hash_at h)" if "h \<le> ct_height tip" for h
    using assms that zebra_block_hash_gives unfolding serves_chain_def by blast
  have block: "gives (dropping 7) (zebra_block hx bx z network h) (block_at h)" if h: "h \<le> ct_height tip" for h
  proof -
    obtain s bs where s: "answers z dropping (wn_block z (decimal (unat h))) s" "hex_decode hx (trim_0x s) = Some bs"
        "bx_read bx network bs = Ok (block_at h)" "bx_hash bx (block_at h) = hash_at h"
      using assms h unfolding serves_chain_def by blast
    show ?thesis
      unfolding zebra_block_def Let_def
      by (rule gives_bind [OF hash [OF h]], rule gives_bind [OF wallet_rpc_gives [OF s(1)]])
        (simp add: s gives_def lift_step_def bind_step_def)
  qed
  have tree: "gives (dropping 7) (zebra_tree_state bx z network h) (tree_at h)
      \<and> cs_height (tree_at h) = h \<and> cs_hash (tree_at h) = hash_at h" if h: "h \<le> ct_height tip" for h
  proof -
    obtain ts where ts: "answers z dropping (wn_tree z (decimal (unat h))) ts"
        "bx_chain_state bx (tree_state_of network ts) = Ok (tree_at h)"
        "cs_height (tree_at h) = h" "cs_hash (tree_at h) = hash_at h"
      using assms h unfolding serves_chain_def by blast
    have "gives (dropping 7) (zebra_tree_state bx z network h) (tree_at h)"
      unfolding zebra_tree_state_def Let_def
      by (rule gives_bind [OF wallet_rpc_gives [OF ts(1)]]) (simp add: ts(2) gives_def lift_step_def)
    with ts(3,4) show ?thesis by blast
  qed
  have "ct_hash tip = hash_at (ct_height tip)" using assms unfolding serves_chain_def by blast
  with tip hash block tree show ?thesis by (simp add: steady_source_def zebra_chain_source_def)
qed

section \<open>A node that loses requests\<close>

text \<open>Its state counts the requests it loses before it answers; after an answer it loses three.\<close>

definition demo_answer :: "'a \<Rightarrow> nat \<Rightarrow> nat \<times> 'a wallet_reply" where
  "demo_answer v e = (case e of 0 \<Rightarrow> (3, Answered (Some v) None) | Suc k \<Rightarrow> (k, NotSent ''connection reset''))"

definition demo_lossy_node :: "nat wallet_node" where
  "demo_lossy_node =
     \<lparr>wn_info = demo_answer \<lparr>ni_blocks = 1, ni_best_block_hash = byte_text (replicate 32 1)\<rparr>,
      wn_block_hash = (\<lambda>h. demo_answer (byte_text (replicate 32 (ucast h)))),
      wn_block = (\<lambda>h. demo_answer (if h = decimal 0 then byte_text [0] else byte_text [1])),
      wn_tree = (\<lambda>h. demo_answer \<lparr>tr_height = (if h = decimal 0 then 0 else 1), tr_hash = '''', tr_sapling = None,
         tr_orchard = None, tr_ironwood = None\<rparr>),
      wn_sleep = (\<lambda>_ e. e)\<rparr>"

definition demo_block_lib :: "u32 block_lib" where
  "demo_block_lib =
     \<lparr>bx_read = (\<lambda>_ bs. Ok (ucast (bs ! 0))), bx_hash = (\<lambda>h. fill32 (ucast h)),
      bx_chain_state = (\<lambda>te. Ok \<lparr>cs_height = ucast (te_height te), cs_hash = fill32 (ucast (te_height te)), cs_sapling_size = 0,
         cs_orchard_size = 0, cs_ironwood_size = 0, cs_rest = 0\<rparr>),
      bx_hex_error = (\<lambda>_. '''')\<rparr>"

definition demo_final :: "u32 \<Rightarrow> u32 chain_state" where
  "demo_final h = \<lparr>cs_height = h, cs_hash = fill32 (ucast h), cs_sapling_size = 0, cs_orchard_size = 0, cs_ironwood_size = 0,
     cs_rest = 0\<rparr>"

lemma demo_answers: "wn_sleep z = (\<lambda>_ e. e) \<Longrightarrow> answers z (\<lambda>n e. e \<le> n) (demo_answer v) v"
  by (auto simp: answers_def demo_answer_def split: nat.splits)

lemma trim_0x_keeps: "take 2 s \<noteq> ''0x'' \<Longrightarrow> trim_0x s = s"
  by (subst trim_0x.simps) simp

lemma demo_hex: "hex_decode plain_hex (trim_0x (byte_text (replicate 32 b))) = Some (replicate 32 b)"
  "hex_decode plain_hex (trim_0x (byte_text [b])) = Some [b]"
proof -
  have "take 2 (byte_text (replicate 32 b)) = [char_of (unat b), char_of (unat b)]"
    by (simp add: byte_text_def take_map numeral_2_eq_2)
  then have "take 2 (byte_text (replicate 32 b)) \<noteq> ''0x''" by auto
  then show "hex_decode plain_hex (trim_0x (byte_text (replicate 32 b))) = Some (replicate 32 b)"
    by (simp add: trim_0x_keeps plain_hex_def)
  have "take 2 (byte_text [b]) \<noteq> ''0x''" by (simp add: byte_text_def)
  then show "hex_decode plain_hex (trim_0x (byte_text [b])) = Some [b]"
    by (simp add: trim_0x_keeps plain_hex_def)
qed

lemma demo_serves:
  "serves_chain plain_hex demo_block_lib demo_lossy_node Regtest_Params (\<lambda>n e. e \<le> n) \<lparr>ct_height = 1, ct_hash = fill32 1\<rparr>
    (\<lambda>h. fill32 (ucast h)) demo_final id"
proof -
  note ans = demo_answers [of demo_lossy_node, OF demo_lossy_node_def [THEN arg_cong [of _ _ wn_sleep], unfolded wallet_node.simps]]
  have "decimal (Suc 0) \<noteq> decimal 0" by code_simp
  then have low: "decimal (unat h) = decimal 0 \<longleftrightarrow> h = 0" "h \<noteq> 0 \<Longrightarrow> h = 1" if "h \<le> 1" for h :: u32
  proof -
    have "h = 0 \<or> h = 1" using that by (auto simp: word_le_nat_alt word_unat_eq_iff)
    then show "decimal (unat h) = decimal 0 \<longleftrightarrow> h = 0" "h \<noteq> 0 \<Longrightarrow> h = 1"
      using \<open>decimal (Suc 0) \<noteq> decimal 0\<close> by auto
  qed
  show ?thesis
    unfolding serves_chain_def
    by (auto simp: demo_lossy_node_def demo_block_lib_def demo_final_def tree_state_of_def Let_def low
        dest: low(2) intro!: ans [unfolded demo_lossy_node_def] exI demo_hex)
qed

lemma zebra_source_steady_witness:
  "\<exists>e. e \<le> 7 \<and> cc_source_block (zebra_chain_source plain_hex demo_block_lib demo_lossy_node Regtest_Params) 1 3 = (e, Ok 1)"
proof -
  have "gives (\<lambda>e. e \<le> 7) (cc_source_block (zebra_chain_source plain_hex demo_block_lib demo_lossy_node Regtest_Params) 1) (id 1)"
    by (rule steady_sourceD(4) [OF zebra_source_steady [OF demo_serves]]) simp
  then show ?thesis by (simp add: gives_def)
qed

end
