(* ===== verification/Funding_Plan.thy ===== *)
theory Funding_Plan
  imports Shielded_Plan
begin

text \<open>
  The plan of either pool (\<open>FundingPlan\<close> of \<open>zalkanes-wallet/src/plan.rs\<close>): its readings, how it is
  shown, its stages, and how it is recorded in the journal.
\<close>

section \<open>Plans of either pool\<close>

datatype ('k, 'b, 'x, 'p) funding_plan =
    FundedTransparent "('k, 'b) transparent_plan"
  | FundedShielded "('x, 'p) shielded_plan"

fun pool_name :: "('k, 'b, 'x, 'p) funding_plan \<Rightarrow> string" where
  "pool_name (FundedTransparent p) = ''transparent''"
| "pool_name (FundedShielded p) = ''shielded''"

fun funding_stage :: "('k, 'b, 'x, 'p) funding_plan \<Rightarrow> plan_stage" where
  "funding_stage (FundedTransparent p) = tp_stage p"
| "funding_stage (FundedShielded p) = zp_stage p"

fun funding_selected_value :: "('k, 'b, 'x, 'p) funding_plan \<Rightarrow> u64" where
  "funding_selected_value (FundedTransparent p) = pt_selected_value (tp_prepared p)"
| "funding_selected_value (FundedShielded p) = zp_selected_value p"

fun funding_fee :: "('k, 'b, 'x, 'p) funding_plan \<Rightarrow> u64" where
  "funding_fee (FundedTransparent p) = pt_fee (tp_prepared p)"
| "funding_fee (FundedShielded p) = zp_fee p"

fun funding_change :: "('k, 'b, 'x, 'p) funding_plan \<Rightarrow> u64" where
  "funding_change (FundedTransparent p) = pt_change (tp_prepared p)"
| "funding_change (FundedShielded p) = zp_change p"

fun funding_minimum_policy :: "('k, 'b, 'x, 'p) funding_plan \<Rightarrow> privacy_policy" where
  "funding_minimum_policy (FundedTransparent p) = minimum_policy p"
| "funding_minimum_policy (FundedShielded p) = shielded_minimum_policy p"

fun funding_target_height :: "('k, 'b, 'x, 'p) funding_plan \<Rightarrow> u32" where
  "funding_target_height (FundedTransparent p) = tp_target_height p"
| "funding_target_height (FundedShielded p) = zp_target_height p"

fun funding_tx_version :: "('k, 'b, 'x, 'p) funding_plan \<Rightarrow> string" where
  "funding_tx_version (FundedTransparent p) = ''v5''"
| "funding_tx_version (FundedShielded p) = zp_tx_version p"

fun funding_expiry_height :: "('k, 'b, 'x, 'p) funding_plan \<Rightarrow> u32" where
  "funding_expiry_height (FundedTransparent p) = 0"
| "funding_expiry_height (FundedShielded p) = zp_expiry_height p"

fun funding_payload_hex :: "hex_lib \<Rightarrow> ('k, 'b, 'x, 'p) funding_plan \<Rightarrow> string" where
  "funding_payload_hex hx (FundedTransparent p) = zalk_payload_hex hx p"
| "funding_payload_hex hx (FundedShielded p) = shielded_payload_hex hx p"

fun funding_plan_id :: "('k, 'b, 'x, 'p) funding_plan \<Rightarrow> string" where
  "funding_plan_id (FundedTransparent p) = tp_plan_id p"
| "funding_plan_id (FundedShielded p) = zp_plan_id p"

fun funding_intent_hash :: "('k, 'b, 'x, 'p) funding_plan \<Rightarrow> string" where
  "funding_intent_hash (FundedTransparent p) = tp_intent_hash p"
| "funding_intent_hash (FundedShielded p) = zp_intent_hash p"

fun funding_journal_inputs :: "('k, 'b, 'x, 'p) funding_plan \<Rightarrow> string" where
  "funding_journal_inputs (FundedTransparent p) = tp_journal_inputs p"
| "funding_journal_inputs (FundedShielded p) = zp_journal_inputs p"

fun funding_kind :: "('k, 'b, 'x, 'p) funding_plan \<Rightarrow> string" where
  "funding_kind (FundedTransparent p) = request_kind (tp_request p)"
| "funding_kind (FundedShielded p) = request_kind (zp_request p)"

fun funding_tip :: "('k, 'b, 'x, 'p) funding_plan \<Rightarrow> canonical_tip" where
  "funding_tip (FundedTransparent p) = tp_canonical_tip p"
| "funding_tip (FundedShielded p) = zp_canonical_tip p"

fun pool_lines :: "hex_lib \<Rightarrow> ('k, 'b, 'x, 'p) funding_plan \<Rightarrow> string list" where
  "pool_lines hx (FundedTransparent p) = map (\<lambda>(i, out). describe_output i out) (enumerate 0 (pt_outputs (tp_prepared p)))"
| "pool_lines hx (FundedShielded p) = shielded_describe_lines hx p"

definition describe_funding :: "hex_lib \<Rightarrow> ('k, 'b, 'x, 'p) funding_plan \<Rightarrow> string list" where
  "describe_funding hx p =
     [''Funding pool:       '' @ pool_name p,
      ''Stage:              '' @ plan_stage_str (funding_stage p),
      amount_line ''Selected value:     '' (funding_selected_value p),
      amount_line ''Fee (ZIP-317):      '' (funding_fee p),
      amount_line (''Change ('' @ pool_name p @ ''): '') (funding_change p),
      ''Target height:      '' @ decimal (unat (funding_target_height p)),
      ''Transaction version:'' @ funding_tx_version p,
      ''Expiry height:      '' @ decimal (unat (funding_expiry_height p)),
      ''ZALK payload:       '' @ funding_payload_hex hx p,
      ''Min privacy policy: '' @ policy_str (funding_minimum_policy p) @ '' ('' @ policy_description (funding_minimum_policy p) @ '')'',
      ''Zalkanes disclosure: contract id / opcode / calldata / code are public'']
     @ pool_lines hx p"

section \<open>Stages\<close>

record ('k, 'b, 'x, 'p, 't) funding_lib =
  fb_wallet :: "('k, 'b) wallet_lib"
  fb_builder :: "('x, 'p) builder_lib"
  fb_view :: "('x, 'p) view_lib"
  fb_roles :: "('x, 'p, 't) role_lib"

datatype funding_error = TransparentStage plan_error | ShieldedStage stage_error

text \<open>A stage of the plan inside, on the world of the tip source and the plan.\<close>

definition on_transparent ::
    "('w \<times> ('k, 'b) transparent_plan, plan_error, 'r) step \<Rightarrow> 'w \<Rightarrow> ('k, 'b) transparent_plan
      \<Rightarrow> ('w \<times> ('k, 'b, 'x, 'p) funding_plan) \<times> (funding_error, 'r) result" where
  "on_transparent f x p = (case f (x, p) of ((x, p), r) \<Rightarrow> ((x, FundedTransparent p), map_err TransparentStage r))"

definition on_shielded_plan ::
    "('w \<times> ('x, 'p) shielded_plan, stage_error, 'r) step \<Rightarrow> 'w \<Rightarrow> ('x, 'p) shielded_plan
      \<Rightarrow> ('w \<times> ('k, 'b, 'x, 'p) funding_plan) \<times> (funding_error, 'r) result" where
  "on_shielded_plan f x p = (case f (x, p) of ((x, p), r) \<Rightarrow> ((x, FundedShielded p), map_err ShieldedStage r))"

fun prove_funding ::
    "('k, 'b, 'x, 'p, 't) funding_lib \<Rightarrow> 'w tip_source \<Rightarrow> ('w \<times> ('k, 'b, 'x, 'p) funding_plan, funding_error, unit) step" where
  "prove_funding fl src (x, FundedTransparent p) = on_transparent (prove_plan src) x p"
| "prove_funding fl src (x, FundedShielded p) = on_shielded_plan (prove_shielded_plan (fb_roles fl) src) x p"

fun sign_funding ::
    "('k, 'b, 'x, 'p, 't) funding_lib \<Rightarrow> 'w tip_source \<Rightarrow> ('w \<times> ('k, 'b, 'x, 'p) funding_plan, funding_error, unit) step" where
  "sign_funding fl src (x, FundedTransparent p) = on_transparent (sign_plan (fb_wallet fl) src) x p"
| "sign_funding fl src (x, FundedShielded p) = on_shielded_plan (sign_shielded_plan (fb_roles fl) src) x p"

fun extract_funding ::
    "('k, 'b, 'x, 'p, 't) funding_lib \<Rightarrow> 'w tip_source \<Rightarrow> ('w \<times> ('k, 'b, 'x, 'p) funding_plan, funding_error, verified_tx) step" where
  "extract_funding fl src (x, FundedTransparent p) = on_transparent (extract_verified (fb_wallet fl) src) x p"
| "extract_funding fl src (x, FundedShielded p) =
     on_shielded_plan (extract_verified_shielded (fb_builder fl) (fb_view fl) (fb_roles fl) src) x p"

section \<open>In the journal\<close>

definition record_funding_plan ::
    "('k, 'b, 'x, 'p, 't) funding_lib \<Rightarrow> ('k, 'b, 'x, 'p) funding_plan \<Rightarrow> (journal, string, unit) step" where
  "record_funding_plan fl p =
     record_plan (wb_hex (fb_wallet fl)) (wb_sha (fb_wallet fl)) (funding_plan_id p) (funding_intent_hash p) (funding_kind p)
       (pool_name p) (funding_tip p) (funding_target_height p) (funding_journal_inputs p) (funding_expiry_height p)"

end
