(* ===== verification/Cli_Session.thy ===== *)
theory Cli_Session
  imports Funding_Plan Wallet_Select Keystore Runtime
begin

text \<open>
  The command line's wallet commands (\<open>zalkanes-cli/src/wallet_cmd.rs\<close>): where the wallet's files
  are, the passphrase, the armed session, and creating, restoring, scanning, arming and locking a
  wallet. The terminal, the clock, the nodes and the random generator are calls on a world \<open>'w\<close>;
  the environment variables are fixed for one command.
\<close>

section \<open>The machine\<close>

text \<open>The journal, the nodes and what has been sent; the files; the databases; what is printed.\<close>

record ('w, 'd) machine =
  mc_wallet :: "'w wallet"
  mc_disk :: disk
  mc_dbs :: "string \<rightharpoonup> 'd"
  mc_out :: "string list"

text \<open>The terminal and the operating system, the keystore's crate, and the HTTP client, by URL.\<close>

record 'w cli_os =
  os_var :: "string \<Rightarrow> string option"
  os_now :: "'w \<Rightarrow> 'w \<times> u64"
  os_prompt :: "string \<Rightarrow> ('w, string, string) step"
  os_read_line :: "'w \<Rightarrow> 'w \<times> string"
  os_seed :: "'w \<Rightarrow> 'w \<times> bytes"
  os_write :: "string \<Rightarrow> (string, unit) result"
  os_chmod :: "string \<Rightarrow> bool"
  os_create_dir :: "string \<Rightarrow> (string, unit) result"
  os_keystore :: create_faults
  os_age :: age_lib
  os_client :: "(string, unit) result"

record ('w, 'd, 'x, 'a) cli_db =
  cd_account :: "('d, 'x, 'a) account_db"
  cd_scan :: "('d, 'x) scan_db"
  cd_notes :: "('d, 'x, 'a) note_db"
  cd_keys :: "'x account_keys"
  cd_sha :: sha
  cd_source :: "string \<Rightarrow> consensus_params \<Rightarrow> ('w, 'x) chain_source"
  cd_scan_fuel :: nat
  cd_message :: "select_error \<Rightarrow> string"

datatype cli_error =
    EmptyPassphraseGiven
  | PromptFailed string
  | FileSystemFailed string
  | PassphrasesDiffer
  | KeystorePresent string
  | KeystoreMissing string
  | DatabaseMissing string
  | SessionLocked
  | KeystoreFailure keystore_error
  | WalletFailure wallet_error
  | ScanFailure scan_error
  | NodeFailure string
  | QueryFailure string
  | MainnetNotConfirmed
  | ShieldedNotConfigured
  | JournalFailure string
  | PlanFailure plan_error
  | ShieldedPlanFailure shielded_error
  | StageFailure funding_error
  | SendRejected string
  | ConfigFailure string
  | InputFailure string
  | InvalidContract invalid_module
  | SizingFailure tx_error
  | OutOfWaitFuel

text \<open>The steps of a command.\<close>

type_synonym ('w, 'd, 'r) cli_step = "(('w, 'd) machine, cli_error, 'r) step"

definition ask_world :: "('w \<Rightarrow> 'w \<times> 'r) \<Rightarrow> ('w, 'd, 'r) cli_step" where
  "ask_world f s = (case f (wl_world (mc_wallet s)) of (x, r) \<Rightarrow> (s\<lparr>mc_wallet := (mc_wallet s)\<lparr>wl_world := x\<rparr>\<rparr>, Ok r))"

definition try_world :: "('e \<Rightarrow> cli_error) \<Rightarrow> ('w, 'e, 'r) step \<Rightarrow> ('w, 'd, 'r) cli_step" where
  "try_world err f = bind_step (ask_world f) (\<lambda>r. lift_step (map_err err r))"

definition print_lines :: "string list \<Rightarrow> ('w, 'd, unit) cli_step" where
  "print_lines ls s = (s\<lparr>mc_out := mc_out s @ ls\<rparr>, Ok ())"

definition read_machine :: "(('w, 'd) machine \<Rightarrow> (cli_error, 'r) result) \<Rightarrow> ('w, 'd, 'r) cli_step" where
  "read_machine f s = (s, f s)"

section \<open>Paths\<close>

text \<open>\<open>Path::join\<close> of a relative path.\<close>

definition path_join :: "string \<Rightarrow> string \<Rightarrow> string" where
  "path_join dir name = (if dir = [] \<or> last dir = CHR ''/'' then dir @ name else dir @ ''/'' @ name)"

definition wallet_dir :: "'w cli_os \<Rightarrow> network \<Rightarrow> string" where
  "wallet_dir os net =
     (case os_var os ''ZALKANES_WALLET_DIR'' of
        Some dir \<Rightarrow> dir
      | None \<Rightarrow>
          path_join (path_join (case os_var os ''HOME'' of Some home \<Rightarrow> home | None \<Rightarrow> ''.'') ''.zalkanes/wallet'') (zebra_name net))"

definition db_path :: "string \<Rightarrow> string" where
  "db_path dir = path_join dir ''wallet.sqlite''"

definition keystore_path :: "string \<Rightarrow> string" where
  "keystore_path dir = path_join dir ''keystore.age''"

definition session_path :: "string \<Rightarrow> string" where
  "session_path dir = path_join dir ''session''"

fun cli_keystore_network :: "network \<Rightarrow> keystore_network" where
  "cli_keystore_network Mainnet = KsMainnet"
| "cli_keystore_network Testnet = KsTestnet"
| "cli_keystore_network Regtest = KsRegtest"

definition wallet_params :: "network \<Rightarrow> consensus_params" where
  "wallet_params net = for_network net"

section \<open>The passphrase\<close>

definition read_passphrase :: "'w cli_os \<Rightarrow> string \<Rightarrow> ('w, 'd, string) cli_step" where
  "read_passphrase os prompt =
     (case os_var os ''ZALKANES_PASSPHRASE'' of
        Some (c # cs) \<Rightarrow> return_step (c # cs)
      | _ \<Rightarrow>
          bind_step (try_world PromptFailed (os_prompt os prompt)) (\<lambda>entered.
            if entered = [] then lift_step (Err EmptyPassphraseGiven) else return_step entered))"

section \<open>The armed session\<close>

definition SESSION_TTL_SECS :: u64 where
  "SESSION_TTL_SECS = 900"

text \<open>\<open>trim\<close> and \<open>parse\<close> of a 64-bit number, on ASCII.\<close>

definition is_blank :: "char \<Rightarrow> bool" where
  "is_blank c \<longleftrightarrow> of_char c \<in> {9, 10, 11, 12, 13, 32 :: nat}"

definition trim :: "string \<Rightarrow> string" where
  "trim s = rev (dropWhile is_blank (rev (dropWhile is_blank s)))"

fun digits_value :: "nat \<Rightarrow> string \<Rightarrow> nat option" where
  "digits_value n [] = Some n"
| "digits_value n (c # cs) =
     (if 48 \<le> (of_char c :: nat) \<and> (of_char c :: nat) \<le> 57 then digits_value (10 * n + (of_char c - 48)) cs else None)"

definition parse_number :: "nat \<Rightarrow> string \<Rightarrow> nat option" where
  "parse_number bits s =
     (let digits = (case s of c # cs \<Rightarrow> if c = CHR ''+'' then cs else s | [] \<Rightarrow> []) in
      if digits = [] then None
      else case digits_value 0 digits of None \<Rightarrow> None | Some n \<Rightarrow> if n < 2 ^ bits then Some n else None)"

definition text_of :: "bytes \<Rightarrow> string" where
  "text_of bs = map (\<lambda>b. char_of (unat b)) bs"

definition session_is_armed :: "'w cli_os \<Rightarrow> string \<Rightarrow> ('w, 'd, bool) cli_step" where
  "session_is_armed os dir =
     bind_step (read_machine (\<lambda>s. Ok (mc_disk s (session_path dir)))) (\<lambda>file.
       case file of
         None \<Rightarrow> return_step False
       | Some f \<Rightarrow>
           (case parse_number 64 (trim (text_of (fl_contents f))) of
              None \<Rightarrow> return_step False
            | Some expiry \<Rightarrow> bind_step (ask_world (os_now os)) (\<lambda>now. return_step (unat now < expiry))))"

text \<open>The sum wraps around in the release profile. A failing \<open>chmod\<close> is ignored.\<close>

definition arm_session :: "'w cli_os \<Rightarrow> string \<Rightarrow> u64 \<Rightarrow> ('w, 'd, u64) cli_step" where
  "arm_session os dir ttl =
     bind_step (ask_world (os_now os)) (\<lambda>now. \<lambda>s.
       let expiry = now + ttl; path = session_path dir in
       case os_write os path of
         Err e \<Rightarrow> (s, Err (FileSystemFailed e))
       | Ok _ \<Rightarrow>
           (s\<lparr>mc_disk := (mc_disk s)(path \<mapsto> \<lparr>fl_contents = ascii (decimal (unat expiry)), fl_owner_only = os_chmod os path\<rparr>)\<rparr>, Ok expiry))"

definition disarm_session :: "string \<Rightarrow> ('w, 'd, unit) cli_step" where
  "disarm_session dir s = (s\<lparr>mc_disk := (mc_disk s)(session_path dir := None)\<rparr>, Ok ())"

section \<open>The database and the keystore\<close>

text \<open>An existing database is opened as it is; opening a missing one makes an empty one.\<close>

definition open_at :: "(string \<rightharpoonup> 'd) \<Rightarrow> ('d, 'x, 'a) account_db \<Rightarrow> ('d, 'x, 'a) account_db" where
  "open_at dbs ad = ad\<lparr>ad_for_path := (\<lambda>path network.
     and_then (ad_for_path ad path network) (\<lambda>empty. Ok (case dbs path of Some d \<Rightarrow> d | None \<Rightarrow> empty)))\<rparr>"

definition save_db :: "string \<Rightarrow> 'd \<Rightarrow> ('w, 'd, unit) cli_step" where
  "save_db path d s = (s\<lparr>mc_dbs := (mc_dbs s)(path \<mapsto> d)\<rparr>, Ok ())"

text \<open>\<open>open_locked\<close> of a database that is there.\<close>

definition open_wallet :: "('w, 'd, 'x, 'a) cli_db \<Rightarrow> string \<Rightarrow> network \<Rightarrow> ('w, 'd, ('d, 'x, 'a) sqlite_wallet) cli_step" where
  "open_wallet cd dir net =
     read_machine (\<lambda>s. map_err WalletFailure (open_locked (open_at (mc_dbs s) (cd_account cd)) (db_path dir) (wallet_params net)))"

definition open_locked_command ::
    "'w cli_os \<Rightarrow> ('w, 'd, 'x, 'a) cli_db \<Rightarrow> network \<Rightarrow> ('w, 'd, string \<times> ('d, 'x, 'a) sqlite_wallet) cli_step" where
  "open_locked_command os cd net =
     (let dir = wallet_dir os net in
      bind_step (read_machine (\<lambda>s. Ok (mc_dbs s (db_path dir) = None))) (\<lambda>missing.
        if missing then lift_step (Err (DatabaseMissing (db_path dir)))
        else bind_step (open_wallet cd dir net) (\<lambda>wallet. return_step (dir, wallet))))"

definition keystore_exists :: "string \<Rightarrow> ('w, 'd, bool) cli_step" where
  "keystore_exists dir = read_machine (\<lambda>s. Ok (mc_disk s (keystore_path dir) \<noteq> None))"

definition unlock_keystore :: "'w cli_os \<Rightarrow> string \<Rightarrow> network \<Rightarrow> string \<Rightarrow> ('w, 'd, bytes) cli_step" where
  "unlock_keystore os dir net pass =
     read_machine (\<lambda>s. map_err KeystoreFailure
       (keystore_unlock (os_age os) (keystore_path dir) pass (cli_keystore_network net) (mc_disk s)))"

definition create_keystore :: "'w cli_os \<Rightarrow> string \<Rightarrow> network \<Rightarrow> string \<Rightarrow> bytes \<Rightarrow> ('w, 'd, unit) cli_step" where
  "create_keystore os dir net pass seed s =
     (case keystore_create (os_age os) (os_keystore os) (keystore_path dir) pass seed (cli_keystore_network net) 0 (mc_disk s) of
        (states, r) \<Rightarrow> (s\<lparr>mc_disk := last states\<rparr>, map_err KeystoreFailure r))"

text \<open>A chain source of a fresh HTTP client.\<close>

definition connect :: "'w cli_os \<Rightarrow> ('w, 'd, 'x, 'a) cli_db \<Rightarrow> string \<Rightarrow> network \<Rightarrow> ('w, 'd, ('w, 'x) chain_source) cli_step" where
  "connect os cd url net = lift_step (map_err NodeFailure (and_then (os_client os) (\<lambda>_. Ok (cd_source cd url (wallet_params net)))))"

text \<open>A scan writes to the database whether it succeeds or not.\<close>

definition scan_wallet ::
    "('w, 'd, 'x, 'a) cli_db \<Rightarrow> ('w, 'x) chain_source \<Rightarrow> string \<Rightarrow> ('d, 'x, 'a) sqlite_wallet
      \<Rightarrow> ('w, 'd, ('d, 'x, 'a) sqlite_wallet) cli_step" where
  "scan_wallet cd src dir wallet =
     bind_step (ask_world (\<lambda>x. case scan_to_tip (cd_scan_fuel cd) (cd_account cd) (cd_scan cd) src (x, wallet) of
         ((x, wallet), r) \<Rightarrow> (x, wallet, r))) (\<lambda>(wallet, r).
     bind_step (save_db (db_path dir) (sq_db wallet)) (\<lambda>_.
       lift_step (map_err ScanFailure (and_then r (\<lambda>_. Ok wallet)))))"

section \<open>Commands\<close>

text \<open>The end of \<open>wallet_create\<close> and \<open>wallet_restore\<close>.\<close>

definition report_wallet ::
    "('w, 'd, 'x, 'a) cli_db \<Rightarrow> string list \<Rightarrow> string list \<Rightarrow> ('d, 'x, 'a) sqlite_wallet \<Rightarrow> ('w, 'd, unit) cli_step" where
  "report_wallet cd before after wallet =
     bind_step (print_lines before) (\<lambda>_.
     bind_step (lift_step (map_err WalletFailure (unified_address (cd_account cd) wallet))) (\<lambda>address.
     bind_step (print_lines [''  unified address: '' @ address]) (\<lambda>_.
     bind_step (lift_step (map_err QueryFailure (birthday_height (cd_account cd) wallet))) (\<lambda>birthday.
       print_lines ([''  birthday height: '' @ decimal (unat birthday)] @ after)))))"

text \<open>A creation that fails after the database is opened leaves it there without an account; the account
  is written in one transaction.\<close>

definition save_new_wallet ::
    "('d, 'x, 'a) account_db \<Rightarrow> string \<Rightarrow> network \<Rightarrow> ('w, wallet_error, ('d, 'x, 'a) sqlite_wallet) step
      \<Rightarrow> ('w, 'd, ('d, 'x, 'a) sqlite_wallet) cli_step" where
  "save_new_wallet ad dir net f =
     bind_step (ask_world f) (\<lambda>r.
       case r of
         Ok wallet \<Rightarrow> bind_step (save_db (db_path dir) (sq_db wallet)) (\<lambda>_. return_step wallet)
       | Err e \<Rightarrow>
           bind_step
             (case ad_for_path ad (db_path dir) (wallet_params net) of
                Ok db \<Rightarrow> if e = BirthdayZero then return_step () else save_db (db_path dir) (fst (ad_init ad db))
              | Err _ \<Rightarrow> return_step ())
             (\<lambda>_. lift_step (Err (WalletFailure e))))"

definition wallet_create :: "'w cli_os \<Rightarrow> ('w, 'd, 'x, 'a) cli_db \<Rightarrow> network \<Rightarrow> string \<Rightarrow> ('w, 'd, unit) cli_step" where
  "wallet_create os cd net zebra_url =
     (let dir = wallet_dir os net in
      bind_step (lift_step (map_err FileSystemFailed (os_create_dir os dir))) (\<lambda>_.
      bind_step (keystore_exists dir) (\<lambda>present.
      if present then lift_step (Err (KeystorePresent (keystore_path dir)))
      else
        bind_step (read_passphrase os ''New wallet passphrase: '') (\<lambda>pass.
        bind_step (read_passphrase os ''Confirm passphrase: '') (\<lambda>confirmed.
        if pass \<noteq> confirmed then lift_step (Err PassphrasesDiffer)
        else
          bind_step (connect os cd zebra_url net) (\<lambda>chain.
          bind_step (ask_world (os_seed os)) (\<lambda>seed.
          bind_step (create_keystore os dir net pass seed) (\<lambda>_.
          bind_step (read_machine (\<lambda>s. Ok (open_at (mc_dbs s) (cd_account cd)))) (\<lambda>ad.
          bind_step (save_new_wallet ad dir net (create_new ad (cd_keys cd) chain (db_path dir) (wallet_params net) seed)) (\<lambda>wallet.
            report_wallet cd
              [''wallet created'', ''  directory:       '' @ dir, ''  keystore:        '' @ keystore_path dir]
              ['''', ''The seed exists ONLY inside the encrypted keystore. Back up that'',
               ''file and your passphrase: losing either loses the funds.'']
              wallet))))))))))"

definition wallet_restore :: "'w cli_os \<Rightarrow> ('w, 'd, 'x, 'a) cli_db \<Rightarrow> network \<Rightarrow> string \<Rightarrow> u32 \<Rightarrow> ('w, 'd, unit) cli_step" where
  "wallet_restore os cd net zebra_url birthday =
     (let dir = wallet_dir os net in
      bind_step (lift_step (map_err FileSystemFailed (os_create_dir os dir))) (\<lambda>_.
      bind_step (keystore_exists dir) (\<lambda>present.
      if \<not> present then lift_step (Err (KeystoreMissing (keystore_path dir)))
      else
        bind_step (read_passphrase os ''Wallet passphrase: '') (\<lambda>pass.
        bind_step (unlock_keystore os dir net pass) (\<lambda>seed.
        bind_step (connect os cd zebra_url net) (\<lambda>chain.
        bind_step (read_machine (\<lambda>s. Ok (open_at (mc_dbs s) (cd_account cd)))) (\<lambda>ad.
        bind_step (save_new_wallet ad dir net (restore ad (cd_keys cd) chain (db_path dir) (wallet_params net) seed birthday)) (\<lambda>wallet.
          report_wallet cd [''wallet restored''] [] wallet))))))))"

definition wallet_address :: "'w cli_os \<Rightarrow> ('w, 'd, 'x, 'a) cli_db \<Rightarrow> network \<Rightarrow> ('w, 'd, unit) cli_step" where
  "wallet_address os cd net =
     bind_step (open_locked_command os cd net) (\<lambda>(dir, wallet).
     bind_step (lift_step (map_err WalletFailure (unified_address (cd_account cd) wallet))) (\<lambda>address. print_lines [address]))"

definition sync_line :: "(string, canonical_tip) result \<Rightarrow> (canonical_tip \<Rightarrow> (string, sync_status) result) \<Rightarrow> (string, string) result" where
  "sync_line tip status =
     (case tip of
        Err e \<Rightarrow> Ok (''sync:        zebra unreachable ('' @ e @ '')'')
      | Ok tip \<Rightarrow>
          and_then (status tip) (\<lambda>s.
            Ok (''sync:        wallet '' @ decimal (unat (ys_wallet_scan_height s)) @ '' / zebra ''
              @ decimal (unat (ys_zebra_tip_height s)) @ '' ('' @ (if ys_synced s then ''synced'' else ''NOT synced'') @ '')'')))"

definition wallet_lines :: "('w, 'd, 'x, 'a) cli_db \<Rightarrow> ('d, 'x, 'a) sqlite_wallet \<Rightarrow> (cli_error, string list) result" where
  "wallet_lines cd wallet =
     and_then (map_err WalletFailure (unified_address (cd_account cd) wallet)) (\<lambda>address.
     and_then (map_err QueryFailure (birthday_height (cd_account cd) wallet)) (\<lambda>birthday.
     and_then (map_err QueryFailure (wallet_balance (cd_notes cd) wallet)) (\<lambda>balance.
     and_then (map_err QueryFailure (canonical_note_summary (cd_notes cd) wallet)) (\<lambda>summary.
     and_then (map_err QueryFailure (retained_note_rows (cd_notes cd) wallet)) (\<lambda>retained.
       Ok [''address:     '' @ address, ''birthday:    '' @ decimal (unat birthday),
           ''balance:     '' @ decimal (unat balance) @ '' zat'', ''notes:       '' @ summary, ''retained:    '' @ retained])))))"

text \<open>The lines before a failing query are printed too; they are left out then.\<close>

definition wallet_status :: "'w cli_os \<Rightarrow> ('w, 'd, 'x, 'a) cli_db \<Rightarrow> network \<Rightarrow> string \<Rightarrow> ('w, 'd, unit) cli_step" where
  "wallet_status os cd net zebra_url =
     bind_step (open_locked_command os cd net) (\<lambda>(dir, wallet).
     bind_step (read_machine (\<lambda>s. map_err KeystoreFailure (keystore_info_of (keystore_path dir) (mc_disk s)))) (\<lambda>info.
     bind_step (session_is_armed os dir) (\<lambda>armed.
     bind_step (print_lines
       [''wallet:      '' @ dir, ''network:     '' @ zebra_name net,
        ''keystore:    v'' @ decimal (unat (ki_version info)) @ '' ('' @ keystore_network_str (ki_network info) @ '')'',
        ''state:       '' @ (if armed then ''UNLOCKED (armed; passphrase still required per spend)''
          else ''LOCKED (watch-only: scan/address/balance work; spending refused)'')]) (\<lambda>_.
     bind_step (lift_step (wallet_lines cd wallet)) (\<lambda>ls.
     bind_step (print_lines ls) (\<lambda>_.
     bind_step
       (case os_client os of
          Err e \<Rightarrow> return_step (Err e)
        | Ok _ \<Rightarrow> ask_world (cc_canonical_tip (cd_source cd zebra_url (wallet_params net)))) (\<lambda>tip.
     bind_step (lift_step (map_err QueryFailure (sync_line tip (\<lambda>tip. wallet_sync_status (cd_scan cd) tip wallet)))) (\<lambda>l.
       print_lines [l]))))))))"

definition wallet_scan :: "'w cli_os \<Rightarrow> ('w, 'd, 'x, 'a) cli_db \<Rightarrow> network \<Rightarrow> string \<Rightarrow> ('w, 'd, unit) cli_step" where
  "wallet_scan os cd net zebra_url =
     bind_step (open_locked_command os cd net) (\<lambda>(dir, wallet).
     bind_step (connect os cd zebra_url net) (\<lambda>chain.
     bind_step (scan_wallet cd chain dir wallet) (\<lambda>wallet.
     bind_step (try_world NodeFailure (cc_canonical_tip chain)) (\<lambda>tip.
     bind_step (lift_step (map_err QueryFailure (wallet_sync_status (cd_scan cd) tip wallet))) (\<lambda>status.
     bind_step (lift_step (map_err QueryFailure (wallet_balance (cd_notes cd) wallet))) (\<lambda>balance.
       print_lines [''scanned to '' @ decimal (unat (ys_wallet_scan_height status)) @ '' (''
         @ (if ys_synced status then ''synced'' else ''NOT synced'') @ ''), balance '' @ decimal (unat balance) @ '' zat'']))))))"

definition wallet_unlock :: "'w cli_os \<Rightarrow> network \<Rightarrow> u64 option \<Rightarrow> ('w, 'd, unit) cli_step" where
  "wallet_unlock os net ttl =
     (let dir = wallet_dir os net in
      bind_step (keystore_exists dir) (\<lambda>present.
      if \<not> present then lift_step (Err (KeystoreMissing (keystore_path dir)))
      else
        bind_step (read_passphrase os ''Wallet passphrase: '') (\<lambda>pass.
        bind_step (unlock_keystore os dir net pass) (\<lambda>_.
        bind_step (arm_session os dir (case ttl of None \<Rightarrow> SESSION_TTL_SECS | Some t \<Rightarrow> t)) (\<lambda>expiry.
          print_lines
            [''wallet unlocked (armed until unix '' @ decimal (unat expiry) @ ''; the session file holds NO key material '' @ [CHR 0xE2, CHR 0x80, CHR 0x94],
             ''the passphrase is still required for each spending command)''])))))"

definition wallet_lock :: "'w cli_os \<Rightarrow> network \<Rightarrow> ('w, 'd, unit) cli_step" where
  "wallet_lock os net =
     bind_step (disarm_session (wallet_dir os net)) (\<lambda>_. print_lines [''wallet locked: spending is refused until the next unlock''])"

end
