(* ===== verification/Cli_Spend.thy ===== *)
theory Cli_Spend
  imports Cli_Session Transparent
begin

text \<open>
  The funded commands' pipeline (\<open>zalkanes-cli/src/wallet_cmd.rs\<close>): the mainnet guard, the choice of
  the pool, the confirmation, and the way of a request from its plan through the journal to the node.
\<close>

section \<open>Options\<close>

datatype funding_mode = ModeTransparent | ModeShielded | ModeAuto

fun mode_str :: "funding_mode \<Rightarrow> string" where
  "mode_str ModeTransparent = ''transparent''"
| "mode_str ModeShielded = ''shielded''"
| "mode_str ModeAuto = ''auto''"

record spend_options =
  opt_network :: network
  opt_zebra_url :: string
  opt_funding :: funding_mode
  opt_dry_run :: bool
  opt_assume_yes :: bool
  opt_confirm_mainnet :: bool

text \<open>The signing key and its address, the plans' libraries, the random plan id, the JSON-RPC of a node by
  URL, contract files, and how long to wait for a confirmation.\<close>

record ('w, 'x, 'k, 'b, 'p, 't) cli_pay =
  cp_key_of :: "bytes \<Rightarrow> (string, 'k) result"
  cp_dev_key :: 'k
  cp_keys :: "'k key_lib"
  cp_lib :: "('k, 'b, 'x, 'p, 't) funding_lib"
  cp_plan_id :: "'w \<Rightarrow> 'w \<times> string"
  cp_call :: "string \<Rightarrow> string \<Rightarrow> json list \<Rightarrow> ('w, string, json) step"
  cp_address :: "'k \<Rightarrow> network \<Rightarrow> string"
  cp_read_file :: "string \<Rightarrow> (string, bytes) result"
  cp_sleep :: "nat \<Rightarrow> 'w \<Rightarrow> 'w"
  cp_wait_fuel :: nat
  cp_open_journal :: "string \<Rightarrow> (string, unit) result"

definition mainnet_guard :: "spend_options \<Rightarrow> (cli_error, unit) result" where
  "mainnet_guard opts =
     (if opt_network opts = Mainnet \<and> \<not> opt_confirm_mainnet opts \<and> \<not> opt_dry_run opts then Err MainnetNotConfirmed else Ok ())"

text \<open>The key of the carriers (\<open>main.rs\<close>); without the variable it is the well-known development key.\<close>

definition signing_key :: "'w cli_os \<Rightarrow> ('w, 'x, 'k, 'b, 'p, 't) cli_pay \<Rightarrow> (string, 'k) result" where
  "signing_key os cp =
     (case os_var os ''ZALKANES_SIGNING_KEY'' of
        None \<Rightarrow> Ok (cp_dev_key cp)
      | Some hex \<Rightarrow>
          and_then (ok_or ''decode ZALKANES_SIGNING_KEY hex'' (hex_decode (kl_hex (cp_keys cp)) hex)) (\<lambda>bs.
            if length bs \<noteq> 32 then Err ''signing key must be 32 bytes'' else cp_key_of cp bs))"

section \<open>Confirmation\<close>

definition disclosure :: "string list" where
  "disclosure =
     ['''', ''Privacy boundary: the ZALK message (contract id, opcode, calldata,'',
      ''and deployed code) is ALWAYS public on chain. Shielded funding hides'',
      ''only the SOURCE OF FUNDS, never the contract interaction.'']"

definition agrees :: "string \<Rightarrow> bool" where
  "agrees answer \<longleftrightarrow> trim answer \<in> {''y'', ''Y'', ''yes''}"

definition confirm ::
    "'w cli_os \<Rightarrow> hex_lib \<Rightarrow> spend_options \<Rightarrow> ('k, 'b, 'x, 'p) funding_plan \<Rightarrow> ('w, 'd, bool) cli_step" where
  "confirm os hx opts p =
     bind_step (print_lines (describe_funding hx p @ (if opt_funding opts \<noteq> ModeTransparent then disclosure else []))) (\<lambda>_.
       if opt_dry_run opts then
         bind_step (print_lines ['''', ''--dry-run: no proof, no signature, no broadcast.'']) (\<lambda>_. return_step False)
       else if opt_assume_yes opts then return_step True
       else
         bind_step (print_lines [''Proceed? [y/N] '']) (\<lambda>_.
         bind_step (ask_world (os_read_line os)) (\<lambda>answer. return_step (agrees answer))))"

section \<open>The source of the funds\<close>

datatype ('k, 'd, 'x, 'a) spend_source =
    FromTransparent "'k transparent_funding"
  | FromShielded "('d, 'x, 'a) sqlite_wallet" "'k option"

fun source_used :: "('k, 'd, 'x, 'a) spend_source \<Rightarrow> string" where
  "source_used (FromTransparent tf) = ''transparent''"
| "source_used (FromShielded wallet key) = ''shielded''"

type_synonym ('w, 'd, 'k) utxo_finder = "('w, 'd, 'k \<times> funding_utxo list) cli_step"

definition make_transparent :: "('w, 'd, 'k) utxo_finder \<Rightarrow> ('w, 'd, ('k, 'd, 'x, 'a) spend_source) cli_step" where
  "make_transparent utxos =
     bind_step utxos (\<lambda>(key, us). return_step (FromTransparent \<lparr>tf_key = key, tf_utxos = us\<rparr>))"

definition unlock_wallet ::
    "('w, 'd, 'x, 'a) cli_db \<Rightarrow> bytes \<Rightarrow> ('d, 'x, 'a) sqlite_wallet \<Rightarrow> ('w, 'd, ('d, 'x, 'a) sqlite_wallet) cli_step" where
  "unlock_wallet cd seed wallet =
     (case unlock_with_seed (cd_account cd) (cd_keys cd) seed wallet of
        (wallet, r) \<Rightarrow> lift_step (map_err WalletFailure (and_then r (\<lambda>_. Ok wallet))))"

definition make_shielded ::
    "'w cli_os \<Rightarrow> ('w, 'd, 'x, 'a) cli_db \<Rightarrow> ('w, 'x, 'k, 'b, 'p, 't) cli_pay \<Rightarrow> spend_options
      \<Rightarrow> ('w, 'd, ('k, 'd, 'x, 'a) spend_source) cli_step" where
  "make_shielded os cd cp opts =
     (let net = opt_network opts; dir = wallet_dir os net in
      bind_step (session_is_armed os dir) (\<lambda>armed.
      if \<not> armed then lift_step (Err SessionLocked)
      else
        bind_step (read_passphrase os ''Wallet passphrase: '') (\<lambda>pass.
        bind_step (unlock_keystore os dir net pass) (\<lambda>seed.
        bind_step (open_wallet cd dir net) (\<lambda>wallet.
        bind_step (unlock_wallet cd seed wallet) (\<lambda>wallet.
        bind_step (connect os cd (opt_zebra_url opts) net) (\<lambda>chain.
        bind_step (scan_wallet cd chain dir wallet) (\<lambda>wallet.
        bind_step (try_world NodeFailure (cc_canonical_tip chain)) (\<lambda>tip.
          return_step (FromShielded (set_canonical_tip tip wallet)
            (case signing_key os cp of Err _ \<Rightarrow> None | Ok key \<Rightarrow> Some key)))))))))))"

text \<open>The balance of the shielded wallet, 0 when it cannot be opened or read.\<close>

definition shielded_balance ::
    "('w, 'd, 'x, 'a) cli_db \<Rightarrow> string \<Rightarrow> network \<Rightarrow> ('w, 'd) machine \<Rightarrow> u64" where
  "shielded_balance cd dir net s =
     (case open_locked (open_at (mc_dbs s) (cd_account cd)) (db_path dir) (wallet_params net) of
        Err _ \<Rightarrow> 0
      | Ok wallet \<Rightarrow> (case wallet_balance (cd_notes cd) wallet of Err _ \<Rightarrow> 0 | Ok v \<Rightarrow> v))"

text \<open>\<open>&&\<close> reads the session only when the balance is enough.\<close>

definition shielded_covers ::
    "'w cli_os \<Rightarrow> string \<Rightarrow> u64 \<Rightarrow> u64 \<Rightarrow> ('w, 'd, bool) cli_step" where
  "shielded_covers os dir balance required =
     (if balance \<ge> required then session_is_armed os dir else return_step False)"

definition auto_source ::
    "'w cli_os \<Rightarrow> ('w, 'd, 'x, 'a) cli_db \<Rightarrow> ('w, 'x, 'k, 'b, 'p, 't) cli_pay \<Rightarrow> spend_options \<Rightarrow> u64
      \<Rightarrow> ('w, 'd, 'k) utxo_finder \<Rightarrow> ('w, 'd, ('k, 'd, 'x, 'a) spend_source) cli_step" where
  "auto_source os cd cp opts required utxos =
     (let dir = wallet_dir os (opt_network opts) in
      bind_step (read_machine (\<lambda>s. Ok (shielded_balance cd dir (opt_network opts) s))) (\<lambda>balance.
      bind_step (shielded_covers os dir balance required) (\<lambda>covers.
      if covers then
        bind_step (print_lines [''--funding auto: using the shielded wallet'']) (\<lambda>_. make_shielded os cd cp opts)
      else
        bind_step (session_is_armed os dir) (\<lambda>armed.
        bind_step (print_lines
          [''--funding auto: shielded wallet cannot cover '' @ decimal (unat required) @ '' zat (balance ''
             @ decimal (unat balance) @ '', armed: '' @ (if armed then ''true'' else ''false'') @ ''); falling back to transparent'']) (\<lambda>_.
          make_transparent utxos)))))"

definition build_source ::
    "'w cli_os \<Rightarrow> ('w, 'd, 'x, 'a) cli_db \<Rightarrow> ('w, 'x, 'k, 'b, 'p, 't) cli_pay \<Rightarrow> spend_options \<Rightarrow> u64
      \<Rightarrow> ('w, 'd, 'k) utxo_finder \<Rightarrow> ('w, 'd, ('k, 'd, 'x, 'a) spend_source) cli_step" where
  "build_source os cd cp opts required utxos =
     bind_step (read_machine (\<lambda>s. Ok (mc_dbs s (db_path (wallet_dir os (opt_network opts))) \<noteq> None))) (\<lambda>available.
       case opt_funding opts of
         ModeShielded \<Rightarrow> if \<not> available then lift_step (Err ShieldedNotConfigured) else make_shielded os cd cp opts
       | ModeTransparent \<Rightarrow> make_transparent utxos
       | ModeAuto \<Rightarrow>
           if available then auto_source os cd cp opts required utxos
           else
             bind_step (print_lines [''--funding auto: no shielded wallet configured; using transparent'']) (\<lambda>_.
               make_transparent utxos))"

section \<open>Planning\<close>

text \<open>Planning over shielded notes reserves them in the database, also when it fails afterwards.\<close>

fun plan_request ::
    "'w cli_os \<Rightarrow> ('w, 'd, 'x, 'a) cli_db \<Rightarrow> ('w, 'x, 'k, 'b, 'p, 't) cli_pay \<Rightarrow> ('k, 'd, 'x, 'a) spend_source \<Rightarrow> tx_request
      \<Rightarrow> fund_context \<Rightarrow> ('w, 'd, ('k, 'b, 'x, 'p) funding_plan) cli_step" where
  "plan_request os cd cp (FromTransparent tf) req ctx =
     bind_step (ask_world (cp_plan_id cp)) (\<lambda>plan_id.
       lift_step (map_err PlanFailure (and_then (transparent_plan_of (fb_wallet (cp_lib cp)) tf plan_id req ctx)
         (\<lambda>p. Ok (FundedTransparent p)))))"
| "plan_request os cd cp (FromShielded wallet key) req ctx =
     bind_step (ask_world (cp_plan_id cp)) (\<lambda>plan_id.
       case shielded_plan_of (fb_builder (cp_lib cp)) (fb_view (cp_lib cp)) (cp_keys cp)
           \<lparr>sf_wallet = sqlite_shielded_wallet (cd_account cd) (cd_scan cd) (cd_notes cd) (cd_keys cd) (cd_sha cd) (cd_message cd),
            sf_carrier_key = key\<rparr> plan_id req ctx wallet of
         (wallet, r) \<Rightarrow>
           bind_step (save_db (db_path (wallet_dir os (fc_network ctx))) (sq_db wallet)) (\<lambda>_.
             lift_step (map_err ShieldedPlanFailure (and_then r (\<lambda>p. Ok (FundedShielded p))))))"

section \<open>The pipeline\<close>

definition cli_journal :: "(journal, string, 'r) step \<Rightarrow> ('w, 'd, 'r) cli_step" where
  "cli_journal f s =
     (case journal_do f (mc_wallet s) of (w, r) \<Rightarrow> (s\<lparr>mc_wallet := w\<rparr>, map_err JournalFailure r))"

definition cli_stage ::
    "('w \<times> ('k, 'b, 'x, 'p) funding_plan, funding_error, 'r) step \<Rightarrow> ('k, 'b, 'x, 'p) funding_plan
      \<Rightarrow> ('w, 'd, ('k, 'b, 'x, 'p) funding_plan \<times> 'r) cli_step" where
  "cli_stage f p =
     try_world StageFailure (\<lambda>x. case f (x, p) of ((x, p), r) \<Rightarrow> (x, and_then r (\<lambda>v. Ok (p, v))))"

definition note_stages :: "string \<Rightarrow> journal_stage list \<Rightarrow> ('w, 'd, unit) cli_step" where
  "note_stages pid stages = foldr (\<lambda>st rest. bind_step (cli_journal (transition pid st None None)) (\<lambda>_. rest)) stages (return_step ())"

text \<open>\<open>NoopRelease\<close>: whatever the pool of the plan, no lock is released.\<close>

definition cli_wallet_env ::
    "('w, 'x, 'k, 'b, 'p, 't) cli_pay \<Rightarrow> string \<Rightarrow> ('w, 'x) chain_source \<Rightarrow> 'w wallet_env" where
  "cli_wallet_env cp url chain = zebra_env (cp_call cp url) (cc_canonical_tip chain) (\<lambda>_. return_step ())"

definition cli_broadcast ::
    "hex_lib \<Rightarrow> 'w wallet_env \<Rightarrow> verified_tx \<Rightarrow> ('w, 'd, broadcast_outcome) cli_step" where
  "cli_broadcast hx env tx s =
     (case broadcast_verified hx env tx (mc_wallet s) of (w, r) \<Rightarrow> (s\<lparr>mc_wallet := w\<rparr>, map_err JournalFailure r))"

definition report_outcome :: "hex_lib \<Rightarrow> verified_tx \<Rightarrow> broadcast_outcome \<Rightarrow> ('w, 'd, tx_id option) cli_step" where
  "report_outcome hx tx outcome =
     (let display = txid_display hx (vt_txid tx) in
      case outcome of
        OutcomeAccepted \<Rightarrow> bind_step (print_lines [''broadcast accepted: '' @ display]) (\<lambda>_. return_step (Some (vt_txid tx)))
      | OutcomeRejected msg \<Rightarrow> lift_step (Err (SendRejected msg))
      | OutcomeUnknown msg \<Rightarrow>
          bind_step (print_lines
            [''broadcast outcome UNKNOWN ('' @ msg @ '')'',
             ''txid '' @ display @ '' '' @ [CHR 0xE2, CHR 0x80, CHR 0x94] @ '' note reservations are intentionally held;'',
             ''run `zalkanes wallet status` after the next block to reconcile.'']) (\<lambda>_. return_step (Some (vt_txid tx))))"

text \<open>From the confirmed plan to the verified transaction.\<close>

definition authorize_plan ::
    "('w, 'x, 'k, 'b, 'p, 't) cli_pay \<Rightarrow> ('w, 'x) chain_source \<Rightarrow> ('k, 'b, 'x, 'p) funding_plan \<Rightarrow> ('w, 'd, verified_tx) cli_step" where
  "authorize_plan cp chain p =
     (let lib = cp_lib cp; src = cc_canonical_tip chain; pid = funding_plan_id p in
      bind_step (cli_journal (record_funding_plan lib p)) (\<lambda>_.
      bind_step (cli_stage (prove_funding lib src) p) (\<lambda>(p, _).
      bind_step (note_stages pid [Proving, Proven]) (\<lambda>_.
      bind_step (cli_stage (sign_funding lib src) p) (\<lambda>(p, _).
      bind_step (note_stages pid [Signing, Signed]) (\<lambda>_.
      bind_step (cli_stage (extract_funding lib src) p) (\<lambda>(p, tx).
      bind_step (note_stages pid [Extracted, Verified]) (\<lambda>_. return_step tx))))))))"

definition send_plan ::
    "'w cli_os \<Rightarrow> ('w, 'x, 'k, 'b, 'p, 't) cli_pay \<Rightarrow> spend_options \<Rightarrow> ('w, 'x) chain_source \<Rightarrow> ('k, 'b, 'x, 'p) funding_plan
      \<Rightarrow> ('w, 'd, tx_id option) cli_step" where
  "send_plan os cp opts chain p =
     (let hx = wb_hex (fb_wallet (cp_lib cp)) in
      bind_step (lift_step (map_err JournalFailure (cp_open_journal cp (wallet_dir os (opt_network opts))))) (\<lambda>_.
      bind_step (authorize_plan cp chain p) (\<lambda>tx.
      bind_step (lift_step (map_err NodeFailure (os_client os))) (\<lambda>_.
      bind_step (cli_broadcast hx (cli_wallet_env cp (opt_zebra_url opts) chain) tx) (report_outcome hx tx)))))"

definition confirm_and_send ::
    "'w cli_os \<Rightarrow> ('w, 'x, 'k, 'b, 'p, 't) cli_pay \<Rightarrow> spend_options \<Rightarrow> ('w, 'x) chain_source \<Rightarrow> string
      \<Rightarrow> ('k, 'b, 'x, 'p) funding_plan \<Rightarrow> ('w, 'd, tx_id option) cli_step" where
  "confirm_and_send os cp opts chain used p =
     bind_step (print_lines [''funding mode:       '' @ used @ '' (requested '' @ mode_str (opt_funding opts) @ '')'']) (\<lambda>_.
     bind_step (confirm os (wb_hex (fb_wallet (cp_lib cp))) opts p) (\<lambda>agreed.
       if \<not> agreed then return_step None else send_plan os cp opts chain p))"

definition execute_request ::
    "'w cli_os \<Rightarrow> ('w, 'd, 'x, 'a) cli_db \<Rightarrow> ('w, 'x, 'k, 'b, 'p, 't) cli_pay \<Rightarrow> spend_options \<Rightarrow> tx_request \<Rightarrow> u64
      \<Rightarrow> ('w, 'd, 'k) utxo_finder \<Rightarrow> ('w, 'd, tx_id option) cli_step" where
  "execute_request os cd cp opts req required utxos =
     bind_step (lift_step (mainnet_guard opts)) (\<lambda>_.
     bind_step (connect os cd (opt_zebra_url opts) (opt_network opts)) (\<lambda>chain.
     bind_step (build_source os cd cp opts required utxos) (\<lambda>source.
     bind_step (try_world NodeFailure (cc_canonical_tip chain)) (\<lambda>tip.
     bind_step (plan_request os cd cp source req (fund_context_new (opt_network opts) tip))
       (confirm_and_send os cp opts chain (source_used source))))))"

end
