(* ===== verification/Cli_Contract.thy ===== *)
theory Cli_Contract
  imports Cli_Spend Pipeline
begin

text \<open>
  The commands that deploy and call contracts (\<open>zalkanes-cli/src/main.rs\<close>), the JSON-RPC client
  they use (\<open>zalkanes-cli/src/rpc.rs\<close>) and the configuration they read. Progress lines are left
  out. Waiting for a confirmation on testnet takes fuel, since it may never come.
\<close>

section \<open>Configuration\<close>

definition network_from_env :: "'w cli_os \<Rightarrow> (cli_error, network) result" where
  "network_from_env os =
     (let name = (case os_var os ''ZALKANES_NETWORK'' of None \<Rightarrow> ''regtest'' | Some v \<Rightarrow> v) in
      if name \<in> {''mainnet'', ''main''} then Ok Mainnet
      else if name \<in> {''testnet'', ''test''} then Ok Testnet
      else if name = ''regtest'' then Ok Regtest
      else Err (ConfigFailure (''unknown ZALKANES_NETWORK: '' @ name)))"

definition zcash_rpc_url :: "'w cli_os \<Rightarrow> (cli_error, string) result" where
  "zcash_rpc_url os = ok_or (ConfigFailure ''ZALKANES_ZCASH_RPC_URL not set'') (os_var os ''ZALKANES_ZCASH_RPC_URL'')"

definition chain_config :: "'w cli_os \<Rightarrow> (cli_error, network \<times> string \<times> string option) result" where
  "chain_config os =
     and_then (network_from_env os) (\<lambda>net.
     and_then (ok_or (ConfigFailure ''ZALKANES_RPC_URL not set (e.g. http://127.0.0.1:18232 for Zebra)'') (os_var os ''ZALKANES_RPC_URL''))
       (\<lambda>url. Ok (net, url, os_var os ''ZALKANES_RPC_API_KEY'')))"

definition node_data_dir :: "'w cli_os \<Rightarrow> string option \<Rightarrow> string" where
  "node_data_dir os dir =
     (case dir of
        Some d \<Rightarrow> d
      | None \<Rightarrow> (case os_var os ''ZALKANES_DATA_DIR'' of Some d \<Rightarrow> d | None \<Rightarrow> ''./zalkanes-data''))"

text \<open>The mainnet check comes before the node's URL is read.\<close>

definition spend_options_of ::
    "'w cli_os \<Rightarrow> funding_mode \<Rightarrow> bool \<Rightarrow> bool \<Rightarrow> bool \<Rightarrow> (cli_error, spend_options) result" where
  "spend_options_of os funding dry_run yes confirm_mainnet =
     and_then (network_from_env os) (\<lambda>net.
       if net = Mainnet \<and> \<not> confirm_mainnet \<and> \<not> dry_run then Err MainnetNotConfirmed
       else
         and_then (zcash_rpc_url os) (\<lambda>url.
           Ok \<lparr>opt_network = net, opt_zebra_url = url, opt_funding = funding, opt_dry_run = dry_run,
               opt_assume_yes = yes, opt_confirm_mainnet = confirm_mainnet\<rparr>))"

definition regtest_activation_override :: "'w cli_os \<Rightarrow> network \<Rightarrow> (cli_error, u32 option) result" where
  "regtest_activation_override os net =
     (case os_var os ''ZALKANES_REGTEST_ACTIVATION_HEIGHT'' of
        None \<Rightarrow> Ok None
      | Some raw \<Rightarrow>
          if net \<noteq> Regtest then Err (ConfigFailure ''ZALKANES_REGTEST_ACTIVATION_HEIGHT is set but the network is not regtest'')
          else
            and_then (ok_or (ConfigFailure ''ZALKANES_REGTEST_ACTIVATION_HEIGHT is not a height'') (parse_number 32 (trim raw)))
              (\<lambda>height.
                if height = 0 then Err (ConfigFailure ''ZALKANES_REGTEST_ACTIVATION_HEIGHT must be >= 1'')
                else Ok (Some (of_nat height))))"

section \<open>The JSON-RPC client\<close>

text \<open>Indexing of a JSON value: \<open>Null\<close> where there is nothing.\<close>

definition json_at :: "string \<Rightarrow> json \<Rightarrow> json" where
  "json_at key v = (case json_get key v of None \<Rightarrow> JNull | Some x \<Rightarrow> x)"

definition json_elems :: "json \<Rightarrow> json list option" where
  "json_elems v = (case v of JArr xs \<Rightarrow> Some xs | _ \<Rightarrow> None)"

definition json_nth :: "nat \<Rightarrow> json \<Rightarrow> json" where
  "json_nth i v = (case json_elems v of None \<Rightarrow> JNull | Some xs \<Rightarrow> if i < length xs then xs ! i else JNull)"

definition unwrap_or :: "'a \<Rightarrow> 'a option \<Rightarrow> 'a" where
  "unwrap_or d x = (case x of None \<Rightarrow> d | Some v \<Rightarrow> v)"

text \<open>An answer with an error that is not null is an error.\<close>

definition cli_call ::
    "('w, 'x, 'k, 'b, 'p, 't) cli_pay \<Rightarrow> string \<Rightarrow> string \<Rightarrow> json list \<Rightarrow> ('w, 'd, json) cli_step" where
  "cli_call cp url method params =
     bind_step (try_world NodeFailure (cp_call cp url method params)) (\<lambda>v.
       case json_get ''error'' v of
         None \<Rightarrow> return_step (json_at ''result'' v)
       | Some err \<Rightarrow>
           if is_null err then return_step (json_at ''result'' v)
           else lift_step (Err (NodeFailure (''rpc '' @ method @ '' error''))))"

definition generate_to_address ::
    "('w, 'x, 'k, 'b, 'p, 't) cli_pay \<Rightarrow> string \<Rightarrow> u32 \<Rightarrow> string \<Rightarrow> ('w, 'd, string list) cli_step" where
  "generate_to_address cp url blocks addr =
     bind_step (cli_call cp url ''generatetoaddress'' [JInt (uint blocks), JStr addr]) (\<lambda>v.
       return_step (List.map_filter as_str (unwrap_or [] (json_elems v))))"

definition cli_get_block :: "('w, 'x, 'k, 'b, 'p, 't) cli_pay \<Rightarrow> string \<Rightarrow> string \<Rightarrow> ('w, 'd, json) cli_step" where
  "cli_get_block cp url hash = cli_call cp url ''getblock'' [JStr hash, JInt 1]"

definition get_raw_transaction :: "('w, 'x, 'k, 'b, 'p, 't) cli_pay \<Rightarrow> string \<Rightarrow> string \<Rightarrow> ('w, 'd, json) cli_step" where
  "get_raw_transaction cp url txid = cli_call cp url ''getrawtransaction'' [JStr txid, JInt 1]"

definition rpc_txid_to_internal :: "hex_lib \<Rightarrow> string \<Rightarrow> (cli_error, tx_id) result" where
  "rpc_txid_to_internal hx display =
     and_then (ok_or (InputFailure ''decode txid hex'') (hex_decode hx display)) (\<lambda>bs.
       if length bs \<noteq> 32 then Err (InputFailure ''txid wrong length'') else Ok (mk32 (rev bs)))"

definition pays_to :: "string \<Rightarrow> json \<Rightarrow> bool" where
  "pays_to addr vout \<longleftrightarrow>
     list_ex (\<lambda>a. as_str a = Some addr) (unwrap_or [] (json_elems (json_at ''addresses'' (json_at ''scriptPubKey'' vout))))"

definition mature_utxo :: "hex_lib \<Rightarrow> string \<Rightarrow> json \<Rightarrow> (cli_error, funding_utxo) result" where
  "mature_utxo hx txid vout =
     and_then (ok_or (InputFailure ''valueZat'') (as_u64 (json_at ''valueZat'' vout))) (\<lambda>value.
     and_then (ok_or (InputFailure ''n'') (as_u64 (json_at ''n'' vout))) (\<lambda>n.
     and_then (rpc_txid_to_internal hx txid) (\<lambda>hash.
       Ok \<lparr>fu_outpoint = \<lparr>ou_hash = hash, ou_n = ucast n\<rparr>, fu_value = value\<rparr>)))"

fun find_mature_utxo ::
    "('w, 'x, 'k, 'b, 'p, 't) cli_pay \<Rightarrow> string \<Rightarrow> string \<Rightarrow> string list \<Rightarrow> ('w, 'd, funding_utxo) cli_step" where
  "find_mature_utxo cp url addr [] = lift_step (Err (NodeFailure (''no mature UTXO found for '' @ addr)))"
| "find_mature_utxo cp url addr (hash # hashes) =
     bind_step (cli_get_block cp url hash) (\<lambda>block.
       if unwrap_or 0 (as_u64 (json_at ''confirmations'' block)) < 100 then find_mature_utxo cp url addr hashes
       else
         case as_str (json_nth 0 (json_at ''tx'' block)) of
           None \<Rightarrow> find_mature_utxo cp url addr hashes
         | Some txid \<Rightarrow>
             bind_step (get_raw_transaction cp url txid) (\<lambda>tx.
               case find (pays_to addr) (unwrap_or [] (json_elems (json_at ''vout'' tx))) of
                 Some vout \<Rightarrow> lift_step (mature_utxo (kl_hex (cp_keys cp)) txid vout)
               | None \<Rightarrow> find_mature_utxo cp url addr hashes))"

section \<open>Funding and confirmation\<close>

definition testnet_utxo :: "hex_lib \<Rightarrow> string \<Rightarrow> string \<Rightarrow> nat \<Rightarrow> json \<Rightarrow> (cli_error, funding_utxo) result" where
  "testnet_utxo hx addr txid vout tx =
     and_then (ok_or (InputFailure ''funding tx has no vout array'') (json_elems (json_at ''vout'' tx))) (\<lambda>vouts.
     and_then (ok_or (InputFailure (''funding tx has no vout '' @ decimal vout)) (if vout < length vouts then Some (vouts ! vout) else None)) (\<lambda>entry.
     and_then (ok_or (InputFailure ''funding vout missing valueZat'') (as_u64 (json_at ''valueZat'' entry))) (\<lambda>value.
       if \<not> pays_to addr entry then Err (InputFailure (''funding tx vout '' @ decimal vout @ '' does not pay '' @ addr))
       else
         and_then (rpc_txid_to_internal hx txid) (\<lambda>hash.
           Ok \<lparr>fu_outpoint = \<lparr>ou_hash = hash, ou_n = of_nat vout\<rparr>, fu_value = value\<rparr>))))"

definition obtain_funding_utxo ::
    "'w cli_os \<Rightarrow> ('w, 'x, 'k, 'b, 'p, 't) cli_pay \<Rightarrow> string \<Rightarrow> string \<Rightarrow> network \<Rightarrow> ('w, 'd, funding_utxo) cli_step" where
  "obtain_funding_utxo os cp url addr net =
     (case net of
        Regtest \<Rightarrow> bind_step (generate_to_address cp url 110 addr) (find_mature_utxo cp url addr)
      | Testnet \<Rightarrow>
          bind_step (lift_step (ok_or (ConfigFailure ''ZALKANES_FUNDING_TXID not set'') (os_var os ''ZALKANES_FUNDING_TXID''))) (\<lambda>txid.
          bind_step (lift_step (ok_or (ConfigFailure ''ZALKANES_FUNDING_VOUT must be a vout index'')
              (parse_number 32 (unwrap_or ''0'' (os_var os ''ZALKANES_FUNDING_VOUT''))))) (\<lambda>vout.
          bind_step (get_raw_transaction cp url txid) (\<lambda>tx.
            lift_step (testnet_utxo (kl_hex (cp_keys cp)) addr txid vout tx))))
      | Mainnet \<Rightarrow> lift_step (Err (ConfigFailure ''mainnet activation is not set (pre-audit)'')))"

definition confirmed_height :: "(cli_error, json) result \<Rightarrow> u64 option" where
  "confirmed_height r =
     (case r of
        Err _ \<Rightarrow> None
      | Ok tx \<Rightarrow>
          if unwrap_or 0 (as_u64 (json_at ''confirmations'' tx)) \<ge> 1
          then Some (unwrap_or 0 (as_u64 (json_at ''height'' tx))) else None)"

text \<open>On testnet, where errors of the node do not end the wait.\<close>

fun await_mined :: "nat \<Rightarrow> ('w, 'x, 'k, 'b, 'p, 't) cli_pay \<Rightarrow> string \<Rightarrow> string \<Rightarrow> ('w, 'd, u64) cli_step" where
  "await_mined 0 cp url txid = lift_step (Err OutOfWaitFuel)"
| "await_mined (Suc fuel) cp url txid = (\<lambda>s.
     case get_raw_transaction cp url txid s of
       (s, r) \<Rightarrow>
         (case confirmed_height r of
            Some h \<Rightarrow> (s, Ok h)
          | None \<Rightarrow> bind_step (ask_world (\<lambda>x. (cp_sleep cp 15 x, ()))) (\<lambda>_. await_mined fuel cp url txid) s))"

definition confirm_tx ::
    "('w, 'x, 'k, 'b, 'p, 't) cli_pay \<Rightarrow> string \<Rightarrow> string \<Rightarrow> string \<Rightarrow> network \<Rightarrow> ('w, 'd, u64) cli_step" where
  "confirm_tx cp url txid addr net =
     (case net of
        Regtest \<Rightarrow>
          bind_step (generate_to_address cp url 1 addr) (\<lambda>blocks.
            case blocks of
              [] \<Rightarrow> lift_step (Err (NodeFailure ''no block mined''))
            | hash # _ \<Rightarrow>
                bind_step (cli_get_block cp url hash) (\<lambda>block. return_step (unwrap_or 0 (as_u64 (json_at ''height'' block)))))
      | Testnet \<Rightarrow> await_mined (cp_wait_fuel cp) cp url txid
      | Mainnet \<Rightarrow> lift_step (Err (ConfigFailure ''mainnet activation is not set (pre-audit)'')))"

definition contract_fund :: "'w cli_os \<Rightarrow> ('w, 'x, 'k, 'b, 'p, 't) cli_pay \<Rightarrow> u32 \<Rightarrow> ('w, 'd, unit) cli_step" where
  "contract_fund os cp blocks =
     bind_step (lift_step (network_from_env os)) (\<lambda>net.
     bind_step (lift_step (map_err ConfigFailure (signing_key os cp))) (\<lambda>key.
       let addr = cp_address cp key net in
       if net \<noteq> Regtest then lift_step (Err (ConfigFailure ''contract fund only mines blocks on regtest''))
       else
         bind_step (lift_step (zcash_rpc_url os)) (\<lambda>url.
         bind_step (lift_step (map_err NodeFailure (os_client os))) (\<lambda>_.
         bind_step (generate_to_address cp url blocks addr) (\<lambda>mined.
           print_lines
             [''mined '' @ decimal (unat blocks) @ '' blocks to '' @ addr,
              ''latest block: '' @ (if mined = [] then [] else last mined)])))))"

section \<open>Waiting for the index\<close>

text \<open>\<open>wait_for_contract\<close> and \<open>wait_for_execution\<close>: up to 120 queries of the Zalkanes node; an error of
  the transport ends the wait.\<close>

fun poll_indexed ::
    "nat \<Rightarrow> ('w, 'x, 'k, 'b, 'p, 't) cli_pay \<Rightarrow> string \<Rightarrow> string \<Rightarrow> string \<Rightarrow> string \<Rightarrow> ('w, 'd, json) cli_step" where
  "poll_indexed 0 cp url method key what = lift_step (Err (NodeFailure (what @ '' was not indexed within 10 minutes'')))"
| "poll_indexed (Suc n) cp url method key what =
     bind_step (try_world NodeFailure (cp_call cp url method [JStr key])) (\<lambda>resp.
       let result = json_at ''result'' resp in
       if \<not> is_null result then return_step result
       else bind_step (ask_world (\<lambda>x. (cp_sleep cp 5 x, ()))) (\<lambda>_. poll_indexed n cp url method key what))"

definition zalkanes_url :: "'w cli_os \<Rightarrow> string" where
  "zalkanes_url os = unwrap_or ''http://127.0.0.1:3030'' (os_var os ''ZALKANES_URL'')"

definition wait_for_contract :: "'w cli_os \<Rightarrow> ('w, 'x, 'k, 'b, 'p, 't) cli_pay \<Rightarrow> string \<Rightarrow> ('w, 'd, json) cli_step" where
  "wait_for_contract os cp cid = poll_indexed 120 cp (zalkanes_url os) ''zalkanes_getContract'' cid (''contract '' @ cid)"

definition wait_for_execution :: "'w cli_os \<Rightarrow> ('w, 'x, 'k, 'b, 'p, 't) cli_pay \<Rightarrow> string \<Rightarrow> ('w, 'd, json) cli_step" where
  "wait_for_execution os cp txid = poll_indexed 120 cp (zalkanes_url os) ''zalkanes_getExecution'' txid (''execution for '' @ txid)"

definition when_waiting :: "bool \<Rightarrow> ('w, 'd, json) cli_step \<Rightarrow> ('w, 'd, unit) cli_step" where
  "when_waiting wait f = (if wait then bind_step f (\<lambda>_. return_step ()) else return_step ())"

section \<open>Deploying\<close>

text \<open>The transparent UTXO that funds PREPARE and CALL.\<close>

definition one_utxo ::
    "'w cli_os \<Rightarrow> ('w, 'x, 'k, 'b, 'p, 't) cli_pay \<Rightarrow> spend_options \<Rightarrow> 'k \<Rightarrow> ('w, 'd, 'k) utxo_finder" where
  "one_utxo os cp opts key =
     bind_step (obtain_funding_utxo os cp (opt_zebra_url opts) (cp_address cp key (opt_network opts)) (opt_network opts))
       (\<lambda>utxo. return_step (key, [utxo]))"

definition deploy_payload :: "sha \<Rightarrow> bytes \<Rightarrow> bytes list \<Rightarrow> bytes" where
  "deploy_payload sha wasm chunks = encode_deploy (deploy_message_for sha wasm chunks)"

text \<open>The carriers' values: the fee of a probe plan over placeholders, and a margin, in equal shares.
  The sum wraps around in the release profile.\<close>

definition probe_fee :: "('k, 'b) wallet_lib \<Rightarrow> 'k \<Rightarrow> bytes list \<Rightarrow> bytes \<Rightarrow> (tx_error, u64) result" where
  "probe_fee lib key chunks op_return =
     and_then (deploy_plan (wb_hash160 lib) (sl_pubkey (wb_signing lib)) key
         (map (\<lambda>i. \<lparr>ou_hash = mk32 (replicate 32 0xEE), ou_n = of_nat i\<rparr>) [0 ..< length chunks])
         (replicate (length chunks) 1000000000) chunks op_return)
       (\<lambda>probe. Ok (pt_fee probe))"

definition carrier_each :: "u64 \<Rightarrow> nat \<Rightarrow> u64" where
  "carrier_each fee n = of_nat (div_ceil (unat (fee + 50000)) (unat (of_nat n :: u64)))"

definition carrier_outpoints :: "tx_id \<Rightarrow> bytes list \<Rightarrow> outpoint list" where
  "carrier_outpoints txid chunks = map (\<lambda>i. \<lparr>ou_hash = txid, ou_n = of_nat i\<rparr>) [0 ..< length chunks]"

definition carrier_utxos :: "outpoint list \<Rightarrow> u64 list \<Rightarrow> funding_utxo list" where
  "carrier_utxos outpoints values = map (\<lambda>(outpoint, v). \<lparr>fu_outpoint = outpoint, fu_value = v\<rparr>) (zip outpoints values)"

text \<open>The second stage, over the carriers of the mined PREPARE.\<close>

definition deploy_stage ::
    "'w cli_os \<Rightarrow> ('w, 'd, 'x, 'a) cli_db \<Rightarrow> ('w, 'x, 'k, 'b, 'p, 't) cli_pay \<Rightarrow> blake \<Rightarrow> spend_options \<Rightarrow> bool \<Rightarrow> 'k \<Rightarrow> bytes list
      \<Rightarrow> bytes \<Rightarrow> u64 list \<Rightarrow> code_hash \<Rightarrow> tx_id \<Rightarrow> ('w, 'd, contract_id option) cli_step" where
  "deploy_stage os cd cp blake opts wait key chunks op_return values ch prepare_txid =
     (let url = opt_zebra_url opts; net = opt_network opts; outpoints = carrier_outpoints prepare_txid chunks in
      bind_step (execute_request os cd cp (opts\<lparr>opt_funding := ModeTransparent\<rparr>) (ReqDeploy chunks outpoints values op_return) 0
          (return_step (key, carrier_utxos outpoints values))) (\<lambda>sent.
        case sent of
          None \<Rightarrow> return_step None
        | Some txid \<Rightarrow>
            bind_step (confirm_tx cp url (txid_display (kl_hex (cp_keys cp)) txid) (cp_address cp key net) net) (\<lambda>height.
              let cid = derive_contract_id blake net txid 0 ch in
              bind_step (when_waiting wait (wait_for_contract os cp (hex_encode (kl_hex (cp_keys cp)) (bytes_of cid)))) (\<lambda>_.
                return_step (Some cid)))))"

text \<open>\<open>contract_deploy\<close>: the id of the contract, when both stages were sent and mined.\<close>

definition contract_deploy ::
    "'m wasm_engine \<Rightarrow> blake \<Rightarrow> 'w cli_os \<Rightarrow> ('w, 'd, 'x, 'a) cli_db \<Rightarrow> ('w, 'x, 'k, 'b, 'p, 't) cli_pay \<Rightarrow> string \<Rightarrow> spend_options
      \<Rightarrow> bool \<Rightarrow> ('w, 'd, contract_id option) cli_step" where
  "contract_deploy eng blake os cd cp wasm_path opts wait =
     (let lib = fb_wallet (cp_lib cp); url = opt_zebra_url opts; net = opt_network opts in
      bind_step (lift_step (map_err NodeFailure (os_client os))) (\<lambda>_.
      bind_step (lift_step (map_err ConfigFailure (signing_key os cp))) (\<lambda>key.
      bind_step (lift_step (map_err FileSystemFailed (cp_read_file cp wasm_path))) (\<lambda>wasm.
      bind_step (lift_step (map_err InvalidContract (validate_module eng wasm))) (\<lambda>_.
      bind_step (lift_step (map_err SizingFailure (split_chunks wasm))) (\<lambda>chunks.
        let op_return = deploy_payload (wb_sha lib) wasm chunks in
        bind_step (lift_step (map_err SizingFailure (probe_fee lib key chunks op_return))) (\<lambda>fee.
          let values = replicate (length chunks) (carrier_each fee (length chunks)) in
          bind_step (execute_request os cd cp opts (ReqPrepare values) (sum_list values + 50000) (one_utxo os cp opts key)) (\<lambda>sent.
            case sent of
              None \<Rightarrow> return_step None
            | Some txid \<Rightarrow>
                bind_step (confirm_tx cp url (txid_display (kl_hex (cp_keys cp)) txid) (cp_address cp key net) net) (\<lambda>_.
                  deploy_stage os cd cp blake opts wait key chunks op_return values (wb_sha lib wasm) txid)))))))))"

section \<open>Calling\<close>

definition call_payload :: "hex_lib \<Rightarrow> string \<Rightarrow> u16 \<Rightarrow> string \<Rightarrow> (cli_error, bytes) result" where
  "call_payload hx contract_id opcode input_hex =
     and_then (ok_or (InputFailure ''contract id must be 32 hex bytes'')
         (case hex_decode hx contract_id of None \<Rightarrow> None | Some bs \<Rightarrow> if length bs = 32 then Some (mk32 bs) else None)) (\<lambda>id.
     and_then (ok_or (InputFailure ''input must be hex'') (hex_decode hx input_hex)) (\<lambda>input.
       if length input > unat MAX_CALL_INLINE_BYTES
       then Err (InputFailure (''input is '' @ decimal (length input) @ '' bytes but an inline CALL carries at most ''
         @ decimal (unat MAX_CALL_INLINE_BYTES) @ '' bytes''))
       else Ok (encode_call \<lparr>cm_contract_id = id, cm_opcode = opcode, cm_input = input\<rparr>)))"

text \<open>\<open>contract_call\<close>: the transaction and its height, when it was sent and mined.\<close>

definition contract_call ::
    "'w cli_os \<Rightarrow> ('w, 'd, 'x, 'a) cli_db \<Rightarrow> ('w, 'x, 'k, 'b, 'p, 't) cli_pay \<Rightarrow> string \<Rightarrow> u16 \<Rightarrow> string \<Rightarrow> spend_options
      \<Rightarrow> bool \<Rightarrow> ('w, 'd, (tx_id \<times> u64) option) cli_step" where
  "contract_call os cd cp contract_id opcode input_hex opts wait =
     (let hx = kl_hex (cp_keys cp); url = opt_zebra_url opts; net = opt_network opts in
      bind_step (lift_step (map_err NodeFailure (os_client os))) (\<lambda>_.
      bind_step (lift_step (map_err ConfigFailure (signing_key os cp))) (\<lambda>key.
      bind_step (lift_step (call_payload hx contract_id opcode input_hex)) (\<lambda>op_return.
      bind_step (execute_request os cd cp opts (ReqCall op_return) 50000 (one_utxo os cp opts key)) (\<lambda>sent.
        case sent of
          None \<Rightarrow> return_step None
        | Some txid \<Rightarrow>
            bind_step (confirm_tx cp url (txid_display hx txid) (cp_address cp key net) net) (\<lambda>height.
            bind_step (when_waiting wait (wait_for_execution os cp (txid_display hx txid))) (\<lambda>_.
              return_step (Some (txid, height)))))))))"

end
