(* ===== verification/Cli_Props.thy ===== *)
theory Cli_Props
  imports Cli_Contract Broadcast_Props "HOL-Library.Sublist"
begin

text \<open>
  What the funded commands promise: nothing is sent without consent, the chosen pool is the pool that
  is used, and a locked wallet spends nothing.
\<close>

section \<open>Steps that send nothing\<close>

text \<open>Every state the step reaches is related to the one it started from.\<close>

definition keeps :: "('s \<Rightarrow> 's \<Rightarrow> bool) \<Rightarrow> ('s, 'e, 'r) step \<Rightarrow> bool" where
  "keeps R f \<longleftrightarrow> (\<forall>s. R s (fst (f s)))"

lemma keepsD: "keeps R f \<Longrightarrow> f s = (s', r) \<Longrightarrow> R s s'"
  by (metis keeps_def fst_conv)

lemma keeps_step_then:
  assumes "transp R" "keeps R f" "\<And>r. keeps R (g r)"
  shows "keeps R (\<lambda>s. case f s of (s1, r) \<Rightarrow> g r s1)"
  using assms unfolding keeps_def by (auto split: prod.split) (metis fst_conv transpD)

lemma keeps_bind:
  assumes "transp R" "keeps R f" "\<And>x. keeps R (g x)"
  shows "keeps R (bind_step f g)"
proof -
  have "R s s'" if "bind_step f g s = (s', r)" for s s' r
    using that
  proof (cases rule: bind_stepE)
    case (ok s1 x)
    then show ?thesis using keepsD [OF assms(2) ok(1)] keepsD [OF assms(3) ok(2)] transpD [OF assms(1)] by blast
  qed (use keepsD [OF assms(2)] in blast)
  then show ?thesis by (simp add: keeps_def) (metis prod.collapse)
qed

text \<open>A quiet step leaves the journal as it is, sends nothing, and only adds to what is printed.\<close>

definition only_prints :: "('w, 'd) machine \<Rightarrow> ('w, 'd) machine \<Rightarrow> bool" where
  "only_prints s s' \<longleftrightarrow> wl_journal (mc_wallet s') = wl_journal (mc_wallet s)
     \<and> wl_events (mc_wallet s') = wl_events (mc_wallet s) \<and> prefix (mc_out s) (mc_out s')"

abbreviation quiet :: "('w, 'd, 'r) cli_step \<Rightarrow> bool" where
  "quiet f \<equiv> keeps only_prints f"

named_theorems quiet_steps

lemma transp_only_prints: "transp only_prints"
  by (auto simp: transp_def only_prints_def)

lemmas quiet_step_then = keeps_step_then [OF transp_only_prints]

lemma quiet_bind [quiet_steps]: "quiet f \<Longrightarrow> (\<And>x. quiet (g x)) \<Longrightarrow> quiet (bind_step f g)"
  by (rule keeps_bind [OF transp_only_prints])

lemma quiet_pure [quiet_steps]:
  "quiet (return_step x)" "quiet (lift_step r)" "quiet (read_machine h)" "quiet (print_lines ls)" "quiet (ask_world w)"
  "quiet (save_db path d)"
  by (auto simp: keeps_def only_prints_def read_machine_def print_lines_def ask_world_def save_db_def split: prod.splits)

lemma quiet_if [quiet_steps]: "quiet f \<Longrightarrow> quiet g \<Longrightarrow> quiet (if b then f else g)"
  by simp

lemma quiet_option [quiet_steps]: "quiet f \<Longrightarrow> (\<And>y. quiet (g y)) \<Longrightarrow> quiet (case x of None \<Rightarrow> f | Some y \<Rightarrow> g y)"
  by (simp split: option.split)

lemma quiet_pair [quiet_steps]: "(\<And>a b. quiet (g a b)) \<Longrightarrow> quiet (case p of (a, b) \<Rightarrow> g a b)"
  by (simp split: prod.split)

lemma quiet_sum [quiet_steps]: "(\<And>e. quiet (f e)) \<Longrightarrow> (\<And>y. quiet (g y)) \<Longrightarrow> quiet (case x of Inl e \<Rightarrow> f e | Inr y \<Rightarrow> g y)"
  by (simp split: sum.split)

lemma quiet_list [quiet_steps]: "quiet f \<Longrightarrow> (\<And>y ys. quiet (g y ys)) \<Longrightarrow> quiet (case x of [] \<Rightarrow> f | y # ys \<Rightarrow> g y ys)"
  by (simp split: list.split)

lemma quiet_try [quiet_steps]: "quiet (try_world e f)"
  unfolding try_world_def by (rule quiet_steps)+

lemma quiet_session [quiet_steps]:
  "quiet (session_is_armed os dir)" "quiet (read_passphrase os prompt)" "quiet (unlock_keystore os dir net pass)"
  "quiet (open_wallet cd dir net)" "quiet (connect os cd url net)" "quiet (scan_wallet cd chain dir wallet)"
  "quiet (unlock_wallet cd seed wallet)"
  unfolding session_is_armed_def read_passphrase_def unlock_keystore_def open_wallet_def connect_def scan_wallet_def unlock_wallet_def
  by (rule quiet_steps)+

lemma quiet_sources [quiet_steps]:
  "quiet utxos \<Longrightarrow> quiet (make_transparent utxos)" "quiet (make_shielded os cd cp opts)"
  "quiet (shielded_covers os dir balance required)"
  unfolding make_transparent_def make_shielded_def shielded_covers_def Let_def
  by (rule quiet_steps | assumption)+

lemma quiet_build [quiet_steps]:
  "quiet utxos \<Longrightarrow> quiet (auto_source os cd cp opts required utxos)"
  "quiet utxos \<Longrightarrow> quiet (build_source os cd cp opts required utxos)"
proof -
  show auto: "quiet (auto_source os cd cp opts required utxos)" if "quiet utxos"
    unfolding auto_source_def Let_def using that by - (rule quiet_steps | assumption)+
  show "quiet (build_source os cd cp opts required utxos)" if "quiet utxos"
    unfolding build_source_def
    by (cases "opt_funding opts") (simp_all, (rule quiet_steps auto that)+)
qed

lemma quiet_plan [quiet_steps]: "quiet (plan_request os cd cp source req ctx)" "quiet (confirm os hx opts p)"
proof -
  show "quiet (plan_request os cd cp source req ctx)"
    by (cases source) (simp_all, (rule quiet_steps)+)
  show "quiet (confirm os hx opts p)"
    unfolding confirm_def by (rule quiet_steps)+
qed

lemma quiet_calls [quiet_steps]:
  "quiet (cli_call cp url m ps)" "quiet (generate_to_address cp url blocks addr)" "quiet (cli_get_block cp url hash)"
  "quiet (get_raw_transaction cp url txid)"
proof -
  show call: "quiet (cli_call cp url m ps)" for m ps
    unfolding cli_call_def by (rule quiet_steps)+
  show "quiet (generate_to_address cp url blocks addr)" "quiet (cli_get_block cp url hash)" "quiet (get_raw_transaction cp url txid)"
    unfolding generate_to_address_def cli_get_block_def get_raw_transaction_def by (rule quiet_steps call)+
qed

lemma quiet_find [quiet_steps]: "quiet (find_mature_utxo cp url addr hashes)"
proof (induction hashes)
  case (Cons h hashes)
  show ?case unfolding find_mature_utxo.simps by (rule quiet_steps Cons)+
qed (simp add: keeps_def only_prints_def)

lemma quiet_one_utxo [quiet_steps]: "quiet (one_utxo os cp opts key)"
  unfolding one_utxo_def obtain_funding_utxo_def
  by (cases "opt_network opts") (simp_all, (rule quiet_steps)+)

lemma quiet_await [quiet_steps]: "quiet (await_mined fuel cp url txid)"
proof (induction fuel)
  case (Suc fuel)
  have eq: "await_mined (Suc fuel) cp url txid = (\<lambda>s. case get_raw_transaction cp url txid s of (s1, r) \<Rightarrow>
      (case confirmed_height r of Some h \<Rightarrow> return_step h | None \<Rightarrow>
        bind_step (ask_world (\<lambda>x. (cp_sleep cp 15 x, ()))) (\<lambda>_. await_mined fuel cp url txid)) s1)"
    by (rule ext) (simp split: prod.split option.split)
  show ?case unfolding eq by (rule quiet_step_then quiet_steps Suc)+
qed (simp add: keeps_def only_prints_def)

lemma quiet_confirm_tx [quiet_steps]: "quiet (confirm_tx cp url txid addr net)"
  unfolding confirm_tx_def by (cases net) (simp_all, (rule quiet_steps)+)

end
