(* ===== verification/Cli_Consent.thy ===== *)
theory Cli_Consent
  imports Cli_Props
begin

text \<open>From the consent of the user to the one transaction that is sent for it.\<close>

section \<open>The plan keeps its id\<close>

definition keeps_id :: "('p \<Rightarrow> string) \<Rightarrow> (string \<Rightarrow> 'r \<Rightarrow> bool) \<Rightarrow> ('w \<times> 'p, 'e, 'r) step \<Rightarrow> bool" where
  "keeps_id pid says f \<longleftrightarrow> (\<forall>x p. pid (snd (fst (f (x, p)))) = pid p \<and> (\<forall>v. snd (f (x, p)) = Ok v \<longrightarrow> says (pid p) v))"

abbreviation any_result :: "string \<Rightarrow> 'r \<Rightarrow> bool" where
  "any_result i v \<equiv> True"

lemma keeps_idD:
  "keeps_id pid says f \<Longrightarrow> f (x, p) = ((x', p'), r) \<Longrightarrow> pid p' = pid p \<and> (\<forall>v. r = Ok v \<longrightarrow> says (pid p) v)"
  unfolding keeps_id_def by (metis fst_conv snd_conv)

lemma keeps_id_bind:
  assumes "keeps_id pid any_result f" "\<And>v. keeps_id pid says (g v)"
  shows "keeps_id pid says (bind_step f g)"
proof -
  have "pid p' = pid p \<and> (\<forall>v. r = Ok v \<longrightarrow> says (pid p) v)" if "bind_step f g (x, p) = ((x', p'), r)" for x p x' p' r
    using that
  proof (cases rule: bind_stepE)
    case (ok s1 v)
    then obtain x1 p1 where s1: "s1 = (x1, p1)" by (cases s1)
    then show ?thesis using keeps_idD [OF assms(1)] keeps_idD [OF assms(2)] ok by metis
  qed (use keeps_idD [OF assms(1)] in auto)
  then show ?thesis by (simp add: keeps_id_def) (metis prod.collapse)
qed

lemma keeps_id_fresh:
  assumes "\<And>tip. keeps_id tp_plan_id says (f tip)"
  shows "keeps_id tp_plan_id says (if_fresh src f)"
  unfolding if_fresh_def
  by (intro keeps_id_bind assms) (auto simp: keeps_id_def query_tip_def on_plan_def split: prod.splits)

lemma keeps_id_shielded_fresh:
  assumes "\<And>tip. keeps_id zp_plan_id says (f tip)"
  shows "keeps_id zp_plan_id says (shielded_fresh src f)"
  using assms by (simp add: keeps_id_def shielded_fresh_def split: prod.split sum.split)

lemma transparent_stages_keep_id:
  "keeps_id tp_plan_id any_result (prove_plan src)" "keeps_id tp_plan_id any_result (sign_plan lib src)"
  "keeps_id tp_plan_id (\<lambda>i tx. vt_plan_id tx = i) (extract_verified lib src)"
proof -
  show "keeps_id tp_plan_id any_result (prove_plan src)" "keeps_id tp_plan_id any_result (sign_plan lib src)"
    unfolding prove_plan_def sign_plan_def
    by (intro keeps_id_fresh; simp add: keeps_id_def on_plan_def prove_transparent_def sign_transparent_def split: sum.split)+
  have "keeps_id tp_plan_id any_result (extract_plan src)"
    unfolding extract_plan_def
    by (intro keeps_id_fresh) (simp add: keeps_id_def on_plan_def extract_transparent_def split: sum.split option.split)
  then show "keeps_id tp_plan_id (\<lambda>i tx. vt_plan_id tx = i) (extract_verified lib src)"
    unfolding extract_verified_def
    by (intro keeps_id_fresh keeps_id_bind) (auto simp: keeps_id_def on_plan_def and_then_Ok_iff)
qed

lemma take_pczt_keeps_id:
  assumes "\<And>pczt p p' r. work pczt p = (p', r) \<Longrightarrow> zp_plan_id p' = zp_plan_id p"
  shows "keeps_id zp_plan_id any_result (on_shielded (take_pczt st work))"
proof -
  have "zp_plan_id (fst (take_pczt st work p)) = zp_plan_id p" for p
    using assms [of _ "p\<lparr>zp_pczt := None\<rparr>"]
    by (auto simp: take_pczt_def split: sum.split option.split) (metis prod.collapse)
  then show ?thesis by (simp add: keeps_id_def on_shielded_def split: prod.split) (metis fst_conv)
qed

lemma shielded_stages_keep_id:
  "keeps_id zp_plan_id any_result (prove_shielded_plan rl src)" "keeps_id zp_plan_id any_result (sign_shielded_plan rl src)"
  "keeps_id zp_plan_id (\<lambda>i tx. vt_plan_id tx = i) (extract_verified_shielded bl vl rl src)"
proof -
  show "keeps_id zp_plan_id any_result (prove_shielded_plan rl src)"
    unfolding prove_shielded_plan_def shielded_prove_def
    by (intro keeps_id_shielded_fresh take_pczt_keeps_id) (auto split: sum.splits)
  show "keeps_id zp_plan_id any_result (sign_shielded_plan rl src)"
    unfolding sign_shielded_plan_def shielded_sign_def
    by (intro keeps_id_shielded_fresh take_pczt_keeps_id) (auto split: sum.splits)
  have "keeps_id zp_plan_id any_result (extract_shielded_plan bl vl rl src)"
    unfolding extract_shielded_plan_def shielded_extract_def
    by (intro keeps_id_shielded_fresh take_pczt_keeps_id) (auto simp: extract_from_verified_def split: sum.splits)
  then show "keeps_id zp_plan_id (\<lambda>i tx. vt_plan_id tx = i) (extract_verified_shielded bl vl rl src)"
    unfolding extract_verified_shielded_def
    by (intro keeps_id_shielded_fresh keeps_id_bind) (auto simp: keeps_id_def on_shielded_def and_then_Ok_iff)
qed

lemma funding_stages_keep_id:
  "keeps_id funding_plan_id any_result (prove_funding fl src)" "keeps_id funding_plan_id any_result (sign_funding fl src)"
  "keeps_id funding_plan_id (\<lambda>i tx. vt_plan_id tx = i) (extract_funding fl src)"
proof -
  have on: "funding_plan_id (snd (fst (on_transparent f x p))) = tp_plan_id p
      \<and> (\<forall>v. snd (on_transparent f x p) = Ok v \<longrightarrow> says (tp_plan_id p) v)"
      if "keeps_id tp_plan_id says f" for says x p and f :: "('w \<times> ('k, 'b) transparent_plan, plan_error, 'r) step"
    using keeps_idD [OF that, of x p] by (auto simp: on_transparent_def split: prod.split)
  have on': "funding_plan_id (snd (fst (on_shielded_plan f x p))) = zp_plan_id p
      \<and> (\<forall>v. snd (on_shielded_plan f x p) = Ok v \<longrightarrow> says (zp_plan_id p) v)"
      if "keeps_id zp_plan_id says f" for says x p and f :: "('w \<times> ('x, 'p) shielded_plan, stage_error, 'r) step"
    using keeps_idD [OF that, of x p] by (auto simp: on_shielded_plan_def split: prod.split)
  show "keeps_id funding_plan_id any_result (prove_funding fl src)" "keeps_id funding_plan_id any_result (sign_funding fl src)"
    "keeps_id funding_plan_id (\<lambda>i tx. vt_plan_id tx = i) (extract_funding fl src)"
    unfolding keeps_id_def [of funding_plan_id]
    by (intro allI, rename_tac x p, case_tac p; simp add: on [OF transparent_stages_keep_id(1)] on [OF transparent_stages_keep_id(2)]
        on [OF transparent_stages_keep_id(3)] on' [OF shielded_stages_keep_id(1)] on' [OF shielded_stages_keep_id(2)]
        on' [OF shielded_stages_keep_id(3)])+
qed

section \<open>The journal on the way\<close>

definition sends_nothing :: "('w, 'd) machine \<Rightarrow> ('w, 'd) machine \<Rightarrow> bool" where
  "sends_nothing s s' \<longleftrightarrow> wl_events (mc_wallet s') = wl_events (mc_wallet s) \<and> mc_out s' = mc_out s"

lemma transp_sends_nothing: "transp sends_nothing"
  by (auto simp: transp_def sends_nothing_def)

lemmas eventless_bind = keeps_bind [OF transp_sends_nothing]

lemma eventless_steps:
  "keeps sends_nothing (return_step x)" "keeps sends_nothing (cli_journal f)" "keeps sends_nothing (cli_stage st p)"
  by (auto simp: keeps_def sends_nothing_def cli_journal_def cli_stage_def try_world_def ask_world_def bind_step_def
      journal_do_def split: prod.splits)

lemma eventless_note: "keeps sends_nothing (note_stages pid stages)"
  unfolding note_stages_def
proof (induction stages)
  case Nil
  show ?case by (simp add: keeps_def sends_nothing_def)
next
  case (Cons st stages)
  show ?case unfolding foldr_Cons comp_def by (rule eventless_bind [OF eventless_steps(2) Cons])
qed

lemma eventless_authorize: "keeps sends_nothing (authorize_plan cp chain p)"
  unfolding authorize_plan_def Let_def
  by (auto intro!: eventless_bind eventless_steps eventless_note split: prod.split)

lemma cli_stage_keeps_id:
  assumes "cli_stage f p s = (s', Ok (p', v))" "keeps_id funding_plan_id says f"
  shows "funding_plan_id p' = funding_plan_id p \<and> says (funding_plan_id p) v"
  using assms(1) keeps_idD [OF assms(2), of "wl_world (mc_wallet s)" p]
  by (auto simp: cli_stage_def try_world_def ask_world_def bind_step_def split: prod.splits sum.splits)

lemma authorize_plan_id:
  assumes "authorize_plan cp chain p s = (s', Ok tx)"
  shows "vt_plan_id tx = funding_plan_id p"
  using assms unfolding authorize_plan_def Let_def
  by (auto elim!: bind_stepE dest!: cli_stage_keeps_id [OF _ funding_stages_keep_id(1)]
      cli_stage_keeps_id [OF _ funding_stages_keep_id(2)] cli_stage_keeps_id [OF _ funding_stages_keep_id(3)])

section \<open>The broadcast\<close>

text \<open>The events of one broadcast of the plan \<open>pid\<close>: the send with the row on disk at \<open>Broadcasting\<close>, and
  the release after a rejection.\<close>

definition sent_once :: "hex_lib \<Rightarrow> verified_tx \<Rightarrow> wallet_event list \<Rightarrow> bool" where
  "sent_once hx tx es \<longleftrightarrow>
     (\<exists>rows more. es = Sent (hex_encode hx (vt_bytes tx)) rows # more \<and> row_stage_is rows (vt_plan_id tx) Broadcasting
        \<and> (more = [] \<or> (\<exists>rows'. more = [Released (vt_plan_id tx) rows'] \<and> row_stage_is rows' (vt_plan_id tx) Rejected)))"

lemma cli_broadcast_events:
  assumes "cli_broadcast hx env tx s = (s', r)"
  shows "mc_out s' = mc_out s \<and> (\<exists>es. wl_events (mc_wallet s') = wl_events (mc_wallet s) @ es
    \<and> (es = [] \<and> (\<forall>x. r \<noteq> Ok x) \<or> sent_once hx tx es))"
proof -
  obtain w r' where b: "broadcast_verified hx env tx (mc_wallet s) = (w, r')" "s' = s\<lparr>mc_wallet := w\<rparr>" "r = map_err JournalFailure r'"
    using assms by (auto simp: cli_broadcast_def split: prod.splits)
  obtain es where es: "wl_events w = wl_events (mc_wallet s) @ es" "es = [] \<and> (\<forall>x. r' \<noteq> Ok x) \<or> sent_once hx tx es"
    using broadcast_trace [OF b(1)]
  proof (elim exE conjE disjE, goal_cases)
    case (1 es)
    then show ?case by blast
  next
    case (2 es rows row more res)
    have "row_stage_is rows (vt_plan_id tx) Broadcasting" using 2(5,6) by (simp add: row_stage_is_def)
    then have "sent_once hx tx es" using 2(3,10) by (simp add: sent_once_def)
    with 2(2) show ?case by (intro 2(1)) auto
  next
    case (3 es rows row more res rows' code msg)
    have "row_stage_is rows (vt_plan_id tx) Broadcasting" using 3(5,6) by (simp add: row_stage_is_def)
    then have "sent_once hx tx es" using 3(3,10,12) by (auto simp: sent_once_def)
    with 3(2) show ?case by (intro 3(1)) auto
  qed
  then show ?thesis using b by auto
qed

lemma report_outcome_events:
  assumes "report_outcome hx tx outcome s = (s', r)"
  shows "only_prints s s' \<and> (\<forall>txid. r = Ok (Some txid) \<longrightarrow> txid = vt_txid tx) \<and> r \<noteq> Ok None"
  using assms
  by (cases outcome) (auto simp: report_outcome_def Let_def bind_step_def print_lines_def only_prints_def)

section \<open>Consent\<close>

definition consented :: "'w cli_os \<Rightarrow> spend_options \<Rightarrow> bool" where
  "consented os opts \<longleftrightarrow> \<not> opt_dry_run opts \<and> (opt_network opts = Mainnet \<longrightarrow> opt_confirm_mainnet opts)
     \<and> (opt_assume_yes opts \<or> (\<exists>x. agrees (snd (os_read_line os x))))"

text \<open>What the user is shown of a plan.\<close>

definition shown :: "hex_lib \<Rightarrow> spend_options \<Rightarrow> ('k, 'b, 'x, 'p) funding_plan \<Rightarrow> string list" where
  "shown hx opts p = describe_funding hx p @ (if opt_funding opts \<noteq> ModeTransparent then disclosure else [])"

text \<open>The answer the user gives in the state \<open>s\<close>, in which the plan is shown.\<close>

definition agreed_to :: "'w cli_os \<Rightarrow> spend_options \<Rightarrow> ('w, 'd) machine \<Rightarrow> bool" where
  "agreed_to os opts s \<longleftrightarrow>
     \<not> opt_dry_run opts \<and> (opt_assume_yes opts \<or> agrees (snd (os_read_line os (wl_world (mc_wallet s)))))"

lemma agreed_to_consented:
  "agreed_to os opts s \<Longrightarrow> opt_network opts = Mainnet \<longrightarrow> opt_dry_run opts \<or> opt_confirm_mainnet opts \<Longrightarrow> consented os opts"
  by (auto simp: agreed_to_def consented_def)

lemma confirm_consent:
  assumes "confirm os hx opts p s = (s', r)"
  shows "only_prints s s' \<and> (\<exists>after. mc_out s' = mc_out s @ shown hx opts p @ after) \<and> (r = Ok True \<longrightarrow> agreed_to os opts s)"
proof -
  have "only_prints s s'" using keepsD [OF quiet_plan(2) assms] .
  moreover have "\<exists>after. mc_out s' = mc_out s @ shown hx opts p @ after"
    using assms by (auto simp: confirm_def shown_def bind_step_def print_lines_def ask_world_def split: if_splits prod.splits)
  moreover have "r = Ok True \<longrightarrow> agreed_to os opts s"
    using assms
    by (auto simp: confirm_def agreed_to_def bind_step_def print_lines_def ask_world_def split: if_splits prod.splits)
  ultimately show ?thesis by blast
qed

text \<open>From the state \<open>s\<close> the transaction \<open>tx\<close> was made out of the plan \<open>p\<close>, with nothing sent on the way, and
  all that was sent until \<open>s'\<close> are the events \<open>es\<close> of its one broadcast.\<close>

definition broadcast_of ::
    "('w, 'x, 'k, 'b, 'p, 't) cli_pay \<Rightarrow> spend_options \<Rightarrow> ('w, 'x) chain_source \<Rightarrow> ('k, 'b, 'x, 'p) funding_plan
      \<Rightarrow> verified_tx \<Rightarrow> wallet_event list \<Rightarrow> ('w, 'd) machine \<Rightarrow> ('w, 'd) machine \<Rightarrow> bool" where
  "broadcast_of cp opts chain p tx es s s' \<longleftrightarrow>
     (\<exists>s1 s2 outcome. authorize_plan cp chain p s = (s1, Ok tx) \<and> wl_events (mc_wallet s1) = wl_events (mc_wallet s)
        \<and> cli_broadcast (wb_hex (fb_wallet (cp_lib cp))) (cli_wallet_env cp (opt_zebra_url opts) chain) tx s1 = (s2, outcome)
        \<and> wl_events (mc_wallet s2) = wl_events (mc_wallet s1) @ es \<and> wl_events (mc_wallet s') = wl_events (mc_wallet s2)
        \<and> vt_plan_id tx = funding_plan_id p \<and> sent_once (wb_hex (fb_wallet (cp_lib cp))) tx es)"

lemma send_plan_events:
  assumes "send_plan os cp opts chain p s = (s', r)"
  shows "r \<noteq> Ok None \<and>
    (wl_events (mc_wallet s') = wl_events (mc_wallet s) \<and> (\<forall>x. r \<noteq> Ok x) \<or>
     (\<exists>tx es. broadcast_of cp opts chain p tx es s s' \<and> (\<forall>txid. r = Ok (Some txid) \<longrightarrow> txid = vt_txid tx)))"
  using assms unfolding send_plan_def Let_def
proof (cases rule: bind_stepE)
  case (ok s1 v)
  then have s1: "s1 = s" by simp
  from ok(2) show ?thesis
  proof (cases rule: bind_stepE)
    case (failed e)
    then show ?thesis using keepsD [OF eventless_authorize failed(1)] s1 by (simp add: sends_nothing_def)
  next
    case (ok s2 tx)
    note auth = keepsD [OF eventless_authorize ok(1)] and pid = authorize_plan_id [OF ok(1)[unfolded s1]]
    show ?thesis
    proof (cases "os_client os")
      case (Inl e)
      then show ?thesis using ok(2) auth s1 by (auto simp: bind_step_def sends_nothing_def)
    next
      case (Inr u)
      then have "bind_step (cli_broadcast (wb_hex (fb_wallet (cp_lib cp))) (cli_wallet_env cp (opt_zebra_url opts) chain) tx)
          (report_outcome (wb_hex (fb_wallet (cp_lib cp))) tx) s2 = (s', r)"
        using ok(2) by (simp add: bind_step_def)
      moreover have step: "wl_events (mc_wallet s3) = wl_events (mc_wallet s) \<and> (\<forall>x. b \<noteq> Ok x)
          \<or> (\<exists>es. \<forall>s'. wl_events (mc_wallet s') = wl_events (mc_wallet s3) \<longrightarrow> broadcast_of cp opts chain p tx es s s')"
        if sent: "cli_broadcast (wb_hex (fb_wallet (cp_lib cp))) (cli_wallet_env cp (opt_zebra_url opts) chain) tx s2 = (s3, b)" for s3 b
      proof -
        obtain es where es: "wl_events (mc_wallet s3) = wl_events (mc_wallet s2) @ es"
            "es = [] \<and> (\<forall>x. b \<noteq> Ok x) \<or> sent_once (wb_hex (fb_wallet (cp_lib cp))) tx es"
          using cli_broadcast_events [OF sent] by blast
        have "wl_events (mc_wallet s2) = wl_events (mc_wallet s)" using auth s1 by (simp add: sends_nothing_def)
        with es sent ok(1) s1 pid show ?thesis unfolding broadcast_of_def by auto
      qed
      ultimately show ?thesis
      proof (cases rule: bind_stepE [consumes 1])
        case (failed e)
        then show ?thesis using step [OF failed(1)] by blast
      next
        case out: (ok s3 outcome)
        have "wl_events (mc_wallet s') = wl_events (mc_wallet s3)" "r \<noteq> Ok None"
            "\<forall>txid. r = Ok (Some txid) \<longrightarrow> txid = vt_txid tx"
          using report_outcome_events [OF out(2)] by (simp_all add: only_prints_def)
        then show ?thesis using step [OF out(1)] by blast
      qed
    qed
  qed
qed simp

lemma quiet_bindE:
  assumes "bind_step f g s = (s', r)" "quiet f" "only_prints s0 s"
  obtains (failed) e where "r = Err e" "only_prints s0 s'"
    | (ok) s1 x where "only_prints s0 s1" "f s = (s1, Ok x)" "g x s1 = (s', r)"
  using assms(1)
proof (cases rule: bind_stepE)
  case (failed e)
  then show thesis using that(1) keepsD [OF assms(2)] transpD [OF transp_only_prints assms(3)] by blast
next
  case (ok s1 x)
  then show thesis using that(2) keepsD [OF assms(2)] transpD [OF transp_only_prints assms(3)] by blast
qed

lemma bind_lift: "bind_step (lift_step (Ok x)) k = k x" "bind_step (lift_step (Err e)) k = lift_step (Err e)"
  by (rule ext, simp add: bind_step_def)+

lemma only_prints_refl: "only_prints s s"
  by (simp add: only_prints_def)

text \<open>
  A request ends quietly, or it goes on to the broadcast of a plan: the plan is made for the request,
  then it is shown, then the user agrees, and the state it is handed to has journal and events as at
  the start.
\<close>

definition goes_on ::
    "'w cli_os \<Rightarrow> ('w, 'd, 'x, 'a) cli_db \<Rightarrow> ('w, 'x, 'k, 'b, 'p, 't) cli_pay \<Rightarrow> spend_options \<Rightarrow> tx_request
      \<Rightarrow> ('w, 'd) machine \<Rightarrow> ('w, 'd) machine \<Rightarrow> (cli_error, tx_id option) result \<Rightarrow> bool" where
  "goes_on os cd cp opts req s s' r \<longleftrightarrow>
     (\<exists>source tip chain p s0 s1 s2 before after.
        plan_request os cd cp source req (fund_context_new (opt_network opts) tip) s0 = (s1, Ok p)
        \<and> agreed_to os opts s1
        \<and> mc_out s2 = mc_out s1 @ before @ shown (wb_hex (fb_wallet (cp_lib cp))) opts p @ after
        \<and> only_prints s s2 \<and> send_plan os cp opts chain p s2 = (s', r))"

lemma print_lines_step: "print_lines ls s = (s1, r) \<Longrightarrow> mc_out s1 = mc_out s @ ls \<and> mc_wallet s1 = mc_wallet s"
  by (auto simp: print_lines_def)

lemma agreed_to_wallet: "mc_wallet s = mc_wallet s' \<Longrightarrow> agreed_to os opts s = agreed_to os opts s'"
  by (simp add: agreed_to_def)

lemma confirm_and_send_cases:
  assumes "confirm_and_send os cp opts chain used p s1 = (s', r)" "only_prints s s1"
    and "plan_request os cd cp source req (fund_context_new (opt_network opts) tip) s0 = (s1, Ok p)"
  shows "only_prints s s' \<and> (\<forall>txid. r \<noteq> Ok (Some txid)) \<or> goes_on os cd cp opts req s s' r"
  using assms(1) unfolding confirm_and_send_def
proof (rule quiet_bindE [OF _ quiet_pure(4) assms(2)])
  fix s2 u
  let ?used = "[''funding mode:       '' @ used @ '' (requested '' @ mode_str (opt_funding opts) @ '')'']"
  assume s2: "only_prints s s2" "print_lines ?used s1 = (s2, Ok u)"
    and run: "bind_step (confirm os (wb_hex (fb_wallet (cp_lib cp))) opts p)
      (\<lambda>agreed. if \<not> agreed then return_step None else send_plan os cp opts chain p) s2 = (s', r)"
  show ?thesis
    using run
  proof (rule quiet_bindE [OF _ quiet_plan(2) s2(1)])
    fix s3 agreed
    assume s3: "only_prints s s3" "confirm os (wb_hex (fb_wallet (cp_lib cp))) opts p s2 = (s3, Ok agreed)"
      and run: "(if \<not> agreed then return_step None else send_plan os cp opts chain p) s3 = (s', r)"
    show ?thesis
    proof (cases agreed)
      case True
      have told: "\<exists>after. mc_out s3 = mc_out s2 @ shown (wb_hex (fb_wallet (cp_lib cp))) opts p @ after" "agreed_to os opts s2"
        using confirm_consent [OF s3(2)] True by simp_all
      then obtain after where "mc_out s3 = mc_out s1 @ ?used @ shown (wb_hex (fb_wallet (cp_lib cp))) opts p @ after"
        using print_lines_step [OF s2(2)] by auto
      moreover have "agreed_to os opts s1" using told(2) print_lines_step [OF s2(2)] agreed_to_wallet by metis
      moreover have "send_plan os cp opts chain p s3 = (s', r)" using run True by simp
      ultimately have "goes_on os cd cp opts req s s' r"
        unfolding goes_on_def using assms(3) s3(1)
        by (intro exI [of _ source] exI [of _ tip] exI [of _ chain] exI [of _ p] exI [of _ s0] exI [of _ s1] exI [of _ s3]
            exI [of _ ?used] exI [of _ after]) simp
      then show ?thesis ..
    qed (use run s3(1) in auto)
  qed auto
qed auto

lemma quiet_then:
  assumes "bind_step f g s1 = (s', r)" "quiet f" "only_prints s s1"
    and "\<And>x s2. f s1 = (s2, Ok x) \<Longrightarrow> g x s2 = (s', r) \<Longrightarrow> only_prints s s2
      \<Longrightarrow> only_prints s s' \<and> (\<forall>txid. r \<noteq> Ok (Some txid)) \<or> goes_on os cd cp opts req s s' r"
  shows "only_prints s s' \<and> (\<forall>txid. r \<noteq> Ok (Some txid)) \<or> goes_on os cd cp opts req s s' r"
  using assms(1-3) by (rule quiet_bindE) (simp, erule assms(4))

lemma execute_request_cases:
  assumes "execute_request os cd cp opts req required utxos s = (s', r)" "quiet utxos"
  shows "only_prints s s' \<and> (\<forall>txid. r \<noteq> Ok (Some txid))
    \<or> (opt_network opts = Mainnet \<longrightarrow> opt_dry_run opts \<or> opt_confirm_mainnet opts) \<and> goes_on os cd cp opts req s s' r"
proof (cases "mainnet_guard opts")
  case (Inl e)
  then show ?thesis using assms(1) only_prints_refl by (auto simp: execute_request_def bind_step_def)
next
  case (Inr u)
  then have net: "opt_network opts = Mainnet \<longrightarrow> opt_dry_run opts \<or> opt_confirm_mainnet opts"
    by (auto simp: mainnet_guard_def split: if_splits)
  have "bind_step (connect os cd (opt_zebra_url opts) (opt_network opts)) (\<lambda>chain.
     bind_step (build_source os cd cp opts required utxos) (\<lambda>source.
     bind_step (try_world NodeFailure (cc_canonical_tip chain)) (\<lambda>tip.
     bind_step (plan_request os cd cp source req (fund_context_new (opt_network opts) tip))
       (confirm_and_send os cp opts chain (source_used source))))) s = (s', r)"
    using assms(1) Inr by (simp add: execute_request_def bind_lift)
  then have "only_prints s s' \<and> (\<forall>txid. r \<noteq> Ok (Some txid)) \<or> goes_on os cd cp opts req s s' r"
    using only_prints_refl [of s]
    by - ((erule quiet_then, (rule quiet_steps assms(2))+, assumption)+, erule confirm_and_send_cases, assumption+)
  with net show ?thesis by blast
qed

end
