(* ===== verification/Cli_Live.thy ===== *)
theory Cli_Live
  imports Cli_Consent Plan_Stages
begin

text \<open>A confirmed request over transparent funds is carried through to the node.\<close>

section \<open>The journal moves along\<close>

definition row_at :: "('w, 'd) machine \<Rightarrow> string \<Rightarrow> journal_stage \<Rightarrow> bool" where
  "row_at s pid st \<longleftrightarrow> jn_fault (wl_journal (mc_wallet s)) = (\<lambda>_. None) \<and> row_stage_is (jn_rows (wl_journal (mc_wallet s))) pid st"

lemma row_at_world: "row_at s pid a \<Longrightarrow> row_at (s\<lparr>mc_wallet := (mc_wallet s)\<lparr>wl_world := x\<rparr>\<rparr>) pid a"
  by (simp add: row_at_def)

lemma sndE: "snd (f x) = v \<Longrightarrow> \<exists>x'. f x = (x', v)"
  by (cases "f x") auto

text \<open>Only the journal differs.\<close>

definition journal_only :: "('w, 'd) machine \<Rightarrow> ('w, 'd) machine \<Rightarrow> bool" where
  "journal_only s s' \<longleftrightarrow> (\<exists>j. s' = s\<lparr>mc_wallet := (mc_wallet s)\<lparr>wl_journal := j\<rparr>\<rparr>)"

lemma journal_onlyD:
  "journal_only s s' \<Longrightarrow> wl_world (mc_wallet s') = wl_world (mc_wallet s) \<and> wl_events (mc_wallet s') = wl_events (mc_wallet s)"
  by (auto simp: journal_only_def)

lemma journal_only_trans: "journal_only s s' \<Longrightarrow> journal_only s' s'' \<Longrightarrow> journal_only s s''"
  by (auto simp: journal_only_def)

lemma transition_moves_row:
  assumes "jn_fault j = (\<lambda>_. None)" "row_stage_is (jn_rows j) pid a" "can_transition a b"
  shows "\<exists>j'. transition pid b t e j = (j', Ok a) \<and> jn_fault j' = (\<lambda>_. None) \<and> row_stage_is (jn_rows j') pid b"
proof -
  from assms(2) obtain r where r: "find_row (jn_rows j) pid = Some r" "jr_stage r = stage_str a"
    by (auto simp: row_stage_is_def)
  then have "transition pid b t e j = (j\<lparr>jn_rows := update_row pid (move_row b t e (jn_clock j)) (jn_rows j)\<rparr>, Ok a)"
    using assms(1,3) by (simp add: transition_Ok_iff)
  then show ?thesis
    using r(1) assms(1) by (auto simp: row_stage_is_def find_update_row move_row_def)
qed

lemma note_moves:
  assumes "row_at s pid a" "can_transition a b"
  obtains s1 where "cli_journal (transition pid b t e) s = (s1, Ok a)" "row_at s1 pid b" "journal_only s s1"
proof -
  obtain j' where "transition pid b t e (wl_journal (mc_wallet s)) = (j', Ok a)" "jn_fault j' = (\<lambda>_. None)" "row_stage_is (jn_rows j') pid b"
    using transition_moves_row assms unfolding row_at_def by blast
  then show thesis
    by (intro that [of "s\<lparr>mc_wallet := (mc_wallet s)\<lparr>wl_journal := j'\<rparr>\<rparr>"])
      (auto simp: cli_journal_def journal_do_def row_at_def journal_only_def)
qed

lemma note_two:
  assumes "row_at s pid a" "can_transition a b" "can_transition b c"
  obtains s1 where "note_stages pid [b, c] s = (s1, Ok ())" "row_at s1 pid c" "journal_only s s1"
proof -
  obtain s1 where s1: "cli_journal (transition pid b None None) s = (s1, Ok a)" "row_at s1 pid b" "journal_only s s1"
    using note_moves [OF assms(1,2)] by metis
  obtain s2 where s2: "cli_journal (transition pid c None None) s1 = (s2, Ok b)" "row_at s2 pid c" "journal_only s1 s2"
    using note_moves [OF s1(2) assms(3)] by metis
  show thesis
    using that [of s2] s1 s2 journal_only_trans [OF s1(3) s2(3)] by (simp add: note_stages_def bind_step_def)
qed

lemma find_row_snoc: "find_row rows pid = None \<Longrightarrow> jr_plan_id r = pid \<Longrightarrow> find_row (rows @ [r]) pid = Some r"
  by (induction rows) (auto simp: find_row_def split: if_splits)

lemma record_reserves:
  assumes "jn_fault (wl_journal (mc_wallet s)) = (\<lambda>_. None)"
    and "find_row (jn_rows (wl_journal (mc_wallet s))) (funding_plan_id p) = None"
  obtains s1 where "cli_journal (record_funding_plan fl p) s = (s1, Ok ())" "row_at s1 (funding_plan_id p) Reserved" "journal_only s s1"
proof -
  let ?j = "wl_journal (mc_wallet s)" and ?pid = "funding_plan_id p"
  obtain f where f: "record_funding_plan fl p = bind_step (create_plan f) (\<lambda>_. reserve ?pid)" "pf_plan_id f = ?pid"
    by (simp add: record_funding_plan_def record_plan_def)
  let ?j1 = "?j\<lparr>jn_rows := jn_rows ?j @ [new_row f (jn_clock ?j)]\<rparr>"
  have created: "create_plan f ?j = (?j1, Ok ())"
    using assms f(2) by (simp add: create_plan_def sql_def)
  have "find_row (jn_rows ?j1) ?pid = Some (new_row f (jn_clock ?j))"
    using find_row_snoc [OF assms(2)] f(2) by (simp add: new_row_def)
  then have "row_stage_is (jn_rows ?j1) ?pid Planned"
    by (simp add: row_stage_is_def new_row_def)
  then obtain j' where "transition ?pid Reserved None None ?j1 = (j', Ok Planned)" "jn_fault j' = (\<lambda>_. None)"
      "row_stage_is (jn_rows j') ?pid Reserved"
    using transition_moves_row [of ?j1 ?pid Planned Reserved None None] assms(1) by (auto simp: can_transition_def stage_edges_def)
  then show thesis
    by (intro that [of "s\<lparr>mc_wallet := (mc_wallet s)\<lparr>wl_journal := j'\<rparr>\<rparr>"])
      (auto simp: f(1) cli_journal_def journal_do_def row_at_def journal_only_def bind_step_def created reserve_def)
qed

section \<open>The stages\<close>

lemma cli_stage_Ok:
  assumes "f (wl_world (mc_wallet s), p) = ((x', p'), Ok v)"
  shows "cli_stage f p s = (s\<lparr>mc_wallet := (mc_wallet s)\<lparr>wl_world := x'\<rparr>\<rparr>, Ok (p', v))"
  using assms by (simp add: cli_stage_def try_world_def ask_world_def bind_step_def)

lemma transparent_stages:
  assumes "bind_step (prove_plan src) (\<lambda>_. bind_step (sign_plan (fb_wallet fl) src) (\<lambda>_. extract_verified (fb_wallet fl) src)) (x, p)
    = ((x3, q), Ok vt)"
  obtains x1 p1 x2 p2 where "prove_funding fl src (x, FundedTransparent p) = ((x1, FundedTransparent p1), Ok ())"
    "sign_funding fl src (x1, FundedTransparent p1) = ((x2, FundedTransparent p2), Ok ())"
    "extract_funding fl src (x2, FundedTransparent p2) = ((x3, FundedTransparent q), Ok vt)"
proof -
  from assms obtain x1 p1 x2 p2 where "prove_plan src (x, p) = ((x1, p1), Ok ())"
      "sign_plan (fb_wallet fl) src (x1, p1) = ((x2, p2), Ok ())"
      "extract_verified (fb_wallet fl) src (x2, p2) = ((x3, q), Ok vt)"
    by (auto elim!: bind_stepE)
  then show thesis by (intro that [of x1 p1 x2 p2]) (simp_all add: on_transparent_def)
qed

text \<open>What a plan needs to be sent: its library signs and reads back, and its amounts and message fit.\<close>

definition sendable ::
    "('k, 'b) wallet_lib \<Rightarrow> 'k transparent_funding \<Rightarrow> string \<Rightarrow> tx_request \<Rightarrow> fund_context \<Rightarrow> ('k, 'b) transparent_plan
      \<Rightarrow> ('k, outpoint, 'b) final_tx \<Rightarrow> bool" where
  "sendable lib tf pid req ctx p tx \<longleftrightarrow>
     transparent_plan_of lib tf pid req ctx = Ok p
     \<and> assemble_tx (wb_signing lib) (pt_inputs (tp_prepared p)) (pt_outputs (tp_prepared p)) 0 (tp_branch_id p) = Ok tx
     \<and> reads_back lib tx \<and> der_ok (wb_signing lib) \<and> length (sl_pubkey (wb_signing lib) (tf_key tf)) = 33
     \<and> total (map fu_value (tf_utxos tf)) < 2 ^ 64 \<and> request_fits (wb_sha lib) req"

lemma sendable_id: "sendable lib tf pid req ctx p tx \<Longrightarrow> tp_plan_id p = pid"
  by (auto simp: sendable_def transparent_plan_of_def Let_def split: if_splits)

definition assembled :: "('k, 'b) wallet_lib \<Rightarrow> string \<Rightarrow> fund_context \<Rightarrow> ('k, 'b) transparent_plan \<Rightarrow> ('k, outpoint, 'b) final_tx \<Rightarrow> verified_tx" where
  "assembled lib pid ctx p tx =
     \<lparr>vt_bytes = sl_serialize (wb_signing lib) tx, vt_txid = sl_txid (wb_signing lib) tx, vt_plan_id = pid,
      vt_intent_hash = tp_intent_hash p, vt_tip = fc_chain_tip ctx\<rparr>"

lemma authorize_succeeds:
  assumes "sendable (fb_wallet (cp_lib cp)) tf pid req ctx p tx"
    and "\<forall>x. snd (cc_canonical_tip chain x) = Ok (fc_chain_tip ctx)"
    and "jn_fault (wl_journal (mc_wallet s)) = (\<lambda>_. None)" "find_row (jn_rows (wl_journal (mc_wallet s))) pid = None"
  obtains s' where "authorize_plan cp chain (FundedTransparent p) s = (s', Ok (assembled (fb_wallet (cp_lib cp)) pid ctx p tx))"
    "row_at s' pid Verified" "wl_events (mc_wallet s') = wl_events (mc_wallet s)"
proof -
  let ?lib = "cp_lib cp" and ?src = "cc_canonical_tip chain"
  have pid: "funding_plan_id (FundedTransparent p) = pid" using sendable_id [OF assms(1)] by simp
  obtain s1 where s1: "cli_journal (record_funding_plan ?lib (FundedTransparent p)) s = (s1, Ok ())"
      "row_at s1 pid Reserved" "journal_only s s1"
    using record_reserves [OF assms(3), of "FundedTransparent p"] assms(4) pid by metis
  obtain x3 q where run: "bind_step (prove_plan ?src) (\<lambda>_. bind_step (sign_plan (fb_wallet ?lib) ?src) (\<lambda>_. extract_verified (fb_wallet ?lib) ?src))
      (wl_world (mc_wallet s1), p) = ((x3, q), Ok (assembled (fb_wallet ?lib) pid ctx p tx))"
    using plan_authorizes [of "fb_wallet ?lib" tf pid req ctx p ?src tx "wl_world (mc_wallet s1)"] assms(1,2)
    unfolding sendable_def assembled_def by blast
  obtain x1 p1 x2 p2 where st: "prove_funding ?lib ?src (wl_world (mc_wallet s1), FundedTransparent p) = ((x1, FundedTransparent p1), Ok ())"
      "sign_funding ?lib ?src (x1, FundedTransparent p1) = ((x2, FundedTransparent p2), Ok ())"
      "extract_funding ?lib ?src (x2, FundedTransparent p2) = ((x3, FundedTransparent q), Ok (assembled (fb_wallet ?lib) pid ctx p tx))"
    using transparent_stages [OF run] by metis
  let ?at = "\<lambda>s x. s\<lparr>mc_wallet := (mc_wallet s)\<lparr>wl_world := x\<rparr>\<rparr>"
  note keep = row_at_world
  have c: "can_transition Reserved Proving" "can_transition Proving Proven" "can_transition Proven Signing" "can_transition Signing Signed"
    "can_transition Signed journal_stage.Extracted" "can_transition journal_stage.Extracted Verified"
    by (simp_all add: can_transition_def stage_edges_def)
  obtain s2 where s2: "note_stages pid [Proving, Proven] (?at s1 x1) = (s2, Ok ())" "row_at s2 pid Proven" "journal_only (?at s1 x1) s2"
    using note_two [OF keep [OF s1(2)] c(1,2)] by metis
  have w2: "wl_world (mc_wallet s2) = x1" using journal_onlyD [OF s2(3)] by simp
  obtain s3 where s3: "note_stages pid [Signing, Signed] (?at s2 x2) = (s3, Ok ())" "row_at s3 pid Signed" "journal_only (?at s2 x2) s3"
    using note_two [OF keep [OF s2(2)] c(3,4)] by metis
  have w3: "wl_world (mc_wallet s3) = x2" using journal_onlyD [OF s3(3)] by simp
  obtain s4 where s4: "note_stages pid [journal_stage.Extracted, Verified] (?at s3 x3) = (s4, Ok ())" "row_at s4 pid Verified"
      "journal_only (?at s3 x3) s4"
    using note_two [OF keep [OF s3(2)] c(5,6)] by metis
  have "authorize_plan cp chain (FundedTransparent p) s = (s4, Ok (assembled (fb_wallet ?lib) pid ctx p tx))"
    using s1(1) s2(1) s3(1) s4(1) cli_stage_Ok [of "prove_funding ?lib ?src" s1 "FundedTransparent p"] cli_stage_Ok [of "sign_funding ?lib ?src" s2 "FundedTransparent p1"]
      cli_stage_Ok [of "extract_funding ?lib ?src" s3 "FundedTransparent p2"] st w2 w3 pid
    by (simp add: authorize_plan_def Let_def bind_step_def)
  moreover have "wl_events (mc_wallet s4) = wl_events (mc_wallet s)"
    using journal_onlyD [OF s1(3)] journal_onlyD [OF s2(3)] journal_onlyD [OF s3(3)] journal_onlyD [OF s4(3)] by simp
  ultimately show thesis using that s4(2) by metis
qed

section \<open>The broadcast\<close>

text \<open>A node that accepts the transaction and answers with its id.\<close>

definition accepts ::
    "('w, 'x, 'k, 'b, 'p, 't) cli_pay \<Rightarrow> string \<Rightarrow> hex_lib \<Rightarrow> verified_tx \<Rightarrow> bool" where
  "accepts cp url hx tx \<longleftrightarrow> (\<forall>x. \<exists>resp. snd (cp_call cp url ''sendrawtransaction'' [JStr (hex_encode hx (vt_bytes tx))] x) = Ok resp
     \<and> json_get ''result'' resp = Some (JStr (txid_display hx (vt_txid tx))))"

lemma broadcast_succeeds:
  assumes "accepts cp url hx tx" "\<forall>x. snd (cc_canonical_tip chain x) = Ok (vt_tip tx)" "row_at s (vt_plan_id tx) Verified"
  obtains s' rows where "cli_broadcast hx (cli_wallet_env cp url chain) tx s = (s', Ok OutcomeAccepted)"
    "wl_events (mc_wallet s') = wl_events (mc_wallet s) @ [Sent (hex_encode hx (vt_bytes tx)) rows]"
    "row_stage_is rows (vt_plan_id tx) Broadcasting" "row_at s' (vt_plan_id tx) BroadcastAccepted"
proof -
  let ?w = "mc_wallet s" and ?pid = "vt_plan_id tx" and ?id = "txid_display hx (vt_txid tx)" and ?hex = "hex_encode hx (vt_bytes tx)"
  let ?env = "cli_wallet_env cp url chain"
  obtain x1 where tip: "we_tip ?env (wl_world ?w) = (x1, Ok (vt_tip tx))"
    using sndE [of "cc_canonical_tip chain" "wl_world ?w" "Ok (vt_tip tx)"] assms(2)
    by (auto simp: cli_wallet_env_def zebra_env_def)
  obtain j1 where j1: "transition ?pid Broadcasting (Some ?id) None (wl_journal ?w) = (j1, Ok Verified)"
      "jn_fault j1 = (\<lambda>_. None)" "row_stage_is (jn_rows j1) ?pid Broadcasting"
    using transition_moves_row [of "wl_journal ?w" ?pid Verified Broadcasting "Some ?id" None] assms(3)
    by (auto simp: row_at_def can_transition_def stage_edges_def)
  obtain j2 where j2: "transition ?pid BroadcastAccepted None None j1 = (j2, Ok Broadcasting)"
      "jn_fault j2 = (\<lambda>_. None)" "row_stage_is (jn_rows j2) ?pid BroadcastAccepted"
    using transition_moves_row [OF j1(2,3), of BroadcastAccepted None None] by (auto simp: can_transition_def stage_edges_def)
  obtain x2 resp where call: "cp_call cp url ''sendrawtransaction'' [JStr ?hex] x1 = (x2, Ok resp)"
      "json_get ''result'' resp = Some (JStr ?id)"
    using assms(1) sndE [of "cp_call cp url ''sendrawtransaction'' [JStr ?hex]" x1] unfolding accepts_def by metis
  have send: "we_send ?env ?hex x1 = (x2, Accepted ?id)"
    using call by (simp add: cli_wallet_env_def zebra_env_def send_raw_transaction_def as_str_def)
  let ?w' = "?w\<lparr>wl_journal := j2, wl_world := x2, wl_events := wl_events ?w @ [Sent ?hex (jn_rows j1)]\<rparr>"
  have "broadcast_verified hx ?env tx ?w = (?w', Ok OutcomeAccepted)"
    using send j1(1) j2(1)
    by (simp add: broadcast_verified_def bind_step_def tip Let_def journal_do_def send_tx_def world_do_def record_outcome_def)
  then show thesis
    using j1(3) j2(2,3) by (intro that [of "s\<lparr>mc_wallet := ?w'\<rparr>"]) (auto simp: cli_broadcast_def row_at_def)
qed

section \<open>The whole request\<close>

definition finds :: "('w, 'd, 'k) utxo_finder \<Rightarrow> 'k transparent_funding \<Rightarrow> bool" where
  "finds utxos tf \<longleftrightarrow> quiet utxos \<and> (\<forall>s. snd (utxos s) = Ok (tf_key tf, tf_utxos tf))"

lemma send_plan_succeeds:
  assumes "sendable (fb_wallet (cp_lib cp)) tf pid req ctx p tx"
    and "\<forall>x. snd (cc_canonical_tip chain x) = Ok (fc_chain_tip ctx)"
    and "jn_fault (wl_journal (mc_wallet s)) = (\<lambda>_. None)" "find_row (jn_rows (wl_journal (mc_wallet s))) pid = None"
    and "os_client os = Ok ()" "cp_open_journal cp (wallet_dir os (opt_network opts)) = Ok ()"
    and "accepts cp (opt_zebra_url opts) (wb_hex (fb_wallet (cp_lib cp))) (assembled (fb_wallet (cp_lib cp)) pid ctx p tx)"
  shows "\<exists>s' rows. send_plan os cp opts chain (FundedTransparent p) s = (s', Ok (Some (sl_txid (wb_signing (fb_wallet (cp_lib cp))) tx)))
    \<and> wl_events (mc_wallet s') = wl_events (mc_wallet s)
        @ [Sent (hex_encode (wb_hex (fb_wallet (cp_lib cp))) (sl_serialize (wb_signing (fb_wallet (cp_lib cp))) tx)) rows]
    \<and> row_stage_is rows pid Broadcasting \<and> row_stage_is (jn_rows (wl_journal (mc_wallet s'))) pid BroadcastAccepted"
proof -
  let ?lib = "fb_wallet (cp_lib cp)"
  let ?vt = "assembled ?lib pid ctx p tx"
  have vt: "vt_plan_id ?vt = pid" "vt_tip ?vt = fc_chain_tip ctx" "vt_txid ?vt = sl_txid (wb_signing ?lib) tx"
    "vt_bytes ?vt = sl_serialize (wb_signing ?lib) tx"
    by (simp_all add: assembled_def)
  obtain s1 where s1: "authorize_plan cp chain (FundedTransparent p) s = (s1, Ok ?vt)" "row_at s1 pid Verified"
      "wl_events (mc_wallet s1) = wl_events (mc_wallet s)"
    using authorize_succeeds [OF assms(1-4)] .
  obtain s2 rows where s2: "cli_broadcast (wb_hex ?lib) (cli_wallet_env cp (opt_zebra_url opts) chain) ?vt s1 = (s2, Ok OutcomeAccepted)"
      "wl_events (mc_wallet s2) = wl_events (mc_wallet s1) @ [Sent (hex_encode (wb_hex ?lib) (vt_bytes ?vt)) rows]"
      "row_stage_is rows pid Broadcasting" "row_at s2 pid BroadcastAccepted"
    using broadcast_succeeds [of cp "opt_zebra_url opts" "wb_hex ?lib" ?vt chain s1] assms(2,7) s1(2) vt by metis
  obtain s3 where s3: "report_outcome (wb_hex ?lib) ?vt OutcomeAccepted s2 = (s3, Ok (Some (sl_txid (wb_signing ?lib) tx)))"
      "mc_wallet s3 = mc_wallet s2"
    by (simp add: report_outcome_def print_lines_def bind_step_def vt)
  have "send_plan os cp opts chain (FundedTransparent p) s = (s3, Ok (Some (sl_txid (wb_signing ?lib) tx)))"
    using assms(5,6) s1(1) s2(1) s3(1) by (simp add: send_plan_def Let_def bind_step_def)
  then show ?thesis using s1(3) s2(2,3,4) s3(2) vt by (auto simp: row_at_def)
qed

lemma confirmed_sends:
  assumes "\<not> opt_dry_run opts" "opt_assume_yes opts"
  obtains s1 where "only_prints s s1" "confirm_and_send os cp opts chain used p s = send_plan os cp opts chain p s1"
proof -
  let ?hx = "wb_hex (fb_wallet (cp_lib cp))"
  obtain s0 where s0: "print_lines [''funding mode:       '' @ used @ '' (requested '' @ mode_str (opt_funding opts) @ '')''] s = (s0, Ok ())"
    by (simp add: print_lines_def)
  obtain s1 where s1: "confirm os ?hx opts p s0 = (s1, Ok True)"
    using assms by (simp add: confirm_def bind_step_def print_lines_def)
  have "only_prints s s1" using keepsD [OF quiet_pure(4) s0] keepsD [OF quiet_plan(2) s1] transpD [OF transp_only_prints] by blast
  then show thesis using that s0 s1 by (simp add: confirm_and_send_def bind_step_def)
qed

lemma request_sent:
  assumes opts: "opt_funding opts = ModeTransparent" "\<not> opt_dry_run opts" "opt_assume_yes opts"
      "opt_network opts = Mainnet \<longrightarrow> opt_confirm_mainnet opts"
    and env: "os_client os = Ok ()" "cp_open_journal cp (wallet_dir os (opt_network opts)) = Ok ()"
    and tip: "\<forall>x. snd (cc_canonical_tip (cd_source cd (opt_zebra_url opts) (wallet_params (opt_network opts))) x) = Ok tip"
    and plan: "finds utxos tf" "\<forall>x. snd (cp_plan_id cp x) = pid"
      "sendable (fb_wallet (cp_lib cp)) tf pid req (fund_context_new (opt_network opts) tip) p tx"
    and node: "accepts cp (opt_zebra_url opts) (wb_hex (fb_wallet (cp_lib cp)))
      (assembled (fb_wallet (cp_lib cp)) pid (fund_context_new (opt_network opts) tip) p tx)"
    and journal: "jn_fault (wl_journal (mc_wallet s)) = (\<lambda>_. None)" "find_row (jn_rows (wl_journal (mc_wallet s))) pid = None"
  shows "\<exists>s' rows. execute_request os cd cp opts req required utxos s
      = (s', Ok (Some (sl_txid (wb_signing (fb_wallet (cp_lib cp))) tx)))
    \<and> wl_events (mc_wallet s') = wl_events (mc_wallet s)
        @ [Sent (hex_encode (wb_hex (fb_wallet (cp_lib cp))) (sl_serialize (wb_signing (fb_wallet (cp_lib cp))) tx)) rows]
    \<and> row_stage_is rows pid Broadcasting \<and> row_stage_is (jn_rows (wl_journal (mc_wallet s'))) pid BroadcastAccepted"
proof -
  let ?chain = "cd_source cd (opt_zebra_url opts) (wallet_params (opt_network opts))" and ?ctx = "fund_context_new (opt_network opts) tip"
  let ?lib = "fb_wallet (cp_lib cp)" and ?src = "FromTransparent tf"
  obtain s1 where utxos: "utxos s = (s1, Ok (tf_key tf, tf_utxos tf))" and q1: "only_prints s s1"
    using plan(1) sndE [of utxos s] keepsD unfolding finds_def by metis
  have source: "build_source os cd cp opts required utxos s = (s1, Ok ?src)"
    using opts(1) utxos by (cases tf) (simp add: build_source_def make_transparent_def read_machine_def bind_step_def)
  obtain s2 where t: "try_world NodeFailure (cc_canonical_tip ?chain) s1 = (s2, Ok tip)"
    using sndE [of "cc_canonical_tip ?chain" "wl_world (mc_wallet s1)"] tip by (auto simp: try_world_def ask_world_def bind_step_def)
  obtain s3 where pl: "plan_request os cd cp ?src req ?ctx s2 = (s3, Ok (FundedTransparent p))"
    using sndE [of "cp_plan_id cp" "wl_world (mc_wallet s2)"] plan(2,3) by (auto simp: ask_world_def bind_step_def sendable_def)
  obtain s4 where c: "only_prints s3 s4"
      "confirm_and_send os cp opts ?chain ''transparent'' (FundedTransparent p) s3 = send_plan os cp opts ?chain (FundedTransparent p) s4"
    using confirmed_sends [OF opts(2,3)] .
  have run: "execute_request os cd cp opts req required utxos s = send_plan os cp opts ?chain (FundedTransparent p) s4"
    using opts(2,4) env(1) source t pl c(2)
    by (auto simp: execute_request_def mainnet_guard_def connect_def bind_step_def simp del: plan_request.simps)
  have "only_prints s s4"
    using q1 keepsD [OF quiet_try t] keepsD [OF quiet_plan(1) pl] c(1) transpD [OF transp_only_prints] by metis
  then show ?thesis
    using send_plan_succeeds [OF plan(3) _ _ _ env node, of ?chain s4] tip journal run
    by (simp add: only_prints_def fund_context_new_def)
qed

section \<open>A concrete request\<close>

definition demo_tip :: canonical_tip where
  "demo_tip = \<lparr>ct_height = 7, ct_hash = fill32 7\<rparr>"

definition demo_options :: spend_options where
  "demo_options = \<lparr>opt_network = Regtest, opt_zebra_url = ''z'', opt_funding = ModeTransparent, opt_dry_run = False,
     opt_assume_yes = True, opt_confirm_mainnet = False\<rparr>"

definition demo_machine :: "(unit, unit) machine" where
  "demo_machine = \<lparr>mc_wallet = \<lparr>wl_journal = journal_new, wl_world = (), wl_events = []\<rparr>, mc_disk = (\<lambda>_. None),
     mc_dbs = (\<lambda>_. None), mc_out = []\<rparr>"

text \<open>A node at that tip that accepts what it is sent.\<close>

definition demo_chain :: "(unit, unit) chain_source" where
  "demo_chain = \<lparr>cc_canonical_tip = (\<lambda>x. (x, Ok demo_tip)), cc_source_hash = (\<lambda>_ x. (x, Err [])),
     cc_source_block = (\<lambda>_ x. (x, Err [])), cc_tree_state = (\<lambda>_ x. (x, Err []))\<rparr>"

definition demo_accept :: "unit \<Rightarrow> unit \<times> (string, json) result" where
  "demo_accept x = ((), Ok (JObj [(''result'', JStr (txid_display plain_hex (fill32 4)))]))"

definition demo_pay :: "(unit, outpoint, unit) final_tx \<Rightarrow> (unit, unit, unit, unit, unit, unit) cli_pay
    \<Rightarrow> (unit, unit, unit, unit, unit, unit) cli_pay" where
  "demo_pay tx cp = cp\<lparr>cp_lib := (cp_lib cp)\<lparr>fb_wallet := demo_wallet_lib tx\<rparr>, cp_plan_id := (\<lambda>x. (x, ''p1'')),
     cp_call := (\<lambda>_ _ _. demo_accept), cp_open_journal := (\<lambda>_. Ok ())\<rparr>"

definition demo_utxos :: "(unit, unit, unit) utxo_finder" where
  "demo_utxos = return_step (tf_key demo_funding, tf_utxos demo_funding)"

lemma demo_sendable:
  obtains p tx where "sendable (demo_wallet_lib tx) demo_funding ''p1'' demo_request (fund_context_new Regtest demo_tip) p tx"
proof -
  obtain p tx where p: "transparent_plan_of (demo_wallet_lib tx) demo_funding ''p1'' demo_request Plan_Stages.demo_context = Ok p"
    and tx: "assemble_tx demo_plan_signing (pt_inputs (tp_prepared p)) (pt_outputs (tp_prepared p)) 0 (tp_branch_id p) = Ok tx"
    using demo_planned by blast
  have "sendable (demo_wallet_lib tx) demo_funding ''p1'' demo_request Plan_Stages.demo_context p tx"
    using p tx demo_request_fits demo_lib_facts(1,2) [of tx] unfolding sendable_def
    by (simp add: demo_lib_facts(3,4)) (simp add: demo_plan_signing_def demo_funding_def)
  then show thesis using that by (simp add: Plan_Stages.demo_context_def demo_tip_def)
qed

lemma demo_facts:
  "finds demo_utxos demo_funding" "quiet demo_utxos" "opt_funding demo_options = ModeTransparent" "\<not> opt_dry_run demo_options"
  "opt_assume_yes demo_options" "opt_network demo_options = Regtest" "opt_zebra_url demo_options = ''z''"
  "accepts (demo_pay tx cp) ''z'' plain_hex (assembled (demo_wallet_lib tx) ''p1'' ctx p tx)"
  by (simp_all add: finds_def demo_utxos_def quiet_pure demo_options_def accepts_def demo_pay_def demo_accept_def json_get_def
      assembled_def demo_wallet_lib_def demo_plan_signing_def del: return_step_simp)
    (simp add: keeps_def only_prints_def)?

lemma demo_parts:
  "fb_wallet (cp_lib (demo_pay tx cp)) = demo_wallet_lib tx" "wb_hex (demo_wallet_lib tx) = plain_hex"
  "sl_txid (wb_signing (demo_wallet_lib tx)) tx = fill32 4" "sl_serialize (wb_signing (demo_wallet_lib tx)) tx = [7]"
  "cp_plan_id (demo_pay tx cp) x = (x, ''p1'')" "cp_open_journal (demo_pay tx cp) d = Ok ()" "snd (cc_canonical_tip demo_chain x) = Ok demo_tip"
  "wl_events (mc_wallet demo_machine) = []" "jn_fault (wl_journal (mc_wallet demo_machine)) = (\<lambda>_. None)"
  "find_row (jn_rows (wl_journal (mc_wallet demo_machine))) ''p1'' = None"
  by (simp_all add: demo_pay_def demo_wallet_lib_def demo_plan_signing_def demo_chain_def demo_machine_def journal_new_def find_row_def)


section \<open>Claims\<close>

text \<open>C15. A confirmed request over transparent funds is sent: while the node stays at one tip and accepts
  the transaction, a PREPARE, DEPLOY or CALL whose plan fits its funds ends with the id of the assembled
  transaction, exactly that transaction has been sent, with the plan's row on disk at \<open>Broadcasting\<close>,
  and the row ends at \<open>BroadcastAccepted\<close>. The journal works and does not know the plan yet.\<close>

theorem confirmed_request_is_sent:
  assumes opts: "opt_funding opts = ModeTransparent" "\<not> opt_dry_run opts" "opt_assume_yes opts"
      "opt_network opts = Mainnet \<longrightarrow> opt_confirm_mainnet opts"
    and env: "os_client os = Ok ()" "cp_open_journal cp (wallet_dir os (opt_network opts)) = Ok ()"
    and tip: "\<forall>x. snd (cc_canonical_tip (cd_source cd (opt_zebra_url opts) (wallet_params (opt_network opts))) x) = Ok tip"
    and plan: "finds utxos tf" "\<forall>x. snd (cp_plan_id cp x) = pid"
      "sendable (fb_wallet (cp_lib cp)) tf pid req (fund_context_new (opt_network opts) tip) p tx"
    and node: "accepts cp (opt_zebra_url opts) (wb_hex (fb_wallet (cp_lib cp)))
      (assembled (fb_wallet (cp_lib cp)) pid (fund_context_new (opt_network opts) tip) p tx)"
    and journal: "jn_fault (wl_journal (mc_wallet s)) = (\<lambda>_. None)" "find_row (jn_rows (wl_journal (mc_wallet s))) pid = None"
  shows "\<exists>s' rows. execute_request os cd cp opts req required utxos s
      = (s', Ok (Some (sl_txid (wb_signing (fb_wallet (cp_lib cp))) tx)))
    \<and> wl_events (mc_wallet s') = wl_events (mc_wallet s)
        @ [Sent (hex_encode (wb_hex (fb_wallet (cp_lib cp))) (sl_serialize (wb_signing (fb_wallet (cp_lib cp))) tx)) rows]
    \<and> row_stage_is rows pid Broadcasting \<and> row_stage_is (jn_rows (wl_journal (mc_wallet s'))) pid BroadcastAccepted"
  using assms by (rule request_sent)

lemma confirmed_request_is_sent_witness:
  "\<exists>tx. \<forall>os (cd :: (unit, unit, unit, unit) cli_db) cp. \<exists>s' rows. execute_request (os\<lparr>os_client := Ok ()\<rparr>) (cd\<lparr>cd_source := (\<lambda>_ _. demo_chain)\<rparr>) (demo_pay tx cp) demo_options
      demo_request 0 demo_utxos demo_machine = (s', Ok (Some (fill32 4)))
    \<and> wl_events (mc_wallet s') = [Sent (hex_encode plain_hex [7]) rows] \<and> row_stage_is rows ''p1'' Broadcasting
    \<and> row_stage_is (jn_rows (wl_journal (mc_wallet s'))) ''p1'' BroadcastAccepted"
proof -
  obtain p tx where s: "sendable (demo_wallet_lib tx) demo_funding ''p1'' demo_request (fund_context_new Regtest demo_tip) p tx"
    using demo_sendable .
  have "\<exists>s' rows. execute_request (os\<lparr>os_client := Ok ()\<rparr>) (cd\<lparr>cd_source := (\<lambda>_ _. demo_chain)\<rparr>) (demo_pay tx cp) demo_options
      demo_request 0 demo_utxos demo_machine = (s', Ok (Some (fill32 4)))
    \<and> wl_events (mc_wallet s') = [Sent (hex_encode plain_hex [7]) rows] \<and> row_stage_is rows ''p1'' Broadcasting
    \<and> row_stage_is (jn_rows (wl_journal (mc_wallet s'))) ''p1'' BroadcastAccepted" for os cp and cd :: "(unit, unit, unit, unit) cli_db"
    using confirmed_request_is_sent [of demo_options "os\<lparr>os_client := Ok ()\<rparr>" "demo_pay tx cp" "cd\<lparr>cd_source := (\<lambda>_ _. demo_chain)\<rparr>"
        demo_tip demo_utxos demo_funding "''p1''" demo_request p tx demo_machine 0] s
    by (simp add: demo_facts demo_parts)
  then show ?thesis by blast
qed



end
