(* ===== verification/Cli_Gates.thy ===== *)
theory Cli_Gates
  imports Cli_Props
begin

text \<open>
  What opens the wallet and what a deployment needs: the session's lifetime, the gates before shielded
  funds, and the sizes of the carriers.
\<close>

section \<open>Numbers as text read back\<close>

lemma digits_value_append:
  "digits_value n (xs @ ys) = (case digits_value n xs of None \<Rightarrow> None | Some m \<Rightarrow> digits_value m ys)"
  by (induction xs arbitrary: n) auto

lemma digits_value_decimal: "digits_value 0 (decimal n) = Some n"
proof (induction n rule: less_induct)
  case (less n)
  have digit: "(of_char (char_of (48 + k :: nat) :: char) :: nat) = 48 + k" if "k < 10" for k
    using that by (simp add: of_char_of)
  show ?case
  proof (cases "n < 10")
    case True
    then show ?thesis using digit [OF True] by (simp add: decimal.simps)
  next
    case False
    then have "digits_value 0 (decimal (n div 10)) = Some (n div 10)" by (intro less) simp
    moreover have "n mod 10 < 10" by simp
    ultimately show ?thesis
      using False digit [of "n mod 10"] by (subst decimal.simps) (simp add: digits_value_append)
  qed
qed

definition all_digits :: "string \<Rightarrow> bool" where
  "all_digits s \<longleftrightarrow> s \<noteq> [] \<and> (\<forall>c \<in> set s. 48 \<le> (of_char c :: nat) \<and> (of_char c :: nat) \<le> 57)"

lemma all_digits_decimal: "all_digits (decimal n)"
proof (induction n rule: less_induct)
  case (less n)
  have digit: "(of_char (char_of (48 + k :: nat) :: char) :: nat) = 48 + k" if "k < 10" for k
    using that by (simp add: of_char_of)
  show ?case
  proof (cases "n < 10")
    case True
    then show ?thesis using digit [OF True] by (simp add: decimal.simps all_digits_def)
  next
    case False
    then have "all_digits (decimal (n div 10))" by (intro less) simp
    moreover have "n mod 10 < 10" by simp
    ultimately show ?thesis
      using False digit [of "n mod 10"] by (subst decimal.simps) (auto simp: all_digits_def)
  qed
qed

lemma trim_digits:
  assumes "all_digits s"
  shows "trim s = s"
proof -
  have "\<not> is_blank c" if "c \<in> set s" for c
    using assms that by (auto simp: all_digits_def is_blank_def)
  then have "dropWhile is_blank s = s" "dropWhile is_blank (rev s) = rev s"
    using assms by (auto simp: dropWhile_eq_self_iff all_digits_def hd_rev)
  then show ?thesis by (simp add: trim_def)
qed

lemma text_of_ascii:
  assumes "all_digits s"
  shows "text_of (ascii s) = s"
proof -
  have "(char_of (unat (of_nat (of_char c) :: u8)) :: char) = c" if "c \<in> set s" for c
  proof -
    have "(of_char c :: nat) < 256" using assms that by (fastforce simp: all_digits_def)
    then show ?thesis by (simp add: unsigned_of_nat take_bit_eq_mod)
  qed
  then show ?thesis by (simp add: text_of_def ascii_def map_idI)
qed

lemma parse_decimal: "n < 2 ^ bits \<Longrightarrow> parse_number bits (trim (text_of (ascii (decimal n)))) = Some n"
proof -
  assume n: "n < 2 ^ bits"
  obtain c cs where d: "decimal n = c # cs" "48 \<le> (of_char c :: nat)"
    using all_digits_decimal [of n] by (cases "decimal n") (auto simp: all_digits_def)
  then have "c \<noteq> CHR ''+''" by auto
  moreover have "trim (text_of (ascii (c # cs))) = c # cs" "digits_value 0 (c # cs) = Some n"
    using text_of_ascii [OF all_digits_decimal, of n] trim_digits [OF all_digits_decimal, of n] digits_value_decimal [of n] d(1)
    by metis+
  ultimately show ?thesis using d(1) n by (simp add: parse_number_def Let_def del: digits_value.simps)
qed

section \<open>The session\<close>

text \<open>A reading of the clock before the expiry of the session file.\<close>

definition armed_at :: "'w cli_os \<Rightarrow> string \<Rightarrow> disk \<Rightarrow> 'w \<Rightarrow> bool" where
  "armed_at os dir d x \<longleftrightarrow>
     (case d (session_path dir) of
        None \<Rightarrow> False
      | Some f \<Rightarrow>
          (case parse_number 64 (trim (text_of (fl_contents f))) of None \<Rightarrow> False | Some expiry \<Rightarrow> unat (snd (os_now os x)) < expiry))"

lemma session_is_armed_result:
  "\<exists>x. session_is_armed os dir s = (s\<lparr>mc_wallet := (mc_wallet s)\<lparr>wl_world := x\<rparr>\<rparr>, Ok (armed_at os dir (mc_disk s) (wl_world (mc_wallet s))))"
  by (auto simp: session_is_armed_def armed_at_def read_machine_def bind_step_def ask_world_def
      intro: exI [of _ "wl_world (mc_wallet s)"] split: option.split prod.split)

lemma session_is_armed_value:
  "snd (session_is_armed os dir s) = Ok (armed_at os dir (mc_disk s) (wl_world (mc_wallet s)))"
  using session_is_armed_result [of os dir s] by auto

text \<open>The session is armed exactly until its expiry: \<open>arm_session\<close> writes the time it read plus the lifetime
  (the sum wraps around), and from then on the session is armed at a reading of the clock exactly if it
  is before that time; after \<open>disarm_session\<close> it is not armed at any.\<close>

lemma session_lifetime:
  assumes "arm_session os dir ttl s = (s1, Ok expiry)"
  shows "expiry = snd (os_now os (wl_world (mc_wallet s))) + ttl
    \<and> (\<forall>s2. mc_disk s2 (session_path dir) = mc_disk s1 (session_path dir) \<longrightarrow>
         snd (session_is_armed os dir s2) = Ok (snd (os_now os (wl_world (mc_wallet s2))) < expiry))
    \<and> snd (session_is_armed os dir (fst (disarm_session dir s1))) = Ok False"
proof -
  have e: "expiry = snd (os_now os (wl_world (mc_wallet s))) + ttl"
      "\<exists>b. mc_disk s1 (session_path dir) = Some \<lparr>fl_contents = ascii (decimal (unat expiry)), fl_owner_only = b\<rparr>"
    using assms by (auto simp: arm_session_def bind_step_def ask_world_def Let_def split: prod.splits sum.splits)
  have "parse_number 64 (trim (text_of (ascii (decimal (unat expiry))))) = Some (unat expiry)"
    using unsigned_less [of expiry] by (intro parse_decimal) simp
  then have "armed_at os dir d x = (snd (os_now os x) < expiry)" if "d (session_path dir) = mc_disk s1 (session_path dir)" for d x
    using e(2) that by (auto simp: armed_at_def word_less_nat_alt)
  moreover have "\<not> armed_at os dir ((mc_disk s1)(session_path dir := None)) x" for x
    by (simp add: armed_at_def)
  ultimately show ?thesis
    using e(1) by (simp add: disarm_session_def session_is_armed_value)
qed

definition demo_clock_os :: "nat cli_os \<Rightarrow> nat cli_os" where
  "demo_clock_os os = os\<lparr>os_now := (\<lambda>x. (x + 1, of_nat x)), os_write := (\<lambda>_. Ok ())\<rparr>"

definition demo_clocked :: "(nat, unit) machine" where
  "demo_clocked = \<lparr>mc_wallet = \<lparr>wl_journal = journal_new, wl_world = 1000, wl_events = []\<rparr>, mc_disk = (\<lambda>_. None),
     mc_dbs = (\<lambda>_. None), mc_out = []\<rparr>"

lemma demo_session:
  "\<forall>os. \<exists>s1. arm_session (demo_clock_os os) ''w'' 900 demo_clocked = (s1, Ok 1900)
    \<and> snd (session_is_armed (demo_clock_os os) ''w'' s1) = Ok True
    \<and> snd (session_is_armed (demo_clock_os os) ''w'' (s1\<lparr>mc_wallet := (mc_wallet s1)\<lparr>wl_world := 1900\<rparr>\<rparr>)) = Ok False"
proof
  fix os
  obtain s1 where s1: "arm_session (demo_clock_os os) ''w'' 900 demo_clocked = (s1, Ok 1900)" "wl_world (mc_wallet s1) = 1001"
    by (simp add: arm_session_def bind_step_def ask_world_def demo_clock_os_def demo_clocked_def Let_def)
  note life = session_lifetime [OF s1(1), THEN conjunct2, THEN conjunct1, rule_format]
  show "\<exists>s1. arm_session (demo_clock_os os) ''w'' 900 demo_clocked = (s1, Ok 1900)
    \<and> snd (session_is_armed (demo_clock_os os) ''w'' s1) = Ok True
    \<and> snd (session_is_armed (demo_clock_os os) ''w'' (s1\<lparr>mc_wallet := (mc_wallet s1)\<lparr>wl_world := 1900\<rparr>\<rparr>)) = Ok False"
    using s1 life [of s1] life [of "s1\<lparr>mc_wallet := (mc_wallet s1)\<lparr>wl_world := 1900\<rparr>\<rparr>"]
    by (intro exI [of _ s1]) (simp add: demo_clock_os_def)
qed

section \<open>The gates before shielded funds\<close>

lemma bind_Ok_E:
  assumes "bind_step f g s = (s', Ok v)"
  obtains s1 x where "f s = (s1, Ok x)" "g x s1 = (s', Ok v)"
  using assms by (cases rule: bind_stepE) auto

lemma read_passphrase_disk: "read_passphrase os prompt s = (s', r) \<Longrightarrow> mc_disk s' = mc_disk s"
  by (auto simp: read_passphrase_def bind_step_def try_world_def ask_world_def split: option.splits list.splits prod.splits sum.splits if_splits)

text \<open>The wallet holds the keys of the seed that a passphrase opened the keystore of this network with.\<close>

definition opened_with ::
    "'w cli_os \<Rightarrow> ('w, 'd, 'x, 'a) cli_db \<Rightarrow> network \<Rightarrow> disk \<Rightarrow> ('d, 'x, 'a) sqlite_wallet \<Rightarrow> bool" where
  "opened_with os cd net d wallet \<longleftrightarrow>
     (\<exists>pass seed params usk. keystore_unlock (os_age os) (keystore_path (wallet_dir os net)) pass (cli_keystore_network net) d = Ok seed
        \<and> ak_derive (cd_keys cd) params seed = Ok usk \<and> sq_spending wallet = Some (ak_fvk (cd_keys cd) usk, ak_ask (cd_keys cd) usk))"

lemma unlock_wallet_keys:
  assumes "unlock_wallet cd seed wallet s = (s', Ok wallet')"
  shows "\<exists>params usk. ak_derive (cd_keys cd) params seed = Ok usk \<and> sq_spending wallet' = Some (ak_fvk (cd_keys cd) usk, ak_ask (cd_keys cd) usk)"
  using assms by (auto simp: unlock_wallet_def unlock_with_seed_def split: sum.splits if_splits) blast

lemma scan_wallet_keys:
  assumes "scan_wallet cd chain dir wallet s = (s', Ok wallet')"
  shows "sq_spending wallet' = sq_spending wallet"
  using assms
  by (auto simp: scan_wallet_def scan_to_tip_def set_canonical_tip_def ask_world_def save_db_def bind_step_def
      split: prod.splits sum.splits)

lemma session_is_armed_step:
  assumes "session_is_armed os dir s = (s', Ok b)"
  shows "mc_disk s' = mc_disk s \<and> mc_dbs s' = mc_dbs s \<and> b = armed_at os dir (mc_disk s) (wl_world (mc_wallet s))"
  using session_is_armed_result [of os dir s] assms by auto

lemma make_shielded_gated:
  assumes "make_shielded os cd cp opts s = (s', Ok src)"
  shows "\<exists>wallet key. src = FromShielded wallet key
    \<and> armed_at os (wallet_dir os (opt_network opts)) (mc_disk s) (wl_world (mc_wallet s)) \<and> opened_with os cd (opt_network opts) (mc_disk s) wallet"
  using assms unfolding make_shielded_def Let_def
  apply (elim bind_Ok_E)
  apply (split if_split_asm)
   apply simp
  apply (elim bind_Ok_E)
  apply (frule session_is_armed_step, drule read_passphrase_disk, drule unlock_wallet_keys, drule scan_wallet_keys)
  apply (clarsimp simp: opened_with_def unlock_keystore_def read_machine_def set_canonical_tip_def)
  apply blast
  done

lemma make_transparent_from:
  "make_transparent utxos s = (s', Ok src) \<Longrightarrow> \<exists>tf. src = FromTransparent tf"
  by (auto simp: make_transparent_def elim!: bind_Ok_E)

lemma shielded_covers_result:
  assumes "shielded_covers os dir balance required s = (s', Ok c)"
  shows "mc_disk s' = mc_disk s \<and> (c \<longleftrightarrow> required \<le> balance \<and> armed_at os dir (mc_disk s) (wl_world (mc_wallet s)))"
  using assms by (auto simp: shielded_covers_def dest: session_is_armed_step split: if_splits)

lemma auto_source_gated:
  assumes "auto_source os cd cp opts required utxos s = (s', Ok src)"
  shows "case src of
      FromTransparent tf \<Rightarrow> \<not> (required \<le> shielded_balance cd (wallet_dir os (opt_network opts)) (opt_network opts) s
        \<and> armed_at os (wallet_dir os (opt_network opts)) (mc_disk s) (wl_world (mc_wallet s)))
    | FromShielded wallet key \<Rightarrow> required \<le> shielded_balance cd (wallet_dir os (opt_network opts)) (opt_network opts) s
        \<and> (\<exists>x. armed_at os (wallet_dir os (opt_network opts)) (mc_disk s) x) \<and> opened_with os cd (opt_network opts) (mc_disk s) wallet"
  using assms unfolding auto_source_def Let_def
  apply (elim bind_Ok_E)
  apply (split if_split_asm)
   apply (elim bind_Ok_E)
   apply (drule shielded_covers_result, drule make_shielded_gated)
   apply (auto simp: read_machine_def print_lines_def)[1]
  apply (elim bind_Ok_E)
  apply (drule shielded_covers_result, drule make_transparent_from)
  apply (auto simp: read_machine_def)
  done

text \<open>C24. Shielded funds are only spent through their gates: if the source is shielded, the mode is not
  transparent, the wallet's database is there, the session was armed at a reading of the clock, and the
  keys are those of the seed that a passphrase opened this network's keystore with. If it is transparent,
  the mode is not shielded. The automatic mode takes shielded funds exactly if the database is there, its
  balance covers the amount and the session is armed; so a locked wallet falls back to transparent funds.\<close>

theorem shielded_funds_gated:
  assumes "build_source os cd cp opts required utxos s = (s', Ok src)"
  shows "let dir = wallet_dir os (opt_network opts); available = (mc_dbs s (db_path dir) \<noteq> None);
      covered = (available \<and> required \<le> shielded_balance cd dir (opt_network opts) s
        \<and> armed_at os dir (mc_disk s) (wl_world (mc_wallet s))) in
    case src of
      FromTransparent tf \<Rightarrow> opt_funding opts = ModeTransparent \<or> opt_funding opts = ModeAuto \<and> \<not> covered
    | FromShielded wallet key \<Rightarrow> available \<and> (\<exists>x. armed_at os dir (mc_disk s) x)
        \<and> opened_with os cd (opt_network opts) (mc_disk s) wallet
        \<and> (opt_funding opts = ModeShielded \<or> opt_funding opts = ModeAuto \<and> required \<le> shielded_balance cd dir (opt_network opts) s)"
proof -
  from assms obtain available where run: "available = (mc_dbs s (db_path (wallet_dir os (opt_network opts))) \<noteq> None)"
    "(case opt_funding opts of
         ModeShielded \<Rightarrow> if \<not> available then lift_step (Err ShieldedNotConfigured) else make_shielded os cd cp opts
       | ModeTransparent \<Rightarrow> make_transparent utxos
       | ModeAuto \<Rightarrow>
           if available then auto_source os cd cp opts required utxos
           else
             bind_step (print_lines [''--funding auto: no shielded wallet configured; using transparent'']) (\<lambda>_.
               make_transparent utxos)) s = (s', Ok src)"
    unfolding build_source_def by (auto elim!: bind_Ok_E simp: read_machine_def)
  show ?thesis
  proof (cases "opt_funding opts")
    case ModeTransparent
    then show ?thesis using run make_transparent_from by (fastforce simp: Let_def)
  next
    case ModeShielded
    then show ?thesis using run make_shielded_gated [of os cd cp opts s s' src] by (auto simp: Let_def split: if_splits)
  next
    case ModeAuto
    then show ?thesis using run
      by (auto simp: Let_def split: if_splits spend_source.splits elim!: bind_Ok_E dest!: make_transparent_from auto_source_gated)
  qed
qed

definition demo_auto :: spend_options where
  "demo_auto = \<lparr>opt_network = Regtest, opt_zebra_url = ''z'', opt_funding = ModeAuto, opt_dry_run = False,
     opt_assume_yes = True, opt_confirm_mainnet = False\<rparr>"

text \<open>A wallet whose database is there and which was never unlocked.\<close>

definition demo_locked :: "(nat, unit) machine" where
  "demo_locked = demo_clocked\<lparr>mc_dbs := (\<lambda>_. Some ())\<rparr>"

lemma shielded_funds_gated_witness:
  "\<forall>os (cd :: (nat, unit, unit, unit) cli_db) (cp :: (nat, unit, unit, unit, unit, unit) cli_pay).
    \<exists>s' (src :: (unit, unit, unit, unit) spend_source).
      build_source os cd cp demo_auto 5 (return_step ((), [])) demo_locked = (s', Ok src)
    \<and> (\<exists>tf. src = FromTransparent tf)
    \<and> \<not> (5 \<le> shielded_balance cd (wallet_dir os Regtest) Regtest demo_locked \<and> armed_at os (wallet_dir os Regtest) (mc_disk demo_locked) 1000)"
proof (intro allI)
  fix os and cd :: "(nat, unit, unit, unit) cli_db" and cp :: "(nat, unit, unit, unit, unit, unit) cli_pay"
  have "mc_disk demo_locked p = None" "mc_dbs demo_locked p = Some ()" "wl_world (mc_wallet demo_locked) = 1000" for p
    by (simp_all add: demo_locked_def demo_clocked_def)
  then obtain s' tf where run: "build_source os cd cp demo_auto 5 (return_step ((), [])) demo_locked = (s', Ok (FromTransparent tf))"
    by (auto simp: build_source_def demo_auto_def auto_source_def shielded_covers_def session_is_armed_def read_machine_def
        bind_step_def print_lines_def make_transparent_def Let_def)
  have "opt_network demo_auto = Regtest" "opt_funding demo_auto = ModeAuto" "mc_dbs demo_locked p = Some ()"
    "wl_world (mc_wallet demo_locked) = 1000" for p
    by (simp_all add: demo_auto_def demo_locked_def demo_clocked_def)
  then show "\<exists>s' (src :: (unit, unit, unit, unit) spend_source).
      build_source os cd cp demo_auto 5 (return_step ((), [])) demo_locked = (s', Ok src)
    \<and> (\<exists>tf. src = FromTransparent tf)
    \<and> \<not> (5 \<le> shielded_balance cd (wallet_dir os Regtest) Regtest demo_locked \<and> armed_at os (wallet_dir os Regtest) (mc_disk demo_locked) 1000)"
    using shielded_funds_gated [OF run] run by (auto simp: Let_def)
qed

section \<open>The carriers of a deployment\<close>

lemma div_ceil_bounds:
  assumes "0 < n"
  shows "a \<le> n * div_ceil a n" "n * div_ceil a n < a + n"
proof -
  have "div_ceil a n * n + (a + n - 1) mod n = a + n - 1"
    by (simp add: div_ceil_def)
  moreover have "(a + n - 1) mod n < n" using assms by simp
  ultimately show "a \<le> n * div_ceil a n" "n * div_ceil a n < a + n" by (simp_all add: mult.commute)
qed

lemma carriers_total:
  assumes "unat fee < 2 ^ 63" "0 < n" "n < 2 ^ 32"
  shows "unat fee + 50000 \<le> unat (sum_list (replicate n (carrier_each fee n)))"
    "unat (sum_list (replicate n (carrier_each fee n))) < unat fee + 50000 + n"
proof -
  let ?a = "unat fee + 50000"
  have a: "unat (fee + 50000) = ?a" using assms(1) by (simp add: unat_word_ariths)
  have n: "n mod 18446744073709551616 = n" using assms(3) by simp
  note b = div_ceil_bounds [OF assms(2), of ?a]
  have "sum_list (replicate n (carrier_each fee n)) = of_nat (n * div_ceil ?a n)"
    by (simp add: carrier_each_def a n sum_list_replicate unsigned_of_nat take_bit_eq_mod)
  moreover have "n * div_ceil ?a n < 2 ^ 64" using b(2) assms(1,3) by simp
  moreover have "unat (of_nat m :: u64) = m" if "m < 2 ^ 64" for m
    using that by (simp add: unsigned_of_nat take_bit_eq_mod)
  ultimately have "unat (sum_list (replicate n (carrier_each fee n))) = n * div_ceil ?a n"
    by metis
  then show "?a \<le> unat (sum_list (replicate n (carrier_each fee n)))"
    "unat (sum_list (replicate n (carrier_each fee n))) < ?a + n" using b by simp_all
qed

text \<open>C25. PREPARE makes carriers that pay for the DEPLOY: over carriers of the size the command computes from
  its probe plan, wherever they come from, planning the deployment succeeds with the fee of the probe,
  and its change is the margin of 50000 zatoshis and less than one more per carrier.\<close>

theorem carriers_pay_for_deploy:
  assumes "probe_fee lib key chunks payload = Ok fee" "unat fee < 2 ^ 63" "chunks \<noteq> []" "length chunks < 2 ^ 32"
    and "length outpoints = length chunks"
  shows "\<exists>q. deploy_plan (wb_hash160 lib) (sl_pubkey (wb_signing lib)) key outpoints
      (replicate (length chunks) (carrier_each fee (length chunks))) chunks payload = Ok q
    \<and> pt_fee q = fee \<and> 50000 \<le> unat (pt_change q) \<and> unat (pt_change q) < 50000 + length chunks"
proof -
  let ?vs = "replicate (length chunks) (carrier_each fee (length chunks))"
  have fee: "deploy_fee (wb_hash160 lib) (sl_pubkey (wb_signing lib) key) chunks payload = fee"
    using assms(1) by (auto simp: probe_fee_def deploy_plan_def Let_def split: if_splits)
  note t = carriers_total [OF assms(2) _ assms(4)]
  have le: "fee \<le> sum_list ?vs" using t(1) assms(3) by (simp add: word_le_nat_alt)
  then have "checked_sub (sum_list ?vs) fee = Some (sum_list ?vs - fee)"
    by (simp add: checked_sub_def)
  moreover have "unat (sum_list ?vs - fee) = unat (sum_list ?vs) - unat fee"
    using le by (simp add: unat_sub)
  ultimately show ?thesis
    using t assms(3,5) fee by (auto simp: deploy_plan_def Let_def)
qed

definition demo_carrier_lib :: "(unit, unit) wallet_lib \<Rightarrow> (unit, unit) wallet_lib" where
  "demo_carrier_lib lib = lib\<lparr>wb_hash160 := (\<lambda>_. replicate 20 0),
     wb_signing := (wb_signing lib)\<lparr>sl_pubkey := (\<lambda>_. replicate 33 2)\<rparr>\<rparr>"

lemma demo_probe: "probe_fee (demo_carrier_lib lib) () [[9], [8]] (replicate 45 0) = Ok 15000"
  by (simp add: probe_fee_def demo_carrier_lib_def deploy_plan_def Let_def checked_sub_def deploy_fee_def
      zip317_fee_from_sizes_def div_ceil_def params input_serialized_size_def output_serialized_size_def
      serialized_script_size_def carrier_script_sig_len_def chunk_pushes_len.simps push_overhead_def
      p2pkh_script_pubkey_def op_return_script_def length_push_data)

lemma carriers_pay_for_deploy_witness:
  "\<forall>lib. probe_fee (demo_carrier_lib lib) () [[9], [8]] (replicate 45 0) = Ok 15000 \<and> carrier_each 15000 2 = 32500
    \<and> (\<exists>q. deploy_plan (wb_hash160 (demo_carrier_lib lib)) (sl_pubkey (wb_signing (demo_carrier_lib lib))) ()
        (replicate 2 \<lparr>ou_hash = fill32 1, ou_n = 0\<rparr>) [32500, 32500] [[9], [8]] (replicate 45 0) = Ok q
      \<and> pt_fee q = 15000 \<and> 50000 \<le> unat (pt_change q))"
proof
  fix lib
  have each: "carrier_each 15000 2 = 32500" by (simp add: carrier_each_def div_ceil_def)
  have two: "replicate 2 v = [v, v]" for v :: u64 by (simp add: numeral_2_eq_2)
  from each show "probe_fee (demo_carrier_lib lib) () [[9], [8]] (replicate 45 0) = Ok 15000 \<and> carrier_each 15000 2 = 32500
    \<and> (\<exists>q. deploy_plan (wb_hash160 (demo_carrier_lib lib)) (sl_pubkey (wb_signing (demo_carrier_lib lib))) ()
        (replicate 2 \<lparr>ou_hash = fill32 1, ou_n = 0\<rparr>) [32500, 32500] [[9], [8]] (replicate 45 0) = Ok q
      \<and> pt_fee q = 15000 \<and> 50000 \<le> unat (pt_change q))"
    using carriers_pay_for_deploy [OF demo_probe [of lib], of "replicate 2 \<lparr>ou_hash = fill32 1, ou_n = 0\<rparr>"] demo_probe [of lib]
    by (auto simp: two each [unfolded numeral_2_eq_2])
qed

end
