(* ===== verification/Cli_Node.thy ===== *)
theory Cli_Node
  imports Cli_Contract Chain State_Rocks Rpc
begin

text \<open>
  The node's commands of the command line and the choice of a command (\<open>zalkanes-cli/src/main.rs\<close>):
  the settings a node starts with, waiting for its upstream, and what it prints of its database.
  Starting the servers and the sync loop, which \<open>Sync\<close> and \<open>Rpc\<close> model, is left out, and so is parsing
  the arguments.
\<close>

section \<open>Starting\<close>

record serve_settings =
  ss_port :: u16
  ss_health_port :: u16
  ss_rpc_url :: string
  ss_api_key :: "string option"
  ss_config :: indexer_config

definition saturating_inc16 :: "u16 \<Rightarrow> u16" where
  "saturating_inc16 w = (if w = - 1 then - 1 else w + 1)"

definition serve_port :: "'w cli_os \<Rightarrow> u16 option \<Rightarrow> u16" where
  "serve_port os port =
     (case port of
        Some p \<Rightarrow> p
      | None \<Rightarrow> (case Option.bind (os_var os ''PORT'') (parse_number 16) of Some p \<Rightarrow> of_nat p | None \<Rightarrow> 3030))"

text \<open>The override is resolved before anything is connected to.\<close>

definition serve_settings_of :: "'w cli_os \<Rightarrow> u16 option \<Rightarrow> string option \<Rightarrow> (cli_error, serve_settings) result" where
  "serve_settings_of os port dir =
     and_then (chain_config os) (\<lambda>(net, url, api_key).
     and_then (regtest_activation_override os net) (\<lambda>activation.
       Ok \<lparr>ss_port = serve_port os port, ss_health_port = saturating_inc16 (serve_port os port), ss_rpc_url = url,
           ss_api_key = api_key,
           ss_config = \<lparr>ic_network = net, ic_data_dir = node_data_dir os dir, ic_regtest_activation_override = activation\<rparr>\<rparr>))"

text \<open>The upstream is asked every five seconds until it is the right network and gives a tip; a panic of the
  source's task is a failure like any other. The loop may never end, so it takes fuel.\<close>

fun await_upstream ::
    "nat \<Rightarrow> hex_lib \<Rightarrow> 'e zebra \<Rightarrow> (nat \<Rightarrow> 'e \<Rightarrow> 'e) \<Rightarrow> network \<Rightarrow> 'e \<Rightarrow> 'e \<times> block_ref option" where
  "await_upstream 0 hx z sleep net e = (e, None)"
| "await_upstream (Suc fuel) hx z sleep net e =
     (case validate_source z net e of
        (e, Err _) \<Rightarrow> await_upstream fuel hx z sleep net (sleep 5 e)
      | (e, Ok _) \<Rightarrow>
          (case source_tip hx z e of
             (e, Some (Ok tip)) \<Rightarrow> (e, Some tip)
           | (e, _) \<Rightarrow> await_upstream fuel hx z sleep net (sleep 5 e)))"

section \<open>Reading the database\<close>

definition or_none :: "string option \<Rightarrow> string" where
  "or_none x = (case x of None \<Rightarrow> ''none'' | Some s \<Rightarrow> s)"

definition config_text :: "cli_error \<Rightarrow> string" where
  "config_text e = (case e of ConfigFailure m \<Rightarrow> m | _ \<Rightarrow> [])"

text \<open>\<open>node_status\<close>: without a configuration or a directory it only says so.\<close>

definition node_status ::
    "hex_lib \<Rightarrow> blake \<Rightarrow> 'd kv_ops \<Rightarrow> (string \<Rightarrow> bool) \<Rightarrow> (string \<Rightarrow> (cli_error, 'd) result) \<Rightarrow> 'w cli_os \<Rightarrow> (cli_error, string list) result" where
  "node_status hx blake kv dir_exists open_rocks os =
     (let dir = node_data_dir os None in
      case chain_config os of
        Err e \<Rightarrow> Ok [''Config: '' @ config_text e]
      | Ok (net, _, _) \<Rightarrow>
          if \<not> dir_exists dir then Ok [''No local state database at '' @ dir, ''Run `zalkanes node serve` first.'']
          else
            and_then (open_rocks dir) (\<lambda>d.
              Ok [''Zalkanes node status'',
                  ''  Network:          '' @ zebra_name net,
                  ''  Indexed height:   '' @ or_none (map_option (\<lambda>h. decimal (unat h)) (rocks_indexed_height kv d)),
                  ''  Indexed block:    '' @ or_none (map_option (hex32 hx) (rocks_indexed_block_hash kv d)),
                  ''  State root:       '' @ hex32 hx (rocks_compute_root blake kv d),
                  ''  Mainnet act.:     UNSET (pre-audit)'',
                  ''  Regtest act.:     1'']))"

definition state_root_command ::
    "hex_lib \<Rightarrow> blake \<Rightarrow> 'd kv_ops \<Rightarrow> (string \<Rightarrow> (cli_error, 'd) result) \<Rightarrow> 'w cli_os \<Rightarrow> u32 option \<Rightarrow> (cli_error, string) result" where
  "state_root_command hx blake kv open_rocks os height =
     and_then (open_rocks (node_data_dir os None)) (\<lambda>d.
       case height of
         None \<Rightarrow> Ok (hex32 hx (rocks_compute_root blake kv d))
       | Some h \<Rightarrow>
           (case find (\<lambda>r. hr_height r = h) (rocks_height_history kv d) of
              Some rec \<Rightarrow> Ok (hex32 hx (hr_root rec))
            | None \<Rightarrow> Ok (''(no record at height '' @ decimal (unat h) @ '')'')))"

section \<open>Choosing a command\<close>

datatype wallet_cmd =
    WalletCreate
  | WalletRestore u32
  | WalletAddress
  | WalletBalance
  | WalletStatus
  | WalletScan
  | WalletUnlock "u64 option"
  | WalletLock

text \<open>\<open>{:.8}\<close> of the amount in ZEC as a floating-point number shows its eight decimals exactly for every
  amount below the supply.\<close>

definition wallet_balance_command :: "'w cli_os \<Rightarrow> ('w, 'd, 'x, 'a) cli_db \<Rightarrow> network \<Rightarrow> ('w, 'd, unit) cli_step" where
  "wallet_balance_command os cd net =
     bind_step (open_locked_command os cd net) (\<lambda>(dir, wallet).
     bind_step (lift_step (map_err QueryFailure (wallet_balance (cd_notes cd) wallet))) (\<lambda>zat.
       print_lines [decimal (unat zat) @ '' zat ('' @ zat_to_zec zat @ '' ZEC)'']))"

definition wallet_command ::
    "'w cli_os \<Rightarrow> ('w, 'd, 'x, 'a) cli_db \<Rightarrow> wallet_cmd \<Rightarrow> ('w, 'd, unit) cli_step" where
  "wallet_command os cd cmd =
     bind_step (lift_step (network_from_env os)) (\<lambda>net.
     bind_step (lift_step (zcash_rpc_url os)) (\<lambda>zebra.
       case cmd of
         WalletCreate \<Rightarrow> wallet_create os cd net zebra
       | WalletRestore birthday \<Rightarrow> wallet_restore os cd net zebra birthday
       | WalletAddress \<Rightarrow> wallet_address os cd net
       | WalletBalance \<Rightarrow> wallet_balance_command os cd net
       | WalletStatus \<Rightarrow> wallet_status os cd net zebra
       | WalletScan \<Rightarrow> wallet_scan os cd net zebra
       | WalletUnlock ttl \<Rightarrow> wallet_unlock os net ttl
       | WalletLock \<Rightarrow> wallet_lock os net))"

datatype contract_cmd =
    ContractFund u32
  | ContractDeploy string funding_mode bool bool bool bool
  | ContractCall string u16 string funding_mode bool bool bool bool

text \<open>The flags are \<open>--dry-run\<close>, \<open>--yes\<close>, \<open>--confirm-mainnet\<close> and \<open>--wait\<close>.\<close>

definition contract_command ::
    "'m wasm_engine \<Rightarrow> blake \<Rightarrow> 'w cli_os \<Rightarrow> ('w, 'd, 'x, 'a) cli_db \<Rightarrow> ('w, 'x, 'k, 'b, 'p, 't) cli_pay \<Rightarrow> contract_cmd
      \<Rightarrow> ('w, 'd, unit) cli_step" where
  "contract_command eng blake os cd cp cmd =
     (case cmd of
        ContractFund blocks \<Rightarrow> contract_fund os cp blocks
      | ContractDeploy path funding dry_run yes confirm_mainnet wait \<Rightarrow>
          bind_step (lift_step (spend_options_of os funding dry_run yes confirm_mainnet)) (\<lambda>opts.
          bind_step (contract_deploy eng blake os cd cp path opts wait) (\<lambda>_. return_step ()))
      | ContractCall cid opcode input funding dry_run yes confirm_mainnet wait \<Rightarrow>
          bind_step (lift_step (spend_options_of os funding dry_run yes confirm_mainnet)) (\<lambda>opts.
          bind_step (contract_call os cd cp cid opcode input opts wait) (\<lambda>_. return_step ())))"

section \<open>Facts\<close>

text \<open>The activation height can only be moved on regtest.\<close>

lemma serve_settings_activation:
  assumes "serve_settings_of os port dir = Ok ss" "ic_network (ss_config ss) \<noteq> Regtest"
  shows "ic_regtest_activation_override (ss_config ss) = None"
  using assms by (auto simp: serve_settings_of_def regtest_activation_override_def split: option.splits if_splits)

text \<open>The tip a node starts with comes from a source of its own network.\<close>

lemma await_upstream_validated:
  assumes "await_upstream fuel hx z sleep net e = (e', Some tip)"
  shows "\<exists>e1 e2. validate_source z net e1 = (e2, Ok ()) \<and> source_tip hx z e2 = (e', Some (Ok tip))"
  using assms by (induction fuel arbitrary: e) (auto split: prod.splits sum.splits option.splits)

end
