(* ===== verification/Cli_Safety.thy ===== *)
theory Cli_Safety
  imports Cli_Node Cli_Consent
begin

text \<open>The flags of a contract command decide whether it may send anything at all.\<close>

section \<open>Without consent\<close>

lemma execute_request_quiet:
  assumes "quiet utxos" "opt_dry_run opts \<or> opt_network opts = Mainnet \<and> \<not> opt_confirm_mainnet opts"
  shows "quiet (execute_request os cd cp opts req required utxos)"
proof -
  have "only_prints s s'" if "execute_request os cd cp opts req required utxos s = (s', r)" for s s' r
    using execute_request_cases [OF that assms(1)] assms(2) by (auto simp: goes_on_def agreed_to_def)
  then show ?thesis by (simp add: keeps_def) (metis prod.collapse)
qed

lemma quiet_poll [quiet_steps]: "quiet (poll_indexed n cp url method key what)"
proof (induction n)
  case (Suc n)
  show ?case unfolding poll_indexed.simps Let_def by (rule quiet_steps Suc)+
qed (simp add: keeps_def only_prints_def)

lemma quiet_when_waiting [quiet_steps]: "quiet f \<Longrightarrow> quiet (when_waiting wait f)"
  unfolding when_waiting_def by (rule quiet_steps | assumption)+

lemma quiet_waits [quiet_steps]: "quiet (wait_for_contract os cp cid)" "quiet (wait_for_execution os cp txid)"
  unfolding wait_for_contract_def wait_for_execution_def by (rule quiet_steps)+

lemma quiet_fund: "quiet (contract_fund os cp blocks)"
  unfolding contract_fund_def Let_def by (rule quiet_steps)+

lemma quiet_call:
  assumes "opt_dry_run opts \<or> opt_network opts = Mainnet \<and> \<not> opt_confirm_mainnet opts"
  shows "quiet (contract_call os cd cp cid opcode input opts wait)"
  unfolding contract_call_def Let_def by (rule quiet_steps execute_request_quiet assms)+

lemma quiet_deploy:
  assumes "opt_dry_run opts \<or> opt_network opts = Mainnet \<and> \<not> opt_confirm_mainnet opts"
  shows "quiet (contract_deploy eng blake os cd cp path opts wait)"
proof -
  have "opt_dry_run (opts\<lparr>opt_funding := ModeTransparent\<rparr>)
      \<or> opt_network (opts\<lparr>opt_funding := ModeTransparent\<rparr>) = Mainnet \<and> \<not> opt_confirm_mainnet (opts\<lparr>opt_funding := ModeTransparent\<rparr>)"
    using assms by simp
  then have "quiet (deploy_stage os cd cp blake opts wait key chunks payload vs ch txid)" for key chunks payload vs ch txid
    unfolding deploy_stage_def Let_def by - (rule quiet_steps execute_request_quiet | assumption)+
  then show ?thesis
    unfolding contract_deploy_def Let_def by - (rule quiet_steps execute_request_quiet assms | assumption)+
qed

text \<open>A command with \<open>--dry-run\<close>, or one on mainnet without \<open>--confirm-mainnet\<close>.\<close>

fun not_to_send :: "'w cli_os \<Rightarrow> contract_cmd \<Rightarrow> bool" where
  "not_to_send os (ContractFund blocks) \<longleftrightarrow> True"
| "not_to_send os (ContractDeploy path funding dry_run yes confirm_mainnet wait) \<longleftrightarrow>
     dry_run \<or> network_from_env os = Ok Mainnet \<and> \<not> confirm_mainnet"
| "not_to_send os (ContractCall cid opcode input funding dry_run yes confirm_mainnet wait) \<longleftrightarrow>
     dry_run \<or> network_from_env os = Ok Mainnet \<and> \<not> confirm_mainnet"

lemma spend_options_flags:
  assumes "spend_options_of os funding dry_run yes confirm_mainnet = Ok opts"
  shows "opt_dry_run opts = dry_run" "network_from_env os = Ok (opt_network opts)" "opt_confirm_mainnet opts = confirm_mainnet"
  using assms by (auto simp: spend_options_of_def split: if_splits)

lemma quiet_command:
  assumes "not_to_send os cmd"
  shows "quiet (contract_command eng blake os cd cp cmd)"
proof (cases cmd)
  case (ContractFund blocks)
  then show ?thesis by (simp add: contract_command_def quiet_fund)
next
  case (ContractDeploy path funding dry_run yes confirm_mainnet wait)
  show ?thesis
  proof (cases "spend_options_of os funding dry_run yes confirm_mainnet")
    case (Inl e)
    then show ?thesis by (simp add: contract_command_def ContractDeploy bind_lift quiet_pure)
  next
    case (Inr opts)
    then have "quiet (contract_deploy eng blake os cd cp path opts wait)"
      using assms ContractDeploy spend_options_flags [OF Inr] by (intro quiet_deploy) auto
    then show ?thesis using Inr by (simp add: contract_command_def ContractDeploy bind_lift quiet_bind quiet_pure)
  qed
next
  case (ContractCall cid opcode input funding dry_run yes confirm_mainnet wait)
  show ?thesis
  proof (cases "spend_options_of os funding dry_run yes confirm_mainnet")
    case (Inl e)
    then show ?thesis by (simp add: contract_command_def ContractCall bind_lift quiet_pure)
  next
    case (Inr opts)
    then have "quiet (contract_call os cd cp cid opcode input opts wait)"
      using assms ContractCall spend_options_flags [OF Inr] by (intro quiet_call) auto
    then show ?thesis using Inr by (simp add: contract_command_def ContractCall bind_lift quiet_bind quiet_pure)
  qed
qed

text \<open>C26. A dry run sends nothing, and neither does an unconfirmed command on mainnet: whatever the node,
  the files and the terminal answer, and however far the command gets, no transaction leaves the
  process and the journal is as before. \<open>--yes\<close> does not stand for the confirmation.\<close>

theorem flags_keep_money:
  assumes "not_to_send os cmd" "contract_command eng blake os cd cp cmd s = (s', r)"
  shows "wl_events (mc_wallet s') = wl_events (mc_wallet s) \<and> wl_journal (mc_wallet s') = wl_journal (mc_wallet s)"
  using keepsD [OF quiet_command [OF assms(1)] assms(2)] by (simp add: only_prints_def)

definition demo_mainnet :: "'w cli_os \<Rightarrow> 'w cli_os" where
  "demo_mainnet os = os\<lparr>os_var := (\<lambda>v. if v = ''ZALKANES_NETWORK'' then Some ''mainnet'' else None)\<rparr>"

definition demo_unconfirmed :: contract_cmd where
  "demo_unconfirmed = ContractCall ''00'' 1 [] ModeAuto False True False False"

lemma flags_keep_money_witness:
  "\<forall>(eng :: unit wasm_engine) blake os (cd :: (unit, unit, unit, unit) cli_db) (cp :: (unit, unit, unit, unit, unit, unit) cli_pay)
      (s :: (unit, unit) machine). \<exists>s'.
    contract_command eng blake (demo_mainnet os) cd cp demo_unconfirmed s = (s', Err MainnetNotConfirmed)
    \<and> wl_events (mc_wallet s') = wl_events (mc_wallet s) \<and> wl_journal (mc_wallet s') = wl_journal (mc_wallet s)"
proof (intro allI)
  fix eng :: "unit wasm_engine" and blake and os :: "unit cli_os" and cd :: "(unit, unit, unit, unit) cli_db"
    and cp :: "(unit, unit, unit, unit, unit, unit) cli_pay" and s :: "(unit, unit) machine"
  have net: "network_from_env (demo_mainnet os) = Ok Mainnet"
    by (simp add: network_from_env_def demo_mainnet_def)
  then have "not_to_send (demo_mainnet os) demo_unconfirmed" by (simp add: demo_unconfirmed_def)
  moreover obtain s' where run: "contract_command eng blake (demo_mainnet os) cd cp demo_unconfirmed s = (s', Err MainnetNotConfirmed)"
    by (simp add: contract_command_def spend_options_of_def net bind_step_def demo_unconfirmed_def)
  ultimately show "\<exists>s'. contract_command eng blake (demo_mainnet os) cd cp demo_unconfirmed s = (s', Err MainnetNotConfirmed)
      \<and> wl_events (mc_wallet s') = wl_events (mc_wallet s) \<and> wl_journal (mc_wallet s') = wl_journal (mc_wallet s)"
    using flags_keep_money [OF _ run] by blast
qed

end
