(* ===== verification/Spec2Isabelle.thy ===== *)
theory Spec2Isabelle
  imports Pipeline State_Root Undo_Codec Sync_Props Recovery_Props Plan_Commit Plan_Stages Keystore_Props Rpc_Props Contract_Props
    Testkit_Props Shielded_Value Wallet_Select_Props Wallet_Source Cli_Live Cli_Gates Cli_Safety
begin

text \<open>
  A verification library for Zalkanes, a metaprotocol that runs WASM contracts on Zcash.

  \<^bold>\<open>The program.\<close> A contract is deployed and called by Zcash transactions whose OP_RETURN output
  holds a ZALK message and whose inputs carry the chunks of the module or of the call's input.
  The indexer follows a Zcash node, finds these messages in each block, runs the calls, and
  keeps the contracts, their storage and a state root in a database that can be rolled back.
  The wallet plans, signs and broadcasts the transactions and records each operation in a
  journal on disk. The command line drives the wallet and the contract commands, and starts the node.

  \<^bold>\<open>Theories, by part of the program.\<close> Source paths are below \<open>src/crates\<close>.

  \<^item> \<open>Prelude\<close>: result types, the \<open>step\<close> monad of stateful fallible operations, list, word and
    option lemmas, the collection \<open>params\<close> of consensus constants. \<open>Ordered_Map\<close>: \<open>BTreeMap\<close> as a
    sorted association list.
  \<^item> \<open>Core\<close> (\<open>zalkanes-core\<close>: types.rs, consensus.rs, consensus_params.rs): ids, networks, contract-id
    derivation, limits. \<open>Json\<close>: the JSON values and accessors the code uses.
  \<^item> \<open>Protocol\<close> (\<open>zalkanes-protocol\<close>): OP_RETURN parser and encoders, and that the parser accepts
    exactly the encodings of the messages within the bounds of docs/protocol-v0.md and of two kinds
    that this document forbids and the parser does not check.
  \<^item> \<open>Carrier\<close> (\<open>zalkanes-carrier\<close>): script pushes, carrier chunks, reconstruction of a module
    from its chunks, exactly when the chunks are the pieces of the committed module.
  \<^item> \<open>Tx_Script\<close>, \<open>Tx_Plan\<close> (\<open>zalkanes-tx\<close>): scripts, sizes, fees, splitting into chunks, the
    PREPARE, DEPLOY and CALL plans and their assembly; value conservation and standardness.
  \<^item> \<open>State_Spec\<close> (\<open>zalkanes-state\<close>: BlockCommit, StateStore): the operations of a store as the
    record \<open>store_ops\<close>, the abstract \<open>ledger\<close> of committed blocks, and the locales
    \<open>state_store\<close>, \<open>total_store\<close>: the contract every store keeps. \<open>State_Mem\<close> (MemoryState) and
    \<open>State_Rocks\<close>, \<open>Undo_Codec\<close> (RocksState, its batches and the serialized undo journal) are
    the two stores; \<open>State_Rocks_Refine\<close> shows that they refine the ledger, over any key-value
    store that keeps the contract \<open>kv_store\<close>. \<open>State_Props\<close> and \<open>State_Root\<close> hold the properties.
  \<^item> \<open>Runtime\<close>, \<open>Runtime_Props\<close> (\<open>zalkanes-runtime\<close>): validation of modules, the six host
    functions, execution of a call as a \<open>run\<close> tree of host calls, panics included.
  \<^item> \<open>Indexer\<close> (\<open>zalkanes-indexer\<close>: lib.rs, parse.rs): one block from its bytes to its commit.
    \<open>Indexer_Steps\<close> and \<open>Indexer_Bounds\<close> hold the invariants of a block's progress,
    \<open>Indexer_Refine\<close> that a commit is one step of the ledger, \<open>Indexer_Props\<close> the properties.
    \<open>Write_Order\<close>: what the calls of one block, each run on the storage before the block, leave
    in the database.
    \<open>Pipeline\<close> joins \<open>Tx_Plan\<close> and \<open>Indexer\<close>: what is planned and mined is deployed.
  \<^item> \<open>Health\<close>, \<open>Sync\<close> (\<open>zalkanes-indexer\<close>: sync.rs): the liveness record, reorg handling, one
    tick and the loop, over an environment \<open>upstream\<close> of the chain source, the clock and the
    stop flag. \<open>Chain\<close> (\<open>zalkanes-chain\<close>): the chain source over JSON-RPC and that it is a stable
    source when the node answers honestly (locales \<open>honest_node\<close>, \<open>stable_source\<close>).
    \<open>Sync_Chain\<close>: what following a chain means. \<open>Sync_Node\<close>: reorg handling and ticks against a
    stable chain, in the locale \<open>sync_node\<close>. \<open>Sync_Safety\<close>: what holds against any source, after
    any number of ticks (\<open>passes\<close>). \<open>Sync_Props\<close> holds the properties, for RocksState over a total
    key-value store. Following a chain is shown for a fork that is not taller than the node's chain:
    against a taller one the code only reports transient errors (\<open>taller_fork_sticks\<close>).
  \<^item> \<open>Journal\<close>, \<open>Journal_Props\<close> (\<open>zalkanes-wallet\<close>: journal.rs): the operation journal, its stage
    machine and its SQL faults. \<open>Broadcast\<close> (broadcast.rs): sending a verified transaction and
    reconciling with the node. \<open>Recovery\<close> (recovery.rs): startup recovery. \<open>Broadcast_Props\<close>,
    \<open>Reconcile_Props\<close> and \<open>Recovery_Props\<close> hold the properties; sends and lock releases are
    recorded as events with the journal as it was on disk at that moment.
  \<^item> \<open>Policy\<close> (policy.rs, funding.rs), \<open>Plan\<close> (plan.rs), \<open>Transparent\<close> (transparent.rs and how a plan
    is shown): privacy policies, requests, transparent plans with their stages and verification.
    \<open>Plan_Commit\<close>: the plan commitment binds the plan. \<open>Plan_Verify\<close>: a verified DEPLOY is what the
    indexer deploys. \<open>Plan_Stages\<close>: planned transactions verify, and a plan gives out one
    transaction at most.
  \<^item> \<open>Shielded\<close>, \<open>Shielded_Verify\<close>, \<open>Shielded_Plan\<close> (shielded.rs): planning with shielded notes, the
    verification of the finalized PCZT and of the final transaction, and the stages.
    \<open>Shielded_Props\<close>: the only value that moves is the planned one. \<open>Shielded_Value\<close>: plans
    conserve value.
  \<^item> \<open>Wallet_Db\<close>, \<open>Wallet_Scan\<close>, \<open>Wallet_Select\<close> (sqlite.rs): opening, unlocking and creating the
    shielded wallet, scanning to the tip with reorgs, selecting and locking notes, over the database
    records \<open>account_db\<close>, \<open>scan_db\<close>, \<open>note_db\<close> and a \<open>chain_source\<close>. \<open>Wallet_Follow\<close>: what is assumed of
    a steady source and of the stored blocks, and the rules \<open>step_runs\<close> for the steps of a scan.
    \<open>Wallet_Scan_Props\<close>: scanning ends in sync. \<open>Wallet_Select_Props\<close>: what is handed to a plan, and
    that it keeps what \<open>Shielded_Value\<close> assumes of a wallet. \<open>Wallet_Source\<close> (chain_source.rs): the
    source over JSON-RPC with its retries, and that it is steady.
  \<^item> \<open>Keystore\<close>, \<open>Keystore_Props\<close> (keystore.rs): the encrypted seed file; \<open>create\<close> yields every state
    of the disk a crash can leave, none of which loses or corrupts a seed.
  \<^item> \<open>Rpc\<close>, \<open>Rpc_Props\<close> (\<open>zalkanes-rpc\<close>: lib.rs; the health probe of \<open>zalkanes-cli\<close>): the handlers
    and the health endpoint; a processed block is what they answer. A loop that gave up makes the node
    process exit (\<open>sync_task_end\<close>), and until then the handlers report it.
  \<^item> \<open>Sdk\<close> (\<open>zalkanes-sdk\<close>: lib.rs), \<open>Contracts\<close> (src/contracts: counter, key-value, token): the guest
    side of the host functions, one rule per SDK function in the locale \<open>guest_memory\<close>, and the
    contracts as run trees. \<open>Token_Props\<close>: the token implements an abstract ledger of
    natural-number balances. \<open>Contract_Props\<close> holds the properties: a second \<open>initialize\<close> and two mints
    in one block break the token's supply, and without them it is the sum of the balances.
  \<^item> \<open>Testkit\<close>, \<open>Testkit_Props\<close> (\<open>zalkanes-testkit\<close>: lib.rs): the test chain, and that what a test
    deploys is deployed.

  \<^item> \<open>Funding_Plan\<close> (plan.rs: FundingPlan; recovery.rs: record_plan): a plan over either pool.
    \<open>Cli_Session\<close>, \<open>Cli_Spend\<close> (\<open>zalkanes-cli\<close>: wallet_cmd.rs): the wallet commands, the armed session,
    and the way of a request from the choice of the pool through the confirmation and the journal
    to the node, as steps on the state \<open>machine\<close> of the wallet, the disk, the databases and the output.
    \<open>Cli_Contract\<close> (main.rs, rpc.rs): deploying, calling, funding, waiting for blocks and for the index.
    \<open>Cli_Node\<close> (main.rs): the settings of a node, its status commands and the choice of a command.
    \<open>Cli_Props\<close>: the rules \<open>quiet_steps\<close> for the steps that neither send nor touch the journal.
    \<open>Cli_Consent\<close>: what a request does, by cases: planned, shown, agreed to, signed, sent. \<open>Cli_Live\<close>:
    nothing is sent without consent, and a confirmed request is sent. \<open>Cli_Gates\<close>: the session, the gates before shielded funds, and carriers
    that pay for their deployment. \<open>Cli_Safety\<close>: the flags of a contract command decide whether it sends.

  \<^bold>\<open>Correspondence.\<close> Definitions keep the names of the source; a struct is a record with a
  two-letter prefix on its fields, an enum is a datatype. Rust's \<open>Result\<close> is a sum with \<open>Err\<close> and
  \<open>Ok\<close>; integers are words of their width, with wrap-around where the code has plain
  arithmetic in release mode. Hash functions, the hex and base-encoding crates, serde, RocksDB,
  wasmi, wasmparser, librustzcash, SQLite, HTTP and the node are parameters, with what the code
  relies on as locale assumptions or hypotheses, each with an instance. Logging and
  metrics are left out.

  \<^bold>\<open>Loops.\<close> A host call tree is finite, so execution is structural. The loops of \<open>Sync\<close> take
  fuel, and running out of it is the value \<open>OutOfFuel\<close>, never success. For a tick against a
  stable node, fuel above the number of stored heights (each reorg step removes one) and above
  the tip's height (each turn commits one block) is enough, and the claim proves that it ends;
  on mainnet no fuel is enough, and the claim says so. The outer loop runs until it is
  stopped, so its claims are for every number of iterations, of a loop that has ended or goes on. The scan of the wallet takes fuel as
  well: more than the number of blocks from the birthday to the tip is enough. Waiting for a
  confirmation on testnet and for the upstream of a node may never end, so both take fuel, and no
  claim says that they end; waiting for the index asks 120 times, as the code does.

  \<^bold>\<open>Not modelled.\<close> The error type of \<open>zalkanes-core\<close> has no logic. The contract \<open>caller\<close> imports a host function that the
  host does not provide. Of the command line, argument parsing, \<open>contract build\<close> and
  \<open>contract view\<close> (one call each of cargo and of the node), starting the servers and progress lines are
  left out. The build script, tests, fuzz targets, examples and deployment files hold no logic of
  their own to verify.
\<close>

end
